(* ===== verification/Prelude.thy ===== *)
theory Prelude
  imports Main "HOL-Library.Word"
begin

unbundle bit_operations_syntax

text \<open>
  The prelude of the development: the machine types of the 64-bit little-endian target
  (\<^verbatim>\<open>arm64-v8a\<close>, the ABI the repository ships), the outcome type of a C fragment that may
  touch memory, the byte-addressed memory with its little-endian loads and stores, C
  strings in that memory, and the lemma collections that the component theories share.
\<close>

section \<open>Machine types\<close>

type_synonym u8 = "8 word"
type_synonym u16 = "16 word"
type_synonym u32 = "32 word"
type_synonym u64 = "64 word"
type_synonym addr = "64 word"

section \<open>Lemma collections\<close>

named_theorems run_simps \<open>rewriting of outcomes of C fragments\<close>
named_theorems mem_simps \<open>loads after stores, layout of memory\<close>
named_theorems errno_defs \<open>the error numbers of libxhook\<close>

section \<open>Outcomes of C fragments\<close>

text \<open>
  A fragment of C either returns a value, raises \<^verbatim>\<open>SIGSEGV\<close> at a memory access, or does
  something the C standard leaves undefined (a shift by the width or more, a division by
  zero). The three are kept apart: libxhook recovers from the second only.
\<close>

datatype 'a run = Ret 'a | Segv | Undef

fun run_bind :: "'a run \<Rightarrow> ('a \<Rightarrow> 'b run) \<Rightarrow> 'b run" where
  "run_bind (Ret x) f = f x"
| "run_bind Segv f = Segv"
| "run_bind Undef f = Undef"

lemma run_bind_eq_Ret [run_simps]:
  "run_bind m f = Ret y \<longleftrightarrow> (\<exists>x. m = Ret x \<and> f x = Ret y)"
  by (cases m) auto

lemma run_bind_Ret [simp]: "run_bind m Ret = m"
  by (cases m) auto

lemma run_bind_assoc [run_simps]:
  "run_bind (run_bind m f) g = run_bind m (\<lambda>x. run_bind (f x) g)"
  by (cases m) auto

lemma run_bind_cong [fundef_cong]:
  "m = m' \<Longrightarrow> (\<And>x. m' = Ret x \<Longrightarrow> f x = f' x) \<Longrightarrow> run_bind m f = run_bind m' f'"
  by (cases m') auto

text \<open>\<open>returns P r\<close>: the run ends normally, in a value with property \<open>P\<close>.\<close>

fun returns :: "('a \<Rightarrow> bool) \<Rightarrow> 'a run \<Rightarrow> bool" where
  "returns P (Ret x) = P x"
| "returns P Segv = False"
| "returns P Undef = False"

lemma returns_iff [run_simps]: "returns P r \<longleftrightarrow> (\<exists>x. r = Ret x \<and> P x)"
  by (cases r) auto

section \<open>Memory\<close>

text \<open>
  The memory of the process, byte by byte. \<open>None\<close> is an address with no mapped page;
  \<open>mbytes\<close> is the contents and \<open>mprot\<close> the protection of the page the address lies in
  (the bits of \<^verbatim>\<open>PROT_READ\<close> 1, \<^verbatim>\<open>PROT_WRITE\<close> 2, \<^verbatim>\<open>PROT_EXEC\<close> 4). A read of a page without
  \<^verbatim>\<open>PROT_READ\<close> and a write of a page without \<^verbatim>\<open>PROT_WRITE\<close> raise \<^verbatim>\<open>SIGSEGV\<close>.
\<close>

record memory =
  mbytes :: "addr \<Rightarrow> u8"
  mprot :: "addr \<Rightarrow> u32 option"

definition readable :: "memory \<Rightarrow> addr \<Rightarrow> bool" where
  "readable m a = (case mprot m a of None \<Rightarrow> False | Some p \<Rightarrow> bit p 0)"

definition writable :: "memory \<Rightarrow> addr \<Rightarrow> bool" where
  "writable m a = (case mprot m a of None \<Rightarrow> False | Some p \<Rightarrow> bit p 1)"

definition load8 :: "memory \<Rightarrow> addr \<Rightarrow> u8 run" where
  "load8 m a = (if readable m a then Ret (mbytes m a) else Segv)"

definition store8 :: "memory \<Rightarrow> addr \<Rightarrow> u8 \<Rightarrow> memory run" where
  "store8 m a b = (if writable m a then Ret (m\<lparr>mbytes := (mbytes m)(a := b)\<rparr>) else Segv)"

text \<open>Little-endian reads and writes of \<open>n\<close> bytes.\<close>

fun load_le :: "memory \<Rightarrow> nat \<Rightarrow> addr \<Rightarrow> 'a::len word run" where
  "load_le m 0 a = Ret 0"
| "load_le m (Suc n) a =
     run_bind (load8 m a) (\<lambda>b. run_bind (load_le m n (a + 1)) (\<lambda>w. Ret (ucast b OR push_bit 8 w)))"

fun store_le :: "memory \<Rightarrow> nat \<Rightarrow> addr \<Rightarrow> 'a::len word \<Rightarrow> memory run" where
  "store_le m 0 a w = Ret m"
| "store_le m (Suc n) a w =
     run_bind (store8 m a (ucast w)) (\<lambda>m'. store_le m' n (a + 1) (drop_bit 8 w))"

definition load16 :: "memory \<Rightarrow> addr \<Rightarrow> u16 run" where "load16 m a = load_le m 2 a"
definition load32 :: "memory \<Rightarrow> addr \<Rightarrow> u32 run" where "load32 m a = load_le m 4 a"
definition load64 :: "memory \<Rightarrow> addr \<Rightarrow> u64 run" where "load64 m a = load_le m 8 a"
definition store64 :: "memory \<Rightarrow> addr \<Rightarrow> u64 \<Rightarrow> memory run" where "store64 m a w = store_le m 8 a w"

text \<open>\<open>mem_at m a bs\<close>: the readable bytes at \<open>a\<close> are \<open>bs\<close>.\<close>

fun mem_at :: "memory \<Rightarrow> addr \<Rightarrow> u8 list \<Rightarrow> bool" where
  "mem_at m a [] = True"
| "mem_at m a (b # bs) = (load8 m a = Ret b \<and> mem_at m (a + 1) bs)"

lemma mem_at_append [mem_simps]:
  "mem_at m a (xs @ ys) \<longleftrightarrow> mem_at m a xs \<and> mem_at m (a + of_nat (length xs)) ys"
  by (induction xs arbitrary: a) (auto simp: algebra_simps)

text \<open>A memory image: the given bytes at \<open>a\<close>, readable and writable, over a memory.\<close>

fun put_bytes :: "addr \<Rightarrow> u8 list \<Rightarrow> memory \<Rightarrow> memory" where
  "put_bytes a [] m = m"
| "put_bytes a (b # bs) m =
     put_bytes (a + 1) bs (m\<lparr>mbytes := (mbytes m)(a := b), mprot := (mprot m)(a := Some 3)\<rparr>)"

definition no_memory :: memory where
  "no_memory = \<lparr>mbytes = (\<lambda>_. 0), mprot = (\<lambda>_. None)\<rparr>"

lemmas mem_eval = load_le.simps load8_def readable_def no_memory_def

section \<open>C strings in memory\<close>

text \<open>
  A C string value is the list of its characters before the terminating NUL.
  \<open>strcmp_eq m s a\<close> is \<^verbatim>\<open>0 == strcmp(s, (const char *)a)\<close>: it reads memory byte by byte up to
  the first difference.
\<close>

fun strcmp_eq :: "memory \<Rightarrow> string \<Rightarrow> addr \<Rightarrow> bool run" where
  "strcmp_eq m [] a = run_bind (load8 m a) (\<lambda>b. Ret (b = 0))"
| "strcmp_eq m (c # cs) a =
     run_bind (load8 m a) (\<lambda>b. if b = of_char c then strcmp_eq m cs (a + 1) else Ret False)"

definition c_bytes :: "string \<Rightarrow> u8 list" where
  "c_bytes s = map of_char s @ [0]"

lemma unat_of_char_u8: "unat (of_char c :: u8) = of_char c"
proof -
  have "(of_char c :: u8) = of_nat (of_char c)"
    by (simp only: of_nat_of_char)
  then show ?thesis
    using nat_of_char_less_256 [of c] by (simp only: unat_of_nat) simp
qed

lemma of_char_u8_inj [simp]: "(of_char c :: u8) = of_char d \<longleftrightarrow> c = d"
  by (metis unat_of_char_u8 of_char_eq_iff)

lemma strcmp_eq_True: "strcmp_eq m s a = Ret True \<longleftrightarrow> mem_at m a (c_bytes s)"
  by (induction s arbitrary: a) (auto simp: c_bytes_def run_simps)

section \<open>Word arithmetic used by several components\<close>

lemma word_less_not_le [simp]: "(a :: 'a::len word) < b \<Longrightarrow> \<not> b \<le> a"
  by (simp only: not_le)

lemma word_le_not_less [simp]: "(a :: 'a::len word) \<le> b \<Longrightarrow> \<not> b < a"
  by (simp only: not_less)

lemma unat_u64_less: "unat (w :: u64) < 2 ^ 64"
  using unsigned_less [of w, where 'a = nat] by simp

lemma unat_less_step: "(a :: 'a::len word) < b \<Longrightarrow> unat b - unat (a + 1) < unat b - unat a"
  by unat_arith

lemma unat_plus1: "unat (w :: u64) < unat (v :: u64) \<Longrightarrow> unat (w + 1) = unat w + 1"
  by unat_arith

lemma unat_add_ucast32:
  fixes a :: u64 and b :: u32
  assumes "unat a + unat b < 2 ^ 64"
  shows "unat (a + ucast b) = unat a + unat b"
proof -
  have "unat (ucast b :: u64) = unat b"
    using unsigned_less [of b, where 'a = nat] by (simp add: unsigned_ucast_eq take_bit_nat_eq_self)
  with assms show ?thesis by (simp add: unat_word_ariths)
qed
section \<open>Fragments that update memory\<close>

text \<open>
  A fragment that writes to memory gives its outcome together with the memory it leaves
  behind: libxhook returns from a \<^verbatim>\<open>SIGSEGV\<close> handler by \<^verbatim>\<open>siglongjmp\<close>, after which the writes
  made before the fault are still there.
\<close>

type_synonym 'a mrun = "'a run \<times> memory"

definition mret :: "'a \<Rightarrow> memory \<Rightarrow> 'a mrun" where "mret x m = (Ret x, m)"

definition mbind :: "'a mrun \<Rightarrow> ('a \<Rightarrow> memory \<Rightarrow> 'b mrun) \<Rightarrow> 'b mrun" where
  "mbind r f = (case r of (Ret x, m) \<Rightarrow> f x m | (Segv, m) \<Rightarrow> (Segv, m) | (Undef, m) \<Rightarrow> (Undef, m))"

definition mread :: "memory \<Rightarrow> 'a run \<Rightarrow> 'a mrun" where "mread m r = (r, m)"

definition mwrite :: "memory \<Rightarrow> memory run \<Rightarrow> unit mrun" where
  "mwrite m r = (case r of Ret m' \<Rightarrow> (Ret (), m') | Segv \<Rightarrow> (Segv, m) | Undef \<Rightarrow> (Undef, m))"

lemma mbind_simps [simp]:
  "mbind (Ret x, m) f = f x m" "mbind (Segv, m) f = (Segv, m)" "mbind (Undef, m) f = (Undef, m)"
  by (simp_all add: mbind_def)

lemma mread_simps [simp]: "mread m r = (r, m)"
  by (simp add: mread_def)

lemma mwrite_simps [simp]:
  "mwrite m (Ret m') = (Ret (), m')" "mwrite m Segv = (Segv, m)" "mwrite m Undef = (Undef, m)"
  by (simp_all add: mwrite_def)

lemma mret_simps [simp]: "mret x m = (Ret x, m)"
  by (simp add: mret_def)

section \<open>Loads after stores\<close>

fun get_le :: "(addr \<Rightarrow> u8) \<Rightarrow> nat \<Rightarrow> addr \<Rightarrow> 'a::len word" where
  "get_le f 0 a = 0"
| "get_le f (Suc n) a = ucast (f a) OR push_bit 8 (get_le f n (a + 1))"

fun upd_le :: "(addr \<Rightarrow> u8) \<Rightarrow> nat \<Rightarrow> addr \<Rightarrow> 'a::len word \<Rightarrow> (addr \<Rightarrow> u8)" where
  "upd_le f 0 a w = f"
| "upd_le f (Suc n) a w = upd_le (f(a := ucast w)) n (a + 1) (drop_bit 8 w)"

definition all_readable :: "memory \<Rightarrow> addr \<Rightarrow> nat \<Rightarrow> bool" where
  "all_readable m a n = (\<forall>i<n. readable m (a + of_nat i))"

definition all_writable :: "memory \<Rightarrow> addr \<Rightarrow> nat \<Rightarrow> bool" where
  "all_writable m a n = (\<forall>i<n. writable m (a + of_nat i))"

definition in_range :: "addr \<Rightarrow> addr \<Rightarrow> nat \<Rightarrow> bool" where
  "in_range b a n = (unat (b - a) < n)"

lemma all_less_Suc_shift: "(\<forall>i<Suc n. P i) \<longleftrightarrow> P 0 \<and> (\<forall>i<n. P (Suc i))"
  by (auto simp: less_Suc_eq_0_disj)

lemma load_le_get: "all_readable m a n \<Longrightarrow> load_le m n a = Ret (get_le (mbytes m) n a)"
  unfolding all_readable_def
proof (induction n arbitrary: a)
  case (Suc n)
  then have "readable m a" "\<forall>i<n. readable m (a + 1 + of_nat i)"
    by (auto simp: all_less_Suc_shift algebra_simps)
  with Suc.IH show ?case by (simp add: load8_def)
qed simp

lemma store_le_upd:
  "all_writable m a n \<Longrightarrow> store_le m n a w = Ret (m\<lparr>mbytes := upd_le (mbytes m) n a w\<rparr>)"
  unfolding all_writable_def
proof (induction n arbitrary: m a w)
  case (Suc n)
  then have w: "writable m a" "\<forall>i<n. writable m (a + 1 + of_nat i)"
    by (auto simp: all_less_Suc_shift algebra_simps)
  then have "\<forall>i<n. writable (m\<lparr>mbytes := (mbytes m)(a := ucast w)\<rparr>) (a + 1 + of_nat i)"
    by (simp add: writable_def)
  from Suc.IH [OF this, of "drop_bit 8 w"] w(1) show ?case by (simp add: store8_def fun_upd_def)
qed simp

lemma store_le_fails:
  "\<not> all_writable m a n \<Longrightarrow> store_le m n a w = Segv"
  unfolding all_writable_def
proof (induction n arbitrary: m a w)
  case (Suc n)
  show ?case
  proof (cases "writable m a")
    case True
    with Suc.prems have "\<not> (\<forall>i<n. writable (m\<lparr>mbytes := (mbytes m)(a := ucast w)\<rparr>) (a + 1 + of_nat i))"
      unfolding all_less_Suc_shift by (simp add: writable_def algebra_simps)
    from Suc.IH [OF this, of "drop_bit 8 w"] True show ?thesis by (simp add: store8_def)
  qed (simp add: store8_def)
qed simp

lemma in_range_iff: "n \<le> 2 ^ 64 \<Longrightarrow> in_range b a n \<longleftrightarrow> (\<exists>i<n. b = a + of_nat i)"
proof
  assume "in_range b a n"
  then show "\<exists>i<n. b = a + of_nat i"
    by (intro exI [of _ "unat (b - a)"]) (simp add: in_range_def)
next
  assume "n \<le> 2 ^ 64" "\<exists>i<n. b = a + of_nat i"
  then show "in_range b a n" by (auto simp: in_range_def unat_of_nat)
qed

lemma upd_le_other: "(\<forall>i<n. b \<noteq> a + of_nat i) \<Longrightarrow> upd_le f n a w b = f b"
proof (induction n arbitrary: f a w)
  case (Suc n)
  then have "b \<noteq> a" "\<forall>i<n. b \<noteq> a + 1 + of_nat i" by (auto simp: all_less_Suc_shift algebra_simps)
  with Suc.IH show ?case by simp
qed simp

lemma upd_le_same:
  "i < n \<Longrightarrow> n \<le> 2 ^ 64 \<Longrightarrow> upd_le f n a w (a + of_nat i) = ucast (drop_bit (8 * i) w)"
proof (induction n arbitrary: f a w i)
  case (Suc n)
  show ?case
  proof (cases i)
    case 0
    have "\<forall>j<n. a \<noteq> a + 1 + of_nat j"
    proof (intro allI impI notI)
      fix j assume j: "j < n" "a = a + 1 + of_nat j"
      then have "(of_nat (Suc j) :: u64) = 0" by (simp add: algebra_simps)
      then have "unat (of_nat (Suc j) :: u64) = 0" by (simp only: unsigned_0)
      moreover have "unat (of_nat (Suc j) :: u64) = Suc j mod 2 ^ 64"
        by (simp only: unat_of_nat take_bit_eq_mod) simp
      moreover have "Suc j < 2 ^ 64" using j(1) Suc.prems(2) by simp
      ultimately show False by simp
    qed
    with 0 show ?thesis by (simp add: upd_le_other)
  next
    case (Suc k)
    with Suc.IH [of k "f(a := ucast w)" "a + 1" "drop_bit 8 w"] Suc.prems show ?thesis
      by (simp add: drop_bit_drop_bit fun_upd_def algebra_simps)
  qed
qed simp

lemma bit_get_le:
  "bit (get_le f n a :: 'a::len word) k \<longleftrightarrow>
     k < LENGTH('a) \<and> k div 8 < n \<and> bit (f (a + of_nat (k div 8))) (k mod 8)"
proof (induction n arbitrary: a k)
  case (Suc n)
  show ?case
  proof (cases "k < 8")
    case True
    then show ?thesis by (auto simp: bit_simps)
  next
    case False
    then have k: "k div 8 = Suc ((k - 8) div 8)" "k mod 8 = (k - 8) mod 8"
      by (simp_all add: le_div_geq le_mod_geq)
    have nb: "\<not> bit (f a) k" using False bit_imp_le_length [of "f a" k] by auto
    show ?thesis using False nb Suc.IH [of "a + 1" "k - 8"]
      by (auto simp: bit_simps k algebra_simps)
  qed
qed simp

lemma get_upd_le:
  assumes "LENGTH('a) \<le> 8 * n" "n \<le> 2 ^ 64"
  shows "get_le (upd_le f n a w) n a = (w :: 'a::len word)"
proof (rule bit_word_eqI)
  fix k assume k: "k < LENGTH('a)"
  then have "k div 8 < n" using assms(1) by auto
  moreover have "8 * (k div 8) + k mod 8 = k" by simp
  ultimately show "bit (get_le (upd_le f n a w) n a :: 'a word) k = bit w k"
    using k assms(2) by (simp add: bit_get_le upd_le_same bit_simps)
qed

lemma get_le_cong: "(\<forall>i<n. f (a + of_nat i) = g (a + of_nat i)) \<Longrightarrow> get_le f n a = get_le g n a"
proof (induction n arbitrary: a)
  case (Suc n)
  then have "f a = g a" "\<forall>i<n. f (a + 1 + of_nat i) = g (a + 1 + of_nat i)"
    by (auto simp: all_less_Suc_shift algebra_simps)
  with Suc.IH [of "a + 1"] show ?case by simp
qed simp

definition disjoint8 :: "addr \<Rightarrow> addr \<Rightarrow> bool" where
  "disjoint8 a b \<longleftrightarrow> 8 \<le> unat (a - b) \<and> 8 \<le> unat (b - a)"

lemma disjoint8_neq:
  assumes "disjoint8 a b" "i < 8" "j < 8"
  shows "a + of_nat i \<noteq> b + of_nat j"
proof
  assume e: "a + of_nat i = b + of_nat j"
  show False
  proof (cases "i \<le> j")
    case True
    with e have "a - b = of_nat (j - i)" by (simp add: of_nat_diff algebra_simps)
    moreover have "unat (of_nat (j - i) :: u64) < 8" using assms(3) by (simp add: unat_of_nat)
    ultimately show ?thesis using assms(1) by (simp add: disjoint8_def)
  next
    case False
    with e have "b - a = of_nat (i - j)" by (simp add: of_nat_diff algebra_simps)
    moreover have "unat (of_nat (i - j) :: u64) < 8" using assms(2) by (simp add: unat_of_nat)
    ultimately show ?thesis using assms(1) by (simp add: disjoint8_def)
  qed
qed

lemma load64_get: "all_readable m a 8 \<Longrightarrow> load64 m a = Ret (get_le (mbytes m) 8 a)"
  by (simp add: load64_def load_le_get)

lemma load_le_Ret_readable: "load_le m n a = Ret w \<Longrightarrow> all_readable m a n"
  unfolding all_readable_def
proof (induction n arbitrary: a w)
  case (Suc n)
  then obtain w' where "readable m a" "load_le m n (a + 1) = Ret (w' :: 'a word)"
    by (auto simp: run_simps load8_def split: if_splits)
  with Suc.IH [of "a + 1" w'] show ?case by (auto simp: all_less_Suc_shift algebra_simps)
qed simp

lemma load64_readable: "load64 m a = Ret w \<Longrightarrow> all_readable m a 8"
  unfolding load64_def by (rule load_le_Ret_readable)


lemma unat_offset: "unat a + i < 2 ^ 64 \<Longrightarrow> unat ((a :: u64) + of_nat i) = unat a + i"
  by (simp add: unat_word_ariths unat_of_nat)

lemma not_in_range_below: "unat b < unat a \<Longrightarrow> unat a + n \<le> 2 ^ 64 \<Longrightarrow> \<not> in_range b a n"
  by (simp add: in_range_def unat_sub_if')

lemma load_le_numeral:
  "load_le m (numeral k) a =
     run_bind (load8 m a) (\<lambda>b. run_bind (load_le m (pred_numeral k) (a + 1)) (\<lambda>w. Ret (ucast b OR push_bit 8 w)))"
  by (simp add: numeral_eq_Suc)

lemma upd_le_numeral:
  "upd_le f (numeral k) a w = upd_le (f(a := ucast w)) (pred_numeral k) (a + 1) (drop_bit 8 w)"
  by (simp add: numeral_eq_Suc)


lemmas load_eval = load_le_numeral load8_def readable_def load32_def load64_def


lemma above_both: obtains n :: nat where "a < n" "b < n"
  by (rule that [of "Suc (max a b)"]) auto

end
