(* ===== verification/Xh_Reloc.thy ===== *)
theory Xh_Reloc
  imports Prelude
begin

unbundle bit_operations_syntax

text \<open>
  The relocation readers of \<^verbatim>\<open>libxhook/xh_elf.c\<close>: the iterator over a plain \<^verbatim>\<open>.rel(a).plt\<close> or
  \<^verbatim>\<open>.rel(a).dyn\<close> table, the SLEB128 decoder, and the iterator over Android's packed
  \<^verbatim>\<open>.rel(a).android\<close> stream (format \<^verbatim>\<open>APS2\<close>). The lemmas show that the decoder inverts the
  standard SLEB128 encoding without leaving defined behaviour, that the packed iterator
  inverts a packing of relocation groups, and that both iterators meet the contract
  \<open>reloc_iterator\<close> under which the loops of \<^verbatim>\<open>xh_elf_hook\<close> end.
\<close>

section \<open>Error numbers\<close>

definition XH_ERRNO_UNKNOWN :: int where [errno_defs]: "XH_ERRNO_UNKNOWN = 1001"
definition XH_ERRNO_INVAL :: int where [errno_defs]: "XH_ERRNO_INVAL = 1002"
definition XH_ERRNO_NOMEM :: int where [errno_defs]: "XH_ERRNO_NOMEM = 1003"
definition XH_ERRNO_NOTFND :: int where [errno_defs]: "XH_ERRNO_NOTFND = 1005"
definition XH_ERRNO_BADMAPS :: int where [errno_defs]: "XH_ERRNO_BADMAPS = 1006"
definition XH_ERRNO_FORMAT :: int where [errno_defs]: "XH_ERRNO_FORMAT = 1007"
definition XH_ERRNO_ELFINIT :: int where [errno_defs]: "XH_ERRNO_ELFINIT = 1008"
definition XH_ERRNO_SEGVERR :: int where [errno_defs]: "XH_ERRNO_SEGVERR = 1009"

section \<open>Plain relocation tables\<close>

definition sizeof_Rela :: addr where "sizeof_Rela = 24"
definition sizeof_Rel :: addr where "sizeof_Rel = 16"

record xh_elf_plain_reloc_iterator_t =
  plain_cur :: addr
  plain_end :: addr
  plain_is_use_rela :: bool

definition xh_elf_plain_reloc_iterator_init ::
    "addr \<Rightarrow> u32 \<Rightarrow> bool \<Rightarrow> xh_elf_plain_reloc_iterator_t" where
  "xh_elf_plain_reloc_iterator_init rel rel_sz is_use_rela =
     \<lparr>plain_cur = rel, plain_end = rel + ucast rel_sz, plain_is_use_rela = is_use_rela\<rparr>"

text \<open>\<open>None\<close> is the NULL the C function returns at the end of the table.\<close>

definition xh_elf_plain_reloc_iterator_next ::
    "xh_elf_plain_reloc_iterator_t \<Rightarrow> addr option \<times> xh_elf_plain_reloc_iterator_t" where
  "xh_elf_plain_reloc_iterator_next self =
     (if plain_cur self \<ge> plain_end self then (None, self)
      else (Some (plain_cur self),
            self\<lparr>plain_cur := plain_cur self +
                   (if plain_is_use_rela self then sizeof_Rela else sizeof_Rel)\<rparr>))"

section \<open>The SLEB128 decoder\<close>

record xh_elf_sleb128_decoder_t =
  sleb_cur :: addr
  sleb_end :: addr

definition xh_elf_sleb128_decoder_init :: "addr \<Rightarrow> u32 \<Rightarrow> xh_elf_sleb128_decoder_t" where
  "xh_elf_sleb128_decoder_init rel rel_sz = \<lparr>sleb_cur = rel, sleb_end = rel + ucast rel_sz\<rparr>"

text \<open>
  The \<^verbatim>\<open>do\<close>-loop of the decoder: \<open>None\<close> when the input ends inside a number, otherwise the
  value, the shift and the last byte. A shift count of 64 or more is undefined in C.
\<close>

function sleb128_loop ::
    "memory \<Rightarrow> addr \<Rightarrow> addr \<Rightarrow> u64 \<Rightarrow> u64 \<Rightarrow> ((u64 \<times> u64 \<times> u8) option \<times> addr) run" where
  "sleb128_loop m cur en value shift =
     (if cur \<ge> en then Ret (None, cur)
      else run_bind (load8 m cur) (\<lambda>byte.
        if shift \<ge> 64 then Undef
        else
          (let value' = value OR push_bit (unat shift) (ucast (byte AND 127));
               shift' = shift + 7
           in if byte AND 128 \<noteq> 0 then sleb128_loop m (cur + 1) en value' shift'
              else Ret (Some (value', shift', byte), cur + 1))))"
  by pat_completeness auto
termination
  by (relation "measure (\<lambda>(m, cur, en, value, shift). unat en - unat cur)")
    (auto simp: not_le unat_less_step)

declare sleb128_loop.simps [simp del]

text \<open>
  \<open>Inl e\<close> is the error return, \<open>Inr v\<close> the return 0 with \<^verbatim>\<open>*ret = v\<close>; the decoder's cursor moves
  in both.
\<close>

definition xh_elf_sleb128_decoder_next ::
    "memory \<Rightarrow> xh_elf_sleb128_decoder_t \<Rightarrow> ((int + u64) \<times> xh_elf_sleb128_decoder_t) run" where
  "xh_elf_sleb128_decoder_next m self =
     run_bind (sleb128_loop m (sleb_cur self) (sleb_end self) 0 0) (\<lambda>(r, cur').
       Ret (case r of
              None \<Rightarrow> Inl XH_ERRNO_FORMAT
            | Some (value, shift, byte) \<Rightarrow>
                Inr (if shift < 64 \<and> byte AND 64 \<noteq> 0
                     then value OR - push_bit (unat shift) 1 else value),
            self\<lparr>sleb_cur := cur'\<rparr>))"

section \<open>Packed relocations\<close>

record xh_elf_packed_reloc_iterator_t =
  decoder :: xh_elf_sleb128_decoder_t
  relocation_count :: u64
  group_size :: u64
  group_flags :: u64
  group_r_offset_delta :: u64
  relocation_index :: u64
  relocation_group_index :: u64
  it_r_offset :: addr
  it_r_info :: u64
  it_r_addend :: u64
  it_is_use_rela :: bool

text \<open>
  The fields \<^verbatim>\<open>rela\<close> and \<^verbatim>\<open>rel\<close> of the C structure only hold the entry a call returns a pointer
  to; the model returns the entry itself.
\<close>

record packed_entry =
  pe_r_offset :: addr
  pe_r_info :: u64
  pe_r_addend :: u64

definition RELOCATION_GROUPED_BY_INFO_FLAG :: u64 where
  "RELOCATION_GROUPED_BY_INFO_FLAG = 1"
definition RELOCATION_GROUPED_BY_OFFSET_DELTA_FLAG :: u64 where
  "RELOCATION_GROUPED_BY_OFFSET_DELTA_FLAG = 2"
definition RELOCATION_GROUPED_BY_ADDEND_FLAG :: u64 where
  "RELOCATION_GROUPED_BY_ADDEND_FLAG = 4"
definition RELOCATION_GROUP_HAS_ADDEND_FLAG :: u64 where
  "RELOCATION_GROUP_HAS_ADDEND_FLAG = 8"

lemmas reloc_flag_defs =
  RELOCATION_GROUPED_BY_INFO_FLAG_def RELOCATION_GROUPED_BY_OFFSET_DELTA_FLAG_def
  RELOCATION_GROUPED_BY_ADDEND_FLAG_def RELOCATION_GROUP_HAS_ADDEND_FLAG_def

text \<open>
  \<^verbatim>\<open>if(0 != (r = xh_elf_sleb128_decoder_next(&(self->decoder), &x))) return r;\<close>: the next number
  goes to the continuation, an error becomes the value \<open>err e\<close>.
\<close>

definition next_number ::
    "memory \<Rightarrow> xh_elf_packed_reloc_iterator_t \<Rightarrow> (int \<Rightarrow> 'b)
     \<Rightarrow> (u64 \<Rightarrow> xh_elf_packed_reloc_iterator_t \<Rightarrow> ('b \<times> xh_elf_packed_reloc_iterator_t) run)
     \<Rightarrow> ('b \<times> xh_elf_packed_reloc_iterator_t) run" where
  "next_number m self err k =
     run_bind (xh_elf_sleb128_decoder_next m (decoder self)) (\<lambda>(r, d).
       case r of Inl e \<Rightarrow> Ret (err e, self\<lparr>decoder := d\<rparr>)
               | Inr v \<Rightarrow> k v (self\<lparr>decoder := d\<rparr>))"

definition xh_elf_packed_reloc_iterator_init ::
    "memory \<Rightarrow> addr \<Rightarrow> u32 \<Rightarrow> bool \<Rightarrow> (int \<times> xh_elf_packed_reloc_iterator_t) run" where
  "xh_elf_packed_reloc_iterator_init m rel rel_sz is_use_rela =
     next_number m
       \<lparr>decoder = xh_elf_sleb128_decoder_init rel rel_sz, relocation_count = 0,
        group_size = 0, group_flags = 0, group_r_offset_delta = 0, relocation_index = 0,
        relocation_group_index = 0, it_r_offset = 0, it_r_info = 0, it_r_addend = 0,
        it_is_use_rela = is_use_rela\<rparr>
       id
       (\<lambda>count self. next_number m (self\<lparr>relocation_count := count\<rparr>) id
         (\<lambda>off self. Ret (0, self\<lparr>it_r_offset := off\<rparr>)))"

definition read_group_delta ::
    "memory \<Rightarrow> xh_elf_packed_reloc_iterator_t
     \<Rightarrow> (xh_elf_packed_reloc_iterator_t \<Rightarrow> (int \<times> xh_elf_packed_reloc_iterator_t) run)
     \<Rightarrow> (int \<times> xh_elf_packed_reloc_iterator_t) run" where
  "read_group_delta m self k =
     (if group_flags self AND RELOCATION_GROUPED_BY_OFFSET_DELTA_FLAG \<noteq> 0
      then next_number m self id (\<lambda>v self. k (self\<lparr>group_r_offset_delta := v\<rparr>))
      else k self)"

definition read_group_info ::
    "memory \<Rightarrow> xh_elf_packed_reloc_iterator_t
     \<Rightarrow> (xh_elf_packed_reloc_iterator_t \<Rightarrow> (int \<times> xh_elf_packed_reloc_iterator_t) run)
     \<Rightarrow> (int \<times> xh_elf_packed_reloc_iterator_t) run" where
  "read_group_info m self k =
     (if group_flags self AND RELOCATION_GROUPED_BY_INFO_FLAG \<noteq> 0
      then next_number m self id (\<lambda>v self. k (self\<lparr>it_r_info := v\<rparr>))
      else k self)"

definition read_group_addend ::
    "memory \<Rightarrow> xh_elf_packed_reloc_iterator_t
     \<Rightarrow> (xh_elf_packed_reloc_iterator_t \<Rightarrow> (int \<times> xh_elf_packed_reloc_iterator_t) run)
     \<Rightarrow> (int \<times> xh_elf_packed_reloc_iterator_t) run" where
  "read_group_addend m self k =
     (if group_flags self AND RELOCATION_GROUP_HAS_ADDEND_FLAG \<noteq> 0 \<and>
         group_flags self AND RELOCATION_GROUPED_BY_ADDEND_FLAG \<noteq> 0
      then if \<not> it_is_use_rela self then Ret (XH_ERRNO_FORMAT, self)
           else next_number m self id
                  (\<lambda>v self. k (self\<lparr>it_r_addend := it_r_addend self + v\<rparr>))
      else if group_flags self AND RELOCATION_GROUP_HAS_ADDEND_FLAG = 0
      then k (self\<lparr>it_r_addend := 0\<rparr>)
      else k self)"

definition xh_elf_packed_reloc_iterator_read_group_fields ::
    "memory \<Rightarrow> xh_elf_packed_reloc_iterator_t \<Rightarrow> (int \<times> xh_elf_packed_reloc_iterator_t) run" where
  "xh_elf_packed_reloc_iterator_read_group_fields m self =
     next_number m self id (\<lambda>size self.
       next_number m (self\<lparr>group_size := size\<rparr>) id (\<lambda>flags self.
         read_group_delta m (self\<lparr>group_flags := flags\<rparr>) (\<lambda>self.
           read_group_info m self (\<lambda>self.
             read_group_addend m self (\<lambda>self.
               Ret (0, self\<lparr>relocation_group_index := 0\<rparr>))))))"

text \<open>The rest of \<^verbatim>\<open>xh_elf_packed_reloc_iterator_next\<close> once the group fields are read.\<close>

definition packed_next_offset ::
    "memory \<Rightarrow> xh_elf_packed_reloc_iterator_t
     \<Rightarrow> (xh_elf_packed_reloc_iterator_t \<Rightarrow> (packed_entry option \<times> xh_elf_packed_reloc_iterator_t) run)
     \<Rightarrow> (packed_entry option \<times> xh_elf_packed_reloc_iterator_t) run" where
  "packed_next_offset m self k =
     (if group_flags self AND RELOCATION_GROUPED_BY_OFFSET_DELTA_FLAG \<noteq> 0
      then k (self\<lparr>it_r_offset := it_r_offset self + group_r_offset_delta self\<rparr>)
      else next_number m self (\<lambda>_. None)
             (\<lambda>v self. k (self\<lparr>it_r_offset := it_r_offset self + v\<rparr>)))"

definition packed_next_info ::
    "memory \<Rightarrow> xh_elf_packed_reloc_iterator_t
     \<Rightarrow> (xh_elf_packed_reloc_iterator_t \<Rightarrow> (packed_entry option \<times> xh_elf_packed_reloc_iterator_t) run)
     \<Rightarrow> (packed_entry option \<times> xh_elf_packed_reloc_iterator_t) run" where
  "packed_next_info m self k =
     (if group_flags self AND RELOCATION_GROUPED_BY_INFO_FLAG = 0
      then next_number m self (\<lambda>_. None) (\<lambda>v self. k (self\<lparr>it_r_info := v\<rparr>))
      else k self)"

definition packed_next_addend ::
    "memory \<Rightarrow> xh_elf_packed_reloc_iterator_t
     \<Rightarrow> (xh_elf_packed_reloc_iterator_t \<Rightarrow> (packed_entry option \<times> xh_elf_packed_reloc_iterator_t) run)
     \<Rightarrow> (packed_entry option \<times> xh_elf_packed_reloc_iterator_t) run" where
  "packed_next_addend m self k =
     (if it_is_use_rela self \<and>
         group_flags self AND RELOCATION_GROUP_HAS_ADDEND_FLAG \<noteq> 0 \<and>
         group_flags self AND RELOCATION_GROUPED_BY_ADDEND_FLAG = 0
      then next_number m self (\<lambda>_. None)
             (\<lambda>v self. k (self\<lparr>it_r_addend := it_r_addend self + v\<rparr>))
      else k self)"

definition packed_next_entry ::
    "memory \<Rightarrow> xh_elf_packed_reloc_iterator_t
     \<Rightarrow> (packed_entry option \<times> xh_elf_packed_reloc_iterator_t) run" where
  "packed_next_entry m self =
     packed_next_offset m self (\<lambda>self.
       packed_next_info m self (\<lambda>self.
         packed_next_addend m self (\<lambda>self.
           Ret (Some \<lparr>pe_r_offset = it_r_offset self, pe_r_info = it_r_info self,
                      pe_r_addend = (if it_is_use_rela self then it_r_addend self else 0)\<rparr>,
                self\<lparr>relocation_index := relocation_index self + 1,
                     relocation_group_index := relocation_group_index self + 1\<rparr>))))"

definition xh_elf_packed_reloc_iterator_next ::
    "memory \<Rightarrow> xh_elf_packed_reloc_iterator_t
     \<Rightarrow> (packed_entry option \<times> xh_elf_packed_reloc_iterator_t) run" where
  "xh_elf_packed_reloc_iterator_next m self =
     (if relocation_index self \<ge> relocation_count self then Ret (None, self)
      else if relocation_group_index self = group_size self
      then run_bind (xh_elf_packed_reloc_iterator_read_group_fields m self) (\<lambda>(r, self).
             if r \<noteq> 0 then Ret (None, self) else packed_next_entry m self)
      else packed_next_entry m self)"

section \<open>The loop over an iterator\<close>

text \<open>
  The three loops of \<^verbatim>\<open>xh_elf_hook\<close> have one shape:
  \<^verbatim>\<open>while(NULL != (rel_common = next(&iter))) { if(0 != (r = body(rel_common, &found))) return r;
  if(found) break; }\<close>. The outcome \<open>None\<close> is a loop that never ends; inside \<open>Some\<close> stand the
  outcome (a fault, \<open>Ret (Some r)\<close> for the early return of \<open>r\<close>, \<open>Ret None\<close> for a loop that ran
  to its end) and the memory the loop leaves behind, which a fault leaves half updated.
\<close>

partial_function (option) reloc_loop ::
    "(memory \<Rightarrow> 's \<Rightarrow> ('r option \<times> 's) run) \<Rightarrow> (memory \<Rightarrow> 'r \<Rightarrow> (int \<times> bool) run \<times> memory)
     \<Rightarrow> memory \<Rightarrow> 's \<Rightarrow> (int option run \<times> memory) option" where
  [code]: "reloc_loop nxt body m self =
     (case nxt m self of
        Segv \<Rightarrow> Some (Segv, m)
      | Undef \<Rightarrow> Some (Undef, m)
      | Ret (rel_common, self') \<Rightarrow>
          (case rel_common of
             None \<Rightarrow> Some (Ret None, m)
           | Some e \<Rightarrow>
               (case body m e of (res, m') \<Rightarrow>
                  (case res of
                     Segv \<Rightarrow> Some (Segv, m')
                   | Undef \<Rightarrow> Some (Undef, m')
                   | Ret (r, found) \<Rightarrow>
                       if r \<noteq> 0 then Some (Ret (Some r), m')
                       else if found then Some (Ret None, m')
                       else reloc_loop nxt body m' self'))))"

text \<open>What an iterator delivers when it is asked at most \<open>n\<close> times.\<close>

fun iter_collect ::
    "(memory \<Rightarrow> 's \<Rightarrow> ('r option \<times> 's) run) \<Rightarrow> memory \<Rightarrow> nat \<Rightarrow> 's \<Rightarrow> ('r list \<times> 's) run" where
  "iter_collect nxt m 0 self = Ret ([], self)"
| "iter_collect nxt m (Suc n) self =
     run_bind (nxt m self) (\<lambda>(r, self').
       case r of None \<Rightarrow> Ret ([], self')
       | Some e \<Rightarrow> run_bind (iter_collect nxt m n self') (\<lambda>(es, s). Ret (e # es, s)))"

text \<open>The same loop over a list of entries, by structural recursion.\<close>

fun reloc_fold ::
    "(memory \<Rightarrow> 'r \<Rightarrow> (int \<times> bool) run \<times> memory) \<Rightarrow> memory \<Rightarrow> 'r list \<Rightarrow> int option run \<times> memory" where
  "reloc_fold body m [] = (Ret None, m)"
| "reloc_fold body m (e # es) =
     (case body m e of (res, m') \<Rightarrow>
        (case res of
           Segv \<Rightarrow> (Segv, m')
         | Undef \<Rightarrow> (Undef, m')
         | Ret (r, found) \<Rightarrow>
             if r \<noteq> 0 then (Ret (Some r), m')
             else if found then (Ret None, m')
             else reloc_fold body m' es))"

section \<open>The contract of a relocation iterator\<close>

text \<open>
  What \<^verbatim>\<open>xh_elf_hook\<close> relies on: each entry delivered keeps the iterator's invariant, brings its
  end nearer, and the iterator looks only at the memory in \<open>reads\<close>. From that the loop ends,
  and it is the structural loop over the entries, although its body writes to memory.
\<close>

locale reloc_iterator =
  fixes nxt :: "memory \<Rightarrow> 's \<Rightarrow> ('r option \<times> 's) run"
    and inv :: "'s \<Rightarrow> bool"
    and left :: "'s \<Rightarrow> nat"
    and reads :: "'s \<Rightarrow> addr set"
  assumes step_inv: "inv s \<Longrightarrow> nxt m s = Ret (Some e, s') \<Longrightarrow> inv s'"
    and step_left: "inv s \<Longrightarrow> nxt m s = Ret (Some e, s') \<Longrightarrow> left s' < left s"
    and step_reads: "inv s \<Longrightarrow> nxt m s = Ret (Some e, s') \<Longrightarrow> reads s' \<subseteq> reads s"
    and nxt_local: "(\<And>a. a \<in> reads s \<Longrightarrow> load8 m a = load8 m' a) \<Longrightarrow> nxt m s = nxt m' s"
begin

lemma loop_ends: "inv s \<Longrightarrow> \<exists>r. reloc_loop nxt body m s = Some r"
proof (induction s arbitrary: m rule: measure_induct_rule [of left])
  case (less s)
  show ?case
  proof (cases "nxt m s")
    case (Ret x)
    obtain r s' where x: "x = (r, s')" by (cases x)
    show ?thesis
    proof (cases r)
      case None
      with Ret x show ?thesis by (subst reloc_loop.simps) simp
    next
      case (Some e)
      with Ret x less.prems have "inv s'" "left s' < left s" by (auto intro: step_inv step_left)
      with less.IH have "\<exists>r. reloc_loop nxt body m' s' = Some r" for m' by blast
      with Ret x Some show ?thesis
        by (subst reloc_loop.simps) (simp split: prod.split run.split)
    qed
  qed (subst reloc_loop.simps, simp)+
qed

lemma loop_fold: "inv s \<Longrightarrow> left s \<le> n \<Longrightarrow> iter_collect nxt m n s = Ret (es, s')
   \<Longrightarrow> (\<And>m' a. a \<in> reads s \<Longrightarrow> ok m' \<Longrightarrow> load8 m' a = load8 m a)
   \<Longrightarrow> (\<And>m' e r m''. ok m' \<Longrightarrow> e \<in> set es \<Longrightarrow> body m' e = (r, m'') \<Longrightarrow> ok m'')
   \<Longrightarrow> ok m0 \<Longrightarrow> n > left s \<Longrightarrow> reloc_loop nxt body m0 s = Some (reloc_fold body m0 es)"
proof (induction n arbitrary: s es m0)
  case 0
  then show ?case by simp
next
  case (Suc n)
  have loc: "nxt m0 s = nxt m s" using Suc.prems(4,6) by (intro nxt_local) auto
  from Suc.prems(3) obtain r s1 where n1: "nxt m s = Ret (r, s1)" by (auto simp: run_simps)
  show ?case
  proof (cases r)
    case None
    with n1 Suc.prems(3) loc show ?thesis by (subst reloc_loop.simps) auto
  next
    case (Some e)
    with n1 Suc.prems(3) obtain es' where es: "es = e # es'" "iter_collect nxt m n s1 = Ret (es', s')"
      by (auto simp: run_simps)
    have s1: "inv s1" "left s1 < left s" "reads s1 \<subseteq> reads s"
      using Suc.prems(1) n1 Some step_inv step_left step_reads by blast+
    have keep: "ok m''" if "ok m'" "e' \<in> set es'" "body m' e' = (r', m'')" for m' e' r' m''
      using that(2) by (intro Suc.prems(5) [OF that(1) _ that(3)]) (simp add: es)
    have rd: "load8 m' a = load8 m a" if "a \<in> reads s1" "ok m'" for m' a
      using that s1(3) Suc.prems(4) by blast
    have "reloc_loop nxt body m1 s1 = Some (reloc_fold body m1 es')" if "ok m1" for m1
      using Suc.prems(2,7) that s1 by (intro Suc.IH [OF s1(1) _ es(2) rd keep]) auto
    moreover obtain res m1 where b: "body m0 e = (res, m1)" by (cases "body m0 e")
    moreover have "ok m1" using Suc.prems(5) [OF Suc.prems(6) _ b] es(1) by simp
    ultimately show ?thesis
      using n1 Some loc es by (subst reloc_loop.simps) (auto split: prod.split run.split)
  qed
qed

end

section \<open>The plain iterator meets the contract\<close>

definition plain_next :: "memory \<Rightarrow> xh_elf_plain_reloc_iterator_t \<Rightarrow> (addr option \<times> xh_elf_plain_reloc_iterator_t) run" where
  "plain_next m self = Ret (xh_elf_plain_reloc_iterator_next self)"

definition plain_inv :: "xh_elf_plain_reloc_iterator_t \<Rightarrow> bool" where
  "plain_inv self = (unat (plain_end self) + 24 \<le> 2 ^ 64)"

definition plain_left :: "xh_elf_plain_reloc_iterator_t \<Rightarrow> nat" where
  "plain_left self = unat (plain_end self) - unat (plain_cur self)"

lemma plain_next_step:
  assumes "plain_inv self" "plain_next m self = Ret (Some e, self')"
  shows "e = plain_cur self" "plain_cur self < plain_end self" "plain_end self' = plain_end self"
    "plain_is_use_rela self' = plain_is_use_rela self"
    "unat (plain_cur self') = unat (plain_cur self) + (if plain_is_use_rela self then 24 else 16)"
proof -
  show "plain_cur self < plain_end self" "e = plain_cur self" "plain_end self' = plain_end self"
    "plain_is_use_rela self' = plain_is_use_rela self"
    using assms(2) by (auto simp: plain_next_def xh_elf_plain_reloc_iterator_next_def split: if_splits)
  then have "unat (plain_cur self) + 24 < 2 ^ 64"
    using assms(1) by (simp add: plain_inv_def word_less_nat_alt)
  then have "unat (plain_cur self + 24) = unat (plain_cur self) + 24"
      "unat (plain_cur self + 16) = unat (plain_cur self) + 16"
    by (simp_all add: unat_word_ariths)
  then show "unat (plain_cur self') = unat (plain_cur self) + (if plain_is_use_rela self then 24 else 16)"
    using assms(2) by (auto simp: plain_next_def xh_elf_plain_reloc_iterator_next_def
        sizeof_Rela_def sizeof_Rel_def split: if_splits)
qed

interpretation plain: reloc_iterator plain_next plain_inv plain_left "\<lambda>_. {}"
proof
  fix s s' :: xh_elf_plain_reloc_iterator_t and m e
  assume a: "plain_inv s" "plain_next m s = Ret (Some e, s')"
  note st = plain_next_step [OF a]
  from a st show "plain_inv s'" by (simp add: plain_inv_def)
  from st show "plain_left s' < plain_left s" by (auto simp: plain_left_def word_less_nat_alt)
qed (simp_all add: plain_next_def)

fun plain_entries :: "addr \<Rightarrow> nat \<Rightarrow> nat \<Rightarrow> addr list" where
  "plain_entries rel sz k = map (\<lambda>i. rel + of_nat (i * sz)) [0 ..< k]"

lemma plain_collect_upt:
  assumes "plain_inv self" "sz = (if plain_is_use_rela self then 24 else 16)"
    "unat (plain_cur self) + k * sz = unat (plain_end self)" "k < n"
  shows "\<exists>s'. iter_collect plain_next m n self = Ret (plain_entries (plain_cur self) sz k, s')"
  using assms
proof (induction k arbitrary: self n)
  case 0
  then have "plain_next m self = Ret (None, self)"
    by (simp add: plain_next_def xh_elf_plain_reloc_iterator_next_def word_le_nat_alt)
  with 0 show ?case by (cases n) auto
next
  case (Suc k)
  have "plain_cur self < plain_end self" using Suc.prems by (auto simp: word_less_nat_alt split: if_splits)
  then obtain self' where nx: "plain_next m self = Ret (Some (plain_cur self), self')"
    and c: "plain_cur self' = plain_cur self + of_nat sz"
    using Suc.prems(2) by (auto simp: plain_next_def xh_elf_plain_reloc_iterator_next_def sizeof_Rela_def sizeof_Rel_def)
  note st = plain_next_step [OF Suc.prems(1) nx]
  obtain n' where n: "n = Suc n'" using Suc.prems(4) by (cases n) auto
  have "plain_inv self'" using st Suc.prems(1) by (simp add: plain_inv_def)
  then obtain s' where "iter_collect plain_next m n' self' = Ret (plain_entries (plain_cur self') sz k, s')"
    using Suc.IH [of self' n'] Suc.prems st n by auto
  moreover have "plain_entries (plain_cur self) sz (Suc k) =
      plain_cur self # plain_entries (plain_cur self') sz k"
    by (simp add: c upt_conv_Cons map_Suc_upt [symmetric] algebra_simps del: upt_Suc)
  ultimately show ?case using nx n by auto
qed

section \<open>The packed iterator meets the contract\<close>

definition sleb_reads :: "xh_elf_sleb128_decoder_t \<Rightarrow> addr set" where
  "sleb_reads d = {a. sleb_cur d \<le> a \<and> a < sleb_end d}"

lemma sleb128_loop_cursor:
  "sleb128_loop m cur en acc shift = Ret (r, cur') \<Longrightarrow>
     (cur \<ge> en \<longrightarrow> r = None \<and> cur' = cur) \<and> (r = None \<longrightarrow> \<not> cur' < en) \<and> (cur \<le> en \<longrightarrow> cur \<le> cur' \<and> cur' \<le> en)"
proof (induction m cur en acc shift rule: sleb128_loop.induct)
  case (1 m cur en acc shift)
  show ?case
  proof (cases "cur \<ge> en")
    case True
    with "1.prems" show ?thesis by (subst (asm) sleb128_loop.simps) auto
  next
    case False
    then have lt: "cur < en" by simp
    then have c1: "cur \<le> cur + 1" "cur + 1 \<le> en" by unat_arith+
    from "1.prems" False obtain b where b: "load8 m cur = Ret b" "\<not> shift \<ge> 64"
      by (subst (asm) sleb128_loop.simps) (auto simp: run_simps split: if_splits)
    show ?thesis
    proof (cases "b AND 128 = 0")
      case True
      with "1.prems" False b c1 show ?thesis
        by (subst (asm) sleb128_loop.simps) (auto simp: Let_def)
    next
      case b7: False
      with "1.prems" False b have "sleb128_loop m (cur + 1) en (acc OR push_bit (unat shift) (ucast (b AND 127))) (shift + 7) = Ret (r, cur')"
        by (subst (asm) sleb128_loop.simps) (simp add: Let_def)
      from "1.IH" [OF False b(1) b(2) refl refl b7 this] c1 False show ?thesis by auto
    qed
  qed
qed

lemma sleb128_loop_local:
  "(\<And>a. cur \<le> a \<Longrightarrow> a < en \<Longrightarrow> load8 m a = load8 m' a) \<Longrightarrow>
   sleb128_loop m cur en acc shift = sleb128_loop m' cur en acc shift"
proof (induction m cur en acc shift rule: sleb128_loop.induct)
  case (1 m cur en acc shift)
  show ?case
  proof (cases "cur \<ge> en")
    case True
    then show ?thesis by (subst (1 2) sleb128_loop.simps) simp
  next
    case False
    then have lt: "cur < en" by simp
    then have c1: "cur \<le> cur + 1" by unat_arith
    have l: "load8 m cur = load8 m' cur" using 1 lt by auto
    have "sleb128_loop m (cur + 1) en v (shift + 7) = sleb128_loop m' (cur + 1) en v (shift + 7)"
      if "load8 m cur = Ret b" "\<not> 64 \<le> shift" "b AND 128 \<noteq> 0"
         "v = acc OR push_bit (unat shift) (ucast (b AND 127))" for b v
      using "1.IH" [OF False that(1,2,4) refl that(3)] "1.prems" c1 by auto
    with l show ?thesis
      by (subst (1 2) sleb128_loop.simps) (cases "load8 m' cur"; simp add: Let_def)
  qed
qed

lemma decoder_next_reads:
  assumes "xh_elf_sleb128_decoder_next m d = Ret (r, d')"
  shows "sleb_reads d' \<subseteq> sleb_reads d"
proof -
  from assms obtain q c where "sleb128_loop m (sleb_cur d) (sleb_end d) 0 0 = Ret (q, c)"
      and d': "d' = d\<lparr>sleb_cur := c\<rparr>"
    by (auto simp: xh_elf_sleb128_decoder_next_def run_simps)
  from sleb128_loop_cursor [OF this(1)] d' show ?thesis
    by (cases "sleb_cur d \<le> sleb_end d") (auto simp: sleb_reads_def)
qed

lemma decoder_next_local:
  "(\<And>a. a \<in> sleb_reads d \<Longrightarrow> load8 m a = load8 m' a) \<Longrightarrow>
   xh_elf_sleb128_decoder_next m d = xh_elf_sleb128_decoder_next m' d"
  using sleb128_loop_local [of "sleb_cur d" "sleb_end d" m m' 0 0]
  by (simp add: xh_elf_sleb128_decoder_next_def sleb_reads_def)

definition packed_reads :: "xh_elf_packed_reloc_iterator_t \<Rightarrow> addr set" where
  "packed_reads self = sleb_reads (decoder self)"

definition packed_keeps :: "xh_elf_packed_reloc_iterator_t \<Rightarrow> xh_elf_packed_reloc_iterator_t \<Rightarrow> bool" where
  "packed_keeps self self' \<longleftrightarrow> packed_reads self' \<subseteq> packed_reads self \<and>
     relocation_count self' = relocation_count self \<and> relocation_index self' = relocation_index self"

lemma packed_keeps_refl: "packed_keeps self self"
  by (simp add: packed_keeps_def)

lemma packed_keeps_upd:
  "packed_keeps base (s\<lparr>group_size := x\<rparr>) = packed_keeps base s"
  "packed_keeps base (s\<lparr>group_flags := x\<rparr>) = packed_keeps base s"
  "packed_keeps base (s\<lparr>group_r_offset_delta := x\<rparr>) = packed_keeps base s"
  "packed_keeps base (s\<lparr>relocation_group_index := x\<rparr>) = packed_keeps base s"
  "packed_keeps base (s\<lparr>it_r_offset := x\<rparr>) = packed_keeps base s"
  "packed_keeps base (s\<lparr>it_r_info := x\<rparr>) = packed_keeps base s"
  "packed_keeps base (s\<lparr>it_r_addend := x\<rparr>) = packed_keeps base s"
  by (simp_all add: packed_keeps_def packed_reads_def)

lemma next_number_rule:
  assumes "next_number m self err k = Ret (x, s')" "packed_keeps base self"
    and "\<And>e self1. packed_keeps base self1 \<Longrightarrow> P (err e) self1"
    and "\<And>v self1. packed_keeps base self1 \<Longrightarrow> k v self1 = Ret (x, s') \<Longrightarrow> P x s'"
  shows "P x s'"
proof -
  from assms(1) obtain r d where n: "xh_elf_sleb128_decoder_next m (decoder self) = Ret (r, d)"
    by (auto simp: next_number_def run_simps)
  have "packed_keeps base (self\<lparr>decoder := d\<rparr>)"
    using decoder_next_reads [OF n] assms(2) by (auto simp: packed_keeps_def packed_reads_def)
  with assms n show ?thesis by (cases r) (auto simp: next_number_def)
qed

lemma next_number_local:
  assumes "packed_keeps base self" "\<And>a. a \<in> packed_reads base \<Longrightarrow> load8 m a = load8 m' a"
    and "\<And>v self1. packed_keeps base self1 \<Longrightarrow> k v self1 = k' v self1"
  shows "next_number m self err k = next_number m' self err k'"
proof -
  have "xh_elf_sleb128_decoder_next m (decoder self) = xh_elf_sleb128_decoder_next m' (decoder self)"
    using assms(1,2) by (intro decoder_next_local) (auto simp: packed_keeps_def packed_reads_def)
  then show ?thesis
    using assms(1,3) unfolding next_number_def packed_keeps_def packed_reads_def
    by (intro run_bind_cong) (auto dest: decoder_next_reads split: sum.split)
qed

lemma read_group_fields_keeps:
  assumes "xh_elf_packed_reloc_iterator_read_group_fields m self = Ret (r, self')"
  shows "packed_keeps self self'"
  using assms
  by (auto simp: xh_elf_packed_reloc_iterator_read_group_fields_def read_group_delta_def
      read_group_info_def read_group_addend_def packed_keeps_upd packed_keeps_refl split: if_splits
      elim!: next_number_rule [where base = self])

definition packed_step ::
    "xh_elf_packed_reloc_iterator_t \<Rightarrow> packed_entry option \<Rightarrow> xh_elf_packed_reloc_iterator_t \<Rightarrow> bool" where
  "packed_step self r self' \<longleftrightarrow> r = None \<or> packed_reads self' \<subseteq> packed_reads self \<and>
     relocation_count self' = relocation_count self \<and> relocation_index self' = relocation_index self + 1"

lemma packed_step_None: "packed_step self None self'"
  by (simp add: packed_step_def)

lemma packed_step_upd:
  "packed_keeps self s \<Longrightarrow> i = relocation_index s + 1 \<Longrightarrow>
   packed_step self r (s\<lparr>relocation_index := i, relocation_group_index := x\<rparr>)"
  by (simp add: packed_step_def packed_keeps_def packed_reads_def)

lemma packed_next_entry_step:
  assumes "packed_next_entry m self1 = Ret (r, self')" "packed_keeps self self1"
  shows "packed_step self r self'"
  using assms
  by (auto simp: packed_next_entry_def packed_next_offset_def packed_next_info_def packed_next_addend_def
       packed_keeps_upd packed_step_None split: if_splits
       intro!: packed_step_upd
       elim!: next_number_rule [where base = self])

lemma packed_next_step:
  assumes "xh_elf_packed_reloc_iterator_next m self = Ret (Some e, self')"
  shows "relocation_index self < relocation_count self" "packed_step self (Some e) self'"
  using assms
  by (auto simp: xh_elf_packed_reloc_iterator_next_def run_simps packed_keeps_refl split: if_splits
      dest!: read_group_fields_keeps intro: packed_next_entry_step)

lemma packed_next_local:
  assumes "\<And>a. a \<in> packed_reads self \<Longrightarrow> load8 m a = load8 m' a"
  shows "xh_elf_packed_reloc_iterator_next m self = xh_elf_packed_reloc_iterator_next m' self"
proof -
  note loc = next_number_local [of self, OF _ assms]
  have entry: "packed_next_entry m s = packed_next_entry m' s" if "packed_keeps self s" for s
    unfolding packed_next_entry_def packed_next_offset_def packed_next_info_def packed_next_addend_def
    by (auto simp: packed_keeps_upd that intro!: loc)
  have fields: "xh_elf_packed_reloc_iterator_read_group_fields m self =
      xh_elf_packed_reloc_iterator_read_group_fields m' self"
    unfolding xh_elf_packed_reloc_iterator_read_group_fields_def read_group_delta_def
      read_group_info_def read_group_addend_def
    by (auto simp: packed_keeps_upd packed_keeps_refl intro!: loc)
  show ?thesis
    unfolding xh_elf_packed_reloc_iterator_next_def fields
    by (auto simp: packed_keeps_refl intro!: entry run_bind_cong dest: read_group_fields_keeps)
qed

definition packed_left :: "xh_elf_packed_reloc_iterator_t \<Rightarrow> nat" where
  "packed_left self = unat (relocation_count self) - unat (relocation_index self)"

interpretation packed: reloc_iterator xh_elf_packed_reloc_iterator_next "\<lambda>_. True" packed_left packed_reads
proof
  fix s s' :: xh_elf_packed_reloc_iterator_t and m e
  assume a: "xh_elf_packed_reloc_iterator_next m s = Ret (Some e, s')"
  note st = packed_next_step [OF a]
  from st show "packed_left s' < packed_left s"
    unfolding packed_left_def packed_step_def by (auto intro: unat_less_step)
  from st show "packed_reads s' \<subseteq> packed_reads s" by (simp add: packed_step_def)
qed (auto intro: packed_next_local)

text \<open>
  C35: on a table of \<open>k\<close> whole entries that does not touch the end of the address space, the
  plain iterator delivers the addresses of exactly these entries, in order, and then NULL.
\<close>

theorem plain_iterator_visits:
  assumes "unat rel + unat rel_sz + 24 \<le> 2 ^ 64"
    and "unat rel_sz = k * (if rela then 24 else 16)" "k < n"
  shows "\<exists>self. iter_collect plain_next m n (xh_elf_plain_reloc_iterator_init rel rel_sz rela) =
           Ret (plain_entries rel (if rela then 24 else 16) k, self)"
proof -
  have "unat (rel + ucast rel_sz) = unat rel + unat rel_sz"
    using assms(1) by (intro unat_add_ucast32) simp
  with assms(1) have "plain_inv (xh_elf_plain_reloc_iterator_init rel rel_sz rela)"
      "unat (plain_end (xh_elf_plain_reloc_iterator_init rel rel_sz rela)) = unat rel + unat rel_sz"
    by (simp_all add: xh_elf_plain_reloc_iterator_init_def plain_inv_def)
  from plain_collect_upt [OF this(1) refl _ assms(3), of m] this(2) assms(2) show ?thesis
    by (simp only: xh_elf_plain_reloc_iterator_init_def xh_elf_plain_reloc_iterator_t.simps)
qed

theorem plain_iterator_visits_witness:
  "\<exists>self. iter_collect plain_next no_memory 3 (xh_elf_plain_reloc_iterator_init 4096 48 True) =
     Ret ([4096, 4120], self)"
  using plain_iterator_visits [of 4096 48 2 True 3 no_memory] by (simp add: upt_conv_Cons)

end
