(* ===== verification/Xh_Packed.thy ===== *)
theory Xh_Packed
  imports Xh_Reloc
begin

unbundle bit_operations_syntax

text \<open>
  A reference encoder for Android's packed relocations and the proof that
  \<^verbatim>\<open>xh_elf_packed_reloc_iterator_next\<close> inverts it: numbers are written in SLEB128, relocations
  in groups whose flags say which fields the group shares. The encoder is a specification;
  the decoder and the iterator are those of \<^verbatim>\<open>Xh_Reloc\<close>.
\<close>

section \<open>The reference encoding\<close>

text \<open>SLEB128: seven bits a byte, low bits first, the top bit set on all but the last byte.\<close>

function sleb_encode :: "int \<Rightarrow> u8 list" where
  "sleb_encode v =
     (if v div 128 = 0 \<and> v mod 128 < 64 \<or> v div 128 = -1 \<and> v mod 128 \<ge> 64
      then [word_of_int (v mod 128)]
      else word_of_int (v mod 128 + 128) # sleb_encode (v div 128))"
  by pat_completeness auto
termination
proof (relation "measure (\<lambda>v. nat (if v \<ge> 0 then v else - v - 1))")
  fix v :: int
  assume "\<not> (v div 128 = 0 \<and> v mod 128 < 64 \<or> v div 128 = -1 \<and> v mod 128 \<ge> 64)"
  then show "(v div 128, v) \<in> measure (\<lambda>v. nat (if v \<ge> 0 then v else - v - 1))"
    by (auto split: if_splits) presburger+
qed simp

declare sleb_encode.simps [simp del]

definition sleb_value :: "u64 \<times> u64 \<times> u8 \<Rightarrow> u64" where
  "sleb_value = (\<lambda>(value, shift, byte).
     if shift < 64 \<and> byte AND 64 \<noteq> 0 then value OR - push_bit (unat shift) 1 else value)"

text \<open>The decoder stands before the encodings of \<open>vs\<close>, all of them before its end.\<close>

definition stream_at :: "memory \<Rightarrow> xh_elf_sleb128_decoder_t \<Rightarrow> int list \<Rightarrow> bool" where
  "stream_at m d vs \<longleftrightarrow>
     mem_at m (sleb_cur d) (concat (map sleb_encode vs)) \<and>
     unat (sleb_cur d) + length (concat (map sleb_encode vs)) \<le> unat (sleb_end d) \<and>
     (\<forall>v\<in>set vs. - (2 ^ 63) \<le> v \<and> v < 2 ^ 63)"

text \<open>
  A group: its flags, the fields its relocations share and, for each relocation, the offset
  difference, the info and the addend difference (used where the flags do not share them).
\<close>

record reloc_group =
  g_flags :: u64
  g_delta :: int
  g_info :: int
  g_addend :: int
  g_entries :: "(int \<times> int \<times> int) list"

definition by_delta :: "u64 \<Rightarrow> bool" where
  "by_delta f = (f AND RELOCATION_GROUPED_BY_OFFSET_DELTA_FLAG \<noteq> 0)"
definition by_info :: "u64 \<Rightarrow> bool" where
  "by_info f = (f AND RELOCATION_GROUPED_BY_INFO_FLAG \<noteq> 0)"
definition by_addend :: "u64 \<Rightarrow> bool" where
  "by_addend f = (f AND RELOCATION_GROUPED_BY_ADDEND_FLAG \<noteq> 0)"
definition has_addend :: "u64 \<Rightarrow> bool" where
  "has_addend f = (f AND RELOCATION_GROUP_HAS_ADDEND_FLAG \<noteq> 0)"

fun entry_numbers :: "bool \<Rightarrow> u64 \<Rightarrow> int \<times> int \<times> int \<Rightarrow> int list" where
  "entry_numbers rela f (off, info, add) =
     (if \<not> by_delta f then [off] else []) @ (if \<not> by_info f then [info] else []) @
     (if rela \<and> has_addend f \<and> \<not> by_addend f then [add] else [])"

definition group_numbers :: "bool \<Rightarrow> reloc_group \<Rightarrow> int list" where
  "group_numbers rela g =
     [int (length (g_entries g)), uint (g_flags g)] @
     (if by_delta (g_flags g) then [g_delta g] else []) @
     (if by_info (g_flags g) then [g_info g] else []) @
     (if has_addend (g_flags g) \<and> by_addend (g_flags g) then [g_addend g] else []) @
     concat (map (entry_numbers rela (g_flags g)) (g_entries g))"

fun expand_entries :: "bool \<Rightarrow> reloc_group \<Rightarrow> u64 \<Rightarrow> u64 \<Rightarrow> (int \<times> int \<times> int) list \<Rightarrow>
    packed_entry list \<times> u64 \<times> u64" where
  "expand_entries rela g off add [] = ([], off, add)"
| "expand_entries rela g off add ((o1, i1, a1) # es) =
     (let off' = off + word_of_int (if by_delta (g_flags g) then g_delta g else o1);
          info = word_of_int (if by_info (g_flags g) then g_info g else i1);
          add' = (if rela \<and> has_addend (g_flags g) \<and> \<not> by_addend (g_flags g)
                  then add + word_of_int a1 else add);
          (rs, off'', add'') = expand_entries rela g off' add' es
      in (\<lparr>pe_r_offset = off', pe_r_info = info, pe_r_addend = (if rela then add' else 0)\<rparr> # rs,
          off'', add''))"

fun expand_groups :: "bool \<Rightarrow> u64 \<Rightarrow> u64 \<Rightarrow> reloc_group list \<Rightarrow> packed_entry list" where
  "expand_groups rela off add [] = []"
| "expand_groups rela off add (g # gs) =
     (let add0 = (if \<not> has_addend (g_flags g) then 0
                  else if by_addend (g_flags g) then add + word_of_int (g_addend g) else add);
          (rs, off', add') = expand_entries rela g off add0 (g_entries g)
      in rs @ expand_groups rela off' add' gs)"

definition packed_numbers :: "bool \<Rightarrow> int \<Rightarrow> reloc_group list \<Rightarrow> int list" where
  "packed_numbers rela start gs =
     int (length (concat (map g_entries gs))) # start # concat (map (group_numbers rela) gs)"

definition packed_bytes :: "bool \<Rightarrow> int \<Rightarrow> reloc_group list \<Rightarrow> u8 list" where
  "packed_bytes rela start gs = concat (map sleb_encode (packed_numbers rela start gs))"

definition packable :: "bool \<Rightarrow> int \<Rightarrow> reloc_group list \<Rightarrow> bool" where
  "packable rela start gs \<longleftrightarrow>
     list_all (\<lambda>g. g_entries g \<noteq> [] \<and> (has_addend (g_flags g) \<and> by_addend (g_flags g) \<longrightarrow> rela)) gs \<and>
     list_all (\<lambda>v. - (2 ^ 63) \<le> v \<and> v < 2 ^ 63) (packed_numbers rela start gs)"

definition in_group :: "reloc_group \<Rightarrow> xh_elf_packed_reloc_iterator_t \<Rightarrow> bool" where
  "in_group g self \<longleftrightarrow> group_flags self = g_flags g \<and>
     (by_delta (g_flags g) \<longrightarrow> group_r_offset_delta self = word_of_int (g_delta g)) \<and>
     (by_info (g_flags g) \<longrightarrow> it_r_info self = word_of_int (g_info g))"

text \<open>Two groups used as a concrete input below: one with all fields shared, one with none.\<close>

definition sample_groups :: "reloc_group list" where
  "sample_groups =
     [\<lparr>g_flags = 3, g_delta = 8, g_info = 1027, g_addend = 0, g_entries = [(0, 0, 0), (0, 0, 0)]\<rparr>,
      \<lparr>g_flags = 8, g_delta = 0, g_info = 0, g_addend = 0, g_entries = [(- 300, 1025, 64)]\<rparr>]"

abbreviation packed_collect ::
    "memory \<Rightarrow> nat \<Rightarrow> xh_elf_packed_reloc_iterator_t
     \<Rightarrow> (packed_entry list \<times> xh_elf_packed_reloc_iterator_t) run" where
  "packed_collect \<equiv> iter_collect xh_elf_packed_reloc_iterator_next"

section \<open>The decoder inverts the encoder\<close>

lemma int_split7: "(v :: int) = take_bit 7 v OR push_bit 7 (v div 128)"
proof -
  have "v div 128 = drop_bit 7 v" by (simp add: drop_bit_eq_div)
  then show ?thesis
    by (simp only:) (rule bit_eqI, rename_tac n, case_tac "n < 7", auto simp: bit_simps)
qed

lemma word_split7:
  "(word_of_int v :: u64) = word_of_int (v mod 128) OR push_bit 7 (word_of_int (v div 128))"
proof -
  have "(word_of_int v :: u64) = word_of_int (take_bit 7 v OR push_bit 7 (v div 128))"
    by (simp only: int_split7 [symmetric])
  also have "\<dots> = word_of_int (v mod 128) OR push_bit 7 (word_of_int (v div 128))"
    by (simp only: of_int_or_eq of_int_push_bit take_bit_eq_mod) simp
  finally show ?thesis .
qed

lemma sleb_payload:
  assumes "0 \<le> c" "c < 128" "d = 0 \<or> d = 128"
  shows "(ucast ((word_of_int (c + d) :: u8) AND 127) :: u64) = word_of_int c"
proof -
  have "uint (word_of_int (c + d) :: u8) = c + d"
    using assms by (simp only: uint_word_of_int take_bit_eq_mod) auto
  moreover have "(127 :: u8) = mask 7" by (simp add: mask_eq_exp_minus_1)
  ultimately have "uint ((word_of_int (c + d) :: u8) AND 127) = (c + d) mod 128"
    by (simp only: take_bit_eq_mask [symmetric] unsigned_take_bit_eq) (simp only: take_bit_eq_mod, simp)
  then have "uint ((word_of_int (c + d) :: u8) AND 127) = c"
    using assms by auto
  then show ?thesis
    by (metis word_of_int_uint unsigned_ucast_eq ucast_eq)
qed

lemma sleb_bit:
  assumes "0 \<le> c" "c < 128"
  shows "(word_of_int c :: u8) AND 128 = 0"
    and "(word_of_int (c + 128) :: u8) AND 128 \<noteq> 0"
    and "(word_of_int c :: u8) AND 64 = 0 \<longleftrightarrow> c < 64"
proof -
  have e: "(128 :: u8) = 2 ^ 7" "(64 :: u8) = 2 ^ 6" by simp_all
  have "c div 128 = 0" "(c + 128) div 128 = 1" "c div 64 = (if c < 64 then 0 else 1)"
    using assms by auto
  then have b7: "bit (c + 128) 7" "\<not> bit c 7" and b6: "bit c 6 \<longleftrightarrow> \<not> c < 64"
    by (simp_all add: bit_iff_odd)
  then show "(word_of_int c :: u8) AND 128 = 0"
    and "(word_of_int (c + 128) :: u8) AND 128 \<noteq> 0"
    and "(word_of_int c :: u8) AND 64 = 0 \<longleftrightarrow> c < 64"
    by (simp_all only: e and_exp_eq_0_iff_not_bit bit_word_of_int_iff) simp_all
qed

lemma push_minus_one: "- push_bit n (1 :: u64) = push_bit n (- 1)"
  by (simp only: push_bit_minus)

lemma push_minus_one_over: "\<not> n < 64 \<Longrightarrow> push_bit n (- 1 :: u64) = 0"
  by (rule bit_eqI) (simp add: bit_simps)

lemma push_split7:
  "push_bit s (word_of_int v :: u64) =
     push_bit s (word_of_int (v mod 128)) OR push_bit (s + 7) (word_of_int (v div 128))"
  by (subst word_split7) (simp only: push_bit_or push_bit_push_bit)

lemma range_div128:
  assumes "s + 7 \<le> 63" "- (2 ^ (63 - s)) \<le> (v::int)" "v < 2 ^ (63 - s)"
  shows "- (2 ^ (63 - (s + 7))) \<le> v div 128" "v div 128 < 2 ^ (63 - (s + 7))"
proof -
  have "(2::int) ^ (63 - s) = 128 * 2 ^ (63 - (s + 7))"
    using assms(1) power_add [of "2::int" 7 "63 - (s + 7)"] by simp
  with assms(2,3) show "- (2 ^ (63 - (s + 7))) \<le> v div 128" "v div 128 < 2 ^ (63 - (s + 7))"
    by auto
qed

lemma sleb_small:
  assumes "- 64 \<le> (v::int)" "v < 64"
  shows "v div 128 = 0 \<and> v mod 128 < 64 \<or> v div 128 = -1 \<and> v mod 128 \<ge> 64"
proof (cases "v < 0")
  case True
  with assms have "v div 128 = -1" by presburger
  with assms True show ?thesis using mult_div_mod_eq [of 128 v] by auto
qed (use assms in auto)

lemma of_nat_shift_less: "s \<le> 63 \<Longrightarrow> \<not> 64 \<le> (of_nat s :: u64)" "s \<le> 63 \<Longrightarrow> unat (of_nat s :: u64) = s"
  by (simp_all add: word_le_nat_alt unat_of_nat)

lemma sleb128_loop_last:
  assumes "cur < en" "load8 m cur = Ret b" "s \<le> 63" "b AND 128 = 0"
  shows "sleb128_loop m cur en value (of_nat s) =
     Ret (Some (value OR push_bit s (ucast (b AND 127)), of_nat s + 7, b), cur + 1)"
  using assms(2,4) of_nat_shift_less [OF assms(3)] assms(1) [folded not_le]
  by (subst sleb128_loop.simps) (simp add: Let_def del: not_le)

lemma sleb128_loop_more:
  assumes "cur < en" "load8 m cur = Ret b" "s \<le> 63" "b AND 128 \<noteq> 0"
  shows "sleb128_loop m cur en value (of_nat s) =
     sleb128_loop m (cur + 1) en (value OR push_bit s (ucast (b AND 127))) (of_nat s + 7)"
  using assms(2,4) of_nat_shift_less [OF assms(3)] assms(1) [folded not_le]
  by (subst sleb128_loop.simps) (simp add: Let_def del: not_le)

lemma sleb128_loop_encode:
  assumes "mem_at m cur (sleb_encode v)"
    and "unat cur + length (sleb_encode v) \<le> unat en"
    and "s \<le> 63" "- (2 ^ (63 - s)) \<le> v" "v < 2 ^ (63 - s)"
  shows "\<exists>r. sleb128_loop m cur en acc (of_nat s) =
           Ret (Some r, cur + of_nat (length (sleb_encode v))) \<and>
         sleb_value r = acc OR push_bit s (word_of_int v)"
  using assms
proof (induction v arbitrary: cur s acc rule: sleb_encode.induct)
  case (1 v)
  let ?c = "v mod 128"
  have c: "0 \<le> ?c" "?c < 128" by simp_all
  have lt: "cur < en" 
    using "1.prems"(2) by (subst (asm) sleb_encode.simps) (auto simp: word_less_nat_alt split: if_splits)
  show ?case
  proof (cases "v div 128 = 0 \<and> ?c < 64 \<or> v div 128 = -1 \<and> ?c \<ge> 64")
    case True
    then have enc: "sleb_encode v = [word_of_int ?c]" by (subst sleb_encode.simps) simp
    have loop: "sleb128_loop m cur en acc (of_nat s) =
        Ret (Some (acc OR push_bit s (word_of_int ?c), of_nat s + 7, word_of_int ?c), cur + 1)"
      using sleb128_loop_last [OF lt _ "1.prems"(3) sleb_bit(1) [OF c]] "1.prems"(1)
        sleb_payload [OF c, of 0] by (simp add: enc)
    have "unat (of_nat s + 7 :: u64) = s + 7"
      using "1.prems"(3) unat_of_nat [where 'a = 64, of "s + 7"] by simp
    then have sh: "(of_nat s + 7 :: u64) < 64 \<longleftrightarrow> s + 7 < 64" "unat (of_nat s + 7 :: u64) = s + 7"
      by (simp_all add: word_less_nat_alt)
    have "sleb_value (acc OR push_bit s (word_of_int ?c), of_nat s + 7, word_of_int ?c) =
        acc OR push_bit s (word_of_int v)"
    proof (cases "?c < 64")
      case True
      with \<open>v div 128 = 0 \<and> ?c < 64 \<or> _\<close> have "v div 128 = 0" by simp
      then have "push_bit s (word_of_int v :: u64) = push_bit s (word_of_int ?c)"
        by (subst push_split7) simp
      with True sleb_bit(3) [OF c] show ?thesis
        by (simp only: sleb_value_def split_conv) simp
    next
      case False
      with \<open>v div 128 = 0 \<and> ?c < 64 \<or> _\<close> have d: "v div 128 = -1" by simp
      show ?thesis
        using sleb_bit(3) [OF c] False push_minus_one_over [of "s + 7"]
        by (cases "s + 7 < 64")
          (simp_all only: sleb_value_def split_conv sh push_split7 [of s v] d push_minus_one
            if_True if_False simp_thms or.assoc of_int_minus of_int_1 or.right_neutral)
    qed
    with loop enc show ?thesis by auto
  next
    case False
    then have enc: "sleb_encode v = word_of_int (?c + 128) # sleb_encode (v div 128)"
      by (subst sleb_encode.simps) simp
    have s7: "s + 7 \<le> 63"
    proof (rule ccontr)
      assume "\<not> s + 7 \<le> 63"
      then have "(2::int) ^ (63 - s) \<le> 2 ^ 6"
        by (intro power_increasing) auto
      with "1.prems"(4,5) have "- 64 \<le> v" "v < 64" by auto
      with False sleb_small show False by blast
    qed
    note r = range_div128 [OF s7 "1.prems"(4,5)]
    have ucur: "unat (cur + 1) = unat cur + 1" using lt by unat_arith
    have loop: "sleb128_loop m cur en acc (of_nat s) =
        sleb128_loop m (cur + 1) en (acc OR push_bit s (word_of_int ?c)) (of_nat s + 7)"
      using sleb128_loop_more [OF lt _ "1.prems"(3) sleb_bit(2) [OF c]] "1.prems"(1)
        sleb_payload [OF c, of 128] by (simp add: enc)
    have "\<exists>r. sleb128_loop m (cur + 1) en (acc OR push_bit s (word_of_int ?c)) (of_nat s + 7) =
           Ret (Some r, cur + 1 + of_nat (length (sleb_encode (v div 128)))) \<and>
         sleb_value r = (acc OR push_bit s (word_of_int ?c)) OR push_bit (s + 7) (word_of_int (v div 128))"
      using "1.prems"(1,2) "1.IH" [OF False _ _ s7 r, of "cur + 1"] by (simp add: enc ucur)
    then show ?thesis
      unfolding loop enc push_split7 [of s v] by (simp add: or.assoc algebra_simps)
  qed
qed

lemma sleb128_decoder_next_encode:
  assumes "mem_at m (sleb_cur d) (sleb_encode v)"
    and "unat (sleb_cur d) + length (sleb_encode v) \<le> unat (sleb_end d)"
    and "- (2 ^ 63) \<le> v" "v < 2 ^ 63"
  shows "xh_elf_sleb128_decoder_next m d =
     Ret (Inr (word_of_int v), d\<lparr>sleb_cur := sleb_cur d + of_nat (length (sleb_encode v))\<rparr>)"
proof -
  obtain r where r: "sleb128_loop m (sleb_cur d) (sleb_end d) 0 (of_nat 0) =
        Ret (Some r, sleb_cur d + of_nat (length (sleb_encode v)))"
      "sleb_value r = 0 OR push_bit 0 (word_of_int v)"
    using sleb128_loop_encode [OF assms(1,2), of 0 0] assms(3,4) by auto
  then show ?thesis
    by (cases r) (simp add: xh_elf_sleb128_decoder_next_def sleb_value_def)
qed

lemma stream_at_next:
  assumes "stream_at m d (v # vs)"
  obtains d' where "xh_elf_sleb128_decoder_next m d = Ret (Inr (word_of_int v), d')"
    and "stream_at m d' vs"
proof
  let ?n = "length (sleb_encode v)"
  show "xh_elf_sleb128_decoder_next m d =
      Ret (Inr (word_of_int v), d\<lparr>sleb_cur := sleb_cur d + of_nat ?n\<rparr>)"
    using assms by (intro sleb128_decoder_next_encode) (auto simp: stream_at_def mem_simps)
  have "unat (sleb_cur d) + ?n < 2 ^ 64"
    using assms unat_u64_less [of "sleb_end d"] by (simp add: stream_at_def)
  then have "unat (sleb_cur d + of_nat ?n) = unat (sleb_cur d) + ?n"
    by (simp add: unat_word_ariths unat_of_nat)
  then show "stream_at m (d\<lparr>sleb_cur := sleb_cur d + of_nat ?n\<rparr>) vs"
    using assms by (auto simp: stream_at_def mem_simps)
qed

lemma next_number_value:
  "xh_elf_sleb128_decoder_next m (decoder self) = Ret (Inr v, d) \<Longrightarrow>
   next_number m self err k = k v (self\<lparr>decoder := d\<rparr>)"
  by (simp add: next_number_def)

lemma packed_flag_tests0:
  "f AND RELOCATION_GROUPED_BY_INFO_FLAG = 0 \<longleftrightarrow> \<not> by_info f"
  "f AND RELOCATION_GROUPED_BY_ADDEND_FLAG = 0 \<longleftrightarrow> \<not> by_addend f"
  "f AND RELOCATION_GROUP_HAS_ADDEND_FLAG = 0 \<longleftrightarrow> \<not> has_addend f"
  "f AND RELOCATION_GROUPED_BY_OFFSET_DELTA_FLAG = 0 \<longleftrightarrow> \<not> by_delta f"
  by (simp_all add: by_info_def by_addend_def has_addend_def by_delta_def)

lemma opt_number_stream:
  assumes "stream_at m d ((if c then [v] else []) @ vs)"
  obtains d' where "stream_at m d' vs"
    and "c \<Longrightarrow> xh_elf_sleb128_decoder_next m d = Ret (Inr (word_of_int v), d')"
    and "\<not> c \<Longrightarrow> d' = d"
proof (cases c)
  case True
  with assms that show ?thesis by (auto elim: stream_at_next)
next
  case False
  with assms that show ?thesis by simp
qed

lemmas packed_next_defs = packed_next_entry_def packed_next_offset_def packed_next_info_def
  packed_next_addend_def packed_flag_tests0 next_number_value

lemma packed_next_entry_stream:
  assumes "stream_at m (decoder self)
      (entry_numbers (it_is_use_rela self) (group_flags self) (o1, i1, a1) @ vs)"
  obtains d where "stream_at m d vs"
    and "packed_next_entry m self =
      (let off = it_r_offset self +
             (if by_delta (group_flags self) then group_r_offset_delta self else word_of_int o1);
           info = (if by_info (group_flags self) then it_r_info self else word_of_int i1);
           add = (if it_is_use_rela self \<and> has_addend (group_flags self) \<and> \<not> by_addend (group_flags self)
                  then it_r_addend self + word_of_int a1 else it_r_addend self)
       in Ret (Some \<lparr>pe_r_offset = off, pe_r_info = info,
                     pe_r_addend = (if it_is_use_rela self then add else 0)\<rparr>,
               self\<lparr>decoder := d, it_r_offset := off, it_r_info := info, it_r_addend := add,
                    relocation_index := relocation_index self + 1,
                    relocation_group_index := relocation_group_index self + 1\<rparr>))"
proof -
  let ?f = "group_flags self"
  let ?c = "it_is_use_rela self \<and> has_addend ?f \<and> \<not> by_addend ?f"
  from assms [unfolded entry_numbers.simps append_assoc]
  obtain d1 where d1: "stream_at m d1 ((if \<not> by_info ?f then [i1] else []) @ (if ?c then [a1] else []) @ vs)"
    "\<not> by_delta ?f \<Longrightarrow> xh_elf_sleb128_decoder_next m (decoder self) = Ret (Inr (word_of_int o1), d1)"
    "\<not> \<not> by_delta ?f \<Longrightarrow> d1 = decoder self"
    by (rule opt_number_stream) (rule that)
  from d1(1) obtain d2 where d2: "stream_at m d2 ((if ?c then [a1] else []) @ vs)"
    "\<not> by_info ?f \<Longrightarrow> xh_elf_sleb128_decoder_next m d1 = Ret (Inr (word_of_int i1), d2)"
    "\<not> \<not> by_info ?f \<Longrightarrow> d2 = d1"
    by (rule opt_number_stream) (rule that)
  from d2(1) obtain d3 where d3: "stream_at m d3 vs"
    "?c \<Longrightarrow> xh_elf_sleb128_decoder_next m d2 = Ret (Inr (word_of_int a1), d3)"
    "\<not> ?c \<Longrightarrow> d3 = d2"
    by (rule opt_number_stream) (rule that)
  show thesis
  proof (rule that [OF d3(1)])
    show "packed_next_entry m self =
      (let off = it_r_offset self +
             (if by_delta (group_flags self) then group_r_offset_delta self else word_of_int o1);
           info = (if by_info (group_flags self) then it_r_info self else word_of_int i1);
           add = (if it_is_use_rela self \<and> has_addend (group_flags self) \<and> \<not> by_addend (group_flags self)
                  then it_r_addend self + word_of_int a1 else it_r_addend self)
       in Ret (Some \<lparr>pe_r_offset = off, pe_r_info = info,
                     pe_r_addend = (if it_is_use_rela self then add else 0)\<rparr>,
               self\<lparr>decoder := d3, it_r_offset := off, it_r_info := info, it_r_addend := add,
                    relocation_index := relocation_index self + 1,
                    relocation_group_index := relocation_group_index self + 1\<rparr>))"
      using d1(2,3) d2(2,3) d3(2,3)
      by (cases self; cases "by_delta ?f"; cases "by_info ?f"; cases ?c) (auto simp: packed_next_defs Let_def)
  qed
qed

lemmas read_group_defs = xh_elf_packed_reloc_iterator_read_group_fields_def read_group_delta_def
  read_group_info_def read_group_addend_def packed_flag_tests0 next_number_value

lemma read_group_fields_stream:
  assumes st: "stream_at m (decoder self) (group_numbers (it_is_use_rela self) g @ vs)"
    and rela: "has_addend (g_flags g) \<and> by_addend (g_flags g) \<longrightarrow> it_is_use_rela self"
  obtains d where
    "stream_at m d (concat (map (entry_numbers (it_is_use_rela self) (g_flags g)) (g_entries g)) @ vs)"
    and "xh_elf_packed_reloc_iterator_read_group_fields m self =
      Ret (0, self\<lparr>decoder := d, group_size := of_nat (length (g_entries g)),
        group_flags := g_flags g,
        group_r_offset_delta := (if by_delta (g_flags g) then word_of_int (g_delta g) else group_r_offset_delta self),
        it_r_info := (if by_info (g_flags g) then word_of_int (g_info g) else it_r_info self),
        it_r_addend := (if \<not> has_addend (g_flags g) then 0
                  else if by_addend (g_flags g) then it_r_addend self + word_of_int (g_addend g)
                  else it_r_addend self),
        relocation_group_index := 0\<rparr>)"
proof -
  let ?f = "g_flags g" and ?r = "it_is_use_rela self"
  let ?es = "concat (map (entry_numbers ?r ?f) (g_entries g)) @ vs"
  from st [unfolded group_numbers_def append_assoc append.simps]
  obtain d1 where d1: "xh_elf_sleb128_decoder_next m (decoder self) = Ret (Inr (word_of_int (int (length (g_entries g)))), d1)"
    "stream_at m d1 (uint ?f # (if by_delta ?f then [g_delta g] else []) @ (if by_info ?f then [g_info g] else []) @
       (if has_addend ?f \<and> by_addend ?f then [g_addend g] else []) @ ?es)"
    by (rule stream_at_next)
  from d1(2) obtain d2 where d2: "xh_elf_sleb128_decoder_next m d1 = Ret (Inr (word_of_int (uint ?f)), d2)"
    "stream_at m d2 ((if by_delta ?f then [g_delta g] else []) @ (if by_info ?f then [g_info g] else []) @
       (if has_addend ?f \<and> by_addend ?f then [g_addend g] else []) @ ?es)"
    by (rule stream_at_next)
  from d2(2) obtain d3 where d3: "stream_at m d3 ((if by_info ?f then [g_info g] else []) @
       (if has_addend ?f \<and> by_addend ?f then [g_addend g] else []) @ ?es)"
    "by_delta ?f \<Longrightarrow> xh_elf_sleb128_decoder_next m d2 = Ret (Inr (word_of_int (g_delta g)), d3)"
    "\<not> by_delta ?f \<Longrightarrow> d3 = d2"
    by (rule opt_number_stream) (rule that)
  from d3(1) obtain d4 where d4: "stream_at m d4 ((if has_addend ?f \<and> by_addend ?f then [g_addend g] else []) @ ?es)"
    "by_info ?f \<Longrightarrow> xh_elf_sleb128_decoder_next m d3 = Ret (Inr (word_of_int (g_info g)), d4)"
    "\<not> by_info ?f \<Longrightarrow> d4 = d3"
    by (rule opt_number_stream) (rule that)
  from d4(1) obtain d5 where d5: "stream_at m d5 ?es"
    "has_addend ?f \<and> by_addend ?f \<Longrightarrow> xh_elf_sleb128_decoder_next m d4 = Ret (Inr (word_of_int (g_addend g)), d5)"
    "\<not> (has_addend ?f \<and> by_addend ?f) \<Longrightarrow> d5 = d4"
    by (rule opt_number_stream) (rule that)
  show thesis
    by (rule that [OF d5(1)])
      (use d1(1) d2(1) d3(2,3) d4(2,3) d5(2,3) rela in
        \<open>cases self; cases "by_delta ?f"; cases "by_info ?f"; cases "has_addend ?f"; cases "by_addend ?f";
         simp add: read_group_defs\<close>)
qed

lemma packed_next_in_group:
  assumes "relocation_index self < relocation_count self" "relocation_group_index self \<noteq> group_size self"
  shows "xh_elf_packed_reloc_iterator_next m self = packed_next_entry m self"
  using assms by (simp add: xh_elf_packed_reloc_iterator_next_def)

lemma packed_next_new_group:
  assumes "relocation_index self < relocation_count self" "relocation_group_index self = group_size self"
    and "xh_elf_packed_reloc_iterator_read_group_fields m self = Ret (0, self')"
  shows "xh_elf_packed_reloc_iterator_next m self = packed_next_entry m self'"
  using assms by (simp add: xh_elf_packed_reloc_iterator_next_def)

lemma packed_collect_end:
  assumes "relocation_index self \<ge> relocation_count self"
  shows "packed_collect m n self = Ret ([], self)"
  using assms by (cases n) (simp_all add: xh_elf_packed_reloc_iterator_next_def)

lemma packed_collect_entries:
  assumes "in_group g self" "it_is_use_rela self = rela"
    and "unat (relocation_group_index self) + length es = unat (group_size self)"
    and "unat (relocation_index self) + length es \<le> unat (relocation_count self)"
    and "stream_at m (decoder self) (concat (map (entry_numbers rela (g_flags g)) es) @ vs)"
    and "expand_entries rela g (it_r_offset self) (it_r_addend self) es = (rs, off', add')"
  shows "\<exists>self'. (\<forall>n. packed_collect m (length es + n) self =
             run_bind (packed_collect m n self') (\<lambda>(q, s). Ret (rs @ q, s))) \<and>
           stream_at m (decoder self') vs \<and> it_r_offset self' = off' \<and> it_r_addend self' = add' \<and>
           it_is_use_rela self' = rela \<and> relocation_group_index self' = group_size self' \<and>
           unat (relocation_index self') = unat (relocation_index self) + length es \<and>
           relocation_count self' = relocation_count self"
  using assms
proof (induction es arbitrary: self rs)
  case Nil
  have id: "run_bind r (\<lambda>(q, s). Ret (q, s)) = r" for r :: "(packed_entry list \<times> xh_elf_packed_reloc_iterator_t) run"
    by (cases r) auto
  from Nil show ?case
    by (intro exI [of _ self]) (auto simp: id word_unat_eq_iff)
next
  case (Cons e es)
  obtain o1 i1 a1 where e: "e = (o1, i1, a1)" by (cases e)
  let ?f = "g_flags g"
  define off where "off = it_r_offset self + word_of_int (if by_delta ?f then g_delta g else o1)"
  define info where "info = (word_of_int (if by_info ?f then g_info g else i1) :: u64)"
  define add where "add = (if rela \<and> has_addend ?f \<and> \<not> by_addend ?f
      then it_r_addend self + word_of_int a1 else it_r_addend self)"
  define ent where "ent = \<lparr>pe_r_offset = off, pe_r_info = info, pe_r_addend = (if rela then add else 0)\<rparr>"
  from Cons.prems(6) obtain rs' where rs': "expand_entries rela g off add es = (rs', off', add')"
      and rs: "rs = ent # rs'"
    unfolding e expand_entries.simps Let_def off_def info_def add_def ent_def
    by (auto split: prod.splits)
  from Cons.prems(5) have "stream_at m (decoder self)
      (entry_numbers (it_is_use_rela self) (group_flags self) (o1, i1, a1) @
       concat (map (entry_numbers rela ?f) es) @ vs)"
    using Cons.prems(1,2) by (simp add: e in_group_def)
  then obtain d where d: "stream_at m d (concat (map (entry_numbers rela ?f) es) @ vs)"
    and step: "packed_next_entry m self = Ret (Some ent,
       self\<lparr>decoder := d, it_r_offset := off, it_r_info := info, it_r_addend := add,
            relocation_index := relocation_index self + 1,
            relocation_group_index := relocation_group_index self + 1\<rparr>)"
    by (rule packed_next_entry_stream)
      (use Cons.prems(1,2) in \<open>auto simp: Let_def in_group_def off_def info_def add_def ent_def
         intro!: that split: if_splits\<close>)
  define self1 where "self1 = self\<lparr>decoder := d, it_r_offset := off, it_r_info := info, it_r_addend := add,
            relocation_index := relocation_index self + 1,
            relocation_group_index := relocation_group_index self + 1\<rparr>"
  have "unat (relocation_index self) < unat (relocation_count self)"
    "unat (relocation_group_index self) < unat (group_size self)" using Cons.prems(3,4) by auto
  moreover then have "relocation_group_index self \<noteq> group_size self" by auto
  ultimately have nxt: "xh_elf_packed_reloc_iterator_next m self = Ret (Some ent, self1)"
    and i1: "unat (relocation_index self1) = unat (relocation_index self) + 1"
    and g1: "unat (relocation_group_index self1) = unat (relocation_group_index self) + 1"
    using step packed_next_in_group [of self m]
    by (auto simp: word_less_nat_alt self1_def unat_plus1)
  have fields: "in_group g self1" "it_is_use_rela self1 = rela" "group_size self1 = group_size self"
      "relocation_count self1 = relocation_count self" "decoder self1 = d"
      "it_r_offset self1 = off" "it_r_addend self1 = add"
    using Cons.prems(1,2) by (auto simp: in_group_def self1_def info_def)
  obtain self' where IH: "\<And>n. packed_collect m (length es + n) self1 =
             run_bind (packed_collect m n self') (\<lambda>(q, s). Ret (rs' @ q, s))"
      "stream_at m (decoder self') vs" "it_r_offset self' = off'" "it_r_addend self' = add'"
      "it_is_use_rela self' = rela" "relocation_group_index self' = group_size self'"
      "unat (relocation_index self') = unat (relocation_index self1) + length es"
      "relocation_count self' = relocation_count self"
    using Cons.IH [of self1 rs'] Cons.prems(3,4) d rs' i1 g1 by (auto simp: fields)
  have "packed_collect m (length (e # es) + n) self =
      run_bind (packed_collect m n self') (\<lambda>(q, s). Ret (rs @ q, s))" for n
    by (simp add: nxt IH(1) rs) (cases "packed_collect m n self'", auto)
  with IH i1 show ?case by (intro exI [of _ self']) auto
qed

lemma packed_collect_groups:
  assumes "\<forall>g\<in>set gs. g_entries g \<noteq> [] \<and> length (g_entries g) < 2 ^ 63 \<and>
             (has_addend (g_flags g) \<and> by_addend (g_flags g) \<longrightarrow> rela)"
    and "it_is_use_rela self = rela" "relocation_group_index self = group_size self"
    and "unat (relocation_index self) + length (concat (map g_entries gs)) = unat (relocation_count self)"
    and "stream_at m (decoder self) (concat (map (group_numbers rela) gs))"
    and "n \<ge> length (concat (map g_entries gs))"
  shows "\<exists>self'. packed_collect m n self =
           Ret (expand_groups rela (it_r_offset self) (it_r_addend self) gs, self') \<and>
           relocation_index self' = relocation_count self'"
  using assms
proof (induction gs arbitrary: self n)
  case Nil
  then show ?case by (intro exI [of _ self]) (auto simp: packed_collect_end word_unat_eq_iff word_le_nat_alt)
next
  case (Cons g gs)
  let ?f = "g_flags g" and ?k = "length (g_entries g)"
  from Cons.prems(1,2) have g: "g_entries g \<noteq> []" "?k < 2 ^ 63"
      "has_addend ?f \<and> by_addend ?f \<longrightarrow> it_is_use_rela self" by auto
  from Cons.prems(2,5) have "stream_at m (decoder self)
      (group_numbers (it_is_use_rela self) g @ concat (map (group_numbers rela) gs))" by simp
  then obtain d where d0: "stream_at m d (concat (map (entry_numbers (it_is_use_rela self) ?f) (g_entries g)) @ concat (map (group_numbers rela) gs))"
    and rd0: "xh_elf_packed_reloc_iterator_read_group_fields m self = Ret (0, self\<lparr>decoder := d, group_size := of_nat ?k, group_flags := ?f,
        group_r_offset_delta := (if by_delta ?f then word_of_int (g_delta g) else group_r_offset_delta self),
        it_r_info := (if by_info ?f then word_of_int (g_info g) else it_r_info self),
        it_r_addend := (if \<not> has_addend ?f then 0
                  else if by_addend ?f then it_r_addend self + word_of_int (g_addend g)
                  else it_r_addend self),
        relocation_group_index := 0\<rparr>)"
    using g(3) by (rule read_group_fields_stream) (rule that)
  define self1 where self1: "self1 = self\<lparr>decoder := d, group_size := of_nat ?k, group_flags := ?f,
        group_r_offset_delta := (if by_delta ?f then word_of_int (g_delta g) else group_r_offset_delta self),
        it_r_info := (if by_info ?f then word_of_int (g_info g) else it_r_info self),
        it_r_addend := (if \<not> has_addend ?f then 0
                  else if by_addend ?f then it_r_addend self + word_of_int (g_addend g)
                  else it_r_addend self),
        relocation_group_index := 0\<rparr>"
  note rd = rd0 [folded self1] and d = d0 [unfolded Cons.prems(2)]
  have uk: "unat (of_nat ?k :: u64) = ?k" using g(2) by (simp add: unat_of_nat)
  have lt: "relocation_index self < relocation_count self"
    using Cons.prems(4) g(1) by (cases "g_entries g") (auto simp: word_less_nat_alt)
  have "(0 :: u64) \<noteq> of_nat ?k" using g(1) uk by (metis length_0_conv unsigned_0)
  then have nx: "xh_elf_packed_reloc_iterator_next m self = xh_elf_packed_reloc_iterator_next m self1"
    using lt by (simp add: packed_next_new_group [OF lt Cons.prems(3) rd] packed_next_in_group self1)
  from Cons.prems(6) have "?k \<le> n" by simp
  then obtain n1 where n: "n = ?k + n1" using le_Suc_ex by blast
  have col: "packed_collect m n self = packed_collect m n self1"
    using g(1) by (cases n) (auto simp: n nx)
  obtain rs off' add' where ex: "expand_entries rela g (it_r_offset self1) (it_r_addend self1) (g_entries g) = (rs, off', add')"
    by (metis prod.exhaust)
  obtain self2 where s2: "\<And>n. packed_collect m (?k + n) self1 =
             run_bind (packed_collect m n self2) (\<lambda>(q, s). Ret (rs @ q, s))"
      "stream_at m (decoder self2) (concat (map (group_numbers rela) gs))"
      "it_r_offset self2 = off'" "it_r_addend self2 = add'"
      "it_is_use_rela self2 = rela" "relocation_group_index self2 = group_size self2"
      "unat (relocation_index self2) = unat (relocation_index self1) + ?k"
      "relocation_count self2 = relocation_count self1"
    using packed_collect_entries [OF _ _ _ _ _ ex, where m = m and vs = "concat (map (group_numbers rela) gs)"]
      d Cons.prems(2,4) uk by (auto simp: self1 in_group_def)
  obtain self' where "packed_collect m n1 self2 = Ret (expand_groups rela off' add' gs, self')"
      "relocation_index self' = relocation_count self'"
    using Cons.IH [of self2 n1] Cons.prems(1,4,6) s2 n by (auto simp: self1)
  with ex s2(1) [of n1, folded n] col show ?case
    by (intro exI [of _ self']) (auto simp: self1 Let_def)
qed

lemma packed_iterator_roundtrip:
  assumes "packable rela start gs"
    and "mem_at m rel (packed_bytes rela start gs)"
    and "length (packed_bytes rela start gs) \<le> unat rel_sz" "unat rel + unat rel_sz < 2 ^ 64"
    and "n \<ge> length (concat (map g_entries gs))"
  shows "\<exists>it it'. xh_elf_packed_reloc_iterator_init m rel rel_sz rela = Ret (0, it) \<and>
     packed_collect m n it = Ret (expand_groups rela (word_of_int start) 0 gs, it')"
proof -
  let ?c = "length (concat (map g_entries gs))"
  let ?d = "xh_elf_sleb128_decoder_init rel rel_sz"
  have end_: "unat (rel + ucast rel_sz) = unat rel + unat rel_sz"
    using assms(4) by (rule unat_add_ucast32)
  have "stream_at m ?d (packed_numbers rela start gs)"
    using assms(1,2,3) by (simp add: stream_at_def xh_elf_sleb128_decoder_init_def end_ packed_bytes_def packable_def list_all_iff)
  from this [unfolded packed_numbers_def]
  obtain d1 where d1: "xh_elf_sleb128_decoder_next m ?d = Ret (Inr (word_of_int (int ?c)), d1)"
     "stream_at m d1 (start # concat (map (group_numbers rela) gs))" by (rule stream_at_next)
  from d1(2) obtain d2 where d2: "xh_elf_sleb128_decoder_next m d1 = Ret (Inr (word_of_int start), d2)"
     "stream_at m d2 (concat (map (group_numbers rela) gs))" by (rule stream_at_next)
  define it where "it = \<lparr>decoder = d2, relocation_count = of_nat ?c,
        group_size = 0, group_flags = 0, group_r_offset_delta = 0, relocation_index = 0,
        relocation_group_index = 0, it_r_offset = word_of_int start, it_r_info = 0, it_r_addend = 0,
        it_is_use_rela = rela\<rparr>"
  have init: "xh_elf_packed_reloc_iterator_init m rel rel_sz rela = Ret (0, it)"
    by (simp add: xh_elf_packed_reloc_iterator_init_def next_number_value d1(1) d2(1) it_def)
  have c: "?c < 2 ^ 63" using assms(1) by (simp add: packable_def packed_numbers_def)
  have k: "length (g_entries g) < 2 ^ 63" if "g \<in> set gs" for g
  proof -
    have "length (g_entries g) \<le> ?c"
      using that by (induction gs) auto
    with c show ?thesis by simp
  qed
  have "unat (of_nat ?c :: u64) = ?c" using c by (simp add: unat_of_nat)
  then have "\<exists>it'. packed_collect m n it =
           Ret (expand_groups rela (it_r_offset it) (it_r_addend it) gs, it') \<and>
           relocation_index it' = relocation_count it'"
    using assms(1,5) k d2(2)
    by (intro packed_collect_groups) (auto simp: it_def packable_def list_all_iff)
  with init show ?thesis by (auto simp: it_def)
qed

lemma sleb_next_at_end:
  "\<not> sleb_cur d < sleb_end d \<Longrightarrow> xh_elf_sleb128_decoder_next m d = Ret (Inl XH_ERRNO_FORMAT, d)"
  by (simp add: xh_elf_sleb128_decoder_next_def sleb128_loop.simps not_less)

lemma sleb_next_error_at_end:
  "xh_elf_sleb128_decoder_next m d = Ret (Inl e, d') \<Longrightarrow> \<not> sleb_cur d' < sleb_end d'"
  by (auto simp: xh_elf_sleb128_decoder_next_def run_simps dest!: sleb128_loop_cursor split: option.splits prod.splits)

lemma next_number_at_end:
  "\<not> sleb_cur (decoder self) < sleb_end (decoder self) \<Longrightarrow>
   next_number m self err k = Ret (err XH_ERRNO_FORMAT, self\<lparr>decoder := decoder self\<rparr>)"
  by (simp add: next_number_def sleb_next_at_end)

lemma packed_init_failure_harmless:
  assumes "xh_elf_packed_reloc_iterator_init m rel rel_sz rela = Ret (r, it)" "r \<noteq> 0"
  shows "\<exists>it'. xh_elf_packed_reloc_iterator_next m it = Ret (None, it')"
proof -
  let ?d = "xh_elf_sleb128_decoder_init rel rel_sz"
  from assms consider "relocation_count it = 0" | "\<not> sleb_cur (decoder it) < sleb_end (decoder it)" "relocation_group_index it = group_size it"
  proof (cases "xh_elf_sleb128_decoder_next m ?d")
    case (Ret x)
    then obtain v d where x: "xh_elf_sleb128_decoder_next m ?d = Ret (v, d)" by (cases x) auto
    show ?thesis
    proof (cases v)
      case (Inl e)
      with x assms that(1) show ?thesis
        by (auto simp: xh_elf_packed_reloc_iterator_init_def next_number_def)
    next
      case (Inr c)
      with x assms obtain e d' where "xh_elf_sleb128_decoder_next m d = Ret (Inl e, d')"
          "decoder it = d'" "relocation_group_index it = 0" "group_size it = 0"
        by (auto simp: xh_elf_packed_reloc_iterator_init_def next_number_def run_simps
            split: sum.splits) (rename_tac a b, case_tac a, auto)
      with that(2) show ?thesis by (simp add: sleb_next_error_at_end)
    qed
  qed (auto simp: xh_elf_packed_reloc_iterator_init_def next_number_def)
  then show ?thesis
  proof cases
    case 1
    then show ?thesis by (simp add: xh_elf_packed_reloc_iterator_next_def)
  next
    case 2
    then show ?thesis
      by (simp add: xh_elf_packed_reloc_iterator_next_def next_number_at_end XH_ERRNO_FORMAT_def
          xh_elf_packed_reloc_iterator_read_group_fields_def del: not_less)
  qed
qed

section \<open>Properties\<close>

text \<open>
  the SLEB128 decoder inverts the SLEB128 encoding of every number that fits into 64
  signed bits; it never shifts by the width of the word, reads only the encoding and leaves
  the cursor behind it.
\<close>

theorem sleb128_decode_encode:
  assumes "mem_at m (sleb_cur d) (sleb_encode v)"
    and "unat (sleb_cur d) + length (sleb_encode v) \<le> unat (sleb_end d)"
    and "- (2 ^ 63) \<le> v" "v < 2 ^ 63"
  shows "xh_elf_sleb128_decoder_next m d =
     Ret (Inr (word_of_int v), d\<lparr>sleb_cur := sleb_cur d + of_nat (length (sleb_encode v))\<rparr>)"
  using assms by (rule sleb128_decoder_next_encode)

theorem sleb128_decode_encode_witness:
  "sleb_encode (- 123456) = [192, 187, 120] \<and>
   xh_elf_sleb128_decoder_next (put_bytes 4096 [192, 187, 120] no_memory)
     \<lparr>sleb_cur = 4096, sleb_end = 4104\<rparr> =
   Ret (Inr (- 123456), \<lparr>sleb_cur = 4099, sleb_end = 4104\<rparr>)"
proof -
  have e: "sleb_encode (- 123456) = [192, 187, 120]" by (simp add: sleb_encode.simps)
  then show ?thesis
    using sleb128_decode_encode [of "put_bytes 4096 [192, 187, 120] no_memory"
        "\<lparr>sleb_cur = 4096, sleb_end = 4104\<rparr>" "- 123456"] by (simp add: mem_eval)
qed

text \<open>
  C10: the packed iterator inverts the packing of relocation groups: after its initialisation
  on a packed stream it delivers exactly the relocations the groups describe, with the shared
  and the accumulated fields filled in, and then NULL.
\<close>

theorem packed_iterator_decodes:
  assumes "packable rela start gs"
    and "mem_at m rel (packed_bytes rela start gs)"
    and "length (packed_bytes rela start gs) \<le> unat rel_sz" "unat rel + unat rel_sz < 2 ^ 64"
    and "n \<ge> length (concat (map g_entries gs))"
  shows "\<exists>it it'. xh_elf_packed_reloc_iterator_init m rel rel_sz rela = Ret (0, it) \<and>
     iter_collect xh_elf_packed_reloc_iterator_next m n it =
       Ret (expand_groups rela (word_of_int start) 0 gs, it')"
  using assms by (rule packed_iterator_roundtrip)

theorem packed_iterator_decodes_witness:
  "\<exists>it it'. xh_elf_packed_reloc_iterator_init
       (put_bytes 4096 (packed_bytes True 8192 sample_groups) no_memory) 4096 20 True = Ret (0, it) \<and>
     iter_collect xh_elf_packed_reloc_iterator_next
       (put_bytes 4096 (packed_bytes True 8192 sample_groups) no_memory) 4 it =
       Ret ([\<lparr>pe_r_offset = 8200, pe_r_info = 1027, pe_r_addend = 0\<rparr>,
             \<lparr>pe_r_offset = 8208, pe_r_info = 1027, pe_r_addend = 0\<rparr>,
             \<lparr>pe_r_offset = 7908, pe_r_info = 1025, pe_r_addend = 64\<rparr>], it')"
proof -
  note fl = by_delta_def by_info_def by_addend_def has_addend_def reloc_flag_defs
  have nums: "packed_numbers True 8192 sample_groups = [3, 8192, 2, 3, 8, 1027, 1, 8, - 300, 1025, 64]"
    by (simp add: packed_numbers_def sample_groups_def group_numbers_def fl)
  have bytes: "packed_bytes True 8192 sample_groups =
      [3, 128, 192, 0, 2, 3, 8, 131, 8, 1, 8, 212, 125, 129, 8, 192, 0]"
    unfolding packed_bytes_def nums by (simp add: sleb_encode.simps)
  have ok: "packable True 8192 sample_groups"
    unfolding packable_def nums by (simp add: sample_groups_def)
  have out: "expand_groups True 8192 0 sample_groups =
     [\<lparr>pe_r_offset = 8200, pe_r_info = 1027, pe_r_addend = 0\<rparr>,
      \<lparr>pe_r_offset = 8208, pe_r_info = 1027, pe_r_addend = 0\<rparr>,
      \<lparr>pe_r_offset = 7908, pe_r_info = 1025, pe_r_addend = 64\<rparr>]"
    by (simp add: sample_groups_def fl)
  have at: "mem_at (put_bytes 4096 (packed_bytes True 8192 sample_groups) no_memory) 4096
      (packed_bytes True 8192 sample_groups)"
    unfolding bytes by (simp add: mem_eval)
  have "length (concat (map g_entries sample_groups)) = 3" by (simp add: sample_groups_def)
  with packed_iterator_decodes [OF ok at, of 20 4] show ?thesis
    by (simp add: bytes out)
qed

text \<open>
  C37: a failing initialisation of the packed iterator, whose return value \<^verbatim>\<open>xh_elf_hook\<close> does not
  look at, leaves an iterator that delivers nothing.
\<close>

theorem packed_init_failure_is_empty:
  assumes "xh_elf_packed_reloc_iterator_init m rel rel_sz rela = Ret (r, it)" "r \<noteq> 0"
  shows "\<exists>it'. xh_elf_packed_reloc_iterator_next m it = Ret (None, it')"
  using assms by (rule packed_init_failure_harmless)

theorem packed_init_failure_is_empty_witness:
  "\<exists>it'. xh_elf_packed_reloc_iterator_next (put_bytes 4096 [3, 128] no_memory)
     \<lparr>decoder = \<lparr>sleb_cur = 4098, sleb_end = 4098\<rparr>, relocation_count = 3,
        group_size = 0, group_flags = 0, group_r_offset_delta = 0, relocation_index = 0,
        relocation_group_index = 0, it_r_offset = 0, it_r_info = 0, it_r_addend = 0,
        it_is_use_rela = True\<rparr> = Ret (None, it')"
  by (rule packed_init_failure_is_empty [of "put_bytes 4096 [3, 128] no_memory" 4096 2 True XH_ERRNO_FORMAT])
    (simp_all add: xh_elf_packed_reloc_iterator_init_def next_number_def xh_elf_sleb128_decoder_init_def
      xh_elf_sleb128_decoder_next_def sleb128_loop.simps mem_eval XH_ERRNO_FORMAT_def)

end
