(* ===== verification/Xh_Util.thy ===== *)
theory Xh_Util
  imports Xh_Reloc "HOL-Library.Sublist" "HOL-Library.Char_ord"
begin

unbundle bit_operations_syntax

text \<open>
  \<^verbatim>\<open>libxhook/xh_util.c\<close>: the protection of an address range read from \<^verbatim>\<open>/proc/self/maps\<close>, and
  its change by \<^verbatim>\<open>mprotect\<close>. The operating system is a parameter (the record \<open>os\<close>); what the
  library uses of C's \<^verbatim>\<open>fgets\<close>, \<^verbatim>\<open>strstr\<close> and \<^verbatim>\<open>sscanf\<close> is modelled here. The lemmas show that
  the reader inverts the kernel's line format, so that it computes the protection of the
  mappings themselves.
\<close>

section \<open>The operating system as a parameter\<close>

text \<open>
  \<open>os_maps\<close> is the text \<^verbatim>\<open>/proc/self/maps\<close> has for a memory (\<open>None\<close> when it cannot be opened),
  \<open>os_mprotect\<close> the system call: its return value, \<^verbatim>\<open>errno\<close> and the memory after it.
\<close>

record os =
  os_maps :: "memory \<Rightarrow> string option"
  os_mprotect :: "memory \<Rightarrow> addr \<Rightarrow> u64 \<Rightarrow> u32 \<Rightarrow> int \<times> int \<times> memory"

definition PROT_READ :: u32 where "PROT_READ = 1"
definition PROT_WRITE :: u32 where "PROT_WRITE = 2"
definition PROT_EXEC :: u32 where "PROT_EXEC = 4"

lemmas prot_defs = PROT_READ_def PROT_WRITE_def PROT_EXEC_def

section \<open>The C library\<close>

text \<open>\<^verbatim>\<open>fgets(line, 512, fp)\<close>: the next line with its newline, at most 511 characters of it.\<close>

fun fgets_take :: "nat \<Rightarrow> string \<Rightarrow> string \<times> string" where
  "fgets_take 0 s = ([], s)"
| "fgets_take (Suc n) [] = ([], [])"
| "fgets_take (Suc n) (c # s) =
     (if c = CHR 0x0A then ([c], s)
      else case fgets_take n s of (l, r) \<Rightarrow> (c # l, r))"

definition fgets :: "string \<Rightarrow> (string \<times> string) option" where
  "fgets s = (if s = [] then None else Some (fgets_take 511 s))"

definition c_str :: "string \<Rightarrow> string" where
  "c_str s = takeWhile (\<lambda>c. c \<noteq> CHR 0x00) s"

fun strstr :: "string \<Rightarrow> string \<Rightarrow> bool" where
  "strstr [] needle = (needle = [])"
| "strstr (c # cs) needle = (prefix needle (c # cs) \<or> strstr cs needle)"

definition isspace :: "char \<Rightarrow> bool" where
  "isspace c = (c \<in> set [CHR '' '', CHR 0x09, CHR 0x0A, CHR 0x0B, CHR 0x0C, CHR 0x0D])"

definition hex_digit :: "char \<Rightarrow> nat option" where
  "hex_digit c =
     (let n = of_char c :: nat in
      if 48 \<le> n \<and> n \<le> 57 then Some (n - 48)
      else if 97 \<le> n \<and> n \<le> 102 then Some (n - 87)
      else if 65 \<le> n \<and> n \<le> 70 then Some (n - 55) else None)"

fun scan_digits :: "nat \<Rightarrow> string \<Rightarrow> nat \<times> string" where
  "scan_digits acc [] = (acc, [])"
| "scan_digits acc (c # s) =
     (case hex_digit c of None \<Rightarrow> (acc, c # s) | Some d \<Rightarrow> scan_digits (acc * 16 + d) s)"

definition scan_unsigned :: "string \<Rightarrow> (nat \<times> string) option" where
  "scan_unsigned s =
     (case s of
        [] \<Rightarrow> None
      | c # r \<Rightarrow> (if hex_digit c = None then None else Some (scan_digits 0 s)))"

text \<open>
  The conversion \<^verbatim>\<open>%lx\<close>: white space, a sign, the prefix \<^verbatim>\<open>0x\<close>, then at least one digit. A
  number above the range is \<^verbatim>\<open>ULONG_MAX\<close>, a minus sign negates modulo \<open>2 ^ 64\<close>.
\<close>

definition has_minus :: "string \<Rightarrow> bool" where
  "has_minus s = (case s of c # r \<Rightarrow> c = CHR ''-'' | [] \<Rightarrow> False)"

definition skip_sign :: "string \<Rightarrow> string" where
  "skip_sign s = (case s of c # r \<Rightarrow> if c = CHR ''-'' \<or> c = CHR ''+'' then r else s | [] \<Rightarrow> [])"

definition skip_0x :: "string \<Rightarrow> string" where
  "skip_0x s =
     (case s of a # b # r \<Rightarrow> if a = CHR ''0'' \<and> (b = CHR ''x'' \<or> b = CHR ''X'') then r else s
              | _ \<Rightarrow> s)"

definition scan_hex :: "string \<Rightarrow> (u64 \<times> string) option" where
  "scan_hex s =
     (let s1 = dropWhile isspace s
      in case scan_unsigned (skip_0x (skip_sign s1)) of
           None \<Rightarrow> None
         | Some (n, r) \<Rightarrow>
             Some (if n \<ge> 2 ^ 64 then - 1 else if has_minus s1 then - of_nat n else of_nat n, r))"

text \<open>The conversion \<^verbatim>\<open>%4s\<close>.\<close>

definition scan_word4 :: "string \<Rightarrow> string option" where
  "scan_word4 s =
     (let s1 = dropWhile isspace s
      in if s1 = [] then None else Some (take 4 (takeWhile (\<lambda>c. \<not> isspace c) s1)))"

text \<open>\<^verbatim>\<open>sscanf(line, "%lx-%lx %4s ", &start, &end, perm) == 3\<close>.\<close>

definition sscanf_map_line :: "string \<Rightarrow> (u64 \<times> u64 \<times> string) option" where
  "sscanf_map_line line =
     (case scan_hex line of
        Some (start, CHR ''-'' # r1) \<Rightarrow>
          (case scan_hex r1 of
             Some (en, r2) \<Rightarrow>
               (case scan_word4 r2 of Some perm \<Rightarrow> Some (start, en, perm) | None \<Rightarrow> None)
           | None \<Rightarrow> None)
      | _ \<Rightarrow> None)"

text \<open>What suppressed conversions read over: \<^verbatim>\<open>%*x:%*x %*d\<close>, and a decimal number.\<close>

definition is_digit :: "char \<Rightarrow> bool" where
  "is_digit c = (CHR ''0'' \<le> c \<and> c \<le> CHR ''9'')"

definition skip_decimal :: "string \<Rightarrow> string option" where
  "skip_decimal s =
     (let s1 = skip_sign (dropWhile isspace s)
      in if s1 \<noteq> [] \<and> is_digit (hd s1) then Some (dropWhile is_digit s1) else None)"

definition skip_device_inode :: "string \<Rightarrow> string option" where
  "skip_device_inode s =
     (case scan_hex s of
        Some (_, c # r1) \<Rightarrow>
          (if c \<noteq> CHR '':'' then None
           else case scan_hex r1 of Some (_, r2) \<Rightarrow> skip_decimal r2 | None \<Rightarrow> None)
      | _ \<Rightarrow> None)"

section \<open>Reading the protection\<close>

text \<open>
  The buffer \<^verbatim>\<open>char perm[5]\<close> keeps what earlier lines left in it: a conversion writes its
  characters and a NUL over the front.
\<close>

definition put_perm :: "string \<Rightarrow> string \<Rightarrow> string" where
  "put_perm buf s = (s @ [CHR 0x00]) @ drop (length s + 1) buf"

text \<open>The bits of the first mapping, and the bits later mappings take away.\<close>

definition prot_first :: "string \<Rightarrow> u32 \<Rightarrow> u32" where
  "prot_first perm prot =
     (let p1 = (if perm ! 0 = CHR ''r'' then prot OR PROT_READ else prot);
          p2 = (if perm ! 1 = CHR ''w'' then p1 OR PROT_WRITE else p1)
      in if perm ! 2 = CHR ''x'' then p2 OR PROT_EXEC else p2)"

definition prot_next :: "string \<Rightarrow> u32 \<Rightarrow> u32" where
  "prot_next perm prot =
     (let p1 = (if perm ! 0 \<noteq> CHR ''r'' then prot AND NOT PROT_READ else prot);
          p2 = (if perm ! 1 \<noteq> CHR ''w'' then p1 AND NOT PROT_WRITE else p1)
      in if perm ! 2 \<noteq> CHR ''x'' then p2 AND NOT PROT_EXEC else p2)"

lemma fgets_take_length: "length (snd (fgets_take n s)) \<le> length s"
  by (induction n s rule: fgets_take.induct) (auto split: prod.splits)

lemma fgets_shorter: "fgets s = Some (l, r) \<Longrightarrow> length r < length s"
  using fgets_take_length [of 510 "tl s"]
  by (cases s) (auto simp: fgets_def eval_nat_numeral split: prod.splits if_splits)

text \<open>The loop over the lines: whether all of the range was found, and the protection.\<close>

function maps_loop ::
    "string option \<Rightarrow> addr \<Rightarrow> addr \<Rightarrow> string \<Rightarrow> bool \<Rightarrow> u32 \<Rightarrow> string \<Rightarrow> bool \<times> u32" where
  "maps_loop pathname start_addr end_addr perm load0 prot text =
     (case fgets text of
        None \<Rightarrow> (False, prot)
      | Some (line0, rest) \<Rightarrow>
          (let line = c_str line0 in
           if (case pathname of None \<Rightarrow> False | Some p \<Rightarrow> \<not> strstr line p)
           then maps_loop pathname start_addr end_addr perm load0 prot rest
           else case sscanf_map_line line of
             None \<Rightarrow> maps_loop pathname start_addr end_addr perm load0 prot rest
           | Some (start, en, w) \<Rightarrow>
               (let perm' = put_perm perm w in
                if perm' ! 3 \<noteq> CHR ''p''
                then maps_loop pathname start_addr end_addr perm' load0 prot rest
                else if start_addr \<ge> start \<and> start_addr < en
                then (let prot' = (if load0 then prot_first perm' prot else prot_next perm' prot)
                      in if end_addr \<le> en then (True, prot')
                         else maps_loop pathname en end_addr perm' False prot' rest)
                else maps_loop pathname start_addr end_addr perm' load0 prot rest)))"
  by pat_completeness auto
termination
  by (relation "measure (\<lambda>(pathname, sa, ea, perm, load0, prot, text). length text)")
    (auto simp: fgets_shorter)

declare maps_loop.simps [simp del]

text \<open>
  The error \<open>e\<close> and the value left in \<^verbatim>\<open>*prot\<close>. A \<^verbatim>\<open>sscanf\<close> that reads only part of its items
  may change \<^verbatim>\<open>start\<close> and \<^verbatim>\<open>end\<close>, which are not read then; \<open>perm0\<close> is the initial content of the
  uninitialised buffer.
\<close>

definition xh_util_get_mem_protect ::
    "os \<Rightarrow> string \<Rightarrow> memory \<Rightarrow> addr \<Rightarrow> u64 \<Rightarrow> string option \<Rightarrow> int \<times> u32" where
  "xh_util_get_mem_protect os perm0 m addr len pathname =
     (case os_maps os m of
        None \<Rightarrow> (XH_ERRNO_BADMAPS, 0)
      | Some text \<Rightarrow>
          (case maps_loop pathname addr (addr + len) perm0 True 0 text of
             (found_all, prot) \<Rightarrow> (if found_all then 0 else XH_ERRNO_SEGVERR, prot)))"

definition xh_util_get_addr_protect ::
    "os \<Rightarrow> string \<Rightarrow> memory \<Rightarrow> addr \<Rightarrow> string option \<Rightarrow> int \<times> u32" where
  "xh_util_get_addr_protect os perm0 m addr pathname =
     xh_util_get_mem_protect os perm0 m addr 8 pathname"

section \<open>Changing the protection\<close>

definition PAGE_SIZE :: u64 where "PAGE_SIZE = 4096"
definition PAGE_MASK :: u64 where "PAGE_MASK = NOT (PAGE_SIZE - 1)"

definition PAGE_START :: "addr \<Rightarrow> addr" where "PAGE_START a = a AND PAGE_MASK"
definition PAGE_END :: "addr \<Rightarrow> addr" where "PAGE_END a = PAGE_START (a + 8 - 1) + PAGE_SIZE"
definition PAGE_COVER :: "addr \<Rightarrow> addr" where "PAGE_COVER a = PAGE_END a - PAGE_START a"

definition xh_util_set_addr_protect :: "os \<Rightarrow> memory \<Rightarrow> addr \<Rightarrow> u32 \<Rightarrow> int \<times> memory" where
  "xh_util_set_addr_protect os m addr prot =
     (case os_mprotect os m (PAGE_START addr) (PAGE_COVER addr) prot of
        (ret, errno, m') \<Rightarrow>
          (if ret \<noteq> 0 then if errno = 0 then XH_ERRNO_UNKNOWN else errno else 0, m'))"

section \<open>The kernel's line format\<close>

text \<open>
  A mapping and the line the kernel prints for it: the bounds in hexadecimal with at least
  eight digits, four permission characters, and the rest (offset, device, inode and path).
\<close>

record mapping_line =
  ml_start :: u64
  ml_end :: u64
  ml_perm :: string
  ml_rest :: string

definition digit_char :: "nat \<Rightarrow> char" where
  "digit_char d = char_of (if d < 10 then 48 + d else 87 + d)"

function hex_string :: "nat \<Rightarrow> string" where
  "hex_string n = (if n < 16 then [digit_char n] else hex_string (n div 16) @ [digit_char (n mod 16)])"
  by pat_completeness auto
termination by (relation "measure id") auto

declare hex_string.simps [simp del]

definition hex_pad :: "nat \<Rightarrow> u64 \<Rightarrow> string" where
  "hex_pad k w = replicate (k - length (hex_string (unat w))) (CHR ''0'') @ hex_string (unat w)"

definition hex8 :: "u64 \<Rightarrow> string" where
  "hex8 w = hex_pad 8 w"

definition print_line :: "mapping_line \<Rightarrow> string" where
  "print_line l = hex8 (ml_start l) @ ''-'' @ hex8 (ml_end l) @ '' '' @ ml_perm l @ '' '' @
     ml_rest l @ [CHR 0x0A]"

definition line_ok :: "mapping_line \<Rightarrow> bool" where
  "line_ok l \<longleftrightarrow> length (ml_perm l) = 4 \<and> list_all (\<lambda>c. \<not> isspace c) (ml_perm l) \<and>
     CHR 0x0A \<notin> set (ml_rest l) \<and> CHR 0x00 \<notin> set (ml_perm l @ ml_rest l) \<and>
     length (print_line l) \<le> 511"

definition line_named :: "string option \<Rightarrow> mapping_line \<Rightarrow> bool" where
  "line_named pathname l = (case pathname of None \<Rightarrow> True | Some p \<Rightarrow> strstr (print_line l) p)"

text \<open>The reader on the mappings themselves.\<close>

fun mappings_walk ::
    "string option \<Rightarrow> addr \<Rightarrow> addr \<Rightarrow> bool \<Rightarrow> u32 \<Rightarrow> mapping_line list \<Rightarrow> bool \<times> u32" where
  "mappings_walk pathname sa ea load0 prot [] = (False, prot)"
| "mappings_walk pathname sa ea load0 prot (l # ls) =
     (if line_named pathname l \<and> ml_perm l ! 3 = CHR ''p'' \<and> sa \<ge> ml_start l \<and> sa < ml_end l
      then (let prot' = (if load0 then prot_first (ml_perm l) prot else prot_next (ml_perm l) prot)
            in if ea \<le> ml_end l then (True, prot')
               else mappings_walk pathname (ml_end l) ea False prot' ls)
      else mappings_walk pathname sa ea load0 prot ls)"

lemma char_of_nat_lt: "n < 256 \<Longrightarrow> (of_char (char_of n :: char) :: nat) = n"
  by simp

lemma hex_digit_digit_char: "d < 16 \<Longrightarrow> hex_digit (digit_char d) = Some d"
  by (auto simp: hex_digit_def digit_char_def Let_def)

lemma digit_char_props:
  assumes "d < 16"
  shows "\<not> isspace (digit_char d)" "digit_char d \<noteq> CHR ''-''" "digit_char d \<noteq> CHR ''+''"
    "digit_char d \<noteq> CHR ''x''" "digit_char d \<noteq> CHR ''X''" "digit_char d \<noteq> CHR 0x0A" "digit_char d \<noteq> CHR 0x00"
proof -
  have "isspace c \<Longrightarrow> hex_digit c = None" for c by (auto simp: isspace_def hex_digit_def)
  moreover have "hex_digit (CHR ''-'') = None" "hex_digit (CHR ''+'') = None"
    "hex_digit (CHR ''x'') = None" "hex_digit (CHR ''X'') = None" "hex_digit (CHR 0x0A) = None"
    "hex_digit (CHR 0x00) = None"
    by (simp_all add: hex_digit_def)
  ultimately show "\<not> isspace (digit_char d)" "digit_char d \<noteq> CHR ''-''" "digit_char d \<noteq> CHR ''+''"
    "digit_char d \<noteq> CHR ''x''" "digit_char d \<noteq> CHR ''X''" "digit_char d \<noteq> CHR 0x0A" "digit_char d \<noteq> CHR 0x00"
    using hex_digit_digit_char [OF assms] by (metis option.distinct(1))+
qed

lemma scan_digits_append:
  "(\<forall>c\<in>set s. hex_digit c \<noteq> None) \<Longrightarrow>
   scan_digits acc (s @ r) = scan_digits (fst (scan_digits acc s)) r"
  by (induction s arbitrary: acc) auto

lemma hex_string_digits:
  "c \<in> set (hex_string n) \<Longrightarrow> \<exists>d<16. c = digit_char d"
proof (induction n rule: hex_string.induct)
  case (1 n)
  then show ?case
    by (subst (asm) hex_string.simps)
      (auto split: if_splits, metis mod_less_divisor zero_less_numeral)
qed

lemma scan_digits_hex_string: "scan_digits 0 (hex_string n) = (n, [])"
proof (induction n rule: hex_string.induct)
  case (1 n)
  show ?case
  proof (cases "n < 16")
    case True
    then show ?thesis by (subst hex_string.simps) (simp add: hex_digit_digit_char)
  next
    case False
    have "\<forall>c\<in>set (hex_string (n div 16)). hex_digit c \<noteq> None"
      by (auto dest!: hex_string_digits simp: hex_digit_digit_char)
    with False 1 show ?thesis
      by (subst hex_string.simps) (simp add: scan_digits_append hex_digit_digit_char)
  qed
qed

lemma scan_digits_zeros: "scan_digits 0 (replicate k (CHR ''0'') @ s) = scan_digits 0 s"
  by (induction k) (simp_all add: hex_digit_def)

lemma hex_pad_digits: "c \<in> set (hex_pad k w) \<Longrightarrow> \<exists>d<16. c = digit_char d"
proof -
  have "CHR ''0'' = digit_char 0" by code_simp
  then show "c \<in> set (hex_pad k w) \<Longrightarrow> \<exists>d<16. c = digit_char d"
    by (auto simp: hex_pad_def dest: hex_string_digits intro: exI [of _ 0])
qed

lemma hex_pad_nonempty: "hex_pad k w \<noteq> []"
  by (subst hex_pad_def, subst hex_string.simps) auto

lemma scan_hex_pad:
  assumes "r = [] \<or> hex_digit (hd r) = None \<and> hd r \<noteq> CHR ''x'' \<and> hd r \<noteq> CHR ''X''"
  shows "scan_hex (hex_pad k w @ r) = Some (w, r)"
proof -
  obtain c s where cs: "hex_pad k w = c # s" using hex_pad_nonempty by (cases "hex_pad k w") auto
  have dig: "\<And>c. c \<in> set (hex_pad k w) \<Longrightarrow> \<exists>d<16. c = digit_char d" by (rule hex_pad_digits)
  then have all: "\<forall>c\<in>set (hex_pad k w). hex_digit c \<noteq> None" by (fastforce simp: hex_digit_digit_char)
  from dig [of c] cs have c: "\<not> isspace c" "c \<noteq> CHR ''-''" "c \<noteq> CHR ''+''"
    by (auto simp: digit_char_props)
  have nx: "\<not> (\<exists>b t. s @ r = b # t \<and> (b = CHR ''x'' \<or> b = CHR ''X''))"
  proof (cases s)
    case Nil
    with assms show ?thesis by auto
  next
    case (Cons b t)
    with dig [of b] cs show ?thesis by (auto simp: digit_char_props)
  qed
  have "scan_digits 0 (hex_pad k w) = (unat w, [])"
    by (simp add: hex_pad_def scan_digits_zeros scan_digits_hex_string)
  moreover have "scan_digits n r = (n, r)" for n
    using assms by (cases r) auto
  ultimately have "scan_digits 0 (hex_pad k w @ r) = (unat w, r)"
    using all by (simp add: scan_digits_append)
  then have u: "scan_unsigned (hex_pad k w @ r) = Some (unat w, r)"
    using all cs by (simp add: scan_unsigned_def)
  have "dropWhile isspace (hex_pad k w @ r) = hex_pad k w @ r" using c cs by simp
  moreover have "skip_0x (hex_pad k w @ r) = hex_pad k w @ r"
    using nx cs by (auto simp: skip_0x_def split: list.split)
  moreover have "skip_sign (hex_pad k w @ r) = hex_pad k w @ r" "\<not> has_minus (hex_pad k w @ r)"
    using c cs by (simp_all add: skip_sign_def has_minus_def)
  ultimately show ?thesis
    using u unat_u64_less [of w] by (simp add: scan_hex_def)
qed

lemma hex8_digits: "c \<in> set (hex8 w) \<Longrightarrow> \<exists>d<16. c = digit_char d"
  unfolding hex8_def by (rule hex_pad_digits)

lemma scan_hex_hex8:
  "r = [] \<or> hex_digit (hd r) = None \<and> hd r \<noteq> CHR ''x'' \<and> hd r \<noteq> CHR ''X'' \<Longrightarrow> scan_hex (hex8 w @ r) = Some (w, r)"
  unfolding hex8_def by (rule scan_hex_pad)

lemma scan_word4_perm:
  assumes "length p = 4" "list_all (\<lambda>c. \<not> isspace c) p" "r \<noteq> []" "isspace (hd r)"
  shows "scan_word4 (CHR '' '' # p @ r) = Some p"
proof -
  have p: "\<forall>c\<in>set p. \<not> isspace c" using assms(2) by (simp add: list_all_iff)
  then have "dropWhile isspace (p @ r) = p @ r" using assms(1) by (cases p) auto
  moreover have "isspace (CHR '' '')" by (simp add: isspace_def)
  moreover have "takeWhile (\<lambda>c. \<not> isspace c) (p @ r) = p"
    using p assms(3,4) by (cases r) (simp_all add: takeWhile_append)
  ultimately show ?thesis using assms(1) by (auto simp: scan_word4_def)
qed

lemma sscanf_print_line:
  assumes "line_ok l"
  shows "sscanf_map_line (print_line l) = Some (ml_start l, ml_end l, ml_perm l)"
proof -
  have sp: "isspace (CHR '' '')" "hex_digit (CHR '' '') = None" "hex_digit (CHR ''-'') = None"
    by (simp_all add: isspace_def hex_digit_def)
  have "scan_hex (print_line l) = Some (ml_start l, CHR ''-'' # hex8 (ml_end l) @ '' '' @ ml_perm l @ '' '' @ ml_rest l @ [CHR 0x0A])"
    using scan_hex_hex8 [of "CHR ''-'' # hex8 (ml_end l) @ '' '' @ ml_perm l @ '' '' @ ml_rest l @ [CHR 0x0A]"]
    by (simp add: print_line_def sp)
  moreover have "scan_hex (hex8 (ml_end l) @ '' '' @ ml_perm l @ '' '' @ ml_rest l @ [CHR 0x0A]) =
      Some (ml_end l, '' '' @ ml_perm l @ '' '' @ ml_rest l @ [CHR 0x0A])"
    using scan_hex_hex8 [of "'' '' @ ml_perm l @ '' '' @ ml_rest l @ [CHR 0x0A]"] by (simp add: sp)
  moreover have "scan_word4 ('' '' @ ml_perm l @ '' '' @ ml_rest l @ [CHR 0x0A]) = Some (ml_perm l)"
    using assms scan_word4_perm [of "ml_perm l" "'' '' @ ml_rest l @ [CHR 0x0A]"] by (simp add: line_ok_def sp)
  ultimately show ?thesis by (simp add: sscanf_map_line_def)
qed

lemma fgets_take_line:
  "CHR 0x0A \<notin> set s \<Longrightarrow> length s < n \<Longrightarrow> fgets_take n (s @ CHR 0x0A # r) = (s @ [CHR 0x0A], r)"
proof (induction s arbitrary: n)
  case Nil
  then show ?case by (cases n) auto
next
  case (Cons c s)
  then show ?case by (cases n) auto
qed

lemma print_line_chars:
  assumes "line_ok l"
  obtains s where "print_line l = s @ [CHR 0x0A]" "CHR 0x0A \<notin> set s" "CHR 0x00 \<notin> set s" "length s < 511"
proof
  let ?s = "hex8 (ml_start l) @ ''-'' @ hex8 (ml_end l) @ '' '' @ ml_perm l @ '' '' @ ml_rest l"
  show "print_line l = ?s @ [CHR 0x0A]" by (simp add: print_line_def)
  then show "length ?s < 511" using assms by (simp add: line_ok_def)
  have "CHR 0x0A \<notin> set (hex8 w)" "CHR 0x00 \<notin> set (hex8 w)" for w
    using hex8_digits [of _ w] digit_char_props(6,7) by metis+
  moreover have "CHR 0x0A \<notin> set (ml_perm l)" using assms by (auto simp: line_ok_def list_all_iff isspace_def)
  ultimately show "CHR 0x0A \<notin> set ?s" "CHR 0x00 \<notin> set ?s" using assms by (auto simp: line_ok_def)
qed

lemma fgets_print_line:
  assumes "line_ok l"
  shows "fgets (print_line l @ r) = Some (print_line l, r)" "c_str (print_line l) = print_line l"
proof -
  obtain s where s: "print_line l = s @ [CHR 0x0A]" "CHR 0x0A \<notin> set s" "CHR 0x00 \<notin> set s" "length s < 511"
    by (rule print_line_chars [OF assms])
  then show "fgets (print_line l @ r) = Some (print_line l, r)"
    by (simp add: fgets_def fgets_take_line)
  from s show "c_str (print_line l) = print_line l"
    unfolding c_str_def takeWhile_eq_all_conv by auto
qed

lemma put_perm_nth:
  assumes "length w = 4" "i < 4"
  shows "put_perm buf w ! i = w ! i"
  using assms by (simp add: put_perm_def nth_append)

lemma prot_put_perm:
  assumes "length w = 4"
  shows "prot_first (put_perm buf w) = prot_first w" "prot_next (put_perm buf w) = prot_next w"
  using assms by (simp_all add: fun_eq_iff prot_first_def prot_next_def put_perm_nth)

lemma maps_loop_print:
  "list_all line_ok ls \<Longrightarrow>
   maps_loop pathname sa ea perm load0 prot (concat (map print_line ls)) =
   mappings_walk pathname sa ea load0 prot ls"
proof (induction ls arbitrary: sa perm load0 prot)
  case Nil
  show ?case by (subst maps_loop.simps) (simp add: fgets_def)
next
  case (Cons l ls)
  then have ok: "line_ok l" "length (ml_perm l) = 4" by (simp_all add: line_ok_def)
  with Cons show ?case
    by (subst maps_loop.simps)
      (auto simp: fgets_print_line sscanf_print_line prot_put_perm put_perm_nth line_named_def Let_def
        split: option.split)
qed

section \<open>The protection of a range\<close>

text \<open>
  Which mappings the reader looks at (private, and named by the path argument), and what it
  means that they cover a range. The kernel prints the mappings in order and disjoint.
\<close>

definition perm_bits :: "mapping_line \<Rightarrow> u32" where
  "perm_bits l = prot_first (ml_perm l) 0"

definition selected :: "string option \<Rightarrow> mapping_line \<Rightarrow> bool" where
  "selected pathname l \<longleftrightarrow> line_named pathname l \<and> ml_perm l ! 3 = CHR ''p''"

definition mappings_sorted :: "mapping_line list \<Rightarrow> bool" where
  "mappings_sorted ls \<longleftrightarrow> sorted_wrt (\<lambda>a b. ml_end a \<le> ml_start b) ls \<and>
     list_all (\<lambda>l. ml_start l < ml_end l) ls"

definition covered :: "string option \<Rightarrow> mapping_line list \<Rightarrow> addr \<Rightarrow> addr \<Rightarrow> bool" where
  "covered pathname ls sa ea \<longleftrightarrow>
     (\<forall>a. sa \<le> a \<and> a < ea \<longrightarrow> (\<exists>l\<in>set ls. selected pathname l \<and> ml_start l \<le> a \<and> a < ml_end l))"

definition overlaps :: "mapping_line \<Rightarrow> addr \<Rightarrow> addr \<Rightarrow> bool" where
  "overlaps l sa ea \<longleftrightarrow> ml_start l < ea \<and> sa < ml_end l"

lemma small_bits:
  "bit (1 :: u32) n \<longleftrightarrow> n = 0" "bit (2 :: u32) n \<longleftrightarrow> n = 1" "bit (4 :: u32) n \<longleftrightarrow> n = 2"
proof -
  have "bit ((2 :: u32) ^ 0) n \<longleftrightarrow> n = 0" "bit ((2 :: u32) ^ 1) n \<longleftrightarrow> n = 1"
    "bit ((2 :: u32) ^ 2) n \<longleftrightarrow> n = 2"
    by (simp_all only: bit_exp_iff) auto
  then show "bit (1 :: u32) n \<longleftrightarrow> n = 0" "bit (2 :: u32) n \<longleftrightarrow> n = 1" "bit (4 :: u32) n \<longleftrightarrow> n = 2"
    by simp_all
qed

lemma bit_prot_next:
  "i < 3 \<Longrightarrow> bit (prot_next (ml_perm l) prot) i \<longleftrightarrow> bit prot i \<and> bit (perm_bits l) i"
  unfolding prot_next_def perm_bits_def prot_first_def prot_defs Let_def
  by (auto simp: bit_simps small_bits less_Suc_eq numeral_3_eq_3)

lemma prot_first_next: "prot_first p 0 = prot_next p 7"
  by (simp add: prot_first_def prot_next_def prot_defs Let_def)

lemma walk_before:
  "\<forall>l\<in>set ls. sa < ml_start l \<Longrightarrow> mappings_walk pathname sa ea load0 prot ls = (False, prot)"
  by (induction ls) auto

lemma walk_first:
  "fst (mappings_walk pathname sa ea True 0 ls) = fst (mappings_walk pathname sa ea False 7 ls)"
  "fst (mappings_walk pathname sa ea False 7 ls) \<Longrightarrow>
   mappings_walk pathname sa ea True 0 ls = mappings_walk pathname sa ea False 7 ls"
  by (induction ls) (auto simp: Let_def prot_first_next)

lemma mappings_sorted_Cons:
  "mappings_sorted (l # ls) \<longleftrightarrow> ml_start l < ml_end l \<and> (\<forall>l'\<in>set ls. ml_end l \<le> ml_start l') \<and> mappings_sorted ls"
  by (auto simp: mappings_sorted_def)

lemma covered_Cons_in:
  assumes "selected pathname l" "ml_start l \<le> sa" "sa < ml_end l"
  shows "covered pathname (l # ls) sa ea \<longleftrightarrow> covered pathname ls (ml_end l) ea"
proof
  assume c: "covered pathname (l # ls) sa ea"
  show "covered pathname ls (ml_end l) ea"
    unfolding covered_def
  proof (intro allI impI)
    fix a assume a: "ml_end l \<le> a \<and> a < ea"
    with assms(3) have "sa \<le> a" by (elim conjE) order
    with c a obtain l' where l': "l' \<in> set (l # ls)" "selected pathname l'" "ml_start l' \<le> a" "a < ml_end l'"
      unfolding covered_def by blast
    moreover have "l' \<noteq> l" using a l'(4) by auto
    ultimately show "\<exists>l\<in>set ls. selected pathname l \<and> ml_start l \<le> a \<and> a < ml_end l" by auto
  qed
next
  assume c: "covered pathname ls (ml_end l) ea"
  show "covered pathname (l # ls) sa ea"
    unfolding covered_def
  proof (intro allI impI)
    fix a assume a: "sa \<le> a \<and> a < ea"
    show "\<exists>l\<in>set (l # ls). selected pathname l \<and> ml_start l \<le> a \<and> a < ml_end l"
    proof (cases "a < ml_end l")
      case True
      with assms(1,2) a show ?thesis by (auto dest: order.trans)
    next
      case False
      with a c show ?thesis unfolding covered_def by auto
    qed
  qed
qed

lemma covered_Cons_out:
  assumes "\<not> selected pathname l \<or> ml_end l \<le> sa"
  shows "covered pathname (l # ls) sa ea \<longleftrightarrow> covered pathname ls sa ea"
proof -
  have "\<not> (selected pathname l \<and> ml_start l \<le> a \<and> a < ml_end l)" if "sa \<le> a" for a
    using assms that by (auto dest: order.trans)
  then show ?thesis unfolding covered_def by simp blast
qed

lemma walk_covered:
  assumes "mappings_sorted ls" "sa < ea"
  shows "fst (mappings_walk pathname sa ea False prot ls) \<longleftrightarrow> covered pathname ls sa ea"
  using assms
proof (induction ls arbitrary: sa prot)
  case Nil
  then show ?case by (auto simp: covered_def)
next
  case (Cons l ls)
  note srt = Cons.prems(1) [unfolded mappings_sorted_Cons]
  note IH = Cons.IH [OF conjunct2 [OF conjunct2 [OF srt]]]
  show ?case
  proof (cases "selected pathname l \<and> ml_start l \<le> sa \<and> sa < ml_end l")
    case sel: True
    show ?thesis
    proof (cases "ea \<le> ml_end l")
      case True
      with sel show ?thesis by (auto simp: selected_def covered_def)
    next
      case False
      have "covered pathname (l # ls) sa ea \<longleftrightarrow> covered pathname ls (ml_end l) ea"
        using sel by (intro covered_Cons_in) auto
      with sel False IH [of "ml_end l"] show ?thesis by (simp add: selected_def)
    qed
  next
    case False
    then have w: "mappings_walk pathname sa ea False prot (l # ls) = mappings_walk pathname sa ea False prot ls"
      by (auto simp: selected_def)
    show ?thesis
    proof (cases "selected pathname l \<and> sa < ml_start l")
      case True
      then have b: "\<forall>l'\<in>set ls. sa < ml_start l'" using srt by (meson less_le_trans less_imp_le)
      with True have "\<not> covered pathname (l # ls) sa ea"
        using Cons.prems(2) by (auto simp: covered_def not_le intro!: exI [of _ sa])
      with w b show ?thesis by (simp add: walk_before)
    next
      case n: False
      have "covered pathname (l # ls) sa ea \<longleftrightarrow> covered pathname ls sa ea"
        using False n by (intro covered_Cons_out) (auto simp: not_less)
      with w IH [OF Cons.prems(2)] show ?thesis by simp
    qed
  qed
qed

lemma walk_prot:
  assumes "mappings_sorted ls" "sa < ea" "fst (mappings_walk pathname sa ea False prot ls)" "i < 3"
  shows "bit (snd (mappings_walk pathname sa ea False prot ls)) i \<longleftrightarrow>
     bit prot i \<and> (\<forall>l\<in>set ls. selected pathname l \<and> overlaps l sa ea \<longrightarrow> bit (perm_bits l) i)"
  using assms(1-3)
proof (induction ls arbitrary: sa prot)
  case Nil
  then show ?case by simp
next
  case (Cons l ls)
  note srt = Cons.prems(1) [unfolded mappings_sorted_Cons]
  note IH = Cons.IH [OF conjunct2 [OF conjunct2 [OF srt]]]
  show ?case
  proof (cases "selected pathname l \<and> ml_start l \<le> sa \<and> sa < ml_end l")
    case sel: True
    then have ov: "overlaps l sa ea" using Cons.prems(2) by (auto simp: overlaps_def)
    show ?thesis
    proof (cases "ea \<le> ml_end l")
      case True
      then have "\<not> overlaps l' sa ea" if "l' \<in> set ls" for l'
        using srt that by (auto simp: overlaps_def not_less dest: order.trans)
      with sel True ov show ?thesis
        by (auto simp: selected_def bit_prot_next [OF assms(4)])
    next
      case False
      have "overlaps l' sa ea = overlaps l' (ml_end l) ea" if "l' \<in> set ls" for l'
      proof -
        have "ml_start l' < ml_end l'" "ml_end l \<le> ml_start l'"
          using srt that by (auto simp: mappings_sorted_def list_all_iff)
        moreover then have "ml_end l < ml_end l'" by order
        moreover then have "sa < ml_end l'" using sel by (elim conjE) order
        ultimately show ?thesis by (simp add: overlaps_def)
      qed
      with sel False ov IH [of "ml_end l" "prot_next (ml_perm l) prot"] Cons.prems(3) show ?thesis
        by (auto simp: selected_def bit_prot_next [OF assms(4)] Let_def)
    qed
  next
    case False
    then have w: "mappings_walk pathname sa ea False prot (l # ls) = mappings_walk pathname sa ea False prot ls"
      by (auto simp: selected_def)
    have "\<not> (selected pathname l \<and> overlaps l sa ea)"
    proof
      assume a: "selected pathname l \<and> overlaps l sa ea"
      with False have "sa < ml_start l" by (auto simp: overlaps_def not_le)
      then have "\<forall>l'\<in>set ls. sa < ml_start l'" using srt by (meson less_le_trans less_imp_le)
      with w Cons.prems(3) show False by (simp add: walk_before)
    qed
    with w IH [OF Cons.prems(2), of prot] Cons.prems(3) show ?thesis by auto
  qed
qed

lemma strstr_sublist: "strstr s n \<longleftrightarrow> sublist n s"
  by (induction s) (auto simp: sublist_Cons_right)

lemma line_named_rest:
  assumes "strstr (ml_rest l) p"
  shows "line_named (Some p) l"
proof -
  have "print_line l = (hex8 (ml_start l) @ ''-'' @ hex8 (ml_end l) @ '' '' @ ml_perm l @ '' '') @
      ml_rest l @ [CHR 0x0A]"
    by (simp add: print_line_def)
  then have "sublist (ml_rest l) (print_line l)" by (simp only: sublist_appendI)
  with assms show ?thesis
    by (auto simp: line_named_def strstr_sublist intro: sublist_order.order.trans)
qed

text \<open>Two adjacent mappings of one library, the first without write permission.\<close>

definition sample_lines :: "mapping_line list" where
  "sample_lines =
     [\<lparr>ml_start = 28672, ml_end = 32768, ml_perm = ''r--p'', ml_rest = ''0 fe:00 12 /x/libfoo.so''\<rparr>,
      \<lparr>ml_start = 32768, ml_end = 36864, ml_perm = ''rw-p'', ml_rest = ''0 fe:00 12 /x/libfoo.so''\<rparr>]"

definition sample_os :: os where
  "sample_os = \<lparr>os_maps = (\<lambda>_. Some (concat (map print_line sample_lines))),
                os_mprotect = (\<lambda>m a l p. (0, 0, m))\<rparr>"

section \<open>Pages\<close>

text \<open>
  The contract of \<^verbatim>\<open>mprotect\<close>: it never changes the contents of memory, and when it returns 0
  the pages of the range have the new protection. A page has one protection.
\<close>

definition mprotected :: "memory \<Rightarrow> addr \<Rightarrow> u64 \<Rightarrow> u32 \<Rightarrow> memory" where
  "mprotected m a len p = m\<lparr>mprot := (\<lambda>x. if x - a < len then Some p else mprot m x)\<rparr>"

definition mprotect_contract :: "os \<Rightarrow> bool" where
  "mprotect_contract os \<longleftrightarrow>
     (\<forall>m a len p. case os_mprotect os m a len p of (r, e, m') \<Rightarrow>
        mbytes m' = mbytes m \<and> (r = 0 \<longrightarrow> m' = mprotected m a len p))"

definition page_prot :: "memory \<Rightarrow> addr \<Rightarrow> u32 \<Rightarrow> bool" where
  "page_prot m a p \<longleftrightarrow> (\<forall>x. PAGE_START x = PAGE_START a \<longrightarrow> mprot m x = Some p)"

lemma unat_PAGE_START: "unat (PAGE_START a) = unat a div 4096 * 4096"
proof -
  have e: "PAGE_START a = a AND NOT (mask 12)"
    by (simp add: PAGE_START_def PAGE_MASK_def PAGE_SIZE_def mask_eq_exp_minus_1)
  have "PAGE_START a = push_bit 12 (drop_bit 12 a)"
    unfolding e by (rule bit_eqI) (auto simp: bit_simps)
  then have "unat (PAGE_START a) = take_bit 64 (push_bit 12 (drop_bit 12 (unat a)))"
    using unat_u64_less [of a]
    by (simp only: unsigned_push_bit_eq unsigned_drop_bit_eq) (simp add: take_bit_nat_eq_self)
  also have "\<dots> = unat a div 4096 * 4096 mod 2 ^ 64"
    by (simp only: take_bit_eq_mod push_bit_eq_mult drop_bit_eq_div) simp
  also have "\<dots> = unat a div 4096 * 4096"
    using unat_u64_less [of a] div_times_less_eq_dividend [of "unat a" 4096] by (intro mod_less) linarith
  finally show ?thesis .
qed

lemma page_nat: "p * 4096 \<le> x \<and> x < p * 4096 + 4096 \<longleftrightarrow> x div 4096 = (p :: nat)"
  using less_eq_div_iff_mult_less_eq [of 4096 p x] div_less_iff_less_mult [of 4096 x "Suc p"]
  by (auto simp: algebra_simps)

lemma page_offset_less: "x - PAGE_START a < 4096 \<longleftrightarrow> PAGE_START x = PAGE_START a"
proof -
  define p where "p = unat a div 4096"
  have ps: "unat (PAGE_START a) = p * 4096" by (simp add: unat_PAGE_START p_def)
  have "p < 2 ^ 52" using unat_u64_less [of a] by (simp add: p_def less_mult_imp_div_less)
  then have top: "p * 4096 + 4096 \<le> 2 ^ 64" by simp
  have "x - PAGE_START a < 4096 \<longleftrightarrow> unat (x - PAGE_START a) < 4096" by (simp add: word_less_nat_alt)
  also have "\<dots> \<longleftrightarrow> p * 4096 \<le> unat x \<and> unat x < p * 4096 + 4096"
  proof (cases "p * 4096 \<le> unat x")
    case True
    then have "unat (x - PAGE_START a) = unat x - p * 4096" by (simp add: unat_sub_if' ps)
    with True show ?thesis by linarith
  next
    case False
    then have "unat (x - PAGE_START a) = unat x + 2 ^ 64 - p * 4096" by (simp add: unat_sub_if' ps)
    with False top show ?thesis by linarith
  qed
  also have "\<dots> \<longleftrightarrow> unat x div 4096 = p" by (rule page_nat)
  also have "\<dots> \<longleftrightarrow> PAGE_START x = PAGE_START a"
    by (simp add: word_unat_eq_iff unat_PAGE_START p_def)
  finally show ?thesis .
qed

lemma aligned_slot:
  assumes "addr AND 7 = 0" "i < 8"
  shows "unat (addr + of_nat i) = unat addr + i" "PAGE_START (addr + of_nat i) = PAGE_START addr"
proof -
  have "(7 :: u64) = mask 3" by (simp add: mask_eq_exp_minus_1)
  with assms(1) have "take_bit 3 addr = 0" by (simp add: take_bit_eq_mask)
  then have "unat (take_bit 3 addr) = 0" by simp
  then have m8: "unat addr mod 8 = 0" by (simp only: unsigned_take_bit_eq) (simp add: take_bit_eq_mod)
  then have "unat addr = unat addr div 8 * 8" using div_mult_mod_eq [of "unat addr" 8] by simp
  moreover have "unat addr div 8 < 2 ^ 61"
    using unat_u64_less [of addr] by (simp add: less_mult_imp_div_less)
  moreover have "q * 8 + i < 2 ^ 64" if "q < 2 ^ 61" for q :: nat using that assms(2) by simp
  ultimately have "unat addr + i < 2 ^ 64" by metis
  then show u: "unat (addr + of_nat i) = unat addr + i"
    using assms(2) by (simp add: unat_word_ariths unat_of_nat)
  have "(unat addr + i) div 8 = unat addr div 8"
    using m8 assms(2) div_add1_eq [of "unat addr" i 8] by simp
  then have "(unat addr + i) div (8 * 512) = unat addr div (8 * 512)"
    by (simp only: div_mult2_eq)
  then have "(unat addr + i) div 4096 = unat addr div 4096" by simp
  then show "PAGE_START (addr + of_nat i) = PAGE_START addr"
    by (simp add: word_unat_eq_iff unat_PAGE_START u)
qed

lemma aligned_cover:
  assumes "addr AND 7 = 0"
  shows "PAGE_COVER addr = 4096"
  using aligned_slot(2) [OF assms, of 7]
  by (simp add: PAGE_COVER_def PAGE_END_def PAGE_SIZE_def algebra_simps)

lemma set_protect_ok:
  assumes "mprotect_contract os" "addr AND 7 = 0"
    and "fst (os_mprotect os m (PAGE_START addr) 4096 q) = 0"
  shows "xh_util_set_addr_protect os m addr q = (0, mprotected m (PAGE_START addr) 4096 q)"
  using assms(1,3) aligned_cover [OF assms(2)]
  by (cases "os_mprotect os m (PAGE_START addr) 4096 q")
    (auto simp: xh_util_set_addr_protect_def mprotect_contract_def split: prod.splits)

lemma page_slot_readable:
  assumes "page_prot m addr p" "addr AND 7 = 0" 
  shows "bit p 0 \<Longrightarrow> all_readable m addr 8" "bit p 1 \<Longrightarrow> all_writable m addr 8"
  using assms aligned_slot(2) [OF assms(2)]
  by (auto simp: all_readable_def all_writable_def page_prot_def readable_def writable_def)

lemma mprotected_page: "page_prot (mprotected m (PAGE_START a) 4096 q) a q"
  by (simp add: page_prot_def mprotected_def page_offset_less)

lemma mprotected_back:
  assumes "page_prot m a p"
  shows "mprotected ((mprotected m (PAGE_START a) 4096 q)\<lparr>mbytes := f\<rparr>) (PAGE_START a) 4096 p = m\<lparr>mbytes := f\<rparr>"
  using assms by (cases m) (auto simp: mprotected_def page_prot_def page_offset_less fun_eq_iff)


section \<open>Properties\<close>

text \<open>
  C24: when \<^verbatim>\<open>/proc/self/maps\<close> lists the mappings in the kernel's format, the protection query
  succeeds exactly when the private mappings named by the path cover the whole range, and then
  each permission bit is set exactly when every such mapping that overlaps the range has it.
\<close>

theorem get_mem_protect_correct:
  assumes "os_maps os m = Some (concat (map print_line ls))" "list_all line_ok ls" "mappings_sorted ls"
    and "addr < addr + len"
  shows "fst (xh_util_get_mem_protect os perm0 m addr len pathname) =
       (if covered pathname ls addr (addr + len) then 0 else XH_ERRNO_SEGVERR) \<and>
     (covered pathname ls addr (addr + len) \<longrightarrow>
       (\<forall>i<3. bit (snd (xh_util_get_mem_protect os perm0 m addr len pathname)) i \<longleftrightarrow>
          (\<forall>l\<in>set ls. selected pathname l \<and> overlaps l addr (addr + len) \<longrightarrow> bit (perm_bits l) i)))"
proof -
  let ?w = "mappings_walk pathname addr (addr + len) True 0 ls"
  let ?w7 = "mappings_walk pathname addr (addr + len) False 7 ls"
  have g: "xh_util_get_mem_protect os perm0 m addr len pathname =
      (if fst ?w then 0 else XH_ERRNO_SEGVERR, snd ?w)"
    using assms(1,2) by (simp add: xh_util_get_mem_protect_def maps_loop_print case_prod_beta)
  have c: "fst ?w \<longleftrightarrow> covered pathname ls addr (addr + len)"
    using walk_covered [OF assms(3,4)] walk_first(1) by blast
  have "bit (7 :: u32) i" if "i < 3" for i
    using that by (auto simp: less_Suc_eq numeral_3_eq_3)
  then have "\<forall>i<3. bit (snd ?w) i \<longleftrightarrow>
      (\<forall>l\<in>set ls. selected pathname l \<and> overlaps l addr (addr + len) \<longrightarrow> bit (perm_bits l) i)" if "fst ?w"
    using that walk_first walk_prot [OF assms(3,4), of pathname 7] by metis
  with g c show ?thesis by simp
qed

theorem get_mem_protect_correct_witness:
  "fst (xh_util_get_mem_protect sample_os ''.....'' no_memory 32764 8 (Some ''libfoo'')) = 0 \<and>
   bit (snd (xh_util_get_mem_protect sample_os ''.....'' no_memory 32764 8 (Some ''libfoo''))) 0 \<and>
   \<not> bit (snd (xh_util_get_mem_protect sample_os ''.....'' no_memory 32764 8 (Some ''libfoo''))) 1"
proof -
  have ok: "list_all line_ok sample_lines"
    by (simp add: sample_lines_def line_ok_def print_line_def isspace_def hex8_def hex_pad_def hex_string.simps)
  have srt: "mappings_sorted sample_lines" by (simp add: mappings_sorted_def sample_lines_def)
  have "strstr ''0 fe:00 12 /x/libfoo.so'' ''libfoo''" by simp
  then have "list_all (selected (Some ''libfoo'')) sample_lines"
    by (simp add: sample_lines_def selected_def line_named_rest)
  then have sel: "selected (Some ''libfoo'') l" if "l \<in> set sample_lines" for l
    using that by (simp add: list_all_iff)
  have cov: "covered (Some ''libfoo'') sample_lines 32764 32772"
    unfolding covered_def
  proof (intro allI impI)
    fix a :: u64
    assume "32764 \<le> a \<and> a < 32772"
    then have "28672 \<le> a \<and> a < 32768 \<or> 32768 \<le> a \<and> a < 36864" by unat_arith
    with sel show "\<exists>l\<in>set sample_lines. selected (Some ''libfoo'') l \<and> ml_start l \<le> a \<and> a < ml_end l"
      unfolding sample_lines_def by auto
  qed
  have bits: "overlaps l 32764 32772 \<and> bit (perm_bits l) 0" if "l \<in> set sample_lines" for l
    using that by (auto simp: sample_lines_def overlaps_def perm_bits_def prot_first_def prot_defs)
  have "\<exists>l\<in>set sample_lines. \<not> bit (perm_bits l) 1"
    by (simp add: sample_lines_def perm_bits_def prot_first_def prot_defs)
  with bits cov sel get_mem_protect_correct [of sample_os no_memory sample_lines 32764 8 "''.....''" "Some ''libfoo''"] ok srt
  show ?thesis by (auto simp: sample_os_def)
qed

end
