(* ===== verification/Xh_Elf.thy ===== *)
theory Xh_Elf
  imports Xh_Packed Xh_Util
begin

unbundle bit_operations_syntax

text \<open>
  \<^verbatim>\<open>libxhook/xh_elf.c\<close>: the check of an ELF header in memory, the two symbol hash tables, the
  initialisation of an \<open>xh_elf_t\<close> from the dynamic section, the replacement of one function
  slot and the hook of one symbol over the three relocation tables. Structures of the ELF
  format are read at their offsets of the 64-bit little-endian class. A loop over an array
  counts its elements, because a pointer that leaves its array is undefined in C. The two
  searches that follow links in the file can cycle on a damaged file and are partial.
\<close>

section \<open>Fields of the ELF structures\<close>

definition e_ident :: "memory \<Rightarrow> addr \<Rightarrow> u64 \<Rightarrow> u8 run" where "e_ident m ehdr i = load8 m (ehdr + i)"
definition e_type :: "memory \<Rightarrow> addr \<Rightarrow> u16 run" where "e_type m ehdr = load16 m (ehdr + 16)"
definition e_machine :: "memory \<Rightarrow> addr \<Rightarrow> u16 run" where "e_machine m ehdr = load16 m (ehdr + 18)"
definition e_version :: "memory \<Rightarrow> addr \<Rightarrow> u32 run" where "e_version m ehdr = load32 m (ehdr + 20)"
definition e_phoff :: "memory \<Rightarrow> addr \<Rightarrow> u64 run" where "e_phoff m ehdr = load64 m (ehdr + 32)"
definition e_phnum :: "memory \<Rightarrow> addr \<Rightarrow> u16 run" where "e_phnum m ehdr = load16 m (ehdr + 56)"

definition p_type :: "memory \<Rightarrow> addr \<Rightarrow> u32 run" where "p_type m phdr = load32 m phdr"
definition p_offset :: "memory \<Rightarrow> addr \<Rightarrow> u64 run" where "p_offset m phdr = load64 m (phdr + 8)"
definition p_vaddr :: "memory \<Rightarrow> addr \<Rightarrow> u64 run" where "p_vaddr m phdr = load64 m (phdr + 16)"
definition p_memsz :: "memory \<Rightarrow> addr \<Rightarrow> u64 run" where "p_memsz m phdr = load64 m (phdr + 40)"
definition sizeof_Phdr :: u64 where "sizeof_Phdr = 56"

definition d_tag :: "memory \<Rightarrow> addr \<Rightarrow> u64 run" where "d_tag m dyn = load64 m dyn"
definition d_val :: "memory \<Rightarrow> addr \<Rightarrow> u64 run" where "d_val m dyn = load64 m (dyn + 8)"
definition sizeof_Dyn :: u64 where "sizeof_Dyn = 16"

definition sizeof_Sym :: u64 where "sizeof_Sym = 24"

text \<open>\<^verbatim>\<open>p[i]\<close> for an array of \<^verbatim>\<open>uint32_t\<close>.\<close>

definition index32 :: "memory \<Rightarrow> addr \<Rightarrow> u32 \<Rightarrow> u32 run" where
  "index32 m p i = load32 m (p + ucast i * 4)"

section \<open>The header check\<close>

definition ELFMAG :: "u8 list" where "ELFMAG = [127, 69, 76, 70]"
definition ELFCLASS64 :: u8 where "ELFCLASS64 = 2"
definition ELFDATA2LSB :: u8 where "ELFDATA2LSB = 1"
definition EV_CURRENT :: nat where "EV_CURRENT = 1"
definition ET_EXEC :: u16 where "ET_EXEC = 2"
definition ET_DYN :: u16 where "ET_DYN = 3"
definition EM_AARCH64 :: u16 where "EM_AARCH64 = 183"

definition read_ident :: "memory \<Rightarrow> addr \<Rightarrow> u8 list run" where
  "read_ident m ehdr =
     run_bind (e_ident m ehdr 0) (\<lambda>b0. run_bind (e_ident m ehdr 1) (\<lambda>b1.
     run_bind (e_ident m ehdr 2) (\<lambda>b2. run_bind (e_ident m ehdr 3) (\<lambda>b3. Ret [b0, b1, b2, b3]))))"

definition xh_elf_check_elfheader :: "memory \<Rightarrow> addr \<Rightarrow> int run" where
  "xh_elf_check_elfheader m base_addr =
     run_bind (read_ident m base_addr) (\<lambda>ident.
     if ident \<noteq> ELFMAG then Ret XH_ERRNO_FORMAT
     else run_bind (e_ident m base_addr 4) (\<lambda>cls.
     if cls \<noteq> ELFCLASS64 then Ret XH_ERRNO_FORMAT
     else run_bind (e_ident m base_addr 5) (\<lambda>dat.
     if dat \<noteq> ELFDATA2LSB then Ret XH_ERRNO_FORMAT
     else run_bind (e_ident m base_addr 6) (\<lambda>ver.
     if ver \<noteq> of_nat EV_CURRENT then Ret XH_ERRNO_FORMAT
     else run_bind (e_type m base_addr) (\<lambda>ty.
     if ty \<noteq> ET_EXEC \<and> ty \<noteq> ET_DYN then Ret XH_ERRNO_FORMAT
     else run_bind (e_machine m base_addr) (\<lambda>mach.
     if mach \<noteq> EM_AARCH64 then Ret XH_ERRNO_FORMAT
     else run_bind (e_version m base_addr) (\<lambda>v.
     if v \<noteq> of_nat EV_CURRENT then Ret XH_ERRNO_FORMAT else Ret 0)))))))"

section \<open>Hash functions\<close>

definition xh_elf_hash_step :: "u32 \<Rightarrow> u8 \<Rightarrow> u32" where
  "xh_elf_hash_step h c =
     (let h1 = push_bit 4 h + ucast c;
          g = h1 AND 0xf0000000;
          h2 = h1 XOR g
      in h2 XOR drop_bit 24 g)"

definition xh_elf_hash :: "string \<Rightarrow> u32" where
  "xh_elf_hash name = foldl (\<lambda>h c. xh_elf_hash_step h (of_char c)) 0 name"

definition xh_elf_gnu_hash :: "string \<Rightarrow> u32" where
  "xh_elf_gnu_hash name = foldl (\<lambda>h c. h + (push_bit 5 h + of_char c)) 5381 name"

section \<open>The state\<close>

record xh_elf_t =
  pathname :: "string option"
  base_addr :: addr
  bias_addr :: addr
  ehdr :: addr
  phdr :: addr
  dyn :: addr
  dyn_sz :: u32
  strtab :: addr
  symtab :: addr
  relplt :: addr
  relplt_sz :: u32
  reldyn :: addr
  reldyn_sz :: u32
  relandroid :: addr
  relandroid_sz :: u32
  bucket :: addr
  bucket_cnt :: u32
  chain :: addr
  chain_cnt :: u32
  symoffset :: u32
  bloom :: addr
  bloom_sz :: u32
  bloom_shift :: u32
  is_use_rela :: bool
  is_use_gnu_hash :: bool

definition st_name :: "memory \<Rightarrow> xh_elf_t \<Rightarrow> u32 \<Rightarrow> u32 run" where
  "st_name m self i = load32 m (symtab self + ucast i * sizeof_Sym)"

text \<open>\<^verbatim>\<open>self->strtab + self->symtab[i].st_name\<close>, and \<^verbatim>\<open>0 == strcmp(symbol, symname)\<close> for it.\<close>

definition symname :: "memory \<Rightarrow> xh_elf_t \<Rightarrow> u32 \<Rightarrow> addr run" where
  "symname m self i = run_bind (st_name m self i) (\<lambda>n. Ret (strtab self + ucast n))"

section \<open>Segments\<close>

fun first_segment :: "memory \<Rightarrow> (addr \<Rightarrow> bool run) \<Rightarrow> nat \<Rightarrow> addr \<Rightarrow> addr option run" where
  "first_segment m p 0 ph = Ret None"
| "first_segment m p (Suc n) ph =
     run_bind (p ph) (\<lambda>b. if b then Ret (Some ph) else first_segment m p n (ph + sizeof_Phdr))"

definition xh_elf_get_first_segment_by_type :: "memory \<Rightarrow> xh_elf_t \<Rightarrow> u32 \<Rightarrow> addr option run" where
  "xh_elf_get_first_segment_by_type m self type =
     run_bind (e_phnum m (ehdr self)) (\<lambda>phnum.
       first_segment m (\<lambda>ph. run_bind (p_type m ph) (\<lambda>t. Ret (t = type))) (unat phnum) (phdr self))"

definition xh_elf_get_first_segment_by_type_offset ::
    "memory \<Rightarrow> xh_elf_t \<Rightarrow> u32 \<Rightarrow> u64 \<Rightarrow> addr option run" where
  "xh_elf_get_first_segment_by_type_offset m self type offset =
     run_bind (e_phnum m (ehdr self)) (\<lambda>phnum.
       first_segment m
         (\<lambda>ph. run_bind (p_type m ph) (\<lambda>t.
            if t \<noteq> type then Ret False else run_bind (p_offset m ph) (\<lambda>off. Ret (off = offset))))
         (unat phnum) (phdr self))"

section \<open>Symbol lookup\<close>

text \<open>
  \<open>Inl e\<close> is the error return, \<open>Inr i\<close> the return 0 with \<^verbatim>\<open>*symidx = i\<close>. The outer option is
  \<open>None\<close> when the search never ends.
\<close>

type_synonym lookup_result = "(int + u32) run"

partial_function (option) hash_chain_loop ::
    "memory \<Rightarrow> xh_elf_t \<Rightarrow> string \<Rightarrow> u32 \<Rightarrow> lookup_result option" where
  [code]: "hash_chain_loop m self symbol i =
     (if i = 0 then Some (Ret (Inl XH_ERRNO_NOTFND))
      else case run_bind (symname m self i) (strcmp_eq m symbol) of
        Segv \<Rightarrow> Some Segv
      | Undef \<Rightarrow> Some Undef
      | Ret eq \<Rightarrow>
          if eq then Some (Ret (Inr i))
          else case index32 m (chain self) i of
            Segv \<Rightarrow> Some Segv
          | Undef \<Rightarrow> Some Undef
          | Ret j \<Rightarrow> hash_chain_loop m self symbol j)"

definition xh_elf_hash_lookup :: "memory \<Rightarrow> xh_elf_t \<Rightarrow> string \<Rightarrow> lookup_result option" where
  "xh_elf_hash_lookup m self symbol =
     (let hash = xh_elf_hash symbol in
      if bucket_cnt self = 0 then Some Undef
      else case index32 m (bucket self) (hash mod bucket_cnt self) of
        Segv \<Rightarrow> Some Segv
      | Undef \<Rightarrow> Some Undef
      | Ret i \<Rightarrow> hash_chain_loop m self symbol i)"

partial_function (option) gnu_chain_loop ::
    "memory \<Rightarrow> xh_elf_t \<Rightarrow> string \<Rightarrow> u32 \<Rightarrow> u32 \<Rightarrow> lookup_result option" where
  [code]: "gnu_chain_loop m self symbol hash i =
     (case run_bind (symname m self i) (\<lambda>nm.
             run_bind (index32 m (chain self) (i - symoffset self)) (\<lambda>symhash.
               run_bind (if hash OR 1 = symhash OR 1 then strcmp_eq m symbol nm else Ret False)
                 (\<lambda>eq. Ret (symhash, eq)))) of
        Segv \<Rightarrow> Some Segv
      | Undef \<Rightarrow> Some Undef
      | Ret (symhash, eq) \<Rightarrow>
          if eq then Some (Ret (Inr i))
          else if symhash AND 1 \<noteq> 0 then Some (Ret (Inl XH_ERRNO_NOTFND))
          else gnu_chain_loop m self symbol hash (i + 1))"

text \<open>The Bloom filter test: a division by zero and a shift by 32 or more are undefined.\<close>

definition gnu_bloom_mask :: "u32 \<Rightarrow> u32 \<Rightarrow> u64" where
  "gnu_bloom_mask hash shift =
     push_bit (unat (hash mod 64)) 1 OR push_bit (unat (drop_bit (unat shift) hash mod 64)) 1"

definition xh_elf_gnu_hash_lookup_def :: "memory \<Rightarrow> xh_elf_t \<Rightarrow> string \<Rightarrow> lookup_result option" where
  "xh_elf_gnu_hash_lookup_def m self symbol =
     (let hash = xh_elf_gnu_hash symbol in
      if bloom_sz self = 0 then Some Undef
      else case load64 m (bloom self + ucast ((hash div 64) mod bloom_sz self) * 8) of
        Segv \<Rightarrow> Some Segv
      | Undef \<Rightarrow> Some Undef
      | Ret word \<Rightarrow>
          if bloom_shift self \<ge> 32 then Some Undef
          else let mask = gnu_bloom_mask hash (bloom_shift self) in
          if word AND mask \<noteq> mask then Some (Ret (Inl XH_ERRNO_NOTFND))
          else if bucket_cnt self = 0 then Some Undef
          else case index32 m (bucket self) (hash mod bucket_cnt self) of
            Segv \<Rightarrow> Some Segv
          | Undef \<Rightarrow> Some Undef
          | Ret i \<Rightarrow>
              if i < symoffset self then Some (Ret (Inl XH_ERRNO_NOTFND))
              else gnu_chain_loop m self symbol hash i)"

fun undef_loop :: "memory \<Rightarrow> xh_elf_t \<Rightarrow> string \<Rightarrow> nat \<Rightarrow> u32 \<Rightarrow> lookup_result" where
  "undef_loop m self symbol 0 i = Ret (Inl XH_ERRNO_NOTFND)"
| "undef_loop m self symbol (Suc n) i =
     run_bind (run_bind (symname m self i) (strcmp_eq m symbol)) (\<lambda>eq.
       if eq then Ret (Inr i) else undef_loop m self symbol n (i + 1))"

definition xh_elf_gnu_hash_lookup_undef :: "memory \<Rightarrow> xh_elf_t \<Rightarrow> string \<Rightarrow> lookup_result" where
  "xh_elf_gnu_hash_lookup_undef m self symbol = undef_loop m self symbol (unat (symoffset self)) 0"

definition xh_elf_gnu_hash_lookup :: "memory \<Rightarrow> xh_elf_t \<Rightarrow> string \<Rightarrow> lookup_result option" where
  "xh_elf_gnu_hash_lookup m self symbol =
     (case xh_elf_gnu_hash_lookup_def m self symbol of
        None \<Rightarrow> None
      | Some (Ret (Inl e)) \<Rightarrow> Some (xh_elf_gnu_hash_lookup_undef m self symbol)
      | Some r \<Rightarrow> Some r)"

definition xh_elf_find_symidx_by_name :: "memory \<Rightarrow> xh_elf_t \<Rightarrow> string \<Rightarrow> lookup_result option" where
  "xh_elf_find_symidx_by_name m self symbol =
     (if is_use_gnu_hash self then xh_elf_gnu_hash_lookup m self symbol
      else xh_elf_hash_lookup m self symbol)"

section \<open>Initialisation\<close>

definition xh_elf_check :: "xh_elf_t \<Rightarrow> int" where
  "xh_elf_check self =
     (if base_addr self = 0 then 1
      else if bias_addr self = 0 then 1
      else if ehdr self = 0 then 1
      else if phdr self = 0 then 1
      else if strtab self = 0 then 1
      else if symtab self = 0 then 1
      else if bucket self = 0 then 1
      else if chain self = 0 then 1
      else if is_use_gnu_hash self \<and> bloom self = 0 then 1
      else 0)"

definition PT_LOAD :: u32 where "PT_LOAD = 1"
definition PT_DYNAMIC :: u32 where "PT_DYNAMIC = 2"

text \<open>The tags of the dynamic section; the default case of the switch is \<open>DT_OTHER\<close>.\<close>

datatype dyn_tag = DT_NULL | DT_STRTAB | DT_SYMTAB | DT_PLTREL | DT_JMPREL | DT_PLTRELSZ
  | DT_REL | DT_RELSZ | DT_ANDROID_REL | DT_ANDROID_RELSZ | DT_HASH | DT_GNU_HASH | DT_OTHER

definition DT_RELA_num :: u64 where "DT_RELA_num = 7"

definition dyn_tag_of :: "u64 \<Rightarrow> dyn_tag" where
  "dyn_tag_of t =
     (if t = 0 then DT_NULL
      else if t = 5 then DT_STRTAB
      else if t = 6 then DT_SYMTAB
      else if t = 20 then DT_PLTREL
      else if t = 23 then DT_JMPREL
      else if t = 2 then DT_PLTRELSZ
      else if t = 17 \<or> t = DT_RELA_num then DT_REL
      else if t = 18 \<or> t = 8 then DT_RELSZ
      else if t = 0x6000000f \<or> t = 0x60000011 then DT_ANDROID_REL
      else if t = 0x60000010 \<or> t = 0x60000012 then DT_ANDROID_RELSZ
      else if t = 4 then DT_HASH
      else if t = 0x6ffffef5 then DT_GNU_HASH
      else DT_OTHER)"

text \<open>What one entry of the dynamic section does to the loop.\<close>

datatype dyn_step = Dyn_next xh_elf_t | Dyn_end xh_elf_t | Dyn_return int xh_elf_t

text \<open>A pointer below the base address is a format error; it has been stored all the same.\<close>

definition dyn_pointer :: "addr \<Rightarrow> xh_elf_t \<Rightarrow> dyn_step" where
  "dyn_pointer p self =
     (if p < base_addr self then Dyn_return XH_ERRNO_FORMAT self else Dyn_next self)"

definition dyn_hash :: "memory \<Rightarrow> xh_elf_t \<Rightarrow> u64 \<Rightarrow> dyn_step run" where
  "dyn_hash m self v =
     (let raw = bias_addr self + v in
      if raw < base_addr self then Ret (Dyn_return XH_ERRNO_FORMAT self)
      else run_bind (index32 m raw 0) (\<lambda>nb. run_bind (index32 m raw 1) (\<lambda>nc.
        let b = raw + 8 in
        Ret (Dyn_next (self\<lparr>bucket_cnt := nb, chain_cnt := nc, bucket := b,
                            chain := b + ucast nb * 4\<rparr>)))))"

definition dyn_gnu_hash :: "memory \<Rightarrow> xh_elf_t \<Rightarrow> u64 \<Rightarrow> dyn_step run" where
  "dyn_gnu_hash m self v =
     (let raw = bias_addr self + v in
      if raw < base_addr self then Ret (Dyn_return XH_ERRNO_FORMAT self)
      else run_bind (index32 m raw 0) (\<lambda>nb. run_bind (index32 m raw 1) (\<lambda>so.
        run_bind (index32 m raw 2) (\<lambda>bs. run_bind (index32 m raw 3) (\<lambda>sh.
        let bl = raw + 16; b = bl + ucast bs * 8 in
        Ret (Dyn_next (self\<lparr>bucket_cnt := nb, symoffset := so, bloom_sz := bs, bloom_shift := sh,
                            bloom := bl, bucket := b, chain := b + ucast nb * 4,
                            is_use_gnu_hash := True\<rparr>)))))))"

definition dyn_value :: "memory \<Rightarrow> xh_elf_t \<Rightarrow> dyn_tag \<Rightarrow> u64 \<Rightarrow> dyn_step run" where
  "dyn_value m self tag v =
     (let p = bias_addr self + v in
      case tag of
        DT_STRTAB \<Rightarrow> Ret (dyn_pointer p (self\<lparr>strtab := p\<rparr>))
      | DT_SYMTAB \<Rightarrow> Ret (dyn_pointer p (self\<lparr>symtab := p\<rparr>))
      | DT_PLTREL \<Rightarrow> Ret (Dyn_next (self\<lparr>is_use_rela := (v = DT_RELA_num)\<rparr>))
      | DT_JMPREL \<Rightarrow> Ret (dyn_pointer p (self\<lparr>relplt := p\<rparr>))
      | DT_PLTRELSZ \<Rightarrow> Ret (Dyn_next (self\<lparr>relplt_sz := ucast v\<rparr>))
      | DT_REL \<Rightarrow> Ret (dyn_pointer p (self\<lparr>reldyn := p\<rparr>))
      | DT_RELSZ \<Rightarrow> Ret (Dyn_next (self\<lparr>reldyn_sz := ucast v\<rparr>))
      | DT_ANDROID_REL \<Rightarrow> Ret (dyn_pointer p (self\<lparr>relandroid := p\<rparr>))
      | DT_ANDROID_RELSZ \<Rightarrow> Ret (Dyn_next (self\<lparr>relandroid_sz := ucast v\<rparr>))
      | DT_HASH \<Rightarrow> dyn_hash m self v
      | DT_GNU_HASH \<Rightarrow> dyn_gnu_hash m self v
      | _ \<Rightarrow> Ret (Dyn_next self))"

text \<open>One turn of the loop; the value of an entry is read only by the cases that use it.\<close>

definition dyn_entry :: "memory \<Rightarrow> xh_elf_t \<Rightarrow> addr \<Rightarrow> dyn_tag \<Rightarrow> dyn_step run" where
  "dyn_entry m self d tag =
     (if tag = DT_NULL then Ret (Dyn_end self)
      else if tag = DT_OTHER \<or> tag = DT_HASH \<and> is_use_gnu_hash self then Ret (Dyn_next self)
      else run_bind (d_val m d) (dyn_value m self tag))"

text \<open>\<open>Inl (e, self)\<close> is a return from the loop.\<close>

fun dyn_loop :: "memory \<Rightarrow> nat \<Rightarrow> addr \<Rightarrow> xh_elf_t \<Rightarrow> (int \<times> xh_elf_t + xh_elf_t) run" where
  "dyn_loop m 0 d self = Ret (Inr self)"
| "dyn_loop m (Suc n) d self =
     run_bind (d_tag m d) (\<lambda>tag. run_bind (dyn_entry m self d (dyn_tag_of tag)) (\<lambda>s.
       case s of
         Dyn_next self' \<Rightarrow> dyn_loop m n (d + sizeof_Dyn) self'
       | Dyn_end self' \<Rightarrow> Ret (Inr self')
       | Dyn_return e self' \<Rightarrow> Ret (Inl (e, self'))))"

text \<open>The signature of the packed relocations, read up to the first difference.\<close>

fun bytes_equal :: "memory \<Rightarrow> addr \<Rightarrow> u8 list \<Rightarrow> bool run" where
  "bytes_equal m a [] = Ret True"
| "bytes_equal m a (b # bs) =
     run_bind (load8 m a) (\<lambda>c. if c \<noteq> b then Ret False else bytes_equal m (a + 1) bs)"

definition check_android_rel :: "memory \<Rightarrow> xh_elf_t \<Rightarrow> (xh_elf_t option) run" where
  "check_android_rel m self =
     (if relandroid self = 0 then Ret (Some self)
      else if relandroid_sz self < 4 then Ret None
      else run_bind (bytes_equal m (relandroid self) [65, 80, 83, 50]) (\<lambda>ok.
        if \<not> ok then Ret None
        else Ret (Some (self\<lparr>relandroid := relandroid self + 4,
                            relandroid_sz := relandroid_sz self - 4\<rparr>))))"

definition xh_elf_zero :: xh_elf_t where
  "xh_elf_zero = \<lparr>pathname = None, base_addr = 0, bias_addr = 0, ehdr = 0, phdr = 0, dyn = 0,
     dyn_sz = 0, strtab = 0, symtab = 0, relplt = 0, relplt_sz = 0, reldyn = 0, reldyn_sz = 0,
     relandroid = 0, relandroid_sz = 0, bucket = 0, bucket_cnt = 0, chain = 0, chain_cnt = 0,
     symoffset = 0, bloom = 0, bloom_sz = 0, bloom_shift = 0, is_use_rela = False,
     is_use_gnu_hash = False\<rparr>"

text \<open>The part of \<^verbatim>\<open>xh_elf_init\<close> after the dynamic section is found.\<close>

definition init_dynamic :: "memory \<Rightarrow> xh_elf_t \<Rightarrow> (int \<times> xh_elf_t) run" where
  "init_dynamic m self =
     run_bind (dyn_loop m (unat (dyn_sz self div 16)) (dyn self) self) (\<lambda>r.
       case r of
         Inl (e, self) \<Rightarrow> Ret (e, self)
       | Inr self \<Rightarrow>
           run_bind (check_android_rel m self) (\<lambda>c.
             case c of
               None \<Rightarrow> Ret (XH_ERRNO_FORMAT, self)
             | Some self \<Rightarrow>
                 if xh_elf_check self \<noteq> 0 then Ret (XH_ERRNO_FORMAT, self) else Ret (0, self)))"

definition xh_elf_init ::
    "memory \<Rightarrow> xh_elf_t \<Rightarrow> addr \<Rightarrow> string option \<Rightarrow> (int \<times> xh_elf_t) run" where
  "xh_elf_init m self0 base path =
     (if base = 0 \<or> path = None then Ret (XH_ERRNO_INVAL, self0)
      else run_bind (e_phoff m base) (\<lambda>phoff.
        let self = xh_elf_zero\<lparr>pathname := path, base_addr := base, ehdr := base,
                               phdr := base + phoff\<rparr>
        in run_bind (xh_elf_get_first_segment_by_type_offset m self PT_LOAD 0) (\<lambda>phdr0.
          case phdr0 of
            None \<Rightarrow> Ret (XH_ERRNO_FORMAT, self)
          | Some ph0 \<Rightarrow> run_bind (p_vaddr m ph0) (\<lambda>vaddr0.
              if base < vaddr0 then Ret (XH_ERRNO_FORMAT, self)
              else let self = self\<lparr>bias_addr := base - vaddr0\<rparr> in
              run_bind (xh_elf_get_first_segment_by_type m self PT_DYNAMIC) (\<lambda>dhdr.
                case dhdr of
                  None \<Rightarrow> Ret (XH_ERRNO_FORMAT, self)
                | Some dh \<Rightarrow> run_bind (p_vaddr m dh) (\<lambda>dva. run_bind (p_memsz m dh) (\<lambda>msz.
                    init_dynamic m (self\<lparr>dyn := bias_addr self + dva, dyn_sz := ucast msz\<rparr>))))))))"

section \<open>Replacing a function\<close>

text \<open>
  \<open>old_func\<close> is the address of the caller's variable (0 for NULL). The slot is read first,
  its page made writable when it is not exactly readable and writable, the old value saved,
  the new one stored and the protection put back; a failure to put it back is only logged.
\<close>

definition need_prot :: u32 where "need_prot = PROT_READ OR PROT_WRITE"

definition xh_elf_replace_function ::
    "os \<Rightarrow> string \<Rightarrow> memory \<Rightarrow> xh_elf_t \<Rightarrow> addr \<Rightarrow> u64 \<Rightarrow> addr \<Rightarrow> int mrun" where
  "xh_elf_replace_function os perm0 m self addr new_func old_func =
     mbind (mread m (load64 m addr)) (\<lambda>cur m.
     if cur = new_func then mret 0 m
     else let (r, old_prot) = xh_util_get_addr_protect os perm0 m addr (pathname self) in
     if r \<noteq> 0 then mret r m
     else let (r, m) = (if old_prot \<noteq> need_prot
                        then xh_util_set_addr_protect os m addr need_prot else (0, m)) in
     if r \<noteq> 0 then mret r m
     else mbind (mread m (load64 m addr)) (\<lambda>old_addr m.
       mbind (if old_func \<noteq> 0 then mwrite m (store64 m old_func old_addr) else mret () m) (\<lambda>_ m.
         mbind (mwrite m (store64 m addr new_func)) (\<lambda>_ m.
           mret 0 (if old_prot \<noteq> need_prot
                   then snd (xh_util_set_addr_protect os m addr old_prot) else m)))))"

section \<open>One relocation\<close>

text \<open>A relocation is a table entry in memory, or the entry a packed iterator holds.\<close>

datatype rel_common = In_table addr | In_iterator packed_entry

definition rel_r_info :: "memory \<Rightarrow> rel_common \<Rightarrow> u64 run" where
  "rel_r_info m rc = (case rc of In_table a \<Rightarrow> load64 m (a + 8) | In_iterator e \<Rightarrow> Ret (pe_r_info e))"

definition rel_r_offset :: "memory \<Rightarrow> rel_common \<Rightarrow> u64 run" where
  "rel_r_offset m rc = (case rc of In_table a \<Rightarrow> load64 m a | In_iterator e \<Rightarrow> Ret (pe_r_offset e))"

definition XH_ELF_R_SYM :: "u64 \<Rightarrow> u64" where "XH_ELF_R_SYM info = drop_bit 32 info"
definition XH_ELF_R_TYPE :: "u64 \<Rightarrow> u64" where "XH_ELF_R_TYPE info = info AND 0xffffffff"
definition XH_ELF_R_GENERIC_JUMP_SLOT :: u64 where "XH_ELF_R_GENERIC_JUMP_SLOT = 1026"
definition XH_ELF_R_GENERIC_GLOB_DAT :: u64 where "XH_ELF_R_GENERIC_GLOB_DAT = 1025"
definition XH_ELF_R_GENERIC_ABS :: u64 where "XH_ELF_R_GENERIC_ABS = 257"

text \<open>Whether the relocation is one the hook replaces.\<close>

definition rel_matches :: "bool \<Rightarrow> u32 \<Rightarrow> u64 \<Rightarrow> bool" where
  "rel_matches is_plt symidx r_info \<longleftrightarrow>
     XH_ELF_R_SYM r_info = ucast symidx \<and>
     (if is_plt then XH_ELF_R_TYPE r_info = XH_ELF_R_GENERIC_JUMP_SLOT
      else XH_ELF_R_TYPE r_info = XH_ELF_R_GENERIC_GLOB_DAT \<or>
           XH_ELF_R_TYPE r_info = XH_ELF_R_GENERIC_ABS)"

text \<open>The result and \<^verbatim>\<open>*found\<close>.\<close>

definition xh_elf_find_and_replace_func ::
    "os \<Rightarrow> string \<Rightarrow> xh_elf_t \<Rightarrow> bool \<Rightarrow> u64 \<Rightarrow> addr \<Rightarrow> u32 \<Rightarrow> memory \<Rightarrow> rel_common
     \<Rightarrow> (int \<times> bool) mrun" where
  "xh_elf_find_and_replace_func os perm0 self is_plt new_func old_func symidx m rc =
     mbind (mread m (rel_r_info m rc)) (\<lambda>r_info m.
     mbind (mread m (rel_r_offset m rc)) (\<lambda>r_offset m.
     if \<not> rel_matches is_plt symidx r_info then mret (0, False) m
     else let addr = bias_addr self + r_offset in
     if addr < base_addr self then mret (XH_ERRNO_FORMAT, True) m
     else mbind (xh_elf_replace_function os perm0 m self addr new_func old_func) (\<lambda>r m.
       mret (r, True) m)))"

section \<open>Hooking a symbol\<close>

text \<open>
  The loop over \<^verbatim>\<open>.rel(a).plt\<close> leaves at the first match (\<^verbatim>\<open>found\<close>), the other two pass NULL for
  \<^verbatim>\<open>found\<close> and visit every entry.
\<close>

definition ignore_found :: "(int \<times> bool) mrun \<Rightarrow> (int \<times> bool) mrun" where
  "ignore_found r = mbind r (\<lambda>(e, _) m. mret (e, False) m)"

definition hook_plain_table ::
    "(memory \<Rightarrow> rel_common \<Rightarrow> (int \<times> bool) mrun) \<Rightarrow> xh_elf_t \<Rightarrow> addr \<Rightarrow> u32 \<Rightarrow> memory
     \<Rightarrow> int option mrun option" where
  "hook_plain_table body self rel rel_sz m =
     (if rel = 0 then Some (Ret None, m)
      else reloc_loop plain_next (\<lambda>m a. body m (In_table a)) m
             (xh_elf_plain_reloc_iterator_init rel rel_sz (is_use_rela self)))"

definition hook_packed_table ::
    "(memory \<Rightarrow> rel_common \<Rightarrow> (int \<times> bool) mrun) \<Rightarrow> xh_elf_t \<Rightarrow> memory \<Rightarrow> int option mrun option" where
  "hook_packed_table body self m =
     (if relandroid self = 0 then Some (Ret None, m)
      else case xh_elf_packed_reloc_iterator_init m (relandroid self) (relandroid_sz self)
                  (is_use_rela self) of
        Segv \<Rightarrow> Some (Segv, m)
      | Undef \<Rightarrow> Some (Undef, m)
      | Ret (_, it) \<Rightarrow>
          reloc_loop xh_elf_packed_reloc_iterator_next (\<lambda>m e. body m (In_iterator e)) m it)"

text \<open>Continue after a loop unless it returned, faulted or never ends.\<close>

definition after_loop ::
    "int option mrun option \<Rightarrow> (memory \<Rightarrow> int mrun option) \<Rightarrow> int mrun option" where
  "after_loop r k =
     (case r of
        None \<Rightarrow> None
      | Some (Ret None, m) \<Rightarrow> k m
      | Some (Ret (Some e), m) \<Rightarrow> Some (Ret e, m)
      | Some (Segv, m) \<Rightarrow> Some (Segv, m)
      | Some (Undef, m) \<Rightarrow> Some (Undef, m))"

definition xh_elf_hook ::
    "os \<Rightarrow> string \<Rightarrow> memory \<Rightarrow> xh_elf_t \<Rightarrow> string option \<Rightarrow> u64 \<Rightarrow> addr \<Rightarrow> int mrun option" where
  "xh_elf_hook os perm0 m self symbol new_func old_func =
     (if pathname self = None then Some (Ret XH_ERRNO_ELFINIT, m)
      else case symbol of
        None \<Rightarrow> Some (Ret XH_ERRNO_INVAL, m)
      | Some name \<Rightarrow>
          if new_func = 0 then Some (Ret XH_ERRNO_INVAL, m)
          else case xh_elf_find_symidx_by_name m self name of
            None \<Rightarrow> None
          | Some Segv \<Rightarrow> Some (Segv, m)
          | Some Undef \<Rightarrow> Some (Undef, m)
          | Some (Ret (Inl e)) \<Rightarrow> Some (Ret 0, m)
          | Some (Ret (Inr symidx)) \<Rightarrow>
              (let fr = (\<lambda>is_plt. xh_elf_find_and_replace_func os perm0 self is_plt new_func old_func symidx)
               in after_loop (hook_plain_table (fr True) self (relplt self) (relplt_sz self) m)
                 (\<lambda>m. after_loop (hook_plain_table (\<lambda>m rc. ignore_found (fr False m rc)) self
                                    (reldyn self) (reldyn_sz self) m)
                 (\<lambda>m. after_loop (hook_packed_table (\<lambda>m rc. ignore_found (fr False m rc)) self m)
                 (\<lambda>m. Some (Ret 0, m))))))"

end
