(* ===== verification/Xh_Symbols.thy ===== *)
theory Xh_Symbols
  imports Xh_Elf
begin

unbundle bit_operations_syntax

text \<open>
  The symbol lookups of \<^verbatim>\<open>xh_elf.c\<close>. The lookup in an ELF hash table is the search of a list; the
  lookup in a GNU hash table finds every symbol that a table built according to the format
  defines; and both, whatever the table, meet the contract \<open>symbol_lookup\<close>: an index they
  return belongs to a symbol with the name asked for.
\<close>

section \<open>Names\<close>

definition named :: "memory \<Rightarrow> xh_elf_t \<Rightarrow> u32 \<Rightarrow> string \<Rightarrow> bool" where
  "named m self i s \<longleftrightarrow> (\<exists>a. symname m self i = Ret a \<and> mem_at m a (c_bytes s) \<and> CHR 0x00 \<notin> set s)"

lemma strcmp_eq_decides:
  assumes "mem_at m a (c_bytes s)" "CHR 0x00 \<notin> set s" "CHR 0x00 \<notin> set t"
  shows "strcmp_eq m t a = Ret (s = t)"
  using assms
proof (induction t arbitrary: a s)
  case Nil
  have "(of_char c :: u8) = 0 \<longleftrightarrow> c = CHR 0x00" for c
    using of_char_u8_inj [of c "CHR 0x00"] by simp
  with Nil show ?case by (cases s) (auto simp: c_bytes_def)
next
  case (Cons d t)
  have z: "(0 :: u8) = of_char c \<longleftrightarrow> c = CHR 0x00" for c
    using of_char_u8_inj [of "CHR 0x00" c] by auto
  show ?case
  proof (cases s)
    case Nil
    with Cons.prems z [of d] show ?thesis by (auto simp: c_bytes_def)
  next
    case (Cons e u)
    with Cons.prems Cons.IH [of "a + 1" u] show ?thesis by (auto simp: c_bytes_def)
  qed
qed

lemma strcmp_named:
  assumes "named m self i s" "CHR 0x00 \<notin> set t"
  shows "run_bind (symname m self i) (strcmp_eq m t) = Ret (s = t)"
  using assms by (auto simp: named_def strcmp_eq_decides)

lemma strcmp_True_named:
  assumes "run_bind (symname m self i) (strcmp_eq m t) = Ret True" "CHR 0x00 \<notin> set t"
  shows "named m self i t"
  using assms by (auto simp: named_def run_simps strcmp_eq_True)

lemma named_unique:
  assumes "named m self i s" "named m self i t"
  shows "s = t"
proof -
  from assms obtain a where a: "mem_at m a (c_bytes s)" "mem_at m a (c_bytes t)"
      "CHR 0x00 \<notin> set s" "CHR 0x00 \<notin> set t"
    by (auto simp: named_def)
  from strcmp_eq_decides [OF a(1,3,4)] a(2) show ?thesis by (simp flip: strcmp_eq_True)
qed

fun chain_list :: "memory \<Rightarrow> xh_elf_t \<Rightarrow> u32 \<Rightarrow> u32 list \<Rightarrow> bool" where
  "chain_list m self i [] = (i = 0)"
| "chain_list m self i (x # xs) =
     (i = x \<and> x \<noteq> 0 \<and> (case index32 m (chain self) x of Ret j \<Rightarrow> chain_list m self j xs | _ \<Rightarrow> False))"

definition lookup_in :: "(u32 \<Rightarrow> string) \<Rightarrow> string \<Rightarrow> u32 list \<Rightarrow> int + u32" where
  "lookup_in names symbol xs =
     (case find (\<lambda>i. names i = symbol) xs of Some i \<Rightarrow> Inr i | None \<Rightarrow> Inl XH_ERRNO_NOTFND)"

lemma hash_chain_loop_list:
  assumes "chain_list m self i xs" "\<forall>x\<in>set xs. named m self x (names x)" "CHR 0x00 \<notin> set symbol"
  shows "hash_chain_loop m self symbol i = Some (Ret (lookup_in names symbol xs))"
  using assms(1,2)
proof (induction xs arbitrary: i)
  case Nil
  then show ?case by (subst hash_chain_loop.simps) (simp add: lookup_in_def)
next
  case (Cons x xs)
  then obtain j where j: "i = x" "x \<noteq> 0" "index32 m (chain self) x = Ret j" "chain_list m self j xs"
    by (auto split: run.splits)
  have "run_bind (symname m self x) (strcmp_eq m symbol) = Ret (names x = symbol)"
    using Cons.prems(2) assms(3) by (intro strcmp_named) auto
  with j Cons.IH [OF j(4)] Cons.prems(2) show ?case
    by (subst hash_chain_loop.simps) (auto simp: lookup_in_def)
qed

lemma hash_chain_loop_sound:
  "hash_chain_loop m self symbol i = Some r \<Longrightarrow> CHR 0x00 \<notin> set symbol \<Longrightarrow>
   case r of Ret (Inr j) \<Rightarrow> named m self j symbol | Ret (Inl e) \<Rightarrow> e = XH_ERRNO_NOTFND | _ \<Rightarrow> True"
proof (induction rule: hash_chain_loop.raw_induct [rotated, consumes 1, case_names Step])
  case (Step loop m self symbol i r)
  show ?case
  proof (cases "\<exists>j. loop m self symbol j = Some r")
    case True
    with Step.IH Step.prems show ?thesis by blast
  next
    case False
    with Step.hyps Step.prems show ?thesis
      by (auto split: if_splits run.splits intro: strcmp_True_named)
  qed
qed

lemma gnu_chain_loop_sound:
  "gnu_chain_loop m self symbol hash i = Some r \<Longrightarrow> CHR 0x00 \<notin> set symbol \<Longrightarrow>
   case r of Ret (Inr j) \<Rightarrow> named m self j symbol | Ret (Inl e) \<Rightarrow> e = XH_ERRNO_NOTFND | _ \<Rightarrow> True"
proof (induction rule: gnu_chain_loop.raw_induct [rotated, consumes 1, case_names Step])
  case (Step loop m self symbol hash i r)
  show ?case
  proof (cases "run_bind (symname m self i) (\<lambda>nm.
             run_bind (index32 m (chain self) (i - symoffset self)) (\<lambda>symhash.
               run_bind (if hash OR 1 = symhash OR 1 then strcmp_eq m symbol nm else Ret False)
                 (\<lambda>eq. Ret (symhash, eq))))")
    case (Ret x)
    obtain h eq where x: "x = (h, eq)" by (cases x)
    from Ret x have nm: "eq \<Longrightarrow> named m self i symbol"
      using Step.prems by (auto simp: run_simps split: if_splits intro!: strcmp_True_named)
    show ?thesis
    proof (cases "eq \<or> h AND 1 \<noteq> 0")
      case True
      with Step.hyps Ret x nm show ?thesis by (auto split: if_splits)
    next
      case False
      with Step.hyps Ret x have "loop m self symbol hash (i + 1) = Some r" by auto
      from Step.IH [OF this Step.prems] show ?thesis .
    qed
  qed (use Step.hyps in auto)
qed

lemma undef_loop_sound:
  "CHR 0x00 \<notin> set symbol \<Longrightarrow>
   case undef_loop m self symbol n i of Ret (Inr j) \<Rightarrow> named m self j symbol
     | Ret (Inl e) \<Rightarrow> e = XH_ERRNO_NOTFND | _ \<Rightarrow> True"
proof (induction n arbitrary: i)
  case (Suc n)
  show ?case
  proof (cases "run_bind (symname m self i) (strcmp_eq m symbol)")
    case (Ret eq)
    with Suc strcmp_True_named [of m self i symbol] show ?thesis by (cases eq) auto
  qed auto
qed simp

section \<open>The contract of a lookup\<close>

locale symbol_lookup =
  fixes lookup :: "memory \<Rightarrow> xh_elf_t \<Rightarrow> string \<Rightarrow> lookup_result option"
  assumes sound: "CHR 0x00 \<notin> set symbol \<Longrightarrow> lookup m self symbol = Some (Ret (Inr i)) \<Longrightarrow> named m self i symbol"
    and error: "CHR 0x00 \<notin> set symbol \<Longrightarrow> lookup m self symbol = Some (Ret (Inl e)) \<Longrightarrow> e = XH_ERRNO_NOTFND"
begin

lemma lookup_the_symbol:
  assumes "CHR 0x00 \<notin> set symbol" "lookup m self symbol = Some (Ret (Inr i))"
    and "named m self k symbol" "\<And>j. named m self j symbol \<Longrightarrow> j = k"
  shows "i = k"
  using assms sound by blast

end

interpretation elf_hash: symbol_lookup xh_elf_hash_lookup
proof
  fix symbol m self
  assume s: "CHR 0x00 \<notin> set (symbol :: string)"
  note snd = hash_chain_loop_sound [OF _ s]
  show "named m self i symbol" if "xh_elf_hash_lookup m self symbol = Some (Ret (Inr i))" for i
    using that by (auto simp: xh_elf_hash_lookup_def Let_def split: if_splits run.splits dest: snd)
  show "e = XH_ERRNO_NOTFND" if "xh_elf_hash_lookup m self symbol = Some (Ret (Inl e))" for e
    using that by (auto simp: xh_elf_hash_lookup_def Let_def split: if_splits run.splits dest: snd)
qed

lemma gnu_lookup_def_sound:
  assumes s: "CHR 0x00 \<notin> set symbol" and r: "xh_elf_gnu_hash_lookup_def m self symbol = Some r"
  shows "case r of Ret (Inr j) \<Rightarrow> named m self j symbol | Ret (Inl e) \<Rightarrow> e = XH_ERRNO_NOTFND | _ \<Rightarrow> True"
  using r by (auto simp: xh_elf_gnu_hash_lookup_def_def Let_def split: if_splits run.split_asm
      dest: gnu_chain_loop_sound [OF _ s])

interpretation gnu_hash: symbol_lookup xh_elf_gnu_hash_lookup
proof
  fix symbol m self
  assume s: "CHR 0x00 \<notin> set (symbol :: string)"
  show "named m self i symbol" if "xh_elf_gnu_hash_lookup m self symbol = Some (Ret (Inr i))" for i
    using that undef_loop_sound [OF s, of m self "unat (symoffset self)" 0]
    by (auto simp: xh_elf_gnu_hash_lookup_def xh_elf_gnu_hash_lookup_undef_def
        split: option.splits run.splits sum.splits dest: gnu_lookup_def_sound [OF s])
  show "e = XH_ERRNO_NOTFND" if "xh_elf_gnu_hash_lookup m self symbol = Some (Ret (Inl e))" for e
    using that undef_loop_sound [OF s, of m self "unat (symoffset self)" 0]
    by (auto simp: xh_elf_gnu_hash_lookup_def xh_elf_gnu_hash_lookup_undef_def
        split: option.splits run.splits sum.splits dest: gnu_lookup_def_sound [OF s])
qed

interpretation find_symidx: symbol_lookup xh_elf_find_symidx_by_name
  by unfold_locales
    (auto simp: xh_elf_find_symidx_by_name_def split: if_splits
      dest: elf_hash.sound elf_hash.error gnu_hash.sound gnu_hash.error)

section \<open>GNU hash tables\<close>

text \<open>
  What a linker writes for the symbols from \<open>symoffset\<close> on: each has its name, its hash (up to
  the lowest bit) in the chain, its bits in the Bloom filter, and its bucket leads to it over
  entries that do not end the chain.
\<close>

definition gnu_table :: "memory \<Rightarrow> xh_elf_t \<Rightarrow> u32 \<Rightarrow> (u32 \<Rightarrow> string) \<Rightarrow> bool" where
  "gnu_table m self n names \<longleftrightarrow>
     bloom_sz self \<noteq> 0 \<and> bloom_shift self < 32 \<and> bucket_cnt self \<noteq> 0 \<and>
     (\<forall>k. symoffset self \<le> k \<and> k < n \<longrightarrow>
        named m self k (names k) \<and>
        (\<exists>h. index32 m (chain self) (k - symoffset self) = Ret h \<and>
             h OR 1 = xh_elf_gnu_hash (names k) OR 1) \<and>
        (\<exists>w. load64 m (bloom self + ucast ((xh_elf_gnu_hash (names k) div 64) mod bloom_sz self) * 8) = Ret w \<and>
             w AND gnu_bloom_mask (xh_elf_gnu_hash (names k)) (bloom_shift self) =
               gnu_bloom_mask (xh_elf_gnu_hash (names k)) (bloom_shift self)) \<and>
        (\<exists>i. index32 m (bucket self) (xh_elf_gnu_hash (names k) mod bucket_cnt self) = Ret i \<and>
             symoffset self \<le> i \<and> i \<le> k \<and>
             (\<forall>j. i \<le> j \<and> j < k \<longrightarrow>
                (\<exists>h. index32 m (chain self) (j - symoffset self) = Ret h \<and> h AND 1 = 0))))"

lemma gnu_chain_loop_finds:
  assumes tab: "gnu_table m self n names" and k: "k < n" "names k = symbol"
    and s: "CHR 0x00 \<notin> set symbol"
    and open_chain: "\<forall>j. i \<le> j \<and> j < k \<longrightarrow>
                (\<exists>h. index32 m (chain self) (j - symoffset self) = Ret h \<and> h AND 1 = 0)"
    and i: "symoffset self \<le> i" "i \<le> k"
  shows "\<exists>j. gnu_chain_loop m self symbol (xh_elf_gnu_hash symbol) i = Some (Ret (Inr j)) \<and>
     i \<le> j \<and> j \<le> k \<and> names j = symbol"
  using open_chain i
proof (induction "unat k - unat i" arbitrary: i)
  case 0
  then have "i = k" by (simp add: word_le_nat_alt word_unat_eq_iff)
  moreover obtain h where "index32 m (chain self) (k - symoffset self) = Ret h"
      "h OR 1 = xh_elf_gnu_hash symbol OR 1"
    using tab k 0(4,3) \<open>i = k\<close> unfolding gnu_table_def by blast
  moreover obtain a where "symname m self k = Ret a" "strcmp_eq m symbol a = Ret True"
  proof -
    have "named m self k symbol" using tab k 0(3,4) \<open>i = k\<close> unfolding gnu_table_def by blast
    with that show thesis by (auto simp: named_def strcmp_eq_True)
  qed
  ultimately show ?case using k by (subst gnu_chain_loop.simps) simp
next
  case (Suc d)
  have lt: "i < k" using Suc(2) by (simp add: word_less_nat_alt)
  then have i1: "i + 1 \<le> k" "i \<le> i + 1" "symoffset self \<le> i + 1" "d = unat k - unat (i + 1)"
    using Suc(2,4) by unat_arith+
  have "i < n" using lt k(1) by simp
  then have nm: "named m self i (names i)" using tab Suc.prems(2) unfolding gnu_table_def by blast
  then obtain a where a: "symname m self i = Ret a" "strcmp_eq m symbol a = Ret (names i = symbol)"
    using s by (auto simp: named_def strcmp_eq_decides)
  obtain h where h: "index32 m (chain self) (i - symoffset self) = Ret h" "h AND 1 = 0"
    using Suc.prems(1) lt by blast
  have "names i = symbol \<Longrightarrow> h OR 1 = xh_elf_gnu_hash symbol OR 1"
    using tab \<open>i < n\<close> Suc.prems(2) h(1) unfolding gnu_table_def by fastforce
  moreover have "\<exists>j. gnu_chain_loop m self symbol (xh_elf_gnu_hash symbol) (i + 1) = Some (Ret (Inr j)) \<and>
     i + 1 \<le> j \<and> j \<le> k \<and> names j = symbol"
    using Suc.hyps(1) [OF i1(4)] Suc.prems(1) i1 by (meson order.trans)
  then have "\<exists>j. gnu_chain_loop m self symbol (xh_elf_gnu_hash symbol) (i + 1) = Some (Ret (Inr j)) \<and>
     i \<le> j \<and> j \<le> k \<and> names j = symbol"
    using order.trans [OF i1(2)] by blast
  ultimately show ?case
    using a h lt by (subst gnu_chain_loop.simps) auto
qed

section \<open>Concrete images\<close>

text \<open>A small image for the witnesses: one symbol, one bucket, one jump slot.\<close>

definition image_bytes :: "addr \<Rightarrow> u8" where
  "image_bytes =
     upd_le (upd_le (upd_le (upd_le (upd_le (upd_le (\<lambda>_. 0)
       4 0x10001 (0x006f6f66 :: u32))
       4 0x10118 (1 :: u32))
       4 0x10200 (1 :: u32))
       8 0x10300 (0x10000 :: u64))
       8 0x10308 (0x100000402 :: u64))
       8 0x20000 (0x5555 :: u64)"

definition image_memory :: memory where
  "image_memory = \<lparr>mbytes = image_bytes, mprot = (\<lambda>x. if x < 0x30000 then Some 1 else Some 3)\<rparr>"

definition image_elf :: xh_elf_t where
  "image_elf = xh_elf_zero\<lparr>pathname := Some ''libfoo'', base_addr := 0x10000, bias_addr := 0x10000,
     strtab := 0x10000, symtab := 0x10100, bucket := 0x10200, bucket_cnt := 1, chain := 0x10204,
     relplt := 0x10300, relplt_sz := 24, is_use_rela := True\<rparr>"

lemma image_bytes_eval:
  "image_bytes = (\<lambda>_. 0)(0x10001 := 0x66, 0x10002 := 0x6f, 0x10003 := 0x6f, 0x10118 := 1, 0x10200 := 1,
     0x10302 := 1, 0x10308 := 2, 0x10309 := 4, 0x1030c := 1, 0x20000 := 0x55, 0x20001 := 0x55)"
  unfolding image_bytes_def by (simp add: upd_le_numeral) (auto simp: fun_eq_iff)

lemma image_lookup:
  "xh_elf_find_symidx_by_name image_memory image_elf ''foo'' = Some (Ret (Inr 1))"
proof -
  have b: "index32 image_memory 0x10200 0 = Ret 1"
    by (simp add: index32_def load_eval image_memory_def image_bytes_eval)
  have n: "symname image_memory image_elf 1 = Ret 0x10001"
    by (simp add: symname_def st_name_def sizeof_Sym_def load_eval image_memory_def image_bytes_eval
        image_elf_def xh_elf_zero_def)
  have s: "strcmp_eq image_memory ''foo'' 0x10001 = Ret True"
    by (simp add: load8_def readable_def image_memory_def image_bytes_eval)
  have "hash_chain_loop image_memory image_elf ''foo'' 1 = Some (Ret (Inr 1))"
    by (subst hash_chain_loop.simps) (simp add: n s del: strcmp_eq.simps)
  with b show ?thesis
    by (simp add: xh_elf_find_symidx_by_name_def xh_elf_hash_lookup_def image_elf_def xh_elf_zero_def)
qed

definition gnu_bytes :: "addr \<Rightarrow> u8" where
  "gnu_bytes = image_bytes(0x10400 := 255, 0x10401 := 255, 0x10402 := 255, 0x10403 := 255,
     0x10404 := 255, 0x10405 := 255, 0x10406 := 255, 0x10407 := 255, 0x10500 := 1,
     0x10600 := 0x89, 0x10601 := 0x73, 0x10602 := 0x88, 0x10603 := 0x0b)"

definition gnu_memory :: memory where
  "gnu_memory = \<lparr>mbytes = gnu_bytes, mprot = (\<lambda>_. Some 1)\<rparr>"

definition gnu_elf :: xh_elf_t where
  "gnu_elf = image_elf\<lparr>is_use_gnu_hash := True, bloom := 0x10400, bloom_sz := 1, bloom_shift := 6,
     bucket := 0x10500, chain := 0x10600, symoffset := 1\<rparr>"

lemma gnu_hash_foo: "xh_elf_gnu_hash ''foo'' = 0xb887389"
  by (simp add: xh_elf_gnu_hash_def)

lemma gnu_load: "load8 gnu_memory a = Ret (gnu_bytes a)"
  by (simp add: load8_def readable_def gnu_memory_def)

section \<open>Properties\<close>

text \<open>
  C21: the lookup in an ELF hash table terminates on a chain that ends, and finds the first
  symbol of the chain with the name, or reports that there is none.
\<close>

theorem hash_lookup_correct:
  assumes "bucket_cnt self \<noteq> 0"
    and "index32 m (bucket self) (xh_elf_hash symbol mod bucket_cnt self) = Ret i"
    and "chain_list m self i xs" "\<forall>x\<in>set xs. named m self x (names x)" "CHR 0x00 \<notin> set symbol"
  shows "xh_elf_hash_lookup m self symbol = Some (Ret (lookup_in names symbol xs))"
  using hash_chain_loop_list [OF assms(3-5)] assms(1,2) by (simp add: xh_elf_hash_lookup_def)

theorem hash_lookup_correct_witness:
  "xh_elf_hash_lookup image_memory image_elf ''foo'' = Some (Ret (Inr 1)) \<and>
   xh_elf_hash_lookup image_memory image_elf ''bar'' = Some (Ret (Inl XH_ERRNO_NOTFND))"
proof -
  have b: "index32 image_memory 0x10200 0 = Ret 1" "index32 image_memory 0x10204 1 = Ret 0"
    by (simp_all add: index32_def load_eval image_memory_def image_bytes_eval)
  have n: "symname image_memory image_elf 1 = Ret 0x10001"
    by (simp add: symname_def st_name_def sizeof_Sym_def load_eval image_memory_def image_bytes_eval
        image_elf_def xh_elf_zero_def)
  have e: "bucket image_elf = 0x10200" "bucket_cnt image_elf = 1" "chain image_elf = 0x10204"
    by (simp_all add: image_elf_def xh_elf_zero_def)
  have "named image_memory image_elf 1 ''foo''"
    using n by (simp add: named_def c_bytes_def load8_def readable_def image_memory_def image_bytes_eval)
  then have "\<forall>x\<in>set [1]. named image_memory image_elf x ((\<lambda>_. ''foo'') x)" by simp
  moreover have "chain_list image_memory image_elf 1 [1]" by (simp add: e b)
  ultimately have "xh_elf_hash_lookup image_memory image_elf s = Some (Ret (lookup_in (\<lambda>_. ''foo'') s [1]))"
    if "CHR 0x00 \<notin> set s" for s
    using that by (intro hash_lookup_correct) (auto simp: e b)
  from this [of "''foo''"] this [of "''bar''"] show ?thesis by (simp add: lookup_in_def)
qed


text \<open>
  C20: the lookup in a GNU hash table terminates and finds every defined symbol of a table
  built according to the format: the Bloom filter, the bucket and the chain lose none.
\<close>

theorem gnu_lookup_finds:
  assumes "gnu_table m self n names" "symoffset self \<le> k" "k < n" "names k = symbol" "CHR 0x00 \<notin> set symbol"
  shows "\<exists>j. xh_elf_gnu_hash_lookup m self symbol = Some (Ret (Inr j)) \<and>
     symoffset self \<le> j \<and> j \<le> k \<and> names j = symbol"
proof -
  let ?h = "xh_elf_gnu_hash symbol"
  from assms(1-4) obtain w i where f: "bloom_sz self \<noteq> 0" "bloom_shift self < 32" "bucket_cnt self \<noteq> 0"
      "load64 m (bloom self + ucast ((?h div 64) mod bloom_sz self) * 8) = Ret w"
      "w AND gnu_bloom_mask ?h (bloom_shift self) = gnu_bloom_mask ?h (bloom_shift self)"
      "index32 m (bucket self) (?h mod bucket_cnt self) = Ret i" "symoffset self \<le> i" "i \<le> k"
      and open_chain: "\<forall>j. i \<le> j \<and> j < k \<longrightarrow>
                (\<exists>h. index32 m (chain self) (j - symoffset self) = Ret h \<and> h AND 1 = 0)"
    unfolding gnu_table_def by blast
  obtain j where "gnu_chain_loop m self symbol ?h i = Some (Ret (Inr j))" "i \<le> j" "j \<le> k" "names j = symbol"
    using gnu_chain_loop_finds [OF assms(1,3,4,5) open_chain f(7,8)] by blast
  moreover then have "symoffset self \<le> j" using f(7) by simp
  moreover have "xh_elf_gnu_hash_lookup_def m self symbol = gnu_chain_loop m self symbol ?h i"
    using f by (simp add: xh_elf_gnu_hash_lookup_def_def)
  ultimately show ?thesis by (auto simp: xh_elf_gnu_hash_lookup_def)
qed

theorem gnu_lookup_finds_witness:
  "\<exists>j. xh_elf_gnu_hash_lookup gnu_memory gnu_elf ''foo'' = Some (Ret (Inr j)) \<and> 1 \<le> j \<and> j \<le> 1"
proof -
  note ev = load_le_numeral load32_def load64_def index32_def gnu_load gnu_bytes_def image_bytes_eval
  have e: "bloom gnu_elf = 0x10400" "bucket gnu_elf = 0x10500" "chain gnu_elf = 0x10600" "symoffset gnu_elf = 1"
    "bloom_sz gnu_elf = 1" "bloom_shift gnu_elf = 6" "bucket_cnt gnu_elf = 1" "strtab gnu_elf = 0x10000" "symtab gnu_elf = 0x10100"
    by (simp_all add: gnu_elf_def image_elf_def xh_elf_zero_def)
  have l: "load64 gnu_memory 0x10400 = Ret (- 1)" "index32 gnu_memory 0x10500 0 = Ret 1"
     "index32 gnu_memory 0x10600 0 = Ret (xh_elf_gnu_hash ''foo'')"
    by (simp_all add: ev gnu_hash_foo)
  have n: "symname gnu_memory gnu_elf 1 = Ret 0x10001"
    by (simp add: symname_def st_name_def sizeof_Sym_def ev e)
  have nm: "named gnu_memory gnu_elf 1 ''foo''"
    using n by (simp add: named_def c_bytes_def ev)
  have k: "(1 \<le> k \<and> k < 2) = (k = 1)" for k :: u32 by unat_arith
  have j: "\<not> (1 \<le> j \<and> j < 1)" for j :: u32 by unat_arith
  have "gnu_table gnu_memory gnu_elf 2 (\<lambda>_. ''foo'')"
    using nm l unfolding gnu_table_def e k by (simp add: j)
  from gnu_lookup_finds [OF this, of 1 "''foo''"] show ?thesis by (simp add: e)
qed

text \<open>
  C8: whatever the tables contain, an index the lookup returns belongs to a symbol whose name
  is the name asked for.
\<close>

theorem find_symidx_sound:
  assumes "CHR 0x00 \<notin> set symbol" "xh_elf_find_symidx_by_name m self symbol = Some (Ret (Inr i))"
  shows "named m self i symbol"
  using assms by (rule find_symidx.sound)

theorem find_symidx_sound_witness: "named image_memory image_elf 1 ''foo''"
  by (rule find_symidx_sound [OF _ image_lookup]) simp

end
