(* ===== verification/Xh_Init.thy ===== *)
theory Xh_Init
  imports Xh_Symbols
begin

unbundle bit_operations_syntax

text \<open>
  The header check and the initialisation of \<^verbatim>\<open>xh_elf.c\<close>: what a header that passes looks like,
  and the invariant an initialised \<open>xh_elf_t\<close> has.
\<close>

section \<open>The invariant\<close>

definition ptr_ok :: "addr \<Rightarrow> addr \<Rightarrow> bool" where
  "ptr_ok base p \<longleftrightarrow> p = 0 \<or> base \<le> p"

definition elf_inv :: "addr \<Rightarrow> addr \<Rightarrow> string option \<Rightarrow> xh_elf_t \<Rightarrow> bool" where
  "elf_inv base bias path self \<longleftrightarrow>
     pathname self = path \<and> base_addr self = base \<and> ehdr self = base \<and> bias_addr self = bias \<and>
     ptr_ok base (strtab self) \<and> ptr_ok base (symtab self) \<and> ptr_ok base (relplt self) \<and>
     ptr_ok base (reldyn self)"

definition step_inv :: "(xh_elf_t \<Rightarrow> bool) \<Rightarrow> dyn_step \<Rightarrow> bool" where
  "step_inv P s = (case s of Dyn_next x \<Rightarrow> P x | Dyn_end x \<Rightarrow> P x | Dyn_return e x \<Rightarrow> e = XH_ERRNO_FORMAT)"

lemma dyn_pointer_inv:
  "base_addr self = base \<Longrightarrow> (ptr_ok base p \<Longrightarrow> P self) \<Longrightarrow> step_inv P (dyn_pointer p self)"
  by (simp add: dyn_pointer_def step_inv_def ptr_ok_def not_less)

lemma dyn_hash_inv:
  assumes "elf_inv base bias path self" "dyn_hash m self v = Ret s \<or> dyn_gnu_hash m self v = Ret s"
  shows "step_inv (elf_inv base bias path) s"
  using assms
  by (auto simp: dyn_hash_def dyn_gnu_hash_def step_inv_def elf_inv_def Let_def run_simps split: if_splits)

lemma dyn_entry_inv:
  assumes "elf_inv base bias path self" "dyn_entry m self d tag = Ret s"
  shows "step_inv (elf_inv base bias path) s"
proof (cases "tag = DT_NULL \<or> tag = DT_OTHER \<or> tag = DT_HASH \<and> is_use_gnu_hash self")
  case True
  with assms show ?thesis by (auto simp: dyn_entry_def step_inv_def split: if_splits)
next
  case False
  with assms(2) obtain v where "dyn_value m self tag v = Ret s" by (auto simp: dyn_entry_def run_simps)
  moreover have "base_addr self = base" using assms(1) by (simp add: elf_inv_def)
  ultimately show ?thesis
    using assms(1) dyn_hash_inv [OF assms(1), of m v s]
    by (cases tag) (auto simp: dyn_value_def Let_def intro!: dyn_pointer_inv, auto simp: elf_inv_def step_inv_def)
qed

lemma dyn_loop_inv:
  assumes "elf_inv base bias path self" "dyn_loop m n d self = Ret r"
  shows "case r of Inr self' \<Rightarrow> elf_inv base bias path self' | Inl (e, self') \<Rightarrow> e = XH_ERRNO_FORMAT"
  using assms
proof (induction n arbitrary: d self)
  case (Suc n)
  then obtain tag s where s: "dyn_entry m self d tag = Ret s"
      "(case s of Dyn_next self' \<Rightarrow> dyn_loop m n (d + sizeof_Dyn) self'
        | Dyn_end self' \<Rightarrow> Ret (Inr self') | Dyn_return e self' \<Rightarrow> Ret (Inl (e, self'))) = Ret r"
    by (auto simp: run_simps)
  from dyn_entry_inv [OF Suc.prems(1) s(1)] s(2) Suc.IH show ?case
    by (cases s) (auto simp: step_inv_def)
qed auto

lemma init_dynamic_inv:
  assumes "elf_inv base bias path self0" "init_dynamic m self0 = Ret (0, self)"
  shows "pathname self = path \<and> base_addr self = base \<and> ehdr self = base \<and> bias_addr self = bias \<and>
     xh_elf_check self = 0 \<and> ptr_ok base (strtab self) \<and> ptr_ok base (symtab self) \<and>
     ptr_ok base (relplt self) \<and> ptr_ok base (reldyn self)"
proof -
  from assms(2) obtain r where r: "dyn_loop m (unat (dyn_sz self0 div 16)) (dyn self0) self0 = Ret r"
    and c: "(case r of Inl (e, self) \<Rightarrow> Ret (e, self)
       | Inr self \<Rightarrow> run_bind (check_android_rel m self) (\<lambda>c. case c of
               None \<Rightarrow> Ret (XH_ERRNO_FORMAT, self)
             | Some self \<Rightarrow> if xh_elf_check self \<noteq> 0 then Ret (XH_ERRNO_FORMAT, self) else Ret (0, self))) = Ret (0, self)"
    by (auto simp: init_dynamic_def run_simps)
  from dyn_loop_inv [OF assms(1) r] c obtain s1 where s1: "elf_inv base bias path s1"
      "check_android_rel m s1 = Ret (Some self)" "xh_elf_check self = 0"
    by (cases r) (auto simp: run_simps XH_ERRNO_FORMAT_def split: prod.splits option.splits if_splits)
  from s1(2) have "self = s1 \<or> self = s1\<lparr>relandroid := relandroid s1 + 4, relandroid_sz := relandroid_sz s1 - 4\<rparr>"
    by (auto simp: check_android_rel_def run_simps split: if_splits)
  with s1 show ?thesis by (auto simp: elf_inv_def)
qed

section \<open>A concrete image\<close>

lemma header_check:
  "run_bind r (\<lambda>x. if x \<noteq> c then Ret XH_ERRNO_FORMAT else k) = Ret 0 \<longleftrightarrow> r = Ret c \<and> k = Ret 0"
  by (cases r) (auto simp: XH_ERRNO_FORMAT_def)

lemma header_check2:
  "run_bind r (\<lambda>x. if x \<noteq> c \<and> x \<noteq> d then Ret XH_ERRNO_FORMAT else k) = Ret 0 \<longleftrightarrow>
   (r = Ret c \<or> r = Ret d) \<and> k = Ret 0"
  by (cases r) (auto simp: XH_ERRNO_FORMAT_def)

lemma first_segment_numeral:
  "first_segment m p (numeral k) ph =
     run_bind (p ph) (\<lambda>b. if b then Ret (Some ph) else first_segment m p (pred_numeral k) (ph + sizeof_Phdr))"
  by (simp add: numeral_eq_Suc)

lemma dyn_loop_numeral:
  "dyn_loop m (numeral k) d self =
     run_bind (d_tag m d) (\<lambda>tag. run_bind (dyn_entry m self d (dyn_tag_of tag)) (\<lambda>s.
       case s of
         Dyn_next self' \<Rightarrow> dyn_loop m (pred_numeral k) (d + sizeof_Dyn) self'
       | Dyn_end self' \<Rightarrow> Ret (Inr self')
       | Dyn_return e self' \<Rightarrow> Ret (Inl (e, self'))))"
  by (simp add: numeral_eq_Suc)

definition dso_bytes :: "addr \<Rightarrow> u8" where
  "dso_bytes = (\<lambda>_. 0)(
     0x10020 := 0x40, 0x10038 := 2,
     0x10040 := 1, 0x10078 := 2, 0x10089 := 1, 0x100a0 := 64,
     0x10100 := 5, 0x10109 := 2, 0x10110 := 6, 0x10119 := 3,
     0x10120 := 4, 0x10129 := 4, 0x10400 := 1, 0x10404 := 2)"

definition dso_memory :: memory where
  "dso_memory = \<lparr>mbytes = dso_bytes, mprot = (\<lambda>_. Some 1)\<rparr>"

lemma dso_load: "load8 dso_memory a = Ret (dso_bytes a)"
  by (simp add: load8_def readable_def dso_memory_def)

lemmas dso_eval = load_le_numeral load16_def load32_def load64_def dso_load dso_bytes_def

definition dso_elf :: xh_elf_t where
  "dso_elf = xh_elf_zero\<lparr>pathname := Some ''libx'', base_addr := 0x10000, bias_addr := 0x10000,
     ehdr := 0x10000, phdr := 0x10040, dyn := 0x10100, dyn_sz := 64,
     strtab := 0x10200, symtab := 0x10300, bucket := 0x10408, bucket_cnt := 1,
     chain := 0x1040c, chain_cnt := 2\<rparr>"

lemma dso_init: "xh_elf_init dso_memory xh_elf_zero 0x10000 (Some ''libx'') = Ret (0, dso_elf)"
proof -
  let ?s1 = "xh_elf_zero\<lparr>pathname := Some ''libx'', base_addr := 0x10000, ehdr := 0x10000, phdr := 0x10040\<rparr>"
  let ?s2 = "?s1\<lparr>bias_addr := 0x10000\<rparr>"
  have ph: "e_phoff dso_memory 0x10000 = Ret 0x40" "e_phnum dso_memory 0x10000 = Ret 2"
    by (simp_all add: e_phoff_def e_phnum_def dso_eval)
  have p: "p_type dso_memory 0x10040 = Ret 1" "p_offset dso_memory 0x10040 = Ret 0" "p_vaddr dso_memory 0x10040 = Ret 0"
     "p_type dso_memory 0x10078 = Ret 2" "p_vaddr dso_memory 0x10078 = Ret 0x100" "p_memsz dso_memory 0x10078 = Ret 64"
    by (simp_all add: p_type_def p_offset_def p_vaddr_def p_memsz_def dso_eval)
  have seg: "xh_elf_get_first_segment_by_type_offset dso_memory ?s1 PT_LOAD 0 = Ret (Some 0x10040)"
    "xh_elf_get_first_segment_by_type dso_memory ?s2 PT_DYNAMIC = Ret (Some 0x10078)"
    by (simp_all add: xh_elf_get_first_segment_by_type_offset_def xh_elf_get_first_segment_by_type_def
        ph p PT_LOAD_def PT_DYNAMIC_def first_segment_numeral sizeof_Phdr_def)
  have d: "d_tag dso_memory 0x10100 = Ret 5" "d_val dso_memory 0x10100 = Ret 0x200"
    "d_tag dso_memory 0x10110 = Ret 6" "d_val dso_memory 0x10110 = Ret 0x300"
    "d_tag dso_memory 0x10120 = Ret 4" "d_val dso_memory 0x10120 = Ret 0x400"
    "d_tag dso_memory 0x10130 = Ret 0"
    "index32 dso_memory 0x10400 0 = Ret 1" "index32 dso_memory 0x10400 1 = Ret 2"
    by (simp_all add: d_tag_def d_val_def index32_def dso_eval)
  have "dyn_loop dso_memory 4 0x10100 (?s2\<lparr>dyn := 0x10100, dyn_sz := 64\<rparr>) = Ret (Inr dso_elf)"
    by (simp add: dyn_loop_numeral d sizeof_Dyn_def DT_RELA_num_def dyn_entry_def dyn_tag_of_def dyn_value_def dyn_pointer_def
        dyn_hash_def xh_elf_zero_def dso_elf_def)
  then have dl: "init_dynamic dso_memory (?s2\<lparr>dyn := 0x10100, dyn_sz := 64\<rparr>) = Ret (0, dso_elf)"
    by (simp add: init_dynamic_def check_android_rel_def xh_elf_check_def dso_elf_def xh_elf_zero_def)
  show ?thesis
    using dl by (simp add: xh_elf_init_def ph seg p)
qed

section \<open>Properties\<close>

text \<open>
  a header passes the check exactly when it has the magic number, the 64-bit class, little
  endian data, the current version twice, an executable or shared object type and the AArch64
  machine.
\<close>

theorem check_elfheader_accepts:
  "xh_elf_check_elfheader m base = Ret 0 \<longleftrightarrow>
     mem_at m base (ELFMAG @ [ELFCLASS64, ELFDATA2LSB, of_nat EV_CURRENT]) \<and>
     (e_type m base = Ret ET_EXEC \<or> e_type m base = Ret ET_DYN) \<and>
     e_machine m base = Ret EM_AARCH64 \<and> e_version m base = Ret (of_nat EV_CURRENT)"
proof -
  have off: "base + 1 + 1 = base + 2" "base + 2 + 1 = base + 3" "base + 3 + 1 = base + 4"
    "base + 4 + 1 = base + 5" "base + 5 + 1 = base + 6" by (simp_all add: algebra_simps)
  have m7: "mem_at m base [a, b, c, d, e, f, g] \<longleftrightarrow>
      e_ident m base 0 = Ret a \<and> e_ident m base 1 = Ret b \<and> e_ident m base 2 = Ret c \<and>
      e_ident m base 3 = Ret d \<and> e_ident m base 4 = Ret e \<and> e_ident m base 5 = Ret f \<and>
      e_ident m base 6 = Ret g" for a b c d e f g
    by (simp add: e_ident_def off)
  have "read_ident m base = Ret [a, b, c, d] \<longleftrightarrow> e_ident m base 0 = Ret a \<and> e_ident m base 1 = Ret b \<and>
      e_ident m base 2 = Ret c \<and> e_ident m base 3 = Ret d" for a b c d
    by (auto simp: read_ident_def run_simps)
  then show ?thesis
    unfolding xh_elf_check_elfheader_def header_check header_check2 ELFMAG_def append.simps m7
    by (simp add: conj_assoc)
qed

text \<open>
  C9: an \<open>xh_elf_t\<close> that \<^verbatim>\<open>xh_elf_init\<close> reports as initialised has its path and base address, a load
  bias not above the base, passes \<^verbatim>\<open>xh_elf_check\<close>, and its string, symbol and relocation tables lie
  at or above the base.
\<close>

theorem xh_elf_init_invariant:
  assumes "xh_elf_init m self0 base path = Ret (0, self)"
  shows "pathname self = path \<and> path \<noteq> None \<and> base_addr self = base \<and> base \<noteq> 0 \<and> ehdr self = base \<and>
     bias_addr self \<le> base \<and> xh_elf_check self = 0 \<and> base \<le> strtab self \<and> base \<le> symtab self \<and>
     (relplt self = 0 \<or> base \<le> relplt self) \<and> (reldyn self = 0 \<or> base \<le> reldyn self)"
proof -
  from assms have nz: "base \<noteq> 0" "path \<noteq> None"
    by (auto simp: xh_elf_init_def XH_ERRNO_INVAL_def split: if_splits)
  with assms obtain phoff v dva and msz :: u64 where v: "\<not> base < v"
    and d: "init_dynamic m (xh_elf_zero\<lparr>pathname := path, base_addr := base, ehdr := base, phdr := base + phoff,
        bias_addr := base - v, dyn := base - v + dva, dyn_sz := ucast msz\<rparr>) = Ret (0, self)"
    unfolding xh_elf_init_def
    by (auto simp: Let_def run_simps XH_ERRNO_FORMAT_def split: if_splits option.splits)
  have "elf_inv base (base - v) path (xh_elf_zero\<lparr>pathname := path, base_addr := base, ehdr := base, phdr := base + phoff,
        bias_addr := base - v, dyn := base - v + dva, dyn_sz := ucast msz\<rparr>)"
    by (simp add: elf_inv_def xh_elf_zero_def ptr_ok_def)
  note inv = init_dynamic_inv [OF this d]
  moreover have "base - v \<le> base" using v by unat_arith
  moreover from inv have "strtab self \<noteq> 0" "symtab self \<noteq> 0" by (auto simp: xh_elf_check_def split: if_splits)
  ultimately show ?thesis using nz by (auto simp: ptr_ok_def)
qed
theorem xh_elf_init_invariant_witness:
  "bias_addr dso_elf \<le> 0x10000 \<and> xh_elf_check dso_elf = 0 \<and> 0x10000 \<le> strtab dso_elf"
  using xh_elf_init_invariant [OF dso_init] by simp


end
