(* ===== verification/Xh_Hook.thy ===== *)
theory Xh_Hook
  imports Xh_Symbols
begin

unbundle bit_operations_syntax

text \<open>
  The hook of \<^verbatim>\<open>xh_elf.c\<close> against its specification. \<open>replace_slot\<close> says what the replacement of
  one slot does to memory; \<open>hook_slots\<close> lists the slots of the relocations for a symbol (the
  first jump slot, then every data slot); the hook is the replacement of these slots one after
  the other, through page protections, the caller's variable and the relocation tables it
  reads while it writes.
\<close>

section \<open>Replacing one slot\<close>

lemma mprotected_writable:
  assumes "all_writable m b n"
  shows "all_writable (mprotected m a len need_prot) b n"
  using assms by (simp add: all_writable_def writable_def mprotected_def need_prot_def prot_defs small_bits)

definition replaced_bytes :: "(addr \<Rightarrow> u8) \<Rightarrow> addr \<Rightarrow> u64 \<Rightarrow> addr \<Rightarrow> addr \<Rightarrow> u8" where
  "replaced_bytes f addr new_func old_func =
     upd_le (if old_func \<noteq> 0 then upd_le f 8 old_func (get_le f 8 addr :: u64) else f) 8 addr new_func"

lemma replace_function_effect:
  assumes os: "mprotect_contract os" and al: "addr AND 7 = 0"
    and page: "page_prot m addr p" "bit p 0"
    and prot: "xh_util_get_addr_protect os perm0 m addr (pathname self) = (0, p)"
    and succ: "\<And>m' q. fst (os_mprotect os m' (PAGE_START addr) 4096 q) = 0"
    and old: "old_func \<noteq> 0 \<Longrightarrow> all_writable m old_func 8"
    and ne: "load64 m addr \<noteq> Ret new_func"
  shows "xh_elf_replace_function os perm0 m self addr new_func old_func =
     (Ret 0, m\<lparr>mbytes := replaced_bytes (mbytes m) addr new_func old_func\<rparr>)"
proof -
  let ?m1 = "if p \<noteq> need_prot then mprotected m (PAGE_START addr) 4096 need_prot else m"
  let ?o = "get_le (mbytes m) 8 addr :: u64"
  let ?m2 = "if old_func \<noteq> 0 then ?m1\<lparr>mbytes := upd_le (mbytes m) 8 old_func ?o\<rparr> else ?m1"
  have ld: "load64 m addr = Ret ?o" by (rule load64_get) (rule page_slot_readable(1) [OF page(1) al page(2)])
  have b1: "mbytes ?m1 = mbytes m" by (simp add: mprotected_def)
  have np: "bit need_prot 0" "bit need_prot 1" by (simp_all add: need_prot_def prot_defs)
  have pg1: "page_prot ?m1 addr need_prot" using page(1) by (auto simp: mprotected_page)
  have ld1: "load64 ?m1 addr = Ret ?o"
    using load64_get [OF page_slot_readable(1) [OF pg1 al np(1)]] b1 by simp
  have st1: "old_func \<noteq> 0 \<Longrightarrow> store64 ?m1 old_func ?o = Ret ?m2"
    using store_le_upd [of ?m1 old_func 8 ?o] old b1
    by (simp add: store64_def mprotected_writable split: if_splits)
  have "page_prot ?m2 addr need_prot" using pg1 by (simp add: page_prot_def)
  then have st2: "store64 ?m2 addr new_func = Ret (?m2\<lparr>mbytes := upd_le (mbytes ?m2) 8 addr new_func\<rparr>)"
    unfolding store64_def by (intro store_le_upd page_slot_readable(2) [OF _ al np(2)])
  have m2: "?m2\<lparr>mbytes := upd_le (mbytes ?m2) 8 addr new_func\<rparr> =
      ?m1\<lparr>mbytes := replaced_bytes (mbytes m) addr new_func old_func\<rparr>"
    by (simp add: replaced_bytes_def b1)
  have set1: "p \<noteq> need_prot \<Longrightarrow> xh_util_set_addr_protect os m addr need_prot = (0, ?m1)"
    using set_protect_ok [OF os al succ] by simp
  have set2: "p \<noteq> need_prot \<Longrightarrow> snd (xh_util_set_addr_protect os
      (?m1\<lparr>mbytes := replaced_bytes (mbytes m) addr new_func old_func\<rparr>) addr p) =
      m\<lparr>mbytes := replaced_bytes (mbytes m) addr new_func old_func\<rparr>"
    using set_protect_ok [OF os al succ] mprotected_back [OF page(1)] by simp
  show ?thesis
  proof (cases "p = need_prot")
    case True
    with ld ne prot ld1 st1 st2 m2 show ?thesis
      by (cases "old_func = 0") (simp_all add: xh_elf_replace_function_def)
  next
    case False
    with ld ne prot ld1 st1 st2 m2 set1 set2 show ?thesis
      by (cases "old_func = 0") (simp_all add: xh_elf_replace_function_def)
  qed
qed

text \<open>The specification of a hook on memory: the slots are replaced one after the other.\<close>

definition replace_slot :: "u64 \<Rightarrow> addr \<Rightarrow> memory \<Rightarrow> addr \<Rightarrow> memory" where
  "replace_slot new_func old_func m addr =
     (if get_le (mbytes m) 8 addr = new_func then m
      else m\<lparr>mbytes := replaced_bytes (mbytes m) addr new_func old_func\<rparr>)"

definition plt_slots :: "addr \<Rightarrow> u32 \<Rightarrow> (u64 \<times> u64) list \<Rightarrow> addr list" where
  "plt_slots bias symidx rels =
     (case filter (\<lambda>(off, info). rel_matches True symidx info) rels of
        [] \<Rightarrow> [] | (off, info) # _ \<Rightarrow> [bias + off])"

definition data_slots :: "addr \<Rightarrow> u32 \<Rightarrow> (u64 \<times> u64) list \<Rightarrow> addr list" where
  "data_slots bias symidx rels =
     map (\<lambda>(off, info). bias + off) (filter (\<lambda>(off, info). rel_matches False symidx info) rels)"

definition written :: "addr list \<Rightarrow> addr \<Rightarrow> addr \<Rightarrow> bool" where
  "written slots old_func b \<longleftrightarrow>
     (\<exists>s\<in>set slots. in_range b s 8) \<or> old_func \<noteq> 0 \<and> in_range b old_func 8"

definition same_outside :: "(addr \<Rightarrow> bool) \<Rightarrow> memory \<Rightarrow> memory \<Rightarrow> bool" where
  "same_outside W m m' \<longleftrightarrow> mprot m' = mprot m \<and> (\<forall>b. \<not> W b \<longrightarrow> mbytes m' b = mbytes m b)"

definition slot_ok :: "os \<Rightarrow> string \<Rightarrow> xh_elf_t \<Rightarrow> memory \<Rightarrow> addr \<Rightarrow> bool" where
  "slot_ok os perm0 self m addr \<longleftrightarrow>
     addr AND 7 = 0 \<and> base_addr self \<le> addr \<and>
     (\<exists>p. page_prot m addr p \<and> bit p 0 \<and>
        (\<forall>m'. mprot m' = mprot m \<longrightarrow>
           xh_util_get_addr_protect os perm0 m' addr (pathname self) = (0, p))) \<and>
     (\<forall>m' q. fst (os_mprotect os m' (PAGE_START addr) 4096 q) = 0)"

lemma replaced_bytes_outside:
  "\<not> written slots old_func b \<Longrightarrow> s \<in> set slots \<Longrightarrow> replaced_bytes f s new_func old_func b = f b"
  by (auto simp: replaced_bytes_def written_def in_range_iff upd_le_other)

lemma replace_slot_same_outside:
  assumes "same_outside (written slots old_func) m m'" "s \<in> set slots"
  shows "same_outside (written slots old_func) m (replace_slot new_func old_func m' s)"
  using assms by (simp add: same_outside_def replace_slot_def replaced_bytes_outside)

lemma replace_function_slot:
  assumes "mprotect_contract os" "slot_ok os perm0 self m addr" "mprot m' = mprot m"
    and "old_func \<noteq> 0 \<Longrightarrow> all_writable m old_func 8"
  shows "xh_elf_replace_function os perm0 m' self addr new_func old_func =
     (Ret 0, replace_slot new_func old_func m' addr)"
proof -
  from assms(2,3) obtain p where p: "page_prot m' addr p" "bit p 0" "addr AND 7 = 0"
      "xh_util_get_addr_protect os perm0 m' addr (pathname self) = (0, p)"
      "\<And>m' q. fst (os_mprotect os m' (PAGE_START addr) 4096 q) = 0"
    by (auto simp: slot_ok_def page_prot_def)
  have ld: "load64 m' addr = Ret (get_le (mbytes m') 8 addr)"
    by (rule load64_get) (rule page_slot_readable(1) [OF p(1,3,2)])
  have old: "old_func \<noteq> 0 \<Longrightarrow> all_writable m' old_func 8"
    using assms(3,4) by (simp add: all_writable_def writable_def)
  show ?thesis
  proof (cases "get_le (mbytes m') 8 addr = new_func")
    case True
    with ld show ?thesis by (simp add: xh_elf_replace_function_def replace_slot_def)
  next
    case False
    with ld have "load64 m' addr \<noteq> Ret new_func" by simp
    from replace_function_effect [OF assms(1) p(3,1,2,4,5) old this] False show ?thesis
      by (simp add: replace_slot_def)
  qed
qed

definition rel_reads :: "memory \<Rightarrow> (addr \<Rightarrow> bool) \<Rightarrow> rel_common \<Rightarrow> u64 \<times> u64 \<Rightarrow> bool" where
  "rel_reads m W rc r \<longleftrightarrow>
     (\<forall>m'. same_outside W m m' \<longrightarrow> rel_r_offset m' rc = Ret (fst r) \<and> rel_r_info m' rc = Ret (snd r))"

definition hook_env :: "os \<Rightarrow> string \<Rightarrow> xh_elf_t \<Rightarrow> memory \<Rightarrow> addr \<Rightarrow> addr list \<Rightarrow> bool" where
  "hook_env os perm0 self m0 old_func slots \<longleftrightarrow>
     mprotect_contract os \<and> (\<forall>s\<in>set slots. slot_ok os perm0 self m0 s) \<and>
     (old_func \<noteq> 0 \<longrightarrow> all_writable m0 old_func 8)"

lemma find_and_replace_entry:
  assumes env: "hook_env os perm0 self m0 old_func slots"
    and "same_outside (written slots old_func) m0 m" "rel_reads m0 (written slots old_func) rc (off, info)"
    and "rel_matches is_plt symidx info \<Longrightarrow> bias_addr self + off \<in> set slots"
  shows "xh_elf_find_and_replace_func os perm0 self is_plt new_func old_func symidx m rc =
     (if rel_matches is_plt symidx info
      then (Ret (0, True), replace_slot new_func old_func m (bias_addr self + off))
      else (Ret (0, False), m))"
proof -
  have rd: "rel_r_offset m rc = Ret off" "rel_r_info m rc = Ret info"
    using assms(2,3) by (auto simp: rel_reads_def)
  show ?thesis
  proof (cases "rel_matches is_plt symidx info")
    case True
    let ?s = "bias_addr self + off"
    have ok: "slot_ok os perm0 self m0 ?s" using assms(4) [OF True] env by (simp add: hook_env_def)
    then have "base_addr self \<le> ?s" by (simp add: slot_ok_def)
    moreover have "mprot m = mprot m0" using assms(2) by (simp add: same_outside_def)
    ultimately show ?thesis
      using True rd env replace_function_slot [OF _ ok]
      by (simp add: xh_elf_find_and_replace_func_def hook_env_def)
  qed (use rd in \<open>simp add: xh_elf_find_and_replace_func_def\<close>)
qed

lemma fold_data:
  assumes env: "hook_env os perm0 self m0 old_func slots"
    and "same_outside (written slots old_func) m0 m"
    and "list_all2 (\<lambda>e. rel_reads m0 (written slots old_func) (con e)) es rels"
    and "set (data_slots (bias_addr self) symidx rels) \<subseteq> set slots"
  shows "reloc_fold (\<lambda>m e. ignore_found (xh_elf_find_and_replace_func os perm0 self False new_func
             old_func symidx m (con e))) m es =
     (Ret None, foldl (replace_slot new_func old_func) m (data_slots (bias_addr self) symidx rels))"
  using assms(3,2,4)
proof (induction es rels arbitrary: m rule: list_all2_induct)
  case Nil
  then show ?case by (simp add: data_slots_def)
next
  case (Cons e es r rels)
  obtain off info where r: "r = (off, info)" by (cases r)
  have b: "rel_matches False symidx info \<Longrightarrow> bias_addr self + off \<in> set slots"
    using Cons.prems(2) r by (simp add: data_slots_def)
  have step: "xh_elf_find_and_replace_func os perm0 self False new_func old_func symidx m (con e) =
     (if rel_matches False symidx info
      then (Ret (0, True), replace_slot new_func old_func m (bias_addr self + off))
      else (Ret (0, False), m))"
    using b by (rule find_and_replace_entry [OF env Cons.prems(1) Cons.hyps(1) [unfolded r]])
  show ?case
  proof (cases "rel_matches False symidx info")
    case True
    with step have "same_outside (written slots old_func) m0 (replace_slot new_func old_func m (bias_addr self + off))"
      using Cons.prems(1) b by (intro replace_slot_same_outside) auto
    from Cons.IH [OF this] Cons.prems(2) True step show ?thesis
      by (simp add: r data_slots_def ignore_found_def)
  next
    case False
    with Cons.IH [OF Cons.prems(1)] Cons.prems(2) step show ?thesis
      by (simp add: r data_slots_def ignore_found_def)
  qed
qed

lemma fold_plt:
  assumes env: "hook_env os perm0 self m0 old_func slots"
    and "same_outside (written slots old_func) m0 m"
    and "list_all2 (\<lambda>e. rel_reads m0 (written slots old_func) (con e)) es rels"
    and "set (plt_slots (bias_addr self) symidx rels) \<subseteq> set slots"
  shows "reloc_fold (\<lambda>m e. xh_elf_find_and_replace_func os perm0 self True new_func
             old_func symidx m (con e)) m es =
     (Ret None, foldl (replace_slot new_func old_func) m (plt_slots (bias_addr self) symidx rels))"
  using assms(3,2,4)
proof (induction es rels arbitrary: m rule: list_all2_induct)
  case Nil
  then show ?case by (simp add: plt_slots_def)
next
  case (Cons e es r rels)
  obtain off info where r: "r = (off, info)" by (cases r)
  have b: "rel_matches True symidx info \<Longrightarrow> bias_addr self + off \<in> set slots"
    using Cons.prems(2) r by (simp add: plt_slots_def)
  have step: "xh_elf_find_and_replace_func os perm0 self True new_func old_func symidx m (con e) =
     (if rel_matches True symidx info
      then (Ret (0, True), replace_slot new_func old_func m (bias_addr self + off))
      else (Ret (0, False), m))"
    using b by (rule find_and_replace_entry [OF env Cons.prems(1) Cons.hyps(1) [unfolded r]])
  show ?case
  proof (cases "rel_matches True symidx info")
    case True
    with step show ?thesis by (simp add: r plt_slots_def)
  next
    case False
    with Cons.IH [OF Cons.prems(1)] Cons.prems(2) step show ?thesis
      by (simp add: r plt_slots_def)
  qed
qed

section \<open>The loops over the tables\<close>

definition plain_table ::
    "memory \<Rightarrow> (addr \<Rightarrow> bool) \<Rightarrow> bool \<Rightarrow> addr \<Rightarrow> u32 \<Rightarrow> (u64 \<times> u64) list \<Rightarrow> bool" where
  "plain_table m W rela rel rel_sz rels \<longleftrightarrow>
     (if rel = 0 then rels = []
      else unat rel + unat rel_sz + 24 \<le> 2 ^ 64 \<and>
        unat rel_sz = length rels * (if rela then 24 else 16) \<and>
        list_all2 (\<lambda>a. rel_reads m W (In_table a))
          (plain_entries rel (if rela then 24 else 16) (length rels)) rels)"

definition packed_table ::
    "memory \<Rightarrow> (addr \<Rightarrow> bool) \<Rightarrow> bool \<Rightarrow> addr \<Rightarrow> u32 \<Rightarrow> (u64 \<times> u64) list \<Rightarrow> bool" where
  "packed_table m W rela rel rel_sz rels \<longleftrightarrow>
     (if rel = 0 then rels = []
      else \<exists>start gs. packable rela start gs \<and> mem_at m rel (packed_bytes rela start gs) \<and>
        length (packed_bytes rela start gs) \<le> unat rel_sz \<and> unat rel + unat rel_sz < 2 ^ 64 \<and>
        (\<forall>a. rel \<le> a \<and> a < rel + ucast rel_sz \<longrightarrow> \<not> W a) \<and>
        rels = map (\<lambda>e. (pe_r_offset e, pe_r_info e)) (expand_groups rela (word_of_int start) 0 gs))"

lemma ignore_found_snd: "snd (ignore_found r) = snd r"
  by (cases r; cases "fst r") (auto simp: ignore_found_def)

lemma entry_same_outside:
  assumes "hook_env os perm0 self m0 old_func slots"
    and "same_outside (written slots old_func) m0 m"
    and "list_all2 (\<lambda>e. rel_reads m0 (written slots old_func) (con e)) es rels" "e \<in> set es"
    and "set (data_slots (bias_addr self) symidx rels) \<subseteq> set slots"
  shows "same_outside (written slots old_func) m0
     (snd (xh_elf_find_and_replace_func os perm0 self False new_func old_func symidx m (con e)))"
proof -
  from assms(3,4) obtain off info where "rel_reads m0 (written slots old_func) (con e) (off, info)"
      "(off, info) \<in> set rels"
    by (auto simp: list_all2_conv_all_nth in_set_conv_nth) (metis prod.exhaust)
  moreover then have "rel_matches False symidx info \<Longrightarrow> bias_addr self + off \<in> set slots"
    using assms(5) by (force simp: data_slots_def)
  ultimately show ?thesis
    using find_and_replace_entry [OF assms(1,2), of "con e" off info False] assms(2)
    by (auto simp: replace_slot_same_outside)
qed

lemma plain_loop_fold:
  assumes "plain_table m0 W (is_use_rela self) rel rel_sz rels" "rel \<noteq> 0"
  shows "hook_plain_table body self rel rel_sz m =
     Some (reloc_fold (\<lambda>m a. body m (In_table a)) m
       (plain_entries rel (if is_use_rela self then 24 else 16) (length rels)))"
proof -
  let ?it = "xh_elf_plain_reloc_iterator_init rel rel_sz (is_use_rela self)"
  obtain n where n: "length rels < n" "plain_left ?it < n"
    by (rule above_both)
  from assms have nw: "unat rel + unat rel_sz + 24 \<le> 2 ^ 64"
      "unat rel_sz = length rels * (if is_use_rela self then 24 else 16)"
    by (simp_all add: plain_table_def)
  then have e: "unat (rel + ucast rel_sz) = unat rel + unat rel_sz" by (intro unat_add_ucast32) simp
  then have inv: "plain_inv ?it" and u: "unat (plain_end ?it) = unat rel + unat rel_sz"
    using nw(1) by (simp_all add: plain_inv_def xh_elf_plain_reloc_iterator_init_def)
  obtain s' where c: "iter_collect plain_next m n ?it =
      Ret (plain_entries rel (if is_use_rela self then 24 else 16) (length rels), s')"
    using plain_collect_upt [OF inv refl, of "length rels" n m] u nw(2) n(1)
    by (auto simp: xh_elf_plain_reloc_iterator_init_def simp del: plain_entries.simps iter_collect.simps)
  from plain.loop_fold [OF inv _ c, of "\<lambda>_. True"] assms(2) n(2) show ?thesis
    by (simp add: hook_plain_table_def del: plain_entries.simps)
qed

lemma hook_plain_data:
  assumes "hook_env os perm0 self m0 old_func slots" "same_outside (written slots old_func) m0 m"
    and "plain_table m0 (written slots old_func) (is_use_rela self) rel rel_sz rels"
    and "set (data_slots (bias_addr self) symidx rels) \<subseteq> set slots"
  shows "hook_plain_table (\<lambda>m rc. ignore_found (xh_elf_find_and_replace_func os perm0 self False
             new_func old_func symidx m rc)) self rel rel_sz m =
     Some (Ret None, foldl (replace_slot new_func old_func) m (data_slots (bias_addr self) symidx rels))"
proof (cases "rel = 0")
  case True
  with assms(3) show ?thesis by (simp add: plain_table_def hook_plain_table_def data_slots_def)
next
  case False
  with assms(3) have "list_all2 (\<lambda>a. rel_reads m0 (written slots old_func) (In_table a))
          (plain_entries rel (if is_use_rela self then 24 else 16) (length rels)) rels"
    by (simp add: plain_table_def)
  from plain_loop_fold [OF assms(3) False] fold_data [OF assms(1,2) this assms(4)] show ?thesis by simp
qed

lemma hook_plain_plt:
  assumes "hook_env os perm0 self m0 old_func slots" "same_outside (written slots old_func) m0 m"
    and "plain_table m0 (written slots old_func) (is_use_rela self) rel rel_sz rels"
    and "set (plt_slots (bias_addr self) symidx rels) \<subseteq> set slots"
  shows "hook_plain_table (xh_elf_find_and_replace_func os perm0 self True
             new_func old_func symidx) self rel rel_sz m =
     Some (Ret None, foldl (replace_slot new_func old_func) m (plt_slots (bias_addr self) symidx rels))"
proof (cases "rel = 0")
  case True
  with assms(3) show ?thesis by (simp add: plain_table_def hook_plain_table_def plt_slots_def)
next
  case False
  with assms(3) have "list_all2 (\<lambda>a. rel_reads m0 (written slots old_func) (In_table a))
          (plain_entries rel (if is_use_rela self then 24 else 16) (length rels)) rels"
    by (simp add: plain_table_def)
  from plain_loop_fold [OF assms(3) False] fold_plt [OF assms(1,2) this assms(4)] show ?thesis by simp
qed

lemma load8_same_outside:
  "same_outside W m m' \<Longrightarrow> \<not> W a \<Longrightarrow> load8 m' a = load8 m a"
  by (simp add: same_outside_def load8_def readable_def)

lemma mem_at_same:
  "mem_at m a bs \<Longrightarrow> (\<And>i. i < length bs \<Longrightarrow> load8 m' (a + of_nat i) = load8 m (a + of_nat i)) \<Longrightarrow> mem_at m' a bs"
proof (induction bs arbitrary: a)
  case (Cons b bs)
  have "load8 m' a = load8 m a" using Cons.prems(2) [of 0] by simp
  moreover have "load8 m' (a + 1 + of_nat i) = load8 m (a + 1 + of_nat i)" if "i < length bs" for i
    using Cons.prems(2) [of "Suc i"] that by (simp add: algebra_simps)
  ultimately show ?case using Cons.IH [of "a + 1"] Cons.prems(1) by auto
qed simp

lemma next_number_reads:
  assumes "next_number m self err k = Ret (x, s')" "packed_reads self \<subseteq> R"
    and "\<And>v s1. packed_reads s1 \<subseteq> R \<Longrightarrow> k v s1 = Ret (x, s') \<Longrightarrow> packed_reads s' \<subseteq> R"
  shows "packed_reads s' \<subseteq> R"
proof -
  from assms(1) obtain r d where n: "xh_elf_sleb128_decoder_next m (decoder self) = Ret (r, d)"
    by (auto simp: next_number_def run_simps)
  have "packed_reads (self\<lparr>decoder := d\<rparr>) \<subseteq> R"
    using decoder_next_reads [OF n] assms(2) by (auto simp: packed_reads_def)
  with assms(1,3) n show ?thesis by (cases r) (auto simp: next_number_def)
qed

lemma packed_init_reads:
  assumes "xh_elf_packed_reloc_iterator_init m rel rel_sz rela = Ret (r, it)"
  shows "packed_reads it \<subseteq> {a. rel \<le> a \<and> a < rel + ucast rel_sz}"
  using assms unfolding xh_elf_packed_reloc_iterator_init_def
  by (rule next_number_reads, simp add: packed_reads_def sleb_reads_def xh_elf_sleb128_decoder_init_def)
    (erule next_number_reads, auto simp: packed_reads_def)

lemma hook_packed_data:
  assumes "hook_env os perm0 self m0 old_func slots" "same_outside (written slots old_func) m0 m"
    and "packed_table m0 (written slots old_func) (is_use_rela self) (relandroid self) (relandroid_sz self) rels"
    and "set (data_slots (bias_addr self) symidx rels) \<subseteq> set slots"
  shows "hook_packed_table (\<lambda>m rc. ignore_found (xh_elf_find_and_replace_func os perm0 self False
             new_func old_func symidx m rc)) self m =
     Some (Ret None, foldl (replace_slot new_func old_func) m (data_slots (bias_addr self) symidx rels))"
proof (cases "relandroid self = 0")
  case True
  with assms(3) show ?thesis by (simp add: packed_table_def hook_packed_table_def data_slots_def)
next
  case False
  let ?W = "written slots old_func" and ?rel = "relandroid self" and ?sz = "relandroid_sz self"
  let ?rela = "is_use_rela self"
  from assms(3) False obtain start gs where p: "packable ?rela start gs"
      "mem_at m0 ?rel (packed_bytes ?rela start gs)"
      "length (packed_bytes ?rela start gs) \<le> unat ?sz" "unat ?rel + unat ?sz < 2 ^ 64"
    and out: "\<And>a. ?rel \<le> a \<Longrightarrow> a < ?rel + ucast ?sz \<Longrightarrow> \<not> ?W a"
    and rels: "rels = map (\<lambda>e. (pe_r_offset e, pe_r_info e)) (expand_groups ?rela (word_of_int start) 0 gs)"
    unfolding packed_table_def by auto
  let ?es = "expand_groups ?rela (word_of_int start) 0 gs"
  have en: "unat (?rel + ucast ?sz) = unat ?rel + unat ?sz" using p(4) by (rule unat_add_ucast32)
  have "load8 m (?rel + of_nat i) = load8 m0 (?rel + of_nat i)"
    if "i < length (packed_bytes ?rela start gs)" for i
  proof (rule load8_same_outside [OF assms(2) out])
    have "unat (?rel + of_nat i) = unat ?rel + i"
      using that p(3,4) by (simp add: unat_word_ariths unat_of_nat)
    then show "?rel \<le> ?rel + of_nat i" "?rel + of_nat i < ?rel + ucast ?sz"
      using that p(3) by (simp_all add: word_le_nat_alt word_less_nat_alt en)
  qed
  from mem_at_same [OF p(2) this] have at: "mem_at m ?rel (packed_bytes ?rela start gs)" by blast
  obtain it it0 where init: "xh_elf_packed_reloc_iterator_init m ?rel ?sz ?rela = Ret (0, it)"
    using packed_iterator_roundtrip [OF p(1) at p(3,4), of "length (concat (map g_entries gs))"] by auto
  obtain n where n: "length (concat (map g_entries gs)) < n" "packed_left it < n"
    by (rule above_both)
  obtain it' where col: "packed_collect m n it = Ret (?es, it')"
    using packed_iterator_roundtrip [OF p(1) at p(3,4), of n] init n(1) by auto
  have l2: "list_all2 (\<lambda>e. rel_reads m0 ?W (In_iterator e)) ?es rels"
    by (simp add: rels list_all2_map2 list.rel_refl_strong rel_reads_def rel_r_info_def rel_r_offset_def)
  have rd: "load8 m' a = load8 m a" if "a \<in> packed_reads it" "same_outside ?W m0 m'" for a m'
  proof -
    from that(1) packed_init_reads [OF init] have "\<not> ?W a" using out by blast
    with that(2) assms(2) show ?thesis by (simp add: load8_same_outside)
  qed
  have keep: "same_outside ?W m0 m''"
    if "same_outside ?W m0 m'" "e \<in> set ?es"
      "ignore_found (xh_elf_find_and_replace_func os perm0 self False new_func old_func symidx m' (In_iterator e)) = (r, m'')"
    for m' e r m''
    using entry_same_outside [OF assms(1) that(1) l2 that(2) assms(4)] that(3)
    by (metis ignore_found_snd snd_conv)
  have "reloc_loop xh_elf_packed_reloc_iterator_next
      (\<lambda>m e. ignore_found (xh_elf_find_and_replace_func os perm0 self False new_func old_func symidx m (In_iterator e)))
      m it = Some (reloc_fold (\<lambda>m e. ignore_found (xh_elf_find_and_replace_func os perm0 self False new_func old_func symidx m (In_iterator e))) m ?es)"
    by (rule packed.loop_fold [where ok = "same_outside ?W m0", OF TrueI _ col rd keep assms(2)]) (use n(2) in auto)
  with fold_data [OF assms(1,2) l2 assms(4)] False init show ?thesis
    by (simp add: hook_packed_table_def)
qed

definition hook_slots :: "addr \<Rightarrow> u32 \<Rightarrow> (u64 \<times> u64) list \<Rightarrow> (u64 \<times> u64) list \<Rightarrow> (u64 \<times> u64) list \<Rightarrow> addr list" where
  "hook_slots bias symidx plts dyns androids =
     plt_slots bias symidx plts @ data_slots bias symidx dyns @ data_slots bias symidx androids"

lemma foldl_same_outside:
  assumes "set ss \<subseteq> set slots" "same_outside (written slots old_func) m0 m"
  shows "same_outside (written slots old_func) m0 (foldl (replace_slot new_func old_func) m ss)"
  using assms by (induction ss arbitrary: m) (auto intro: replace_slot_same_outside)

lemma hook_effect:
  assumes "pathname self \<noteq> None" "new_func \<noteq> 0"
    and "xh_elf_find_symidx_by_name m self symbol = Some (Ret (Inr symidx))"
    and "slots = hook_slots (bias_addr self) symidx plts dyns androids"
    and "hook_env os perm0 self m old_func slots"
    and "plain_table m (written slots old_func) (is_use_rela self) (relplt self) (relplt_sz self) plts"
    and "plain_table m (written slots old_func) (is_use_rela self) (reldyn self) (reldyn_sz self) dyns"
    and "packed_table m (written slots old_func) (is_use_rela self) (relandroid self) (relandroid_sz self) androids"
  shows "xh_elf_hook os perm0 m self (Some symbol) new_func old_func =
     Some (Ret 0, foldl (replace_slot new_func old_func) m slots)"
proof -
  let ?b = "bias_addr self"
  let ?m1 = "foldl (replace_slot new_func old_func) m (plt_slots ?b symidx plts)"
  let ?m2 = "foldl (replace_slot new_func old_func) ?m1 (data_slots ?b symidx dyns)"
  have sub: "set (plt_slots ?b symidx plts) \<subseteq> set slots" "set (data_slots ?b symidx dyns) \<subseteq> set slots"
      "set (data_slots ?b symidx androids) \<subseteq> set slots"
    by (auto simp: assms(4) hook_slots_def)
  have s0: "same_outside (written slots old_func) m m" by (simp add: same_outside_def)
  have s1: "same_outside (written slots old_func) m ?m1" by (rule foldl_same_outside [OF sub(1) s0])
  have s2: "same_outside (written slots old_func) m ?m2" by (rule foldl_same_outside [OF sub(2) s1])
  obtain path where "pathname self = Some path" using assms(1) by auto
  then show ?thesis
    using assms(2,3) hook_plain_plt [OF assms(5) s0 assms(6) sub(1)]
      hook_plain_data [OF assms(5) s1 assms(7) sub(2)] hook_packed_data [OF assms(5) s2 assms(8) sub(3)]
    by (simp add: xh_elf_hook_def after_loop_def Let_def) (simp add: assms(4) hook_slots_def)
qed

section \<open>The slots after the hook\<close>

definition slots_apart :: "addr list \<Rightarrow> addr \<Rightarrow> bool" where
  "slots_apart slots old_func \<longleftrightarrow>
     (\<forall>s\<in>set slots. \<forall>t\<in>set slots. s = t \<or> disjoint8 s t) \<and>
     (old_func \<noteq> 0 \<longrightarrow> (\<forall>s\<in>set slots. disjoint8 s old_func))"

abbreviation slot_value :: "memory \<Rightarrow> addr \<Rightarrow> u64" where
  "slot_value m s \<equiv> get_le (mbytes m) 8 s"

lemma get_le_upd_apart:
  assumes "disjoint8 s t"
  shows "get_le (upd_le f 8 t w) 8 s = (get_le f 8 s :: u64)"
  by (rule get_le_cong) (use disjoint8_neq [OF assms] in \<open>auto intro!: upd_le_other\<close>)

lemma get_upd8: "get_le (upd_le f 8 s (w :: u64)) 8 s = w"
  by (rule get_upd_le) simp_all

lemma replace_slot_self: "slot_value (replace_slot new_func old_func m s) s = new_func"
  by (simp add: replace_slot_def replaced_bytes_def get_upd8)

lemma replace_slot_apart:
  assumes "disjoint8 s t" "old_func \<noteq> 0 \<Longrightarrow> disjoint8 s old_func"
  shows "slot_value (replace_slot new_func old_func m t) s = slot_value m s"
  using assms by (simp add: replace_slot_def replaced_bytes_def get_le_upd_apart)

lemma disjoint8_sym: "disjoint8 a b = disjoint8 b a"
  by (auto simp: disjoint8_def)

lemma replace_slot_old:
  assumes "disjoint8 t old_func" "old_func \<noteq> 0"
  shows "slot_value (replace_slot new_func old_func m t) old_func =
     (if slot_value m t = new_func then slot_value m old_func else slot_value m t)"
  using assms disjoint8_sym [of t old_func]
  by (simp add: replace_slot_def replaced_bytes_def get_le_upd_apart get_upd8)

lemma foldl_slots_new:
  assumes "slots_apart slots old_func" "set ss \<subseteq> set slots" "s \<in> set slots"
    and "s \<in> set ss \<or> slot_value m s = new_func"
  shows "slot_value (foldl (replace_slot new_func old_func) m ss) s = new_func"
  using assms(2,4)
proof (induction ss arbitrary: m)
  case (Cons t ss)
  show ?case
  proof (cases "s = t")
    case True
    with Cons show ?thesis by (simp add: replace_slot_self)
  next
    case False
    then have "slot_value (replace_slot new_func old_func m t) s = slot_value m s"
      using assms(1,3) Cons.prems(1) by (intro replace_slot_apart) (auto simp: slots_apart_def)
    with Cons False show ?thesis by auto
  qed
qed simp

lemma foldl_slots_old:
  assumes "slots_apart slots old_func" "set ss \<subseteq> set slots" "old_func \<noteq> 0"
    and "\<forall>s\<in>set slots. slot_value m s = v \<or> slot_value m s = new_func"
    and "slot_value m old_func = v \<or> ss \<noteq> [] \<and> slot_value m (hd ss) = v \<and> v \<noteq> new_func"
  shows "slot_value (foldl (replace_slot new_func old_func) m ss) old_func = v"
  using assms(2,4,5)
proof (induction ss arbitrary: m)
  case (Cons t ss)
  let ?m = "replace_slot new_func old_func m t"
  have t: "t \<in> set slots" using Cons.prems(1) by simp
  then have d: "disjoint8 t old_func" using assms(1,3) by (simp add: slots_apart_def)
  have "slot_value ?m s = v \<or> slot_value ?m s = new_func" if "s \<in> set slots" for s
  proof (cases "s = t")
    case True
    then show ?thesis by (simp add: replace_slot_self)
  next
    case False
    then have "slot_value ?m s = slot_value m s"
      using assms(1) t that by (intro replace_slot_apart) (auto simp: slots_apart_def)
    with Cons.prems(2) that show ?thesis by simp
  qed
  moreover have "slot_value ?m old_func = v"
    using Cons.prems(2,3) t replace_slot_old [OF d assms(3)] by auto
  ultimately show ?case using Cons.IH [of ?m] Cons.prems(1) by simp
qed simp

lemma rel_reads_table:
  assumes "load64 m a = Ret off" "load64 m (a + 8) = Ret info" "\<forall>i<16. \<not> W (a + of_nat i)"
  shows "rel_reads m W (In_table a) (off, info)"
proof -
  have "load64 m' b = load64 m b" if s: "same_outside W m m'" and w: "\<forall>i<8. \<not> W (b + of_nat i)" for m' b
  proof -
    have "load_le m' n c = (load_le m n c :: u64 run)" if "\<forall>i<n. \<not> W (c + of_nat i)" for n c
      using that
    proof (induction n arbitrary: c)
      case (Suc n)
      then have "\<not> W c" "\<forall>i<n. \<not> W (c + 1 + of_nat i)" by (auto simp: all_less_Suc_shift algebra_simps)
      with Suc.IH [of "c + 1"] show ?case by (simp add: load8_same_outside [OF s])
    qed simp
    with w show ?thesis by (simp add: load64_def)
  qed
  moreover have "\<forall>i<8. \<not> W (a + of_nat i)" using assms(3) by auto
  moreover have "\<forall>i<8. \<not> W (a + 8 + of_nat i)"
  proof (intro allI impI)
    fix i :: nat assume "i < 8"
    then have "\<not> W (a + of_nat (8 + i))" by (intro assms(3) [rule_format]) simp
    then show "\<not> W (a + 8 + of_nat i)" by (simp add: algebra_simps)
  qed
  ultimately show ?thesis
    using assms(1,2) by (simp add: rel_reads_def rel_r_offset_def rel_r_info_def)
qed

section \<open>Termination\<close>

definition table_below_top :: "addr \<Rightarrow> u32 \<Rightarrow> bool" where
  "table_below_top rel rel_sz \<longleftrightarrow> rel = 0 \<or> unat rel + unat rel_sz + 24 \<le> 2 ^ 64"

lemma hook_plain_ends:
  assumes "table_below_top rel rel_sz"
  shows "hook_plain_table body self rel rel_sz m \<noteq> None"
proof (cases "rel = 0")
  case False
  with assms have "unat rel + unat rel_sz + 24 \<le> 2 ^ 64" by (simp add: table_below_top_def)
  moreover then have "unat (rel + ucast rel_sz) = unat rel + unat rel_sz"
    by (intro unat_add_ucast32) simp
  ultimately have "plain_inv (xh_elf_plain_reloc_iterator_init rel rel_sz (is_use_rela self))"
    by (simp add: plain_inv_def xh_elf_plain_reloc_iterator_init_def)
  from plain.loop_ends [OF this] False show ?thesis
    by (metis hook_plain_table_def option.distinct(1))
qed (simp add: hook_plain_table_def)

lemma hook_packed_ends: "hook_packed_table body self m \<noteq> None"
  using packed.loop_ends by (fastforce simp: hook_packed_table_def split: run.split prod.split)

lemma ends_pair: "r \<noteq> None \<Longrightarrow> \<exists>a b. r = Some (a, b)"
  by auto

lemma after_loop_ends: "r \<noteq> None \<Longrightarrow> (\<And>m. k m \<noteq> None) \<Longrightarrow> after_loop r k \<noteq> None"
  by (auto simp: after_loop_def split: run.split option.split)

section \<open>A concrete process\<close>

definition image_lines :: "mapping_line list" where
  "image_lines =
     [\<lparr>ml_start = 0x10000, ml_end = 0x30000, ml_perm = ''r--p'', ml_rest = ''0 0 0 /x/libfoo.so''\<rparr>]"

definition image_os :: os where
  "image_os = \<lparr>os_maps = (\<lambda>_. Some (concat (map print_line image_lines))),
               os_mprotect = (\<lambda>m a len p. (0, 0, mprotected m a len p))\<rparr>"

lemma image_contract: "mprotect_contract image_os"
  by (simp add: mprotect_contract_def image_os_def mprotected_def)

lemma image_protect:
  "xh_util_get_addr_protect image_os perm0 m 0x20000 (Some ''libfoo'') = (0, 1)"
proof -
  have ok: "list_all line_ok image_lines"
    by (simp add: image_lines_def line_ok_def print_line_def isspace_def hex8_def hex_pad_def hex_string.simps)
  have "strstr ''0 0 0 /x/libfoo.so'' ''libfoo''" by simp
  then have "mappings_walk (Some ''libfoo'') 0x20000 0x20008 True 0 image_lines = (True, 1)"
    by (simp add: image_lines_def line_named_rest prot_first_def prot_defs)
  then show ?thesis
    by (simp add: xh_util_get_addr_protect_def xh_util_get_mem_protect_def image_os_def maps_loop_print [OF ok])
qed

lemma image_slot_ok: "slot_ok image_os perm0 image_elf image_memory 0x20000"
proof -
  have "x < 0x30000" if "PAGE_START x = PAGE_START 0x20000" for x
  proof -
    have "PAGE_START 0x20000 = 0x20000" by (simp add: PAGE_START_def PAGE_MASK_def PAGE_SIZE_def)
    with that page_offset_less [of x "0x20000"] have "x - 0x20000 < 0x1000" by simp
    then show ?thesis by unat_arith
  qed
  then have "page_prot image_memory 0x20000 1" by (simp add: page_prot_def image_memory_def)
  then show ?thesis
    using image_protect by (auto simp: slot_ok_def image_elf_def xh_elf_zero_def image_os_def)
qed

lemma image_old_func: "all_writable image_memory 0x30000 8" "all_readable image_memory 0x30000 8"
proof -
  have "mprot image_memory (0x30000 + of_nat i) = Some 3" if "i < 8" for i
  proof -
    have "unat (0x30000 + of_nat i :: u64) = 0x30000 + i" using that by (simp add: unat_offset)
    then have "\<not> 0x30000 + of_nat i < (0x30000 :: u64)" by (simp add: word_less_nat_alt)
    then show ?thesis by (simp add: image_memory_def)
  qed
  then show "all_writable image_memory 0x30000 8" "all_readable image_memory 0x30000 8"
    by (simp_all add: all_writable_def all_readable_def writable_def readable_def)
qed

section \<open>Properties\<close>

text \<open>
  C22: the replacement of a function stores the new pointer in the slot and the old one in the
  caller's variable, leaves the page with the protection it had, and changes nothing else.
\<close>

theorem replace_function_correct:
  assumes "mprotect_contract os" "addr AND 7 = 0" "page_prot m addr p" "bit p 0"
    and "xh_util_get_addr_protect os perm0 m addr (pathname self) = (0, p)"
    and "\<And>m' q. fst (os_mprotect os m' (PAGE_START addr) 4096 q) = 0"
    and "old_func \<noteq> 0 \<Longrightarrow> all_writable m old_func 8 \<and> all_readable m old_func 8 \<and> disjoint8 addr old_func"
    and "load64 m addr = Ret v" "v \<noteq> new_func"
  shows "\<exists>m'. xh_elf_replace_function os perm0 m self addr new_func old_func = (Ret 0, m') \<and>
     load64 m' addr = Ret new_func \<and> (old_func \<noteq> 0 \<longrightarrow> load64 m' old_func = Ret v) \<and>
     mprot m' = mprot m \<and> (\<forall>b. \<not> written [addr] old_func b \<longrightarrow> mbytes m' b = mbytes m b)"
proof -
  let ?m = "m\<lparr>mbytes := replaced_bytes (mbytes m) addr new_func old_func\<rparr>"
  have rep: "xh_elf_replace_function os perm0 m self addr new_func old_func = (Ret 0, ?m)"
    using assms by (intro replace_function_effect) auto
  have v: "slot_value m addr = v"
    using load64_get [OF load64_readable [OF assms(8)]] assms(8) by simp
  then have rs: "?m = replace_slot new_func old_func m addr"
    using assms(9) by (simp add: replace_slot_def)
  have "all_readable ?m a 8 = all_readable m a 8" for a by (simp add: all_readable_def readable_def)
  then have ld: "all_readable m a 8 \<Longrightarrow> load64 ?m a = Ret (slot_value ?m a)" for a by (simp add: load64_get)
  have "load64 ?m addr = Ret new_func"
    using ld [OF load64_readable [OF assms(8)]] unfolding rs by (simp add: replace_slot_self)
  moreover have "load64 ?m old_func = Ret v" if "old_func \<noteq> 0"
    using ld [of old_func] assms(7) [OF that] assms(9) v that unfolding rs by (simp add: replace_slot_old)
  moreover have "\<forall>b. \<not> written [addr] old_func b \<longrightarrow> mbytes ?m b = mbytes m b"
    by (simp add: replaced_bytes_outside)
  moreover have "mprot ?m = mprot m" by simp
  ultimately show ?thesis using rep by blast
qed

theorem replace_function_correct_witness:
  "\<exists>m'. xh_elf_replace_function image_os ''.....'' image_memory image_elf 0x20000 0x7777 0x30000 = (Ret 0, m') \<and>
     load64 m' 0x20000 = Ret 0x7777 \<and> load64 m' 0x30000 = Ret 0x5555"
proof -
  have s: "slot_ok image_os ''.....'' image_elf image_memory 0x20000" by (rule image_slot_ok)
  then obtain p where "page_prot image_memory 0x20000 p" "bit p 0"
      "xh_util_get_addr_protect image_os ''.....'' image_memory 0x20000 (pathname image_elf) = (0, p)"
    by (auto simp: slot_ok_def)
  moreover have "load64 image_memory 0x20000 = Ret 0x5555"
    by (simp add: load_eval image_memory_def image_bytes_eval)
  ultimately show ?thesis
    using replace_function_correct [of image_os "0x20000" image_memory p "''.....''" image_elf "0x30000" "0x5555" "0x7777"]
      image_contract image_old_func s
    by (auto simp: slot_ok_def disjoint8_def)
qed

text \<open>
  C1: the hook of a symbol returns 0 with the new function in every slot that the relocation
  tables, plain and packed, have for the symbol (of the jump slots the first), the original
  function in the caller's variable, all protections as before and all other memory unchanged.
\<close>

theorem xh_elf_hook_correct:
  assumes "pathname self \<noteq> None" "new_func \<noteq> 0"
    and "xh_elf_find_symidx_by_name m self symbol = Some (Ret (Inr symidx))"
    and "slots = hook_slots (bias_addr self) symidx plts dyns androids"
    and "hook_env os perm0 self m old_func slots"
    and "plain_table m (written slots old_func) (is_use_rela self) (relplt self) (relplt_sz self) plts"
    and "plain_table m (written slots old_func) (is_use_rela self) (reldyn self) (reldyn_sz self) dyns"
    and "packed_table m (written slots old_func) (is_use_rela self) (relandroid self) (relandroid_sz self) androids"
    and "slots_apart slots old_func"
  shows "\<exists>m'. xh_elf_hook os perm0 m self (Some symbol) new_func old_func = Some (Ret 0, m') \<and>
     (\<forall>s\<in>set slots. load64 m' s = Ret new_func) \<and>
     (\<forall>v. old_func \<noteq> 0 \<and> all_readable m old_func 8 \<and> slots \<noteq> [] \<and> v \<noteq> new_func \<and>
        (\<forall>s\<in>set slots. load64 m s = Ret v) \<longrightarrow> load64 m' old_func = Ret v) \<and>
     mprot m' = mprot m \<and> (\<forall>b. \<not> written slots old_func b \<longrightarrow> mbytes m' b = mbytes m b)"
proof -
  let ?m = "foldl (replace_slot new_func old_func) m slots"
  have hook: "xh_elf_hook os perm0 m self (Some symbol) new_func old_func = Some (Ret 0, ?m)"
    using assms(1-8) by (rule hook_effect)
  have out: "same_outside (written slots old_func) m ?m"
    by (rule foldl_same_outside [OF subset_refl]) (simp add: same_outside_def)
  have rd: "load64 m s = Ret (slot_value m s)" "load64 ?m s = Ret (slot_value ?m s)" if "s \<in> set slots" for s
  proof -
    from assms(5) that have "slot_ok os perm0 self m s" by (simp add: hook_env_def)
    then obtain p where p: "page_prot m s p" "bit p 0" "s AND 7 = 0" by (auto simp: slot_ok_def)
    with out have "page_prot ?m s p" by (simp add: page_prot_def same_outside_def)
    with p show "load64 m s = Ret (slot_value m s)" "load64 ?m s = Ret (slot_value ?m s)"
      by (auto intro: load64_get page_slot_readable)
  qed
  have new: "\<forall>s\<in>set slots. load64 ?m s = Ret new_func"
    using foldl_slots_new [OF assms(9) subset_refl] rd(2) by simp
  have old: "load64 ?m old_func = Ret v"
    if v: "old_func \<noteq> 0" "all_readable m old_func 8" "slots \<noteq> []" "v \<noteq> new_func"
      "\<forall>s\<in>set slots. load64 m s = Ret v" for v
  proof -
    have "slot_value m s = v" if "s \<in> set slots" for s using v(5) rd(1) [OF that] that by auto
    then have "slot_value ?m old_func = v"
      using v(1,3,4) by (intro foldl_slots_old [OF assms(9) subset_refl]) auto
    moreover have "all_readable ?m old_func 8"
      using v(2) out by (simp add: all_readable_def readable_def same_outside_def)
    ultimately show ?thesis by (simp add: load64_get)
  qed
  show ?thesis using hook new old out unfolding same_outside_def by blast
qed

theorem xh_elf_hook_correct_witness:
  "\<exists>m'. xh_elf_hook image_os ''.....'' image_memory image_elf (Some ''foo'') 0x7777 0x30000 = Some (Ret 0, m') \<and>
     load64 m' 0x20000 = Ret 0x7777 \<and> load64 m' 0x30000 = Ret 0x5555"
proof -
  let ?plts = "[(0x10000, 0x100000402)] :: (u64 \<times> u64) list"
  let ?slots = "[0x20000] :: addr list"
  let ?W = "written ?slots 0x30000"
  have sl: "?slots = hook_slots (bias_addr image_elf) 1 ?plts [] []"
    by (simp add: hook_slots_def plt_slots_def data_slots_def rel_matches_def XH_ELF_R_SYM_def XH_ELF_R_TYPE_def
        XH_ELF_R_GENERIC_JUMP_SLOT_def image_elf_def xh_elf_zero_def)
  have env: "hook_env image_os ''.....'' image_elf image_memory 0x30000 ?slots"
    using image_contract image_slot_ok image_old_func by (simp add: hook_env_def)
  have "\<not> ?W (0x10300 + of_nat i)" if "i < 16" for i
  proof -
    have "unat (0x10300 + of_nat i :: u64) = 0x10300 + i" using that by (simp add: unat_offset)
    with that show ?thesis by (simp add: written_def not_in_range_below)
  qed
  then have tab: "plain_table image_memory ?W (is_use_rela image_elf) (relplt image_elf) (relplt_sz image_elf) ?plts"
    by (simp add: plain_table_def image_elf_def xh_elf_zero_def)
      (rule rel_reads_table, simp_all add: load_eval image_memory_def image_bytes_eval)
  have apart: "slots_apart ?slots 0x30000" by (simp add: slots_apart_def disjoint8_def)
  have v: "load64 image_memory 0x20000 = Ret 0x5555"
    by (simp add: load_eval image_memory_def image_bytes_eval)
  have r: "all_readable image_memory 0x30000 8"
    by (rule image_old_func)
  from xh_elf_hook_correct [where new_func = "0x7777", OF _ _ image_lookup sl env tab _ _ apart] v r show ?thesis
    by (simp add: plain_table_def packed_table_def image_elf_def xh_elf_zero_def) blast
qed

text \<open>
  C39: the hook returns for every memory, operating system and outcome of the replacements, as
  long as the symbol lookup ends and no plain table touches the end of the address space.
\<close>

theorem xh_elf_hook_terminates:
  assumes "xh_elf_find_symidx_by_name m self symbol \<noteq> None"
    and "table_below_top (relplt self) (relplt_sz self)" "table_below_top (reldyn self) (reldyn_sz self)"
  shows "\<exists>r m'. xh_elf_hook os perm0 m self (Some symbol) new_func old_func = Some (r, m')"
proof -
  let ?fr = "\<lambda>p. xh_elf_find_and_replace_func os perm0 self p new_func old_func"
  have loops: "\<exists>a b. after_loop (hook_plain_table (?fr True i) self (relplt self) (relplt_sz self) m)
      (\<lambda>m. after_loop (hook_plain_table (\<lambda>m rc. ignore_found (?fr False i m rc)) self
                        (reldyn self) (reldyn_sz self) m)
      (\<lambda>m. after_loop (hook_packed_table (\<lambda>m rc. ignore_found (?fr False i m rc)) self m)
      (\<lambda>m. Some (Ret 0, m)))) = Some (a, b)" for i
    by (intro ends_pair after_loop_ends hook_plain_ends [OF assms(2)] hook_plain_ends [OF assms(3)]
        hook_packed_ends) simp
  from assms(1) obtain r where "xh_elf_find_symidx_by_name m self symbol = Some r" by auto
  with loops show ?thesis
    by (cases r) (auto simp: xh_elf_hook_def Let_def split: sum.split)
qed

theorem xh_elf_hook_terminates_witness:
  "\<exists>r m'. xh_elf_hook image_os ''.....'' image_memory image_elf (Some ''foo'') 0x7777 0 = Some (r, m')"
  using xh_elf_hook_terminates [of image_memory image_elf "''foo''"] image_lookup
  by (simp add: table_below_top_def image_elf_def xh_elf_zero_def)

end
