(* ===== verification/Xh_Core.thy ===== *)
theory Xh_Core
  imports Xh_Elf "HOL-Library.List_Lexorder" "HOL-Library.Char_ord"
begin

unbundle bit_operations_syntax

text \<open>
  \<^verbatim>\<open>libxhook/xh_core.c\<close> and its interface \<^verbatim>\<open>xhook.c\<close>: the registered and the ignored hooks, the
  tree of hooked libraries, the refresh that walks \<^verbatim>\<open>/proc/self/maps\<close>, recovery from \<^verbatim>\<open>SIGSEGV\<close>, and
  the thread that refreshes on demand. The variables of the file are the fields of the record
  \<open>core\<close>; the memory of the process is one of them.
\<close>

section \<open>Parameters\<close>

text \<open>
  What the file uses of the C library and the operating system: \<^verbatim>\<open>regcomp\<close> with \<^verbatim>\<open>REG_NOSUB\<close> (\<open>None\<close>
  for a failure), \<^verbatim>\<open>0 == regexec\<close>, whether the n-th allocation succeeds, the results of
  \<^verbatim>\<open>sigemptyset\<close>, \<^verbatim>\<open>sigaction\<close> (with \<^verbatim>\<open>errno\<close>) and \<^verbatim>\<open>pthread_create\<close>, the operating system of
  \<^verbatim>\<open>xh_util.c\<close>, and what the uninitialised stack buffers hold.
\<close>

record 're env =
  regcomp :: "string \<Rightarrow> 're option"
  regexec :: "'re \<Rightarrow> string \<Rightarrow> bool"
  alloc_ok :: "nat \<Rightarrow> bool"
  sigemptyset_ret :: "int \<times> int"
  sigaction_ret :: "int \<times> int"
  pthread_create_ret :: int
  env_os :: os
  util_perm0 :: string
  line0 :: string
  perm0 :: string
  pathname_pos0 :: int

section \<open>State\<close>

record 're xh_core_hook_info_t =
  hi_pathname_regex :: 're
  hi_symbol :: string
  hi_new_func :: u64
  hi_old_func :: addr

record 're xh_core_ignore_info_t =
  ii_pathname_regex :: 're
  ii_symbol :: "string option"

record xh_core_map_info_t =
  mi_pathname :: string
  mi_base_addr :: addr
  mi_elf :: xh_elf_t

text \<open>The action of \<^verbatim>\<open>SIGSEGV\<close>: \<^verbatim>\<open>xh_core_sigsegv_handler\<close>, or one that was there before.\<close>

datatype sig_action = Xh_handler | Other_action nat

record 're core =
  hook_infos :: "'re xh_core_hook_info_t list"
  ignore_infos :: "'re xh_core_ignore_info_t list"
  map_infos :: "xh_core_map_info_t list"
  inited :: bool
  init_ok :: bool
  async_inited :: bool
  async_init_ok :: bool
  refresh_thread_running :: bool
  refresh_thread_do :: bool
  sigsegv_enable :: bool
  sigsegv_flag :: bool
  sigsegv_act :: sig_action
  sigsegv_act_old :: sig_action
  log_debug :: bool
  allocs :: nat
  mem :: memory

text \<open>
  A fragment may fault, do something undefined, or never return (\<open>None\<close>, when the chain of a
  hash table is a cycle); the state it leaves behind comes with the outcome.
\<close>

type_synonym ('re, 'a) crun = "('a run \<times> 're core) option"

definition cbind :: "('re, 'a) crun \<Rightarrow> ('a \<Rightarrow> 're core \<Rightarrow> ('re, 'b) crun) \<Rightarrow> ('re, 'b) crun" where
  "cbind r f =
     (case r of
        None \<Rightarrow> None
      | Some (Ret x, c) \<Rightarrow> f x c
      | Some (Segv, c) \<Rightarrow> Some (Segv, c)
      | Some (Undef, c) \<Rightarrow> Some (Undef, c))"

lemma cbind_simps [simp]:
  "cbind None f = None" "cbind (Some (Ret x, c)) f = f x c"
  "cbind (Some (Segv, c)) f = Some (Segv, c)" "cbind (Some (Undef, c)) f = Some (Undef, c)"
  by (simp_all add: cbind_def)

lemma cbind_cong [fundef_cong]:
  "r = r' \<Longrightarrow> (\<And>x c. r' = Some (Ret x, c) \<Longrightarrow> f x c = f' x c) \<Longrightarrow> cbind r f = cbind r' f'"
  by (auto simp: cbind_def split: option.split run.split)

definition alloc :: "'re env \<Rightarrow> 're core \<Rightarrow> bool \<times> 're core" where
  "alloc env c = (alloc_ok env (allocs c), c\<lparr>allocs := allocs c + 1\<rparr>)"

section \<open>The tree of map items\<close>

text \<open>
  The red-black tree \<^verbatim>\<open>xh_core_map_info_tree\<close> (the macros of \<^verbatim>\<open>tree.h\<close>) as its items in the order of
  \<^verbatim>\<open>xh_core_map_info_cmp\<close>, which is \<^verbatim>\<open>strcmp\<close> on the path names. \<^verbatim>\<open>RB_INSERT\<close> returns the item that
  has the key already.
\<close>

definition xh_core_map_info_cmp :: "xh_core_map_info_t \<Rightarrow> xh_core_map_info_t \<Rightarrow> int" where
  "xh_core_map_info_cmp a b =
     (if mi_pathname a < mi_pathname b then - 1 else if mi_pathname a = mi_pathname b then 0 else 1)"

definition RB_FIND :: "string \<Rightarrow> xh_core_map_info_t list \<Rightarrow> xh_core_map_info_t option" where
  "RB_FIND key t = find (\<lambda>mi. mi_pathname mi = key) t"

fun RB_INSERT :: "xh_core_map_info_t \<Rightarrow> xh_core_map_info_t list \<Rightarrow> xh_core_map_info_t option \<times> xh_core_map_info_t list" where
  "RB_INSERT mi [] = (None, [mi])"
| "RB_INSERT mi (x # xs) =
     (if xh_core_map_info_cmp mi x < 0 then (None, mi # x # xs)
      else if xh_core_map_info_cmp mi x = 0 then (Some x, x # xs)
      else case RB_INSERT mi xs of (r, xs') \<Rightarrow> (r, x # xs'))"

fun RB_REMOVE :: "xh_core_map_info_t \<Rightarrow> xh_core_map_info_t list \<Rightarrow> xh_core_map_info_t list" where
  "RB_REMOVE mi [] = []"
| "RB_REMOVE mi (x # xs) = (if xh_core_map_info_cmp mi x = 0 then xs else x # RB_REMOVE mi xs)"

section \<open>The signal handler\<close>

text \<open>
  In the result of the handler \<open>True\<close> is \<^verbatim>\<open>siglongjmp\<close> to the guard. \<^verbatim>\<open>xh_core_add_sigsegv_handler\<close> leaves
  \<^verbatim>\<open>sa_flags\<close> of its local structure uninitialised; the model has the value the author must have meant,
  zero, with which the handler stays the action of the signal after it has run. With \<^verbatim>\<open>SA_RESETHAND\<close> on
  the stack it would be gone after the first fault.
\<close>

definition xh_core_sigsegv_handler :: "'re core \<Rightarrow> bool \<times> 're core" where
  "xh_core_sigsegv_handler c =
     (if sigsegv_flag c then (True, c) else (False, c\<lparr>sigsegv_act := sigsegv_act_old c\<rparr>))"

definition xh_core_add_sigsegv_handler :: "'re env \<Rightarrow> 're core \<Rightarrow> int \<times> 're core" where
  "xh_core_add_sigsegv_handler env c =
     (if \<not> sigsegv_enable c then (0, c)
      else if fst (sigemptyset_ret env) \<noteq> 0
      then (if snd (sigemptyset_ret env) = 0 then XH_ERRNO_UNKNOWN else snd (sigemptyset_ret env), c)
      else if fst (sigaction_ret env) \<noteq> 0
      then (if snd (sigaction_ret env) = 0 then XH_ERRNO_UNKNOWN else snd (sigaction_ret env), c)
      else (0, c\<lparr>sigsegv_act_old := sigsegv_act c, sigsegv_act := Xh_handler\<rparr>))"

definition xh_core_del_sigsegv_handler :: "'re core \<Rightarrow> 're core" where
  "xh_core_del_sigsegv_handler c =
     (if \<not> sigsegv_enable c then c else c\<lparr>sigsegv_act := sigsegv_act_old c\<rparr>)"

text \<open>
  The guard around \<^verbatim>\<open>sigsetjmp\<close>, the same in \<^verbatim>\<open>xh_core_check_elf_header\<close> and \<^verbatim>\<open>xh_core_hook\<close>: a fault
  is caught when the action of the signal is the handler of the library; otherwise it takes
  the process down.
\<close>

definition sigsegv_guard ::
    "'a \<Rightarrow> ('re core \<Rightarrow> ('re, 'a) crun) \<Rightarrow> 're core \<Rightarrow> ('re, 'a) crun" where
  "sigsegv_guard on_fault body c =
     (if \<not> sigsegv_enable c then body c
      else case body (c\<lparr>sigsegv_flag := True\<rparr>) of
        None \<Rightarrow> None
      | Some (Ret x, c') \<Rightarrow> Some (Ret x, c'\<lparr>sigsegv_flag := False\<rparr>)
      | Some (Undef, c') \<Rightarrow> Some (Undef, c')
      | Some (Segv, c') \<Rightarrow>
          (if sigsegv_act c' = Xh_handler
           then case xh_core_sigsegv_handler c' of
                  (True, c2) \<Rightarrow> Some (Ret on_fault, c2\<lparr>sigsegv_flag := False\<rparr>)
                | (False, c2) \<Rightarrow> Some (Segv, c2)
           else Some (Segv, c')))"

section \<open>Registering\<close>

text \<open>The pointers that may be NULL are options; the memory of a compiled expression leaks on failure.\<close>

definition xh_core_register ::
    "'re env \<Rightarrow> string option \<Rightarrow> string option \<Rightarrow> u64 \<Rightarrow> addr \<Rightarrow> 're core \<Rightarrow> int \<times> 're core" where
  "xh_core_register env pathname_regex_str symbol new_func old_func c =
     (case (pathname_regex_str, symbol) of
        (Some regex_str, Some name) \<Rightarrow>
          if new_func = 0 then (XH_ERRNO_INVAL, c)
          else if inited c then (XH_ERRNO_INVAL, c)
          else (case regcomp env regex_str of
            None \<Rightarrow> (XH_ERRNO_INVAL, c)
          | Some regex \<Rightarrow>
              let (ok, c) = alloc env c in
              if \<not> ok then (XH_ERRNO_NOMEM, c)
              else let (ok, c) = alloc env c in
              if \<not> ok then (XH_ERRNO_NOMEM, c)
              else (0, c\<lparr>hook_infos := hook_infos c @
                     [\<lparr>hi_pathname_regex = regex, hi_symbol = name, hi_new_func = new_func,
                       hi_old_func = old_func\<rparr>]\<rparr>))
      | _ \<Rightarrow> (XH_ERRNO_INVAL, c))"

definition xh_core_ignore ::
    "'re env \<Rightarrow> string option \<Rightarrow> string option \<Rightarrow> 're core \<Rightarrow> int \<times> 're core" where
  "xh_core_ignore env pathname_regex_str symbol c =
     (case pathname_regex_str of
        None \<Rightarrow> (XH_ERRNO_INVAL, c)
      | Some regex_str \<Rightarrow>
          if inited c then (XH_ERRNO_INVAL, c)
          else (case regcomp env regex_str of
            None \<Rightarrow> (XH_ERRNO_INVAL, c)
          | Some regex \<Rightarrow>
              let (ok, c) = alloc env c in
              if \<not> ok then (XH_ERRNO_NOMEM, c)
              else let (ok, c) = (if symbol = None then (True, c) else alloc env c) in
              if \<not> ok then (XH_ERRNO_NOMEM, c)
              else (0, c\<lparr>ignore_infos := ignore_infos c @
                     [\<lparr>ii_pathname_regex = regex, ii_symbol = symbol\<rparr>]\<rparr>)))"

section \<open>Hooking a library\<close>

definition xh_core_check_elf_header :: "addr \<Rightarrow> 're core \<Rightarrow> ('re, int) crun" where
  "xh_core_check_elf_header base =
     sigsegv_guard XH_ERRNO_SEGVERR (\<lambda>c. Some (xh_elf_check_elfheader (mem c) base, c))"

text \<open>
  The inner loop over the ignored hooks: return from the function, ignore the symbol, or go
  on and hook it.
\<close>

datatype ignore_result = Ignore_all | Ignore_symbol | Not_ignored

fun ignore_scan ::
    "'re env \<Rightarrow> string \<Rightarrow> string \<Rightarrow> 're xh_core_ignore_info_t list \<Rightarrow> ignore_result" where
  "ignore_scan env path name [] = Not_ignored"
| "ignore_scan env path name (ii # iis) =
     (if regexec env (ii_pathname_regex ii) path
      then case ii_symbol ii of
             None \<Rightarrow> Ignore_all
           | Some s \<Rightarrow> if s = name then Ignore_symbol else ignore_scan env path name iis
      else ignore_scan env path name iis)"

fun hook_loop ::
    "'re env \<Rightarrow> xh_core_map_info_t \<Rightarrow> 're xh_core_hook_info_t list \<Rightarrow> 're core \<Rightarrow> ('re, unit) crun" where
  "hook_loop env mi [] c = Some (Ret (), c)"
| "hook_loop env mi (hi # his) c =
     (if regexec env (hi_pathname_regex hi) (mi_pathname mi)
      then case ignore_scan env (mi_pathname mi) (hi_symbol hi) (ignore_infos c) of
             Ignore_all \<Rightarrow> Some (Ret (), c)
           | Ignore_symbol \<Rightarrow> hook_loop env mi his c
           | Not_ignored \<Rightarrow>
               (case xh_elf_hook (env_os env) (util_perm0 env) (mem c) (mi_elf mi) (Some (hi_symbol hi))
                       (hi_new_func hi) (hi_old_func hi) of
                  None \<Rightarrow> None
                | Some (Ret _, m) \<Rightarrow> hook_loop env mi his (c\<lparr>mem := m\<rparr>)
                | Some (Segv, m) \<Rightarrow> Some (Segv, c\<lparr>mem := m\<rparr>)
                | Some (Undef, m) \<Rightarrow> Some (Undef, c\<lparr>mem := m\<rparr>))
      else hook_loop env mi his c)"

text \<open>
  \<^verbatim>\<open>xh_elf_init\<close> fills \<^verbatim>\<open>mi->elf\<close> in place: the item comes back with it. When the initialisation faults
  the item is left as it was; what a fault leaves in the structure is never read, since
  \<^verbatim>\<open>xh_elf_init\<close> starts by clearing it.
\<close>

definition xh_core_hook_impl ::
    "'re env \<Rightarrow> xh_core_map_info_t \<Rightarrow> 're core \<Rightarrow> ('re, unit) crun \<times> xh_core_map_info_t" where
  "xh_core_hook_impl env mi c =
     (case xh_elf_init (mem c) (mi_elf mi) (mi_base_addr mi) (Some (mi_pathname mi)) of
        Segv \<Rightarrow> (Some (Segv, c), mi)
      | Undef \<Rightarrow> (Some (Undef, c), mi)
      | Ret (r, elf) \<Rightarrow>
          (if r \<noteq> 0 then Some (Ret (), c)
           else hook_loop env (mi\<lparr>mi_elf := elf\<rparr>) (hook_infos c) c, mi\<lparr>mi_elf := elf\<rparr>))"

definition xh_core_hook ::
    "'re env \<Rightarrow> xh_core_map_info_t \<Rightarrow> 're core \<Rightarrow> ('re, xh_core_map_info_t) crun" where
  "xh_core_hook env mi c =
     cbind (sigsegv_guard () (\<lambda>c. fst (xh_core_hook_impl env mi c)) c)
       (\<lambda>_ c'. Some (Ret (snd (xh_core_hook_impl env mi c)), c'))"

section \<open>The lines of the map\<close>

text \<open>
  \<^verbatim>\<open>sscanf(line, "%lx-%*lx %4s %lx %*x:%*x %*d%n", &base_addr, perm, &offset, &pathname_pos)\<close>: the word
  that was stored in \<^verbatim>\<open>perm\<close>, if any, and, when the three items were converted, the base address,
  the offset and the position that \<^verbatim>\<open>%n\<close> stored, if the scan got that far.
\<close>

definition scan_word4_rest :: "string \<Rightarrow> (string \<times> string) option" where
  "scan_word4_rest s =
     (let s1 = dropWhile isspace s; w = take 4 (takeWhile (\<lambda>c. \<not> isspace c) s1)
      in if s1 = [] then None else Some (w, drop (length w) s1))"

definition sscanf_refresh_line ::
    "string \<Rightarrow> string option \<times> (u64 \<times> u64 \<times> nat option) option" where
  "sscanf_refresh_line line =
     (case scan_hex line of
        Some (base, c # r1) \<Rightarrow>
          (if c \<noteq> CHR ''-'' then (None, None)
           else case scan_hex r1 of
             None \<Rightarrow> (None, None)
           | Some (_, r2) \<Rightarrow>
               (case scan_word4_rest r2 of
                  None \<Rightarrow> (None, None)
                | Some (w, r3) \<Rightarrow>
                    (Some w,
                     case scan_hex r3 of
                       None \<Rightarrow> None
                     | Some (offset, r4) \<Rightarrow>
                         Some (base, offset, map_option (\<lambda>r. length line - length r) (skip_device_inode r4)))))
      | _ \<Rightarrow> (None, None))"

section \<open>Refreshing\<close>

text \<open>
  The local variables that live across lines: the buffers \<^verbatim>\<open>line[512]\<close> and \<^verbatim>\<open>perm[5]\<close>,
  \<^verbatim>\<open>pathname_pos\<close>, and the tree \<^verbatim>\<open>map_info_refreshed\<close>.
\<close>

record refresh_locals =
  line :: string
  perm :: string
  pathname_pos :: int
  refreshed :: "xh_core_map_info_t list"

definition put_line :: "string \<Rightarrow> string \<Rightarrow> string" where
  "put_line buf s = (s @ [CHR 0x00]) @ drop (length s + 1) buf"

function skip_spaces :: "string \<Rightarrow> nat \<Rightarrow> nat" where
  "skip_spaces buf pos = (if isspace (buf ! pos) \<and> pos < 511 then skip_spaces buf (pos + 1) else pos)"
  by pat_completeness auto
termination by (relation "measure (\<lambda>(buf, pos). 511 - pos)") auto

declare skip_spaces.simps [simp del]

text \<open>
  The path name of the line: outside the buffer is undefined, \<open>None\<close> is \<^verbatim>\<open>continue\<close>; the newline at
  its end is overwritten in the buffer.
\<close>

definition get_pathname :: "refresh_locals \<Rightarrow> (string option \<times> refresh_locals) run" where
  "get_pathname l =
     (if pathname_pos l < 0 \<or> pathname_pos l \<ge> 512 then Undef
      else let pos = skip_spaces (line l) (nat (pathname_pos l));
               l = l\<lparr>pathname_pos := int pos\<rparr>;
               path = c_str (drop pos (line l))
           in if pos \<ge> 511 then Ret (None, l)
              else if path = [] then Ret (None, l)
              else let nl = (last path = CHR 0x0A);
                       l = (if nl then l\<lparr>line := (line l)[pos + length path - 1 := CHR 0x00]\<rparr> else l);
                       path = (if nl then butlast path else path)
                   in if path = [] then Ret (None, l)
                      else if hd path = CHR ''['' then Ret (None, l)
                      else Ret (Some path, l))"

text \<open>
  Whether a hook is registered for the path. The label \<^verbatim>\<open>check_continue\<close> stands before the \<^verbatim>\<open>break\<close>: a
  hook whose symbol is ignored ends the search, like one that matches.
\<close>

fun match_loop ::
    "'re env \<Rightarrow> string \<Rightarrow> 're xh_core_ignore_info_t list \<Rightarrow> 're xh_core_hook_info_t list \<Rightarrow> bool" where
  "match_loop env path iis [] = False"
| "match_loop env path iis (hi # his) =
     (if regexec env (hi_pathname_regex hi) path
      then case ignore_scan env path (hi_symbol hi) iis of
             Ignore_all \<Rightarrow> False
           | Ignore_symbol \<Rightarrow> False
           | Not_ignored \<Rightarrow> True
      else match_loop env path iis his)"

text \<open>Write an item back where it lies in a tree.\<close>

definition put_item :: "xh_core_map_info_t \<Rightarrow> xh_core_map_info_t list \<Rightarrow> xh_core_map_info_t list" where
  "put_item mi t = map (\<lambda>x. if mi_pathname x = mi_pathname mi then mi else x) t"

text \<open>
  An item that is in the old tree moves to the new one, \<open>t\<close>, and is hooked again when its base
  changed.
\<close>

definition refresh_existing ::
    "'re env \<Rightarrow> addr \<Rightarrow> xh_core_map_info_t \<Rightarrow> xh_core_map_info_t list \<Rightarrow> 're core
     \<Rightarrow> ('re, xh_core_map_info_t list) crun" where
  "refresh_existing env base mi t c =
     (let c = c\<lparr>map_infos := RB_REMOVE mi (map_infos c)\<rparr> in
      case RB_INSERT mi t of
        (Some _, _) \<Rightarrow> Some (Ret t, c)
      | (None, t) \<Rightarrow>
          (if mi_base_addr mi \<noteq> base
           then cbind (xh_core_hook env (mi\<lparr>mi_base_addr := base\<rparr>) c) (\<lambda>mi c. Some (Ret (put_item mi t), c))
           else Some (Ret t, c)))"

definition refresh_new ::
    "'re env \<Rightarrow> addr \<Rightarrow> string \<Rightarrow> xh_core_map_info_t list \<Rightarrow> 're core
     \<Rightarrow> ('re, xh_core_map_info_t list) crun" where
  "refresh_new env base path t c =
     (let (ok, c) = alloc env c in
      if \<not> ok then Some (Ret t, c)
      else let (ok, c) = alloc env c in
      if \<not> ok then Some (Ret t, c)
      else let mi = \<lparr>mi_pathname = path, mi_base_addr = base, mi_elf = xh_elf_zero\<rparr> in
      case RB_INSERT mi t of
        (Some _, _) \<Rightarrow> Some (Ret t, c)
      | (None, t) \<Rightarrow> cbind (xh_core_hook env mi c) (\<lambda>mi c. Some (Ret (put_item mi t), c)))"

text \<open>One line, once its path name is known.\<close>

definition refresh_path ::
    "'re env \<Rightarrow> addr \<Rightarrow> string \<Rightarrow> xh_core_map_info_t list \<Rightarrow> 're core
     \<Rightarrow> ('re, xh_core_map_info_t list) crun" where
  "refresh_path env base path t c =
     (if \<not> match_loop env path (ignore_infos c) (hook_infos c) then Some (Ret t, c)
      else cbind (xh_core_check_elf_header base c) (\<lambda>r c.
        if r \<noteq> 0 then Some (Ret t, c)
        else case RB_FIND path (map_infos c) of
          Some mi \<Rightarrow> refresh_existing env base mi t c
        | None \<Rightarrow> refresh_new env base path t c))"

text \<open>What the conversions of \<^verbatim>\<open>sscanf\<close> store.\<close>

definition store_word :: "string option \<Rightarrow> refresh_locals \<Rightarrow> refresh_locals" where
  "store_word w l = (case w of None \<Rightarrow> l | Some w \<Rightarrow> l\<lparr>perm := put_perm (perm l) w\<rparr>)"

definition store_pos :: "nat option \<Rightarrow> refresh_locals \<Rightarrow> refresh_locals" where
  "store_pos n l = (case n of None \<Rightarrow> l | Some n \<Rightarrow> l\<lparr>pathname_pos := int n\<rparr>)"

definition refresh_scanned ::
    "'re env \<Rightarrow> addr \<Rightarrow> u64 \<Rightarrow> refresh_locals \<Rightarrow> 're core \<Rightarrow> ('re, refresh_locals) crun" where
  "refresh_scanned env base offset l c =
     (if perm l ! 0 \<noteq> CHR ''r'' then Some (Ret l, c)
      else if perm l ! 3 \<noteq> CHR ''p'' then Some (Ret l, c)
      else if offset \<noteq> 0 then Some (Ret l, c)
      else case get_pathname l of
        Segv \<Rightarrow> Some (Segv, c)
      | Undef \<Rightarrow> Some (Undef, c)
      | Ret (None, l) \<Rightarrow> Some (Ret l, c)
      | Ret (Some path, l) \<Rightarrow>
          cbind (refresh_path env base path (refreshed l) c) (\<lambda>t c. Some (Ret (l\<lparr>refreshed := t\<rparr>), c)))"

definition refresh_line ::
    "'re env \<Rightarrow> string \<Rightarrow> refresh_locals \<Rightarrow> 're core \<Rightarrow> ('re, refresh_locals) crun" where
  "refresh_line env s l c =
     (let l = l\<lparr>line := put_line (line l) s\<rparr> in
      case sscanf_refresh_line (c_str (line l)) of
        (w, None) \<Rightarrow> Some (Ret (store_word w l), c)
      | (w, Some (base, offset, n)) \<Rightarrow> refresh_scanned env base offset (store_pos n (store_word w l)) c)"

function refresh_lines ::
    "'re env \<Rightarrow> string \<Rightarrow> refresh_locals \<Rightarrow> 're core \<Rightarrow> ('re, refresh_locals) crun" where
  "refresh_lines env text l c =
     (case fgets text of
        None \<Rightarrow> Some (Ret l, c)
      | Some (s, rest) \<Rightarrow> cbind (refresh_line env s l c) (refresh_lines env rest))"
  by pat_completeness auto
termination
  by (relation "measure (\<lambda>(env, text, l, c). length text)") (auto simp: fgets_shorter)

declare refresh_lines.simps [simp del]

text \<open>
  The file is opened once and read to its end; the items that are left in the old tree are
  freed and the new tree takes its place.
\<close>

definition xh_core_refresh_impl :: "'re env \<Rightarrow> 're core \<Rightarrow> ('re, unit) crun" where
  "xh_core_refresh_impl env c =
     (case os_maps (env_os env) (mem c) of
        None \<Rightarrow> Some (Ret (), c)
      | Some text \<Rightarrow>
          cbind (refresh_lines env text
                   \<lparr>line = line0 env, perm = perm0 env, pathname_pos = pathname_pos0 env, refreshed = []\<rparr> c)
            (\<lambda>l c. Some (Ret (), c\<lparr>map_infos := refreshed l\<rparr>)))"

section \<open>Initialisation and the interface\<close>

definition xh_core_init_once :: "'re env \<Rightarrow> 're core \<Rightarrow> 're core" where
  "xh_core_init_once env c =
     (if inited c then c
      else let (r, c) = xh_core_add_sigsegv_handler env (c\<lparr>inited := True\<rparr>)
           in if r \<noteq> 0 then c else c\<lparr>init_ok := True\<rparr>)"

definition xh_core_init_async_once :: "'re env \<Rightarrow> 're core \<Rightarrow> 're core" where
  "xh_core_init_async_once env c =
     (if async_inited c then c
      else let c = c\<lparr>async_inited := True, refresh_thread_running := True\<rparr>
           in if pthread_create_ret env \<noteq> 0 then c\<lparr>refresh_thread_running := False\<rparr>
              else c\<lparr>async_init_ok := True\<rparr>)"

definition xh_core_refresh :: "'re env \<Rightarrow> bool \<Rightarrow> 're core \<Rightarrow> ('re, int) crun" where
  "xh_core_refresh env async c =
     (let c = xh_core_init_once env c in
      if \<not> init_ok c then Some (Ret XH_ERRNO_UNKNOWN, c)
      else if async
      then let c = xh_core_init_async_once env c in
           if \<not> async_init_ok c then Some (Ret XH_ERRNO_UNKNOWN, c)
           else Some (Ret 0, c\<lparr>refresh_thread_do := True\<rparr>)
      else cbind (xh_core_refresh_impl env c) (\<lambda>_ c. Some (Ret 0, c)))"

text \<open>
  \<^verbatim>\<open>xh_core_clear\<close> in two parts: up to \<^verbatim>\<open>pthread_join\<close>, which waits for the thread when there is
  one, and after it.
\<close>

definition clear_stop_thread :: "'re core \<Rightarrow> 're core" where
  "clear_stop_thread c = (if async_init_ok c then c\<lparr>refresh_thread_running := False\<rparr> else c)"

definition clear_rest :: "'re core \<Rightarrow> 're core" where
  "clear_rest c =
     (let c = c\<lparr>async_init_ok := False, async_inited := False\<rparr>;
          c = (if init_ok c then (xh_core_del_sigsegv_handler c)\<lparr>init_ok := False\<rparr> else c)
      in c\<lparr>inited := False, map_infos := [], hook_infos := [], ignore_infos := []\<rparr>)"

definition xh_core_enable_debug :: "bool \<Rightarrow> 're core \<Rightarrow> 're core" where
  "xh_core_enable_debug flag c = c\<lparr>log_debug := flag\<rparr>"

definition xh_core_enable_sigsegv_protection :: "bool \<Rightarrow> 're core \<Rightarrow> 're core" where
  "xh_core_enable_sigsegv_protection flag c = c\<lparr>sigsegv_enable := flag\<rparr>"

text \<open>The variables as the program starts.\<close>

definition core_start :: "memory \<Rightarrow> nat \<Rightarrow> 're core" where
  "core_start m act =
     \<lparr>hook_infos = [], ignore_infos = [], map_infos = [], inited = False, init_ok = False,
      async_inited = False, async_init_ok = False, refresh_thread_running = False,
      refresh_thread_do = False, sigsegv_enable = True, sigsegv_flag = False,
      sigsegv_act = Other_action act, sigsegv_act_old = Other_action 0, log_debug = False,
      allocs = 0, mem = m\<rparr>"

end
