(* ===== verification/Xh_Refresh.thy ===== *)
theory Xh_Refresh
  imports Xh_Core
begin

unbundle bit_operations_syntax

text \<open>
  The refresh of \<^verbatim>\<open>xh_core.c\<close>. The tree of libraries is used through the contract of a finite map; the
  old and the new tree of a refresh never share a path. The reader of \<^verbatim>\<open>/proc/self/maps\<close> inverts the
  kernel's line format, so that a refresh is a walk over the mappings; what the walk leaves in the
  tree, what it leaves alone, and that no fault escapes it are invariants of that walk.
\<close>

section \<open>The contract of the tree\<close>

text \<open>
  A finite map with the interface of \<^verbatim>\<open>tree.h\<close>, keyed by the path name: what \<^verbatim>\<open>RB_FIND\<close> returns after
  an insertion and after a removal, and that the order of the items is kept.
\<close>

locale map_tree =
  fixes find_item :: "'k \<Rightarrow> 't \<Rightarrow> 'i option"
    and insert_item :: "'i \<Rightarrow> 't \<Rightarrow> 'i option \<times> 't"
    and remove_item :: "'i \<Rightarrow> 't \<Rightarrow> 't"
    and key :: "'i \<Rightarrow> 'k"
    and inv :: "'t \<Rightarrow> bool"
  assumes find_key: "inv t \<Longrightarrow> find_item k t = Some i \<Longrightarrow> key i = k"
    and insert_new: "inv t \<Longrightarrow> find_item (key i) t = None \<Longrightarrow>
        fst (insert_item i t) = None \<and>
        find_item k (snd (insert_item i t)) = (if k = key i then Some i else find_item k t)"
    and insert_old: "inv t \<Longrightarrow> find_item (key i) t = Some j \<Longrightarrow> insert_item i t = (Some j, t)"
    and insert_inv: "inv t \<Longrightarrow> inv (snd (insert_item i t))"
    and remove_find: "inv t \<Longrightarrow> find_item k (remove_item i t) = (if k = key i then None else find_item k t)"
    and remove_inv: "inv t \<Longrightarrow> inv (remove_item i t)"
begin

text \<open>Two trees with no key in common, as the old and the new tree of a refresh.\<close>

definition apart :: "'t \<Rightarrow> 't \<Rightarrow> bool" where
  "apart s t \<longleftrightarrow> inv s \<and> inv t \<and> (\<forall>k. find_item k s = None \<or> find_item k t = None)"

lemma move_apart:
  assumes "apart s t" "find_item k s = Some i"
  shows "fst (insert_item i t) = None" "apart (remove_item i s) (snd (insert_item i t))"
    "find_item k' (snd (insert_item i t)) = (if k' = k then Some i else find_item k' t)"
proof -
  have k: "key i = k" using assms find_key by (auto simp: apart_def)
  then have n: "find_item (key i) t = None" using assms unfolding apart_def by (metis option.distinct(1))
  have t: "inv t" and s: "inv s" using assms by (simp_all add: apart_def)
  show "fst (insert_item i t) = None" using insert_new [OF t n] by blast
  show "find_item k' (snd (insert_item i t)) = (if k' = k then Some i else find_item k' t)"
    using insert_new [OF t n] k by blast
  have "find_item j (remove_item i s) = None \<or> find_item j (snd (insert_item i t)) = None" for j
    using insert_new [OF t n, of j] remove_find [OF s, of j i] assms(1) unfolding apart_def by auto
  then show "apart (remove_item i s) (snd (insert_item i t))"
    using insert_inv [OF t] remove_inv [OF s] by (simp add: apart_def)
qed

lemma add_apart:
  assumes "apart s t" "find_item (key i) s = None"
  shows "apart s (snd (insert_item i t))"
proof (cases "find_item (key i) t")
  case None
  have t: "inv t" using assms by (simp add: apart_def)
  have "find_item k s = None \<or> find_item k (snd (insert_item i t)) = None" for k
    using insert_new [OF t None, of k] assms unfolding apart_def by auto
  with assms insert_inv [OF t] show ?thesis by (simp add: apart_def)
next
  case (Some j)
  with assms insert_old [of t i j] show ?thesis by (simp add: apart_def)
qed

end

definition keys :: "xh_core_map_info_t list \<Rightarrow> string list" where
  "keys t = map mi_pathname t"

definition tree_inv :: "xh_core_map_info_t list \<Rightarrow> bool" where
  "tree_inv t \<longleftrightarrow> sorted_wrt (<) (keys t)"

lemma keys_simps [simp]: "keys [] = []" "keys (x # xs) = mi_pathname x # keys xs"
  by (simp_all add: keys_def)

lemma cmp_simps [simp]:
  "xh_core_map_info_cmp a b < 0 \<longleftrightarrow> mi_pathname a < mi_pathname b"
  "xh_core_map_info_cmp a b = 0 \<longleftrightarrow> mi_pathname a = mi_pathname b"
  by (simp_all add: xh_core_map_info_cmp_def)

lemma RB_FIND_None: "RB_FIND k t = None \<longleftrightarrow> k \<notin> set (keys t)"
  by (auto simp: RB_FIND_def find_None_iff keys_def)

lemma RB_FIND_Some_key: "RB_FIND k t = Some i \<Longrightarrow> mi_pathname i = k"
  by (auto simp: RB_FIND_def find_Some_iff)

lemma RB_FIND_Cons: "RB_FIND k (x # xs) = (if mi_pathname x = k then Some x else RB_FIND k xs)"
  by (simp add: RB_FIND_def)

lemma snd_RB_INSERT_Cons:
  "snd (RB_INSERT mi (x # xs)) =
     (if mi_pathname mi < mi_pathname x then mi # x # xs
      else if mi_pathname mi = mi_pathname x then x # xs else x # snd (RB_INSERT mi xs))"
  by (simp split: prod.split)

lemma RB_INSERT_keys: "set (keys (snd (RB_INSERT mi t))) = insert (mi_pathname mi) (set (keys t))"
proof (induction t)
  case (Cons x xs)
  then show ?case unfolding snd_RB_INSERT_Cons by (simp add: insert_commute)
qed simp

lemma RB_INSERT_inv: "tree_inv t \<Longrightarrow> tree_inv (snd (RB_INSERT mi t))"
proof (induction t)
  case (Cons x xs)
  have "\<forall>k\<in>set (keys (snd (RB_INSERT mi xs))). mi_pathname x < k"
    if "\<not> mi_pathname mi < mi_pathname x" "mi_pathname mi \<noteq> mi_pathname x"
    using Cons.prems that unfolding RB_INSERT_keys by (simp add: tree_inv_def)
  with Cons show ?case
    unfolding snd_RB_INSERT_Cons by (auto simp: tree_inv_def intro: less_trans)
qed (simp add: tree_inv_def)

lemma RB_INSERT_new:
  "tree_inv t \<Longrightarrow> RB_FIND (mi_pathname mi) t = None \<Longrightarrow>
   fst (RB_INSERT mi t) = None \<and> RB_FIND k (snd (RB_INSERT mi t)) = (if k = mi_pathname mi then Some mi else RB_FIND k t)"
  by (induction mi t rule: RB_INSERT.induct)
    (auto simp: RB_FIND_Cons tree_inv_def split: prod.splits if_splits) 

lemma RB_INSERT_old:
  "tree_inv t \<Longrightarrow> RB_FIND (mi_pathname mi) t = Some j \<Longrightarrow> RB_INSERT mi t = (Some j, t)"
proof (induction mi t rule: RB_INSERT.induct)
  case (2 mi x xs)
  have "mi_pathname mi \<in> set (keys (x # xs))" using 2(3) RB_FIND_None by (metis option.distinct(1))
  then have "\<not> mi_pathname mi < mi_pathname x" using 2(2) by (auto simp: tree_inv_def)
  with 2 show ?case by (auto simp: RB_FIND_Cons tree_inv_def split: if_splits)
qed (simp add: RB_FIND_def)

lemma RB_REMOVE_keys: "tree_inv t \<Longrightarrow> set (keys (RB_REMOVE mi t)) = set (keys t) - {mi_pathname mi}"
  by (induction mi t rule: RB_REMOVE.induct) (auto simp: tree_inv_def)

lemma RB_REMOVE_inv: "tree_inv t \<Longrightarrow> tree_inv (RB_REMOVE mi t)"
proof (induction mi t rule: RB_REMOVE.induct)
  case (2 mi x xs)
  have "tree_inv xs" using 2(2) by (simp add: tree_inv_def)
  moreover have "\<forall>k\<in>set (keys (RB_REMOVE mi xs)). mi_pathname x < k"
    using 2(2) RB_REMOVE_keys [OF \<open>tree_inv xs\<close>, of mi] by (auto simp: tree_inv_def)
  ultimately show ?case using 2 by (auto simp: tree_inv_def)
qed simp

lemma RB_REMOVE_find:
  "tree_inv t \<Longrightarrow> RB_FIND k (RB_REMOVE mi t) = (if k = mi_pathname mi then None else RB_FIND k t)"
proof (induction mi t rule: RB_REMOVE.induct)
  case (2 mi x xs)
  then show ?case by (auto simp: RB_FIND_Cons RB_FIND_None tree_inv_def)
qed (simp add: RB_FIND_def)

interpretation items: map_tree RB_FIND RB_INSERT RB_REMOVE mi_pathname tree_inv
  by unfold_locales
    (simp_all add: RB_FIND_Some_key RB_INSERT_new RB_INSERT_old RB_INSERT_inv RB_REMOVE_find RB_REMOVE_inv)

section \<open>The kernel's line format\<close>

function dec_string :: "nat \<Rightarrow> string" where
  "dec_string n = (if n < 10 then [digit_char n] else dec_string (n div 10) @ [digit_char (n mod 10)])"
  by pat_completeness auto
termination by (relation "measure id") auto

declare dec_string.simps [simp del]

record vma =
  vma_start :: u64
  vma_end :: u64
  vma_perm :: string
  vma_offset :: u64
  vma_major :: u64
  vma_minor :: u64
  vma_inode :: nat
  vma_pad :: nat
  vma_path :: string

definition vma_front :: "vma \<Rightarrow> string" where
  "vma_front v = hex8 (vma_start v) @ ''-'' @ hex8 (vma_end v) @ '' '' @ vma_perm v @ '' '' @
     hex8 (vma_offset v) @ '' '' @ hex_pad 2 (vma_major v) @ '':'' @ hex_pad 2 (vma_minor v) @ '' '' @
     dec_string (vma_inode v)"

definition print_vma :: "vma \<Rightarrow> string" where
  "print_vma v = vma_front v @ replicate (vma_pad v) (CHR '' '') @ vma_path v @ [CHR 0x0A]"

definition vma_ok :: "vma \<Rightarrow> bool" where
  "vma_ok v \<longleftrightarrow> length (vma_perm v) = 4 \<and> list_all (\<lambda>c. \<not> isspace c \<and> c \<noteq> CHR 0x00) (vma_perm v) \<and>
     CHR 0x0A \<notin> set (vma_path v) \<and> CHR 0x00 \<notin> set (vma_path v) \<and>
     (vma_path v \<noteq> [] \<longrightarrow> \<not> isspace (hd (vma_path v))) \<and> 0 < vma_pad v \<and>
     length (print_vma v) \<le> 511"

lemma dec_string_digits: "c \<in> set (dec_string n) \<Longrightarrow> \<exists>d<10. c = digit_char d"
proof (induction n rule: dec_string.induct)
  case (1 n)
  then show ?case
    by (subst (asm) dec_string.simps)
      (auto split: if_splits, metis mod_less_divisor zero_less_numeral)
qed

lemma dec_string_nonempty: "dec_string n \<noteq> []"
  by (subst dec_string.simps) simp

lemma is_digit_iff: "is_digit c \<longleftrightarrow> 48 \<le> (of_char c :: nat) \<and> (of_char c :: nat) \<le> 57"
  by (simp add: is_digit_def less_eq_char_def)

lemma is_digit_digit_char: "d < 10 \<Longrightarrow> is_digit (digit_char d)"
  by (simp add: is_digit_iff digit_char_def)

lemma space_facts [simp]:
  "isspace (CHR '' '')" "isspace (CHR 0x0A)" "\<not> isspace (CHR 0x00)"
  "hex_digit (CHR '' '') = None" "hex_digit (CHR ''-'') = None" "hex_digit (CHR '':'') = None" "\<not> is_digit (CHR '' '')"
  by (simp_all add: isspace_def hex_digit_def is_digit_iff)

lemma skip_decimal_print:
  assumes "r \<noteq> []" "\<not> is_digit (hd r)"
  shows "skip_decimal (CHR '' '' # dec_string n @ r) = Some r"
proof -
  obtain c s where cs: "dec_string n = c # s" using dec_string_nonempty by (cases "dec_string n") auto
  have all: "\<forall>c\<in>set (dec_string n). is_digit c"
    using dec_string_digits is_digit_digit_char by blast
  have "\<exists>d<10. c = digit_char d" using dec_string_digits [of c n] cs by simp
  then have c: "\<not> isspace c" "c \<noteq> CHR ''-''" "c \<noteq> CHR ''+''" by (auto simp: digit_char_props)
  have "dropWhile is_digit (dec_string n @ r) = r"
    using all assms by (cases r) (simp_all add: dropWhile_append)
  then show ?thesis using c all cs by (simp add: skip_decimal_def skip_sign_def Let_def)
qed

lemma scan_word4_rest_perm:
  assumes "length p = 4" "list_all (\<lambda>c. \<not> isspace c \<and> c \<noteq> CHR 0x00) p"
  shows "scan_word4_rest (CHR '' '' # p @ CHR '' '' # r) = Some (p, CHR '' '' # r)"
proof -
  have p: "\<forall>c\<in>set p. \<not> isspace c" using assms(2) by (simp add: list_all_iff)
  then have "dropWhile isspace (p @ CHR '' '' # r) = p @ CHR '' '' # r" using assms(1) by (cases p) auto
  moreover have "takeWhile (\<lambda>c. \<not> isspace c) (p @ CHR '' '' # r) = p"
    using p by (simp add: takeWhile_append)
  ultimately show ?thesis using assms(1) by (auto simp: scan_word4_rest_def Let_def)
qed

lemma scan_hex_space: "scan_hex (CHR '' '' # s) = scan_hex s"
  by (simp add: scan_hex_def)

lemma sscanf_print_vma:
  assumes "vma_ok v"
  shows "sscanf_refresh_line (print_vma v) =
     (Some (vma_perm v), Some (vma_start v, vma_offset v, Some (length (vma_front v))))"
proof -
  let ?tail = "replicate (vma_pad v) (CHR '' '') @ vma_path v @ [CHR 0x0A]"
  let ?r5 = "CHR '' '' # dec_string (vma_inode v) @ ?tail"
  let ?r4 = "CHR '' '' # hex_pad 2 (vma_major v) @ CHR '':'' # hex_pad 2 (vma_minor v) @ ?r5"
  let ?r3 = "CHR '' '' # hex8 (vma_offset v) @ ?r4"
  let ?r2 = "CHR '' '' # vma_perm v @ ?r3"
  let ?r1 = "hex8 (vma_end v) @ ?r2"
  have pv: "print_vma v = hex8 (vma_start v) @ CHR ''-'' # ?r1"
    by (simp add: print_vma_def vma_front_def)
  have tail: "?tail \<noteq> []" "hd ?tail = CHR '' ''" using assms by (simp_all add: vma_ok_def hd_append hd_replicate)
  have s1: "scan_hex (print_vma v) = Some (vma_start v, CHR ''-'' # ?r1)"
    unfolding pv by (rule scan_hex_hex8) simp
  have s2: "scan_hex ?r1 = Some (vma_end v, ?r2)" by (rule scan_hex_hex8) simp
  have s3: "scan_word4_rest ?r2 = Some (vma_perm v, ?r3)"
    using assms by (intro scan_word4_rest_perm) (simp_all add: vma_ok_def)
  have s4: "scan_hex ?r3 = Some (vma_offset v, ?r4)"
    unfolding scan_hex_space by (rule scan_hex_hex8) simp
  have s5: "scan_hex ?r4 = Some (vma_major v, CHR '':'' # hex_pad 2 (vma_minor v) @ ?r5)"
    unfolding scan_hex_space by (rule scan_hex_pad) simp
  have s6: "scan_hex (hex_pad 2 (vma_minor v) @ ?r5) = Some (vma_minor v, ?r5)" by (rule scan_hex_pad) simp
  have s7: "skip_decimal ?r5 = Some ?tail"
    using tail by (intro skip_decimal_print) simp_all
  have "skip_device_inode ?r4 = Some ?tail" by (simp add: skip_device_inode_def s5 s6 s7)
  moreover have "length (print_vma v) - length ?tail = length (vma_front v)" by (simp add: print_vma_def)
  ultimately show ?thesis
    unfolding sscanf_refresh_line_def s1 by (simp add: s2 s3 s4)
qed

lemma skip_spaces_run:
  assumes "\<forall>i<k. isspace (buf ! (pos + i))" "\<not> isspace (buf ! (pos + k))" "pos + k \<le> 511"
  shows "skip_spaces buf pos = pos + k"
  using assms
proof (induction k arbitrary: pos)
  case 0
  then show ?case by (subst skip_spaces.simps) simp
next
  case (Suc k)
  from Suc.prems(1) have "isspace (buf ! pos)" "\<forall>i<k. isspace (buf ! (Suc pos + i))"
    by (auto simp: all_less_Suc_shift)
  with Suc show ?case by (subst skip_spaces.simps) simp
qed

lemma c_str_clean: "CHR 0x00 \<notin> set s \<Longrightarrow> c_str (s @ CHR 0x00 # r) = s"
  by (auto simp: c_str_def takeWhile_append)

lemma print_vma_clean:
  assumes "vma_ok v"
  shows "CHR 0x00 \<notin> set (print_vma v)" "CHR 0x0A \<notin> set (vma_front v)"
proof -
  have d: "c \<noteq> CHR 0x00 \<and> c \<noteq> CHR 0x0A" if "\<exists>d<16. c = digit_char d" for c
    using that digit_char_props(6,7) by auto
  have n: "CHR 0x00 \<notin> set xs \<and> CHR 0x0A \<notin> set xs"
    if xs: "\<And>c. c \<in> set xs \<Longrightarrow> \<exists>d<16. c = digit_char d" for xs
    using d [OF xs, of "CHR 0x00"] d [OF xs, of "CHR 0x0A"] by (meson)
  have h: "CHR 0x00 \<notin> set (hex_pad k w) \<and> CHR 0x0A \<notin> set (hex_pad k w)" for k w
    by (rule n) (rule hex_pad_digits)
  have s: "CHR 0x00 \<notin> set (dec_string n) \<and> CHR 0x0A \<notin> set (dec_string n)" for n
  proof (rule n)
    fix c assume "c \<in> set (dec_string n)"
    then obtain d where "d < 10" "c = digit_char d" using dec_string_digits by blast
    then show "\<exists>d<16. c = digit_char d" by (intro exI [of _ d]) simp
  qed
  have "\<forall>c\<in>set (vma_perm v). \<not> isspace c \<and> c \<noteq> CHR 0x00" using assms by (simp add: vma_ok_def list_all_iff)
  then have p: "CHR 0x00 \<notin> set (vma_perm v)" "CHR 0x0A \<notin> set (vma_perm v)" using space_facts(2) by blast+
  have q: "CHR 0x00 \<notin> set (vma_path v)" using assms by (simp add: vma_ok_def)
  show "CHR 0x00 \<notin> set (print_vma v)" "CHR 0x0A \<notin> set (vma_front v)"
    by (simp_all add: print_vma_def vma_front_def hex8_def h s p q)
qed

lemma fgets_print_vma: "vma_ok v \<Longrightarrow> fgets (print_vma v @ r) = Some (print_vma v, r)"
proof -
  assume v: "vma_ok v"
  let ?s = "vma_front v @ replicate (vma_pad v) (CHR '' '') @ vma_path v"
  have "CHR 0x0A \<notin> set ?s" "length ?s < 511"
    using v print_vma_clean(2) [OF v] by (simp_all add: vma_ok_def print_vma_def)
  then show "fgets (print_vma v @ r) = Some (print_vma v, r)"
    using fgets_take_line [of ?s 511 r] by (simp add: fgets_def print_vma_def)
qed

definition no_path :: "string \<Rightarrow> bool" where
  "no_path p \<longleftrightarrow> p = [] \<or> hd p = CHR ''[''"

lemma put_line_drop:
  "k \<le> length s \<Longrightarrow> drop k (put_line buf s) = drop k s @ CHR 0x00 # drop (length s + 1) buf"
  by (simp add: put_line_def)

lemma get_pathname_print:
  assumes "vma_ok v" "line l = put_line buf (print_vma v)" "length buf = 512"
    and "pathname_pos l = int (length (vma_front v))"
  shows "\<exists>l'. get_pathname l = Ret (if no_path (vma_path v) then None else Some (vma_path v), l') \<and>
     refreshed l' = refreshed l \<and> length (line l') = 512"
proof -
  let ?pos = "length (vma_front v)" and ?p = "vma_path v" and ?pad = "vma_pad v" and ?s = "print_vma v"
  have len: "length ?s \<le> 511" "length ?s = ?pos + ?pad + length ?p + 1"
    using assms(1) by (auto simp: vma_ok_def print_vma_def)
  have ll: "length (line l) = 512" using assms(2,3) len(1) by (simp add: put_line_def)
  have at: "line l ! (?pos + i) = (replicate ?pad (CHR '' '') @ ?p @ [CHR 0x0A, CHR 0x00]) ! i" if "i < ?pad + length ?p + 2" for i
  proof -
    have "line l ! (?pos + i) = drop ?pos (line l) ! i" using ll len that by (simp add: nth_drop)
    also have "drop ?pos (line l) = (replicate ?pad (CHR '' '') @ ?p @ [CHR 0x0A, CHR 0x00]) @ drop (length ?s + 1) buf"
      using assms(2) len(2) by (simp add: put_line_drop) (simp add: print_vma_def)
    also have "\<dots> ! i = (replicate ?pad (CHR '' '') @ ?p @ [CHR 0x0A, CHR 0x00]) ! i"
      by (rule nth_append_left) (use that in simp)
    finally show ?thesis .
  qed
  have sp: "skip_spaces (line l) ?pos = (if ?p = [] then length ?s else ?pos + ?pad)"
  proof (cases "?p = []")
    case True
    have "\<forall>i<?pad + 1. isspace (line l ! (?pos + i))" using at True by (auto simp: nth_append less_Suc_eq)
    moreover have "\<not> isspace (line l ! (?pos + (?pad + 1)))" using at [of "?pad + 1"] True by (simp add: nth_append)
    ultimately show ?thesis using skip_spaces_run [of "?pad + 1" "line l" ?pos] True len by simp
  next
    case False
    have "\<forall>i<?pad. isspace (line l ! (?pos + i))" using at by (simp add: nth_append)
    moreover have "\<not> isspace (line l ! (?pos + ?pad))"
      using at [of ?pad] False assms(1) by (cases ?p) (auto simp: nth_append vma_ok_def)
    ultimately show ?thesis using skip_spaces_run [of ?pad "line l" ?pos] False len by simp
  qed
  have guard: "\<not> (pathname_pos l < 0 \<or> pathname_pos l \<ge> 512)" using assms(4) len by simp
  show ?thesis
  proof (cases "?p = []")
    case True
    have "c_str (drop (length ?s) (line l)) = []" by (simp add: assms(2) put_line_drop c_str_def)
    with True guard ll show ?thesis by (simp add: get_pathname_def assms(4) sp Let_def no_path_def)
  next
    case False
    have "drop (?pos + ?pad) ?s = ?p @ [CHR 0x0A]" by (simp add: print_vma_def)
    then have path: "c_str (drop (?pos + ?pad) (line l)) = ?p @ [CHR 0x0A]"
      using assms(1,2) len(2) by (simp add: put_line_drop c_str_clean vma_ok_def del: append_assoc)
    show ?thesis using False guard ll len
      by (simp add: get_pathname_def assms(4) sp Let_def no_path_def path)
  qed
qed

text \<open>The refresh on the mappings themselves.\<close>

definition vma_wanted :: "vma \<Rightarrow> bool" where
  "vma_wanted v \<longleftrightarrow> vma_perm v ! 0 = CHR ''r'' \<and> vma_perm v ! 3 = CHR ''p'' \<and> vma_offset v = 0 \<and> \<not> no_path (vma_path v)"

definition refresh_vma ::
    "'re env \<Rightarrow> vma \<Rightarrow> xh_core_map_info_t list \<Rightarrow> 're core \<Rightarrow> ('re, xh_core_map_info_t list) crun" where
  "refresh_vma env v t c =
     (if vma_wanted v then refresh_path env (vma_start v) (vma_path v) t c else Some (Ret t, c))"

fun refresh_vmas ::
    "'re env \<Rightarrow> vma list \<Rightarrow> xh_core_map_info_t list \<Rightarrow> 're core \<Rightarrow> ('re, xh_core_map_info_t list) crun" where
  "refresh_vmas env [] t c = Some (Ret t, c)"
| "refresh_vmas env (v # vs) t c = cbind (refresh_vma env v t c) (refresh_vmas env vs)"

text \<open>Two runs agree when their values are related and everything else is equal.\<close>

definition crun_rel :: "('a \<Rightarrow> 'b \<Rightarrow> bool) \<Rightarrow> ('re, 'a) crun \<Rightarrow> ('re, 'b) crun \<Rightarrow> bool" where
  "crun_rel R r s = rel_option (rel_prod (rel_run R) (=)) r s"

lemma rel_run_simps [simp]:
  "rel_run R (Ret x) s \<longleftrightarrow> (\<exists>y. s = Ret y \<and> R x y)" "rel_run R Segv s \<longleftrightarrow> s = Segv" "rel_run R Undef s \<longleftrightarrow> s = Undef"
  by (cases s; simp)+

lemma crun_rel_bind:
  assumes "crun_rel R r s" "\<And>x y c. R x y \<Longrightarrow> crun_rel S (f x c) (g y c)"
  shows "crun_rel S (cbind r f) (cbind s g)"
proof (cases r)
  case (Some a)
  obtain x c where "a = (x, c)" by (cases a)
  with Some assms show ?thesis
    by (cases x) (auto simp: crun_rel_def option_rel_Some1)
qed (use assms in \<open>simp add: crun_rel_def\<close>)

abbreviation same_tree :: "refresh_locals \<Rightarrow> xh_core_map_info_t list \<Rightarrow> bool" where
  "same_tree l t \<equiv> refreshed l = t \<and> length (line l) = 512"

lemma refresh_line_print:
  assumes "vma_ok v" "same_tree l t"
  shows "crun_rel same_tree (refresh_line env (print_vma v) l c) (refresh_vma env v t c)"
proof -
  let ?l = "l\<lparr>line := put_line (line l) (print_vma v), perm := put_perm (perm l) (vma_perm v), pathname_pos := int (length (vma_front v))\<rparr>"
  have len: "length (put_line (line l) (print_vma v)) = 512"
    using assms by (simp add: put_line_def vma_ok_def)
  have cs: "c_str (put_line (line l) (print_vma v)) = print_vma v"
    using print_vma_clean(1) [OF assms(1)] by (simp add: put_line_def c_str_clean)
  have perm: "put_perm (perm l) (vma_perm v) ! 0 = vma_perm v ! 0" "put_perm (perm l) (vma_perm v) ! 3 = vma_perm v ! 3"
    using assms(1) by (simp_all add: put_perm_nth vma_ok_def)
  obtain l' where l': "get_pathname ?l = Ret (if no_path (vma_path v) then None else Some (vma_path v), l')"
      "refreshed l' = t" "length (line l') = 512"
    using get_pathname_print [OF assms(1), of ?l "line l"] assms(2) by auto
  have e: "refresh_line env (print_vma v) l c = refresh_scanned env (vma_start v) (vma_offset v) ?l c"
    by (simp add: refresh_line_def cs sscanf_print_vma [OF assms(1)] store_word_def store_pos_def)
  have rb: "crun_rel same_tree (cbind r (\<lambda>t c. Some (Ret (l'\<lparr>refreshed := t\<rparr>), c))) r" for r :: "('a, xh_core_map_info_t list) crun"
    using l'(3) by (auto simp: crun_rel_def cbind_def split: option.split run.split)
  show ?thesis
    using rb l' len assms(2) perm unfolding e refresh_vma_def vma_wanted_def refresh_scanned_def by (auto simp: crun_rel_def)
qed

lemma refresh_lines_print:
  "list_all vma_ok vs \<Longrightarrow> same_tree l t \<Longrightarrow>
   crun_rel same_tree (refresh_lines env (concat (map print_vma vs)) l c) (refresh_vmas env vs t c)"
proof (induction vs arbitrary: l t c)
  case Nil
  then show ?case by (subst refresh_lines.simps) (simp add: fgets_def crun_rel_def)
next
  case (Cons v vs)
  then show ?case
    by (subst refresh_lines.simps) (auto simp: fgets_print_vma intro!: crun_rel_bind [OF refresh_line_print])
qed

lemma refresh_impl_vmas:
  assumes "os_maps (env_os env) (mem c) = Some (concat (map print_vma vs))" "list_all vma_ok vs" "length (line0 env) = 512"
  shows "xh_core_refresh_impl env c =
     cbind (refresh_vmas env vs [] c) (\<lambda>t c. Some (Ret (), c\<lparr>map_infos := t\<rparr>))"
proof -
  have "crun_rel same_tree (refresh_lines env (concat (map print_vma vs))
          \<lparr>line = line0 env, perm = perm0 env, pathname_pos = pathname_pos0 env, refreshed = []\<rparr> c) (refresh_vmas env vs [] c)"
    using assms by (intro refresh_lines_print) auto
  then show ?thesis unfolding xh_core_refresh_impl_def assms(1) option.case
    by (auto simp: crun_rel_def cbind_def elim!: option.rel_cases run.rel_cases split: option.split run.split)
qed

section \<open>What a refresh leaves alone\<close>

text \<open>
  \<open>ends P r\<close>: when the run ends, its outcome and the state it leaves satisfy \<open>P\<close>.
\<close>

fun ends :: "('a run \<Rightarrow> 're core \<Rightarrow> bool) \<Rightarrow> ('re, 'a) crun \<Rightarrow> bool" where
  "ends P None = True"
| "ends P (Some (r, c)) = P r c"

lemma ends_mono: "ends P r \<Longrightarrow> (\<And>x c. P x c \<Longrightarrow> Q x c) \<Longrightarrow> ends Q r"
  by (cases r) auto

lemma ends_conj: "ends P r \<Longrightarrow> ends Q r \<Longrightarrow> ends (\<lambda>x c. P x c \<and> Q x c) r"
  by (cases r) auto

lemma ends_bind:
  assumes "ends P r" "\<And>x c. P (Ret x) c \<Longrightarrow> ends Q (f x c)" "\<And>c. P Segv c \<Longrightarrow> Q Segv c" "\<And>c. P Undef c \<Longrightarrow> Q Undef c"
  shows "ends Q (cbind r f)"
proof (cases r)
  case (Some a)
  then show ?thesis using assms by (cases a; cases "fst a") auto
qed simp

definition mem_only :: "'re core \<Rightarrow> 're core \<Rightarrow> bool" where
  "mem_only c c' \<longleftrightarrow> (\<exists>m. c' = c\<lparr>mem := m\<rparr>)"

lemma mem_only_refl [simp]: "mem_only c c" "mem_only c (c\<lparr>mem := m\<rparr>)"
  by (auto simp: mem_only_def intro: exI [of _ "mem c"])

lemma mem_only_upd: "mem_only (c\<lparr>mem := m\<rparr>) c' \<Longrightarrow> mem_only c c'"
  by (auto simp: mem_only_def)

lemma hook_loop_mem_only: "ends (\<lambda>_. mem_only c) (hook_loop env mi his c)"
proof (induction his arbitrary: c)
  case (Cons hi his)
  have "ends (\<lambda>_. mem_only c) (hook_loop env mi his (c\<lparr>mem := m\<rparr>))" for m
    by (rule ends_mono [OF Cons.IH]) (rule mem_only_upd)
  with Cons.IH show ?case by (auto split: ignore_result.split option.split run.split)
qed simp

lemma hook_impl_mem_only: "ends (\<lambda>_. mem_only c) (fst (xh_core_hook_impl env mi c))"
  using hook_loop_mem_only by (auto simp: xh_core_hook_impl_def split: run.split)

text \<open>
  What a guarded fragment does to the state, and that a fault does not get past the guard when
  the handler is in place.
\<close>

definition guarded :: "'re core \<Rightarrow> 'a run \<Rightarrow> 're core \<Rightarrow> bool" where
  "guarded c r c' \<longleftrightarrow> (\<exists>m b. c' = c\<lparr>mem := m, sigsegv_flag := b\<rparr>) \<and>
     (r = Segv \<longrightarrow> \<not> (sigsegv_enable c \<and> sigsegv_act c = Xh_handler)) \<and>
     (sigsegv_enable c \<longrightarrow> (\<exists>x. r = Ret x) \<longrightarrow> \<not> sigsegv_flag c')"

lemma guard_guarded:
  assumes "\<And>c. ends (\<lambda>_. mem_only c) (body c)"
  shows "ends (guarded c) (sigsegv_guard on_fault body c)"
proof (cases "sigsegv_enable c")
  case False
  have "ends (\<lambda>r c'. \<exists>m b. c' = c\<lparr>mem := m, sigsegv_flag := b\<rparr>) (body c)"
    by (rule ends_mono [OF assms]) (auto simp: mem_only_def intro!: exI [of _ "sigsegv_flag c"])
  then have "ends (guarded c) (body c)" by (rule ends_mono) (simp add: guarded_def False)
  with False show ?thesis by (simp add: sigsegv_guard_def)
next
  case True
  show ?thesis
  proof (cases "body (c\<lparr>sigsegv_flag := True\<rparr>)")
    case (Some a)
    obtain r c' where a: "a = (r, c')" by (cases a)
    with assms [of "c\<lparr>sigsegv_flag := True\<rparr>"] Some obtain m where "c' = c\<lparr>sigsegv_flag := True, mem := m\<rparr>"
      by (auto simp: mem_only_def)
    then have c': "c' = c\<lparr>mem := m, sigsegv_flag := True\<rparr>" by simp
    then show ?thesis using True Some a
      by (cases r) (auto simp: sigsegv_guard_def guarded_def xh_core_sigsegv_handler_def)
  qed (use True in \<open>simp add: sigsegv_guard_def\<close>)
qed

lemma check_header_guarded: "ends (guarded c) (xh_core_check_elf_header base c)"
  unfolding xh_core_check_elf_header_def by (rule guard_guarded) simp

lemma hook_item: "mi_pathname (snd (xh_core_hook_impl env mi c)) = mi_pathname mi"
  "mi_base_addr (snd (xh_core_hook_impl env mi c)) = mi_base_addr mi"
  by (auto simp: xh_core_hook_impl_def split: run.split)

lemma hook_guarded:
  "ends (\<lambda>r c'. guarded c r c' \<and> (\<forall>i. r = Ret i \<longrightarrow> mi_pathname i = mi_pathname mi \<and> mi_base_addr i = mi_base_addr mi))
     (xh_core_hook env mi c)"
  unfolding xh_core_hook_def
proof (rule ends_bind)
  show "ends (guarded c) (sigsegv_guard () (\<lambda>c. fst (xh_core_hook_impl env mi c)) c)"
    by (rule guard_guarded) (rule hook_impl_mem_only)
qed (auto simp: guarded_def hook_item)

section \<open>The table of libraries\<close>

text \<open>
  The state during a refresh: the old tree shrinks, the new one grows, and they never share a
  path. An item of the new tree has the base address of a mapping the walk has passed.
\<close>

definition frame :: "'re core \<Rightarrow> 're core \<Rightarrow> bool" where
  "frame c c' \<longleftrightarrow> (\<exists>m t n b. c' = c\<lparr>map_infos := t, allocs := n, mem := m, sigsegv_flag := b\<rparr>)"

lemma frameI: "c' = c\<lparr>map_infos := t, allocs := n, mem := m, sigsegv_flag := b\<rparr> \<Longrightarrow> frame c c'"
  unfolding frame_def by blast

lemma frame_refl [simp]: "frame c c" "frame c (c\<lparr>map_infos := t\<rparr>)" "frame c (c\<lparr>allocs := n\<rparr>)"
proof -
  show "frame c c" by (rule frameI [where t = "map_infos c" and n = "allocs c" and m = "mem c" and b = "sigsegv_flag c"]) simp
  show "frame c (c\<lparr>map_infos := t\<rparr>)" by (rule frameI [where t = t and n = "allocs c" and m = "mem c" and b = "sigsegv_flag c"]) simp
  show "frame c (c\<lparr>allocs := n\<rparr>)" by (rule frameI [where t = "map_infos c" and n = n and m = "mem c" and b = "sigsegv_flag c"]) simp
qed

lemma frame_trans: "frame a b \<Longrightarrow> frame b c \<Longrightarrow> frame a c"
  unfolding frame_def [of a b] frame_def [of b c] by (elim exE) (rule frameI, simp)

lemma guarded_frame: "guarded c r c' \<Longrightarrow> frame c c' \<and> map_infos c' = map_infos c"
proof -
  assume "guarded c r c'"
  then obtain m b where "c' = c\<lparr>mem := m, sigsegv_flag := b\<rparr>" by (auto simp: guarded_def)
  then show ?thesis by (auto intro: frameI [where t = "map_infos c" and n = "allocs c" and m = m and b = b])
qed

lemma frame_fields:
  "frame c c' \<Longrightarrow> hook_infos c' = hook_infos c" "frame c c' \<Longrightarrow> ignore_infos c' = ignore_infos c"
  "frame c c' \<Longrightarrow> sigsegv_enable c' = sigsegv_enable c" "frame c c' \<Longrightarrow> sigsegv_act c' = sigsegv_act c"
  by (auto simp: frame_def)

definition item_from :: "vma list \<Rightarrow> xh_core_map_info_t \<Rightarrow> bool" where
  "item_from vs i \<longleftrightarrow> (\<exists>v\<in>set vs. vma_wanted v \<and> vma_path v = mi_pathname i \<and> vma_start v = mi_base_addr i)"

lemma put_item_keys [simp]: "keys (put_item i t) = keys t"
  by (simp add: put_item_def keys_def)

lemma put_item_set: "set (put_item i t) \<subseteq> insert i {x \<in> set t. mi_pathname x \<noteq> mi_pathname i}"
  by (auto simp: put_item_def)

lemma apart_iff: "items.apart s t \<longleftrightarrow> tree_inv s \<and> tree_inv t \<and> set (keys s) \<inter> set (keys t) = {}"
  unfolding items.apart_def RB_FIND_None by auto

lemma put_item_apart: "items.apart s t \<Longrightarrow> items.apart s (put_item i t)"
  by (simp add: apart_iff tree_inv_def)

lemma RB_INSERT_set: "set (snd (RB_INSERT mi t)) \<subseteq> insert mi (set t)"
  by (induction mi t rule: RB_INSERT.induct) (auto split: prod.splits)

text \<open>
  One mapping: the trees stay apart, the new tree keeps its items or gains one with the path and
  the start of the mapping, and no fault gets out when the handler is in place.
\<close>

definition path_step ::
    "string \<Rightarrow> addr \<Rightarrow> xh_core_map_info_t list \<Rightarrow> 're core \<Rightarrow> xh_core_map_info_t list run \<Rightarrow> 're core \<Rightarrow> bool" where
  "path_step path base t c r c' \<longleftrightarrow>
     frame c c' \<and> (r = Segv \<longrightarrow> \<not> (sigsegv_enable c \<and> sigsegv_act c = Xh_handler)) \<and>
     (\<forall>t'. r = Ret t' \<longrightarrow> items.apart (map_infos c') t' \<and>
        (\<forall>i\<in>set t'. i \<in> set t \<or> mi_pathname i = path \<and> mi_base_addr i = base))"

lemma guarded_segv: "guarded c r c' \<Longrightarrow> r = Segv \<Longrightarrow> \<not> (sigsegv_enable c \<and> sigsegv_act c = Xh_handler)"
  by (simp add: guarded_def)

lemma hook_step:
  assumes "items.apart (map_infos c) t" "mi_pathname mi = path" "mi_base_addr mi = base"
    and "\<forall>i\<in>set t. i \<in> set t0 \<or> mi_pathname i = path"
  shows "ends (path_step path base t0 c) (cbind (xh_core_hook env mi c) (\<lambda>mi c. Some (Ret (put_item mi t), c)))"
proof (rule ends_bind [OF hook_guarded])
  fix i :: xh_core_map_info_t and c' assume g: "guarded c (Ret i) c' \<and>
      (\<forall>j. Ret i = Ret j \<longrightarrow> mi_pathname j = mi_pathname mi \<and> mi_base_addr j = mi_base_addr mi)"
  then have i: "mi_pathname i = path" "mi_base_addr i = base" using assms by auto
  from g guarded_frame have f: "frame c c'" "map_infos c' = map_infos c" by blast+
  have "j \<in> set t0 \<or> mi_pathname j = path \<and> mi_base_addr j = base" if "j \<in> set (put_item i t)" for j
    using subsetD [OF put_item_set that] assms(4) i by auto
  with f put_item_apart [OF assms(1)] show "ends (path_step path base t0 c) (Some (Ret (put_item i t), c'))"
    by (simp add: path_step_def)
qed (auto simp: path_step_def dest: guarded_frame guarded_segv)

lemma existing_step:
  assumes "items.apart (map_infos c) t" "RB_FIND path (map_infos c) = Some mi"
  shows "ends (path_step path base t c) (refresh_existing env base mi t c)"
proof -
  note mv = items.move_apart [OF assms]
  have k: "mi_pathname mi = path" using assms(2) by (rule RB_FIND_Some_key)
  obtain t' where t': "RB_INSERT mi t = (None, t')" using mv(1) by (cases "RB_INSERT mi t") auto
  let ?c = "c\<lparr>map_infos := RB_REMOVE mi (map_infos c)\<rparr>"
  have ap: "items.apart (map_infos ?c) t'" using mv(2) t' by simp
  have mem: "\<forall>i\<in>set t'. i \<in> set t \<or> i = mi" using RB_INSERT_set [of mi t] t' by auto
  have "ends (path_step path base t ?c) (cbind (xh_core_hook env (mi\<lparr>mi_base_addr := base\<rparr>) ?c) (\<lambda>mi c. Some (Ret (put_item mi t'), c)))"
    using mem k by (intro hook_step ap) auto
  then have "ends (path_step path base t c) (cbind (xh_core_hook env (mi\<lparr>mi_base_addr := base\<rparr>) ?c) (\<lambda>mi c. Some (Ret (put_item mi t'), c)))"
    by (rule ends_mono) (auto simp: path_step_def intro: frame_trans [OF frame_refl(2)])
  moreover have "path_step path base t c (Ret t') ?c" if "mi_base_addr mi = base"
    using mem k that ap by (auto simp: path_step_def)
  ultimately show ?thesis by (auto simp: refresh_existing_def t' Let_def)
qed

lemma new_step:
  assumes "items.apart (map_infos c) t" "RB_FIND path (map_infos c) = None"
  shows "ends (path_step path base t c) (refresh_new env base path t c)"
proof -
  let ?mi = "\<lparr>mi_pathname = path, mi_base_addr = base, mi_elf = xh_elf_zero\<rparr>"
  let ?c1 = "c\<lparr>allocs := allocs c + 1\<rparr>" and ?c = "c\<lparr>allocs := allocs c + 2\<rparr>"
  obtain r t' where t': "RB_INSERT ?mi t = (r, t')" by (cases "RB_INSERT ?mi t")
  have ap: "items.apart (map_infos ?c) t'"
    using items.add_apart [OF assms(1), of ?mi] assms(2) t' by simp
  have mem: "\<forall>i\<in>set t'. i \<in> set t \<or> i = ?mi" using RB_INSERT_set [of ?mi t] t' by auto
  have "ends (path_step path base t ?c) (cbind (xh_core_hook env ?mi ?c) (\<lambda>mi c. Some (Ret (put_item mi t'), c)))"
    using mem by (intro hook_step ap) auto
  then have "ends (path_step path base t c) (cbind (xh_core_hook env ?mi ?c) (\<lambda>mi c. Some (Ret (put_item mi t'), c)))"
    by (rule ends_mono) (auto simp: path_step_def intro: frame_trans [OF frame_refl(3)])
  moreover have "path_step path base t c (Ret t) ?c1" "path_step path base t c (Ret t) ?c"
    using assms(1) by (simp_all add: path_step_def)
  ultimately show ?thesis by (cases r) (auto simp: refresh_new_def alloc_def t' Let_def)
qed

lemma refresh_path_step:
  assumes "items.apart (map_infos c) t"
  shows "ends (path_step path base t c) (refresh_path env base path t c)"
proof (cases "match_loop env path (ignore_infos c) (hook_infos c)")
  case True
  have "ends (path_step path base t c) (cbind (xh_core_check_elf_header base c) (\<lambda>r c.
        if r \<noteq> 0 then Some (Ret t, c)
        else case RB_FIND path (map_infos c) of
          Some mi \<Rightarrow> refresh_existing env base mi t c
        | None \<Rightarrow> refresh_new env base path t c))"
  proof (rule ends_bind [OF check_header_guarded])
    fix r :: int and c' assume "guarded c (Ret r) c'"
    then have f: "frame c c'" "map_infos c' = map_infos c" using guarded_frame by blast+
    have ap: "items.apart (map_infos c') t" using assms f(2) by simp
    have lift: "ends (path_step path base t c) x" if "ends (path_step path base t c') x" for x
      by (rule ends_mono [OF that]) (use f(1) in \<open>auto simp: path_step_def frame_fields intro: frame_trans\<close>)
    have "path_step path base t c (Ret t) c'" using f ap by (simp add: path_step_def)
    then show "ends (path_step path base t c) (if r \<noteq> 0 then Some (Ret t, c')
        else case RB_FIND path (map_infos c') of
          Some mi \<Rightarrow> refresh_existing env base mi t c'
        | None \<Rightarrow> refresh_new env base path t c')"
      using lift [OF existing_step [OF ap]] lift [OF new_step [OF ap]] by (auto split: option.split)
  qed (auto simp: path_step_def dest: guarded_frame guarded_segv)
  with True show ?thesis by (simp add: refresh_path_def)
qed (simp add: refresh_path_def path_step_def assms)

lemma path_step_match:
  "\<not> match_loop env path (ignore_infos c) (hook_infos c) \<Longrightarrow> refresh_path env base path t c = Some (Ret t, c)"
  by (simp add: refresh_path_def)

definition item_ok :: "'re env \<Rightarrow> 're core \<Rightarrow> vma list \<Rightarrow> xh_core_map_info_t \<Rightarrow> bool" where
  "item_ok env c0 vs i \<longleftrightarrow> item_from vs i \<and> match_loop env (mi_pathname i) (ignore_infos c0) (hook_infos c0)"

definition walk_inv ::
    "'re env \<Rightarrow> 're core \<Rightarrow> vma list \<Rightarrow> xh_core_map_info_t list run \<Rightarrow> 're core \<Rightarrow> bool" where
  "walk_inv env c0 vs r c \<longleftrightarrow>
     frame c0 c \<and> (r = Segv \<longrightarrow> \<not> (sigsegv_enable c0 \<and> sigsegv_act c0 = Xh_handler)) \<and>
     (\<forall>t. r = Ret t \<longrightarrow> items.apart (map_infos c) t \<and>
        (\<forall>i\<in>set t. item_ok env c0 vs i))"

lemma refresh_vma_step:
  assumes "walk_inv env c0 vs (Ret t) c" "v \<in> set vs"
  shows "ends (walk_inv env c0 vs) (refresh_vma env v t c)"
proof (cases "vma_wanted v \<and> match_loop env (vma_path v) (ignore_infos c) (hook_infos c)")
  case True
  have fr: "frame c0 c" and ap: "items.apart (map_infos c) t" using assms(1) by (simp_all add: walk_inv_def)
  have ok: "item_ok env c0 vs i" if "mi_pathname i = vma_path v" "mi_base_addr i = vma_start v" for i
    using that True assms(2) fr by (auto simp: item_ok_def item_from_def frame_fields)
  have "ends (walk_inv env c0 vs) (refresh_path env (vma_start v) (vma_path v) t c)"
    by (rule ends_mono [OF refresh_path_step [OF ap]])
      (use assms(1) ok fr in \<open>auto simp: path_step_def walk_inv_def frame_fields intro: frame_trans\<close>)
  with True show ?thesis by (simp add: refresh_vma_def)
next
  case False
  then have "refresh_vma env v t c = Some (Ret t, c)" by (auto simp: refresh_vma_def path_step_match)
  with assms(1) show ?thesis by simp
qed

lemma refresh_vmas_walk:
  "walk_inv env c0 vs (Ret t) c \<Longrightarrow> set us \<subseteq> set vs \<Longrightarrow> ends (walk_inv env c0 vs) (refresh_vmas env us t c)"
proof (induction us arbitrary: t c)
  case (Cons u us)
  then show ?case by (auto intro: ends_bind [OF refresh_vma_step])
qed simp

lemma refresh_vmas_table:
  assumes "tree_inv (map_infos c)"
  shows "ends (walk_inv env c vs) (refresh_vmas env vs [] c)"
  by (rule refresh_vmas_walk) (use assms in \<open>auto simp: walk_inv_def apart_iff tree_inv_def\<close>)

section \<open>A sample process\<close>

definition sample_vma :: vma where
  "sample_vma = \<lparr>vma_start = 0x10000, vma_end = 0x20000, vma_perm = ''r-xp'', vma_offset = 0, vma_major = 0xfe,
     vma_minor = 0, vma_inode = 12, vma_pad = 3, vma_path = ''/a.so''\<rparr>"

definition header_memory :: memory where
  "header_memory = \<lparr>mbytes = (\<lambda>_. 0)(0x10000 := 127, 0x10001 := 69, 0x10002 := 76, 0x10003 := 70, 0x10004 := 2,
     0x10005 := 1, 0x10006 := 1, 0x10010 := 3, 0x10012 := 183, 0x10014 := 1), mprot = (\<lambda>_. Some 1)\<rparr>"

definition sample_os :: os where
  "sample_os = \<lparr>os_maps = (\<lambda>_. Some (concat (map print_vma [sample_vma]))), os_mprotect = (\<lambda>m _ _ _. (0, 0, m))\<rparr>"

definition sample_env :: "string env" where
  "sample_env = \<lparr>regcomp = Some, regexec = (=), alloc_ok = (\<lambda>_. True), sigemptyset_ret = (0, 0),
     sigaction_ret = (0, 0), pthread_create_ret = 0, env_os = Xh_Refresh.sample_os, util_perm0 = replicate 5 (CHR 0x00),
     line0 = replicate 512 (CHR 0x00), perm0 = replicate 5 (CHR 0x00), pathname_pos0 = 0\<rparr>"

definition sample_item :: xh_core_map_info_t where
  "sample_item = \<lparr>mi_pathname = ''/a.so'', mi_base_addr = 0x10000, mi_elf = xh_elf_zero\<rparr>"

definition sample_hook :: "string \<Rightarrow> string xh_core_hook_info_t" where
  "sample_hook s = \<lparr>hi_pathname_regex = ''/a.so'', hi_symbol = s, hi_new_func = 0x7000, hi_old_func = 0\<rparr>"

definition sample_core :: "string core" where
  "sample_core = (core_start header_memory 0)\<lparr>hook_infos := [sample_hook ''open''], map_infos := [sample_item],
     inited := True, init_ok := True, sigsegv_act := Xh_handler\<rparr>"

lemma sample_vma_ok: "vma_ok sample_vma" "vma_wanted sample_vma"
  by (simp_all add: sample_vma_def vma_ok_def vma_wanted_def no_path_def print_vma_def vma_front_def isspace_def hex8_def
      hex_pad_def hex_string.simps dec_string.simps)

lemma sample_header: "xh_elf_check_elfheader header_memory 0x10000 = Ret 0"
  by (simp add: xh_elf_check_elfheader_def read_ident_def e_ident_def e_type_def e_machine_def e_version_def
      load_le_numeral load16_def load32_def load8_def readable_def header_memory_def ELFMAG_def ELFCLASS64_def
      ELFDATA2LSB_def EV_CURRENT_def ET_EXEC_def ET_DYN_def EM_AARCH64_def)

lemmas sample_defs = sample_core_def core_start_def sample_env_def Xh_Refresh.sample_os_def sample_item_def sample_hook_def

lemma sample_trees: "items.apart (map_infos sample_core) []"
  by (simp add: apart_iff tree_inv_def sample_defs)

lemma sample_facts:
  "os_maps (env_os sample_env) (mem sample_core) = Some (concat (map print_vma [sample_vma]))"
  "list_all vma_ok [sample_vma]" "length (line0 sample_env) = 512" "tree_inv (map_infos sample_core)"
  "match_loop sample_env ''/a.so'' (ignore_infos sample_core) (hook_infos sample_core)"
  "RB_FIND ''/a.so'' (map_infos sample_core) = Some sample_item"
  "sigsegv_enable sample_core" "sigsegv_act sample_core = Xh_handler" "\<not> sigsegv_flag sample_core" "mem sample_core = header_memory"
  by (simp_all add: sample_vma_ok sample_defs tree_inv_def RB_FIND_def)

lemma sample_walk: "refresh_vmas sample_env [sample_vma] t c = refresh_path sample_env 0x10000 ''/a.so'' t c"
proof -
  have "vma_start sample_vma = 0x10000" "vma_path sample_vma = ''/a.so''" by (simp_all add: sample_vma_def)
  then show ?thesis
    by (simp add: refresh_vma_def sample_vma_ok cbind_def split: option.split run.split)
qed

lemma sample_path:
  "refresh_path sample_env 0x10000 ''/a.so'' [] sample_core = Some (Ret [sample_item], sample_core\<lparr>map_infos := []\<rparr>)"
proof -
  have c: "xh_core_check_elf_header 0x10000 sample_core = Some (Ret 0, sample_core)"
    using sample_header sample_facts(9,10) by (simp add: xh_core_check_elf_header_def sigsegv_guard_def)
  have "mi_base_addr sample_item = 0x10000" "RB_REMOVE sample_item (map_infos sample_core) = []"
    by (simp_all add: sample_defs)
  then show ?thesis by (simp add: refresh_path_def sample_facts(5,6) c refresh_existing_def)
qed

section \<open>Properties\<close>

text \<open>
  C12: On the text the kernel prints, a refresh is the walk over the mappings themselves: the reader
  finds the start address, the permissions, the offset and the path of every line, whatever the
  buffers held before, and treats the lines that are not private, readable, at offset 0 and named
  as if they were not there.
\<close>

theorem refresh_impl_mappings:
  assumes "os_maps (env_os env) (mem c) = Some (concat (map print_vma vs))" "list_all vma_ok vs" "length (line0 env) = 512"
  shows "xh_core_refresh_impl env c =
     cbind (refresh_vmas env vs [] c) (\<lambda>t c. Some (Ret (), c\<lparr>map_infos := t\<rparr>))"
  by (rule refresh_impl_vmas [OF assms])

theorem refresh_impl_mappings_witness:
  "xh_core_refresh_impl sample_env sample_core =
     cbind (refresh_path sample_env 0x10000 ''/a.so'' [] sample_core) (\<lambda>t c. Some (Ret (), c\<lparr>map_infos := t\<rparr>))"
  using refresh_impl_mappings [OF sample_facts(1-3)] unfolding sample_walk .

text \<open>
  C5: After a refresh over the kernel's lines the tree of hooked libraries is ordered with no path
  twice; every item has the path and the start address of a mapping that is private, readable, at
  offset 0 and named, and whose path some registered hook matches; the lists of hooks are as they
  were.
\<close>

theorem refresh_table:
  assumes "os_maps (env_os env) (mem c) = Some (concat (map print_vma vs))" "list_all vma_ok vs" "length (line0 env) = 512"
    and "tree_inv (map_infos c)" "xh_core_refresh_impl env c = Some (Ret (), c')"
  shows "tree_inv (map_infos c') \<and>
     (\<forall>i\<in>set (map_infos c'). item_from vs i \<and> match_loop env (mi_pathname i) (ignore_infos c) (hook_infos c)) \<and>
     hook_infos c' = hook_infos c \<and> ignore_infos c' = ignore_infos c"
proof -
  from assms(5) obtain t c1 where r: "refresh_vmas env vs [] c = Some (Ret t, c1)" "c' = c1\<lparr>map_infos := t\<rparr>"
    unfolding refresh_impl_vmas [OF assms(1-3)]
    by (auto simp: cbind_def split: option.splits run.splits)
  with refresh_vmas_table [OF assms(4), of env vs] show ?thesis
    by (auto simp: walk_inv_def apart_iff frame_fields item_ok_def)
qed

theorem refresh_table_witness:
  "\<exists>c'. xh_core_refresh_impl sample_env sample_core = Some (Ret (), c') \<and> tree_inv (map_infos c') \<and>
     item_from [sample_vma] sample_item \<and> map_infos c' = [sample_item]"
proof -
  have "xh_core_refresh_impl sample_env sample_core = Some (Ret (), sample_core\<lparr>map_infos := [sample_item]\<rparr>)"
    unfolding refresh_impl_vmas [OF sample_facts(1-3)] sample_walk sample_path by simp
  from refresh_table [OF sample_facts(1-4) this] this show ?thesis by auto
qed

text \<open>
  C25: With the protection enabled and the handler in place no access of a refresh to the memory of a
  library, however damaged its image, takes the process down with SIGSEGV. The handler stays in place
  after it has run, as it does when \<^verbatim>\<open>sa_flags\<close>, which the code does not set, happens to be zero.
\<close>

theorem refresh_fault_contained:
  assumes "os_maps (env_os env) (mem c) = Some (concat (map print_vma vs))" "list_all vma_ok vs" "length (line0 env) = 512"
    and "tree_inv (map_infos c)" "sigsegv_enable c" "sigsegv_act c = Xh_handler"
  shows "xh_core_refresh_impl env c \<noteq> Some (Segv, c')"
proof -
  have "refresh_vmas env vs [] c \<noteq> Some (Segv, c1)" for c1
    using refresh_vmas_table [OF assms(4), of env vs] assms(5,6) by (auto simp: walk_inv_def)
  then show ?thesis
    unfolding refresh_impl_vmas [OF assms(1-3)]
    by (auto simp: cbind_def split: option.splits run.splits)
qed

theorem refresh_fault_contained_witness:
  "xh_core_refresh_impl sample_env sample_core \<noteq> Some (Segv, sample_core)"
  by (rule refresh_fault_contained [OF sample_facts(1-4,7,8)])

section \<open>Libraries that were there before\<close>

text \<open>
  A library that is in the tree with the base address it still has is moved to the new tree and
  nothing else happens: no hook runs again and memory is not touched.
\<close>

theorem unchanged_library_not_hooked_again:
  assumes "items.apart (map_infos c) t" "RB_FIND path (map_infos c) = Some mi" "mi_base_addr mi = base"
    and "match_loop env path (ignore_infos c) (hook_infos c)" "xh_elf_check_elfheader (mem c) base = Ret 0" "\<not> sigsegv_flag c"
  shows "refresh_path env base path t c =
     Some (Ret (snd (RB_INSERT mi t)), c\<lparr>map_infos := RB_REMOVE mi (map_infos c)\<rparr>) \<and>
     RB_FIND path (snd (RB_INSERT mi t)) = Some mi"
proof -
  note mv = items.move_apart [OF assms(1,2)]
  obtain t' where t': "RB_INSERT mi t = (None, t')" using mv(1) by (cases "RB_INSERT mi t") auto
  have "xh_core_check_elf_header base c = Some (Ret 0, c)"
    using assms(5,6) by (simp add: xh_core_check_elf_header_def sigsegv_guard_def)
  with assms t' mv(3) [of path] show ?thesis by (simp add: refresh_path_def refresh_existing_def Let_def)
qed

theorem unchanged_library_not_hooked_again_witness:
  "refresh_path sample_env 0x10000 ''/a.so'' [] sample_core = Some (Ret [sample_item], sample_core\<lparr>map_infos := []\<rparr>)"
  using unchanged_library_not_hooked_again [OF sample_trees sample_facts(6) _ sample_facts(5), of "0x10000"] sample_header
  by (simp add: sample_facts(9,10)) (simp add: sample_defs)

section \<open>Ignored hooks\<close>

text \<open>
  When the first hook that matches a path has its symbol ignored, the library is skipped, although
  a hook registered after it for another symbol matches, is not ignored, and would be installed by
  the loop that hooks a library.
\<close>

theorem ignored_symbol_suppresses_later_hooks:
  assumes "regexec env (hi_pathname_regex hi1) path" "regexec env (hi_pathname_regex hi2) path"
    and "ignore_scan env path (hi_symbol hi1) iis = Ignore_symbol" "ignore_scan env path (hi_symbol hi2) iis = Not_ignored"
  shows "match_loop env path iis [hi2] \<and> \<not> match_loop env path iis [hi1, hi2] \<and>
     (ignore_infos c = iis \<longrightarrow> mi_pathname mi = path \<longrightarrow> hook_loop env mi [hi1, hi2] c = hook_loop env mi [hi2] c)"
  using assms by simp

theorem ignored_symbol_suppresses_later_hooks_witness:
  "\<not> match_loop sample_env ''/a.so'' [\<lparr>ii_pathname_regex = ''/a.so'', ii_symbol = Some ''open''\<rparr>]
      [sample_hook ''open'', sample_hook ''read'']"
  using ignored_symbol_suppresses_later_hooks [of sample_env "sample_hook ''open''" "''/a.so''" "sample_hook ''read''"
      "[\<lparr>ii_pathname_regex = ''/a.so'', ii_symbol = Some ''open''\<rparr>]"]
  by (simp add: sample_defs)

end
