(* ===== verification/Xh_Thread.thy ===== *)
theory Xh_Thread
  imports Xh_Refresh
begin

text \<open>
  \<^verbatim>\<open>xh_core.c\<close> as a state machine: one client thread that calls the interface and the refresh thread.
  The steps are the critical sections of the code; \<^verbatim>\<open>pthread_cond_wait\<close> is the absence of a step, and
  a refresh runs under \<^verbatim>\<open>xh_core_refresh_mutex\<close>, so a refresh of the client waits for one of the thread.
\<close>

section \<open>The two threads\<close>

datatype refresh_thread = No_thread | Waiting | Refreshing | Exited
datatype client = Idle | Joining

type_synonym 're system = "'re core \<times> refresh_thread \<times> client"

text \<open>
  \<^verbatim>\<open>xh_core_refresh_thread_func\<close>: at the head of its loop it leaves when it is told to stop, takes a
  task when there is one and waits otherwise; then it refreshes.
\<close>

fun xh_core_refresh_thread_func ::
    "'re env \<Rightarrow> 're core \<Rightarrow> refresh_thread \<Rightarrow> ('re core \<times> refresh_thread) option" where
  "xh_core_refresh_thread_func env c Waiting =
     (if \<not> refresh_thread_running c then Some (c, Exited)
      else if refresh_thread_do c then Some (c\<lparr>refresh_thread_do := False\<rparr>, Refreshing)
      else None)"
| "xh_core_refresh_thread_func env c Refreshing =
     (case xh_core_refresh_impl env c of Some (Ret _, c') \<Rightarrow> Some (c', Waiting) | _ \<Rightarrow> None)"
| "xh_core_refresh_thread_func env c _ = None"

inductive sys_step :: "'re env \<Rightarrow> 're system \<Rightarrow> 're system \<Rightarrow> bool" for env :: "'re env" where
  Register: "sys_step env (c, th, Idle) (snd (xh_core_register env p s nf old c), th, Idle)"
| Ignore: "sys_step env (c, th, Idle) (snd (xh_core_ignore env p s c), th, Idle)"
| Debug: "sys_step env (c, th, Idle) (xh_core_enable_debug b c, th, Idle)"
| Protect: "sys_step env (c, th, Idle) (xh_core_enable_sigsegv_protection b c, th, Idle)"
| Refresh_sync: "th \<noteq> Refreshing \<Longrightarrow> xh_core_refresh env False c = Some (Ret r, c') \<Longrightarrow>
    sys_step env (c, th, Idle) (c', th, Idle)"
| Refresh_async: "xh_core_refresh env True c = Some (Ret r, c') \<Longrightarrow>
    sys_step env (c, th, Idle) (c', if async_init_ok c' \<and> \<not> async_init_ok c then Waiting else th, Idle)"
| Clear_now: "\<not> async_init_ok c \<Longrightarrow> sys_step env (c, th, Idle) (clear_rest (clear_stop_thread c), th, Idle)"
| Clear_stop: "async_init_ok c \<Longrightarrow> sys_step env (c, th, Idle) (clear_stop_thread c, th, Joining)"
| Clear_join: "sys_step env (c, Exited, Joining) (clear_rest c, No_thread, Idle)"
| Thread: "xh_core_refresh_thread_func env c th = Some (c', th') \<Longrightarrow> sys_step env (c, th, cl) (c', th', cl)"

inductive_cases sys_stepE: "sys_step env (c, th, cl) s'"

inductive reachable :: "'re env \<Rightarrow> 're system \<Rightarrow> bool" for env :: "'re env" where
  Start: "reachable env (core_start m a, No_thread, Idle)"
| Step: "reachable env s \<Longrightarrow> sys_step env s s' \<Longrightarrow> reachable env s'"

fun sys_inv :: "'re system \<Rightarrow> bool" where
  "sys_inv (c, th, cl) \<longleftrightarrow>
     (init_ok c \<longrightarrow> inited c) \<and> (async_init_ok c \<longrightarrow> init_ok c \<and> async_inited c) \<and>
     (th \<noteq> No_thread \<longleftrightarrow> async_init_ok c) \<and>
     (cl = Idle \<and> async_init_ok c \<longrightarrow> refresh_thread_running c \<and> th \<noteq> Exited) \<and>
     (cl = Joining \<longrightarrow> async_init_ok c \<and> \<not> refresh_thread_running c)"

section \<open>What each operation keeps\<close>

definition same_flags :: "'re core \<Rightarrow> 're core \<Rightarrow> bool" where
  "same_flags c c' \<longleftrightarrow> inited c' = inited c \<and> init_ok c' = init_ok c \<and> async_inited c' = async_inited c \<and>
     async_init_ok c' = async_init_ok c \<and> refresh_thread_running c' = refresh_thread_running c"

lemma register_flags:
  "same_flags c (snd (xh_core_register env p s nf old c))" "same_flags c (snd (xh_core_ignore env p s c))"
  by (auto simp: same_flags_def xh_core_register_def xh_core_ignore_def alloc_def Let_def split: option.split)

lemma guarded_flags: "guarded c r c' \<Longrightarrow> same_flags c c'"
  by (auto simp: guarded_def same_flags_def)

lemma same_flags_trans: "same_flags a b \<Longrightarrow> same_flags b c \<Longrightarrow> same_flags a c"
  by (simp add: same_flags_def)

lemma same_flags_upd [simp]:
  "same_flags c c" "same_flags c (c\<lparr>map_infos := t\<rparr>)" "same_flags c (c\<lparr>allocs := n\<rparr>)"
  by (simp_all add: same_flags_def)

lemma ends_flags: "ends (\<lambda>_. same_flags c) r \<Longrightarrow> same_flags b c \<Longrightarrow> ends (\<lambda>_. same_flags b) r"
  by (erule ends_mono) (erule (1) same_flags_trans [rotated])

lemma hook_flags: "ends (\<lambda>_. same_flags c) (cbind (xh_core_hook env mi c) (\<lambda>mi c. Some (Ret (f mi), c)))"
  by (rule ends_bind [OF hook_guarded]) (auto dest: guarded_flags)

lemma refresh_path_flags: "ends (\<lambda>_. same_flags c) (refresh_path env base path t c)"
proof -
  have ex: "ends (\<lambda>_. same_flags c) (refresh_existing env base mi t c)" for mi c
    by (auto simp: refresh_existing_def Let_def split: prod.split option.split intro!: ends_flags [OF hook_flags])
  have nw: "ends (\<lambda>_. same_flags c) (refresh_new env base path t c)" for c
    by (auto simp: refresh_new_def alloc_def Let_def split: prod.split option.split intro!: ends_flags [OF hook_flags])
  have "ends (\<lambda>_. same_flags c) (cbind (xh_core_check_elf_header base c) (\<lambda>r c.
        if r \<noteq> 0 then Some (Ret t, c)
        else case RB_FIND path (map_infos c) of
          Some mi \<Rightarrow> refresh_existing env base mi t c
        | None \<Rightarrow> refresh_new env base path t c))"
    by (rule ends_bind [OF check_header_guarded])
      (auto dest!: guarded_flags split: option.split intro: ends_flags [OF ex] ends_flags [OF nw])
  then show ?thesis by (simp add: refresh_path_def)
qed

lemma refresh_scanned_flags: "ends (\<lambda>_. same_flags c) (refresh_scanned env base offset l c)"
proof -
  have "ends (\<lambda>_. same_flags c) (cbind (refresh_path env base path t c) (\<lambda>t c. Some (Ret (f t), c)))"
    for path t and f :: "xh_core_map_info_t list \<Rightarrow> refresh_locals"
    by (rule ends_bind [OF refresh_path_flags]) auto
  then show ?thesis
    unfolding refresh_scanned_def by (cases "get_pathname l") (auto split: option.split)
qed

lemma refresh_line_flags: "ends (\<lambda>_. same_flags c) (refresh_line env s l c)"
  unfolding refresh_line_def Let_def by (auto simp: refresh_scanned_flags split: prod.split option.split)

lemma refresh_lines_flags: "ends (\<lambda>_. same_flags c) (refresh_lines env body l c)"
proof (induction env body l c rule: refresh_lines.induct)
  case (1 env body l c)
  have "ends (\<lambda>_. same_flags c) (cbind (refresh_line env s l c) (refresh_lines env rest))" if "fgets body = Some (s, rest)" for s rest
  proof (cases "refresh_line env s l c")
    case (Some a)
    obtain r c' where a: "a = (r, c')" by (cases a)
    have f: "same_flags c c'" using refresh_line_flags [of c env s l] Some a by simp
    then show ?thesis
      using 1 [OF that refl] Some a by (cases r) (auto intro: ends_flags [OF _ f])
  qed simp
  then show ?case by (subst refresh_lines.simps) (auto split: option.split)
qed

abbreviation line_apart :: "refresh_locals run \<Rightarrow> 're core \<Rightarrow> bool" where
  "line_apart r c \<equiv> \<forall>l. r = Ret l \<longrightarrow> items.apart (map_infos c) (refreshed l)"

lemma get_pathname_refreshed: "get_pathname l = Ret (p, l') \<Longrightarrow> refreshed l' = refreshed l"
  by (auto simp: get_pathname_def Let_def split: if_splits)

lemma store_refreshed [simp]: "refreshed (store_word w l) = refreshed l" "refreshed (store_pos n l) = refreshed l"
  by (simp_all add: store_word_def store_pos_def split: option.split)

lemma refresh_scanned_apart:
  assumes "items.apart (map_infos c) (refreshed l)"
  shows "ends line_apart (refresh_scanned env base offset l c)"
proof -
  have p: "ends line_apart (cbind (refresh_path env base path (refreshed l') c) (\<lambda>t c. Some (Ret (l'\<lparr>refreshed := t\<rparr>), c)))"
    if "refreshed l' = refreshed l" for path l'
    unfolding that by (rule ends_bind [OF refresh_path_step [OF assms]]) (auto simp: path_step_def)
  show ?thesis
    unfolding refresh_scanned_def using p get_pathname_refreshed [of l] assms
    by (cases "get_pathname l") (auto split: option.split)
qed

lemma refresh_line_apart:
  "items.apart (map_infos c) (refreshed l) \<Longrightarrow> ends line_apart (refresh_line env s l c)"
  unfolding refresh_line_def Let_def by (auto simp: refresh_scanned_apart split: prod.split option.split)

lemma refresh_lines_apart:
  "items.apart (map_infos c) (refreshed l) \<Longrightarrow> ends line_apart (refresh_lines env body l c)"
proof (induction env body l c rule: refresh_lines.induct)
  case (1 env body l c)
  have "ends line_apart (cbind (refresh_line env s l c) (refresh_lines env rest))" if "fgets body = Some (s, rest)" for s rest
    using refresh_line_apart [OF "1.prems", of env s] "1.IH" [OF that refl]
    by (intro ends_bind [where P = "\<lambda>r c'. refresh_line env s l c = Some (r, c') \<and> line_apart r c'"])
      (cases "refresh_line env s l c", auto)
  with "1.prems" show ?case by (subst refresh_lines.simps) (auto split: option.split)
qed

lemma refresh_impl_keeps:
  assumes "xh_core_refresh_impl env c = Some (Ret (), c')" "tree_inv (map_infos c)"
  shows "same_flags c c' \<and> tree_inv (map_infos c')"
proof (cases "os_maps (env_os env) (mem c)")
  case (Some body)
  let ?l = "\<lparr>line = line0 env, perm = perm0 env, pathname_pos = pathname_pos0 env, refreshed = []\<rparr>"
  from assms(1) Some obtain l c1 where r: "refresh_lines env body ?l c = Some (Ret l, c1)" "c' = c1\<lparr>map_infos := refreshed l\<rparr>"
    by (auto simp: xh_core_refresh_impl_def cbind_def split: option.splits run.splits)
  have "items.apart (map_infos c) (refreshed ?l)" using assms(2) by (simp add: apart_iff tree_inv_def)
  from refresh_lines_apart [OF this, of env body] refresh_lines_flags [of c env body ?l] r show ?thesis
    by (auto simp: apart_iff same_flags_def)
qed (use assms in \<open>simp add: xh_core_refresh_impl_def\<close>)

lemma init_once_keeps:
  "init_ok (xh_core_init_once env c) \<Longrightarrow> init_ok c \<or> inited (xh_core_init_once env c)"
  "map_infos (xh_core_init_once env c) = map_infos c"
  "async_inited (xh_core_init_once env c) = async_inited c" "async_init_ok (xh_core_init_once env c) = async_init_ok c"
  "refresh_thread_running (xh_core_init_once env c) = refresh_thread_running c"
  "inited (xh_core_init_once env c)" "init_ok c \<Longrightarrow> inited c \<Longrightarrow> init_ok (xh_core_init_once env c)"
  by (auto simp: xh_core_init_once_def xh_core_add_sigsegv_handler_def Let_def)

fun tree_ok :: "'re system \<Rightarrow> bool" where
  "tree_ok (c, th, cl) = tree_inv (map_infos c)"

lemma refresh_sync_keeps:
  assumes "xh_core_refresh env False c = Some (Ret r, c')" "sys_inv (c, th, Idle)" "tree_inv (map_infos c)"
  shows "sys_inv (c', th, Idle) \<and> tree_inv (map_infos c')"
proof -
  let ?c = "xh_core_init_once env c"
  have i: "sys_inv (?c, th, Idle)" "tree_inv (map_infos ?c)"
    using assms(2,3) init_once_keeps [where env = env and c = c] by auto
  show ?thesis
  proof (cases "init_ok ?c")
    case True
    with assms(1) have "xh_core_refresh_impl env ?c = Some (Ret (), c')"
      by (auto simp: xh_core_refresh_def Let_def cbind_def split: option.splits run.splits)
    from refresh_impl_keeps [OF this i(2)] i(1) show ?thesis by (auto simp: same_flags_def)
  qed (use assms(1) i in \<open>auto simp: xh_core_refresh_def Let_def\<close>)
qed

lemma refresh_async_keeps:
  assumes "xh_core_refresh env True c = Some (Ret r, c')" "sys_inv (c, th, Idle)" "tree_inv (map_infos c)"
  shows "sys_inv (c', if async_init_ok c' \<and> \<not> async_init_ok c then Waiting else th, Idle) \<and> tree_inv (map_infos c')"
proof -
  define c1 where "c1 = xh_core_init_once env c"
  have i: "sys_inv (c1, th, Idle)" "tree_inv (map_infos c1)" "async_init_ok c1 = async_init_ok c"
    using assms(2,3) init_once_keeps [where env = env and c = c] by (auto simp: c1_def)
  define c2 where "c2 = xh_core_init_async_once env c1"
  from assms(1) consider "\<not> init_ok c1" "c' = c1" | "init_ok c1" "\<not> async_init_ok c2" "c' = c2"
    | "init_ok c1" "async_init_ok c2" "c' = c2\<lparr>refresh_thread_do := True\<rparr>"
    by (auto simp: xh_core_refresh_def c1_def c2_def Let_def split: if_splits)
  moreover have "async_inited c1 \<Longrightarrow> c2 = c1"
    "\<not> async_inited c1 \<Longrightarrow> c2 = c1\<lparr>async_inited := True, refresh_thread_running := False\<rparr> \<or>
       c2 = c1\<lparr>async_inited := True, refresh_thread_running := True, async_init_ok := True\<rparr>"
    by (simp_all add: c2_def xh_core_init_async_once_def Let_def)
  ultimately show ?thesis using i by cases (cases "async_inited c1"; fastforce)+
qed

lemma clear_keeps:
  "sys_inv (c, th, Idle) \<Longrightarrow> \<not> async_init_ok c \<Longrightarrow> sys_inv (clear_rest (clear_stop_thread c), th, Idle)"
  "sys_inv (c, th, Idle) \<Longrightarrow> async_init_ok c \<Longrightarrow> sys_inv (clear_stop_thread c, th, Joining)"
  "sys_inv (c, Exited, Joining) \<Longrightarrow> sys_inv (clear_rest c, No_thread, Idle)"
  by (auto simp: clear_rest_def clear_stop_thread_def xh_core_del_sigsegv_handler_def Let_def)

lemma clear_tree: "tree_inv (map_infos (clear_rest c))" "map_infos (clear_stop_thread c) = map_infos c"
  by (simp_all add: clear_rest_def clear_stop_thread_def tree_inv_def Let_def)

lemma thread_keeps:
  assumes "xh_core_refresh_thread_func env c th = Some (c', th')" "sys_inv (c, th, cl)" "tree_inv (map_infos c)"
  shows "sys_inv (c', th', cl) \<and> tree_inv (map_infos c')"
proof (cases th)
  case Refreshing
  obtain r where r: "xh_core_refresh_impl env c = Some (Ret r, c')" and th': "th' = Waiting"
  proof (cases "xh_core_refresh_impl env c")
    case (Some a)
    with assms(1) Refreshing that show thesis by (cases a; cases "fst a") simp_all
  qed (use assms(1) Refreshing in simp)
  have "same_flags c c' \<and> tree_inv (map_infos c')"
    using r by (intro refresh_impl_keeps [OF _ assms(3)]) simp
  then show ?thesis using assms(2) Refreshing th' unfolding same_flags_def sys_inv.simps by simp
next
  case Waiting
  with assms(1) consider "\<not> refresh_thread_running c" "c' = c" "th' = Exited"
    | "refresh_thread_running c" "c' = c\<lparr>refresh_thread_do := False\<rparr>" "th' = Refreshing"
    by (auto split: if_splits)
  then show ?thesis using assms(2,3) Waiting by cases auto
qed (use assms in simp_all)

lemma register_tree:
  "map_infos (snd (xh_core_register env p s nf old c)) = map_infos c" "map_infos (snd (xh_core_ignore env p s c)) = map_infos c"
  by (auto simp: xh_core_register_def xh_core_ignore_def alloc_def Let_def split: option.split)

lemma same_flags_inv: "same_flags c c' \<Longrightarrow> sys_inv (c, th, cl) \<Longrightarrow> sys_inv (c', th, cl)"
  by (simp add: same_flags_def)

lemma step_keeps: "sys_step env s s' \<Longrightarrow> sys_inv s \<Longrightarrow> tree_ok s \<Longrightarrow> sys_inv s' \<and> tree_ok s'"
proof (induction rule: sys_step.induct)
  case (Register c th p s nf old)
  then show ?case using same_flags_inv [OF register_flags(1)] by (simp add: register_tree del: sys_inv.simps)
next
  case (Ignore c th p s)
  then show ?case using same_flags_inv [OF register_flags(2)] by (simp add: register_tree del: sys_inv.simps)
next
  case (Refresh_sync th c r c')
  with refresh_sync_keeps [OF Refresh_sync(2), of th] show ?case by (simp only: tree_ok.simps)
next
  case (Refresh_async c r c' th)
  with refresh_async_keeps [OF Refresh_async(1), of th] show ?case by (simp only: tree_ok.simps)
next
  case (Thread c th c' th' cl)
  with thread_keeps [OF Thread(1), of cl] show ?case by (simp only: tree_ok.simps)
qed (simp_all add: clear_keeps clear_tree xh_core_enable_debug_def xh_core_enable_sigsegv_protection_def del: sys_inv.simps, simp_all)

lemma reachable_inv: "reachable env s \<Longrightarrow> sys_inv s \<and> tree_ok s"
proof (induction rule: reachable.induct)
  case (Start m a)
  show ?case by (simp add: core_start_def tree_inv_def)
next
  case (Step s s')
  then show ?case using step_keeps by blast
qed

section \<open>A sample run\<close>

definition idle_env :: "string env" where
  "idle_env = \<lparr>regcomp = Some, regexec = (=), alloc_ok = (\<lambda>_. True), sigemptyset_ret = (0, 0),
     sigaction_ret = (0, 0), pthread_create_ret = 0,
     env_os = \<lparr>os_maps = (\<lambda>_. None), os_mprotect = (\<lambda>m _ _ _. (0, 0, m))\<rparr>, util_perm0 = replicate 5 (CHR 0x00),
     line0 = replicate 512 (CHR 0x00), perm0 = replicate 5 (CHR 0x00), pathname_pos0 = 0\<rparr>"

definition busy_core :: "string core" where
  "busy_core = (core_start no_memory 0)\<lparr>inited := True, init_ok := True, async_inited := True, async_init_ok := True,
     refresh_thread_running := True, sigsegv_act := Xh_handler, sigsegv_act_old := Other_action 0\<rparr>"

lemma busy_reachable: "reachable idle_env (busy_core, Refreshing, Idle)"
proof -
  let ?c = "busy_core\<lparr>refresh_thread_do := True\<rparr>"
  have "xh_core_refresh idle_env True (core_start no_memory 0) = Some (Ret 0, ?c)"
    by (simp add: xh_core_refresh_def xh_core_init_once_def xh_core_add_sigsegv_handler_def xh_core_init_async_once_def
        busy_core_def core_start_def idle_env_def)
  from Refresh_async [OF this, of No_thread]
  have "reachable idle_env (?c, Waiting, Idle)"
    using reachable.Step [OF reachable.Start] by (simp add: busy_core_def core_start_def)
  moreover have "sys_step idle_env (?c, Waiting, Idle) (busy_core, Refreshing, Idle)"
    by (rule Thread) (simp add: busy_core_def core_start_def)
  ultimately show ?thesis by (rule reachable.Step)
qed

section \<open>Properties\<close>

text \<open>
  C7: In every reachable state of client and refresh thread: the library is initialised before its
  thread, the thread exists exactly while the asynchronous initialisation stands, it is alive and
  told to run whenever the client is not clearing, and the tree of libraries is ordered.
\<close>

theorem core_invariant:
  assumes "reachable env (c, th, cl)"
  shows "sys_inv (c, th, cl) \<and> tree_inv (map_infos c)"
  using reachable_inv [OF assms] by simp

theorem core_invariant_witness:
  "sys_inv (busy_core, Refreshing, Idle) \<and> tree_inv (map_infos busy_core)"
  using core_invariant [OF busy_reachable] .

text \<open>
  C13: While the thread refreshes no step of the client changes the lists of hooks that the refresh
  walks without holding their mutex, nor the tree.
\<close>

theorem lists_stable_during_refresh:
  assumes "reachable env (c, Refreshing, cl)" "sys_step env (c, Refreshing, cl) (c', Refreshing, cl')"
  shows "hook_infos c' = hook_infos c \<and> ignore_infos c' = ignore_infos c \<and> map_infos c' = map_infos c"
proof -
  have i: "inited c" "init_ok c" "async_init_ok c" "async_inited c" using reachable_inv [OF assms(1)] by auto
  have async: "hook_infos c' = hook_infos c \<and> ignore_infos c' = ignore_infos c \<and> map_infos c' = map_infos c"
    if "xh_core_refresh env True c = Some (Ret r, c')" for r
    using that i by (auto simp: xh_core_refresh_def xh_core_init_once_def xh_core_init_async_once_def)
  have thread: False if "xh_core_refresh_thread_func env c Refreshing = Some (c', Refreshing)"
    using that by (auto split: option.splits run.splits)
  from assms(2) show ?thesis
    using async thread i
    by (elim sys_stepE) (auto simp: xh_core_register_def xh_core_ignore_def xh_core_enable_debug_def
      xh_core_enable_sigsegv_protection_def clear_stop_thread_def split: option.splits)
qed

theorem lists_stable_during_refresh_witness:
  "hook_infos (snd (xh_core_register idle_env None None 0 0 busy_core)) = []"
proof -
  have "sys_step idle_env (busy_core, Refreshing, Idle) (snd (xh_core_register idle_env None None 0 0 busy_core), Refreshing, Idle)"
    by (rule Register)
  from lists_stable_during_refresh [OF busy_reachable this] show ?thesis by (simp add: busy_core_def core_start_def)
qed

section \<open>Joining the thread\<close>

lemma joining_step:
  assumes "sys_inv (c, th, Joining)" "sys_step env (c, th, Joining) s"
  shows "(th = Refreshing \<and> (\<exists>c'. xh_core_refresh_impl env c = Some (Ret (), c') \<and> s = (c', Waiting, Joining))) \<or>
     (th = Waiting \<and> s = (c, Exited, Joining)) \<or> (th = Exited \<and> s = (clear_rest c, No_thread, Idle))"
  using assms by (cases th) (auto elim!: sys_stepE split: option.splits run.splits)

text \<open>
  \<open>ends_cleared env s\<close>: some state with everything cleared is reached from \<open>s\<close>, and every run from \<open>s\<close>
  is on its way to it or has passed through it.
\<close>

definition ends_cleared :: "'re env \<Rightarrow> 're system \<Rightarrow> bool" where
  "ends_cleared env s \<longleftrightarrow>
     (\<exists>c'. (sys_step env)\<^sup>*\<^sup>* s (c', No_thread, Idle) \<and>
        hook_infos c' = [] \<and> ignore_infos c' = [] \<and> map_infos c' = [] \<and>
        \<not> inited c' \<and> \<not> init_ok c' \<and> \<not> async_init_ok c' \<and>
        (\<forall>s'. (sys_step env)\<^sup>*\<^sup>* s s' \<longrightarrow>
           (sys_step env)\<^sup>*\<^sup>* s' (c', No_thread, Idle) \<or> (sys_step env)\<^sup>*\<^sup>* (c', No_thread, Idle) s'))"

lemma ends_cleared_back:
  assumes "sys_step env s t" "\<And>u. sys_step env s u \<Longrightarrow> u = t" "ends_cleared env t"
  shows "ends_cleared env s"
proof -
  obtain c' where c': "(sys_step env)\<^sup>*\<^sup>* t (c', No_thread, Idle)"
      "hook_infos c' = []" "ignore_infos c' = []" "map_infos c' = []" "\<not> inited c'" "\<not> init_ok c'" "\<not> async_init_ok c'"
      "\<And>u. (sys_step env)\<^sup>*\<^sup>* t u \<Longrightarrow>
         (sys_step env)\<^sup>*\<^sup>* u (c', No_thread, Idle) \<or> (sys_step env)\<^sup>*\<^sup>* (c', No_thread, Idle) u"
    using assms(3) unfolding ends_cleared_def by blast
  have st: "(sys_step env)\<^sup>*\<^sup>* s (c', No_thread, Idle)" using assms(1) c'(1) by (rule converse_rtranclp_into_rtranclp)
  have "(sys_step env)\<^sup>*\<^sup>* u (c', No_thread, Idle) \<or> (sys_step env)\<^sup>*\<^sup>* (c', No_thread, Idle) u"
    if "(sys_step env)\<^sup>*\<^sup>* s u" for u
    using that st c'(8) assms(2) by (cases rule: converse_rtranclpE) blast+
  with st c'(2-7) show ?thesis unfolding ends_cleared_def by blast
qed

lemma joined_ends_cleared: "ends_cleared env (c, Exited, Joining)"
proof -
  let ?f = "(clear_rest c, No_thread, Idle)"
  have s: "sys_step env (c, Exited, Joining) ?f" by (rule Clear_join)
  have only: "u = ?f" if "sys_step env (c, Exited, Joining) u" for u using that by (auto elim!: sys_stepE)
  have "(sys_step env)\<^sup>*\<^sup>* u ?f \<or> (sys_step env)\<^sup>*\<^sup>* ?f u" if "(sys_step env)\<^sup>*\<^sup>* (c, Exited, Joining) u" for u
    using that s only by (cases rule: converse_rtranclpE) blast+
  moreover have "hook_infos (clear_rest c) = []" "ignore_infos (clear_rest c) = []" "map_infos (clear_rest c) = []"
    "\<not> inited (clear_rest c)" "\<not> init_ok (clear_rest c)" "\<not> async_init_ok (clear_rest c)"
    by (simp_all add: clear_rest_def xh_core_del_sigsegv_handler_def Let_def)
  ultimately show ?thesis unfolding ends_cleared_def using s by blast
qed

lemma waiting_ends_cleared:
  assumes "sys_inv (c, Waiting, Joining)"
  shows "ends_cleared env (c, Waiting, Joining)"
proof (rule ends_cleared_back [OF _ _ joined_ends_cleared])
  show "sys_step env (c, Waiting, Joining) (c, Exited, Joining)" using assms by (intro Thread) simp
  show "u = (c, Exited, Joining)" if "sys_step env (c, Waiting, Joining) u" for u
    using joining_step [OF assms that] by simp
qed

lemma refreshing_ends_cleared:
  assumes "sys_inv (c, Refreshing, Joining)" "tree_inv (map_infos c)" "xh_core_refresh_impl env c = Some (Ret (), c')"
  shows "ends_cleared env (c, Refreshing, Joining)"
proof (rule ends_cleared_back)
  show s: "sys_step env (c, Refreshing, Joining) (c', Waiting, Joining)" using assms(3) by (intro Thread) simp
  show "u = (c', Waiting, Joining)" if "sys_step env (c, Refreshing, Joining) u" for u
    using joining_step [OF assms(1) that] assms(3) by simp
  show "ends_cleared env (c', Waiting, Joining)"
    using refresh_impl_keeps [OF assms(3,2)] assms(1) by (intro waiting_ends_cleared) (auto simp: same_flags_def)
qed

section \<open>A run that clears during a refresh\<close>

text \<open>
  A hook for \<^verbatim>\<open>/a.so\<close> is registered, a refresh is asked for and the thread takes it; the client clears
  while the thread walks over a mapping of that library, whose header it checks and whose dynamic
  section it looks for.
\<close>

definition hooking_core :: "string core" where
  "hooking_core = (core_start header_memory 0)\<lparr>hook_infos := [sample_hook ''open''], allocs := 2, inited := True, init_ok := True,
     async_inited := True, async_init_ok := True, refresh_thread_running := True, sigsegv_act := Xh_handler,
     sigsegv_act_old := Other_action 0\<rparr>"

lemma hooking_reachable: "reachable sample_env (clear_stop_thread hooking_core, Refreshing, Joining)"
proof -
  let ?reg = "(core_start header_memory 0)\<lparr>hook_infos := [sample_hook ''open''], allocs := 2\<rparr>"
  let ?ready = "hooking_core\<lparr>refresh_thread_do := True\<rparr>"
  have "snd (xh_core_register sample_env (Some ''/a.so'') (Some ''open'') 0x7000 0 (core_start header_memory 0)) = ?reg"
    by (simp add: xh_core_register_def alloc_def sample_defs)
  then have "reachable sample_env (?reg, No_thread, Idle)"
    using reachable.Step [OF reachable.Start Register] by metis
  moreover have "xh_core_refresh sample_env True ?reg = Some (Ret 0, ?ready)"
    by (simp add: xh_core_refresh_def xh_core_init_once_def xh_core_add_sigsegv_handler_def xh_core_init_async_once_def
        hooking_core_def sample_defs)
  note Refresh_async [OF this, of No_thread]
  ultimately have "reachable sample_env (?ready, Waiting, Idle)"
    using reachable.Step by (simp add: hooking_core_def core_start_def)
  moreover have "sys_step sample_env (?ready, Waiting, Idle) (hooking_core, Refreshing, Idle)"
    by (rule Thread) (simp add: hooking_core_def core_start_def)
  moreover have "sys_step sample_env (hooking_core, Refreshing, Idle) (clear_stop_thread hooking_core, Refreshing, Joining)"
    by (rule Clear_stop) (simp add: hooking_core_def)
  ultimately show ?thesis using reachable.Step by blast
qed

lemma header_not_initialised:
  "xh_elf_init header_memory xh_elf_zero 0x10000 (Some ''/a.so'') =
     Ret (XH_ERRNO_FORMAT, xh_elf_zero\<lparr>pathname := Some ''/a.so'', base_addr := 0x10000, ehdr := 0x10000, phdr := 0x10000\<rparr>)"
proof -
  have "e_phoff header_memory 0x10000 = Ret 0" "e_phnum header_memory 0x10000 = Ret 0"
    by (simp_all add: e_phoff_def e_phnum_def load_le_numeral load16_def load64_def load32_def load8_def readable_def header_memory_def)
  then show ?thesis
    by (simp add: xh_elf_init_def xh_elf_get_first_segment_by_type_offset_def)
qed

lemma hooking_refresh:
  "\<exists>c'. xh_core_refresh_impl sample_env (clear_stop_thread hooking_core) = Some (Ret (), c') \<and>
     map mi_pathname (map_infos c') = [''/a.so'']"
proof -
  define c where "c = clear_stop_thread hooking_core"
  have c: "match_loop sample_env ''/a.so'' (ignore_infos c) (hook_infos c)" "RB_FIND ''/a.so'' (map_infos c) = None"
    "mem c = header_memory" "sigsegv_enable c" "\<not> sigsegv_flag c"
    by (simp_all add: c_def clear_stop_thread_def hooking_core_def sample_defs RB_FIND_def)
  have os: "os_maps (env_os sample_env) (mem c) = Some (concat (map print_vma [sample_vma]))"
    by (simp add: sample_defs)
  have "xh_core_check_elf_header 0x10000 c = Some (Ret 0, c)"
    using sample_header c by (simp add: xh_core_check_elf_header_def sigsegv_guard_def)
  moreover have "alloc_ok sample_env n" for n by (simp add: sample_defs)
  ultimately have "\<exists>i c'. refresh_path sample_env 0x10000 ''/a.so'' [] c = Some (Ret [i], c') \<and> mi_pathname i = ''/a.so''"
    using c by (simp add: refresh_path_def refresh_new_def alloc_def xh_core_hook_def xh_core_hook_impl_def
        header_not_initialised sigsegv_guard_def XH_ERRNO_FORMAT_def put_item_def)
  then obtain i c' where "refresh_path sample_env 0x10000 ''/a.so'' [] c = Some (Ret [i], c')" "mi_pathname i = ''/a.so''"
    by blast
  then have "xh_core_refresh_impl sample_env c = Some (Ret (), c'\<lparr>map_infos := [i]\<rparr>)" "mi_pathname i = ''/a.so''"
    unfolding refresh_impl_vmas [OF os sample_facts(2,3)] sample_walk by simp_all
  then show ?thesis unfolding c_def [symmetric] by auto
qed

section \<open>Clearing completes\<close>

text \<open>
  C26: A clear completes when the refresh under way, if there is one, returns: from every reachable
  state in which the client joins the thread, the client ends with everything cleared, and every
  run from that state leads there.
\<close>

theorem clear_completes:
  assumes "reachable env (c, th, Joining)"
    and "th = Refreshing \<Longrightarrow> \<exists>c1. xh_core_refresh_impl env c = Some (Ret (), c1)"
  shows "\<exists>c'. (sys_step env)\<^sup>*\<^sup>* (c, th, Joining) (c', No_thread, Idle) \<and>
     hook_infos c' = [] \<and> ignore_infos c' = [] \<and> map_infos c' = [] \<and> \<not> inited c' \<and> \<not> init_ok c' \<and> \<not> async_init_ok c' \<and>
     (\<forall>s. (sys_step env)\<^sup>*\<^sup>* (c, th, Joining) s \<longrightarrow>
        (sys_step env)\<^sup>*\<^sup>* s (c', No_thread, Idle) \<or> (sys_step env)\<^sup>*\<^sup>* (c', No_thread, Idle) s)"
proof -
  have i: "sys_inv (c, th, Joining)" "tree_inv (map_infos c)" using reachable_inv [OF assms(1)] by simp_all
  have "ends_cleared env (c, th, Joining)"
  proof (cases th)
    case Refreshing
    with assms(2) i show ?thesis using refreshing_ends_cleared by blast
  qed (use i waiting_ends_cleared joined_ends_cleared in auto)
  then show ?thesis unfolding ends_cleared_def .
qed

theorem clear_completes_witness:
  "\<exists>c'. (sys_step sample_env)\<^sup>*\<^sup>* (clear_stop_thread hooking_core, Refreshing, Joining) (c', No_thread, Idle) \<and> hook_infos c' = []"
  using clear_completes [OF hooking_reachable] hooking_refresh by blast

section \<open>Registration\<close>

text \<open>
  Registering either appends the hook at the end of the list and returns 0, or leaves the list as
  it was with INVAL, exactly for a missing argument, after a refresh or for an expression that does
  not compile, or with NOMEM, when an allocation failed.
\<close>

theorem register_outcome:
  "(\<exists>regex. xh_core_register env p s nf old c =
       (0, c\<lparr>allocs := allocs c + 2, hook_infos := hook_infos c @
          [\<lparr>hi_pathname_regex = regex, hi_symbol = the s, hi_new_func = nf, hi_old_func = old\<rparr>]\<rparr>) \<and>
       p \<noteq> None \<and> s \<noteq> None \<and> nf \<noteq> 0 \<and> \<not> inited c \<and> regcomp env (the p) = Some regex) \<or>
   (\<exists>e n. xh_core_register env p s nf old c = (e, c\<lparr>allocs := n\<rparr>) \<and>
       (e = XH_ERRNO_INVAL \<and> n = allocs c \<and> (p = None \<or> s = None \<or> nf = 0 \<or> inited c \<or> regcomp env (the p) = None) \<or>
        e = XH_ERRNO_NOMEM \<and> (\<exists>k<2. \<not> alloc_ok env (allocs c + k))))"
proof (cases "p = None \<or> s = None \<or> nf = 0 \<or> inited c \<or> regcomp env (the p) = None")
  case True
  then have "xh_core_register env p s nf old c = (XH_ERRNO_INVAL, c\<lparr>allocs := allocs c\<rparr>)"
    by (auto simp: xh_core_register_def split: option.splits)
  with True show ?thesis by blast
next
  case False
  then obtain q t regex where q: "p = Some q" "s = Some t" "nf \<noteq> 0" "\<not> inited c" "regcomp env q = Some regex" by auto
  show ?thesis
  proof (cases "alloc_ok env (allocs c) \<and> alloc_ok env (allocs c + 1)")
    case True
    with q show ?thesis by (auto simp: xh_core_register_def alloc_def Let_def)
  next
    case False
    with q show ?thesis by (auto simp: xh_core_register_def alloc_def Let_def less_2_cases_iff)
  qed
qed

section \<open>Protection\<close>

text \<open>
  Enabling the protection after the first refresh does not install the handler: the guard believes
  in it, and a fault still takes the process down.
\<close>

theorem late_protection_not_installed:
  fixes c :: "'re core"
  assumes "\<not> inited c" "sigsegv_act c = Other_action a"
  shows "\<exists>c'. c' = xh_core_enable_sigsegv_protection True (xh_core_init_once env (xh_core_enable_sigsegv_protection False c)) \<and>
     init_ok c' \<and> sigsegv_enable c' \<and> sigsegv_act c' \<noteq> Xh_handler \<and>
     sigsegv_guard () (\<lambda>c. Some (Segv, c)) c' = Some (Segv, c'\<lparr>sigsegv_flag := True\<rparr>)"
  using assms by (simp add: xh_core_enable_sigsegv_protection_def xh_core_init_once_def xh_core_add_sigsegv_handler_def
      sigsegv_guard_def)

theorem late_protection_not_installed_witness:
  "\<exists>c' :: string core. init_ok c' \<and> sigsegv_enable c' \<and> sigsegv_act c' \<noteq> Xh_handler"
  using late_protection_not_installed [of "core_start no_memory 0" 0 idle_env] by (auto simp: core_start_def)

end
