(* ===== verification/X86_Tables.thy ===== *)
theory X86_Tables
  imports Prelude
begin

unbundle bit_operations_syntax

text \<open>
  The opcode tables of Dobby's x86 instruction decoder
  (\<^verbatim>\<open>dobby/source/InstructionRelocation/x86/x86_insn_decode\<close>): the macros that build an entry,
  the one-byte and two-byte maps by rows of sixteen, and the groups that the register field of
  the ModR/M byte selects from.
\<close>

section \<open>Entries\<close>

text \<open>
  An operand specification is two characters, its code and its type; \<^verbatim>\<open>__\<close> is no operand.
\<close>

type_synonym x86_insn_operand_spec_t = "char \<times> char"

record x86_insn_spec_t =
  spec_name :: string
  spec_operands :: "x86_insn_operand_spec_t list"
  spec_flags :: u16

definition X86_INSN_SPEC_DEFAULT_64_BIT :: u16 where "X86_INSN_SPEC_DEFAULT_64_BIT = 1"

definition operand_spec :: "string \<Rightarrow> x86_insn_operand_spec_t" where
  "operand_spec s = (s ! 0, s ! 1)"

definition op3_flag :: "string \<Rightarrow> u16 \<Rightarrow> string \<Rightarrow> string \<Rightarrow> string \<Rightarrow> x86_insn_spec_t" where
  "op3_flag x f o0 o1 o2 =
     \<lparr>spec_name = x, spec_operands = [operand_spec o0, operand_spec o1, operand_spec o2],
      spec_flags = f\<rparr>"

definition op2_flag :: "string \<Rightarrow> u16 \<Rightarrow> string \<Rightarrow> string \<Rightarrow> x86_insn_spec_t" where
  "op2_flag x f o0 o1 = op3_flag x f o0 o1 ''__''"

definition op1_flag :: "string \<Rightarrow> u16 \<Rightarrow> string \<Rightarrow> x86_insn_spec_t" where
  "op1_flag x f o0 = op2_flag x f o0 ''__''"

definition op0_flag :: "string \<Rightarrow> u16 \<Rightarrow> x86_insn_spec_t" where
  "op0_flag x f = op1_flag x f ''__''"

abbreviation "op3f \<equiv> op3_flag"
abbreviation "op2f \<equiv> op2_flag"
abbreviation "op1f \<equiv> op1_flag"
abbreviation "op0f \<equiv> op0_flag"

definition op3 :: "string \<Rightarrow> string \<Rightarrow> string \<Rightarrow> string \<Rightarrow> x86_insn_spec_t" where
  "op3 x o0 o1 o2 = op3f x 0 o0 o1 o2"
definition op2 :: "string \<Rightarrow> string \<Rightarrow> string \<Rightarrow> x86_insn_spec_t" where
  "op2 x o0 o1 = op2f x 0 o0 o1"
definition op1 :: "string \<Rightarrow> string \<Rightarrow> x86_insn_spec_t" where
  "op1 x o0 = op1f x 0 o0"
definition op0 :: "string \<Rightarrow> x86_insn_spec_t" where
  "op0 x = op0f x 0"

lemmas op_defs = op3_flag_def op2_flag_def op1_flag_def op0_flag_def op3_def op2_def op1_def op0_def

definition empty_spec :: x86_insn_spec_t where
  "empty_spec = \<lparr>spec_name = [], spec_operands = replicate 3 (CHR 0x00, CHR 0x00), spec_flags = 0\<rparr>"

definition foreach_x86_operand_combine :: "string \<Rightarrow> x86_insn_spec_t list" where
  "foreach_x86_operand_combine x =
     [op2 x ''Eb'' ''Gb'', op2 x ''Ev'' ''Gv'', op2 x ''Gb'' ''Eb'', op2 x ''Gv'' ''Ev'',
      op2 x ''AL'' ''Ib'', op2 x ''AX'' ''Iz'']"

definition foreach_x86_gp_reg :: "string list" where
  "foreach_x86_gp_reg = [''AX'', ''CX'', ''DX'', ''BX'', ''SP'', ''BP'', ''SI'', ''DI'']"

definition foreach_x86_condition :: "string list" where
  "foreach_x86_condition =
     [''o'', ''no'', ''b'', ''nb'', ''z'', ''nz'', ''be'', ''nbe'', ''s'', ''ns'', ''p'', ''np'',
      ''l'', ''nl'', ''le'', ''nle'']"

section \<open>Group numbers\<close>

definition X86_INSN_FLAG_SET_GROUP :: "nat \<Rightarrow> u16" where
  "X86_INSN_FLAG_SET_GROUP n = push_bit 5 (of_nat n)"

definition X86_INSN_FLAG_GET_GROUP :: "u16 \<Rightarrow> nat" where
  "X86_INSN_FLAG_GET_GROUP f = unat (drop_bit 5 f AND 63)"

definition X86_INSN_GROUP_START :: nat where "X86_INSN_GROUP_START = 0"
definition X86_INSN_MODRM_REG_GROUP_1 :: nat where "X86_INSN_MODRM_REG_GROUP_1 = 1"
definition X86_INSN_MODRM_REG_GROUP_1a :: nat where "X86_INSN_MODRM_REG_GROUP_1a = 2"
definition X86_INSN_MODRM_REG_GROUP_2 :: nat where "X86_INSN_MODRM_REG_GROUP_2 = 3"
definition X86_INSN_MODRM_REG_GROUP_3 :: nat where "X86_INSN_MODRM_REG_GROUP_3 = 4"
definition X86_INSN_MODRM_REG_GROUP_4 :: nat where "X86_INSN_MODRM_REG_GROUP_4 = 5"
definition X86_INSN_MODRM_REG_GROUP_5 :: nat where "X86_INSN_MODRM_REG_GROUP_5 = 6"
definition X86_INSN_MODRM_REG_GROUP_6 :: nat where "X86_INSN_MODRM_REG_GROUP_6 = 7"
definition X86_INSN_MODRM_REG_GROUP_7 :: nat where "X86_INSN_MODRM_REG_GROUP_7 = 8"
definition X86_INSN_MODRM_REG_GROUP_8 :: nat where "X86_INSN_MODRM_REG_GROUP_8 = 9"
definition X86_INSN_MODRM_REG_GROUP_9 :: nat where "X86_INSN_MODRM_REG_GROUP_9 = 10"
definition X86_INSN_MODRM_REG_GROUP_10 :: nat where "X86_INSN_MODRM_REG_GROUP_10 = 11"
definition X86_INSN_MODRM_REG_GROUP_11 :: nat where "X86_INSN_MODRM_REG_GROUP_11 = 12"
definition X86_INSN_MODRM_REG_GROUP_12 :: nat where "X86_INSN_MODRM_REG_GROUP_12 = 13"
definition X86_INSN_MODRM_REG_GROUP_13 :: nat where "X86_INSN_MODRM_REG_GROUP_13 = 14"
definition X86_INSN_MODRM_REG_GROUP_14 :: nat where "X86_INSN_MODRM_REG_GROUP_14 = 15"
definition X86_INSN_MODRM_REG_GROUP_15 :: nat where "X86_INSN_MODRM_REG_GROUP_15 = 16"
definition X86_INSN_MODRM_REG_GROUP_16 :: nat where "X86_INSN_MODRM_REG_GROUP_16 = 17"
definition X86_INSN_MODRM_REG_GROUP_p :: nat where "X86_INSN_MODRM_REG_GROUP_p = 18"
definition X86_INSN_SSE_GROUP_START :: nat where "X86_INSN_SSE_GROUP_START = 19"
definition X86_INSN_SSE_GROUP_10 :: nat where "X86_INSN_SSE_GROUP_10 = 20"
definition X86_INSN_SSE_GROUP_28 :: nat where "X86_INSN_SSE_GROUP_28 = 21"
definition X86_INSN_SSE_GROUP_50 :: nat where "X86_INSN_SSE_GROUP_50 = 22"
definition X86_INSN_SSE_GROUP_58 :: nat where "X86_INSN_SSE_GROUP_58 = 23"
definition X86_INSN_SSE_GROUP_60 :: nat where "X86_INSN_SSE_GROUP_60 = 24"
definition X86_INSN_SSE_GROUP_68 :: nat where "X86_INSN_SSE_GROUP_68 = 25"
definition X86_INSN_SSE_GROUP_70 :: nat where "X86_INSN_SSE_GROUP_70 = 26"
definition X86_INSN_SSE_GROUP_78 :: nat where "X86_INSN_SSE_GROUP_78 = 27"
definition X86_INSN_SSE_GROUP_c0 :: nat where "X86_INSN_SSE_GROUP_c0 = 28"
definition X86_INSN_SSE_GROUP_d0 :: nat where "X86_INSN_SSE_GROUP_d0 = 29"
definition X86_INSN_SSE_GROUP_d8 :: nat where "X86_INSN_SSE_GROUP_d8 = 30"
definition X86_INSN_SSE_GROUP_e0 :: nat where "X86_INSN_SSE_GROUP_e0 = 31"
definition X86_INSN_SSE_GROUP_e8 :: nat where "X86_INSN_SSE_GROUP_e8 = 32"
definition X86_INSN_SSE_GROUP_f0 :: nat where "X86_INSN_SSE_GROUP_f0 = 33"
definition X86_INSN_SSE_GROUP_f8 :: nat where "X86_INSN_SSE_GROUP_f8 = 34"

text \<open>The flag of an entry that belongs to a group.\<close>

definition X86_INSN_FLAG_MODRM_REG_GROUP_1 :: u16 where
  "X86_INSN_FLAG_MODRM_REG_GROUP_1 = X86_INSN_FLAG_SET_GROUP X86_INSN_MODRM_REG_GROUP_1"
definition X86_INSN_FLAG_MODRM_REG_GROUP_1a :: u16 where
  "X86_INSN_FLAG_MODRM_REG_GROUP_1a = X86_INSN_FLAG_SET_GROUP X86_INSN_MODRM_REG_GROUP_1a"
definition X86_INSN_FLAG_MODRM_REG_GROUP_2 :: u16 where
  "X86_INSN_FLAG_MODRM_REG_GROUP_2 = X86_INSN_FLAG_SET_GROUP X86_INSN_MODRM_REG_GROUP_2"
definition X86_INSN_FLAG_MODRM_REG_GROUP_3 :: u16 where
  "X86_INSN_FLAG_MODRM_REG_GROUP_3 = X86_INSN_FLAG_SET_GROUP X86_INSN_MODRM_REG_GROUP_3"
definition X86_INSN_FLAG_MODRM_REG_GROUP_4 :: u16 where
  "X86_INSN_FLAG_MODRM_REG_GROUP_4 = X86_INSN_FLAG_SET_GROUP X86_INSN_MODRM_REG_GROUP_4"
definition X86_INSN_FLAG_MODRM_REG_GROUP_5 :: u16 where
  "X86_INSN_FLAG_MODRM_REG_GROUP_5 = X86_INSN_FLAG_SET_GROUP X86_INSN_MODRM_REG_GROUP_5"
definition X86_INSN_FLAG_MODRM_REG_GROUP_6 :: u16 where
  "X86_INSN_FLAG_MODRM_REG_GROUP_6 = X86_INSN_FLAG_SET_GROUP X86_INSN_MODRM_REG_GROUP_6"
definition X86_INSN_FLAG_MODRM_REG_GROUP_7 :: u16 where
  "X86_INSN_FLAG_MODRM_REG_GROUP_7 = X86_INSN_FLAG_SET_GROUP X86_INSN_MODRM_REG_GROUP_7"
definition X86_INSN_FLAG_MODRM_REG_GROUP_8 :: u16 where
  "X86_INSN_FLAG_MODRM_REG_GROUP_8 = X86_INSN_FLAG_SET_GROUP X86_INSN_MODRM_REG_GROUP_8"
definition X86_INSN_FLAG_MODRM_REG_GROUP_9 :: u16 where
  "X86_INSN_FLAG_MODRM_REG_GROUP_9 = X86_INSN_FLAG_SET_GROUP X86_INSN_MODRM_REG_GROUP_9"
definition X86_INSN_FLAG_MODRM_REG_GROUP_10 :: u16 where
  "X86_INSN_FLAG_MODRM_REG_GROUP_10 = X86_INSN_FLAG_SET_GROUP X86_INSN_MODRM_REG_GROUP_10"
definition X86_INSN_FLAG_MODRM_REG_GROUP_11 :: u16 where
  "X86_INSN_FLAG_MODRM_REG_GROUP_11 = X86_INSN_FLAG_SET_GROUP X86_INSN_MODRM_REG_GROUP_11"
definition X86_INSN_FLAG_MODRM_REG_GROUP_12 :: u16 where
  "X86_INSN_FLAG_MODRM_REG_GROUP_12 = X86_INSN_FLAG_SET_GROUP X86_INSN_MODRM_REG_GROUP_12"
definition X86_INSN_FLAG_MODRM_REG_GROUP_13 :: u16 where
  "X86_INSN_FLAG_MODRM_REG_GROUP_13 = X86_INSN_FLAG_SET_GROUP X86_INSN_MODRM_REG_GROUP_13"
definition X86_INSN_FLAG_MODRM_REG_GROUP_14 :: u16 where
  "X86_INSN_FLAG_MODRM_REG_GROUP_14 = X86_INSN_FLAG_SET_GROUP X86_INSN_MODRM_REG_GROUP_14"
definition X86_INSN_FLAG_MODRM_REG_GROUP_15 :: u16 where
  "X86_INSN_FLAG_MODRM_REG_GROUP_15 = X86_INSN_FLAG_SET_GROUP X86_INSN_MODRM_REG_GROUP_15"
definition X86_INSN_FLAG_MODRM_REG_GROUP_16 :: u16 where
  "X86_INSN_FLAG_MODRM_REG_GROUP_16 = X86_INSN_FLAG_SET_GROUP X86_INSN_MODRM_REG_GROUP_16"
definition X86_INSN_FLAG_MODRM_REG_GROUP_p :: u16 where
  "X86_INSN_FLAG_MODRM_REG_GROUP_p = X86_INSN_FLAG_SET_GROUP X86_INSN_MODRM_REG_GROUP_p"
definition X86_INSN_FLAG_SSE_GROUP_10 :: u16 where
  "X86_INSN_FLAG_SSE_GROUP_10 = X86_INSN_FLAG_SET_GROUP X86_INSN_SSE_GROUP_10"
definition X86_INSN_FLAG_SSE_GROUP_28 :: u16 where
  "X86_INSN_FLAG_SSE_GROUP_28 = X86_INSN_FLAG_SET_GROUP X86_INSN_SSE_GROUP_28"
definition X86_INSN_FLAG_SSE_GROUP_50 :: u16 where
  "X86_INSN_FLAG_SSE_GROUP_50 = X86_INSN_FLAG_SET_GROUP X86_INSN_SSE_GROUP_50"
definition X86_INSN_FLAG_SSE_GROUP_58 :: u16 where
  "X86_INSN_FLAG_SSE_GROUP_58 = X86_INSN_FLAG_SET_GROUP X86_INSN_SSE_GROUP_58"
definition X86_INSN_FLAG_SSE_GROUP_60 :: u16 where
  "X86_INSN_FLAG_SSE_GROUP_60 = X86_INSN_FLAG_SET_GROUP X86_INSN_SSE_GROUP_60"
definition X86_INSN_FLAG_SSE_GROUP_68 :: u16 where
  "X86_INSN_FLAG_SSE_GROUP_68 = X86_INSN_FLAG_SET_GROUP X86_INSN_SSE_GROUP_68"
definition X86_INSN_FLAG_SSE_GROUP_70 :: u16 where
  "X86_INSN_FLAG_SSE_GROUP_70 = X86_INSN_FLAG_SET_GROUP X86_INSN_SSE_GROUP_70"
definition X86_INSN_FLAG_SSE_GROUP_78 :: u16 where
  "X86_INSN_FLAG_SSE_GROUP_78 = X86_INSN_FLAG_SET_GROUP X86_INSN_SSE_GROUP_78"
definition X86_INSN_FLAG_SSE_GROUP_c0 :: u16 where
  "X86_INSN_FLAG_SSE_GROUP_c0 = X86_INSN_FLAG_SET_GROUP X86_INSN_SSE_GROUP_c0"
definition X86_INSN_FLAG_SSE_GROUP_d0 :: u16 where
  "X86_INSN_FLAG_SSE_GROUP_d0 = X86_INSN_FLAG_SET_GROUP X86_INSN_SSE_GROUP_d0"
definition X86_INSN_FLAG_SSE_GROUP_d8 :: u16 where
  "X86_INSN_FLAG_SSE_GROUP_d8 = X86_INSN_FLAG_SET_GROUP X86_INSN_SSE_GROUP_d8"
definition X86_INSN_FLAG_SSE_GROUP_e0 :: u16 where
  "X86_INSN_FLAG_SSE_GROUP_e0 = X86_INSN_FLAG_SET_GROUP X86_INSN_SSE_GROUP_e0"
definition X86_INSN_FLAG_SSE_GROUP_e8 :: u16 where
  "X86_INSN_FLAG_SSE_GROUP_e8 = X86_INSN_FLAG_SET_GROUP X86_INSN_SSE_GROUP_e8"
definition X86_INSN_FLAG_SSE_GROUP_f0 :: u16 where
  "X86_INSN_FLAG_SSE_GROUP_f0 = X86_INSN_FLAG_SET_GROUP X86_INSN_SSE_GROUP_f0"
definition X86_INSN_FLAG_SSE_GROUP_f8 :: u16 where
  "X86_INSN_FLAG_SSE_GROUP_f8 = X86_INSN_FLAG_SET_GROUP X86_INSN_SSE_GROUP_f8"

lemmas x86_group_defs =
  X86_INSN_MODRM_REG_GROUP_1_def X86_INSN_MODRM_REG_GROUP_1a_def
  X86_INSN_MODRM_REG_GROUP_2_def X86_INSN_MODRM_REG_GROUP_3_def
  X86_INSN_MODRM_REG_GROUP_4_def X86_INSN_MODRM_REG_GROUP_5_def
  X86_INSN_MODRM_REG_GROUP_6_def X86_INSN_MODRM_REG_GROUP_7_def
  X86_INSN_MODRM_REG_GROUP_8_def X86_INSN_MODRM_REG_GROUP_9_def
  X86_INSN_MODRM_REG_GROUP_10_def X86_INSN_MODRM_REG_GROUP_11_def
  X86_INSN_MODRM_REG_GROUP_12_def X86_INSN_MODRM_REG_GROUP_13_def
  X86_INSN_MODRM_REG_GROUP_14_def X86_INSN_MODRM_REG_GROUP_15_def
  X86_INSN_MODRM_REG_GROUP_16_def X86_INSN_MODRM_REG_GROUP_p_def
  X86_INSN_SSE_GROUP_10_def X86_INSN_SSE_GROUP_28_def X86_INSN_SSE_GROUP_50_def
  X86_INSN_SSE_GROUP_58_def X86_INSN_SSE_GROUP_60_def X86_INSN_SSE_GROUP_68_def
  X86_INSN_SSE_GROUP_70_def X86_INSN_SSE_GROUP_78_def X86_INSN_SSE_GROUP_c0_def
  X86_INSN_SSE_GROUP_d0_def X86_INSN_SSE_GROUP_d8_def X86_INSN_SSE_GROUP_e0_def
  X86_INSN_SSE_GROUP_e8_def X86_INSN_SSE_GROUP_f0_def X86_INSN_SSE_GROUP_f8_def
  X86_INSN_FLAG_MODRM_REG_GROUP_1_def X86_INSN_FLAG_MODRM_REG_GROUP_1a_def
  X86_INSN_FLAG_MODRM_REG_GROUP_2_def X86_INSN_FLAG_MODRM_REG_GROUP_3_def
  X86_INSN_FLAG_MODRM_REG_GROUP_4_def X86_INSN_FLAG_MODRM_REG_GROUP_5_def
  X86_INSN_FLAG_MODRM_REG_GROUP_6_def X86_INSN_FLAG_MODRM_REG_GROUP_7_def
  X86_INSN_FLAG_MODRM_REG_GROUP_8_def X86_INSN_FLAG_MODRM_REG_GROUP_9_def
  X86_INSN_FLAG_MODRM_REG_GROUP_10_def X86_INSN_FLAG_MODRM_REG_GROUP_11_def
  X86_INSN_FLAG_MODRM_REG_GROUP_12_def X86_INSN_FLAG_MODRM_REG_GROUP_13_def
  X86_INSN_FLAG_MODRM_REG_GROUP_14_def X86_INSN_FLAG_MODRM_REG_GROUP_15_def
  X86_INSN_FLAG_MODRM_REG_GROUP_16_def X86_INSN_FLAG_MODRM_REG_GROUP_p_def
  X86_INSN_FLAG_SSE_GROUP_10_def X86_INSN_FLAG_SSE_GROUP_28_def
  X86_INSN_FLAG_SSE_GROUP_50_def X86_INSN_FLAG_SSE_GROUP_58_def
  X86_INSN_FLAG_SSE_GROUP_60_def X86_INSN_FLAG_SSE_GROUP_68_def
  X86_INSN_FLAG_SSE_GROUP_70_def X86_INSN_FLAG_SSE_GROUP_78_def
  X86_INSN_FLAG_SSE_GROUP_c0_def X86_INSN_FLAG_SSE_GROUP_d0_def
  X86_INSN_FLAG_SSE_GROUP_d8_def X86_INSN_FLAG_SSE_GROUP_e0_def
  X86_INSN_FLAG_SSE_GROUP_e8_def X86_INSN_FLAG_SSE_GROUP_f0_def
  X86_INSN_FLAG_SSE_GROUP_f8_def X86_INSN_SSE_GROUP_START_def

section \<open>The one-byte opcode map\<close>

definition x86_opcode_one_byte_00 :: "x86_insn_spec_t list" where
  "x86_opcode_one_byte_00 =
     foreach_x86_operand_combine ''add'' @
     [op0 ''push_es'', op0f ''pop_es'' X86_INSN_SPEC_DEFAULT_64_BIT] @
     foreach_x86_operand_combine ''or'' @
     [op0f ''push_cs'' X86_INSN_SPEC_DEFAULT_64_BIT, op0 ''escape_two_byte'']"

definition x86_opcode_one_byte_10 :: "x86_insn_spec_t list" where
  "x86_opcode_one_byte_10 =
     foreach_x86_operand_combine ''adc'' @
     [op0 ''push_ss'', op0 ''pop_ss''] @
     foreach_x86_operand_combine ''sbb'' @
     [op0 ''push_ds'', op0 ''pop_ds'']"

definition x86_opcode_one_byte_20 :: "x86_insn_spec_t list" where
  "x86_opcode_one_byte_20 =
     foreach_x86_operand_combine ''and'' @
     [op0 ''segment_es'', op0 ''daa''] @
     foreach_x86_operand_combine ''sub'' @
     [op0 ''segment_cs'', op0 ''das'']"

definition x86_opcode_one_byte_30 :: "x86_insn_spec_t list" where
  "x86_opcode_one_byte_30 =
     foreach_x86_operand_combine ''xor'' @
     [op0 ''segment_ss'', op0 ''aaa''] @
     foreach_x86_operand_combine ''cmp'' @
     [op0 ''segment_ds'', op0 ''aas'']"

definition x86_opcode_one_byte_40 :: "x86_insn_spec_t list" where
  "x86_opcode_one_byte_40 =
     map (\<lambda>r. op1 ''inc'' r) foreach_x86_gp_reg @
     map (\<lambda>r. op1 ''dec'' r) foreach_x86_gp_reg"

definition x86_opcode_one_byte_50 :: "x86_insn_spec_t list" where
  "x86_opcode_one_byte_50 =
     map (\<lambda>r. op1f ''push'' X86_INSN_SPEC_DEFAULT_64_BIT r) foreach_x86_gp_reg @
     map (\<lambda>r. op1f ''pop'' X86_INSN_SPEC_DEFAULT_64_BIT r) foreach_x86_gp_reg"

definition x86_opcode_one_byte_60 :: "x86_insn_spec_t list" where
  "x86_opcode_one_byte_60 =
     [op0 ''pusha'', op0 ''popa'', op2 ''bound'' ''Gv'' ''Ma'',
      op2 ''movsxd'' ''Gv'' ''Ed'', op0 ''segment_fs'', op0 ''segment_gs'',
      op0 ''operand_type'', op0 ''address_size'',
      op1f ''push'' X86_INSN_SPEC_DEFAULT_64_BIT ''Iz'', op3 ''imul'' ''Gv'' ''Ev'' ''Iz'',
      op1f ''push'' X86_INSN_SPEC_DEFAULT_64_BIT ''Ib'', op3 ''imul'' ''Gv'' ''Ev'' ''Ib'',
      op1 ''insb'' ''DX'', op1 ''insw'' ''DX'', op1 ''outsb'' ''DX'', op1 ''outsw'' ''DX'']"

definition x86_opcode_one_byte_70 :: "x86_insn_spec_t list" where
  "x86_opcode_one_byte_70 =
     map (\<lambda>x. op1 (''j'' @ x) ''Jb'') foreach_x86_condition"

definition x86_opcode_one_byte_80 :: "x86_insn_spec_t list" where
  "x86_opcode_one_byte_80 =
     [op2f ''modrm_group_1'' X86_INSN_FLAG_MODRM_REG_GROUP_1 ''Eb'' ''Ib'',
      op2f ''modrm_group_1'' X86_INSN_FLAG_MODRM_REG_GROUP_1 ''Ev'' ''Iz'',
      op2f ''modrm_group_1'' X86_INSN_FLAG_MODRM_REG_GROUP_1 ''Eb'' ''Ib'',
      op2f ''modrm_group_1'' X86_INSN_FLAG_MODRM_REG_GROUP_1 ''Ev'' ''Ib'',
      op2 ''test'' ''Eb'' ''Gb'', op2 ''test'' ''Ev'' ''Gv'', op2 ''xchg'' ''Eb'' ''Gb'',
      op2 ''xchg'' ''Ev'' ''Gv'', op2 ''mov'' ''Eb'' ''Gb'', op2 ''mov'' ''Ev'' ''Gv'',
      op2 ''mov'' ''Gb'' ''Eb'', op2 ''mov'' ''Gv'' ''Ev'', op2 ''mov'' ''Ev'' ''Sw'',
      op2 ''lea'' ''Gv'' ''Ev'', op2 ''mov'' ''Sw'' ''Ew'',
      op1f ''modrm_group_1a'' X86_INSN_FLAG_MODRM_REG_GROUP_1a ''Ev'']"

definition x86_opcode_one_byte_90 :: "x86_insn_spec_t list" where
  "x86_opcode_one_byte_90 =
     [op0 ''nop'', op1 ''xchg'' ''CX'', op1 ''xchg'' ''DX'', op1 ''xchg'' ''BX'',
      op1 ''xchg'' ''SP'', op1 ''xchg'' ''BP'', op1 ''xchg'' ''SI'', op1 ''xchg'' ''DI'',
      op0 ''cbw'', op0 ''cwd'', op1 ''call'' ''Ap'', op0 ''wait'', op0 ''pushf'',
      op0 ''popf'', op0 ''sahf'', op0 ''lahf'']"

definition x86_opcode_one_byte_a0 :: "x86_insn_spec_t list" where
  "x86_opcode_one_byte_a0 =
     [op2 ''mov'' ''AL'' ''Ob'', op2 ''mov'' ''AX'' ''Ov'', op2 ''mov'' ''Ob'' ''AL'',
      op2 ''mov'' ''Ov'' ''AX'', op0 ''movsb'', op0 ''movsw'', op0 ''cmpsb'', op0 ''cmpsw'',
      op2 ''test'' ''AL'' ''Ib'', op2 ''test'' ''AX'' ''Iz'', op1 ''stosb'' ''AL'',
      op1 ''stosw'' ''AX'', op1 ''lodsb'' ''AL'', op1 ''lodsw'' ''AX'',
      op1 ''scasb'' ''AL'', op1 ''scasw'' ''AX'']"

definition x86_opcode_one_byte_b0 :: "x86_insn_spec_t list" where
  "x86_opcode_one_byte_b0 =
     [op2 ''mov'' ''AL'' ''Ib'', op2 ''mov'' ''CL'' ''Ib'', op2 ''mov'' ''DL'' ''Ib'',
      op2 ''mov'' ''BL'' ''Ib'', op2 ''mov'' ''AH'' ''Ib'', op2 ''mov'' ''CH'' ''Ib'',
      op2 ''mov'' ''DH'' ''Ib'', op2 ''mov'' ''BH'' ''Ib''] @
     map (\<lambda>r. op2 ''mov'' r ''Iv'') foreach_x86_gp_reg"

definition x86_opcode_one_byte_c0 :: "x86_insn_spec_t list" where
  "x86_opcode_one_byte_c0 =
     [op2f ''modrm_group_2'' X86_INSN_FLAG_MODRM_REG_GROUP_2 ''Eb'' ''Ib'',
      op2f ''modrm_group_2'' X86_INSN_FLAG_MODRM_REG_GROUP_2 ''Ev'' ''Ib'',
      op1 ''ret'' ''Iw'', op0 ''ret'', op2 ''les'' ''Gz'' ''Mp'', op2 ''lds'' ''Gz'' ''Mp'',
      op2f ''modrm_group_11'' X86_INSN_FLAG_MODRM_REG_GROUP_11 ''Eb'' ''Ib'',
      op2f ''modrm_group_11'' X86_INSN_FLAG_MODRM_REG_GROUP_11 ''Ev'' ''Iz'',
      op2 ''enter'' ''Iw'' ''Ib'', op0 ''leave'', op1 ''ret'' ''Iw'', op0 ''ret'',
      op0 ''int3'', op1 ''int'' ''Ib'', op0 ''into'', op0 ''iret'']"

definition x86_opcode_one_byte_d0 :: "x86_insn_spec_t list" where
  "x86_opcode_one_byte_d0 =
     [op2f ''modrm_group_2'' X86_INSN_FLAG_MODRM_REG_GROUP_2 ''Eb'' ''1b'',
      op2f ''modrm_group_2'' X86_INSN_FLAG_MODRM_REG_GROUP_2 ''Ev'' ''1b'',
      op2f ''modrm_group_2'' X86_INSN_FLAG_MODRM_REG_GROUP_2 ''Eb'' ''CL'',
      op2f ''modrm_group_2'' X86_INSN_FLAG_MODRM_REG_GROUP_2 ''Ev'' ''CL'', op0 ''aam'',
      op0 ''aad'', op0 ''salc'', op0 ''xlat'', op0 ''bad'', op0 ''bad'', op0 ''bad'',
      op0 ''bad'', op0 ''bad'', op0 ''bad'', op0 ''bad'', op0 ''bad'']"

definition x86_opcode_one_byte_e0 :: "x86_insn_spec_t list" where
  "x86_opcode_one_byte_e0 =
     [op1 ''loopnz'' ''Jb'', op1 ''loopz'' ''Jb'', op1 ''loop'' ''Jb'', op1 ''jcxz'' ''Jb'',
      op2 ''in'' ''AL'' ''Ib'', op2 ''in'' ''AX'' ''Ib'', op2 ''out'' ''Ib'' ''AL'',
      op2 ''out'' ''Ib'' ''AX'', op1f ''call'' X86_INSN_SPEC_DEFAULT_64_BIT ''Jz'',
      op1f ''jmp'' X86_INSN_SPEC_DEFAULT_64_BIT ''Jz'', op1 ''jmp'' ''Ap'',
      op1 ''jmp'' ''Jb'', op2 ''in'' ''AL'' ''DX'', op2 ''in'' ''AX'' ''DX'',
      op2 ''out'' ''DX'' ''AL'', op2 ''out'' ''DX'' ''AX'']"

definition x86_opcode_one_byte_f0 :: "x86_insn_spec_t list" where
  "x86_opcode_one_byte_f0 =
     [op0 ''lock'', op0 ''int1'', op0 ''repne'', op0 ''rep'', op0 ''hlt'', op0 ''cmc'',
      op0f ''modrm_group_3'' X86_INSN_FLAG_MODRM_REG_GROUP_3,
      op0f ''modrm_group_3'' X86_INSN_FLAG_MODRM_REG_GROUP_3, op0 ''clc'', op0 ''stc'',
      op0 ''cli'', op0 ''sti'', op0 ''cld'', op0 ''std'',
      op1f ''modrm_group_4'' X86_INSN_FLAG_MODRM_REG_GROUP_4 ''Eb'',
      op0f ''modrm_group_5'' X86_INSN_FLAG_MODRM_REG_GROUP_5]"

definition x86_opcode_map_one_byte :: "x86_insn_spec_t list list" where
  "x86_opcode_map_one_byte =
     [x86_opcode_one_byte_00, x86_opcode_one_byte_10, x86_opcode_one_byte_20,
      x86_opcode_one_byte_30, x86_opcode_one_byte_40, x86_opcode_one_byte_50,
      x86_opcode_one_byte_60, x86_opcode_one_byte_70, x86_opcode_one_byte_80,
      x86_opcode_one_byte_90, x86_opcode_one_byte_a0, x86_opcode_one_byte_b0,
      x86_opcode_one_byte_c0, x86_opcode_one_byte_d0, x86_opcode_one_byte_e0,
      x86_opcode_one_byte_f0]"

lemmas one_byte_defs =
  x86_opcode_one_byte_00_def x86_opcode_one_byte_10_def x86_opcode_one_byte_20_def
  x86_opcode_one_byte_30_def x86_opcode_one_byte_40_def x86_opcode_one_byte_50_def
  x86_opcode_one_byte_60_def x86_opcode_one_byte_70_def x86_opcode_one_byte_80_def
  x86_opcode_one_byte_90_def x86_opcode_one_byte_a0_def x86_opcode_one_byte_b0_def
  x86_opcode_one_byte_c0_def x86_opcode_one_byte_d0_def x86_opcode_one_byte_e0_def
  x86_opcode_one_byte_f0_def x86_opcode_map_one_byte_def

section \<open>The two-byte opcode map\<close>

definition x86_opcode_two_byte_00 :: "x86_insn_spec_t list" where
  "x86_opcode_two_byte_00 =
     [op0f ''modrm_group_6'' X86_INSN_FLAG_MODRM_REG_GROUP_6,
      op0f ''modrm_group_7'' X86_INSN_FLAG_MODRM_REG_GROUP_7, op2 ''lar'' ''Gv'' ''Ew'',
      op2 ''lsl'' ''Gv'' ''Ew'', op0 ''bad'', op0 ''syscall'', op0 ''clts'', op0 ''sysret'',
      op0 ''invd'', op0 ''wbinvd'', op0 ''bad'', op0 ''ud2'', op0 ''bad'',
      op0f ''modrm_group_p'' X86_INSN_FLAG_MODRM_REG_GROUP_p, op0 ''femms'',
      op0 ''escape_3dnow'']"

definition x86_opcode_two_byte_10 :: "x86_insn_spec_t list" where
  "x86_opcode_two_byte_10 =
     [op2f ''movups'' X86_INSN_FLAG_SSE_GROUP_10 ''Gx'' ''Ex'',
      op2f ''movups'' X86_INSN_FLAG_SSE_GROUP_10 ''Ex'' ''Gx'',
      op2f ''movlps'' X86_INSN_FLAG_SSE_GROUP_10 ''Ex'' ''Gx'',
      op2f ''movlps'' X86_INSN_FLAG_SSE_GROUP_10 ''Gx'' ''Ex'',
      op2f ''unpcklps'' X86_INSN_FLAG_SSE_GROUP_10 ''Gx'' ''Ex'',
      op2f ''unpckhps'' X86_INSN_FLAG_SSE_GROUP_10 ''Gx'' ''Ex'',
      op2f ''movhps'' X86_INSN_FLAG_SSE_GROUP_10 ''Ex'' ''Gx'',
      op2f ''movhps'' X86_INSN_FLAG_SSE_GROUP_10 ''Gx'' ''Ex'',
      op0f ''modrm_group_16'' X86_INSN_FLAG_MODRM_REG_GROUP_16, op0 ''nop'', op0 ''nop'',
      op0 ''nop'', op0 ''nop'', op0 ''nop'', op0 ''nop'', op0 ''nop'']"

definition x86_opcode_two_byte_20 :: "x86_insn_spec_t list" where
  "x86_opcode_two_byte_20 =
     [op2 ''mov'' ''Rv'' ''Cv'', op2 ''mov'' ''Rv'' ''Dv'', op2 ''mov'' ''Cv'' ''Rv'',
      op2 ''mov'' ''Dv'' ''Rv'', op0 ''bad'', op0 ''bad'', op0 ''bad'', op0 ''bad'',
      op2f ''movaps'' X86_INSN_FLAG_SSE_GROUP_28 ''Gx'' ''Ex'',
      op2f ''movaps'' X86_INSN_FLAG_SSE_GROUP_28 ''Ex'' ''Gx'',
      op2f ''cvtpi2ps'' X86_INSN_FLAG_SSE_GROUP_28 ''Gx'' ''Ex'',
      op2f ''movntps'' X86_INSN_FLAG_SSE_GROUP_28 ''Mx'' ''Gx'',
      op2f ''cvttps2pi'' X86_INSN_FLAG_SSE_GROUP_28 ''Gx'' ''Ex'',
      op2f ''cvtps2pi'' X86_INSN_FLAG_SSE_GROUP_28 ''Gx'' ''Ex'',
      op2f ''ucomiss'' X86_INSN_FLAG_SSE_GROUP_28 ''Gx'' ''Ex'',
      op2f ''comiss'' X86_INSN_FLAG_SSE_GROUP_28 ''Gx'' ''Ex'']"

definition x86_opcode_two_byte_30 :: "x86_insn_spec_t list" where
  "x86_opcode_two_byte_30 =
     [op0 ''wrmsr'', op0 ''rdtsc'', op0 ''rdmsr'', op0 ''rdpmc'', op0 ''sysenter'',
      op0 ''sysexit'', op0 ''bad'', op0 ''bad'', op0 ''bad'', op0 ''bad'', op0 ''bad'',
      op0 ''bad'', op0 ''bad'', op0 ''bad'', op0 ''bad'', op0 ''bad'']"

definition x86_opcode_two_byte_40 :: "x86_insn_spec_t list" where
  "x86_opcode_two_byte_40 =
     map (\<lambda>x. op2 (''cmov'' @ x) ''Gv'' ''Ev'') foreach_x86_condition"

definition x86_opcode_two_byte_50 :: "x86_insn_spec_t list" where
  "x86_opcode_two_byte_50 =
     [op2f ''movmskps'' X86_INSN_FLAG_SSE_GROUP_50 ''Gd'' ''Rx'',
      op2f ''sqrtps'' X86_INSN_FLAG_SSE_GROUP_50 ''Gx'' ''Ex'',
      op2f ''rsqrtps'' X86_INSN_FLAG_SSE_GROUP_50 ''Gx'' ''Ex'',
      op2f ''rcpps'' X86_INSN_FLAG_SSE_GROUP_50 ''Gx'' ''Ex'',
      op2f ''andps'' X86_INSN_FLAG_SSE_GROUP_50 ''Gx'' ''Ex'',
      op2f ''andnps'' X86_INSN_FLAG_SSE_GROUP_50 ''Gx'' ''Ex'',
      op2f ''orps'' X86_INSN_FLAG_SSE_GROUP_50 ''Gx'' ''Ex'',
      op2f ''xorps'' X86_INSN_FLAG_SSE_GROUP_50 ''Gx'' ''Ex'',
      op2f ''addps'' X86_INSN_FLAG_SSE_GROUP_58 ''Gx'' ''Ex'',
      op2f ''mulps'' X86_INSN_FLAG_SSE_GROUP_58 ''Gx'' ''Ex'',
      op2f ''cvtps2pd'' X86_INSN_FLAG_SSE_GROUP_58 ''Gx'' ''Ex'',
      op2f ''cvtdq2ps'' X86_INSN_FLAG_SSE_GROUP_58 ''Gx'' ''Ex'',
      op2f ''subps'' X86_INSN_FLAG_SSE_GROUP_58 ''Gx'' ''Ex'',
      op2f ''minps'' X86_INSN_FLAG_SSE_GROUP_58 ''Gx'' ''Ex'',
      op2f ''divps'' X86_INSN_FLAG_SSE_GROUP_58 ''Gx'' ''Ex'',
      op2f ''maxps'' X86_INSN_FLAG_SSE_GROUP_58 ''Gx'' ''Ex'']"

definition x86_opcode_two_byte_60 :: "x86_insn_spec_t list" where
  "x86_opcode_two_byte_60 =
     [op2f ''punpcklbw'' X86_INSN_FLAG_SSE_GROUP_60 ''Gm'' ''Em'',
      op2f ''punpcklwd'' X86_INSN_FLAG_SSE_GROUP_60 ''Gm'' ''Em'',
      op2f ''punpckldq'' X86_INSN_FLAG_SSE_GROUP_60 ''Gm'' ''Em'',
      op2f ''packsswb'' X86_INSN_FLAG_SSE_GROUP_60 ''Gm'' ''Em'',
      op2f ''pcmpgtb'' X86_INSN_FLAG_SSE_GROUP_60 ''Gm'' ''Em'',
      op2f ''pcmpgtw'' X86_INSN_FLAG_SSE_GROUP_60 ''Gm'' ''Em'',
      op2f ''pcmpgtd'' X86_INSN_FLAG_SSE_GROUP_60 ''Gm'' ''Em'',
      op2f ''packuswb'' X86_INSN_FLAG_SSE_GROUP_60 ''Gm'' ''Em'',
      op2f ''punpckhbw'' X86_INSN_FLAG_SSE_GROUP_68 ''Gm'' ''Em'',
      op2f ''punpckhwd'' X86_INSN_FLAG_SSE_GROUP_68 ''Gm'' ''Em'',
      op2f ''punpckhdq'' X86_INSN_FLAG_SSE_GROUP_68 ''Gm'' ''Em'',
      op2f ''packssdw'' X86_INSN_FLAG_SSE_GROUP_68 ''Gm'' ''Em'',
      op0f ''bad'' X86_INSN_FLAG_SSE_GROUP_68, op0f ''bad'' X86_INSN_FLAG_SSE_GROUP_68,
      op2f ''movd'' X86_INSN_FLAG_SSE_GROUP_68 ''Gm'' ''Em'',
      op2f ''movq'' X86_INSN_FLAG_SSE_GROUP_68 ''Gm'' ''Em'']"

definition x86_opcode_two_byte_70 :: "x86_insn_spec_t list" where
  "x86_opcode_two_byte_70 =
     [op3f ''pshufw'' X86_INSN_FLAG_SSE_GROUP_70 ''Gm'' ''Em'' ''Ib'',
      op0f ''modrm_group_12'' X86_INSN_FLAG_MODRM_REG_GROUP_12,
      op0f ''modrm_group_13'' X86_INSN_FLAG_MODRM_REG_GROUP_13,
      op0f ''modrm_group_14'' X86_INSN_FLAG_MODRM_REG_GROUP_14,
      op2f ''pcmpeqb'' X86_INSN_FLAG_SSE_GROUP_70 ''Gm'' ''Em'',
      op2f ''pcmpeqw'' X86_INSN_FLAG_SSE_GROUP_70 ''Gm'' ''Em'',
      op2f ''pcmpeqd'' X86_INSN_FLAG_SSE_GROUP_70 ''Gm'' ''Em'',
      op0f ''emms'' X86_INSN_FLAG_SSE_GROUP_70, op0f ''bad'' X86_INSN_FLAG_SSE_GROUP_78,
      op0f ''bad'' X86_INSN_FLAG_SSE_GROUP_78, op0f ''bad'' X86_INSN_FLAG_SSE_GROUP_78,
      op0f ''bad'' X86_INSN_FLAG_SSE_GROUP_78, op0f ''bad'' X86_INSN_FLAG_SSE_GROUP_78,
      op0f ''bad'' X86_INSN_FLAG_SSE_GROUP_78,
      op2f ''movd'' X86_INSN_FLAG_SSE_GROUP_78 ''Em'' ''Gm'',
      op2f ''movq'' X86_INSN_FLAG_SSE_GROUP_78 ''Em'' ''Gm'']"

definition x86_opcode_two_byte_80 :: "x86_insn_spec_t list" where
  "x86_opcode_two_byte_80 =
     map (\<lambda>x. op1 (''jmp'' @ x) ''Jz'') foreach_x86_condition"

definition x86_opcode_two_byte_90 :: "x86_insn_spec_t list" where
  "x86_opcode_two_byte_90 =
     map (\<lambda>x. op1 (''set'' @ x) ''Eb'') foreach_x86_condition"

definition x86_opcode_two_byte_a0 :: "x86_insn_spec_t list" where
  "x86_opcode_two_byte_a0 =
     [op0 ''push_fs'', op0 ''pop_fs'', op0 ''cpuid'', op2 ''bt'' ''Ev'' ''Gv'',
      op3 ''shld'' ''Ev'' ''Gv'' ''Ib'', op3 ''shld'' ''Ev'' ''Gv'' ''CL'', op0 ''bad'',
      op0 ''bad'', op0 ''push_gs'', op0 ''pop_gs'', op0 ''rsm'', op2 ''bts'' ''Ev'' ''Gv'',
      op3 ''shrd'' ''Ev'' ''Gv'' ''Ib'', op3 ''shrd'' ''Ev'' ''Gv'' ''CL'',
      op0f ''modrm_group_15'' X86_INSN_FLAG_MODRM_REG_GROUP_15, op2 ''imul'' ''Gv'' ''Ev'']"

definition x86_opcode_two_byte_b0 :: "x86_insn_spec_t list" where
  "x86_opcode_two_byte_b0 =
     [op2 ''cmpxchg'' ''Eb'' ''Gb'', op2 ''cmpxchg'' ''Ev'' ''Gv'',
      op2 ''lss'' ''Gz'' ''Mp'', op2 ''btr'' ''Ev'' ''Gv'', op2 ''lfs'' ''Gz'' ''Mp'',
      op2 ''lgs'' ''Gz'' ''Mp'', op2 ''movzbl'' ''Gv'' ''Eb'', op2 ''movzwl'' ''Gv'' ''Ew'',
      op0 ''bad'', op0f ''modrm_group_10'' X86_INSN_FLAG_MODRM_REG_GROUP_10,
      op2f ''modrm_group_8'' X86_INSN_FLAG_MODRM_REG_GROUP_8 ''Ev'' ''Ib'',
      op2 ''btc'' ''Ev'' ''Gv'', op2 ''bsf'' ''Gv'' ''Ev'', op2 ''bsr'' ''Gv'' ''Ev'',
      op2 ''movsx'' ''Gv'' ''Eb'', op2 ''movsx'' ''Gv'' ''Ew'']"

definition x86_opcode_two_byte_c0 :: "x86_insn_spec_t list" where
  "x86_opcode_two_byte_c0 =
     [op2 ''xadd'' ''Eb'' ''Gb'', op2 ''xadd'' ''Ev'' ''Gv'',
      op3f ''cmpps'' X86_INSN_FLAG_SSE_GROUP_c0 ''Gx'' ''Ex'' ''Ib'',
      op2 ''movnti'' ''Mv'' ''Gv'',
      op3f ''pinsrw'' X86_INSN_FLAG_SSE_GROUP_c0 ''Gm'' ''Ew'' ''Ib'',
      op3f ''pextrw'' X86_INSN_FLAG_SSE_GROUP_c0 ''Gd'' ''Rm'' ''Ib'',
      op3f ''shufps'' X86_INSN_FLAG_SSE_GROUP_c0 ''Gx'' ''Ex'' ''Ib'',
      op1f ''modrm_group_9'' X86_INSN_FLAG_MODRM_REG_GROUP_9 ''Mx''] @
     map (\<lambda>r. op1 ''bswap'' r) foreach_x86_gp_reg"

definition x86_opcode_two_byte_d0 :: "x86_insn_spec_t list" where
  "x86_opcode_two_byte_d0 =
     [op0f ''bad'' X86_INSN_FLAG_SSE_GROUP_d0,
      op2f ''psrlw'' X86_INSN_FLAG_SSE_GROUP_d0 ''Gm'' ''Em'',
      op2f ''psrld'' X86_INSN_FLAG_SSE_GROUP_d0 ''Gm'' ''Em'',
      op2f ''psrlq'' X86_INSN_FLAG_SSE_GROUP_d0 ''Gm'' ''Em'',
      op2f ''paddq'' X86_INSN_FLAG_SSE_GROUP_d0 ''Gm'' ''Em'',
      op2f ''pmullw'' X86_INSN_FLAG_SSE_GROUP_d0 ''Gm'' ''Em'',
      op0f ''bad'' X86_INSN_FLAG_SSE_GROUP_d0,
      op2f ''pmovmskb'' X86_INSN_FLAG_SSE_GROUP_d0 ''Gd'' ''Rm'',
      op2f ''psubusb'' X86_INSN_FLAG_SSE_GROUP_d8 ''Gm'' ''Em'',
      op2f ''psubusw'' X86_INSN_FLAG_SSE_GROUP_d8 ''Gm'' ''Em'',
      op2f ''pminub'' X86_INSN_FLAG_SSE_GROUP_d8 ''Gm'' ''Em'',
      op2f ''pand'' X86_INSN_FLAG_SSE_GROUP_d8 ''Gm'' ''Em'',
      op2f ''paddusb'' X86_INSN_FLAG_SSE_GROUP_d8 ''Gm'' ''Em'',
      op2f ''paddusw'' X86_INSN_FLAG_SSE_GROUP_d8 ''Gm'' ''Em'',
      op2f ''pmaxub'' X86_INSN_FLAG_SSE_GROUP_d8 ''Gm'' ''Em'',
      op2f ''pandn'' X86_INSN_FLAG_SSE_GROUP_d8 ''Gm'' ''Em'']"

definition x86_opcode_two_byte_e0 :: "x86_insn_spec_t list" where
  "x86_opcode_two_byte_e0 =
     [op2f ''pavgb'' X86_INSN_FLAG_SSE_GROUP_e0 ''Gm'' ''Em'',
      op2f ''psraw'' X86_INSN_FLAG_SSE_GROUP_e0 ''Gm'' ''Em'',
      op2f ''psrad'' X86_INSN_FLAG_SSE_GROUP_e0 ''Gm'' ''Em'',
      op2f ''pavgw'' X86_INSN_FLAG_SSE_GROUP_e0 ''Gm'' ''Em'',
      op2f ''pmulhuw'' X86_INSN_FLAG_SSE_GROUP_e0 ''Gm'' ''Em'',
      op2f ''pmulhw'' X86_INSN_FLAG_SSE_GROUP_e0 ''Gm'' ''Em'',
      op2f ''bad'' X86_INSN_FLAG_SSE_GROUP_e0 ''Gm'' ''Em'',
      op2f ''movntq'' X86_INSN_FLAG_SSE_GROUP_e0 ''Mm'' ''Gm'',
      op2f ''psubsb'' X86_INSN_FLAG_SSE_GROUP_e8 ''Gm'' ''Em'',
      op2f ''psubsw'' X86_INSN_FLAG_SSE_GROUP_e8 ''Gm'' ''Em'',
      op2f ''pminsw'' X86_INSN_FLAG_SSE_GROUP_e8 ''Gm'' ''Em'',
      op2f ''por'' X86_INSN_FLAG_SSE_GROUP_e8 ''Gm'' ''Em'',
      op2f ''paddsb'' X86_INSN_FLAG_SSE_GROUP_e8 ''Gm'' ''Em'',
      op2f ''paddsw'' X86_INSN_FLAG_SSE_GROUP_e8 ''Gm'' ''Em'',
      op2f ''pmaxsw'' X86_INSN_FLAG_SSE_GROUP_e8 ''Gm'' ''Em'',
      op2f ''pxor'' X86_INSN_FLAG_SSE_GROUP_e8 ''Gm'' ''Em'']"

definition x86_opcode_two_byte_f0 :: "x86_insn_spec_t list" where
  "x86_opcode_two_byte_f0 =
     [op0f ''bad'' X86_INSN_FLAG_SSE_GROUP_f0,
      op2f ''psllw'' X86_INSN_FLAG_SSE_GROUP_f0 ''Gm'' ''Em'',
      op2f ''pslld'' X86_INSN_FLAG_SSE_GROUP_f0 ''Gm'' ''Em'',
      op2f ''psllq'' X86_INSN_FLAG_SSE_GROUP_f0 ''Gm'' ''Em'',
      op2f ''pmuludq'' X86_INSN_FLAG_SSE_GROUP_f0 ''Gm'' ''Em'',
      op2f ''pmaddwd'' X86_INSN_FLAG_SSE_GROUP_f0 ''Gm'' ''Em'',
      op2f ''psadbw'' X86_INSN_FLAG_SSE_GROUP_f0 ''Gm'' ''Em'',
      op2f ''maskmovq'' X86_INSN_FLAG_SSE_GROUP_f0 ''Gm'' ''Em'',
      op2f ''psubb'' X86_INSN_FLAG_SSE_GROUP_f8 ''Gm'' ''Em'',
      op2f ''psubw'' X86_INSN_FLAG_SSE_GROUP_f8 ''Gm'' ''Em'',
      op2f ''psubd'' X86_INSN_FLAG_SSE_GROUP_f8 ''Gm'' ''Em'',
      op2f ''psubq'' X86_INSN_FLAG_SSE_GROUP_f8 ''Gm'' ''Em'',
      op2f ''paddb'' X86_INSN_FLAG_SSE_GROUP_f8 ''Gm'' ''Em'',
      op2f ''paddw'' X86_INSN_FLAG_SSE_GROUP_f8 ''Gm'' ''Em'',
      op2f ''paddd'' X86_INSN_FLAG_SSE_GROUP_f8 ''Gm'' ''Em'',
      op0f ''bad'' X86_INSN_FLAG_SSE_GROUP_f8]"

definition x86_opcode_map_two_byte :: "x86_insn_spec_t list list" where
  "x86_opcode_map_two_byte =
     [x86_opcode_two_byte_00, x86_opcode_two_byte_10, x86_opcode_two_byte_20,
      x86_opcode_two_byte_30, x86_opcode_two_byte_40, x86_opcode_two_byte_50,
      x86_opcode_two_byte_60, x86_opcode_two_byte_70, x86_opcode_two_byte_80,
      x86_opcode_two_byte_90, x86_opcode_two_byte_a0, x86_opcode_two_byte_b0,
      x86_opcode_two_byte_c0, x86_opcode_two_byte_d0, x86_opcode_two_byte_e0,
      x86_opcode_two_byte_f0]"

lemmas two_byte_defs =
  x86_opcode_two_byte_00_def x86_opcode_two_byte_10_def x86_opcode_two_byte_20_def
  x86_opcode_two_byte_30_def x86_opcode_two_byte_40_def x86_opcode_two_byte_50_def
  x86_opcode_two_byte_60_def x86_opcode_two_byte_70_def x86_opcode_two_byte_80_def
  x86_opcode_two_byte_90_def x86_opcode_two_byte_a0_def x86_opcode_two_byte_b0_def
  x86_opcode_two_byte_c0_def x86_opcode_two_byte_d0_def x86_opcode_two_byte_e0_def
  x86_opcode_two_byte_f0_def x86_opcode_map_two_byte_def

section \<open>Groups selected by the register field\<close>

definition x86_insn_modrm_reg_group_1 :: "x86_insn_spec_t list" where
  "x86_insn_modrm_reg_group_1 =
     [op0 ''add'', op0 ''or'', op0 ''adc'', op0 ''sbb'', op0 ''and'', op0 ''sub'',
      op0 ''xor'', op0 ''cmp'']"

definition x86_insn_modrm_reg_group_1a :: "x86_insn_spec_t list" where
  "x86_insn_modrm_reg_group_1a =
     [op0f ''pop'' X86_INSN_SPEC_DEFAULT_64_BIT, op0 ''bad'', op0 ''bad'', op0 ''bad'',
      op0 ''bad'', op0 ''bad'', op0 ''bad'', op0 ''bad'']"

definition x86_insn_modrm_reg_group_2 :: "x86_insn_spec_t list" where
  "x86_insn_modrm_reg_group_2 =
     [op0 ''rol'', op0 ''ror'', op0 ''rcl'', op0 ''rcr'', op0 ''shl'', op0 ''shr'',
      op0 ''sal'', op0 ''sar'']"

definition x86_insn_modrm_reg_group_3 :: "x86_insn_spec_t list" where
  "x86_insn_modrm_reg_group_3 =
     [op0 ''test'', op0 ''test'', op0 ''not'', op0 ''neg'', op0 ''mul'', op0 ''imul'',
      op0 ''div'', op0 ''idiv'']"

definition x86_insn_modrm_reg_group_4 :: "x86_insn_spec_t list" where
  "x86_insn_modrm_reg_group_4 =
     [op0 ''inc'', op0 ''dec'', op0 ''bad'', op0 ''bad'', op0 ''bad'', op0 ''bad'',
      op0 ''bad'', op0 ''bad'']"

definition x86_insn_modrm_reg_group_5 :: "x86_insn_spec_t list" where
  "x86_insn_modrm_reg_group_5 =
     [op1 ''inc'' ''Ev'', op1 ''dec'' ''Ev'',
      op1f ''call'' X86_INSN_SPEC_DEFAULT_64_BIT ''Ev'', op1 ''call'' ''Mp'',
      op1f ''jmp'' X86_INSN_SPEC_DEFAULT_64_BIT ''Ev'', op1 ''jmp'' ''Mp'',
      op1f ''push'' X86_INSN_SPEC_DEFAULT_64_BIT ''Ev'', op0 ''bad'']"

definition x86_insn_modrm_reg_group_6 :: "x86_insn_spec_t list" where
  "x86_insn_modrm_reg_group_6 =
     [op1 ''sldt'' ''Ev'', op1 ''str'' ''Ev'', op1 ''lldt'' ''Ev'', op1 ''ltr'' ''Ev'',
      op1 ''verr'' ''Ev'', op1 ''verw'' ''Ev'', op0 ''bad'', op0 ''bad'']"

definition x86_insn_modrm_reg_group_7 :: "x86_insn_spec_t list" where
  "x86_insn_modrm_reg_group_7 =
     [op1 ''sgdt'' ''Mv'', op1 ''sidt'' ''Mv'', op1 ''lgdt'' ''Mv'', op1 ''lidt'' ''Mv'',
      op1 ''smsw'' ''Ev'', op0 ''bad'', op1 ''lmsw'' ''Ew'', op1 ''invlpg'' ''Mv'']"

definition x86_insn_modrm_reg_group_8 :: "x86_insn_spec_t list" where
  "x86_insn_modrm_reg_group_8 =
     [op0 ''bad'', op0 ''bad'', op0 ''bad'', op0 ''bad'', op2 ''bt'' ''Ev'' ''Ib'',
      op2 ''bts'' ''Ev'' ''Ib'', op2 ''btr'' ''Ev'' ''Ib'', op2 ''btc'' ''Ev'' ''Ib'']"

definition x86_insn_modrm_reg_group_9 :: "x86_insn_spec_t list" where
  "x86_insn_modrm_reg_group_9 =
     [op0 ''bad'', op1 ''cmpxchg'' ''Mx'', op0 ''bad'', op0 ''bad'', op0 ''bad'',
      op0 ''bad'', op0 ''bad'', op0 ''bad'']"

definition x86_insn_modrm_reg_group_10 :: "x86_insn_spec_t list" where
  "x86_insn_modrm_reg_group_10 =
     [op0 ''bad'', op0 ''bad'', op0 ''bad'', op0 ''bad'', op0 ''bad'', op0 ''bad'',
      op0 ''bad'', op0 ''bad'']"

definition x86_insn_modrm_reg_group_11 :: "x86_insn_spec_t list" where
  "x86_insn_modrm_reg_group_11 =
     [op0 ''mov'', op0 ''bad'', op0 ''bad'', op0 ''bad'', op0 ''bad'', op0 ''bad'',
      op0 ''bad'', op0 ''bad'']"

definition x86_insn_modrm_reg_group_12 :: "x86_insn_spec_t list" where
  "x86_insn_modrm_reg_group_12 =
     [op0 ''bad'', op0 ''bad'', op2 ''psrlw'' ''Rm'' ''Ib'', op0 ''bad'',
      op2 ''psraw'' ''Rm'' ''Ib'', op0 ''bad'', op2 ''psllw'' ''Rm'' ''Ib'', op0 ''bad'']"

definition x86_insn_modrm_reg_group_13 :: "x86_insn_spec_t list" where
  "x86_insn_modrm_reg_group_13 =
     [op0 ''bad'', op0 ''bad'', op2 ''psrld'' ''Rm'' ''Ib'', op0 ''bad'',
      op2 ''psrad'' ''Rm'' ''Ib'', op0 ''bad'', op2 ''pslld'' ''Rm'' ''Ib'', op0 ''bad'']"

definition x86_insn_modrm_reg_group_14 :: "x86_insn_spec_t list" where
  "x86_insn_modrm_reg_group_14 =
     [op0 ''bad'', op0 ''bad'', op2 ''psrlq'' ''Rm'' ''Ib'', op0f ''bad'' 0, op0 ''bad'',
      op0 ''bad'', op2 ''psllq'' ''Rm'' ''Ib'', op0f ''bad'' 0]"

definition x86_insn_modrm_reg_group_15 :: "x86_insn_spec_t list" where
  "x86_insn_modrm_reg_group_15 =
     [op1 ''fxsave'' ''Mv'', op1 ''fxrstor'' ''Mv'', op1 ''ldmxcsr'' ''Mv'',
      op1 ''stmxcsr'' ''Mv'', op0 ''bad'', op1 ''lfence'' ''Mv'', op1 ''mfence'' ''Mv'',
      op1 ''sfence'' ''Mv'']"

definition x86_insn_modrm_reg_group_16 :: "x86_insn_spec_t list" where
  "x86_insn_modrm_reg_group_16 =
     [op1 ''prefetch_nta'' ''Mv'', op1 ''prefetch_t0'' ''Mv'', op1 ''prefetch_t1'' ''Mv'',
      op1 ''prefetch_t2'' ''Mv'', op1 ''prefetch_nop'' ''Mv'', op1 ''prefetch_nop'' ''Mv'',
      op1 ''prefetch_nop'' ''Mv'', op1 ''prefetch_nop'' ''Mv'']"

definition x86_insn_modrm_reg_group_p :: "x86_insn_spec_t list" where
  "x86_insn_modrm_reg_group_p =
     [op1 ''prefetch_exclusive'' ''Mv'', op1 ''prefetch_modified'' ''Mv'',
      op1 ''prefetch_nop'' ''Mv'', op1 ''prefetch_modified'' ''Mv'',
      op1 ''prefetch_nop'' ''Mv'', op1 ''prefetch_nop'' ''Mv'', op1 ''prefetch_nop'' ''Mv'',
      op1 ''prefetch_nop'' ''Mv'']"

text \<open>Entry 0 of the array is not initialised explicitly: its fields are zero.\<close>

definition x86_insn_modrm_reg_groups :: "x86_insn_spec_t list list" where
  "x86_insn_modrm_reg_groups =
     [replicate 8 empty_spec,
      x86_insn_modrm_reg_group_1, x86_insn_modrm_reg_group_1a, x86_insn_modrm_reg_group_2,
      x86_insn_modrm_reg_group_3, x86_insn_modrm_reg_group_4, x86_insn_modrm_reg_group_5,
      x86_insn_modrm_reg_group_6, x86_insn_modrm_reg_group_7, x86_insn_modrm_reg_group_8,
      x86_insn_modrm_reg_group_9, x86_insn_modrm_reg_group_10, x86_insn_modrm_reg_group_11,
      x86_insn_modrm_reg_group_12, x86_insn_modrm_reg_group_13, x86_insn_modrm_reg_group_14,
      x86_insn_modrm_reg_group_15, x86_insn_modrm_reg_group_16, x86_insn_modrm_reg_group_p]"

lemmas modrm_reg_group_defs =
  x86_insn_modrm_reg_group_1_def x86_insn_modrm_reg_group_1a_def
  x86_insn_modrm_reg_group_2_def x86_insn_modrm_reg_group_3_def
  x86_insn_modrm_reg_group_4_def x86_insn_modrm_reg_group_5_def
  x86_insn_modrm_reg_group_6_def x86_insn_modrm_reg_group_7_def
  x86_insn_modrm_reg_group_8_def x86_insn_modrm_reg_group_9_def
  x86_insn_modrm_reg_group_10_def x86_insn_modrm_reg_group_11_def
  x86_insn_modrm_reg_group_12_def x86_insn_modrm_reg_group_13_def
  x86_insn_modrm_reg_group_14_def x86_insn_modrm_reg_group_15_def
  x86_insn_modrm_reg_group_16_def x86_insn_modrm_reg_group_p_def
  x86_insn_modrm_reg_groups_def

end
