(* ===== verification/X86_Intel.thy ===== *)
theory X86_Intel
  imports Prelude "HOL-Library.More_List"
begin

unbundle bit_operations_syntax

text \<open>
  The length of an instruction in 64-bit mode by the instruction format and the opcode maps of the
  Intel manual (volume 2, chapter 2 and appendix A), as a reference for the decoder: it uses
  nothing of the decoder's tables or functions. Encodings outside the two opcode maps (VEX, EVEX,
  the three-byte maps and 3DNow!) and undefined opcodes have no length here.
\<close>

section \<open>The opcode maps\<close>

text \<open>
  What follows an opcode: a ModR/M byte with the bytes of its operand, a ModR/M byte alone (the
  moves to and from control and debug registers ignore its mod field), or none; and an immediate.
  \<open>Iz\<close> is a word or double word by the operand size, \<open>Iv\<close> also a quad word, \<open>Jz\<close> an offset that is
  always a double word, \<open>Moffs\<close> an address; the immediates of F6 and F7 depend on the reg field.
\<close>

datatype intel_modrm = No_ModRM | ModRM | ModRM_reg

datatype intel_imm = I0 | Ib | Iw | Iw_Ib | Iz | Iv | Jz | Moffs | Grp3_Ib | Grp3_Iz

type_synonym intel_entry = "(intel_modrm \<times> intel_imm) option"

abbreviation undef :: intel_entry where "undef \<equiv> None"
abbreviation plain :: "intel_imm \<Rightarrow> intel_entry" where "plain i \<equiv> Some (No_ModRM, i)"
abbreviation modrm_op :: "intel_imm \<Rightarrow> intel_entry" where "modrm_op i \<equiv> Some (ModRM, i)"

text \<open>
  Undefined in the one-byte map are also the bytes that do not start an opcode: the prefixes, REX
  and the escape 0F, and the opcodes that 64-bit mode takes away.
\<close>

definition arith_row :: "intel_entry list" where
  "arith_row = replicate 4 (modrm_op I0) @ [plain Ib, plain Iz, undef, undef]"

definition intel_one_byte_map :: "intel_entry list list" where
  "intel_one_byte_map =
    [arith_row @ arith_row,
     arith_row @ arith_row,
     arith_row @ arith_row,
     arith_row @ arith_row,
     replicate 16 undef,
     replicate 16 (plain I0),
     [undef, undef, undef, modrm_op I0] @ replicate 4 undef @
       [plain Iz, modrm_op Iz, plain Ib, modrm_op Ib] @ replicate 4 (plain I0),
     replicate 16 (plain Ib),
     [modrm_op Ib, modrm_op Iz, undef, modrm_op Ib] @ replicate 12 (modrm_op I0),
     replicate 10 (plain I0) @ [undef] @ replicate 5 (plain I0),
     replicate 4 (plain Moffs) @ replicate 4 (plain I0) @ [plain Ib, plain Iz] @ replicate 6 (plain I0),
     replicate 8 (plain Ib) @ replicate 8 (plain Iv),
     [modrm_op Ib, modrm_op Ib, plain Iw, plain I0, undef, undef, modrm_op Ib, modrm_op Iz,
      plain Iw_Ib, plain I0, plain Iw, plain I0, plain I0, plain Ib, undef, plain I0],
     replicate 4 (modrm_op I0) @ [undef, undef, undef, plain I0] @ replicate 8 (modrm_op I0),
     replicate 8 (plain Ib) @ [plain Jz, plain Jz, undef, plain Ib] @ replicate 4 (plain I0),
     [undef, plain I0, undef, undef, plain I0, plain I0, modrm_op Grp3_Ib, modrm_op Grp3_Iz] @
       replicate 6 (plain I0) @ [modrm_op I0, modrm_op I0]]"

definition intel_two_byte_map :: "intel_entry list list" where
  "intel_two_byte_map =
    [replicate 4 (modrm_op I0) @ [undef] @ replicate 5 (plain I0) @
       [undef, plain I0, undef, modrm_op I0, undef, undef],
     replicate 16 (modrm_op I0),
     replicate 4 (Some (ModRM_reg, I0)) @ replicate 4 undef @ replicate 8 (modrm_op I0),
     replicate 6 (plain I0) @ [undef, plain I0] @ replicate 8 undef,
     replicate 16 (modrm_op I0),
     replicate 16 (modrm_op I0),
     replicate 16 (modrm_op I0),
     replicate 4 (modrm_op Ib) @ replicate 3 (modrm_op I0) @ [plain I0, modrm_op I0, modrm_op I0, undef, undef] @
       replicate 4 (modrm_op I0),
     replicate 16 (plain Jz),
     replicate 16 (modrm_op I0),
     [plain I0, plain I0, plain I0, modrm_op I0, modrm_op Ib, modrm_op I0, undef, undef,
      plain I0, plain I0, plain I0, modrm_op I0, modrm_op Ib] @ replicate 3 (modrm_op I0),
     replicate 10 (modrm_op I0) @ [modrm_op Ib] @ replicate 5 (modrm_op I0),
     [modrm_op I0, modrm_op I0, modrm_op Ib, modrm_op I0, modrm_op Ib, modrm_op Ib, modrm_op Ib, modrm_op I0] @
       replicate 8 (plain I0),
     replicate 16 (modrm_op I0),
     replicate 16 (modrm_op I0),
     replicate 16 (modrm_op I0)]"

definition intel_lookup :: "bool \<Rightarrow> u8 \<Rightarrow> intel_entry" where
  "intel_lookup two opc =
     (if two then intel_two_byte_map else intel_one_byte_map) ! (unat opc div 16) ! (unat opc mod 16)"

section \<open>The parts of an instruction\<close>

text \<open>
  The legacy prefixes, a REX byte directly in front of the opcode (0 when there is none), the
  opcode, and the two bytes after it, which are ModR/M and SIB where there are any.
\<close>

record intel_parts =
  enc_start :: nat
  enc_66 :: bool
  enc_67 :: bool
  enc_rex :: u8
  enc_two_byte :: bool
  enc_opcode :: u8
  enc_modrm :: u8
  enc_sib :: u8

definition intel_legacy :: "u8 set" where
  "intel_legacy = {0xF0, 0xF2, 0xF3, 0x2E, 0x36, 0x3E, 0x26, 0x64, 0x65, 0x66, 0x67}"

definition byte_of :: "u8 list \<Rightarrow> nat \<Rightarrow> u8" where "byte_of b i = nth_default 0 b i"

definition intel_split :: "u8 list \<Rightarrow> intel_parts" where
  "intel_split b =
     (let ps = takeWhile (\<lambda>c. c \<in> intel_legacy) b;
          c = byte_of b (length ps);
          has_rex = (unat c div 16 = 4);
          k = length ps + (if has_rex then 1 else 0);
          two = (byte_of b k = 0x0F);
          n = k + (if two then 2 else 1)
      in \<lparr>enc_start = k, enc_66 = (0x66 \<in> set ps), enc_67 = (0x67 \<in> set ps),
         enc_rex = (if has_rex then c else 0), enc_two_byte = two, enc_opcode = byte_of b (n - 1),
         enc_modrm = byte_of b n, enc_sib = byte_of b (n + 1)\<rparr>)"

text \<open>The fields of ModR/M and SIB, and the bits W and B of REX.\<close>

definition mod_field :: "intel_parts \<Rightarrow> nat" where "mod_field x = unat (enc_modrm x) div 64"
definition reg_field :: "intel_parts \<Rightarrow> nat" where "reg_field x = unat (enc_modrm x) div 8 mod 8"
definition rm_field :: "intel_parts \<Rightarrow> nat" where "rm_field x = unat (enc_modrm x) mod 8"
definition base_field :: "intel_parts \<Rightarrow> nat" where "base_field x = unat (enc_sib x) mod 8"
definition rex_w :: "intel_parts \<Rightarrow> bool" where "rex_w x \<longleftrightarrow> odd (unat (enc_rex x) div 8)"
definition rex_b :: "intel_parts \<Rightarrow> bool" where "rex_b x \<longleftrightarrow> odd (unat (enc_rex x))"

section \<open>The length\<close>

text \<open>
  The SIB byte and the displacement of a memory operand: rm 4 asks for a SIB byte, mod 1 for a
  displacement of one byte, mod 2 for one of four, mod 0 for one of four with rm 5 (RIP-relative)
  or the SIB base 5.
\<close>

definition intel_operand_bytes :: "intel_parts \<Rightarrow> nat" where
  "intel_operand_bytes x =
     (if mod_field x = 3 then 0
      else (if rm_field x = 4 then 1 else 0) +
           (if mod_field x = 1 then 1
            else if mod_field x = 2 \<or> rm_field x = 5 \<or> rm_field x = 4 \<and> base_field x = 5 then 4
            else 0))"

definition intel_modrm_bytes :: "intel_modrm \<Rightarrow> intel_parts \<Rightarrow> nat" where
  "intel_modrm_bytes k x =
     (case k of No_ModRM \<Rightarrow> 0 | ModRM \<Rightarrow> 1 + intel_operand_bytes x | ModRM_reg \<Rightarrow> 1)"

definition word_or_dword :: "intel_parts \<Rightarrow> nat" where
  "word_or_dword x = (if enc_66 x \<and> \<not> rex_w x then 2 else 4)"

definition intel_imm_bytes :: "intel_imm \<Rightarrow> intel_parts \<Rightarrow> nat" where
  "intel_imm_bytes i x =
     (case i of I0 \<Rightarrow> 0 | Ib \<Rightarrow> 1 | Iw \<Rightarrow> 2 | Iw_Ib \<Rightarrow> 3
      | Iz \<Rightarrow> word_or_dword x
      | Iv \<Rightarrow> if rex_w x then 8 else word_or_dword x
      | Jz \<Rightarrow> 4
      | Moffs \<Rightarrow> if enc_67 x then 4 else 8
      | Grp3_Ib \<Rightarrow> if reg_field x \<le> 1 then 1 else 0
      | Grp3_Iz \<Rightarrow> if reg_field x \<le> 1 then word_or_dword x else 0)"

definition intel_length :: "u8 list \<Rightarrow> nat option" where
  "intel_length b =
     (let x = intel_split b in
      case intel_lookup (enc_two_byte x) (enc_opcode x) of
        None \<Rightarrow> None
      | Some (k, i) \<Rightarrow>
          Some (enc_start x + (if enc_two_byte x then 2 else 1) + intel_modrm_bytes k x + intel_imm_bytes i x))"

text \<open>
  The maps are complete, and the length of some instructions: \<open>mov rax, [rip + 16]\<close>,
  \<open>mov rax, imm64\<close>, \<open>enter\<close>, \<open>nop [rax + rax + 0]\<close>, \<open>test [rax], imm16\<close>, \<open>fldz\<close>,
  \<open>mov al, moffs64\<close>, \<open>push imm16\<close>, \<open>mov [rsp + 8], imm32\<close>.
\<close>

lemma intel_maps_complete:
  "length intel_one_byte_map = 16 \<and> list_all (\<lambda>r. length r = 16) intel_one_byte_map"
  "length intel_two_byte_map = 16 \<and> list_all (\<lambda>r. length r = 16) intel_two_byte_map"
  by code_simp+

lemma intel_length_examples:
  "map intel_length
     [[0x48, 0x8B, 0x05, 0x10, 0, 0, 0], [0x48, 0xB8, 1, 2, 3, 4, 5, 6, 7, 8], [0xC8, 0x10, 0, 0],
      [0x0F, 0x1F, 0x44, 0, 0], [0x66, 0xF7, 0x00, 1, 2], [0xD9, 0xEE], [0xA0, 1, 2, 3, 4, 5, 6, 7, 8],
      [0x66, 0x68, 1, 2], [0x48, 0xC7, 0x44, 0x24, 0x08, 1, 2, 3, 4]] =
   map Some [7, 10, 4, 5, 5, 2, 9, 4, 9]"
  by code_simp

end
