(* ===== verification/X86_Decode.thy ===== *)
theory X86_Decode
  imports X86_Tables
begin

unbundle bit_operations_syntax

text \<open>
  Dobby's x86 instruction decoder (\<^verbatim>\<open>x86_insn_decode.c\<close>, \<^verbatim>\<open>x86_insn_reader.c\<close>, \<^verbatim>\<open>x86_insn_decode.h\<close>).
  The reader copies fifteen bytes of code into a buffer of twenty and walks over it; a read
  past the buffer is an outcome of its own, as is \<^verbatim>\<open>FATAL\<close> (also reached as \<^verbatim>\<open>UNIMPLEMENTED\<close> and
  \<^verbatim>\<open>UNREACHABLE\<close>), which logs and aborts.
\<close>

section \<open>Outcomes\<close>

datatype 'a decoding = Done 'a | Fatal | Out_of_buffer

fun dbind :: "'a decoding \<Rightarrow> ('a \<Rightarrow> 'b decoding) \<Rightarrow> 'b decoding" where
  "dbind (Done x) f = f x"
| "dbind Fatal f = Fatal"
| "dbind Out_of_buffer f = Out_of_buffer"

lemma dbind_eq_Done: "dbind r f = Done y \<longleftrightarrow> (\<exists>x. r = Done x \<and> f x = Done y)"
  by (cases r) auto

lemma dbind_cong [fundef_cong]:
  "r = r' \<Longrightarrow> (\<And>x. r' = Done x \<Longrightarrow> f x = f' x) \<Longrightarrow> dbind r f = dbind r' f'"
  by (cases r') auto

section \<open>The reader\<close>

text \<open>
  The pointer \<^verbatim>\<open>buffer_cursor\<close> is the index \<open>cursor\<close> into the buffer. The pointers \<^verbatim>\<open>opcode\<close> and
  \<^verbatim>\<open>modrm\<close> of the structure are set by functions that nothing calls.
\<close>

record x86_insn_reader_t =
  rd_buffer :: "u8 list"
  cursor :: nat

definition sizeof_buffer :: nat where "sizeof_buffer = 20"

definition init_reader :: "u8 list \<Rightarrow> x86_insn_reader_t" where
  "init_reader code =
     \<lparr>rd_buffer = (if length code < sizeof_buffer
                   then code @ replicate (sizeof_buffer - length code) 0xcc else code),
      cursor = 0\<rparr>"

definition reader_offset :: "x86_insn_reader_t \<Rightarrow> u32" where
  "reader_offset rd = of_nat (cursor rd)"

definition byte_at :: "x86_insn_reader_t \<Rightarrow> nat \<Rightarrow> u8 decoding" where
  "byte_at rd i = (if i < length (rd_buffer rd) then Done (rd_buffer rd ! i) else Out_of_buffer)"

definition peek_byte :: "x86_insn_reader_t \<Rightarrow> u8 decoding" where
  "peek_byte rd = byte_at rd (cursor rd)"

definition advance :: "nat \<Rightarrow> x86_insn_reader_t \<Rightarrow> x86_insn_reader_t" where
  "advance n rd = rd\<lparr>cursor := cursor rd + n\<rparr>"

definition read_byte :: "x86_insn_reader_t \<Rightarrow> (u8 \<times> x86_insn_reader_t) decoding" where
  "read_byte rd = dbind (byte_at rd (cursor rd)) (\<lambda>b. Done (b, advance 1 rd))"

text \<open>The bytes from \<open>i\<close> on, low byte first.\<close>

fun bytes_at :: "x86_insn_reader_t \<Rightarrow> nat \<Rightarrow> nat \<Rightarrow> u64 decoding" where
  "bytes_at rd i 0 = Done 0"
| "bytes_at rd i (Suc n) =
     dbind (byte_at rd i) (\<lambda>b. dbind (bytes_at rd (Suc i) n) (\<lambda>w. Done (ucast b OR push_bit 8 w)))"

definition read_word :: "x86_insn_reader_t \<Rightarrow> (u16 \<times> x86_insn_reader_t) decoding" where
  "read_word rd = dbind (bytes_at rd (cursor rd) 2) (\<lambda>w. Done (ucast w, advance 2 rd))"

definition read_dword :: "x86_insn_reader_t \<Rightarrow> (u32 \<times> x86_insn_reader_t) decoding" where
  "read_dword rd = dbind (bytes_at rd (cursor rd) 4) (\<lambda>w. Done (ucast w, advance 4 rd))"

text \<open>The eight bytes are read, but the cursor moves by four.\<close>

definition read_qword :: "x86_insn_reader_t \<Rightarrow> (u64 \<times> x86_insn_reader_t) decoding" where
  "read_qword rd = dbind (bytes_at rd (cursor rd) 8) (\<lambda>w. Done (w, advance 4 rd))"

section \<open>The decoded instruction\<close>

definition X86_INSN_DECODE_FLAG_HAS_BASE :: u32 where "X86_INSN_DECODE_FLAG_HAS_BASE = 1"
definition X86_INSN_DECODE_FLAG_HAS_INDEX :: u32 where "X86_INSN_DECODE_FLAG_HAS_INDEX = 2"
definition X86_INSN_DECODE_FLAG_IS_ADDRESS :: u32 where "X86_INSN_DECODE_FLAG_IS_ADDRESS = 4"
definition X86_INSN_DECODE_FLAG_IP_RELATIVE :: u32 where "X86_INSN_DECODE_FLAG_IP_RELATIVE = 8"
definition X86_INSN_DECODE_FLAG_OPERAND_SIZE_64 :: u32 where "X86_INSN_DECODE_FLAG_OPERAND_SIZE_64 = 16"

lemmas decode_flag_defs = X86_INSN_DECODE_FLAG_HAS_BASE_def X86_INSN_DECODE_FLAG_HAS_INDEX_def
  X86_INSN_DECODE_FLAG_IS_ADDRESS_def X86_INSN_DECODE_FLAG_IP_RELATIVE_def
  X86_INSN_DECODE_FLAG_OPERAND_SIZE_64_def

definition INSN_PREFIX_OPERAND_SIZE :: u32 where "INSN_PREFIX_OPERAND_SIZE = 0x200"
definition INSN_PREFIX_ADDRESS_SIZE :: u32 where "INSN_PREFIX_ADDRESS_SIZE = 0x400"

text \<open>\<^verbatim>\<open>x86_insn_prefix_t\<close> of a legacy prefix byte; 0 for every other byte.\<close>

definition legacy_prefix :: "u8 \<Rightarrow> u32" where
  "legacy_prefix c =
     (if c = 0xF0 then 0x01
      else if c = 0xF2 then 0x02
      else if c = 0xF3 then 0x04
      else if c = 0x2E then 0x10
      else if c = 0x36 then 0x20
      else if c = 0x3E then 0x40
      else if c = 0x26 then 0x08
      else if c = 0x64 then 0x80
      else if c = 0x65 then 0x100
      else if c = 0x66 then INSN_PREFIX_OPERAND_SIZE
      else if c = 0x67 then INSN_PREFIX_ADDRESS_SIZE
      else 0)"

text \<open>The numbers of the two register enumerations that the decoder compares with.\<close>

definition X86_INSN_GP_REG_BX :: u8 where "X86_INSN_GP_REG_BX = 3"
definition X86_INSN_GP_REG_SP :: u8 where "X86_INSN_GP_REG_SP = 4"
definition X86_INSN_GP_REG_BP :: u8 where "X86_INSN_GP_REG_BP = 5"
definition X86_INSN_GP_REG_SI :: u8 where "X86_INSN_GP_REG_SI = 6"
definition RNone :: u8 where "RNone = 0"
definition RBP :: u8 where "RBP = 7"
definition R13 :: u8 where "R13 = 14"
definition RIP :: u8 where "RIP = 17"

lemmas x86_reg_defs = X86_INSN_GP_REG_BX_def X86_INSN_GP_REG_SP_def X86_INSN_GP_REG_BP_def
  X86_INSN_GP_REG_SI_def RNone_def RBP_def R13_def RIP_def

text \<open>The bit fields of ModR/M and SIB, and the bits of REX.\<close>

definition field_low :: "u8 \<Rightarrow> u8" where "field_low b = b AND 7"
definition field_mid :: "u8 \<Rightarrow> u8" where "field_mid b = drop_bit 3 b AND 7"
definition field_high :: "u8 \<Rightarrow> u8" where "field_high b = drop_bit 6 b"

lemmas field_defs = field_low_def field_mid_def field_high_def

definition REX_W :: "u8 \<Rightarrow> u8" where "REX_W b = drop_bit 3 (b AND 8)"
definition REX_R :: "u8 \<Rightarrow> u8" where "REX_R b = drop_bit 2 (b AND 4)"
definition REX_X :: "u8 \<Rightarrow> u8" where "REX_X b = drop_bit 1 (b AND 2)"
definition REX_B :: "u8 \<Rightarrow> u8" where "REX_B b = b AND 1"

lemmas rex_defs = REX_W_def REX_R_def REX_X_def REX_B_def

record x86_insn_mem =
  mem_base :: u8
  mem_index :: u8
  mem_scale :: u8
  mem_disp :: u32

record x86_insn_operand_t =
  op_reg :: u8
  op_mem :: x86_insn_mem

text \<open>
  Of the three operands of the structure the decoder writes the first (the register field of
  ModR/M) and the second (the register or memory operand).
\<close>

record x86_insn_decode_t =
  insn_flags :: u32
  insn_length :: u32
  displacement_offset :: u8
  immediate_offset :: u8
  reg_operand :: x86_insn_operand_t
  rm_operand :: x86_insn_operand_t
  insn_prefix :: u32
  rex :: u8
  primary_opcode :: u8
  modrm :: u8
  sib :: u8
  immediate :: u64
  insn_spec :: x86_insn_spec_t

definition add_flag :: "u32 \<Rightarrow> x86_insn_decode_t \<Rightarrow> x86_insn_decode_t" where
  "add_flag f insn = insn\<lparr>insn_flags := insn_flags insn OR f\<rparr>"

definition set_mem :: "(x86_insn_mem \<Rightarrow> x86_insn_mem) \<Rightarrow> x86_insn_decode_t \<Rightarrow> x86_insn_decode_t" where
  "set_mem f insn = insn\<lparr>rm_operand := (rm_operand insn)\<lparr>op_mem := f (op_mem (rm_operand insn))\<rparr>\<rparr>"

section \<open>Prefixes\<close>

definition is_rex :: "int \<Rightarrow> u8 \<Rightarrow> bool" where
  "is_rex mode c \<longleftrightarrow> mode = 64 \<and> 0x40 \<le> c \<and> c \<le> 0x4f"

function decode_prefix_loop ::
    "int \<Rightarrow> x86_insn_reader_t \<Rightarrow> x86_insn_decode_t \<Rightarrow> u32
     \<Rightarrow> (u32 \<times> x86_insn_decode_t \<times> x86_insn_reader_t) decoding" where
  "decode_prefix_loop mode rd insn acc =
     dbind (peek_byte rd) (\<lambda>c.
       if is_rex mode c
       then dbind (read_byte rd) (\<lambda>(b, rd').
              Done (acc, (if REX_W b \<noteq> 0 then add_flag X86_INSN_DECODE_FLAG_OPERAND_SIZE_64 insn
                          else insn)\<lparr>rex := b\<rparr>, rd'))
       else if legacy_prefix c = 0 then Done (acc, insn, rd)
       else decode_prefix_loop mode (advance 1 rd) insn (acc OR legacy_prefix c))"
  by pat_completeness auto
termination
  by (relation "measure (\<lambda>(mode, rd, insn, acc). length (rd_buffer rd) - cursor rd)")
    (auto simp: peek_byte_def byte_at_def advance_def split: if_splits)

declare decode_prefix_loop.simps [simp del]

definition x86_insn_decode_prefix ::
    "int \<Rightarrow> x86_insn_reader_t \<Rightarrow> x86_insn_decode_t
     \<Rightarrow> (x86_insn_decode_t \<times> x86_insn_reader_t) decoding" where
  "x86_insn_decode_prefix mode rd insn =
     dbind (decode_prefix_loop mode rd insn 0) (\<lambda>(p, insn', rd'). Done (insn'\<lparr>insn_prefix := p\<rparr>, rd'))"

section \<open>Operand specifications\<close>

definition x86_insn_has_modrm_byte :: "x86_insn_spec_t \<Rightarrow> bool" where
  "x86_insn_has_modrm_byte spec =
     list_ex (\<lambda>(code, type). code \<in> set ''GEMR'') (spec_operands spec)"

definition imm_code :: "char \<Rightarrow> bool" where "imm_code c = (c \<in> set ''JIO'')"

text \<open>
  The C loop runs to \<^verbatim>\<open>sizeof(operands)\<close>, six, over an array of three: \<open>None\<close> is the read past
  the array when none of the three is an immediate.
\<close>

definition x86_insn_immediate_type :: "x86_insn_spec_t \<Rightarrow> char option" where
  "x86_insn_immediate_type spec =
     map_option snd (find (\<lambda>(code, type). imm_code code) (spec_operands spec))"

definition x86_insn_has_immediate :: "x86_insn_spec_t \<Rightarrow> bool" where
  "x86_insn_has_immediate spec = list_ex (\<lambda>(code, type). imm_code code) (spec_operands spec)"

text \<open>A number of other than 8, 16, 32 or 64 bits is \<^verbatim>\<open>UNREACHABLE\<close>; the value is not extended.\<close>

definition x86_insn_decode_number ::
    "x86_insn_reader_t \<Rightarrow> nat \<Rightarrow> (u64 \<times> x86_insn_reader_t) decoding" where
  "x86_insn_decode_number rd number_bits =
     (if number_bits = 64 then read_qword rd
      else if number_bits = 32 then dbind (read_dword rd) (\<lambda>(w, rd'). Done (ucast w, rd'))
      else if number_bits = 16 then dbind (read_word rd) (\<lambda>(w, rd'). Done (ucast w, rd'))
      else if number_bits = 8 then dbind (read_byte rd) (\<lambda>(w, rd'). Done (ucast w, rd'))
      else Fatal)"

section \<open>ModR/M, SIB and displacement\<close>

definition effective_address_bits :: "int \<Rightarrow> u32 \<Rightarrow> nat decoding" where
  "effective_address_bits mode prefix =
     (if mode = 64 then Done (if prefix AND INSN_PREFIX_ADDRESS_SIZE \<noteq> 0 then 32 else 64)
      else if mode = 32 then Done (if prefix AND INSN_PREFIX_ADDRESS_SIZE \<noteq> 0 then 16 else 32)
      else Fatal)"

text \<open>The displacement that mod and rm ask for in 32-bit and 64-bit addressing.\<close>

definition modrm_disp_bits :: "u8 \<Rightarrow> u8 \<Rightarrow> nat" where
  "modrm_disp_bits md rm =
     (if md = 0 \<and> rm AND 7 = 5 then 32
      else if md = 0 then 0
      else if md = 1 then 8
      else if md = 2 then 32
      else 0)"

definition modrm_base :: "u8 \<Rightarrow> u8 \<Rightarrow> x86_insn_decode_t \<Rightarrow> x86_insn_decode_t" where
  "modrm_base md rm insn =
     (let insn1 = add_flag X86_INSN_DECODE_FLAG_HAS_BASE (set_mem (\<lambda>m. m\<lparr>mem_base := rm\<rparr>) insn)
      in if md = 0 \<and> rm AND 7 = 5
         then set_mem (\<lambda>m. m\<lparr>mem_base := RIP\<rparr>) (insn1\<lparr>insn_flags := X86_INSN_DECODE_FLAG_IP_RELATIVE\<rparr>)
         else insn1)"

text \<open>
  What the SIB byte makes of the displacement: the base is compared with the numbers of the
  enumeration \<^verbatim>\<open>x86_ia32e_register_t\<close>, not with the register numbers of the encoding.
\<close>

definition sib_disp_bits :: "nat \<Rightarrow> u8 \<Rightarrow> u8 \<Rightarrow> nat \<Rightarrow> nat" where
  "sib_disp_bits addr_bits md base disp_bits =
     (if addr_bits = 64 \<and> (base = RBP \<or> base = R13) \<or> addr_bits = 32 \<and> base = RBP
      then if md = 1 then 8 else 32
      else disp_bits)"

definition decode_sib ::
    "x86_insn_reader_t \<Rightarrow> x86_insn_decode_t \<Rightarrow> nat \<Rightarrow> u8 \<Rightarrow> nat
     \<Rightarrow> (x86_insn_decode_t \<times> nat \<times> x86_insn_reader_t) decoding" where
  "decode_sib rd insn addr_bits md disp_bits =
     dbind (read_byte rd) (\<lambda>(b, rd').
       let base = field_low b OR push_bit 3 (REX_B (rex insn));
           index = field_mid b OR push_bit 3 (REX_X (rex insn));
           scale = push_bit (unat (field_high b)) 1;
           no_index = (field_mid b = X86_INSN_GP_REG_SP);
           insn1 = add_flag X86_INSN_DECODE_FLAG_HAS_BASE (insn\<lparr>sib := b\<rparr>);
           insn2 = (if no_index then insn1 else add_flag X86_INSN_DECODE_FLAG_HAS_INDEX insn1);
           insn3 = set_mem (\<lambda>m. m\<lparr>mem_base := base,
                                 mem_index := (if no_index then RNone else index),
                                 mem_scale := (if no_index then 0 else scale)\<rparr>) insn2;
           special = (addr_bits = 64 \<and> (base = RBP \<or> base = R13) \<or> addr_bits = 32 \<and> base = RBP);
           insn4 = (if special \<and> md = 0 then set_mem (\<lambda>m. m\<lparr>mem_base := RNone\<rparr>) insn3 else insn3)
       in Done (insn4, sib_disp_bits addr_bits md base disp_bits, rd'))"

text \<open>
  Sixteen-bit addressing. The variable \<^verbatim>\<open>disp_bits\<close> starts as \<^verbatim>\<open>(uint8_t)-1\<close>, and mod 0 leaves it
  there unless rm is 6.
\<close>

definition modrm16_disp_bits :: "u8 \<Rightarrow> u8 \<Rightarrow> nat" where
  "modrm16_disp_bits md rm =
     (if md = 0 then if rm = 6 then 16 else 255 else if md = 1 then 8 else 16)"

definition modrm16_operand :: "u8 \<Rightarrow> u8 \<Rightarrow> x86_insn_decode_t \<Rightarrow> x86_insn_decode_t" where
  "modrm16_operand md rm insn =
     (let hb = X86_INSN_DECODE_FLAG_HAS_BASE;
          hbi = X86_INSN_DECODE_FLAG_HAS_BASE OR X86_INSN_DECODE_FLAG_HAS_INDEX;
          sidi = X86_INSN_GP_REG_SI + (rm AND 1)
      in if md = 0 \<and> rm = 6 then insn
         else if rm = 0 \<or> rm = 1
         then add_flag hbi (set_mem (\<lambda>m. m\<lparr>mem_base := X86_INSN_GP_REG_BX, mem_index := sidi\<rparr>) insn)
         else if rm = 2 \<or> rm = 3
         then add_flag hbi (set_mem (\<lambda>m. m\<lparr>mem_base := X86_INSN_GP_REG_BP, mem_index := sidi\<rparr>) insn)
         else if rm = 4 \<or> rm = 5
         then add_flag hb (set_mem (\<lambda>m. m\<lparr>mem_base := sidi\<rparr>) insn)
         else if rm = 6
         then add_flag hb (set_mem (\<lambda>m. m\<lparr>mem_base := X86_INSN_GP_REG_BP\<rparr>) insn)
         else add_flag hb (set_mem (\<lambda>m. m\<lparr>mem_base := X86_INSN_GP_REG_BX\<rparr>) insn))"

definition decode_displacement ::
    "x86_insn_reader_t \<Rightarrow> x86_insn_decode_t \<Rightarrow> nat
     \<Rightarrow> (x86_insn_decode_t \<times> x86_insn_reader_t) decoding" where
  "decode_displacement rd insn disp_bits =
     (if disp_bits = 0 then Done (insn, rd)
      else dbind (x86_insn_decode_number rd disp_bits) (\<lambda>(disp, rd').
        Done (set_mem (\<lambda>m. m\<lparr>mem_disp := ucast disp\<rparr>)
                (insn\<lparr>displacement_offset := ucast (reader_offset rd)\<rparr>), rd')))"

text \<open>The operand in memory, once ModR/M is read and mod is not 3.\<close>

definition decode_address ::
    "x86_insn_reader_t \<Rightarrow> x86_insn_decode_t \<Rightarrow> int
     \<Rightarrow> (x86_insn_decode_t \<times> x86_insn_reader_t) decoding" where
  "decode_address rd insn mode =
     (let md = field_high (modrm insn);
          rm = push_bit 3 (REX_B (rex insn)) OR field_low (modrm insn);
          insn1 = add_flag X86_INSN_DECODE_FLAG_IS_ADDRESS insn
      in dbind (effective_address_bits mode (insn_prefix insn)) (\<lambda>bits.
        if bits = 16
        then decode_displacement rd (modrm16_operand md (field_low (modrm insn)) insn1)
               (modrm16_disp_bits md (field_low (modrm insn)))
        else let insn2 = modrm_base md rm insn1; disp_bits = modrm_disp_bits md rm in
             if rm AND 7 = 4
             then dbind (decode_sib rd insn2 bits md disp_bits) (\<lambda>(insn3, disp_bits', rd').
                    decode_displacement rd' insn3 disp_bits')
             else decode_displacement rd insn2 disp_bits))"

definition x86_insn_decode_modrm_sib ::
    "x86_insn_reader_t \<Rightarrow> x86_insn_decode_t \<Rightarrow> int
     \<Rightarrow> (x86_insn_decode_t \<times> x86_insn_reader_t) decoding" where
  "x86_insn_decode_modrm_sib rd insn mode =
     dbind (read_byte rd) (\<lambda>(b, rd').
       let rm = push_bit 3 (REX_B (rex insn)) OR field_low b;
           reg = push_bit 3 (REX_R (rex insn)) OR field_mid b;
           insn1 = insn\<lparr>modrm := b, reg_operand := (reg_operand insn)\<lparr>op_reg := reg\<rparr>\<rparr>
       in if field_high b = 3
          then Done (insn1\<lparr>rm_operand := (rm_operand insn1)\<lparr>op_reg := rm\<rparr>\<rparr>, rd')
          else decode_address rd' insn1 mode)"

section \<open>Opcodes\<close>

definition table_entry :: "x86_insn_spec_t list list \<Rightarrow> u8 \<Rightarrow> x86_insn_spec_t" where
  "table_entry table opcode = table ! (unat opcode div 16) ! (unat opcode mod 16)"

text \<open>The name and the flags of a group entry replace those of the map; its operands do not.\<close>

definition group_spec :: "x86_insn_spec_t \<Rightarrow> u8 \<Rightarrow> x86_insn_spec_t" where
  "group_spec spec modrm_byte =
     (let g = x86_insn_modrm_reg_groups ! X86_INSN_FLAG_GET_GROUP (spec_flags spec)
                ! unat (field_mid modrm_byte)
      in spec\<lparr>spec_name := spec_name g, spec_flags := spec_flags g\<rparr>)"

definition x86_insn_decode_opcode ::
    "x86_insn_reader_t \<Rightarrow> x86_insn_decode_t \<Rightarrow> (x86_insn_decode_t \<times> x86_insn_reader_t) decoding" where
  "x86_insn_decode_opcode rd insn =
     dbind (read_byte rd) (\<lambda>(b0, rd0).
     dbind (if b0 = 0x0f
            then dbind (read_byte rd0) (\<lambda>(b1, rd1). Done (b1, table_entry x86_opcode_map_two_byte b1, rd1))
            else Done (b0, table_entry x86_opcode_map_one_byte b0, rd0)) (\<lambda>(opcode, spec, rd').
       let g = X86_INSN_FLAG_GET_GROUP (spec_flags spec) in
       if g > X86_INSN_SSE_GROUP_START then Fatal
       else if g > X86_INSN_GROUP_START \<and> g < X86_INSN_SSE_GROUP_START
       then dbind (peek_byte rd') (\<lambda>m.
              Done (insn\<lparr>primary_opcode := opcode, insn_spec := group_spec spec m\<rparr>, rd'))
       else Done (insn\<lparr>primary_opcode := opcode, insn_spec := spec\<rparr>, rd')))"

section \<open>Immediates\<close>

definition x86_insn_imm_bits :: "x86_insn_spec_t \<Rightarrow> nat \<Rightarrow> nat decoding" where
  "x86_insn_imm_bits spec operand_bits =
     (case x86_insn_immediate_type spec of
        None \<Rightarrow> Out_of_buffer
      | Some t \<Rightarrow>
          Done (if t = CHR ''b'' then 8
                else if t = CHR ''w'' then 16
                else if t = CHR ''d'' then 32
                else if t = CHR ''q'' then 64
                else if t = CHR ''z'' then if operand_bits = 64 then 32 else operand_bits
                else if t = CHR ''v'' then operand_bits
                else 0))"

definition effective_operand_bits :: "int \<Rightarrow> x86_insn_decode_t \<Rightarrow> nat" where
  "effective_operand_bits mode insn =
     (if mode = 64 \<and> spec_flags (insn_spec insn) AND X86_INSN_SPEC_DEFAULT_64_BIT \<noteq> 0 then 64
      else if insn_flags insn AND X86_INSN_DECODE_FLAG_OPERAND_SIZE_64 \<noteq> 0 then 64
      else if insn_prefix insn AND INSN_PREFIX_OPERAND_SIZE \<noteq> 0 then 16 else 32)"

definition x86_insn_decode_immediate ::
    "x86_insn_reader_t \<Rightarrow> x86_insn_decode_t \<Rightarrow> int
     \<Rightarrow> (x86_insn_decode_t \<times> x86_insn_reader_t) decoding" where
  "x86_insn_decode_immediate rd insn mode =
     dbind (x86_insn_imm_bits (insn_spec insn) (effective_operand_bits mode insn)) (\<lambda>imm_bits.
       if imm_bits = 0 then Done (insn, rd)
       else dbind (x86_insn_decode_number rd imm_bits) (\<lambda>(imm, rd').
         Done (insn\<lparr>immediate_offset := ucast (reader_offset rd), immediate := imm\<rparr>, rd')))"

section \<open>The decoder\<close>

definition x86_insn_decode ::
    "x86_insn_decode_t \<Rightarrow> u8 list \<Rightarrow> int \<Rightarrow> x86_insn_decode_t decoding" where
  "x86_insn_decode insn code mode =
     dbind (x86_insn_decode_prefix mode (init_reader (take 15 code)) insn) (\<lambda>(insn, rd).
     dbind (x86_insn_decode_opcode rd insn) (\<lambda>(insn, rd).
     dbind (if x86_insn_has_modrm_byte (insn_spec insn)
            then x86_insn_decode_modrm_sib rd insn mode else Done (insn, rd)) (\<lambda>(insn, rd).
     dbind (if x86_insn_has_immediate (insn_spec insn)
            then x86_insn_decode_immediate rd insn mode else Done (insn, rd)) (\<lambda>(insn, rd).
       Done (insn\<lparr>insn_length := reader_offset rd\<rparr>)))))"

text \<open>The structure as the callers pass it, filled with zero.\<close>

definition insn_zero :: x86_insn_decode_t where
  "insn_zero = \<lparr>insn_flags = 0, insn_length = 0, displacement_offset = 0, immediate_offset = 0,
     reg_operand = \<lparr>op_reg = 0, op_mem = \<lparr>mem_base = 0, mem_index = 0, mem_scale = 0, mem_disp = 0\<rparr>\<rparr>,
     rm_operand = \<lparr>op_reg = 0, op_mem = \<lparr>mem_base = 0, mem_index = 0, mem_scale = 0, mem_disp = 0\<rparr>\<rparr>,
     insn_prefix = 0, rex = 0, primary_opcode = 0, modrm = 0, sib = 0, immediate = 0,
     insn_spec = empty_spec\<rparr>"

end
