(* ===== verification/X86_Safety.thy ===== *)
theory X86_Safety
  imports X86_Decode
begin

unbundle bit_operations_syntax

text \<open>
  The x86 decoder reads only its own buffer. Each stage of the decoder moves the cursor by a
  bounded number of bytes: the prefixes by as many as there are, the opcode by two, ModR/M with
  SIB and displacement by six, the immediate by eight, or by four when there is a ModR/M byte,
  which is a property of the opcode tables.
\<close>

section \<open>Reads stay in the buffer\<close>

definition room :: "x86_insn_reader_t \<Rightarrow> nat \<Rightarrow> bool" where
  "room rd n \<longleftrightarrow> cursor rd + n \<le> length (rd_buffer rd)"

lemma bytes_at_room: "i + n \<le> length (rd_buffer rd) \<Longrightarrow> \<exists>w. bytes_at rd i n = Done w"
proof (induction n arbitrary: i)
  case (Suc n)
  then obtain w where "bytes_at rd (Suc i) n = Done w" by (metis add_Suc_shift)
  with Suc.prems show ?case by (simp add: byte_at_def)
qed simp

definition advances :: "x86_insn_reader_t \<Rightarrow> nat \<Rightarrow> ('a \<Rightarrow> x86_insn_reader_t) \<Rightarrow> 'a decoding \<Rightarrow> bool" where
  "advances rd n f r = (case r of Done x \<Rightarrow> rd_buffer (f x) = rd_buffer rd \<and> cursor (f x) \<le> cursor rd + n
     | Fatal \<Rightarrow> True | Out_of_buffer \<Rightarrow> False)"

lemma read_byte_advances: "room rd 1 \<Longrightarrow> advances rd 1 snd (read_byte rd)"
  by (simp add: read_byte_def byte_at_def room_def advances_def advance_def)

lemma read_number_advances:
  assumes "room rd (bits div 8)" "bits \<in> {8, 16, 32, 64}"
  shows "advances rd (bits div 8) snd (x86_insn_decode_number rd bits)"
proof -
  have "\<exists>w. bytes_at rd (cursor rd) (bits div 8) = Done w"
    using assms(1) unfolding room_def by (rule bytes_at_room)
  then obtain w where w: "bytes_at rd (cursor rd) (bits div 8) = Done w" ..
  from assms(2) consider "bits = 8" | "bits = 16" | "bits = 32" | "bits = 64" by auto
  then show ?thesis
  proof cases
    case 1
    with read_byte_advances [of rd] assms(1) show ?thesis
      by (cases "read_byte rd") (auto simp: x86_insn_decode_number_def advances_def)
  qed (use w in \<open>simp_all add: x86_insn_decode_number_def read_qword_def read_dword_def read_word_def
        advances_def advance_def\<close>)
qed

lemma advances_bind:
  assumes "advances rd n f r" "\<And>x. r = Done x \<Longrightarrow> rd_buffer (f x) = rd_buffer rd \<Longrightarrow>
      cursor (f x) \<le> cursor rd + n \<Longrightarrow> advances (f x) k g (h x)"
  shows "advances rd (n + k) g (dbind r h)"
  using assms by (cases r) (force simp: advances_def split: decoding.split)+

lemma advances_weaken: "advances rd n f r \<Longrightarrow> n \<le> k \<Longrightarrow> advances rd k f r"
  by (auto simp: advances_def split: decoding.splits)

definition legacy_run :: "u8 list \<Rightarrow> nat" where
  "legacy_run code = length (takeWhile (\<lambda>c. legacy_prefix c \<noteq> 0) code)"

lemma prefix_loop_advances:
  "k = length (takeWhile (\<lambda>c. legacy_prefix c \<noteq> 0) (drop (cursor rd) (rd_buffer rd))) \<Longrightarrow>
   room rd (k + 1) \<Longrightarrow> advances rd (k + 1) (\<lambda>(p, i, rd). rd) (decode_prefix_loop mode rd insn acc)"
proof (induction mode rd insn acc arbitrary: k rule: decode_prefix_loop.induct)
  case (1 mode rd insn acc)
  then have lt: "cursor rd < length (rd_buffer rd)" by (simp add: room_def)
  define c where "c = rd_buffer rd ! cursor rd"
  have pk: "peek_byte rd = Done c" using lt by (simp add: peek_byte_def byte_at_def c_def)
  have dr: "drop (cursor rd) (rd_buffer rd) = c # drop (Suc (cursor rd)) (rd_buffer rd)"
    using lt by (simp add: c_def Cons_nth_drop_Suc)
  show ?case
  proof (cases "is_rex mode c \<or> legacy_prefix c = 0")
    case True
    then show ?thesis
      using lt by (subst decode_prefix_loop.simps)
        (auto simp: pk read_byte_def byte_at_def advances_def advance_def)
  next
    case False
    let ?rd = "advance 1 rd"
    let ?k = "length (takeWhile (\<lambda>c. legacy_prefix c \<noteq> 0) (drop (cursor ?rd) (rd_buffer ?rd)))"
    have k: "k = Suc ?k" using "1.prems"(1) False by (simp add: dr advance_def)
    then have "advances ?rd (?k + 1) (\<lambda>(p, i, rd). rd) (decode_prefix_loop mode ?rd insn (acc OR legacy_prefix c))"
      using False "1.prems"(2) by (intro "1.IH" [OF pk]) (auto simp: room_def advance_def)
    then show ?thesis
      using False k by (subst decode_prefix_loop.simps) (auto simp: pk advances_def advance_def split: decoding.splits)
  qed
qed

section \<open>Table facts\<close>

definition spec_ok :: "x86_insn_spec_t \<Rightarrow> bool" where
  "spec_ok spec \<longleftrightarrow>
     length (spec_operands spec) = 3 \<and>
     X86_INSN_FLAG_GET_GROUP (spec_flags spec) \<le> 34 \<and>
     (x86_insn_has_modrm_byte spec \<and> x86_insn_has_immediate spec \<longrightarrow>
        x86_insn_immediate_type spec \<in> {Some (CHR ''b''), Some (CHR ''z'')})"

definition table_ok :: "x86_insn_spec_t list list \<Rightarrow> bool" where
  "table_ok table \<longleftrightarrow> length table = 16 \<and> list_all (\<lambda>row. length row = 16 \<and> list_all spec_ok row) table"

lemma tables_ok: "table_ok x86_opcode_map_one_byte" "table_ok x86_opcode_map_two_byte"
  by code_simp+

lemma groups_ok:
  "length x86_insn_modrm_reg_groups = 19 \<and> list_all (\<lambda>g. length g = 8) x86_insn_modrm_reg_groups"
  by code_simp

lemma table_entry_ok:
  assumes "table_ok table"
  shows "spec_ok (table_entry table opcode)"
proof -
  have u: "unat opcode < 256" using unsigned_less [of opcode, where 'a = nat] by simp
  then have d: "unat opcode div 16 < length table" using assms by (simp add: table_ok_def less_mult_imp_div_less)
  then have "length (table ! (unat opcode div 16)) = 16 \<and> list_all spec_ok (table ! (unat opcode div 16))"
    using assms by (simp add: table_ok_def list_all_length)
  then show ?thesis by (simp add: table_entry_def list_all_length)
qed

section \<open>Opcode, ModR/M and displacement\<close>

lemma spec_queries_operands:
  assumes "spec_operands s = spec_operands t"
  shows "x86_insn_has_modrm_byte s = x86_insn_has_modrm_byte t"
    "x86_insn_has_immediate s = x86_insn_has_immediate t"
    "x86_insn_immediate_type s = x86_insn_immediate_type t"
  using assms by (simp_all add: x86_insn_has_modrm_byte_def x86_insn_has_immediate_def x86_insn_immediate_type_def)

lemma group_spec_operands: "spec_operands (group_spec spec m) = spec_operands spec"
  by (simp add: group_spec_def Let_def)

lemma read_byte_cases:
  assumes "room rd 1"
  obtains b where "read_byte rd = Done (b, advance 1 rd)" "byte_at rd (cursor rd) = Done b"
  using assms that by (simp add: read_byte_def byte_at_def room_def)

lemma room_advance: "room (advance n rd) k \<longleftrightarrow> room rd (n + k)"
  by (auto simp: room_def advance_def)

lemma room_mono: "room rd n \<Longrightarrow> k \<le> n \<Longrightarrow> room rd k"
  by (auto simp: room_def)

lemma advance_simps [simp]:
  "rd_buffer (advance n rd) = rd_buffer rd" "cursor (advance n rd) = cursor rd + n"
  "byte_at (advance n rd) i = byte_at rd i"
  by (simp_all add: advance_def byte_at_def)

lemma advances_advance: "advances (advance n rd) k f r \<Longrightarrow> advances rd (n + k) f r"
  by (auto simp: advances_def split: decoding.splits)

lemma opcode_advances:
  assumes "room rd 3"
  shows "advances rd 2 snd (x86_insn_decode_opcode rd insn)"
    and "x86_insn_decode_opcode rd insn = Done (insn', rd') \<Longrightarrow>
       \<exists>spec. spec_ok spec \<and> spec_operands (insn_spec insn') = spec_operands spec"
proof -
  obtain b where b: "read_byte rd = Done (b, advance 1 rd)"
    by (rule read_byte_cases [OF room_mono [OF assms]]) auto
  obtain b2 where b2: "read_byte (advance 1 rd) = Done (b2, advance 1 (advance 1 rd))"
      "byte_at (advance 1 rd) (cursor (advance 1 rd)) = Done b2"
    by (rule read_byte_cases [of "advance 1 rd"]) (use assms in \<open>auto simp: room_advance elim: room_mono\<close>)
  obtain b3 where b3: "byte_at (advance 1 (advance 1 rd)) (cursor (advance 1 (advance 1 rd))) = Done b3"
    by (rule read_byte_cases [of "advance 1 (advance 1 rd)"]) (use assms in \<open>auto simp: room_advance elim: room_mono\<close>)
  note ev = x86_insn_decode_opcode_def b b2 [simplified] b3 [simplified] peek_byte_def Let_def
  show "advances rd 2 snd (x86_insn_decode_opcode rd insn)"
    by (auto simp: ev advances_def)
  show "\<exists>spec. spec_ok spec \<and> spec_operands (insn_spec insn') = spec_operands spec"
    if "x86_insn_decode_opcode rd insn = Done (insn', rd')"
    using that table_entry_ok [OF tables_ok(1), of b] table_entry_ok [OF tables_ok(2), of b2]
    by (auto simp: ev group_spec_operands split: if_splits)
qed

lemma displacement_advances:
  assumes "room rd (bits div 8)" "bits \<in> {0, 8, 16, 32, 255}"
  shows "advances rd (bits div 8) snd (decode_displacement rd insn bits)"
proof -
  consider "bits = 0" | "bits = 255" | "bits \<in> {8, 16, 32, 64}" using assms(2) by auto
  then show ?thesis
  proof cases
    case 3
    then have e: "decode_displacement rd insn bits =
        dbind (x86_insn_decode_number rd bits) (\<lambda>(disp, rd').
          Done (set_mem (\<lambda>m. m\<lparr>mem_disp := ucast disp\<rparr>)
            (insn\<lparr>displacement_offset := ucast (reader_offset rd)\<rparr>), rd'))"
      by (auto simp: decode_displacement_def)
    have "advances rd (bits div 8 + 0) snd (decode_displacement rd insn bits)"
      unfolding e by (rule advances_bind [OF read_number_advances [OF assms(1) 3]]) (auto simp: advances_def)
    then show ?thesis by simp
  qed (auto simp: decode_displacement_def advances_def x86_insn_decode_number_def)
qed

lemma disp_bits_cases:
  "modrm_disp_bits md rm \<in> {0, 8, 32}" "modrm16_disp_bits md rm \<in> {8, 16, 255}"
  "d \<in> {0, 8, 32} \<Longrightarrow> sib_disp_bits bits md base d \<in> {0, 8, 32}"
  by (auto simp: modrm_disp_bits_def modrm16_disp_bits_def sib_disp_bits_def)

lemma decode_sib_form:
  assumes "read_byte rd = Done (b, rd')"
  shows "\<exists>insn' base. decode_sib rd insn bits md d = Done (insn', sib_disp_bits bits md base d, rd')"
  unfolding decode_sib_def assms Let_def dbind.simps prod.case by (intro exI) (rule refl)

lemma sib_advances:
  assumes "room rd 1"
  shows "advances rd 1 (\<lambda>(i, d, rd). rd) (decode_sib rd insn bits md d)"
    and "decode_sib rd insn bits md d = Done (insn', d', rd') \<Longrightarrow> d \<in> {0, 8, 32} \<Longrightarrow> d' \<in> {0, 8, 32}"
proof -
  obtain b where b: "read_byte rd = Done (b, advance 1 rd)"
    by (rule read_byte_cases [OF assms])
  obtain insn1 base where s: "decode_sib rd insn bits md d = Done (insn1, sib_disp_bits bits md base d, advance 1 rd)"
    using decode_sib_form [OF b] by blast
  show "advances rd 1 (\<lambda>(i, d, rd). rd) (decode_sib rd insn bits md d)"
    by (simp add: s advances_def)
  show "decode_sib rd insn bits md d = Done (insn', d', rd') \<Longrightarrow> d \<in> {0, 8, 32} \<Longrightarrow> d' \<in> {0, 8, 32}"
    using disp_bits_cases(3) [of d bits md base] by (simp only: s decoding.inject prod.inject)
qed

lemma address_advances:
  assumes "room rd 5"
  shows "advances rd 5 snd (decode_address rd insn mode)"
proof -
  let ?md = "field_high (modrm insn)" and ?rm = "push_bit 3 (REX_B (rex insn)) OR field_low (modrm insn)"
  have disp: "advances r 4 snd (decode_displacement r i bits)" if "room r 4" "bits \<in> {0, 8, 16, 32, 255}" for r i bits
  proof (cases "bits = 255")
    case True
    then show ?thesis by (simp add: decode_displacement_def advances_def x86_insn_decode_number_def)
  next
    case False
    with that have "bits div 8 \<le> 4" by auto
    with that show ?thesis by (intro advances_weaken [OF displacement_advances] room_mono [OF that(1)]) auto
  qed
  have r4: "room rd 4" by (rule room_mono [OF assms]) simp
  have sib: "advances rd (1 + 4) snd (dbind (decode_sib rd i bits md (modrm_disp_bits ?md ?rm)) (\<lambda>(insn3, d', rd').
      decode_displacement rd' insn3 d'))" for i bits md
  proof (rule advances_bind [OF sib_advances(1) [OF room_mono [OF assms]]])
    fix x assume x: "decode_sib rd i bits md (modrm_disp_bits ?md ?rm) = Done x"
      "rd_buffer (case x of (i, d, rd) \<Rightarrow> rd) = rd_buffer rd" "cursor (case x of (i, d, rd) \<Rightarrow> rd) \<le> cursor rd + 1"
    obtain i' d' r' where x': "x = (i', d', r')" by (cases x)
    have "room r' 4" using x assms by (simp add: x' room_def)
    moreover have "d' \<in> {0, 8, 32}"
      using sib_advances(2) [OF room_mono [OF assms] x(1) [unfolded x'] disp_bits_cases(1)] by simp
    ultimately show "advances (case x of (i, d, rd) \<Rightarrow> rd) 4 snd (case x of (insn3, d', rd') \<Rightarrow> decode_displacement rd' insn3 d')"
      by (simp add: x', intro disp) auto
  qed simp
  have d1: "advances rd 5 snd (decode_displacement rd i bits)" if "bits \<in> {0, 8, 16, 32, 255}" for i bits
    by (rule advances_weaken [OF disp [OF r4 that]]) simp
  have m: "modrm_disp_bits md rm \<in> {0, 8, 16, 32, 255}" "modrm16_disp_bits md rm \<in> {0, 8, 16, 32, 255}" for md rm
    using disp_bits_cases(1,2) [of md rm] by auto
  show ?thesis
  proof (cases "effective_address_bits mode (insn_prefix insn)")
    case (Done bits)
    with sib d1 m show ?thesis by (auto simp: decode_address_def Let_def)
  qed (auto simp: decode_address_def Let_def advances_def effective_address_bits_def split: if_splits)
qed

lemma modrm_advances:
  assumes "room rd 6"
  shows "advances rd 6 snd (x86_insn_decode_modrm_sib rd insn mode)"
proof -
  obtain b where b: "read_byte rd = Done (b, advance 1 rd)"
    by (rule read_byte_cases [OF room_mono [OF assms]]) auto
  have "room (advance 1 rd) 5" using assms by (simp add: room_advance)
  then have "advances rd (1 + 5) snd (decode_address (advance 1 rd) i mode)" for i
    by (intro advances_advance address_advances)
  then show ?thesis
    by (simp add: x86_insn_decode_modrm_sib_def b Let_def) (simp add: advances_def)
qed

section \<open>Immediates and the whole decoder\<close>

lemma dbind_assoc: "dbind (dbind r f) g = dbind r (\<lambda>x. dbind (f x) g)"
  by (cases r) auto

lemma has_immediate_type:
  "x86_insn_has_immediate spec \<Longrightarrow> \<exists>t. x86_insn_immediate_type spec = Some t"
  unfolding x86_insn_has_immediate_def x86_insn_immediate_type_def
  by (cases "find (\<lambda>(code, type). imm_code code) (spec_operands spec)") (auto simp: list_ex_iff find_None_iff)

lemma immediate_advances:
  assumes "x86_insn_has_immediate (insn_spec insn)"
    and "room rd 8 \<or> room rd 4 \<and> x86_insn_immediate_type (insn_spec insn) \<in> {Some (CHR ''b''), Some (CHR ''z'')}"
  shows "advances rd 8 snd (x86_insn_decode_immediate rd insn mode)"
    and "x86_insn_immediate_type (insn_spec insn) \<in> {Some (CHR ''b''), Some (CHR ''z'')} \<Longrightarrow>
         advances rd 4 snd (x86_insn_decode_immediate rd insn mode)"
proof -
  let ?n = "effective_operand_bits mode insn"
  have ob: "?n \<in> {16, 32, 64}" by (simp add: effective_operand_bits_def)
  obtain t where t: "x86_insn_immediate_type (insn_spec insn) = Some t"
    using has_immediate_type [OF assms(1)] by blast
  obtain bits where b0: "x86_insn_imm_bits (insn_spec insn) ?n = Done bits"
    by (simp add: x86_insn_imm_bits_def t)
  then have bits: "x86_insn_imm_bits (insn_spec insn) ?n = Done bits" "bits \<in> {0, 8, 16, 32, 64}"
      "t = CHR ''b'' \<or> t = CHR ''z'' \<Longrightarrow> bits \<in> {8, 16, 32}"
    using ob by (auto simp: x86_insn_imm_bits_def t split: if_splits)
  have adv: "advances rd (bits div 8) snd (x86_insn_decode_immediate rd insn mode)" if r: "room rd (bits div 8)"
  proof (cases "bits = 0")
    case True
    then show ?thesis by (simp add: x86_insn_decode_immediate_def bits(1) advances_def)
  next
    case False
    with bits(2) have b: "bits \<in> {8, 16, 32, 64}" by auto
    have e: "x86_insn_decode_immediate rd insn mode =
        dbind (x86_insn_decode_number rd bits) (\<lambda>(imm, rd').
         Done (insn\<lparr>immediate_offset := ucast (reader_offset rd), immediate := imm\<rparr>, rd'))"
      using False by (simp add: x86_insn_decode_immediate_def bits(1))
    have "advances rd (bits div 8 + 0) snd (x86_insn_decode_immediate rd insn mode)"
      unfolding e by (rule advances_bind [OF read_number_advances [OF r b]]) (auto simp: advances_def)
    then show ?thesis by simp
  qed
  have b8: "bits div 8 \<le> 8" using bits(2) by auto
  show small: "advances rd 4 snd (x86_insn_decode_immediate rd insn mode)"
    if "x86_insn_immediate_type (insn_spec insn) \<in> {Some (CHR ''b''), Some (CHR ''z'')}"
  proof -
    have "bits \<in> {8, 16, 32}" using that t by (intro bits(3)) auto
    then have b4: "bits div 8 \<le> 4" by auto
    have "room rd 4" using assms(2) room_mono [of rd 8 4] by auto
    then have "room rd (bits div 8)" using b4 by (rule room_mono)
    from advances_weaken [OF adv [OF this] b4] show ?thesis .
  qed
  show "advances rd 8 snd (x86_insn_decode_immediate rd insn mode)"
  proof (cases "room rd 8")
    case True
    then have "room rd (bits div 8)" using b8 by (rule room_mono)
    from advances_weaken [OF adv [OF this] b8] show ?thesis .
  next
    case False
    with assms(2) have "advances rd 4 snd (x86_insn_decode_immediate rd insn mode)"
      by (intro small) simp
    then show ?thesis by (rule advances_weaken) simp
  qed
qed

lemma takeWhile_padded:
  "\<not> P c \<Longrightarrow> takeWhile P (xs @ replicate n c) = takeWhile P xs"
  by (induction xs) (auto simp: takeWhile_replicate)

lemma init_reader_props:
  "length (rd_buffer (init_reader (take 15 code))) = 20" "cursor (init_reader (take 15 code)) = 0"
  "takeWhile (\<lambda>c. legacy_prefix c \<noteq> 0) (rd_buffer (init_reader (take 15 code))) =
     takeWhile (\<lambda>c. legacy_prefix c \<noteq> 0) (take 15 code)"
proof -
  have "length (take 15 code) < 20" by simp
  then show "length (rd_buffer (init_reader (take 15 code))) = 20" "cursor (init_reader (take 15 code)) = 0"
    "takeWhile (\<lambda>c. legacy_prefix c \<noteq> 0) (rd_buffer (init_reader (take 15 code))) =
       takeWhile (\<lambda>c. legacy_prefix c \<noteq> 0) (take 15 code)"
    by (auto simp: init_reader_def sizeof_buffer_def takeWhile_padded legacy_prefix_def)
qed

lemma prefix_advances:
  assumes "legacy_run (take 15 code) \<le> 7"
  shows "advances (init_reader (take 15 code)) 8 snd (x86_insn_decode_prefix mode (init_reader (take 15 code)) insn)"
proof -
  let ?rd = "init_reader (take 15 code)" and ?k = "legacy_run (take 15 code)"
  have "advances ?rd (?k + 1) (\<lambda>(p, i, rd). rd) (decode_prefix_loop mode ?rd insn 0)"
    using assms by (intro prefix_loop_advances) (simp_all add: init_reader_props legacy_run_def room_def)
  then have "advances ?rd (?k + 1 + 0) snd (x86_insn_decode_prefix mode ?rd insn)"
    unfolding x86_insn_decode_prefix_def by (rule advances_bind) (auto simp: advances_def)
  then show ?thesis using assms by (elim advances_weaken) simp
qed

lemma insn_spec_updates [simp]:
  "insn_spec (set_mem f insn) = insn_spec insn" "insn_spec (add_flag fl insn) = insn_spec insn"
  by (simp_all add: set_mem_def add_flag_def)

lemma displacement_spec:
  "decode_displacement rd insn bits = Done (insn', rd') \<Longrightarrow> insn_spec insn' = insn_spec insn"
  by (auto simp: decode_displacement_def dbind_eq_Done split: if_splits)

lemma base_spec [simp]:
  "insn_spec (modrm_base md rm insn) = insn_spec insn"
  "insn_spec (modrm16_operand md rm insn) = insn_spec insn"
  by (simp_all add: modrm_base_def modrm16_operand_def Let_def)

lemma sib_spec:
  assumes "decode_sib rd insn bits md d = Done (insn', d', rd')"
  shows "insn_spec insn' = insn_spec insn"
proof -
  from assms obtain b r where b: "read_byte rd = Done (b, r)"
    unfolding decode_sib_def dbind_eq_Done by auto
  from assms [unfolded decode_sib_def b Let_def dbind.simps prod.case decoding.inject prod.inject]
  show ?thesis by (elim conjE) (drule arg_cong [where f = insn_spec], simp split: if_splits)
qed

lemma address_spec:
  "decode_address rd insn mode = Done (insn', rd') \<Longrightarrow> insn_spec insn' = insn_spec insn"
  by (auto simp: decode_address_def Let_def dbind_eq_Done dest!: displacement_spec sib_spec split: if_splits)

lemma modrm_spec:
  assumes "x86_insn_decode_modrm_sib rd insn mode = Done (insn', rd')"
  shows "insn_spec insn' = insn_spec insn"
  using assms
  by (auto simp: x86_insn_decode_modrm_sib_def Let_def dbind_eq_Done dest!: address_spec split: if_splits)

text \<open>The operands of an instruction, ModR/M and immediate.\<close>

definition decode_operands :: "x86_insn_reader_t \<Rightarrow> x86_insn_decode_t \<Rightarrow> int \<Rightarrow> (x86_insn_decode_t \<times> x86_insn_reader_t) decoding" where
  "decode_operands rd insn mode =
     dbind (if x86_insn_has_modrm_byte (insn_spec insn)
            then x86_insn_decode_modrm_sib rd insn mode else Done (insn, rd)) (\<lambda>(insn, rd).
     if x86_insn_has_immediate (insn_spec insn)
     then x86_insn_decode_immediate rd insn mode else Done (insn, rd))"

lemma x86_insn_decode_operands:
  "x86_insn_decode insn code mode =
     dbind (x86_insn_decode_prefix mode (init_reader (take 15 code)) insn) (\<lambda>(insn, rd).
     dbind (x86_insn_decode_opcode rd insn) (\<lambda>(insn, rd).
     dbind (decode_operands rd insn mode) (\<lambda>(insn, rd). Done (insn\<lparr>insn_length := reader_offset rd\<rparr>))))"
  by (simp only: x86_insn_decode_def decode_operands_def dbind_assoc case_prod_beta')

lemma operands_advances:
  assumes r: "room rd 10" and spec: "spec_ok spec" "spec_operands (insn_spec i) = spec_operands spec"
  shows "advances rd 10 snd (decode_operands rd i mode)"
proof (cases "x86_insn_has_modrm_byte (insn_spec i)")
  case True
  have small: "x86_insn_has_immediate (insn_spec i) \<Longrightarrow>
      x86_insn_immediate_type (insn_spec i) \<in> {Some (CHR ''b''), Some (CHR ''z'')}"
    using spec True spec_queries_operands [OF spec(2)] by (simp add: spec_ok_def)
  have "advances rd (6 + 4) snd
    (dbind (x86_insn_decode_modrm_sib rd i mode) (\<lambda>(i, rd).
     if x86_insn_has_immediate (insn_spec i) then x86_insn_decode_immediate rd i mode else Done (i, rd)))"
  proof (rule advances_bind [OF modrm_advances [OF room_mono [OF r]]])
    fix x assume x: "x86_insn_decode_modrm_sib rd i mode = Done x" "rd_buffer (snd x) = rd_buffer rd"
      "cursor (snd x) \<le> cursor rd + 6"
    have sp: "insn_spec (fst x) = insn_spec i" using modrm_spec [of rd i mode "fst x" "snd x"] x(1) by simp
    have "room (snd x) 4" using r x by (simp add: room_def)
    then show "advances (snd x) 4 snd (case x of (i, rd) \<Rightarrow>
        if x86_insn_has_immediate (insn_spec i) then x86_insn_decode_immediate rd i mode else Done (i, rd))"
      using immediate_advances(2) [of "fst x" "snd x" mode] small sp
      by (cases x) (auto simp: advances_def)
  qed simp
  with True show ?thesis by (simp add: decode_operands_def)
next
  case False
  have "room rd 8" by (rule room_mono [OF r]) simp
  then show ?thesis
    using False immediate_advances(1) [of i rd mode]
    by (auto simp: decode_operands_def advances_def split: decoding.splits)
qed

lemma opcode_operands_advances:
  assumes room: "room rd 12"
  shows "advances rd 12 snd (dbind (x86_insn_decode_opcode rd insn) (\<lambda>(i, rd'). decode_operands rd' i mode))"
proof -
  have "advances rd (2 + 10) snd (dbind (x86_insn_decode_opcode rd insn) (\<lambda>(i, rd'). decode_operands rd' i mode))"
  proof (rule advances_bind [OF opcode_advances(1) [OF room_mono [OF room]]])
    fix y assume y: "x86_insn_decode_opcode rd insn = Done y" "rd_buffer (snd y) = rd_buffer rd"
      "cursor (snd y) \<le> cursor rd + 2"
    then have "room (snd y) 10" using room by (simp add: room_def)
    moreover obtain spec where "spec_ok spec" "spec_operands (insn_spec (fst y)) = spec_operands spec"
      using opcode_advances(2) [OF room_mono [OF room], of insn "fst y" "snd y"] y(1) by auto
    ultimately show "advances (snd y) 10 snd (case y of (i, rd') \<Rightarrow> decode_operands rd' i mode)"
      by (simp add: case_prod_beta' operands_advances)
  qed simp
  then show ?thesis by simp
qed

lemma decode_bounds:
  assumes "legacy_run (take 15 code) \<le> 7"
  shows "x86_insn_decode insn code mode \<noteq> Out_of_buffer \<and>
     (\<forall>insn'. x86_insn_decode insn code mode = Done insn' \<longrightarrow> unat (insn_length insn') \<le> 20)"
proof -
  let ?rd = "init_reader (take 15 code)"
  let ?w = "dbind (x86_insn_decode_prefix mode ?rd insn) (\<lambda>(insn, rd).
      dbind (x86_insn_decode_opcode rd insn) (\<lambda>(insn, rd). decode_operands rd insn mode))"
  have "advances ?rd (8 + 12) snd ?w"
  proof (rule advances_bind [OF prefix_advances [OF assms]])
    fix x :: "x86_insn_decode_t \<times> x86_insn_reader_t"
    assume "rd_buffer (snd x) = rd_buffer ?rd" "cursor (snd x) \<le> cursor ?rd + 8"
    then have "room (snd x) 12" by (simp add: room_def init_reader_props)
    from opcode_operands_advances [OF this]
    show "advances (snd x) 12 snd (case x of (insn, rd) \<Rightarrow>
      dbind (x86_insn_decode_opcode rd insn) (\<lambda>(insn, rd). decode_operands rd insn mode))"
      by (simp add: case_prod_beta')
  qed
  moreover have "x86_insn_decode insn code mode = dbind ?w (\<lambda>(insn, rd). Done (insn\<lparr>insn_length := reader_offset rd\<rparr>))"
    by (simp only: x86_insn_decode_operands dbind_assoc case_prod_beta')
  ultimately show ?thesis
    by (cases ?w) (auto simp: advances_def init_reader_props reader_offset_def unat_of_nat)
qed

text \<open>
  C23: The decoder never reads past its buffer of twenty bytes when the code starts with at most seven
  legacy prefixes, whatever the bytes and whatever the mode, and the length it returns is at most
  twenty.
\<close>

theorem x86_decode_in_buffer:
  assumes "legacy_run (take 15 code) \<le> 7"
  shows "x86_insn_decode insn code mode \<noteq> Out_of_buffer \<and>
     (\<forall>insn'. x86_insn_decode insn code mode = Done insn' \<longrightarrow> unat (insn_length insn') \<le> 20)"
  using decode_bounds [OF assms] .

theorem x86_decode_in_buffer_witness:
  "legacy_run (take 15 [0x66, 0x81, 0x05, 1, 2, 3, 4, 5, 6]) \<le> 7 \<and>
   x86_insn_decode insn_zero [0x66, 0x81, 0x05, 1, 2, 3, 4, 5, 6] 64 \<noteq> Out_of_buffer"
proof -
  have "legacy_run (take 15 [0x66, 0x81, 0x05, 1, 2, 3, 4, 5, 6]) \<le> 7"
    by (simp add: legacy_run_def legacy_prefix_def INSN_PREFIX_OPERAND_SIZE_def)
  with x86_decode_in_buffer [OF this] show ?thesis by simp
qed

end
