(* ===== verification/X86_Rows.thy ===== *)
theory X86_Rows
  imports X86_Intel X86_Safety
begin

unbundle bit_operations_syntax

text \<open>
  The decoder's opcode tables, row by row, against the opcode maps of the Intel manual. The
  departures are stated by opcode number, without the tables; \<open>row_ok\<close> says of one entry of a
  table that it agrees with the entry of the map except for them, and is evaluated for all 512.
\<close>

section \<open>Opcodes the decoder does not treat as the manual does\<close>

text \<open>
  The two-byte opcodes on which the decoder aborts (it is \<^verbatim>\<open>UNIMPLEMENTED\<close> for SSE groups), and
  the opcodes whose ModR/M byte it does not read: x87, the groups F6, F7 and FF and, of the
  two-byte map, the groups 6, 7, P, 12 to 15 and 16, the hinted nops, POPCNT and UD1.
\<close>

definition dobby_aborts :: "bool \<Rightarrow> nat \<Rightarrow> bool" where
  "dobby_aborts two n \<longleftrightarrow> two \<and>
     (0x10 \<le> n \<and> n \<le> 0x17 \<or> 0x28 \<le> n \<and> n \<le> 0x2F \<or> 0x50 \<le> n \<and> n \<le> 0x70 \<or>
      0x74 \<le> n \<and> n \<le> 0x7F \<or> n \<in> {0xC2, 0xC4, 0xC5, 0xC6} \<or> 0xD0 \<le> n)"

definition modrm_missed :: "bool \<Rightarrow> nat \<Rightarrow> bool" where
  "modrm_missed two n \<longleftrightarrow>
     (if two then n \<in> {0x00, 0x01, 0x0D, 0x71, 0x72, 0x73, 0xAE, 0xB8, 0xB9} \<or> 0x18 \<le> n \<and> n \<le> 0x1F
      else 0xD8 \<le> n \<and> n \<le> 0xDF \<or> n \<in> {0xF6, 0xF7, 0xFF})"

section \<open>Table entries\<close>

text \<open>
  The immediate type of a table entry and its flag for a 64-bit default, against the immediate of
  the manual: ENTER has only the word, the address of a move is taken for an operand, the near
  jumps of the two-byte map lack the flag, and PUSH has it.
\<close>

definition imm_row :: "char option \<Rightarrow> bool list \<Rightarrow> bool \<Rightarrow> nat \<Rightarrow> intel_imm \<Rightarrow> bool" where
  "imm_row t d64 two n i \<longleftrightarrow>
     (case i of I0 \<Rightarrow> t = None
      | Ib \<Rightarrow> t = Some (CHR ''b'')
      | Iw \<Rightarrow> t = Some (CHR ''w'')
      | Iw_Ib \<Rightarrow> t = Some (CHR ''w'')
      | Iz \<Rightarrow> t = Some (CHR ''z'') \<and> list_all (\<lambda>d. d = (\<not> two \<and> n = 0x68)) d64
      | Iv \<Rightarrow> t = Some (CHR ''v'') \<and> list_all Not d64 \<and> \<not> two
      | Jz \<Rightarrow> t = Some (CHR ''z'') \<and> list_all (\<lambda>d. d = (\<not> two)) d64
      | Moffs \<Rightarrow> list_all Not d64 \<and>
           t = Some (if even n then CHR ''b'' else CHR ''v'')
      | _ \<Rightarrow> False)"

definition spec_of :: "bool \<Rightarrow> u8 \<Rightarrow> x86_insn_spec_t" where
  "spec_of two opc = table_entry (if two then x86_opcode_map_two_byte else x86_opcode_map_one_byte) opc"

text \<open>The flags that an entry can end up with: its own, or those of a member of its group.\<close>

definition group_flags :: "x86_insn_spec_t \<Rightarrow> u16 list" where
  "group_flags spec = (let g = X86_INSN_FLAG_GET_GROUP (spec_flags spec)
     in if g = 0 \<or> g = 19 then [spec_flags spec] else map spec_flags (x86_insn_modrm_reg_groups ! g))"

definition row_ok :: "bool \<Rightarrow> nat \<Rightarrow> intel_entry \<Rightarrow> x86_insn_spec_t \<Rightarrow> bool" where
  "row_ok two n e spec =
     (case e of None \<Rightarrow> True
      | Some (k, i) \<Rightarrow>
          let t = x86_insn_immediate_type spec; g = X86_INSN_FLAG_GET_GROUP (spec_flags spec)
          in if dobby_aborts two n then g > 19
             else g \<le> 19 \<and>
               x86_insn_has_modrm_byte spec = (k \<noteq> No_ModRM \<and> \<not> modrm_missed two n) \<and>
               (k = ModRM_reg \<longrightarrow> i = I0) \<and>
               (if modrm_missed two n then k = ModRM \<and> (t = None \<or> t = Some (CHR ''b'') \<and> i = Ib)
                else imm_row t (map (\<lambda>f. f AND X86_INSN_SPEC_DEFAULT_64_BIT \<noteq> 0) (group_flags spec)) two n i \<and>
                   (k = ModRM \<longrightarrow> i \<in> {I0, Ib} \<or> i = Iz \<and> \<not> two \<and> n \<in> {0x69, 0x81, 0xC7}) \<and>
                   (k = No_ModRM \<and> i = Iz \<longrightarrow> \<not> two)))"

definition numbered_rows :: "bool \<Rightarrow> (nat \<times> intel_entry list \<times> x86_insn_spec_t list) list" where
  "numbered_rows two =
     zip [0..<16] (zip (if two then intel_two_byte_map else intel_one_byte_map)
       (if two then x86_opcode_map_two_byte else x86_opcode_map_one_byte))"

definition rows_ok :: "bool \<Rightarrow> (nat \<times> intel_entry list \<times> x86_insn_spec_t list) list \<Rightarrow> bool" where
  "rows_ok two rows = list_all (\<lambda>(r, irow, drow).
     list_all (\<lambda>(c, e, spec). row_ok two (16 * r + c) e spec) (zip [0..<16] (zip irow drow))) rows"

lemma one_byte_rows:
  "rows_ok False (take 8 (numbered_rows False))" "rows_ok False (drop 8 (numbered_rows False))"
  by code_simp+

lemma two_byte_rows:
  "rows_ok True (take 8 (numbered_rows True))" "rows_ok True (drop 8 (numbered_rows True))"
  by code_simp+

lemma row_at: "row_ok two (unat opc) (intel_lookup two opc) (spec_of two opc)"
proof -
  let ?r = "unat opc div 16" and ?c = "unat opc mod 16"
  let ?I = "if two then intel_two_byte_map else intel_one_byte_map"
    and ?D = "if two then x86_opcode_map_two_byte else x86_opcode_map_one_byte"
  have r: "?r < 16" using unsigned_less [of opc, where 'a = nat] by (simp add: less_mult_imp_div_less)
  have c: "?c < 16" by simp
  have l: "length ?I = 16" "length (?I ! ?r) = 16" "length ?D = 16" "length (?D ! ?r) = 16"
    using intel_maps_complete tables_ok r by (auto simp: table_ok_def list_all_length)
  have "rows_ok two (take 8 (numbered_rows two) @ drop 8 (numbered_rows two))"
    using one_byte_rows two_byte_rows unfolding rows_ok_def list_all_append by (cases two) simp_all
  then have "list_all (\<lambda>(c, e, spec). row_ok two (16 * ?r + c) e spec) (zip [0..<16] (zip (?I ! ?r) (?D ! ?r)))"
    using l r unfolding rows_ok_def append_take_drop_id numbered_rows_def by (auto simp: list_all_length)
  then have "\<forall>n<16. row_ok two (16 * ?r + n) (?I ! ?r ! n) (?D ! ?r ! n)"
    using l by (simp add: list_all_length)
  from this [rule_format, OF c] show ?thesis by (simp add: intel_lookup_def spec_of_def table_entry_def)
qed

end
