(* ===== verification/X86_Cursor.thy ===== *)
theory X86_Cursor
  imports X86_Rows
begin

unbundle bit_operations_syntax

text \<open>
  How far each stage of the decoder moves the cursor: prefixes and REX, the opcode, ModR/M with
  the memory operand, and the immediate; and from these the length of the whole instruction.
\<close>

section \<open>The length of a memory operand\<close>

lemma number_cursor:
  "x86_insn_decode_number rd bits = Done (w, rd') \<Longrightarrow>
   cursor rd' = cursor rd + (if bits = 64 then 4 else bits div 8) \<and> rd_buffer rd' = rd_buffer rd"
  by (auto simp: x86_insn_decode_number_def read_qword_def read_dword_def read_word_def read_byte_def
      dbind_eq_Done split: if_splits)

lemma displacement_cursor:
  "decode_displacement rd insn bits = Done (insn', rd') \<Longrightarrow> bits \<noteq> 64 \<Longrightarrow> cursor rd' = cursor rd + bits div 8"
  by (auto simp: decode_displacement_def dbind_eq_Done dest: number_cursor split: if_splits)

lemma and7_cases:
  fixes b :: u8
  obtains "b AND 7 = 0" | "b AND 7 = 1" | "b AND 7 = 2" | "b AND 7 = 3"
    | "b AND 7 = 4" | "b AND 7 = 5" | "b AND 7 = 6" | "b AND 7 = 7"
proof -
  have "(7 :: u8) = mask 3" by (simp add: mask_eq_exp_minus_1)
  then have "b AND 7 = take_bit 3 b" by (simp add: take_bit_eq_mask)
  then have "unat (b AND 7) < 8" using take_bit_nat_less_exp [of 3 "unat b"] by (simp add: unsigned_take_bit_eq)
  then have "unat (b AND 7) \<in> {0, 1, 2, 3, 4, 5, 6, 7}" by auto
  with that show thesis by (auto simp: word_unat_eq_iff)
qed

lemma field_high_cases:
  fixes b :: u8
  obtains "field_high b = 0" | "field_high b = 1" | "field_high b = 2" | "field_high b = 3"
proof -
  have len8: "LENGTH(8) = 8" by simp
  have "unat b < 256" using unsigned_less [of b, where 'a = nat] by simp
  then have "drop_bit 6 (unat b) < 4" "take_bit 8 (unat b) = unat b"
    by (simp_all only: drop_bit_eq_div take_bit_nat_eq_self_iff, simp_all add: div_less_iff_less_mult)
  then have "unat (field_high b) < 4" by (simp only: field_high_def unsigned_drop_bit_eq len8)
  then have "unat (field_high b) \<in> {0, 1, 2, 3}" by auto
  with that show thesis by (auto simp: word_unat_eq_iff)
qed

lemma REX_B_cases: obtains "REX_B r = 0" | "REX_B r = 1"
  using that unfolding REX_B_def by (cases "even r") (auto simp: and_one_eq even_iff_mod_2_eq_zero odd_iff_mod_2_eq_one)

definition sib_base :: "u8 \<Rightarrow> u8 \<Rightarrow> u8" where
  "sib_base r s = field_low s OR push_bit 3 (REX_B r)"

lemma sib_base_cases:
  "sib_base r s = 5 \<or> sib_base r s = 13 \<longleftrightarrow> field_low s = 5"
  "field_low s = 5 \<Longrightarrow> sib_base r s \<noteq> 7 \<and> sib_base r s \<noteq> 14"
  unfolding sib_base_def field_low_def
  by (rule REX_B_cases [of r]; rule and7_cases [of s]; simp)+

lemma rm_low: "(push_bit 3 (REX_B r) OR field_low b) AND 7 = field_low b"
  unfolding field_low_def by (rule REX_B_cases [of r]; rule and7_cases [of b]; simp)

section \<open>Prefixes\<close>

lemma advance_advance: "advance m (advance n rd) = advance (n + m) rd"
  by (simp add: advance_def add.assoc)

definition or_all :: "u32 list \<Rightarrow> u32" where "or_all ws = foldr (OR) ws 0"

lemma or_all_simps: "or_all [] = 0" "or_all (w # ws) = w OR or_all ws"
  by (simp_all add: or_all_def)

lemma rex_not_legacy: "is_rex mode c \<Longrightarrow> legacy_prefix c = 0"
  by (auto simp: is_rex_def legacy_prefix_def)

lemma prefix_loop_run:
  "drop (cursor rd) (rd_buffer rd) = ps @ c # rest \<Longrightarrow> (\<forall>p\<in>set ps. legacy_prefix p \<noteq> 0) \<Longrightarrow> legacy_prefix c = 0 \<Longrightarrow>
   decode_prefix_loop mode rd insn acc =
     Done (acc OR or_all (map legacy_prefix ps),
       if is_rex mode c
       then (if REX_W c \<noteq> 0 then add_flag X86_INSN_DECODE_FLAG_OPERAND_SIZE_64 insn else insn)\<lparr>rex := c\<rparr>
       else insn,
       advance (length ps + (if is_rex mode c then 1 else 0)) rd)"
proof (induction ps arbitrary: rd acc)
  case Nil
  then have lt: "cursor rd < length (rd_buffer rd)" by (cases "cursor rd < length (rd_buffer rd)") auto
  moreover from Nil have "rd_buffer rd ! cursor rd = c"
    by (metis append_Nil hd_drop_conv_nth list.sel(1) lt)
  ultimately show ?case
    using Nil.prems by (subst decode_prefix_loop.simps)
      (simp add: peek_byte_def byte_at_def read_byte_def or_all_simps advance_def)
next
  case (Cons p ps)
  then have lt: "cursor rd < length (rd_buffer rd)" by (cases "cursor rd < length (rd_buffer rd)") auto
  from Cons.prems have p: "rd_buffer rd ! cursor rd = p"
    by (metis append_Cons hd_drop_conv_nth list.sel(1) lt)
  have "drop (cursor (advance 1 rd)) (rd_buffer (advance 1 rd)) = ps @ c # rest"
    using arg_cong [OF Cons.prems(1), of tl] by (simp add: drop_Suc tl_drop)
  from Cons.IH [OF this, of "acc OR legacy_prefix p"] Cons.prems show ?case
    using lt p by (subst decode_prefix_loop.simps)
      (auto simp: peek_byte_def byte_at_def or_all_simps advance_def or.assoc dest: rex_not_legacy)
qed

lemma decode_prefix_run:
  assumes "drop (cursor rd) (rd_buffer rd) = ps @ c # rest" "\<forall>p\<in>set ps. legacy_prefix p \<noteq> 0" "legacy_prefix c = 0"
  shows "x86_insn_decode_prefix mode rd insn =
     Done ((if is_rex mode c
            then (if REX_W c \<noteq> 0 then add_flag X86_INSN_DECODE_FLAG_OPERAND_SIZE_64 insn else insn)\<lparr>rex := c\<rparr>
            else insn)\<lparr>insn_prefix := or_all (map legacy_prefix ps)\<rparr>,
       advance (length ps + (if is_rex mode c then 1 else 0)) rd)"
  by (simp add: x86_insn_decode_prefix_def prefix_loop_run [OF assms])

definition opcode_spec :: "u8 \<Rightarrow> u8 \<Rightarrow> x86_insn_spec_t" where
  "opcode_spec b0 b1 = (if b0 = 0x0f then table_entry x86_opcode_map_two_byte b1
                        else table_entry x86_opcode_map_one_byte b0)"

definition opcode_bytes :: "u8 \<Rightarrow> nat" where
  "opcode_bytes b0 = (if b0 = 0x0f then 2 else 1)"

lemma opcode_ungrouped:
  assumes "X86_INSN_FLAG_GET_GROUP (spec_flags (opcode_spec b0 b1)) = 0"
    and "byte_at rd (cursor rd) = Done b0" "byte_at rd (cursor rd + 1) = Done b1"
  shows "x86_insn_decode_opcode rd insn =
     Done (insn\<lparr>primary_opcode := (if b0 = 0x0f then b1 else b0), insn_spec := opcode_spec b0 b1\<rparr>,
           advance (opcode_bytes b0) rd)"
  using assms
  by (cases "b0 = 0x0f") (auto simp: x86_insn_decode_opcode_def read_byte_def opcode_spec_def opcode_bytes_def Let_def
      X86_INSN_SSE_GROUP_START_def X86_INSN_GROUP_START_def advance_advance)

definition imm_bytes :: "x86_insn_spec_t \<Rightarrow> nat \<Rightarrow> nat" where
  "imm_bytes spec operand_bits =
     (case x86_insn_immediate_type spec of
        Some t \<Rightarrow> if t = CHR ''b'' then 1 else if t = CHR ''w'' then 2 else if t = CHR ''d'' then 4
                else if t = CHR ''q'' then 8 else if t = CHR ''z'' then min operand_bits 32 div 8
                else if t = CHR ''v'' then operand_bits div 8 else 0
      | None \<Rightarrow> 0)"

lemma imm_bits_bytes:
  assumes "x86_insn_imm_bits spec n = Done bits" "n \<in> {16, 32, 64}"
  shows "imm_bytes spec n = bits div 8 \<and> bits \<in> {0, 8, 16, 32, 64}"
proof (cases "x86_insn_immediate_type spec")
  case (Some t)
  with assms show ?thesis by (auto simp: x86_insn_imm_bits_def imm_bytes_def split: if_splits)
qed (use assms in \<open>simp add: x86_insn_imm_bits_def\<close>)

lemma no_immediate: "\<not> x86_insn_has_immediate spec \<Longrightarrow> imm_bytes spec n = 0"
proof -
  assume "\<not> x86_insn_has_immediate spec"
  then have "x86_insn_immediate_type spec = None"
    by (auto simp: x86_insn_has_immediate_def x86_insn_immediate_type_def list_ex_iff find_None_iff)
  then show ?thesis by (simp add: imm_bytes_def)
qed

section \<open>Outcomes\<close>

lemma dbind_eq_Fatal: "dbind r f = Fatal \<longleftrightarrow> r = Fatal \<or> (\<exists>x. r = Done x \<and> f x = Fatal)"
  by (cases r) auto

lemma dbind_not_Fatal: "r \<noteq> Fatal \<Longrightarrow> (\<And>x. r = Done x \<Longrightarrow> f x \<noteq> Fatal) \<Longrightarrow> dbind r f \<noteq> Fatal"
  by (cases r) auto

lemma read_byte_not_Fatal: "read_byte rd \<noteq> Fatal"
  by (simp add: read_byte_def byte_at_def)

lemma bytes_at_not_Fatal: "bytes_at rd i n \<noteq> Fatal"
  by (induction n arbitrary: i) (auto simp: dbind_eq_Fatal byte_at_def)

lemma number_not_Fatal: "bits \<in> {8, 16, 32, 64} \<Longrightarrow> x86_insn_decode_number rd bits \<noteq> Fatal"
  unfolding x86_insn_decode_number_def read_qword_def read_dword_def read_word_def
  by (auto simp: dbind_eq_Fatal bytes_at_not_Fatal read_byte_not_Fatal)

lemma displacement_not_Fatal: "bits \<in> {0, 8, 32} \<Longrightarrow> decode_displacement rd insn bits \<noteq> Fatal"
  unfolding decode_displacement_def using number_not_Fatal [of bits rd]
  by (auto simp: dbind_eq_Fatal split: if_splits)

lemma address_not_Fatal: "decode_address rd insn 64 \<noteq> Fatal"
proof -
  let ?md = "field_high (modrm insn)" and ?rm = "push_bit 3 (REX_B (rex insn)) OR field_low (modrm insn)"
  have s: "dbind (decode_sib rd i bits ?md (modrm_disp_bits ?md ?rm)) (\<lambda>(i, d, r). decode_displacement r i d) \<noteq> Fatal" for i bits
  proof (rule dbind_not_Fatal)
    show "decode_sib rd i bits ?md (modrm_disp_bits ?md ?rm) \<noteq> Fatal"
      unfolding decode_sib_def Let_def by (rule dbind_not_Fatal [OF read_byte_not_Fatal]) auto
    fix x assume "decode_sib rd i bits ?md (modrm_disp_bits ?md ?rm) = Done x"
    moreover obtain b where "read_byte rd = Done (b, advance 1 rd)"
      using calculation by (auto simp: decode_sib_def read_byte_def dbind_eq_Done)
    ultimately obtain i' base where "x = (i', sib_disp_bits bits ?md base (modrm_disp_bits ?md ?rm), advance 1 rd)"
      using decode_sib_form [of rd b "advance 1 rd" i bits ?md "modrm_disp_bits ?md ?rm"] by auto
    then show "(case x of (i, d, r) \<Rightarrow> decode_displacement r i d) \<noteq> Fatal"
      using displacement_not_Fatal [OF disp_bits_cases(3) [OF disp_bits_cases(1)]] by (simp only: prod.case not_False_eq_True)
  qed
  show ?thesis
    using s displacement_not_Fatal [OF disp_bits_cases(1)]
    by (auto simp: decode_address_def effective_address_bits_def Let_def)
qed

lemma modrm_not_Fatal: "x86_insn_decode_modrm_sib rd insn 64 \<noteq> Fatal"
  unfolding x86_insn_decode_modrm_sib_def Let_def
  by (auto simp: dbind_eq_Fatal address_not_Fatal read_byte_not_Fatal split: if_splits)

lemma immediate_not_Fatal:
  assumes "x86_insn_has_immediate (insn_spec insn)"
  shows "x86_insn_decode_immediate rd insn mode \<noteq> Fatal"
  unfolding x86_insn_decode_immediate_def
proof (rule dbind_not_Fatal)
  let ?n = "effective_operand_bits mode insn"
  show "x86_insn_imm_bits (insn_spec insn) ?n \<noteq> Fatal"
    using has_immediate_type [OF assms] by (auto simp: x86_insn_imm_bits_def)
  fix bits assume "x86_insn_imm_bits (insn_spec insn) ?n = Done bits"
  then have "bits \<in> {0, 8, 16, 32, 64}"
    using imm_bits_bytes [of "insn_spec insn" ?n bits] by (simp add: effective_operand_bits_def split: if_splits)
  then show "(if bits = 0 then Done (insn, rd) else dbind (x86_insn_decode_number rd bits) (\<lambda>(imm, rd').
         Done (insn\<lparr>immediate_offset := ucast (reader_offset rd), immediate := imm\<rparr>, rd'))) \<noteq> Fatal"
    using number_not_Fatal [of bits rd] by (auto simp: dbind_eq_Fatal split: if_splits)
qed

lemma operands_not_Fatal: "decode_operands rd i 64 \<noteq> Fatal"
  unfolding decode_operands_def
  by (auto simp: dbind_eq_Fatal modrm_not_Fatal immediate_not_Fatal split: if_splits)

section \<open>What ModR/M and the immediate consume\<close>

lemma immediate_cursor_exact:
  assumes "x86_insn_decode_immediate rd insn mode = Done (insn', rd')"
  shows "cursor rd' = cursor rd + (let n = imm_bytes (insn_spec insn) (effective_operand_bits mode insn) in if n = 8 then 4 else n)"
proof -
  let ?n = "effective_operand_bits mode insn"
  have "?n \<in> {16, 32, 64}" by (simp add: effective_operand_bits_def)
  from assms(1) obtain bits where b: "x86_insn_imm_bits (insn_spec insn) ?n = Done bits"
    unfolding x86_insn_decode_immediate_def dbind_eq_Done by auto
  note ib = imm_bits_bytes [OF b \<open>?n \<in> _\<close>]
  show ?thesis
  proof (cases "bits = 0")
    case True
    with assms(1) ib show ?thesis by (simp add: x86_insn_decode_immediate_def b)
  next
    case False
    with assms(1) obtain w where "x86_insn_decode_number rd bits = Done (w, rd')"
      by (auto simp: x86_insn_decode_immediate_def b dbind_eq_Done)
    from number_cursor [OF this] ib show ?thesis by auto
  qed
qed

definition same_size :: "x86_insn_decode_t \<Rightarrow> x86_insn_decode_t \<Rightarrow> bool" where
  "same_size insn insn' \<longleftrightarrow>
     insn_spec insn' = insn_spec insn \<and> insn_prefix insn' = insn_prefix insn \<and>
     insn_flags insn' AND X86_INSN_DECODE_FLAG_OPERAND_SIZE_64 = insn_flags insn AND X86_INSN_DECODE_FLAG_OPERAND_SIZE_64"

lemma same_size_trans: "same_size a b \<Longrightarrow> same_size b c \<Longrightarrow> same_size a c"
  by (simp add: same_size_def)

lemma same_size_intros [intro, simp]:
  "same_size insn insn" "same_size insn (insn\<lparr>sib := b\<rparr>)" "same_size insn (insn\<lparr>displacement_offset := d\<rparr>)"
  "same_size insn (set_mem f insn)" "same_size insn (insn\<lparr>modrm := b, reg_operand := ro\<rparr>)"
  "same_size insn (insn\<lparr>modrm := b, reg_operand := ro, rm_operand := mo\<rparr>)"
  "same_size insn (add_flag X86_INSN_DECODE_FLAG_HAS_BASE insn)" "same_size insn (add_flag X86_INSN_DECODE_FLAG_HAS_INDEX insn)"
  "same_size insn (add_flag X86_INSN_DECODE_FLAG_IS_ADDRESS insn)"
  by (simp_all add: same_size_def set_mem_def add_flag_def bit.conj_disj_distrib2 decode_flag_defs)

lemma displacement_same_size:
  "decode_displacement rd insn bits = Done (insn', rd') \<Longrightarrow> same_size insn insn'"
  by (auto simp: decode_displacement_def dbind_eq_Done same_size_def set_mem_def split: if_splits)

lemma sib_same_size:
  assumes "decode_sib rd insn bits md d = Done (insn', d', rd')"
  shows "same_size insn insn'"
  using assms
  by (auto simp: decode_sib_def dbind_eq_Done Let_def same_size_def set_mem_def add_flag_def
      bit.conj_disj_distrib2 decode_flag_defs)

lemma base_same_size: "\<not> (md = 0 \<and> rm AND 7 = 5) \<Longrightarrow> same_size insn (modrm_base md rm insn)"
  by (auto simp: modrm_base_def same_size_def set_mem_def add_flag_def bit.conj_disj_distrib2 decode_flag_defs)

lemma base_rip: "md = 0 \<Longrightarrow> rm AND 7 = 5 \<Longrightarrow> insn_spec (modrm_base md rm insn) = insn_spec insn \<and>
     insn_prefix (modrm_base md rm insn) = insn_prefix insn \<and>
     insn_flags (modrm_base md rm insn) AND X86_INSN_DECODE_FLAG_OPERAND_SIZE_64 = 0"
  by (auto simp: modrm_base_def set_mem_def add_flag_def decode_flag_defs)

definition address_size :: "u32 \<Rightarrow> nat" where
  "address_size p = (if p AND INSN_PREFIX_ADDRESS_SIZE \<noteq> 0 then 32 else 64)"

definition dobby_operand_bytes :: "nat \<Rightarrow> u8 \<Rightarrow> u8 \<Rightarrow> u8 \<Rightarrow> nat" where
  "dobby_operand_bytes bits r m s =
     (if field_high m = 3 then 0
      else if field_low m = 4
      then 1 + sib_disp_bits bits (field_high m) (sib_base r s) (modrm_disp_bits (field_high m) 4) div 8
      else modrm_disp_bits (field_high m) (field_low m) div 8)"

lemma disp_bits_rm: "modrm_disp_bits md (push_bit 3 (REX_B r) OR field_low m) = modrm_disp_bits md (field_low m)"
  using rm_low [of r m] by (simp add: modrm_disp_bits_def) (simp add: field_low_def and.assoc)

lemma address_exact:
  assumes "decode_address rd insn 64 = Done (insn', rd')" "field_high (modrm insn) \<noteq> 3" "byte_at rd (cursor rd) = Done s"
  shows "cursor rd' = cursor rd + dobby_operand_bytes (address_size (insn_prefix insn)) (rex insn) (modrm insn) s"
    "insn_spec insn' = insn_spec insn" "insn_prefix insn' = insn_prefix insn"
    "insn_flags insn' AND X86_INSN_DECODE_FLAG_OPERAND_SIZE_64 =
       (if field_high (modrm insn) = 0 \<and> field_low (modrm insn) = 5 then 0
        else insn_flags insn AND X86_INSN_DECODE_FLAG_OPERAND_SIZE_64)"
proof -
  let ?md = "field_high (modrm insn)" and ?rm = "push_bit 3 (REX_B (rex insn)) OR field_low (modrm insn)"
  let ?j = "add_flag X86_INSN_DECODE_FLAG_IS_ADDRESS insn"
  let ?i = "modrm_base ?md ?rm ?j" and ?bits = "address_size (insn_prefix insn)"
  let ?rip = "?md = 0 \<and> field_low (modrm insn) = 5"
  have d: "(if field_low (modrm insn) = 4 then dbind (decode_sib rd ?i ?bits ?md (modrm_disp_bits ?md ?rm)) (\<lambda>(insn3, disp_bits', rd').
                    decode_displacement rd' insn3 disp_bits')
             else decode_displacement rd ?i (modrm_disp_bits ?md ?rm)) = Done (insn', rd')"
    using assms(1) by (auto simp: decode_address_def effective_address_bits_def Let_def rm_low address_size_def split: if_splits)
  have i: "insn_spec ?i = insn_spec insn \<and> insn_prefix ?i = insn_prefix insn \<and>
     insn_flags ?i AND X86_INSN_DECODE_FLAG_OPERAND_SIZE_64 = (if ?rip then 0 else insn_flags insn AND X86_INSN_DECODE_FLAG_OPERAND_SIZE_64)"
    using base_rip [of ?md ?rm ?j, unfolded rm_low] base_same_size [of ?md ?rm ?j, unfolded rm_low] same_size_intros(9) [of insn]
    unfolding same_size_def by presburger
  have same: "same_size ?i insn'"
    using d by (auto simp: dbind_eq_Done dest: displacement_same_size dest!: sib_same_size intro: same_size_trans split: if_splits)
  with i show "insn_spec insn' = insn_spec insn" "insn_prefix insn' = insn_prefix insn"
    "insn_flags insn' AND X86_INSN_DECODE_FLAG_OPERAND_SIZE_64 =
       (if ?rip then 0 else insn_flags insn AND X86_INSN_DECODE_FLAG_OPERAND_SIZE_64)"
    by (simp_all add: same_size_def)
  show "cursor rd' = cursor rd + dobby_operand_bytes ?bits (rex insn) (modrm insn) s"
  proof (cases "field_low (modrm insn) = 4")
    case False
    with d have "decode_displacement rd ?i (modrm_disp_bits ?md ?rm) = Done (insn', rd')" by simp
    moreover have "modrm_disp_bits ?md ?rm \<noteq> 64" by (simp add: modrm_disp_bits_def)
    ultimately show ?thesis
      using False assms(2) displacement_cursor [of rd ?i] by (simp add: dobby_operand_bytes_def disp_bits_rm)
  next
    case True
    have rexi: "rex ?i = rex insn" by (simp add: modrm_base_def add_flag_def set_mem_def Let_def)
    have "read_byte rd = Done (s, advance 1 rd)" using assms(3) by (simp add: read_byte_def)
    then obtain insn1 where "decode_sib rd ?i ?bits ?md (modrm_disp_bits ?md ?rm) =
        Done (insn1, sib_disp_bits ?bits ?md (sib_base (rex insn) s) (modrm_disp_bits ?md ?rm), advance 1 rd)"
      unfolding decode_sib_def sib_base_def rexi Let_def by auto
    with d True have "cursor rd' = cursor rd + 1 + sib_disp_bits ?bits ?md (sib_base (rex insn) s) (modrm_disp_bits ?md ?rm) div 8"
      by (auto dest!: displacement_cursor simp: modrm_disp_bits_def sib_disp_bits_def split: if_splits)
    then show ?thesis
      using disp_bits_rm [of ?md "rex insn" "modrm insn"] unfolding dobby_operand_bytes_def True
      using assms(2) by simp
  qed
qed

lemma modrm_exact:
  assumes "x86_insn_decode_modrm_sib rd insn 64 = Done (insn', rd')"
    and "byte_at rd (cursor rd) = Done m" "byte_at rd (cursor rd + 1) = Done s"
  shows "cursor rd' = cursor rd + 1 + dobby_operand_bytes (address_size (insn_prefix insn)) (rex insn) m s"
    "insn_spec insn' = insn_spec insn" "insn_prefix insn' = insn_prefix insn"
    "insn_flags insn' AND X86_INSN_DECODE_FLAG_OPERAND_SIZE_64 =
       (if field_high m = 0 \<and> field_low m = 5 then 0 else insn_flags insn AND X86_INSN_DECODE_FLAG_OPERAND_SIZE_64)"
proof -
  have "cursor rd' = cursor rd + 1 + dobby_operand_bytes (address_size (insn_prefix insn)) (rex insn) m s \<and>
    insn_spec insn' = insn_spec insn \<and> insn_prefix insn' = insn_prefix insn \<and>
    insn_flags insn' AND X86_INSN_DECODE_FLAG_OPERAND_SIZE_64 =
       (if field_high m = 0 \<and> field_low m = 5 then 0 else insn_flags insn AND X86_INSN_DECODE_FLAG_OPERAND_SIZE_64)"
  proof (cases "field_high m = 3")
    case True
    with assms(1,2) show ?thesis
      by (auto simp: x86_insn_decode_modrm_sib_def read_byte_def Let_def dobby_operand_bytes_def)
  next
    case False
    with assms(1,2) obtain ro where d: "decode_address (advance 1 rd) (insn\<lparr>modrm := m, reg_operand := ro\<rparr>) 64 = Done (insn', rd')"
      by (auto simp: x86_insn_decode_modrm_sib_def read_byte_def Let_def)
    from address_exact [OF d, of s] assms(3) False show ?thesis by simp
  qed
  then show "cursor rd' = cursor rd + 1 + dobby_operand_bytes (address_size (insn_prefix insn)) (rex insn) m s"
    "insn_spec insn' = insn_spec insn" "insn_prefix insn' = insn_prefix insn"
    "insn_flags insn' AND X86_INSN_DECODE_FLAG_OPERAND_SIZE_64 =
       (if field_high m = 0 \<and> field_low m = 5 then 0 else insn_flags insn AND X86_INSN_DECODE_FLAG_OPERAND_SIZE_64)"
    by blast+
qed

definition dobby_imm_bytes :: "x86_insn_spec_t \<Rightarrow> nat \<Rightarrow> nat" where
  "dobby_imm_bytes spec bits = (let n = imm_bytes spec bits in if n = 8 then 4 else n)"

definition dobby_operand_bits :: "x86_insn_spec_t \<Rightarrow> bool \<Rightarrow> bool \<Rightarrow> nat" where
  "dobby_operand_bits spec w p66 =
     (if spec_flags spec AND X86_INSN_SPEC_DEFAULT_64_BIT \<noteq> 0 \<or> w then 64 else if p66 then 16 else 32)"

lemma immediate_exact:
  assumes "(if x86_insn_has_immediate (insn_spec i) then x86_insn_decode_immediate rd i 64 else Done (i, rd)) = Done (i', rd')"
  shows "cursor rd' = cursor rd + dobby_imm_bytes (insn_spec i) (dobby_operand_bits (insn_spec i)
     (insn_flags i AND X86_INSN_DECODE_FLAG_OPERAND_SIZE_64 \<noteq> 0) (insn_prefix i AND INSN_PREFIX_OPERAND_SIZE \<noteq> 0))"
proof (cases "x86_insn_has_immediate (insn_spec i)")
  case True
  with assms have "x86_insn_decode_immediate rd i 64 = Done (i', rd')" by simp
  from immediate_cursor_exact [OF this] show ?thesis
    by (simp add: dobby_imm_bytes_def dobby_operand_bits_def effective_operand_bits_def)
next
  case False
  with assms no_immediate [OF False] show ?thesis by (simp add: dobby_imm_bytes_def)
qed

lemma operands_exact:
  assumes "decode_operands rd i 64 = Done (i', rd')"
    and "byte_at rd (cursor rd) = Done m" "byte_at rd (cursor rd + 1) = Done s"
    and "h = x86_insn_has_modrm_byte (insn_spec i)" "rip = (h \<and> field_high m = 0 \<and> field_low m = 5)"
  shows "cursor rd' = cursor rd +
     (if h then 1 + dobby_operand_bytes (address_size (insn_prefix i)) (rex i) m s else 0) +
     dobby_imm_bytes (insn_spec i) (dobby_operand_bits (insn_spec i)
       (insn_flags i AND X86_INSN_DECODE_FLAG_OPERAND_SIZE_64 \<noteq> 0 \<and> \<not> rip) (insn_prefix i AND INSN_PREFIX_OPERAND_SIZE \<noteq> 0))"
proof (cases h)
  case True
  with assms(1,4) obtain i1 rd1 where m: "x86_insn_decode_modrm_sib rd i 64 = Done (i1, rd1)"
    and d: "(if x86_insn_has_immediate (insn_spec i1) then x86_insn_decode_immediate rd1 i1 64 else Done (i1, rd1)) = Done (i', rd')"
    by (auto simp: decode_operands_def dbind_eq_Done)
  show ?thesis
    using modrm_exact [OF m assms(2,3)] immediate_exact [OF d] True assms(5) by auto
next
  case False
  with assms(1,4) have d: "(if x86_insn_has_immediate (insn_spec i) then x86_insn_decode_immediate rd i 64 else Done (i, rd)) = Done (i', rd')"
    by (simp add: decode_operands_def)
  from immediate_exact [OF d] False assms(5) show ?thesis by simp
qed

section \<open>The parts\<close>

lemma legacy_prefix_iff: "legacy_prefix c \<noteq> 0 \<longleftrightarrow> c \<in> intel_legacy"
  by (simp add: legacy_prefix_def intel_legacy_def INSN_PREFIX_OPERAND_SIZE_def INSN_PREFIX_ADDRESS_SIZE_def)

lemma is_rex_iff: "is_rex 64 c \<longleftrightarrow> unat c div 16 = 4"
  by (auto simp: is_rex_def word_le_nat_alt)

lemma prefix_flags:
  "or_all (map legacy_prefix ps) AND INSN_PREFIX_OPERAND_SIZE \<noteq> 0 \<longleftrightarrow> 0x66 \<in> set ps"
  "or_all (map legacy_prefix ps) AND INSN_PREFIX_ADDRESS_SIZE \<noteq> 0 \<longleftrightarrow> 0x67 \<in> set ps"
proof -
  have o: "legacy_prefix c AND INSN_PREFIX_OPERAND_SIZE = (if c = 0x66 then INSN_PREFIX_OPERAND_SIZE else 0)"
    "legacy_prefix c AND INSN_PREFIX_ADDRESS_SIZE = (if c = 0x67 then INSN_PREFIX_ADDRESS_SIZE else 0)" for c
    by (auto simp: legacy_prefix_def INSN_PREFIX_OPERAND_SIZE_def INSN_PREFIX_ADDRESS_SIZE_def)
  have z: "a OR b = 0 \<longleftrightarrow> a = 0 \<and> b = 0" for a b :: u32
    by (metis or.right_neutral or_eq_0_iff)
  have n: "INSN_PREFIX_OPERAND_SIZE \<noteq> 0" "INSN_PREFIX_ADDRESS_SIZE \<noteq> 0"
    by (simp_all add: INSN_PREFIX_OPERAND_SIZE_def INSN_PREFIX_ADDRESS_SIZE_def)
  show "or_all (map legacy_prefix ps) AND INSN_PREFIX_OPERAND_SIZE \<noteq> 0 \<longleftrightarrow> 0x66 \<in> set ps"
    by (induction ps) (auto simp: or_all_simps bit.conj_disj_distrib2 o z n)
  show "or_all (map legacy_prefix ps) AND INSN_PREFIX_ADDRESS_SIZE \<noteq> 0 \<longleftrightarrow> 0x67 \<in> set ps"
    by (induction ps) (auto simp: or_all_simps bit.conj_disj_distrib2 o z n)
qed

lemma prefix_parts:
  assumes "length (takeWhile (\<lambda>c. c \<in> intel_legacy) b) < length b" "rd_buffer rd = b" "cursor rd = 0" "x = intel_split b"
  shows "\<exists>p. x86_insn_decode_prefix 64 rd insn_zero =
     Done (insn_zero\<lparr>insn_flags := (if REX_W (enc_rex x) \<noteq> 0 then X86_INSN_DECODE_FLAG_OPERAND_SIZE_64 else 0), rex := enc_rex x,
        insn_prefix := p\<rparr>, advance (enc_start x) rd) \<and>
     (p AND INSN_PREFIX_OPERAND_SIZE \<noteq> 0 \<longleftrightarrow> enc_66 x) \<and> (p AND INSN_PREFIX_ADDRESS_SIZE \<noteq> 0 \<longleftrightarrow> enc_67 x)"
proof -
  let ?P = "\<lambda>c. c \<in> intel_legacy"
  let ?ps = "takeWhile ?P b" and ?rs = "dropWhile ?P b"
  have "?rs \<noteq> []" using assms(1) by (metis length_append list.size(3) add_0_right nat_less_le takeWhile_dropWhile_id)
  then obtain c rest where rs: "?rs = c # rest" by (cases ?rs) auto
  then have "c \<notin> intel_legacy" using hd_dropWhile [OF \<open>?rs \<noteq> []\<close>] by simp
  then have c: "legacy_prefix c = 0" using legacy_prefix_iff by blast
  moreover have "drop (cursor rd) (rd_buffer rd) = ?ps @ c # rest"
    using assms(2,3) rs takeWhile_dropWhile_id [of ?P b] by simp
  ultimately have d: "x86_insn_decode_prefix 64 rd insn_zero = Done ((if is_rex 64 c
            then (if REX_W c \<noteq> 0 then add_flag X86_INSN_DECODE_FLAG_OPERAND_SIZE_64 insn_zero else insn_zero)\<lparr>rex := c\<rparr>
            else insn_zero)\<lparr>insn_prefix := or_all (map legacy_prefix ?ps)\<rparr>,
       advance (length ?ps + (if is_rex 64 c then 1 else 0)) rd)"
    by (intro decode_prefix_run) (auto simp: legacy_prefix_iff dest: set_takeWhileD)
  have "drop (length ?ps) b = c # rest" using rs by (simp add: dropWhile_eq_drop)
  then have "byte_of b (length ?ps) = c"
    using assms(1) by (metis byte_of_def hd_drop_conv_nth list.sel(1) nth_default_def)
  then have x: "enc_start x = length ?ps + (if is_rex 64 c then 1 else 0)" "enc_rex x = (if is_rex 64 c then c else 0)"
      "enc_66 x = (0x66 \<in> set ?ps)" "enc_67 x = (0x67 \<in> set ?ps)"
    by (simp_all add: assms(4) intel_split_def Let_def is_rex_iff)
  have "x86_insn_decode_prefix 64 rd insn_zero =
     Done (insn_zero\<lparr>insn_flags := (if REX_W (enc_rex x) \<noteq> 0 then X86_INSN_DECODE_FLAG_OPERAND_SIZE_64 else 0), rex := enc_rex x,
        insn_prefix := or_all (map legacy_prefix ?ps)\<rparr>, advance (enc_start x) rd)"
    unfolding d x by (simp add: add_flag_def insn_zero_def REX_W_def)
  then show ?thesis using prefix_flags [of ?ps] x(3,4) by blast
qed

lemma opcode_parts:
  assumes "byte_at rd (cursor rd) = Done (byte_of b k)" "byte_at rd (cursor rd + 1) = Done (byte_of b (k + 1))"
    and "byte_at rd (cursor rd + 2) = Done m2"
    and "two = (byte_of b k = 0x0F)" "n = (if two then 2 else 1)" "opc = byte_of b (k + n - 1)"
    and "spec = spec_of two opc"
  shows "X86_INSN_FLAG_GET_GROUP (spec_flags spec) > 19 \<Longrightarrow> x86_insn_decode_opcode rd i = Fatal"
    and "X86_INSN_FLAG_GET_GROUP (spec_flags spec) \<le> 19 \<Longrightarrow>
      \<exists>spec'. x86_insn_decode_opcode rd i = Done (i\<lparr>primary_opcode := opc, insn_spec := spec'\<rparr>, advance n rd) \<and>
        spec_operands spec' = spec_operands spec \<and> spec_flags spec' \<in> set (group_flags spec)"
proof -
  let ?g = "X86_INSN_FLAG_GET_GROUP (spec_flags spec)"
  have r0: "read_byte rd = Done (byte_of b k, advance 1 rd)" using assms(1) by (simp add: read_byte_def)
  have r1: "(if byte_of b k = 0x0f
      then dbind (read_byte (advance 1 rd)) (\<lambda>(b1, rd1). Done (b1, table_entry x86_opcode_map_two_byte b1, rd1))
      else Done (byte_of b k, table_entry x86_opcode_map_one_byte (byte_of b k), advance 1 rd)) = Done (opc, spec, advance n rd)"
    using assms(2,4-7) by (cases two) (simp_all add: read_byte_def spec_of_def advance_advance)
  have d: "x86_insn_decode_opcode rd i =
      (if ?g > 19 then Fatal
       else if ?g > 0 \<and> ?g < 19
       then dbind (byte_at rd (cursor rd + n)) (\<lambda>m. Done (i\<lparr>primary_opcode := opc, insn_spec := group_spec spec m\<rparr>, advance n rd))
       else Done (i\<lparr>primary_opcode := opc, insn_spec := spec\<rparr>, advance n rd))"
    unfolding x86_insn_decode_opcode_def r0 dbind.simps prod.case r1 Let_def peek_byte_def
      X86_INSN_SSE_GROUP_START_def X86_INSN_GROUP_START_def by simp
  show "?g > 19 \<Longrightarrow> x86_insn_decode_opcode rd i = Fatal" by (simp add: d)
  assume g: "?g \<le> 19"
  have "\<exists>m. byte_at rd (cursor rd + n) = Done m" using assms by (cases two) simp_all
  then obtain m where m: "byte_at rd (cursor rd + n) = Done m" ..
  show "\<exists>spec'. x86_insn_decode_opcode rd i = Done (i\<lparr>primary_opcode := opc, insn_spec := spec'\<rparr>, advance n rd) \<and>
        spec_operands spec' = spec_operands spec \<and> spec_flags spec' \<in> set (group_flags spec)"
  proof (cases "?g = 0 \<or> ?g = 19")
    case True
    then show ?thesis by (auto simp: d group_flags_def)
  next
    case False
    with g have lt: "0 < ?g" "?g < 19" by auto
    have "unat (field_mid m) < 8"
      by (rule and7_cases [of "drop_bit 3 m"]) (simp_all add: field_mid_def)
    moreover have "length (x86_insn_modrm_reg_groups ! ?g) = 8" using groups_ok lt(2) by (simp add: list_all_length)
    ultimately have "spec_flags (group_spec spec m) \<in> set (group_flags spec)"
      using False by (simp add: group_spec_def group_flags_def Let_def)
    then show ?thesis using lt by (intro exI [of _ "group_spec spec m"]) (simp add: d m group_spec_operands)
  qed
qed

lemma imm_bytes_operands: "spec_operands s = spec_operands t \<Longrightarrow> dobby_imm_bytes s n = dobby_imm_bytes t n"
  by (simp add: dobby_imm_bytes_def imm_bytes_def spec_queries_operands(3) [of s t])

text \<open>
  The length in terms of the parts: the operand bytes and the immediate as the decoder reads them,
  the immediate under the flags \<open>f\<close>; a RIP-relative operand drops the flag that REX.W set.
\<close>

definition dobby_rip :: "x86_insn_spec_t \<Rightarrow> intel_parts \<Rightarrow> bool" where
  "dobby_rip spec x \<longleftrightarrow> x86_insn_has_modrm_byte spec \<and> field_high (enc_modrm x) = 0 \<and> field_low (enc_modrm x) = 5"

definition dobby_length :: "x86_insn_spec_t \<Rightarrow> u16 \<Rightarrow> intel_parts \<Rightarrow> nat" where
  "dobby_length spec f x = enc_start x + (if enc_two_byte x then 2 else 1) +
     (if x86_insn_has_modrm_byte spec
      then 1 + dobby_operand_bytes (if enc_67 x then 32 else 64) (enc_rex x) (enc_modrm x) (enc_sib x) else 0) +
     dobby_imm_bytes spec (dobby_operand_bits (spec\<lparr>spec_flags := f\<rparr>)
       (REX_W (enc_rex x) \<noteq> 0 \<and> \<not> dobby_rip spec x) (enc_66 x))"

lemma operand_bytes_le: "dobby_operand_bytes bits r m s \<le> 5"
  by (simp add: dobby_operand_bytes_def sib_disp_bits_def modrm_disp_bits_def)

lemma imm_bytes_le: "dobby_imm_bytes spec (dobby_operand_bits spec' w p) \<le> 4"
  by (simp add: dobby_imm_bytes_def imm_bytes_def dobby_operand_bits_def Let_def split: option.split)

lemma decode_parts:
  assumes "legacy_run (take 15 code) \<le> 7" "b = rd_buffer (init_reader (take 15 code))" "x = intel_split b"
    and "spec = spec_of (enc_two_byte x) (enc_opcode x)"
  shows "X86_INSN_FLAG_GET_GROUP (spec_flags spec) > 19 \<Longrightarrow> x86_insn_decode insn_zero code 64 = Fatal"
    and "X86_INSN_FLAG_GET_GROUP (spec_flags spec) \<le> 19 \<Longrightarrow>
      \<exists>insn'. x86_insn_decode insn_zero code 64 = Done insn' \<and>
        (\<exists>f\<in>set (group_flags spec). unat (insn_length insn') = dobby_length spec f x)"
proof -
  let ?rd = "init_reader (take 15 code)" and ?k = "enc_start x" and ?n = "if enc_two_byte x then 2 else (1 :: nat)"
  have run: "length (takeWhile (\<lambda>c. c \<in> intel_legacy) b) \<le> 7" "length b = 20" "cursor ?rd = 0"
    using assms(1,2) by (simp_all add: init_reader_props legacy_run_def legacy_prefix_iff [symmetric])
  have "\<exists>p. x86_insn_decode_prefix 64 ?rd insn_zero =
     Done (insn_zero\<lparr>insn_flags := (if REX_W (enc_rex x) \<noteq> 0 then X86_INSN_DECODE_FLAG_OPERAND_SIZE_64 else 0), rex := enc_rex x,
        insn_prefix := p\<rparr>, advance ?k ?rd) \<and>
     (p AND INSN_PREFIX_OPERAND_SIZE \<noteq> 0 \<longleftrightarrow> enc_66 x) \<and> (p AND INSN_PREFIX_ADDRESS_SIZE \<noteq> 0 \<longleftrightarrow> enc_67 x)"
    by (rule prefix_parts [OF _ assms(2) [symmetric] run(3) assms(3)]) (use run in simp)
  then obtain p where pre: "x86_insn_decode_prefix 64 ?rd insn_zero =
     Done (insn_zero\<lparr>insn_flags := (if REX_W (enc_rex x) \<noteq> 0 then X86_INSN_DECODE_FLAG_OPERAND_SIZE_64 else 0), rex := enc_rex x,
        insn_prefix := p\<rparr>, advance ?k ?rd)"
    "p AND INSN_PREFIX_OPERAND_SIZE \<noteq> 0 \<longleftrightarrow> enc_66 x" "p AND INSN_PREFIX_ADDRESS_SIZE \<noteq> 0 \<longleftrightarrow> enc_67 x"
    by blast
  let ?i = "insn_zero\<lparr>insn_flags := (if REX_W (enc_rex x) \<noteq> 0 then X86_INSN_DECODE_FLAG_OPERAND_SIZE_64 else 0), rex := enc_rex x,
        insn_prefix := p\<rparr>"
  have k: "?k \<le> 8" using run(1) by (simp add: assms(3) intel_split_def Let_def)
  have at: "byte_at ?rd l = Done (byte_of b l)" if "l < 20" for l
    using that run(2) assms(2) by (simp add: byte_at_def byte_of_def nth_default_def)
  have parts: "enc_two_byte x = (byte_of b ?k = 0x0F)" "enc_opcode x = byte_of b (?k + ?n - 1)"
      "enc_modrm x = byte_of b (?k + ?n)" "enc_sib x = byte_of b (?k + ?n + 1)"
    by (simp_all add: assms(3) intel_split_def Let_def)
  note op = opcode_parts [of "advance ?k ?rd" b ?k "byte_of b (?k + 2)" "enc_two_byte x" ?n "enc_opcode x" spec ?i,
      OF _ _ _ parts(1) refl parts(2) assms(4)]
  have ats: "byte_at (advance ?k ?rd) (cursor (advance ?k ?rd)) = Done (byte_of b ?k)"
     "byte_at (advance ?k ?rd) (cursor (advance ?k ?rd) + 1) = Done (byte_of b (?k + 1))"
     "byte_at (advance ?k ?rd) (cursor (advance ?k ?rd) + 2) = Done (byte_of b (?k + 2))"
    using k run(3) by (simp_all add: at)
  show "x86_insn_decode insn_zero code 64 = Fatal" if "X86_INSN_FLAG_GET_GROUP (spec_flags spec) > 19"
    using op(1) [OF ats that] by (simp add: x86_insn_decode_operands pre)
  assume "X86_INSN_FLAG_GET_GROUP (spec_flags spec) \<le> 19"
  from op(2) [OF ats this] obtain spec' where
    o: "x86_insn_decode_opcode (advance ?k ?rd) ?i = Done (?i\<lparr>primary_opcode := enc_opcode x, insn_spec := spec'\<rparr>, advance ?n (advance ?k ?rd))"
    and spec': "spec_operands spec' = spec_operands spec" "spec_flags spec' \<in> set (group_flags spec)" by blast
  let ?i' = "?i\<lparr>primary_opcode := enc_opcode x, insn_spec := spec'\<rparr>" and ?rd' = "advance ?n (advance ?k ?rd)"
  obtain i2 rd2 where d: "decode_operands ?rd' ?i' 64 = Done (i2, rd2)"
    using decode_bounds [OF assms(1), of insn_zero 64] operands_not_Fatal [of ?rd' ?i']
    by (cases "decode_operands ?rd' ?i' 64") (auto simp: x86_insn_decode_operands pre o)
  have kn: "?k + ?n + 1 < 20" using k by simp
  have c: "cursor ?rd' = ?k + ?n" using run(3) by simp
  have am: "byte_at ?rd' (cursor ?rd') = Done (enc_modrm x)" "byte_at ?rd' (cursor ?rd' + 1) = Done (enc_sib x)"
    using at [of "?k + ?n"] at [of "?k + ?n + 1"] kn unfolding c parts(3,4) by simp_all
  have "x86_insn_has_modrm_byte spec' = x86_insn_has_modrm_byte spec" by (rule spec_queries_operands [OF spec'(1)])
  moreover have "dobby_operand_bits spec' w q = dobby_operand_bits (spec\<lparr>spec_flags := spec_flags spec'\<rparr>) w q" for w q
    by (simp add: dobby_operand_bits_def)
  ultimately have l: "cursor rd2 = dobby_length spec (spec_flags spec') x"
    using operands_exact [OF d am refl refl] pre(2,3) imm_bytes_operands [OF spec'(1)] c
    by (simp add: dobby_length_def dobby_rip_def address_size_def decode_flag_defs)
  have "dobby_length spec (spec_flags spec') x < 2 ^ 32"
    using k operand_bytes_le [of "if enc_67 x then 32 else 64" "enc_rex x" "enc_modrm x" "enc_sib x"]
      imm_bytes_le [of spec "spec\<lparr>spec_flags := spec_flags spec'\<rparr>" "REX_W (enc_rex x) \<noteq> 0 \<and> \<not> dobby_rip spec x" "enc_66 x"]
    by (simp add: dobby_length_def)
  with l spec'(2) show "\<exists>insn'. x86_insn_decode insn_zero code 64 = Done insn' \<and>
        (\<exists>f\<in>set (group_flags spec). unat (insn_length insn') = dobby_length spec f x)"
    by (auto simp: x86_insn_decode_operands pre o d reader_offset_def unat_of_nat)
qed

end
