(* ===== verification/X86_Length.thy ===== *)
theory X86_Length
  imports X86_Cursor
begin

unbundle bit_operations_syntax

text \<open>
  The length that the decoder returns against the length by the Intel manual: they agree except
  for the departures, which are stated over the parts of the instruction and say nothing of the
  decoder's tables or code.
\<close>

section \<open>Fields as numbers\<close>

lemma field_unat: "unat (field_low b) = unat b mod 8" "unat (field_high b) = unat b div 64"
proof -
  have "(7 :: u8) = mask 3" by (simp add: mask_eq_exp_minus_1)
  then have "field_low b = take_bit 3 b" by (simp add: field_low_def take_bit_eq_mask)
  then have "unat (field_low b) = take_bit 3 (unat b)" by (simp only: unsigned_take_bit_eq)
  then show "unat (field_low b) = unat b mod 8" by (simp add: take_bit_eq_mod)
  show "unat (field_high b) = unat b div 64" by (simp add: field_high_def drop_bit_eq_div unat_div_distrib)
qed

lemma REX_W_unat: "REX_W r \<noteq> 0 \<longleftrightarrow> odd (unat r div 8)"
proof -
  have "REX_W r = drop_bit 3 r AND 1" by (simp add: REX_W_def drop_bit_and)
  then have "REX_W r \<noteq> 0 \<longleftrightarrow> bit r 3" by (simp add: and_one_eq bit_iff_odd_drop_bit odd_iff_mod_2_eq_one)
  moreover have "odd (unat r div 8) \<longleftrightarrow> bit (unat r) 3" by (simp add: bit_iff_odd)
  ultimately show ?thesis by (simp add: bit_unsigned_iff)
qed

definition base_number :: "intel_parts \<Rightarrow> nat" where
  "base_number x = base_field x + (if rex_b x then 8 else 0)"

lemma base_unat: "unat (sib_base (enc_rex x) (enc_sib x)) = base_number x"
proof -
  have b: "rex_b x \<longleftrightarrow> REX_B (enc_rex x) = 1"
    using bit_unsigned_iff [where 'a = nat, of "enc_rex x" 0]
    by (simp add: rex_b_def REX_B_def and_one_eq bit_0 odd_iff_mod_2_eq_one)
  have s: "base_field x = unat (field_low (enc_sib x))" by (simp add: base_field_def field_unat)
  show ?thesis
    unfolding base_number_def sib_base_def b s unfolding field_low_def
    by (rule REX_B_cases [of "enc_rex x"]; rule and7_cases [of "enc_sib x"]; simp)
qed

lemma dobby_operand_nat:
  "dobby_operand_bytes (if enc_67 x then 32 else 64) (enc_rex x) (enc_modrm x) (enc_sib x) =
    (let plain = (if mod_field x = 0 then 0 else if mod_field x = 1 then 1 else 4) in
     if mod_field x = 3 then 0
     else if rm_field x = 4
     then 1 + (if base_number x = 7 \<or> \<not> enc_67 x \<and> base_number x = 14 then if mod_field x = 1 then 1 else 4 else plain)
     else if mod_field x = 0 \<and> rm_field x = 5 then 4 else plain)"
proof -
  have f: "field_high (enc_modrm x) = w \<longleftrightarrow> mod_field x = unat w" "field_low (enc_modrm x) = w \<longleftrightarrow> rm_field x = unat w"
    "sib_base (enc_rex x) (enc_sib x) = w \<longleftrightarrow> base_number x = unat w" for w
    by (simp_all add: word_unat_eq_iff field_unat base_unat mod_field_def rm_field_def)
  have l: "field_low m AND 7 = field_low m" for m by (simp add: field_low_def and.assoc)
  have "mod_field x < 4" using unsigned_less [of "enc_modrm x", where 'a = nat] by (simp add: mod_field_def)
  then show ?thesis
    by (auto simp: dobby_operand_bytes_def modrm_disp_bits_def sib_disp_bits_def l f x86_reg_defs Let_def)
qed

section \<open>Departures\<close>

text \<open>
  The operand size is a word: a prefix 66 without REX.W, which overrides it.
\<close>

definition word_operand :: "intel_parts \<Rightarrow> bool" where
  "word_operand x \<longleftrightarrow> enc_66 x \<and> \<not> rex_w x"

text \<open>
  A memory operand is given a wrong length when mod is 0, there is a SIB byte, and its base with
  REX.B in front is 5 or 13 (the displacement is missed) or 7 or 14 (one is read that is not there;
  with 32-bit addresses only for 7). The moves to and from control and debug registers ignore mod
  by the manual, but the decoder reads a memory operand.
\<close>

definition operand_misread :: "intel_modrm \<Rightarrow> intel_parts \<Rightarrow> bool" where
  "operand_misread k x \<longleftrightarrow>
     (case k of No_ModRM \<Rightarrow> False
      | ModRM \<Rightarrow> mod_field x = 0 \<and> rm_field x = 4 \<and>
          (base_number x \<in> {5, 7, 13} \<or> base_number x = 14 \<and> \<not> enc_67 x)
      | ModRM_reg \<Rightarrow> mod_field x \<noteq> 3 \<and> (mod_field x \<noteq> 0 \<or> rm_field x \<in> {4, 5}))"

text \<open>
  An immediate is given a wrong length for ENTER (the byte after the word is missed), PUSH with a
  word (the decoder takes a double word), an immediate of operand size with ModR/M when REX.W is
  overwritten by a RIP-relative operand and 66 is there, the move of a 64-bit immediate (four
  bytes are missed), the near conditional jumps with a word operand size, and the moves from and to
  an absolute address, unless the operand is a double word or larger and the address is 32-bit.
\<close>

definition immediate_misread :: "intel_modrm \<Rightarrow> intel_imm \<Rightarrow> intel_parts \<Rightarrow> bool" where
  "immediate_misread k i x \<longleftrightarrow>
     (case i of Iw_Ib \<Rightarrow> True
      | Iz \<Rightarrow> if k = No_ModRM then enc_opcode x = 0x68 \<and> word_operand x
              else enc_66 x \<and> rex_w x \<and> mod_field x = 0 \<and> rm_field x = 5
      | Iv \<Rightarrow> rex_w x
      | Jz \<Rightarrow> enc_two_byte x \<and> word_operand x
      | Moffs \<Rightarrow> even (unat (enc_opcode x)) \<or> \<not> enc_67 x \<or> word_operand x
      | _ \<Rightarrow> False)"

text \<open>An instruction departs when its opcode does, or its operand or immediate is misread.\<close>

definition departs :: "intel_parts \<Rightarrow> bool" where
  "departs x \<longleftrightarrow>
     (let two = enc_two_byte x; n = unat (enc_opcode x) in
      dobby_aborts two n \<or> modrm_missed two n \<or>
      (case intel_lookup two (enc_opcode x) of None \<Rightarrow> False
       | Some (k, i) \<Rightarrow> operand_misread k x \<or> immediate_misread k i x))"

section \<open>The comparison\<close>

lemma dobby_imm_type:
  "x86_insn_immediate_type spec = t \<Longrightarrow> dobby_imm_bytes spec n =
     (if t = Some (CHR ''b'') then 1 else if t = Some (CHR ''w'') then 2 else if t = Some (CHR ''d'') then 4
      else if t = Some (CHR ''q'') then 4 else if t = Some (CHR ''z'') then let k = min n 32 div 8 in if k = 8 then 4 else k
      else if t = Some (CHR ''v'') then let k = n div 8 in if k = 8 then 4 else k else 0)"
  by (auto simp: dobby_imm_bytes_def imm_bytes_def Let_def split: option.split)

lemma immediate_compare:
  assumes row: "imm_row (x86_insn_immediate_type spec) d64 (enc_two_byte x) (unat (enc_opcode x)) i"
    and d: "(f AND X86_INSN_SPEC_DEFAULT_64_BIT \<noteq> 0) \<in> set d64"
    and k: "k = ModRM \<Longrightarrow> i \<in> {I0, Ib} \<or> i = Iz \<and> \<not> enc_two_byte x \<and> unat (enc_opcode x) \<in> {0x69, 0x81, 0xC7}"
      "k = ModRM_reg \<Longrightarrow> i = I0" "k = No_ModRM \<Longrightarrow> i = Iz \<Longrightarrow> \<not> enc_two_byte x"
    and rip: "rip = (k \<noteq> No_ModRM \<and> mod_field x = 0 \<and> rm_field x = 5)"
  shows "dobby_imm_bytes spec (dobby_operand_bits (spec\<lparr>spec_flags := f\<rparr>) (rex_w x \<and> \<not> rip) (enc_66 x)) = intel_imm_bytes i x
    \<longleftrightarrow> \<not> immediate_misread k i x"
proof -
  have o: "enc_opcode x = 0x68 \<longleftrightarrow> unat (enc_opcode x) = 0x68" by (simp add: word_unat_eq_iff)
  have all: "list_all P d64 \<Longrightarrow> P (f AND X86_INSN_SPEC_DEFAULT_64_BIT \<noteq> 0)" for P
    using d by (simp add: list_all_iff)
  note defs = imm_row_def intel_imm_bytes_def immediate_misread_def word_operand_def word_or_dword_def
    dobby_operand_bits_def dobby_imm_type
  show ?thesis
  proof (cases i)
    case I0 with row show ?thesis by (simp add: defs)
  next
    case Ib with row show ?thesis by (simp add: defs)
  next
    case Iw with row show ?thesis by (simp add: defs)
  next
    case Iw_Ib with row show ?thesis by (simp add: defs)
  next
    case Iz
    with row have t: "x86_insn_immediate_type spec = Some (CHR ''z'')"
      "(f AND X86_INSN_SPEC_DEFAULT_64_BIT \<noteq> 0) = (\<not> enc_two_byte x \<and> unat (enc_opcode x) = 0x68)"
      using all [of "\<lambda>d. d = (\<not> enc_two_byte x \<and> unat (enc_opcode x) = 0x68)"] by (simp_all add: imm_row_def)
    have k': "k = No_ModRM \<and> \<not> enc_two_byte x \<or> k = ModRM \<and> unat (enc_opcode x) \<noteq> 0x68"
      using k Iz by (cases k) auto
    show ?thesis using k'
      by (cases "enc_66 x"; cases "rex_w x") (auto simp: defs t Iz rip o)
  next
    case Iv
    with row have t: "x86_insn_immediate_type spec = Some (CHR ''v'')"
      "\<not> (f AND X86_INSN_SPEC_DEFAULT_64_BIT \<noteq> 0)"
      using all [of Not] by (simp_all add: imm_row_def)
    have "k = No_ModRM" using k Iv by (cases k) auto
    then show ?thesis using t(2) by (cases "enc_66 x"; cases "rex_w x") (auto simp: defs t(1) Iv rip)
  next
    case Jz
    with row have t: "x86_insn_immediate_type spec = Some (CHR ''z'')"
      "(f AND X86_INSN_SPEC_DEFAULT_64_BIT \<noteq> 0) = (\<not> enc_two_byte x)"
      using all [of "\<lambda>d. d = (\<not> enc_two_byte x)"] by (simp_all add: imm_row_def)
    have "k = No_ModRM" using k Jz by (cases k) auto
    then show ?thesis by (cases "enc_66 x"; cases "rex_w x") (auto simp: defs t Jz rip)
  next
    case Moffs
    with row have t: "x86_insn_immediate_type spec = Some (if even (unat (enc_opcode x)) then CHR ''b'' else CHR ''v'')"
      "\<not> (f AND X86_INSN_SPEC_DEFAULT_64_BIT \<noteq> 0)"
      using all [of Not] by (simp_all add: imm_row_def)
    have "k = No_ModRM" using k Moffs by (cases k) auto
    then show ?thesis using t(2)
      by (cases "enc_66 x"; cases "rex_w x"; cases "even (unat (enc_opcode x))") (auto simp: defs t(1) Moffs rip)
  qed (use row in \<open>simp_all add: imm_row_def\<close>)
qed

lemma base_number_mod: "base_field x = base_number x mod 8" "base_number x < 16"
  by (auto simp: base_number_def base_field_def)

lemma operand_compare:
  assumes d_def: "d = dobby_operand_bytes (if enc_67 x then 32 else 64) (enc_rex x) (enc_modrm x) (enc_sib x)"
  shows "1 + d = intel_modrm_bytes ModRM x \<longleftrightarrow> \<not> operand_misread ModRM x"
    and "1 + d = intel_modrm_bytes ModRM_reg x \<longleftrightarrow> \<not> operand_misread ModRM_reg x"
    and "rm_field x \<noteq> 4 \<Longrightarrow> \<not> operand_misread ModRM x"
proof -
  have n: "base_number x \<in> set [0..<16]" using base_number_mod(2) [of x] by (simp only: set_upt atLeastLessThan_iff) simp
  have m: "mod_field x < 4" using unsigned_less [of "enc_modrm x", where 'a = nat] by (simp add: mod_field_def)
  show "1 + d = intel_modrm_bytes ModRM x \<longleftrightarrow> \<not> operand_misread ModRM x"
    using n m unfolding d_def dobby_operand_nat
    by (auto simp: operand_misread_def intel_modrm_bytes_def intel_operand_bytes_def base_number_mod(1) upt_rec)
  show "1 + d = intel_modrm_bytes ModRM_reg x \<longleftrightarrow> \<not> operand_misread ModRM_reg x"
    unfolding d_def dobby_operand_nat by (auto simp: operand_misread_def intel_modrm_bytes_def)
qed (simp add: operand_misread_def)

lemma length_compare:
  assumes row: "row_ok (enc_two_byte x) (unat (enc_opcode x)) (Some (k, i)) spec"
    and e: "intel_lookup (enc_two_byte x) (enc_opcode x) = Some (k, i)"
    and f: "f \<in> set (group_flags spec)" and a: "\<not> dobby_aborts (enc_two_byte x) (unat (enc_opcode x))"
  shows "dobby_length spec f x =
     enc_start x + (if enc_two_byte x then 2 else 1) + intel_modrm_bytes k x + intel_imm_bytes i x \<longleftrightarrow> \<not> departs x"
proof -
  let ?missed = "modrm_missed (enc_two_byte x) (unat (enc_opcode x))"
  let ?d64 = "map (\<lambda>f. f AND X86_INSN_SPEC_DEFAULT_64_BIT \<noteq> 0) (group_flags spec)"
  let ?imm = "dobby_imm_bytes spec (dobby_operand_bits (spec\<lparr>spec_flags := f\<rparr>) (REX_W (enc_rex x) \<noteq> 0 \<and> \<not> dobby_rip spec x) (enc_66 x))"
  let ?op = "dobby_operand_bytes (if enc_67 x then 32 else 64) (enc_rex x) (enc_modrm x) (enc_sib x)"
  have h: "x86_insn_has_modrm_byte spec = (k \<noteq> No_ModRM \<and> \<not> ?missed)"
    using row a by (simp add: row_ok_def Let_def)
  show ?thesis
  proof (cases ?missed)
    case True
    with row a have k: "k = ModRM" and "x86_insn_immediate_type spec = None \<or> x86_insn_immediate_type spec = Some (CHR ''b'') \<and> i = Ib"
      by (auto simp: row_ok_def Let_def)
    then have "?imm \<le> intel_imm_bytes i x" by (auto simp: dobby_imm_type intel_imm_bytes_def)
    moreover have "0 < intel_modrm_bytes k x" using k by (simp add: intel_modrm_bytes_def)
    ultimately show ?thesis using True h by (simp add: dobby_length_def departs_def Let_def)
  next
    case False
    let ?rip = "k \<noteq> No_ModRM \<and> mod_field x = 0 \<and> rm_field x = 5"
    from row a False have r: "imm_row (x86_insn_immediate_type spec) ?d64 (enc_two_byte x) (unat (enc_opcode x)) i"
      and k: "k = ModRM \<Longrightarrow> i \<in> {I0, Ib} \<or> i = Iz \<and> \<not> enc_two_byte x \<and> unat (enc_opcode x) \<in> {0x69, 0x81, 0xC7}"
        "k = ModRM_reg \<Longrightarrow> i = I0" "k = No_ModRM \<Longrightarrow> i = Iz \<Longrightarrow> \<not> enc_two_byte x"
      by (auto simp: row_ok_def Let_def)
    have w: "REX_W (enc_rex x) \<noteq> 0 \<longleftrightarrow> rex_w x" by (simp only: REX_W_unat rex_w_def)
    have "field_high m = 0 \<longleftrightarrow> unat m div 64 = 0" "field_low m = 5 \<longleftrightarrow> unat m mod 8 = 5" for m
      by (simp_all add: word_unat_eq_iff field_unat)
    then have rip: "dobby_rip spec x = ?rip"
      using h False by (simp add: dobby_rip_def mod_field_def rm_field_def)
    have "(f AND X86_INSN_SPEC_DEFAULT_64_BIT \<noteq> 0) \<in> set ?d64" using f by auto
    note immediate_compare [OF r this, of k ?rip]
    then have imm: "?imm = intel_imm_bytes i x \<longleftrightarrow> \<not> immediate_misread k i x"
      unfolding rip w using k by blast
    have dep: "departs x \<longleftrightarrow> operand_misread k x \<or> immediate_misread k i x"
      using e a False by (simp add: departs_def Let_def)
    show ?thesis
    proof (cases "immediate_misread k i x \<and> k \<noteq> No_ModRM")
      case True
      then have "k = ModRM" "rm_field x = 5" using k by (cases k; auto simp: immediate_misread_def)+
      then have "1 + ?op = intel_modrm_bytes k x" using operand_compare(1,3) [of ?op x, OF refl] by simp
      then show ?thesis using imm True dep h False by (simp add: dobby_length_def)
    next
      case False
      show ?thesis
      proof (cases k)
        case No_ModRM
        then show ?thesis using imm dep h by (simp add: dobby_length_def intel_modrm_bytes_def operand_misread_def)
      next
        case ModRM
        with False imm have "?imm = intel_imm_bytes i x" by simp
        with ModRM operand_compare(1) [of ?op x, OF refl] show ?thesis
          using dep h False \<open>\<not> ?missed\<close> by (auto simp: dobby_length_def)
      next
        case ModRM_reg
        with False imm have "?imm = intel_imm_bytes i x" by simp
        with ModRM_reg operand_compare(2) [of ?op x, OF refl] show ?thesis
          using dep h False \<open>\<not> ?missed\<close> by (auto simp: dobby_length_def)
      qed
    qed
  qed
qed



end
