(* ===== verification/X86_Operands.thy ===== *)
theory X86_Operands
  imports X86_Length
begin

unbundle bit_operations_syntax

text \<open>
  The operands that the relocation of a hooked function rewrites: RIP-relative displacements and
  the targets of relative branches; and the instructions on which the decoder departs from the
  encoding.
\<close>

section \<open>Displacements and immediates\<close>

definition le_bytes :: "u8 list \<Rightarrow> u64" where
  "le_bytes bs = foldr (\<lambda>b w. ucast b OR push_bit 8 w) bs 0"

lemma bytes_at_here:
  "drop i (rd_buffer rd) = bs @ rest \<Longrightarrow> bytes_at rd i (length bs) = Done (le_bytes bs)"
proof (induction bs arbitrary: i)
  case (Cons b bs)
  then have i: "i < length (rd_buffer rd)" by (cases "i < length (rd_buffer rd)") auto
  with Cons.prems have "rd_buffer rd ! i = b" "drop (Suc i) (rd_buffer rd) = bs @ rest"
    by (simp_all add: Cons_nth_drop_Suc [symmetric])
  with Cons.IH i show ?case by (simp add: byte_at_def le_bytes_def)
qed (simp add: le_bytes_def)

lemma bytes_at_advance [simp]: "bytes_at (advance n rd) i k = bytes_at rd i k"
  by (induction k arbitrary: i) auto

lemma ucast_dword: "ucast (ucast (ucast (w :: u64) :: u32) :: u64) = (ucast w :: u32)"
  by (rule bit_word_eqI) (simp add: bit_simps)

text \<open>
  A ModR/M byte with mod 0 and rm 5 in 64-bit mode is the RIP-relative operand: the base is RIP,
  the displacement is the little-endian double word that follows, its offset in the instruction is
  recorded, the register operand is the reg field under REX.R, and five bytes are consumed. The
  flags of the instruction are replaced, so a 64-bit operand size recorded before is lost.
\<close>

theorem rip_relative_operand:
  assumes "drop (cursor rd) (rd_buffer rd) = m # bs @ rest" "length bs = 4"
    and "field_high m = 0" "field_low m = 5" "insn_prefix insn AND INSN_PREFIX_ADDRESS_SIZE = 0"
  shows "\<exists>insn'. x86_insn_decode_modrm_sib rd insn 64 = Done (insn', advance 5 rd) \<and>
     insn_flags insn' = X86_INSN_DECODE_FLAG_IP_RELATIVE \<and>
     op_mem (rm_operand insn') = (op_mem (rm_operand insn))\<lparr>mem_base := RIP, mem_disp := ucast (le_bytes bs)\<rparr> \<and>
     op_reg (reg_operand insn') = push_bit 3 (REX_R (rex insn)) OR field_mid m \<and>
     displacement_offset insn' = ucast (reader_offset (advance 1 rd))"
proof -
  have lt: "cursor rd < length (rd_buffer rd)"
    using assms(1) by (cases "cursor rd < length (rd_buffer rd)") auto
  with assms(1) have m: "rd_buffer rd ! cursor rd = m" "drop (Suc (cursor rd)) (rd_buffer rd) = bs @ rest"
    by (simp_all add: Cons_nth_drop_Suc [symmetric])
  let ?rm = "push_bit 3 (REX_B (rex insn)) OR field_low m"
  have rm: "?rm AND 7 = 5" unfolding rm_low by (rule assms(4))
  have "bytes_at rd (cursor rd + 1) 4 = Done (le_bytes bs)"
    using bytes_at_here [of "Suc (cursor rd)" rd bs rest] m(2) assms(2) by simp
  then show ?thesis
    using lt m rm assms(3,5)
    by (simp add: x86_insn_decode_modrm_sib_def read_byte_def byte_at_def Let_def decode_address_def
      effective_address_bits_def modrm_disp_bits_def modrm_base_def decode_displacement_def x86_insn_decode_number_def
      read_dword_def set_mem_def add_flag_def reader_offset_def advance_advance ucast_dword)
qed

theorem rip_relative_operand_witness:
  "\<exists>insn'. x86_insn_decode_modrm_sib (init_reader [0x0d, 1, 2, 0, 0]) insn_zero 64 =
     Done (insn', advance 5 (init_reader [0x0d, 1, 2, 0, 0])) \<and>
     mem_disp (op_mem (rm_operand insn')) = 0x201 \<and> op_reg (reg_operand insn') = 1"
proof -
  let ?rd = "init_reader [0x0d, 1, 2, 0, 0]"
  have "drop (cursor ?rd) (rd_buffer ?rd) = 0x0d # [1, 2, 0, 0] @ replicate 15 0xcc"
    by (simp add: init_reader_def sizeof_buffer_def)
  from rip_relative_operand [OF this, of insn_zero] show ?thesis
    by (auto simp: field_defs insn_zero_def le_bytes_def rex_defs)
qed

text \<open>The branches with a relative target: call, jmp, and jcc in its short and near forms.\<close>

definition rel_branch :: "u8 list \<Rightarrow> nat \<Rightarrow> bool" where
  "rel_branch opcode n =
     (case opcode of
        [c] \<Rightarrow> c \<in> {0xE8, 0xE9} \<and> n = 4 \<or> (c = 0xEB \<or> unat c div 16 = 7) \<and> n = 1
      | [e, c] \<Rightarrow> e = 0x0f \<and> unat c div 16 = 8 \<and> n = 4
      | _ \<Rightarrow> False)"

definition branch_spec :: "char \<Rightarrow> x86_insn_spec_t \<Rightarrow> bool" where
  "branch_spec t spec \<longleftrightarrow> spec_operands spec = [(CHR ''J'', t), (CHR ''_'', CHR ''_''), (CHR ''_'', CHR ''_'')] \<and>
     X86_INSN_FLAG_GET_GROUP (spec_flags spec) = 0"

lemma branch_rows:
  "list_all (branch_spec (CHR ''b'')) (x86_opcode_map_one_byte ! 7) \<and> length (x86_opcode_map_one_byte ! 7) = 16"
  "list_all (branch_spec (CHR ''z'')) (x86_opcode_map_two_byte ! 8) \<and> length (x86_opcode_map_two_byte ! 8) = 16"
  by code_simp+

lemma branch_specs:
  "branch_spec (CHR ''z'') (table_entry x86_opcode_map_one_byte 0xE8)"
  "branch_spec (CHR ''z'') (table_entry x86_opcode_map_one_byte 0xE9)"
  "branch_spec (CHR ''b'') (table_entry x86_opcode_map_one_byte 0xEB)"
  "unat c div 16 = 7 \<Longrightarrow> branch_spec (CHR ''b'') (table_entry x86_opcode_map_one_byte c)"
  "unat c div 16 = 8 \<Longrightarrow> branch_spec (CHR ''z'') (table_entry x86_opcode_map_two_byte c)"
proof -
  show "branch_spec (CHR ''z'') (table_entry x86_opcode_map_one_byte 0xE8)"
    "branch_spec (CHR ''z'') (table_entry x86_opcode_map_one_byte 0xE9)"
    "branch_spec (CHR ''b'') (table_entry x86_opcode_map_one_byte 0xEB)" by code_simp+
qed (use branch_rows in \<open>simp_all add: table_entry_def list_all_length\<close>)

lemma le_bytes_bits: "bit (le_bytes bs) n \<Longrightarrow> n < 8 * length bs"
proof (induction bs arbitrary: n)
  case (Cons b bs)
  show ?case
  proof (cases "n < 8")
    case False
    with Cons.prems have "bit (le_bytes bs) (n - 8)"
      by (auto simp: le_bytes_def bit_simps dest: bit_imp_le_length)
    with Cons.IH [of "n - 8"] False show ?thesis by simp
  qed simp
qed (simp add: le_bytes_def)

lemma le_dword: "length bs = 4 \<Longrightarrow> ucast (ucast (le_bytes bs) :: u32) = le_bytes bs"
  by (rule bit_word_eqI) (auto simp: bit_simps dest: le_bytes_bits)

lemma number_le:
  assumes "drop (cursor rd) (rd_buffer rd) = bs @ rest"
  shows "length bs = 1 \<Longrightarrow> x86_insn_decode_number rd 8 = Done (le_bytes bs, advance 1 rd)"
    and "length bs = 4 \<Longrightarrow> x86_insn_decode_number rd 32 = Done (le_bytes bs, advance 4 rd)"
proof -
  show "x86_insn_decode_number rd 32 = Done (le_bytes bs, advance 4 rd)" if l: "length bs = 4"
    using bytes_at_here [OF assms] l
    by (simp add: x86_insn_decode_number_def read_dword_def le_dword [OF l])
  show "x86_insn_decode_number rd 8 = Done (le_bytes bs, advance 1 rd)" if l: "length bs = 1"
  proof -
    obtain b where b: "bs = [b]" using l by (cases bs) auto
    have "cursor rd < length (rd_buffer rd)"
      using assms b by (cases "cursor rd < length (rd_buffer rd)") auto
    with assms b show ?thesis
      by (simp add: x86_insn_decode_number_def read_byte_def byte_at_def le_bytes_def Cons_nth_drop_Suc [symmetric])
  qed
qed

lemma branch_operands:
  assumes "branch_spec t (insn_spec i)" "insn_prefix i AND INSN_PREFIX_OPERAND_SIZE = 0"
    and "t = CHR ''b'' \<and> length bs = 1 \<or> t = CHR ''z'' \<and> length bs = 4"
    and "drop (cursor rd) (rd_buffer rd) = bs @ rest"
  shows "decode_operands rd i 64 =
     Done (i\<lparr>immediate_offset := ucast (reader_offset rd), immediate := le_bytes bs\<rparr>, advance (length bs) rd)"
proof -
  have s: "\<not> x86_insn_has_modrm_byte (insn_spec i)" "x86_insn_has_immediate (insn_spec i)"
      "x86_insn_immediate_type (insn_spec i) = Some t"
    using assms(1) by (simp_all add: branch_spec_def x86_insn_has_modrm_byte_def x86_insn_has_immediate_def
        x86_insn_immediate_type_def imm_code_def)
  have n: "x86_insn_imm_bits (insn_spec i) (effective_operand_bits 64 i) = Done (8 * length bs)"
    using assms(2,3) by (auto simp: x86_insn_imm_bits_def s effective_operand_bits_def)
  have "x86_insn_decode_number rd (8 * length bs) = Done (le_bytes bs, advance (length bs) rd)"
    using assms(3) number_le [OF assms(4)] by auto
  then show ?thesis using assms(3) by (auto simp: decode_operands_def s x86_insn_decode_immediate_def n)
qed

lemma branch_first_byte:
  assumes "rel_branch opcode n"
  shows "legacy_prefix (hd opcode) = 0 \<and> \<not> is_rex 64 (hd opcode)"
proof -
  have "legacy_prefix c = 0 \<and> \<not> is_rex 64 c" if "unat c div 16 = 7" for c :: u8
    using that by (auto simp: legacy_prefix_def is_rex_def word_le_nat_alt)
  with assms show ?thesis
    by (auto simp: rel_branch_def legacy_prefix_def is_rex_def split: list.splits)
qed

lemma branch_opcode:
  assumes "rel_branch opcode (length bs)"
  obtains t where "branch_spec t (opcode_spec (hd opcode) ((opcode @ bs) ! 1))"
    "t = CHR ''b'' \<and> length bs = 1 \<or> t = CHR ''z'' \<and> length bs = 4"
    "length opcode = opcode_bytes (hd opcode)" "last opcode = (if hd opcode = 0x0f then (opcode @ bs) ! 1 else hd opcode)"
proof -
  have n0f: "c \<noteq> 0x0f" if "unat c div 16 = 7" for c :: u8 using that by auto
  from assms consider c where "opcode = [c]" "c \<in> {0xE8, 0xE9}" "length bs = 4"
    | c where "opcode = [c]" "c = 0xEB \<or> unat c div 16 = 7" "length bs = 1"
    | c where "opcode = [0x0f, c]" "unat c div 16 = 8" "length bs = 4"
    by (auto simp: rel_branch_def split: list.splits)
  then show thesis
  proof cases
    case 1
    then show ?thesis using branch_specs(1,2) by (intro that [of "CHR ''z''"]) (auto simp: opcode_spec_def opcode_bytes_def)
  next
    case 2
    then show ?thesis using branch_specs(3,4) n0f by (intro that [of "CHR ''b''"]) (auto simp: opcode_spec_def opcode_bytes_def)
  next
    case 3
    then show ?thesis using branch_specs(5) by (intro that [of "CHR ''z''"]) (auto simp: opcode_spec_def opcode_bytes_def)
  qed
qed

lemma init_reader_pad: "\<exists>pad. rd_buffer (init_reader c) = c @ pad \<and> cursor (init_reader c) = 0"
  by (simp add: init_reader_def)

text \<open>
  A relative call, jmp or jcc, short or near, is decoded completely: the immediate is the
  little-endian offset, its position in the instruction is the length of the opcode, and the
  length is that of opcode and offset.
\<close>

theorem relative_branch_decoded:
  assumes "rel_branch opcode (length bs)"
  shows "x86_insn_decode insn_zero (opcode @ bs @ rest) 64 =
     Done (insn_zero\<lparr>primary_opcode := last opcode, insn_spec := opcode_spec (hd opcode) (last opcode),
       immediate_offset := ucast (of_nat (length opcode) :: u32), immediate := le_bytes bs,
       insn_length := of_nat (length opcode + length bs)\<rparr>)"
proof -
  obtain t where t: "branch_spec t (opcode_spec (hd opcode) ((opcode @ bs) ! 1))"
    "t = CHR ''b'' \<and> length bs = 1 \<or> t = CHR ''z'' \<and> length bs = 4"
    "length opcode = opcode_bytes (hd opcode)" "last opcode = (if hd opcode = 0x0f then (opcode @ bs) ! 1 else hd opcode)"
    by (rule branch_opcode [OF assms])
  define rd where "rd = init_reader (take 15 (opcode @ bs @ rest))"
  let ?b1 = "(opcode @ bs) ! 1"
  have len: "length opcode \<in> {1, 2}" "length bs \<in> {1, 4}" using t(2,3) by (auto simp: opcode_bytes_def)
  then have tk: "take 15 (opcode @ bs @ rest) = opcode @ bs @ take (15 - length opcode - length bs) rest" by auto
  obtain pad where b: "rd_buffer rd = opcode @ bs @ pad" "cursor rd = 0"
    unfolding tk rd_def using init_reader_pad [of "opcode @ bs @ take (15 - length opcode - length bs) rest"] by auto
  obtain c cs where c: "opcode = c # cs" using len(1) by (cases opcode) auto
  have pre: "x86_insn_decode_prefix 64 rd insn_zero = Done (insn_zero, rd)"
    using decode_prefix_run [of rd "[]" c "cs @ bs @ pad" 64 insn_zero] branch_first_byte [OF assms] b c
    by (simp add: or_all_simps advance_def insn_zero_def)
  have at: "byte_at rd (cursor rd) = Done (hd opcode)" "byte_at rd (cursor rd + 1) = Done ?b1"
    using b c len by (auto simp: byte_at_def nth_append)
  have op: "x86_insn_decode_opcode rd insn_zero =
     Done (insn_zero\<lparr>primary_opcode := last opcode, insn_spec := opcode_spec (hd opcode) ?b1\<rparr>, advance (length opcode) rd)"
    using opcode_ungrouped [OF _ at] t by (simp add: branch_spec_def)
  have "decode_operands (advance (length opcode) rd) (insn_zero\<lparr>primary_opcode := last opcode, insn_spec := opcode_spec (hd opcode) ?b1\<rparr>) 64 =
    Done (insn_zero\<lparr>primary_opcode := last opcode, insn_spec := opcode_spec (hd opcode) ?b1,
      immediate_offset := ucast (reader_offset (advance (length opcode) rd)), immediate := le_bytes bs\<rparr>, advance (length bs) (advance (length opcode) rd))"
    using branch_operands [of t _ bs "advance (length opcode) rd" pad] t(1,2) b by (simp add: insn_zero_def)
  moreover have "opcode_spec (hd opcode) ?b1 = opcode_spec (hd opcode) (last opcode)"
    using t(4) by (simp add: opcode_spec_def)
  ultimately show ?thesis
    unfolding x86_insn_decode_operands rd_def [symmetric] by (simp add: pre op reader_offset_def b)
qed

theorem relative_branch_decoded_witness:
  "\<exists>insn'. x86_insn_decode insn_zero ([0x0f, 0x84] @ [0x10, 0, 0, 0] @ [0x90]) 64 = Done insn' \<and>
     insn_length insn' = 6 \<and> immediate insn' = 0x10"
  using relative_branch_decoded [of "[0x0f, 0x84]" "[0x10, 0, 0, 0]" "[0x90]"]
  by (simp add: rel_branch_def le_bytes_def)

lemma code_reader:
  assumes "length xs \<le> 15"
  obtains rd pad where "init_reader (take 15 (xs @ rest)) = rd" "rd_buffer rd = xs @ pad" "cursor rd = 0"
  using assms init_reader_pad [of "xs @ take (15 - length xs) rest"] that by auto

text \<open>
  A move of a 64-bit immediate is decoded with the right value and the wrong length: the reader
  moves on by four bytes after the eight it reads, so the length is 6 and not 10.
\<close>

theorem movabs_length:
  assumes "length imm = 8"
  shows "\<exists>insn'. x86_insn_decode insn_zero ([0x48, 0xB8] @ imm @ rest) 64 = Done insn' \<and>
     immediate insn' = le_bytes imm \<and> insn_length insn' = 6 \<and>
     intel_length ([0x48, 0xB8] @ imm @ rest) = Some 10"
proof -
  obtain rd pad where rd: "init_reader (take 15 (([0x48, 0xB8] @ imm) @ rest)) = rd"
      "rd_buffer rd = ([0x48, 0xB8] @ imm) @ pad" "cursor rd = 0"
    using code_reader [of "[0x48, 0xB8] @ imm" rest] assms by auto
  have spec: "opcode_spec 0xB8 b1 = op2 ''mov'' ''AX'' ''Iv''" for b1
  proof -
    have "table_entry x86_opcode_map_one_byte 0xB8 = op2 ''mov'' ''AX'' ''Iv''" by code_simp
    then show ?thesis by (simp add: opcode_spec_def)
  qed
  let ?i = "insn_zero\<lparr>insn_flags := X86_INSN_DECODE_FLAG_OPERAND_SIZE_64, rex := 0x48\<rparr>"
  have pre: "x86_insn_decode_prefix 64 rd insn_zero = Done (?i, advance 1 rd)"
    using decode_prefix_run [of rd "[]" "0x48" "0xB8 # imm @ pad" 64 insn_zero] rd
    by (simp add: or_all_simps legacy_prefix_def is_rex_def REX_W_def add_flag_def insn_zero_def)
  have op: "x86_insn_decode_opcode (advance 1 rd) ?i =
      Done (?i\<lparr>primary_opcode := 0xB8, insn_spec := op2 ''mov'' ''AX'' ''Iv''\<rparr>, advance 2 rd)"
    using opcode_ungrouped [of "0xB8" "hd imm" "advance 1 rd" ?i] rd assms
    by (cases imm) (simp_all add: spec byte_at_def opcode_bytes_def op_defs advance_advance X86_INSN_FLAG_GET_GROUP_def)
  have q: "bytes_at rd 2 8 = Done (le_bytes imm)"
    using bytes_at_here [of 2 rd imm pad] rd assms by simp
  have ops: "decode_operands (advance 2 rd) (?i\<lparr>primary_opcode := 0xB8, insn_spec := op2 ''mov'' ''AX'' ''Iv''\<rparr>) 64 =
     Done (?i\<lparr>primary_opcode := 0xB8, insn_spec := op2 ''mov'' ''AX'' ''Iv'', immediate_offset := 2, immediate := le_bytes imm\<rparr>, advance 6 rd)"
    using q [unfolded numeral_2_eq_2] rd by (simp add: decode_operands_def op_defs operand_spec_def x86_insn_has_modrm_byte_def x86_insn_has_immediate_def imm_code_def
       x86_insn_decode_immediate_def x86_insn_imm_bits_def x86_insn_immediate_type_def effective_operand_bits_def decode_flag_defs
       x86_insn_decode_number_def read_qword_def advance_advance reader_offset_def X86_INSN_SPEC_DEFAULT_64_BIT_def)
  have "intel_lookup False 0xB8 = Some (No_ModRM, Iv)" by code_simp
  then have "intel_length ([0x48, 0xB8] @ imm @ rest) = Some 10"
    by (simp add: intel_length_def intel_split_def intel_legacy_def byte_of_def Let_def intel_modrm_bytes_def
       intel_imm_bytes_def rex_w_def)
  with pre op ops rd show ?thesis
    unfolding x86_insn_decode_operands by (simp add: reader_offset_def)
qed

theorem movabs_length_witness:
  "\<exists>insn'. x86_insn_decode insn_zero ([0x48, 0xB8] @ replicate 8 1 @ []) 64 = Done insn' \<and> insn_length insn' = 6"
  using movabs_length [of "replicate 8 1" "[]"] by (simp only: length_replicate) blast

text \<open>
  The opcodes F6, F7 and FF have no operands in the one-byte map and take none from their
  group, so whatever ModR/M byte follows, the decoder returns length 1.
\<close>

theorem group_length:
  assumes "opcode \<in> {0xF6, 0xF7, 0xFF}"
  shows "\<exists>insn'. x86_insn_decode insn_zero (opcode # m # rest) 64 = Done insn' \<and> insn_length insn' = 1"
proof -
  obtain rd pad where rd: "init_reader (take 15 ([opcode, m] @ rest)) = rd" "rd_buffer rd = [opcode, m] @ pad" "cursor rd = 0"
    using code_reader [of "[opcode, m]" rest] by auto
  have pre: "x86_insn_decode_prefix 64 rd insn_zero = Done (insn_zero, rd)"
    using decode_prefix_run [of rd "[]" opcode "m # pad" 64 insn_zero] rd assms
    by (auto simp: or_all_simps legacy_prefix_def is_rex_def add_flag_def insn_zero_def advance_def)
  have t: "list_all (\<lambda>c. let s = table_entry x86_opcode_map_one_byte c; g = X86_INSN_FLAG_GET_GROUP (spec_flags s) in
      0 < g \<and> g < 19 \<and> spec_operands s = replicate 3 (CHR ''_'', CHR ''_'')) [0xF6, 0xF7, 0xFF]"
    by code_simp
  let ?s = "table_entry x86_opcode_map_one_byte opcode"
  have s: "0 < X86_INSN_FLAG_GET_GROUP (spec_flags ?s)" "X86_INSN_FLAG_GET_GROUP (spec_flags ?s) < 19"
      "spec_operands ?s = replicate 3 (CHR ''_'', CHR ''_'')"
    using t assms by (auto simp: Let_def)
  have op: "x86_insn_decode_opcode rd insn_zero =
      Done (insn_zero\<lparr>primary_opcode := opcode, insn_spec := group_spec ?s m\<rparr>, advance 1 rd)"
    using rd assms s by (auto simp: x86_insn_decode_opcode_def read_byte_def byte_at_def peek_byte_def Let_def
        X86_INSN_SSE_GROUP_START_def X86_INSN_GROUP_START_def)
  have "decode_operands (advance 1 rd) (insn_zero\<lparr>primary_opcode := opcode, insn_spec := group_spec ?s m\<rparr>) 64 =
     Done (insn_zero\<lparr>primary_opcode := opcode, insn_spec := group_spec ?s m\<rparr>, advance 1 rd)"
    by (simp add: decode_operands_def x86_insn_has_modrm_byte_def x86_insn_has_immediate_def group_spec_operands s(3) numeral_3_eq_3 imm_code_def)
  with pre op rd show ?thesis
    unfolding x86_insn_decode_operands by (simp add: reader_offset_def)
qed

theorem group_length_witness:
  "\<exists>insn'. x86_insn_decode insn_zero [0xFF, 0xD0] 64 = Done insn' \<and> insn_length insn' = 1"
  using group_length [of "0xFF" "0xD0" "[]"] by simp

end
