(* ===== verification/A64_Kit.thy ===== *)
theory A64_Kit
  imports Prelude
begin

text \<open>
  Instruction words of the arm64 back end of Dobby: the bit macros of
  \<^verbatim>\<open>source/include/utility_macro.h\<close> (with the C integer conversions of their arguments
  written out), the branch and literal offsets of
  \<^verbatim>\<open>source/InstructionRelocation/arm64/inst_decode_encode_kit.h\<close>, and the instruction class
  tests at the head of \<^verbatim>\<open>InstructionRelocationARM64.cc\<close>. The lemmas describe every one of
  them by the field of the word it reads or writes; the properties are the round trips of the
  offset encoders.
\<close>

named_theorems a64_enc \<open>reading a field of an encoded instruction word\<close>
named_theorems a64_op \<open>operation codes of the instruction set\<close>

section \<open>utility_macro.h\<close>

definition LeftShift :: "'a::len word \<Rightarrow> nat \<Rightarrow> nat \<Rightarrow> 'a word" where
  "LeftShift a b c = push_bit c (a AND (push_bit b 1 - 1))"

definition ALIGN_FLOOR :: "u64 \<Rightarrow> u64 \<Rightarrow> u64" where
  "ALIGN_FLOOR address rng = address AND NOT (rng - 1)"

definition ALIGN_CEIL :: "u64 \<Rightarrow> u64 \<Rightarrow> u64" where
  "ALIGN_CEIL address rng = (address + rng - 1) AND NOT (rng - 1)"

text \<open>The constant is a \<^verbatim>\<open>long\<close>, 64 bits wide on the target.\<close>

definition submask :: "nat \<Rightarrow> u64" where
  "submask x = push_bit (x + 1) 1 - 1"

text \<open>
  The macro \<^verbatim>\<open>bits\<close> shifts its object in the object's own type and then widens it to
  \<^verbatim>\<open>long\<close>: \<open>bits_u\<close> is the macro on an unsigned object, \<open>bits_s\<close> on a signed one. The same
  for \<^verbatim>\<open>bit\<close>, whose mask is an \<^verbatim>\<open>int\<close>.
\<close>

definition bits_u :: "'a::len word \<Rightarrow> nat \<Rightarrow> nat \<Rightarrow> u64" where
  "bits_u obj st fn = ucast (drop_bit st obj) AND submask (fn - st)"

definition bits_s :: "'a::len word \<Rightarrow> nat \<Rightarrow> nat \<Rightarrow> u64" where
  "bits_s obj st fn = scast (signed_drop_bit st obj) AND submask (fn - st)"

definition bit_u :: "'a::len word \<Rightarrow> nat \<Rightarrow> 'a word" where
  "bit_u obj st = drop_bit st obj AND 1"

definition bit_s :: "'a::len word \<Rightarrow> nat \<Rightarrow> 'a word" where
  "bit_s obj st = signed_drop_bit st obj AND 1"

text \<open>
  \<^verbatim>\<open>set_bits\<close> on an unsigned and on a signed 32-bit object: the mask is a \<^verbatim>\<open>long\<close>, the object is
  widened to it, and the assignment truncates.
\<close>

definition set_bit_s :: "u32 \<Rightarrow> nat \<Rightarrow> u32 \<Rightarrow> u32" where
  "set_bit_s obj st b = (NOT (push_bit st 1) AND obj) OR push_bit st b"

definition set_bits_u :: "u32 \<Rightarrow> nat \<Rightarrow> nat \<Rightarrow> u32 \<Rightarrow> u32" where
  "set_bits_u obj st fn b =
     ucast ((NOT (push_bit st (submask (fn - st))) AND ucast obj) OR ucast (push_bit st b))"

definition set_bits_s :: "u32 \<Rightarrow> nat \<Rightarrow> nat \<Rightarrow> u32 \<Rightarrow> u32" where
  "set_bits_s obj st fn b =
     ucast ((NOT (push_bit st (submask (fn - st))) AND scast obj) OR scast (push_bit st b))"

section \<open>inst_decode_encode_kit.h\<close>

text \<open>The compiled branch of \<^verbatim>\<open>#if 1\<close>; the parameter \<open>N\<close> is unused in it.\<close>

definition SignExtend :: "u64 \<Rightarrow> nat \<Rightarrow> nat \<Rightarrow> u64" where
  "SignExtend x M N =
     (let sign_bit = bit_u x (M - 1);
          sign_mask = 0 - sign_bit
      in x OR push_bit M (drop_bit M sign_mask))"

definition decode_imm14_offset :: "u32 \<Rightarrow> u64" where
  "decode_imm14_offset instr =
     (let imm14 = bits_u instr 5 18; offset = push_bit 2 imm14
      in SignExtend offset (2 + 14) 64)"

definition encode_imm14_offset :: "u32 \<Rightarrow> u64 \<Rightarrow> u32" where
  "encode_imm14_offset instr offset =
     (let imm14 = ucast (bits_s (signed_drop_bit 2 offset) 0 13) in set_bits_u instr 5 18 imm14)"

definition decode_imm19_offset :: "u32 \<Rightarrow> u64" where
  "decode_imm19_offset instr =
     (let imm19 = bits_u instr 5 23; offset = push_bit 2 imm19
      in SignExtend offset (2 + 19) 64)"

definition encode_imm19_offset :: "u32 \<Rightarrow> u64 \<Rightarrow> u32" where
  "encode_imm19_offset instr offset =
     (let imm19 = ucast (bits_s (signed_drop_bit 2 offset) 0 18) in set_bits_u instr 5 23 imm19)"

definition decode_imm26_offset :: "u32 \<Rightarrow> u64" where
  "decode_imm26_offset instr =
     (let imm26 = bits_u instr 0 25; offset = push_bit 2 imm26
      in SignExtend offset (2 + 26) 64)"

definition encode_imm26_offset :: "u32 \<Rightarrow> u64 \<Rightarrow> u32" where
  "encode_imm26_offset instr offset =
     (let imm26 = ucast (bits_s (signed_drop_bit 2 offset) 0 25) in set_bits_u instr 0 25 imm26)"

text \<open>
  The bit-field structure \<^verbatim>\<open>instr_decode\<close> of the \<^verbatim>\<open>ADR\<close>/\<^verbatim>\<open>ADRP\<close> functions, laid out from the
  least significant bit, and the two casts between it and the word. A store into a bit-field
  keeps the low bits of the value.
\<close>

record adr_fields =
  Rd_f :: "5 word"
  immhi_f :: "19 word"
  dummy_0_f :: "5 word"
  immlo_f :: "2 word"
  op_f :: "1 word"

definition adr_fields_of :: "u32 \<Rightarrow> adr_fields" where
  "adr_fields_of instr =
     \<lparr>Rd_f = ucast instr, immhi_f = ucast (drop_bit 5 instr), dummy_0_f = ucast (drop_bit 24 instr),
      immlo_f = ucast (drop_bit 29 instr), op_f = ucast (drop_bit 31 instr)\<rparr>"

definition word_of_adr_fields :: "adr_fields \<Rightarrow> u32" where
  "word_of_adr_fields f =
     ucast (Rd_f f) OR push_bit 5 (ucast (immhi_f f)) OR push_bit 24 (ucast (dummy_0_f f)) OR
     push_bit 29 (ucast (immlo_f f)) OR push_bit 31 (ucast (op_f f))"

definition decode_immhi_immlo_offset :: "u32 \<Rightarrow> u64" where
  "decode_immhi_immlo_offset instr =
     (let instr_decode = adr_fields_of instr;
          imm = ucast (immlo_f instr_decode) + push_bit 2 (ucast (immhi_f instr_decode) :: u32)
      in SignExtend (scast imm) (2 + 19) 64)"

definition encode_immhi_immlo_offset :: "u32 \<Rightarrow> u64 \<Rightarrow> u32" where
  "encode_immhi_immlo_offset instr offset =
     word_of_adr_fields ((adr_fields_of instr)
       \<lparr>immlo_f := ucast (bits_s offset 0 2), immhi_f := ucast (bits_s offset 2 (2 + 19))\<rparr>)"

definition decode_immhi_immlo_zero12_offset :: "u32 \<Rightarrow> u64" where
  "decode_immhi_immlo_zero12_offset instr = push_bit 12 (decode_immhi_immlo_offset instr)"

definition encode_immhi_immlo_zero12_offset :: "u32 \<Rightarrow> u64 \<Rightarrow> u32" where
  "encode_immhi_immlo_zero12_offset instr offset =
     encode_immhi_immlo_offset instr (signed_drop_bit 12 offset)"

definition decode_rt :: "u32 \<Rightarrow> u32" where
  "decode_rt instr = ucast (bits_u instr 0 4)"

definition decode_rd :: "u32 \<Rightarrow> u32" where
  "decode_rd instr = ucast (bits_u instr 0 4)"

section \<open>Instruction classes\<close>

text \<open>The constants of \<^verbatim>\<open>constants-arm64.h\<close> and \<^verbatim>\<open>inst_constants.h\<close> that the tests use.\<close>

definition UnconditionalBranchFixed :: u32 where "UnconditionalBranchFixed = 0x14000000"
definition UnconditionalBranchFixedMask :: u32 where "UnconditionalBranchFixedMask = 0x7C000000"
definition UnconditionalBranchMask :: u32 where "UnconditionalBranchMask = 0xFC000000"
definition B :: u32 where "B = UnconditionalBranchFixed OR 0x00000000"
definition BL :: u32 where "BL = UnconditionalBranchFixed OR 0x80000000"
definition LoadRegLiteralFixed :: u32 where "LoadRegLiteralFixed = 0x18000000"
definition LoadRegLiteralFixedMask :: u32 where "LoadRegLiteralFixedMask = 0x3B000000"
definition PCRelAddressingFixed :: u32 where "PCRelAddressingFixed = 0x10000000"
definition PCRelAddressingFixedMask :: u32 where "PCRelAddressingFixedMask = 0x1F000000"
definition PCRelAddressingMask :: u32 where "PCRelAddressingMask = 0x9F000000"
definition ADR :: u32 where "ADR = PCRelAddressingFixed OR 0x00000000"
definition ADRP :: u32 where "ADRP = PCRelAddressingFixed OR 0x80000000"
definition CompareBranchFixed :: u32 where "CompareBranchFixed = 0x34000000"
definition CompareBranchFixedMask :: u32 where "CompareBranchFixedMask = 0x7E000000"
definition ConditionalBranchFixed :: u32 where "ConditionalBranchFixed = 0x54000000"
definition ConditionalBranchFixedMask :: u32 where "ConditionalBranchFixedMask = 0xFE000000"
definition TestBranchFixed :: u32 where "TestBranchFixed = 0x36000000"
definition TestBranchFixedMask :: u32 where "TestBranchFixedMask = 0x7E000000"

lemmas class_constants =
  UnconditionalBranchFixed_def UnconditionalBranchFixedMask_def UnconditionalBranchMask_def
  B_def BL_def LoadRegLiteralFixed_def LoadRegLiteralFixedMask_def PCRelAddressingFixed_def
  PCRelAddressingFixedMask_def PCRelAddressingMask_def ADR_def ADRP_def CompareBranchFixed_def
  CompareBranchFixedMask_def ConditionalBranchFixed_def ConditionalBranchFixedMask_def
  TestBranchFixed_def TestBranchFixedMask_def

definition inst_is_b_bl :: "u32 \<Rightarrow> bool" where
  "inst_is_b_bl instr = (instr AND UnconditionalBranchFixedMask = UnconditionalBranchFixed)"

definition inst_is_ldr_literal :: "u32 \<Rightarrow> bool" where
  "inst_is_ldr_literal instr = (instr AND LoadRegLiteralFixedMask = LoadRegLiteralFixed)"

definition inst_is_adr :: "u32 \<Rightarrow> bool" where
  "inst_is_adr instr =
     (instr AND PCRelAddressingFixedMask = PCRelAddressingFixed \<and> instr AND PCRelAddressingMask = ADR)"

definition inst_is_adrp :: "u32 \<Rightarrow> bool" where
  "inst_is_adrp instr =
     (instr AND PCRelAddressingFixedMask = PCRelAddressingFixed \<and> instr AND PCRelAddressingMask = ADRP)"

definition inst_is_b_cond :: "u32 \<Rightarrow> bool" where
  "inst_is_b_cond instr = (instr AND ConditionalBranchFixedMask = ConditionalBranchFixed)"

definition inst_is_compare_b :: "u32 \<Rightarrow> bool" where
  "inst_is_compare_b instr = (instr AND CompareBranchFixedMask = CompareBranchFixed)"

definition inst_is_test_b :: "u32 \<Rightarrow> bool" where
  "inst_is_test_b instr = (instr AND TestBranchFixedMask = TestBranchFixed)"

section \<open>Fields\<close>

text \<open>\<open>field hi lo w\<close>: bits \<open>hi\<close> down to \<open>lo\<close> of a word, as a number.\<close>

definition field :: "nat \<Rightarrow> nat \<Rightarrow> 'a::len word \<Rightarrow> 'a word" where
  "field hi lo w = take_bit (Suc hi - lo) (drop_bit lo w)"

lemma bit_field [bit_simps]: "bit (field hi lo w) n \<longleftrightarrow> lo + n \<le> hi \<and> bit w (lo + n)"
  by (auto simp: field_def bit_simps)

lemma field_or [a64_enc]: "field hi lo (a OR b) = field hi lo a OR field hi lo b"
  by (simp add: field_def)

lemma submask_mask: "submask x = mask (Suc x)"
  by (simp add: submask_def mask_eq_exp_minus_1 push_bit_eq_mult)

lemma LeftShift_eq: "LeftShift a b c = push_bit c (take_bit b a)"
  by (simp add: LeftShift_def push_bit_eq_mult flip: take_bit_eq_mask mask_eq_exp_minus_1)

lemma bit_LeftShift [bit_simps]:
  "bit (LeftShift (a :: 'a::len word) b c) n \<longleftrightarrow> n < LENGTH('a) \<and> c \<le> n \<and> n - c < b \<and> bit a (n - c)"
  by (auto simp: LeftShift_eq bit_simps)

lemma bit_bits_u [bit_simps]:
  "bit (bits_u (w :: 'a::len word) st fn) n \<longleftrightarrow> n < 64 \<and> n \<le> fn - st \<and> bit w (st + n)"
  by (auto simp: bits_u_def submask_mask bit_simps dest: bit_imp_le_length)

lemma bits_s_u:
  assumes "st \<le> fn" "fn < LENGTH('a)" "LENGTH('a) \<le> 64"
  shows "bits_s (w :: 'a::len word) st fn = bits_u w st fn"
proof (rule bit_word_eqI)
  fix n
  show "bit (bits_s w st fn) n \<longleftrightarrow> bit (bits_u w st fn) n"
  proof (cases "n \<le> fn - st")
    case True
    then have "min (LENGTH('a) - Suc 0) n = n" "\<not> LENGTH('a) - st \<le> n" using assms by auto
    then show ?thesis using assms True
      by (auto simp: bits_s_def bits_u_def submask_mask bit_simps)
  qed (auto simp: bits_s_def bits_u_def submask_mask bit_simps)
qed

lemma bit_set_bits_u [bit_simps]:
  "st \<le> fn \<Longrightarrow> bit (set_bits_u w st fn v) n \<longleftrightarrow>
     n < 32 \<and> (if st \<le> n \<and> n \<le> fn then bit v (n - st) else bit w n \<or> st \<le> n \<and> bit v (n - st))"
  by (auto simp: set_bits_u_def submask_mask bit_simps)

lemma set_bits_s_u: "set_bits_s w st fn v = set_bits_u w st fn v"
proof (rule bit_word_eqI)
  fix n
  assume "n < LENGTH(32)"
  then have "min 31 n = n" by simp
  then show "bit (set_bits_s w st fn v) n \<longleftrightarrow> bit (set_bits_u w st fn v) n"
    by (simp add: set_bits_u_def set_bits_s_def bit_simps)
qed

lemma bit_SignExtend [bit_simps]:
  "0 < M \<Longrightarrow> M \<le> 64 \<Longrightarrow>
     bit (SignExtend x M N) n \<longleftrightarrow> n < 64 \<and> (bit x n \<or> M \<le> n \<and> bit x (M - 1))"
proof -
  have "0 - bit_u x (M - 1) = (if bit x (M - 1) then - 1 else 0)"
    by (simp add: bit_u_def and_one_eq bit_iff_odd_drop_bit mod_2_eq_odd)
  then show "0 < M \<Longrightarrow> M \<le> 64 \<Longrightarrow> ?thesis"
    by (auto simp: SignExtend_def Let_def bit_simps dest: bit_imp_le_length)
qed

section \<open>Offsets as signed fields\<close>

text \<open>\<open>signed_field hi lo\<close>: the field as a two's complement number, in 64 bits.\<close>

definition sfield :: "nat \<Rightarrow> nat \<Rightarrow> u32 \<Rightarrow> u64" where
  "sfield hi lo w = word_of_int (signed_take_bit (hi - lo) (uint (drop_bit lo w)))"

lemma bit_sfield [bit_simps]:
  "lo \<le> hi \<Longrightarrow> hi < 32 \<Longrightarrow> bit (sfield hi lo w) n \<longleftrightarrow> n < 64 \<and> bit w (min hi (lo + n))"
  by (auto simp: sfield_def bit_word_of_int_iff bit_signed_take_bit_iff bit_uint_iff bit_simps min_def
        dest: bit_imp_le_length)

lemma SignExtend_bits:
  assumes "lo \<le> hi" "hi < 32" "k \<le> 3"
  shows "SignExtend (push_bit k (bits_u w lo hi)) (k + Suc (hi - lo)) N = push_bit k (sfield hi lo w)"
proof (rule bit_word_eqI)
  fix n
  show "bit (SignExtend (push_bit k (bits_u w lo hi)) (k + Suc (hi - lo)) N) n \<longleftrightarrow>
      bit (push_bit k (sfield hi lo w)) n"
  proof (cases "k + Suc (hi - lo) \<le> n")
    case True
    then have "min hi (lo + (n - k)) = hi" "k \<le> n" using assms by auto
    then show ?thesis using assms True by (auto simp: bit_simps)
  next
    case False
    then have "min hi (lo + (n - k)) = lo + (n - k)" using assms by auto
    then show ?thesis using assms False by (auto simp: bit_simps)
  qed
qed

lemma decode_imm14_sfield: "decode_imm14_offset w = push_bit 2 (sfield 18 5 w)"
  using SignExtend_bits [of 5 18 2 w 64] by (simp add: decode_imm14_offset_def)

lemma decode_imm19_sfield: "decode_imm19_offset w = push_bit 2 (sfield 23 5 w)"
  using SignExtend_bits [of 5 23 2 w 64] by (simp add: decode_imm19_offset_def)

lemma decode_imm26_sfield: "decode_imm26_offset w = push_bit 2 (sfield 25 0 w)"
  using SignExtend_bits [of 0 25 2 w 64] by (simp add: decode_imm26_offset_def)

text \<open>The 21-bit page offset has its two low bits apart, at 29.\<close>

definition adr_imm :: "u32 \<Rightarrow> u64" where
  "adr_imm w = push_bit 2 (sfield 23 5 w) OR ucast (field 30 29 w)"

lemma decode_adr_imm: "decode_immhi_immlo_offset w = adr_imm w"
proof -
  have or: "ucast (immlo_f (adr_fields_of w)) + push_bit 2 (ucast (immhi_f (adr_fields_of w)) :: u32) =
      ucast (immlo_f (adr_fields_of w)) OR push_bit 2 (ucast (immhi_f (adr_fields_of w)))"
    by (rule disjunctive_add) (auto simp: adr_fields_of_def bit_simps)
  show ?thesis
  proof (rule bit_word_eqI)
    fix n :: nat
    consider "21 \<le> n" "min 23 (5 + (n - 2)) = 23" "min 31 n \<ge> 21" | "2 \<le> n" "n < 21" "min 23 (5 + (n - 2)) = 3 + n" "min 31 n = n" |
      "n < 2" "min 31 n = n" by linarith
    then show "bit (decode_immhi_immlo_offset w) n \<longleftrightarrow> bit (adr_imm w) n"
      unfolding decode_immhi_immlo_offset_def Let_def or adr_imm_def
      by cases (auto simp: adr_fields_of_def bit_simps)
  qed
qed

section \<open>Encoding an offset\<close>

text \<open>\<open>fits k a off\<close>: the offset is a multiple of \<open>2 ^ a\<close> and a signed number of \<open>k + a\<close> bits.\<close>

definition fits :: "nat \<Rightarrow> nat \<Rightarrow> u64 \<Rightarrow> bool" where
  "fits k a off \<longleftrightarrow> take_bit a off = 0 \<and> - (2 ^ (k + a - 1)) \<le> sint off \<and> sint off < 2 ^ (k + a - 1)"

lemma fits_sign_bits:
  assumes "fits k a off" "0 < k" "k + a \<le> 64" "n < 64"
  shows "bit off n \<longleftrightarrow> bit off (min (k + a - 1) n)"
proof -
  have "signed_take_bit (k + a - 1) (sint off) = sint off"
    using assms(1) by (simp add: fits_def signed_take_bit_int_eq_self_iff)
  moreover have "bit (signed_take_bit (k + a - 1) (sint off)) n \<longleftrightarrow> bit (sint off) (min (k + a - 1) n)"
    by (simp add: bit_signed_take_bit_iff)
  ultimately have "bit (sint off) n \<longleftrightarrow> bit (sint off) (min (k + a - 1) n)" by simp
  moreover have "bit (sint off) j \<longleftrightarrow> bit off j" if "j < 64" for j
    using that by (simp add: bit_sint_iff)
  moreover have "min (k + a - 1) n < 64" using assms(4) by simp
  ultimately show ?thesis using assms(4) by blast
qed

lemma fits_low_bits: "fits k a off \<Longrightarrow> n < a \<Longrightarrow> \<not> bit off n"
  by (metis bit_take_bit_iff bit_0_eq bot_apply bot_bool_def fits_def)

lemma sfield_encode:
  assumes fits: "fits (Suc (hi - lo)) 2 off" and le: "lo \<le> hi" "hi < 32"
    and v: "\<And>n. bit v n \<longleftrightarrow> n \<le> hi - lo \<and> bit off (2 + n)"
  shows "push_bit 2 (sfield hi lo (set_bits_u w lo hi v)) = off"
proof (rule bit_word_eqI)
  fix n :: nat
  assume n: "n < LENGTH(64)"
  show "bit (push_bit 2 (sfield hi lo (set_bits_u w lo hi v))) n \<longleftrightarrow> bit off n"
  proof (cases "n < 2")
    case True
    then show ?thesis using fits_low_bits [OF fits] by (auto simp: bit_simps)
  next
    case False
    define m where "m = min hi (lo + (n - 2))"
    have m: "lo \<le> m" "m \<le> hi" "m < 32" and k: "min (Suc (hi - lo) + 2 - 1) n = 2 + (m - lo)"
      using le False by (auto simp: min_def m_def)
    have "bit off n \<longleftrightarrow> bit off (2 + (m - lo))"
      unfolding k [symmetric] by (rule fits_sign_bits [OF fits]) (use le n in auto)
    also have "\<dots> \<longleftrightarrow> bit (set_bits_u w lo hi v) m" using m le v by (simp add: bit_set_bits_u diff_le_mono)
    also have "\<dots> \<longleftrightarrow> bit (push_bit 2 (sfield hi lo (set_bits_u w lo hi v))) n"
      using le False n by (auto simp: bit_push_bit_iff bit_sfield m_def)
    finally show ?thesis ..
  qed
qed

lemma bit_shifted_bits:
  "j < 32 \<Longrightarrow> bit (ucast (bits_s (signed_drop_bit 2 off) 0 j) :: u32) n \<longleftrightarrow> n \<le> j \<and> bit (off :: u64) (2 + n)"
  by (auto simp: bits_s_u bit_simps)

lemma adr_imm_encode:
  assumes fits: "fits 21 0 off"
  shows "adr_imm (encode_immhi_immlo_offset w off) = off"
proof (rule bit_word_eqI)
  fix n :: nat
  assume n: "n < LENGTH(64)"
  have hi: "bit off n \<longleftrightarrow> bit off (min 20 n)"
    using fits_sign_bits [OF fits, of n] n by simp
  consider "21 \<le> n" "min 23 (5 + (n - 2)) = 23" "min 20 n = 20" |
    "2 \<le> n" "n < 21" "min 23 (5 + (n - 2)) = 3 + n" "Suc (Suc (n - 2)) = n" | "n < 2" by linarith
  then show "bit (adr_imm (encode_immhi_immlo_offset w off)) n \<longleftrightarrow> bit off n"
    using hi n
    by cases (auto simp: adr_imm_def encode_immhi_immlo_offset_def word_of_adr_fields_def
      adr_fields_of_def bits_s_u bit_simps)
qed

lemma fits_page:
  assumes "fits 21 12 off"
  shows "fits 21 0 (signed_drop_bit 12 off)" "push_bit 12 (signed_drop_bit 12 off) = off"
proof -
  have "sint (signed_drop_bit 12 off) = drop_bit 12 (sint off)"
    by (simp add: sint_signed_drop_bit_eq)
  then show "fits 21 0 (signed_drop_bit 12 off)"
    using assms by (simp add: fits_def drop_bit_eq_div) linarith
  show "push_bit 12 (signed_drop_bit 12 off) = off"
  proof (rule bit_word_eqI)
    fix n :: nat
    show "bit (push_bit 12 (signed_drop_bit 12 off)) n \<longleftrightarrow> bit off n"
      using fits_low_bits [OF assms, of n] by (cases "n < 12") (auto simp: bit_simps dest: bit_imp_le_length)
  qed
qed

section \<open>Classes as fields\<close>

lemma and_field: "hi < LENGTH('a) \<Longrightarrow> lo \<le> hi \<Longrightarrow>
    (w :: 'a::len word) AND push_bit lo (mask (Suc hi - lo)) = push_bit lo (field hi lo w)"
  by (rule bit_word_eqI) (auto simp: bit_simps)

lemma mask_test:
  assumes M: "M = push_bit lo (mask (Suc hi - lo))" and F: "F = push_bit lo c"
    and c: "take_bit (Suc hi - lo) c = c" and le: "hi < LENGTH('a)" "lo \<le> hi"
  shows "(w :: 'a::len word) AND M = F \<longleftrightarrow> field hi lo w = c"
proof
  have drop: "drop_bit lo (push_bit lo (take_bit (Suc hi - lo) d)) = take_bit (Suc hi - lo) d"
    for d :: "'a word" by (rule bit_word_eqI) (use le in \<open>auto simp: bit_simps\<close>)
  assume "w AND M = F"
  then have "drop_bit lo (push_bit lo (field hi lo w)) = drop_bit lo (push_bit lo c)"
    using le by (simp add: M F and_field)
  then show "field hi lo w = c" using drop [of "drop_bit lo w"] drop [of c] c by (simp add: field_def)
qed (use le in \<open>simp add: M F and_field\<close>)

lemma inst_is_b_bl_field: "inst_is_b_bl w \<longleftrightarrow> field 30 26 w = 5"
  unfolding inst_is_b_bl_def by (rule mask_test) (simp_all add: class_constants mask_eq_exp_minus_1)

lemma inst_is_b_cond_field: "inst_is_b_cond w \<longleftrightarrow> field 31 25 w = 0x2A"
  unfolding inst_is_b_cond_def by (rule mask_test) (simp_all add: class_constants mask_eq_exp_minus_1)

lemma inst_is_compare_b_field: "inst_is_compare_b w \<longleftrightarrow> field 30 25 w = 0x1A"
  unfolding inst_is_compare_b_def by (rule mask_test) (simp_all add: class_constants mask_eq_exp_minus_1)

lemma inst_is_test_b_field: "inst_is_test_b w \<longleftrightarrow> field 30 25 w = 0x1B"
  unfolding inst_is_test_b_def by (rule mask_test) (simp_all add: class_constants mask_eq_exp_minus_1)

lemma bit_field_iff: "n < LENGTH('a) \<Longrightarrow> field n n (w :: 'a::len word) = of_bool (bit w n)"
  by (rule bit_word_eqI) (auto simp: bit_simps)

lemma and_split_fields:
  assumes "M = M1 OR M2" "M1 AND M2 = 0" "F = F1 OR F2" "F1 AND M1 = F1" "F2 AND M2 = F2"
  shows "(w :: 'a::len word) AND M = F \<longleftrightarrow> w AND M1 = F1 \<and> w AND M2 = F2"
proof
  assume "w AND M = F"
  then have "(w AND M) AND M1 = F AND M1" "(w AND M) AND M2 = F AND M2" by simp_all
  moreover have "(w AND M) AND M1 = w AND M1" "(w AND M) AND M2 = w AND M2" unfolding assms(1)
    by (rule bit_word_eqI, auto simp: bit_simps)+
  moreover have "F1 AND M2 = 0" "F2 AND M1 = 0"
    using assms(2,4,5) by (metis and.assoc and.commute and_zero_eq)+
  then have "F AND M1 = F1" "F AND M2 = F2"
    using assms(4,5) by (simp_all add: assms(3) bit.conj_disj_distrib2)
  ultimately show "w AND M1 = F1 \<and> w AND M2 = F2" by simp
qed (simp add: assms bit.conj_disj_distrib)

lemma inst_is_ldr_literal_field: "inst_is_ldr_literal w \<longleftrightarrow> field 29 27 w = 3 \<and> field 25 24 w = 0"
proof -
  have "inst_is_ldr_literal w \<longleftrightarrow> w AND 0x38000000 = 0x18000000 \<and> w AND 0x03000000 = 0"
    unfolding inst_is_ldr_literal_def by (rule and_split_fields) (simp_all add: class_constants)
  also have "w AND 0x38000000 = 0x18000000 \<longleftrightarrow> field 29 27 w = 3"
    by (rule mask_test) (simp_all add: mask_eq_exp_minus_1)
  also have "w AND 0x03000000 = 0 \<longleftrightarrow> field 25 24 w = 0"
    by (rule mask_test) (simp_all add: mask_eq_exp_minus_1)
  finally show ?thesis .
qed

lemma pcrel_fixed_field: "w AND PCRelAddressingFixedMask = PCRelAddressingFixed \<longleftrightarrow> field 28 24 w = 0x10"
  by (rule mask_test) (simp_all add: class_constants mask_eq_exp_minus_1)

lemma pcrel_op_field:
  "w AND PCRelAddressingMask = ADR \<longleftrightarrow> field 28 24 w = 0x10 \<and> field 31 31 w = 0"
  "w AND PCRelAddressingMask = ADRP \<longleftrightarrow> field 28 24 w = 0x10 \<and> field 31 31 w = 1"
proof -
  have f: "w AND 0x1F000000 = 0x10000000 \<longleftrightarrow> field 28 24 w = 0x10"
    using pcrel_fixed_field [of w] by (simp add: class_constants)
  have h: "w AND 0x80000000 = 0 \<longleftrightarrow> field 31 31 w = 0" "w AND 0x80000000 = 0x80000000 \<longleftrightarrow> field 31 31 w = 1"
    by (rule mask_test; simp add: mask_eq_exp_minus_1)+
  show "w AND PCRelAddressingMask = ADR \<longleftrightarrow> field 28 24 w = 0x10 \<and> field 31 31 w = 0"
    unfolding f [symmetric] h [symmetric] by (rule and_split_fields) (simp_all add: class_constants)
  show "w AND PCRelAddressingMask = ADRP \<longleftrightarrow> field 28 24 w = 0x10 \<and> field 31 31 w = 1"
    unfolding f [symmetric] h [symmetric] by (rule and_split_fields) (simp_all add: class_constants)
qed

lemma inst_is_adr_field: "inst_is_adr w \<longleftrightarrow> field 28 24 w = 0x10 \<and> field 31 31 w = 0"
  by (simp add: inst_is_adr_def pcrel_fixed_field pcrel_op_field)

lemma inst_is_adrp_field: "inst_is_adrp w \<longleftrightarrow> field 28 24 w = 0x10 \<and> field 31 31 w = 1"
  by (simp add: inst_is_adrp_def pcrel_fixed_field pcrel_op_field)

lemmas inst_is_field = inst_is_b_bl_field inst_is_ldr_literal_field inst_is_adr_field
  inst_is_adrp_field inst_is_b_cond_field inst_is_compare_b_field inst_is_test_b_field

lemma branch_mask_field: "w AND UnconditionalBranchMask = BL \<longleftrightarrow> field 31 26 w = 0x25"
  by (rule mask_test) (simp_all add: class_constants mask_eq_exp_minus_1)

section \<open>Properties\<close>

text \<open>
  C36: Encoding a branch, literal or page offset into an instruction word and decoding it again
  gives the offset back, for every offset the field can hold: signed 14, 19 and 26-bit word
  offsets, the signed 21-bit byte offset of \<^verbatim>\<open>ADR\<close> and the signed 21-bit page offset of
  \<^verbatim>\<open>ADRP\<close>.
\<close>

theorem offset_roundtrip:
  "(fits 14 2 off \<longrightarrow> decode_imm14_offset (encode_imm14_offset w off) = off) \<and>
   (fits 19 2 off \<longrightarrow> decode_imm19_offset (encode_imm19_offset w off) = off) \<and>
   (fits 26 2 off \<longrightarrow> decode_imm26_offset (encode_imm26_offset w off) = off) \<and>
   (fits 21 0 off \<longrightarrow> decode_immhi_immlo_offset (encode_immhi_immlo_offset w off) = off) \<and>
   (fits 21 12 off \<longrightarrow>
      decode_immhi_immlo_zero12_offset (encode_immhi_immlo_zero12_offset w off) = off)"
  using sfield_encode [OF _ _ _ bit_shifted_bits, of 18 5 off w]
    sfield_encode [OF _ _ _ bit_shifted_bits, of 23 5 off w]
    sfield_encode [OF _ _ _ bit_shifted_bits, of 25 0 off w]
    adr_imm_encode [of off w] adr_imm_encode [of "signed_drop_bit 12 off" w] fits_page [of off]
  by (simp add: decode_imm14_sfield decode_imm19_sfield decode_imm26_sfield decode_adr_imm
      encode_imm14_offset_def encode_imm19_offset_def encode_imm26_offset_def
      decode_immhi_immlo_zero12_offset_def encode_immhi_immlo_zero12_offset_def)

theorem offset_roundtrip_witness:
  "decode_imm26_offset (encode_imm26_offset 0x94000000 (- 64)) = - 64 \<and>
   decode_immhi_immlo_offset (encode_immhi_immlo_offset 0x10000000 (- 3)) = - 3"
proof -
  have "fits 26 2 (- 64)" "fits 21 0 (- 3)" by code_simp+
  then show ?thesis using offset_roundtrip [of "- 64" "0x94000000"] offset_roundtrip [of "- 3" "0x10000000"] by blast
qed

end
