(* ===== verification/A64_Isa.thy ===== *)
theory A64_Isa
  imports A64_Kit
begin

text \<open>
  The part of the A64 instruction set that the arm64 back end reads or writes, after the Arm
  Architecture Reference Manual: this is the specification the generated code is measured
  against, not a model of code. An instruction that is not in the subset has no meaning here
  (\<open>None\<close>), so a theorem that a piece of code runs also says that it consists of these
  instructions only.

  The effect of an instruction is its new register state and where control goes: on to the next
  instruction, to a target, or to a target with the link register set.
\<close>

record a64 =
  xr :: "nat \<Rightarrow> u64"
  spr :: u64
  pc :: u64
  nf :: bool
  zf :: bool
  cf :: bool
  vf :: bool
  qr :: "nat \<Rightarrow> 128 word"
  mem :: "addr \<Rightarrow> u8"

datatype flow = Fall | Jump u64 | Call u64

text \<open>Register 31 reads as zero, or as the stack pointer where the instruction says so.\<close>

definition rx :: "a64 \<Rightarrow> nat \<Rightarrow> u64" where "rx s n = (if n = 31 then 0 else xr s n)"
definition rxsp :: "a64 \<Rightarrow> nat \<Rightarrow> u64" where "rxsp s n = (if n = 31 then spr s else xr s n)"

definition wx :: "nat \<Rightarrow> u64 \<Rightarrow> a64 \<Rightarrow> a64" where
  "wx n v s = (if n = 31 then s else s\<lparr>xr := (xr s)(n := v)\<rparr>)"

definition wxsp :: "nat \<Rightarrow> u64 \<Rightarrow> a64 \<Rightarrow> a64" where
  "wxsp n v s = (if n = 31 then s\<lparr>spr := v\<rparr> else s\<lparr>xr := (xr s)(n := v)\<rparr>)"

definition load :: "nat \<Rightarrow> u64 \<Rightarrow> a64 \<Rightarrow> u64" where
  "load n a s = get_le (mem s) n a"

definition reg :: "nat \<Rightarrow> nat \<Rightarrow> u32 \<Rightarrow> nat" where
  "reg hi lo w = unat (field hi lo w)"

text \<open>The condition codes: the upper three bits select the test, the lowest inverts it.\<close>

definition cond_holds :: "u32 \<Rightarrow> a64 \<Rightarrow> bool" where
  "cond_holds c s =
     (let t = (if c div 2 = 0 then zf s else if c div 2 = 1 then cf s else if c div 2 = 2 then nf s
               else if c div 2 = 3 then vf s else if c div 2 = 4 then cf s \<and> \<not> zf s
               else if c div 2 = 5 then nf s = vf s else if c div 2 = 6 then nf s = vf s \<and> \<not> zf s
               else True)
      in if odd c \<and> c \<noteq> 15 then \<not> t else t)"

text \<open>The value an instruction with a size bit tests.\<close>

definition sized :: "bool \<Rightarrow> u64 \<Rightarrow> u64" where
  "sized sf v = (if sf then v else take_bit 32 v)"

definition tb_pos :: "u32 \<Rightarrow> nat" where
  "tb_pos w = unat (field 23 19 w) + 32 * of_bool (bit w 31)"

text \<open>The classes of PC-relative instructions, each with its effect.\<close>

definition exec_b :: "u32 \<Rightarrow> a64 \<Rightarrow> a64 \<times> flow" where
  "exec_b w s = (let target = pc s + push_bit 2 (sfield 25 0 w) in
     (s, if bit w 31 then Call target else Jump target))"

definition exec_b_cond :: "u32 \<Rightarrow> a64 \<Rightarrow> a64 \<times> flow" where
  "exec_b_cond w s =
     (s, if cond_holds (field 3 0 w) s then Jump (pc s + push_bit 2 (sfield 23 5 w)) else Fall)"

definition exec_cb :: "u32 \<Rightarrow> a64 \<Rightarrow> a64 \<times> flow" where
  "exec_cb w s =
     (s, if (sized (bit w 31) (rx s (reg 4 0 w)) = 0) \<noteq> bit w 24
         then Jump (pc s + push_bit 2 (sfield 23 5 w)) else Fall)"

definition exec_tb :: "u32 \<Rightarrow> a64 \<Rightarrow> a64 \<times> flow" where
  "exec_tb w s =
     (s, if bit (rx s (reg 4 0 w)) (tb_pos w) = bit w 24
         then Jump (pc s + push_bit 2 (sfield 18 5 w)) else Fall)"

definition exec_adr :: "u32 \<Rightarrow> a64 \<Rightarrow> a64 \<times> flow" where
  "exec_adr w s =
     (wx (reg 4 0 w)
        (if bit w 31 then (pc s AND NOT 0xFFF) + push_bit 12 (adr_imm w) else pc s + adr_imm w) s, Fall)"

text \<open>The general-register literal loads: 32 bits, 64 bits, sign-extended word, prefetch.\<close>

definition exec_ldr_literal :: "u32 \<Rightarrow> a64 \<Rightarrow> a64 \<times> flow" where
  "exec_ldr_literal w s =
     (let target = pc s + push_bit 2 (sfield 23 5 w); rt = reg 4 0 w in
      if field 31 30 w = 0 then (wx rt (load 4 target s) s, Fall)
      else if field 31 30 w = 1 then (wx rt (load 8 target s) s, Fall)
      else if field 31 30 w = 2 then (wx rt (scast (ucast (load 4 target s) :: u32)) s, Fall)
      else (s, Fall))"

text \<open>The other instructions the assembler emits.\<close>

definition exec_mov_wide :: "u32 \<Rightarrow> a64 \<Rightarrow> a64 \<times> flow" where
  "exec_mov_wide w s =
     (let sh = 16 * unat (field 22 21 w); imm = ucast (field 20 5 w); rd = reg 4 0 w in
      (wx rd (if bit w 29 then (rx s rd AND NOT (push_bit sh 0xFFFF)) OR push_bit sh imm
              else push_bit sh imm) s, Fall))"

definition exec_add_imm :: "u32 \<Rightarrow> a64 \<Rightarrow> a64 \<times> flow" where
  "exec_add_imm w s =
     (let imm = ucast (field 21 10 w); v = rxsp s (reg 9 5 w) in
      (wxsp (reg 4 0 w) (if bit w 30 then v - imm else v + imm) s, Fall))"

definition exec_ldr_imm :: "u32 \<Rightarrow> a64 \<Rightarrow> a64 \<times> flow" where
  "exec_ldr_imm w s =
     (let base = rxsp s (reg 9 5 w); imm = ucast (field 21 10 w); rt = reg 4 0 w in
      if bit w 30 then (wx rt (load 8 (base + push_bit 3 imm) s) s, Fall)
      else (wx rt (load 4 (base + push_bit 2 imm) s) s, Fall))"

definition a64_exec :: "u32 \<Rightarrow> a64 \<Rightarrow> (a64 \<times> flow) option" where
  "a64_exec w s =
     (if field 30 26 w = 5 then Some (exec_b w s)
      else if field 31 24 w = 0x54 then Some (exec_b_cond w s)
      else if field 30 25 w = 0x1A then Some (exec_cb w s)
      else if field 30 25 w = 0x1B then Some (exec_tb w s)
      else if field 28 24 w = 0x10 then Some (exec_adr w s)
      else if field 29 24 w = 0x18 then Some (exec_ldr_literal w s)
      else if field 31 23 w = 0x1A5 \<or> field 31 23 w = 0x1E5 then Some (exec_mov_wide w s)
      else if field 31 22 w = 0x244 \<or> field 31 22 w = 0x344 then Some (exec_add_imm w s)
      else if field 31 22 w = 0x3E5 \<or> field 31 22 w = 0x2E5 then Some (exec_ldr_imm w s)
      else if field 31 10 w = 0x3587C0 \<and> field 4 0 w = 0 then Some (s, Jump (rx s (reg 9 5 w)))
      else if field 31 10 w = 0x358FC0 \<and> field 4 0 w = 0 then Some (s, Call (rx s (reg 9 5 w)))
      else None)"

fun finish :: "flow \<Rightarrow> u64 \<Rightarrow> a64 \<Rightarrow> a64" where
  "finish Fall nxt s = s\<lparr>pc := nxt\<rparr>"
| "finish (Jump a) nxt s = s\<lparr>pc := a\<rparr>"
| "finish (Call a) nxt s = s\<lparr>pc := a, xr := (xr s)(30 := nxt)\<rparr>"

definition fetch :: "a64 \<Rightarrow> u32" where
  "fetch s = get_le (mem s) 4 (pc s)"

definition a64_step :: "a64 \<Rightarrow> a64 option" where
  "a64_step s = map_option (\<lambda>(t, fl). finish fl (pc s + 4) t) (a64_exec (fetch s) s)"

fun a64_run :: "nat \<Rightarrow> a64 \<Rightarrow> a64 option" where
  "a64_run 0 s = Some s"
| "a64_run (Suc k) s = Option.bind (a64_step s) (a64_run k)"

lemma a64_run_add: "a64_run (j + k) s = Option.bind (a64_run j s) (a64_run k)"
  by (induction j arbitrary: s) (auto split: Option.bind_splits)

text \<open>\<open>code_at s a ws\<close>: the instruction words \<open>ws\<close> are in memory from \<open>a\<close> on.\<close>

fun code_at :: "(addr \<Rightarrow> u8) \<Rightarrow> u64 \<Rightarrow> u32 list \<Rightarrow> bool" where
  "code_at m a [] = True"
| "code_at m a (w # ws) \<longleftrightarrow> get_le m 4 a = w \<and> code_at m (a + 4) ws"

lemma code_at_append:
  "code_at m a (us @ ws) \<longleftrightarrow> code_at m a us \<and> code_at m (a + 4 * of_nat (length us)) ws"
  by (induction us arbitrary: a) (auto simp: algebra_simps)

text \<open>Running a straight-line sequence: each word falls through to the next.\<close>

fun exec_seq :: "u32 list \<Rightarrow> a64 \<Rightarrow> a64 option" where
  "exec_seq [] s = Some s"
| "exec_seq (w # ws) s =
     Option.bind (a64_exec w s) (\<lambda>(t, fl). if fl = Fall then exec_seq ws (t\<lparr>pc := pc s + 4\<rparr>) else None)"

lemma wx_more [simp]: "mem (wx n v s) = mem s" "pc (wx n v s) = pc s" "spr (wx n v s) = spr s"
  by (simp_all add: wx_def)

lemma wxsp_more [simp]: "mem (wxsp n v s) = mem s" "pc (wxsp n v s) = pc s"
  by (simp_all add: wxsp_def)

lemmas exec_defs = exec_b_def exec_b_cond_def exec_cb_def exec_tb_def exec_adr_def
  exec_ldr_literal_def exec_mov_wide_def exec_add_imm_def exec_ldr_imm_def

lemma a64_exec_mem: "a64_exec w s = Some (t, fl) \<Longrightarrow> mem t = mem s"
  by (auto simp: a64_exec_def exec_defs Let_def split: if_splits)

lemma exec_seq_run:
  "exec_seq ws s = Some t \<Longrightarrow> code_at (mem s) (pc s) ws \<Longrightarrow>
     a64_run (length ws) s = Some t \<and> mem t = mem s \<and> pc t = pc s + 4 * of_nat (length ws)"
proof (induction ws arbitrary: s)
  case (Cons w ws)
  from Cons.prems(1) obtain u where u: "a64_exec w s = Some (u, Fall)"
    and rest: "exec_seq ws (u\<lparr>pc := pc s + 4\<rparr>) = Some t"
    by (auto split: Option.bind_splits prod.splits if_splits)
  have "mem u = mem s" by (rule a64_exec_mem [OF u])
  then have "a64_run (length ws) (u\<lparr>pc := pc s + 4\<rparr>) = Some t \<and> mem t = mem s \<and>
      pc t = pc s + 4 + 4 * of_nat (length ws)"
    using Cons.IH [OF rest] Cons.prems(2) by simp
  then show ?case using Cons.prems(2) u by (simp add: a64_step_def fetch_def)
qed simp

end
