(* ===== verification/A64_Asm.thy ===== *)
theory A64_Asm
  imports A64_Kit
begin

text \<open>
  The arm64 assembler of Dobby: registers (\<^verbatim>\<open>registers-arm64.h\<close>), operation codes
  (\<^verbatim>\<open>constants-arm64.h\<close>), operands, the encoders and the emitters (\<^verbatim>\<open>assembler-arm64.h\<close>), the code
  buffer (\<^verbatim>\<open>CodeBufferBase\<close>, \<^verbatim>\<open>code_buffer_arm64.h\<close>), labels (\<^verbatim>\<open>AssemblerPseudoLabel.h\<close>,
  \<^verbatim>\<open>assembler-arm64.cc\<close>) and the literal pool (\<^verbatim>\<open>assembler.cc\<close>, \<^verbatim>\<open>codegen-arm64.cc\<close>).

  An assembler is a record passed through the emitters. Its \<^verbatim>\<open>data_labels\<close> are pointers to
  labels that the emitters update; here the labels stand in the list itself and a pointer is an
  index into it. An emitter that can run into \<^verbatim>\<open>UNREACHABLE()\<close> returns \<open>None\<close> there. The
  \<^verbatim>\<open>DCHECK\<close>s are empty in the builds of the repository (\<^verbatim>\<open>LOGGING_DEBUG\<close> is not set).
\<close>

section \<open>Registers\<close>

datatype RegisterType = kRegister_32 | kRegister_64 | kRegister | kVRegister
  | kSIMD_FP_Register_8 | kSIMD_FP_Register_16 | kSIMD_FP_Register_32 | kSIMD_FP_Register_64
  | kSIMD_FP_Register_128 | kInvalid

fun RegisterType_val :: "RegisterType \<Rightarrow> nat" where
  "RegisterType_val kRegister_32 = 0"
| "RegisterType_val kRegister_64 = 1"
| "RegisterType_val kRegister = 2"
| "RegisterType_val kVRegister = 3"
| "RegisterType_val kSIMD_FP_Register_8 = 4"
| "RegisterType_val kSIMD_FP_Register_16 = 5"
| "RegisterType_val kSIMD_FP_Register_32 = 6"
| "RegisterType_val kSIMD_FP_Register_64 = 7"
| "RegisterType_val kSIMD_FP_Register_128 = 8"
| "RegisterType_val kInvalid = 9"

record CPURegister =
  reg_code :: u32
  reg_size :: nat
  reg_type :: RegisterType

definition X :: "u32 \<Rightarrow> CPURegister" where
  "X c = \<lparr>reg_code = c, reg_size = 64, reg_type = kRegister_64\<rparr>"

definition W :: "u32 \<Rightarrow> CPURegister" where
  "W c = \<lparr>reg_code = c, reg_size = 32, reg_type = kRegister_32\<rparr>"

definition Q :: "u32 \<Rightarrow> CPURegister" where
  "Q c = \<lparr>reg_code = c, reg_size = 128, reg_type = kSIMD_FP_Register_128\<rparr>"

definition InvalidRegister :: CPURegister where
  "InvalidRegister = \<lparr>reg_code = 0, reg_size = 0, reg_type = kInvalid\<rparr>"

definition Is :: "CPURegister \<Rightarrow> CPURegister \<Rightarrow> bool" where
  "Is r reg \<longleftrightarrow> reg_code reg = reg_code r"

definition Is64Bits :: "CPURegister \<Rightarrow> bool" where
  "Is64Bits r \<longleftrightarrow> reg_size r = 64"

definition IsRegister :: "CPURegister \<Rightarrow> bool" where
  "IsRegister r \<longleftrightarrow> RegisterType_val (reg_type r) < RegisterType_val kRegister"

definition IsVRegister :: "CPURegister \<Rightarrow> bool" where
  "IsVRegister r \<longleftrightarrow> RegisterType_val (reg_type r) > RegisterType_val kVRegister"

definition xzr :: CPURegister where "xzr = X 31"
definition wzr :: CPURegister where "wzr = W 31"
definition SP :: CPURegister where "SP = X 31"
definition TMP_REG_0 :: CPURegister where "TMP_REG_0 = X 17"

definition Rd :: "CPURegister \<Rightarrow> u32" where "Rd r = push_bit 0 (reg_code r)"
definition Rt :: "CPURegister \<Rightarrow> u32" where "Rt r = push_bit 0 (reg_code r)"
definition Rt2 :: "CPURegister \<Rightarrow> u32" where "Rt2 r = push_bit 10 (reg_code r)"
definition Rn :: "CPURegister \<Rightarrow> u32" where "Rn r = push_bit 5 (reg_code r)"
definition Rm :: "CPURegister \<Rightarrow> u32" where "Rm r = push_bit 16 (reg_code r)"

section \<open>Operation codes\<close>

definition BRK :: u32 where "BRK = 0xD4000000 OR 0x00200000"
definition BR :: u32 where "BR = 0xD6000000 OR 0x001F0000"
definition BLR :: u32 where "BLR = 0xD6000000 OR 0x003F0000"

definition LoadRegLiteralSub :: "u32 \<Rightarrow> u32 \<Rightarrow> u32" where
  "LoadRegLiteralSub opc V = LoadRegLiteralFixed OR LeftShift opc 2 30 OR LeftShift V 1 26"

definition LDR_w_literal :: u32 where "LDR_w_literal = LoadRegLiteralSub 0 0"
definition LDR_x_literal :: u32 where "LDR_x_literal = LoadRegLiteralSub 1 0"
definition LDR_s_literal :: u32 where "LDR_s_literal = LoadRegLiteralSub 0 1"
definition LDR_d_literal :: u32 where "LDR_d_literal = LoadRegLiteralSub 1 1"
definition LDR_q_literal :: u32 where "LDR_q_literal = LoadRegLiteralSub 2 1"

definition LoadStoreOpSub :: "u32 \<Rightarrow> u32 \<Rightarrow> u32 \<Rightarrow> u32" where
  "LoadStoreOpSub sz V opc = LeftShift sz 2 30 OR LeftShift V 1 26 OR LeftShift opc 2 22"

definition STR_x :: u32 where "STR_x = LoadStoreOpSub 3 0 0"
definition LDR_x :: u32 where "LDR_x = LoadStoreOpSub 3 0 1"

definition LoadStoreUnsignedOffsetFixed :: u32 where "LoadStoreUnsignedOffsetFixed = 0x39000000"

definition LoadStorePairOpSub :: "u32 \<Rightarrow> u32 \<Rightarrow> u32 \<Rightarrow> u32" where
  "LoadStorePairOpSub opc V L = LeftShift opc 2 30 OR LeftShift V 1 26 OR LeftShift L 1 22"

definition STP_x :: u32 where "STP_x = LoadStorePairOpSub 2 0 0"
definition LDP_x :: u32 where "LDP_x = LoadStorePairOpSub 2 0 1"
definition STP_q :: u32 where "STP_q = LoadStorePairOpSub 2 1 0"
definition LDP_q :: u32 where "LDP_q = LoadStorePairOpSub 2 1 1"

definition LoadStorePairOffsetFixed :: u32 where "LoadStorePairOffsetFixed = 0x29000000"
definition LoadStorePairPostIndexFixed :: u32 where "LoadStorePairPostIndexFixed = 0x28800000"
definition LoadStorePairPreIndexFixed :: u32 where "LoadStorePairPreIndexFixed = 0x29800000"

definition MoveWideImmediateFixed :: u32 where "MoveWideImmediateFixed = 0x12800000"
definition MOVN :: u32 where "MOVN = 0x00000000"
definition MOVZ :: u32 where "MOVZ = 0x40000000"
definition MOVK :: u32 where "MOVK = 0x60000000"

definition AddSubImmediateOpSub :: "u32 \<Rightarrow> u32 \<Rightarrow> u32 \<Rightarrow> u32" where
  "AddSubImmediateOpSub sf op S =
     0x11000000 OR LeftShift sf 1 31 OR LeftShift op 1 30 OR LeftShift S 1 29"

definition ADD_w_imm :: u32 where "ADD_w_imm = AddSubImmediateOpSub 0 0 0"
definition SUB_w_imm :: u32 where "SUB_w_imm = AddSubImmediateOpSub 0 1 0"
definition ADD_x_imm :: u32 where "ADD_x_imm = AddSubImmediateOpSub 1 0 0"
definition SUB_x_imm :: u32 where "SUB_x_imm = AddSubImmediateOpSub 1 1 0"

definition ORR :: u32 where "ORR = 0x20000000"
definition LogicalShiftedFixed :: u32 where "LogicalShiftedFixed = 0x0A000000"

lemmas op_defs [a64_op] = BRK_def BR_def BLR_def LoadRegLiteralSub_def LDR_w_literal_def
  LDR_x_literal_def LDR_s_literal_def LDR_d_literal_def LDR_q_literal_def LoadStoreOpSub_def
  STR_x_def LDR_x_def LoadStoreUnsignedOffsetFixed_def LoadStorePairOpSub_def STP_x_def LDP_x_def
  STP_q_def LDP_q_def LoadStorePairOffsetFixed_def LoadStorePairPostIndexFixed_def
  LoadStorePairPreIndexFixed_def MoveWideImmediateFixed_def MOVN_def MOVZ_def MOVK_def
  AddSubImmediateOpSub_def ADD_w_imm_def SUB_w_imm_def ADD_x_imm_def SUB_x_imm_def ORR_def
  LogicalShiftedFixed_def class_constants

section \<open>Operands\<close>

datatype Shift = NO_SHIFT | LSL | LSR | ASR | ROR | MSL
datatype Extend = NO_EXTEND | UXTB | UXTH | UXTW | UXTX | SXTB | SXTH | SXTW | SXTX
datatype AddrMode = Offset | PreIndex | PostIndex

fun Shift_val :: "Shift \<Rightarrow> u32" where
  "Shift_val NO_SHIFT = - 1"
| "Shift_val LSL = 0"
| "Shift_val LSR = 1"
| "Shift_val ASR = 2"
| "Shift_val ROR = 3"
| "Shift_val MSL = 4"

record Operand =
  immediate :: u64
  oreg :: CPURegister
  oshift :: Shift
  oextend :: Extend
  shift_extent_imm :: u32

definition Operand_imm :: "u64 \<Rightarrow> Operand" where
  "Operand_imm imm = \<lparr>immediate = imm, oreg = InvalidRegister, oshift = NO_SHIFT,
     oextend = NO_EXTEND, shift_extent_imm = 0\<rparr>"

definition Operand_shift :: "CPURegister \<Rightarrow> Shift \<Rightarrow> u32 \<Rightarrow> Operand" where
  "Operand_shift reg sh shift_imm = \<lparr>immediate = 0, oreg = reg, oshift = sh,
     oextend = NO_EXTEND, shift_extent_imm = shift_imm\<rparr>"

definition Operand_extend :: "CPURegister \<Rightarrow> Extend \<Rightarrow> u32 \<Rightarrow> Operand" where
  "Operand_extend reg ext shift_imm = \<lparr>immediate = 0, oreg = reg, oshift = NO_SHIFT,
     oextend = ext, shift_extent_imm = shift_imm\<rparr>"

definition IsImmediate :: "Operand \<Rightarrow> bool" where
  "IsImmediate o1 = Is (oreg o1) InvalidRegister"

definition IsShiftedRegister :: "Operand \<Rightarrow> bool" where
  "IsShiftedRegister o1 = (oshift o1 \<noteq> NO_SHIFT)"

definition IsExtendedRegister :: "Operand \<Rightarrow> bool" where
  "IsExtendedRegister o1 = (oextend o1 \<noteq> NO_EXTEND)"

record MemOperand =
  mbase :: CPURegister
  regoffset :: CPURegister
  offset_m :: u64
  mshift :: Shift
  mextend :: Extend
  shift_extend_imm :: u32
  addrmode :: AddrMode

definition MemOperand_imm :: "CPURegister \<Rightarrow> u64 \<Rightarrow> AddrMode \<Rightarrow> MemOperand" where
  "MemOperand_imm base off am = \<lparr>mbase = base, regoffset = InvalidRegister, offset_m = off,
     mshift = NO_SHIFT, mextend = NO_EXTEND, shift_extend_imm = 0, addrmode = am\<rparr>"

definition MemOperand_extend :: "CPURegister \<Rightarrow> CPURegister \<Rightarrow> Extend \<Rightarrow> u32 \<Rightarrow> MemOperand" where
  "MemOperand_extend base ro ext extend_imm = \<lparr>mbase = base, regoffset = ro,
     offset_m = 0, mshift = NO_SHIFT, mextend = ext, shift_extend_imm = extend_imm,
     addrmode = Offset\<rparr>"

definition MemOperand_shift :: "CPURegister \<Rightarrow> CPURegister \<Rightarrow> Shift \<Rightarrow> u32 \<Rightarrow> MemOperand" where
  "MemOperand_shift base ro sh shift_imm = \<lparr>mbase = base, regoffset = ro,
     offset_m = 0, mshift = sh, mextend = NO_EXTEND, shift_extend_imm = shift_imm,
     addrmode = Offset\<rparr>"

text \<open>
  The constructor from an \<^verbatim>\<open>Operand\<close> leaves the offset uninitialised when the operand is neither a
  shifted nor an extended register: \<open>None\<close>.
\<close>

definition MemOperand_operand :: "CPURegister \<Rightarrow> Operand \<Rightarrow> AddrMode \<Rightarrow> MemOperand option" where
  "MemOperand_operand base off am =
     (if IsShiftedRegister off then
        Some \<lparr>mbase = base, regoffset = oreg off, offset_m = 0, mshift = oshift off,
          mextend = NO_EXTEND, shift_extend_imm = shift_extent_imm off, addrmode = am\<rparr>
      else if IsExtendedRegister off then
        Some \<lparr>mbase = base, regoffset = oreg off, offset_m = 0, mshift = NO_SHIFT,
          mextend = oextend off, shift_extend_imm = shift_extent_imm off, addrmode = am\<rparr>
      else None)"

definition IsImmediateOffset :: "MemOperand \<Rightarrow> bool" where
  "IsImmediateOffset a = (addrmode a = Offset)"

definition IsRegisterOffset :: "MemOperand \<Rightarrow> bool" where
  "IsRegisterOffset a = (addrmode a = Offset)"

definition IsPreIndex :: "MemOperand \<Rightarrow> bool" where
  "IsPreIndex a = (addrmode a = PreIndex)"

definition IsPostIndex :: "MemOperand \<Rightarrow> bool" where
  "IsPostIndex a = (addrmode a = PostIndex)"

section \<open>OpEncode\<close>

definition OpEncode_sf :: "CPURegister \<Rightarrow> u32" where
  "OpEncode_sf reg = (if Is64Bits reg then LeftShift 1 1 31 else 0)"

definition OpEncode_V :: "CPURegister \<Rightarrow> u32" where
  "OpEncode_V reg = (if IsVRegister reg then LeftShift 1 1 26 else 0)"

definition OpEncode_L :: "bool \<Rightarrow> u32" where
  "OpEncode_L load_or_store = (if load_or_store then LeftShift 1 1 22 else 0)"

definition OpEncode_shift :: "Shift \<Rightarrow> u32" where
  "OpEncode_shift sh = LeftShift (Shift_val sh) 2 22"

text \<open>The bit \<^verbatim>\<open>N\<close> is computed by the code and not used.\<close>

definition EncodeLogicalImmediate :: "CPURegister \<Rightarrow> CPURegister \<Rightarrow> Operand \<Rightarrow> u32" where
  "EncodeLogicalImmediate rd rn operand =
     (let imm = immediate operand;
          immr = ucast (bits_s imm 0 5) :: u32;
          imms = ucast (bits_s imm 6 11) :: u32
      in OpEncode_sf rd OR LeftShift immr 6 16 OR LeftShift imms 6 10 OR Rd rd OR Rn rn)"

definition EncodeLogicalShift :: "CPURegister \<Rightarrow> CPURegister \<Rightarrow> Operand \<Rightarrow> u32" where
  "EncodeLogicalShift rd rn operand =
     OpEncode_sf rd OR OpEncode_shift (oshift operand) OR Rm (oreg operand) OR
     LeftShift (shift_extent_imm operand) 6 10 OR Rn rn OR Rd rd"

definition OpEncode_LoadStorePair :: "u32 \<Rightarrow> CPURegister \<Rightarrow> CPURegister \<Rightarrow> MemOperand \<Rightarrow> u32" where
  "OpEncode_LoadStorePair op rt rt2 addr =
     (let opc = bits_s op 30 31;
          scale = 2 + (if IsRegister rt then unat (bit_s opc 1)
                       else if IsVRegister rt then unat opc else 0);
          imm7 = ucast (signed_drop_bit scale (offset_m addr)) :: u32
      in LeftShift imm7 7 15)"

definition OpEncode_scale :: "u32 \<Rightarrow> nat" where
  "OpEncode_scale op =
     (if op AND LoadStoreUnsignedOffsetFixed = LoadStoreUnsignedOffsetFixed
      then unat (bits_s op 30 31) else 0)"

section \<open>Labels, code buffer and assembler state\<close>

datatype ref_label_type_t = kLabelImm19

record ref_label_inst_t =
  ref_type :: ref_label_type_t
  ref_vmaddr :: u64
  ref_offset :: nat

record AssemblerPseudoLabel =
  label_pos :: u64
  relocated_pos :: nat
  ref_label_insts :: "ref_label_inst_t list"

record RelocLabel = AssemblerPseudoLabel +
  label_data :: "u8 list"

record Assembler =
  buffer :: "u8 list"
  data_labels :: "RelocLabel list"
  realized_addr :: u64

definition new_PseudoLabel :: AssemblerPseudoLabel where
  "new_PseudoLabel = \<lparr>label_pos = 0, relocated_pos = 0, ref_label_insts = []\<rparr>"

text \<open>The bytes of a value in the target's little-endian order.\<close>

fun bytes_of :: "nat \<Rightarrow> 'a::len word \<Rightarrow> u8 list" where
  "bytes_of 0 w = []"
| "bytes_of (Suc n) w = ucast w # bytes_of n (drop_bit 8 w)"

fun word_of_bytes :: "u8 list \<Rightarrow> 'a::len word" where
  "word_of_bytes [] = 0"
| "word_of_bytes (b # bs) = ucast b OR push_bit 8 (word_of_bytes bs)"

definition new_RelocLabel :: "u64 \<Rightarrow> RelocLabel" where
  "new_RelocLabel v = \<lparr>label_pos = 0, relocated_pos = 0, ref_label_insts = [], label_data = bytes_of 8 v\<rparr>"

definition new_Assembler :: "u64 \<Rightarrow> Assembler" where
  "new_Assembler address = \<lparr>buffer = [], data_labels = [], realized_addr = address\<rparr>"

definition link_to :: "ref_label_type_t \<Rightarrow> u64 \<Rightarrow> nat \<Rightarrow> 'b AssemblerPseudoLabel_scheme
    \<Rightarrow> 'b AssemblerPseudoLabel_scheme" where
  "link_to ty inst_vmaddr off lb =
     lb\<lparr>ref_label_insts := ref_label_insts lb @ [\<lparr>ref_type = ty, ref_vmaddr = inst_vmaddr, ref_offset = off\<rparr>]\<rparr>"

definition bind_to :: "nat \<Rightarrow> 'b AssemblerPseudoLabel_scheme \<Rightarrow> 'b AssemblerPseudoLabel_scheme" where
  "bind_to addr lb = lb\<lparr>relocated_pos := addr\<rparr>"

definition has_confused_instructions :: "'b AssemblerPseudoLabel_scheme \<Rightarrow> bool" where
  "has_confused_instructions lb = (ref_label_insts lb \<noteq> [])"

definition GetBufferSize :: "u8 list \<Rightarrow> nat" where
  "GetBufferSize buf = length buf"

definition EmitBuffer :: "u8 list \<Rightarrow> u8 list \<Rightarrow> u8 list" where
  "EmitBuffer bs buf = buf @ bs"

definition Emit32 :: "u32 \<Rightarrow> u8 list \<Rightarrow> u8 list" where
  "Emit32 data buf = EmitBuffer (bytes_of 4 data) buf"

definition Emit64 :: "u64 \<Rightarrow> u8 list \<Rightarrow> u8 list" where
  "Emit64 data buf = EmitBuffer (bytes_of 8 data) buf"

definition CodeBuffer_Copy :: "u8 list \<Rightarrow> u8 list" where
  "CodeBuffer_Copy buf = EmitBuffer buf []"

text \<open>A read or a rewrite past the end of the buffer is outside the vector's storage: \<open>None\<close>.\<close>

definition LoadInst :: "nat \<Rightarrow> u8 list \<Rightarrow> u32 option" where
  "LoadInst off buf =
     (if off + 4 \<le> length buf then Some (word_of_bytes (take 4 (drop off buf))) else None)"

definition RewriteInst :: "nat \<Rightarrow> u32 \<Rightarrow> u8 list \<Rightarrow> u8 list option" where
  "RewriteInst off instr buf =
     (if off + 4 \<le> length buf then Some (take off buf @ bytes_of 4 instr @ drop (off + 4) buf)
      else None)"

text \<open>\<^verbatim>\<open>AssemblerPseudoLabel::link_confused_instructions\<close>, a loop over the linked instructions.\<close>

fun link_insts :: "nat \<Rightarrow> ref_label_inst_t list \<Rightarrow> u8 list \<Rightarrow> u8 list option" where
  "link_insts pos [] buf = Some buf"
| "link_insts pos (r # rs) buf =
     (let fixup_offset = of_nat pos - of_nat (ref_offset r) in
      Option.bind (LoadInst (ref_offset r) buf) (\<lambda>inst.
      Option.bind (RewriteInst (ref_offset r)
          (case ref_type r of kLabelImm19 \<Rightarrow> encode_imm19_offset inst fixup_offset) buf) (\<lambda>buf'.
      link_insts pos rs buf')))"

definition link_confused_instructions :: "'b AssemblerPseudoLabel_scheme \<Rightarrow> u8 list \<Rightarrow> u8 list option" where
  "link_confused_instructions lb buf = link_insts (relocated_pos lb) (ref_label_insts lb) buf"

definition PseudoBind :: "'b AssemblerPseudoLabel_scheme \<Rightarrow> Assembler
    \<Rightarrow> ('b AssemblerPseudoLabel_scheme \<times> Assembler) option" where
  "PseudoBind label a =
     (let bound_offset = GetBufferSize (buffer a); label' = bind_to bound_offset label in
      if has_confused_instructions label' then
        Option.bind (link_confused_instructions label' (buffer a)) (\<lambda>buf.
        Some (label', a\<lparr>buffer := buf\<rparr>))
      else Some (label', a))"

text \<open>\<^verbatim>\<open>AssemblerBase::RelocBind\<close>: every label in turn is bound, and its data emitted.\<close>

fun RelocBind_from :: "nat \<Rightarrow> nat \<Rightarrow> Assembler \<Rightarrow> Assembler option" where
  "RelocBind_from i 0 a = Some a"
| "RelocBind_from i (Suc n) a =
     Option.bind (PseudoBind (data_labels a ! i) a) (\<lambda>(lb, a').
     RelocBind_from (Suc i) n
       (a'\<lparr>data_labels := (data_labels a')[i := lb],
           buffer := EmitBuffer (label_data lb) (buffer a')\<rparr>))"

definition RelocBind :: "Assembler \<Rightarrow> Assembler option" where
  "RelocBind a = RelocBind_from 0 (length (data_labels a)) a"

definition AppendRelocLabel :: "RelocLabel \<Rightarrow> Assembler \<Rightarrow> Assembler" where
  "AppendRelocLabel label a = a\<lparr>data_labels := data_labels a @ [label]\<rparr>"

definition SetRealizedAddress :: "u64 \<Rightarrow> Assembler \<Rightarrow> Assembler" where
  "SetRealizedAddress address a = a\<lparr>realized_addr := address\<rparr>"

section \<open>Emitters\<close>

definition Emit :: "u32 \<Rightarrow> Assembler \<Rightarrow> Assembler" where
  "Emit v a = a\<lparr>buffer := Emit32 v (buffer a)\<rparr>"

definition EmitInt64 :: "u64 \<Rightarrow> Assembler \<Rightarrow> Assembler" where
  "EmitInt64 v a = a\<lparr>buffer := Emit64 v (buffer a)\<rparr>"

definition nop :: "Assembler \<Rightarrow> Assembler" where
  "nop a = Emit 0xD503201F a"

definition brk :: "u32 \<Rightarrow> Assembler \<Rightarrow> Assembler" where
  "brk code a = Emit (BRK OR LeftShift code 16 5) a"

definition ret :: "Assembler \<Rightarrow> Assembler" where
  "ret a = Emit 0xD65F03C0 a"

definition adrp :: "CPURegister \<Rightarrow> u64 \<Rightarrow> Assembler \<Rightarrow> Assembler" where
  "adrp rd imm a =
     (let immlo = ucast (LeftShift (bits_s (signed_drop_bit 12 imm) 0 1) 2 29);
          immhi = ucast (LeftShift (bits_s (signed_drop_bit 12 imm) 2 20) 19 5)
      in Emit (ADRP OR Rd rd OR immlo OR immhi) a)"

definition AddSubImmediate :: "CPURegister \<Rightarrow> CPURegister \<Rightarrow> Operand \<Rightarrow> u32 \<Rightarrow> Assembler
    \<Rightarrow> Assembler option" where
  "AddSubImmediate rd rn operand op a =
     (if IsImmediate operand then
        let imm12 = ucast (LeftShift (immediate operand) 12 10)
        in Some (Emit (op OR Rd rd OR Rn rn OR imm12) a)
      else None)"

definition add :: "CPURegister \<Rightarrow> CPURegister \<Rightarrow> u64 \<Rightarrow> Assembler \<Rightarrow> Assembler option" where
  "add rd rn imm a =
     (if Is64Bits rd \<and> Is64Bits rn then AddSubImmediate rd rn (Operand_imm imm) ADD_x_imm a
      else AddSubImmediate rd rn (Operand_imm imm) ADD_w_imm a)"

definition sub :: "CPURegister \<Rightarrow> CPURegister \<Rightarrow> u64 \<Rightarrow> Assembler \<Rightarrow> Assembler option" where
  "sub rd rn imm a =
     (if Is64Bits rd \<and> Is64Bits rn then AddSubImmediate rd rn (Operand_imm imm) SUB_x_imm a
      else AddSubImmediate rd rn (Operand_imm imm) SUB_w_imm a)"

definition b_branch :: "u64 \<Rightarrow> Assembler \<Rightarrow> Assembler" where
  "b_branch imm a = (let imm26 = ucast (bits_s (signed_drop_bit 2 imm) 0 25) in Emit (B OR imm26) a)"

definition br :: "CPURegister \<Rightarrow> Assembler \<Rightarrow> Assembler" where
  "br rn a = Emit (BR OR Rn rn) a"

definition blr :: "CPURegister \<Rightarrow> Assembler \<Rightarrow> Assembler" where
  "blr rn a = Emit (BLR OR Rn rn) a"

definition EmitLoadRegLiteral :: "u32 \<Rightarrow> CPURegister \<Rightarrow> u64 \<Rightarrow> Assembler \<Rightarrow> Assembler" where
  "EmitLoadRegLiteral op rt imm a = Emit (op OR ucast (LeftShift imm 26 5) OR Rt rt) a"

definition ldr_literal :: "CPURegister \<Rightarrow> u64 \<Rightarrow> Assembler \<Rightarrow> Assembler option" where
  "ldr_literal rt imm a =
     (case reg_type rt of
        kRegister_32 \<Rightarrow> Some (EmitLoadRegLiteral LDR_w_literal rt imm a)
      | kRegister_64 \<Rightarrow> Some (EmitLoadRegLiteral LDR_x_literal rt imm a)
      | kSIMD_FP_Register_32 \<Rightarrow> Some (EmitLoadRegLiteral LDR_s_literal rt imm a)
      | kSIMD_FP_Register_64 \<Rightarrow> Some (EmitLoadRegLiteral LDR_d_literal rt imm a)
      | kSIMD_FP_Register_128 \<Rightarrow> Some (EmitLoadRegLiteral LDR_q_literal rt imm a)
      | _ \<Rightarrow> None)"

definition LoadStore :: "u32 \<Rightarrow> CPURegister \<Rightarrow> MemOperand \<Rightarrow> Assembler \<Rightarrow> Assembler option" where
  "LoadStore op rt addr a =
     (if IsImmediateOffset addr then
        let imm12 = signed_drop_bit (OpEncode_scale (LoadStoreUnsignedOffsetFixed OR op)) (offset_m addr)
        in Some (Emit (LoadStoreUnsignedOffsetFixed OR op OR ucast (LeftShift imm12 12 10) OR
             Rn (mbase addr) OR Rt rt) a)
      else if IsRegisterOffset addr then None else None)"

definition ldr :: "CPURegister \<Rightarrow> MemOperand \<Rightarrow> Assembler \<Rightarrow> Assembler option" where
  "ldr rt src a = LoadStore LDR_x rt src a"

definition str :: "CPURegister \<Rightarrow> MemOperand \<Rightarrow> Assembler \<Rightarrow> Assembler option" where
  "str rt src a = LoadStore STR_x rt src a"

definition LoadStorePair :: "u32 \<Rightarrow> CPURegister \<Rightarrow> CPURegister \<Rightarrow> MemOperand \<Rightarrow> Assembler \<Rightarrow> Assembler" where
  "LoadStorePair op rt rt2 addr a =
     (let combine_fields_op = OpEncode_LoadStorePair op rt rt2 addr OR Rt2 rt2 OR Rn (mbase addr) OR Rt rt;
          addrmodeop = (if IsImmediateOffset addr then LoadStorePairOffsetFixed
                        else if IsPreIndex addr then LoadStorePairPreIndexFixed
                        else LoadStorePairPostIndexFixed)
      in Emit (op OR addrmodeop OR combine_fields_op) a)"

definition ldp :: "CPURegister \<Rightarrow> CPURegister \<Rightarrow> MemOperand \<Rightarrow> Assembler \<Rightarrow> Assembler option" where
  "ldp rt rt2 src a =
     (if reg_type rt = kSIMD_FP_Register_128 then Some (LoadStorePair LDP_q rt rt2 src a)
      else if reg_type rt = kRegister_64 then Some (LoadStorePair LDP_x rt rt2 src a)
      else None)"

definition stp :: "CPURegister \<Rightarrow> CPURegister \<Rightarrow> MemOperand \<Rightarrow> Assembler \<Rightarrow> Assembler option" where
  "stp rt rt2 dst a =
     (if reg_type rt = kSIMD_FP_Register_128 then Some (LoadStorePair STP_q rt rt2 dst a)
      else if reg_type rt = kRegister_64 then Some (LoadStorePair STP_x rt rt2 dst a)
      else None)"

definition LogicalImmediate :: "CPURegister \<Rightarrow> CPURegister \<Rightarrow> Operand \<Rightarrow> u32 \<Rightarrow> Assembler \<Rightarrow> Assembler" where
  "LogicalImmediate rd rn operand op a = Emit (op OR EncodeLogicalImmediate rd rn operand) a"

definition LogicalShift :: "CPURegister \<Rightarrow> CPURegister \<Rightarrow> Operand \<Rightarrow> u32 \<Rightarrow> Assembler \<Rightarrow> Assembler" where
  "LogicalShift rd rn operand op a =
     Emit (op OR LogicalShiftedFixed OR EncodeLogicalShift rd rn operand) a"

definition Logical :: "CPURegister \<Rightarrow> CPURegister \<Rightarrow> Operand \<Rightarrow> u32 \<Rightarrow> Assembler \<Rightarrow> Assembler" where
  "Logical rd rn operand op a =
     (if IsImmediate operand then LogicalImmediate rd rn operand op a
      else LogicalShift rd rn operand op a)"

definition orr :: "CPURegister \<Rightarrow> CPURegister \<Rightarrow> Operand \<Rightarrow> Assembler \<Rightarrow> Assembler" where
  "orr rd rn operand a = Logical rd rn operand ORR a"

definition mov :: "CPURegister \<Rightarrow> CPURegister \<Rightarrow> Assembler \<Rightarrow> Assembler option" where
  "mov rd rn a =
     (if Is rd SP \<or> Is rn SP then add rd rn 0 a
      else if Is64Bits rd then Some (orr rd xzr (Operand_shift rn LSL 0) a)
      else Some (orr rd wzr (Operand_shift rn LSL 0) a))"

definition MoveWide :: "CPURegister \<Rightarrow> u64 \<Rightarrow> int \<Rightarrow> u32 \<Rightarrow> Assembler \<Rightarrow> Assembler" where
  "MoveWide rd imm shift op a =
     (let sh = (if shift > 0 then shift div 16 else 0);
          imm16 = ucast (LeftShift imm 16 5)
      in Emit (MoveWideImmediateFixed OR op OR OpEncode_sf rd OR LeftShift (word_of_int sh) 2 21 OR
           imm16 OR Rd rd) a)"

definition movk :: "CPURegister \<Rightarrow> u64 \<Rightarrow> int \<Rightarrow> Assembler \<Rightarrow> Assembler" where
  "movk rd imm shift a = MoveWide rd imm shift MOVK a"

definition movn :: "CPURegister \<Rightarrow> u64 \<Rightarrow> int \<Rightarrow> Assembler \<Rightarrow> Assembler" where
  "movn rd imm shift a = MoveWide rd imm shift MOVN a"

definition movz :: "CPURegister \<Rightarrow> u64 \<Rightarrow> int \<Rightarrow> Assembler \<Rightarrow> Assembler" where
  "movz rd imm shift a = MoveWide rd imm shift MOVZ a"

section \<open>TurboAssembler and CodeGen\<close>

definition Low16Bits :: "u32 \<Rightarrow> u16" where "Low16Bits v = ucast (v AND 0xffff)"
definition High16Bits :: "u32 \<Rightarrow> u16" where "High16Bits v = ucast (drop_bit 16 v)"
definition Low32Bits :: "u64 \<Rightarrow> u32" where "Low32Bits v = ucast v"
definition High32Bits :: "u64 \<Rightarrow> u32" where "High32Bits v = ucast (drop_bit 32 v)"

definition Mov :: "CPURegister \<Rightarrow> u64 \<Rightarrow> Assembler \<Rightarrow> Assembler" where
  "Mov rd imm a =
     (let w0 = Low32Bits imm; w1 = High32Bits imm;
          h0 = Low16Bits w0; h1 = High16Bits w0; h2 = Low16Bits w1; h3 = High16Bits w1;
          a1 = movz rd (ucast h0) 0 a;
          a2 = movk rd (ucast h1) 16 a1;
          a3 = movk rd (ucast h2) 32 a2
      in movk rd (ucast h3) 48 a3)"

definition CallFunction :: "u64 \<Rightarrow> Assembler \<Rightarrow> Assembler" where
  "CallFunction function a = blr TMP_REG_0 (Mov TMP_REG_0 function a)"

definition AdrpAdd :: "CPURegister \<Rightarrow> u64 \<Rightarrow> u64 \<Rightarrow> Assembler \<Rightarrow> Assembler option" where
  "AdrpAdd rd from to a =
     (let from_PAGE = ALIGN_FLOOR from 0x1000;
          to_PAGE = ALIGN_FLOOR to 0x1000;
          to_PAGEOFF = to mod 0x1000
      in add rd rd to_PAGEOFF (adrp rd (to_PAGE - from_PAGE) a))"

text \<open>
  \<^verbatim>\<open>TurboAssembler::Ldr\<close>. The difference of the positions is truncated to \<^verbatim>\<open>int\<close> and widened again.
\<close>

definition Ldr :: "CPURegister \<Rightarrow> 'b AssemblerPseudoLabel_scheme \<Rightarrow> Assembler
    \<Rightarrow> ('b AssemblerPseudoLabel_scheme \<times> Assembler) option" where
  "Ldr rt label a =
     (if relocated_pos label \<noteq> 0 then
        let offset = of_nat (relocated_pos label) - of_nat (GetBufferSize (buffer a)) :: u32
        in Option.bind (ldr_literal rt (scast offset) a) (\<lambda>a'. Some (label, a'))
      else
        let label' = link_to kLabelImm19 0 (GetBufferSize (buffer a)) label
        in Option.bind (ldr_literal rt 0 a) (\<lambda>a'. Some (label', a')))"

text \<open>\<open>Ldr\<close> through a pointer to the data label with index \<open>i\<close>.\<close>

definition Ldr_at :: "CPURegister \<Rightarrow> nat \<Rightarrow> Assembler \<Rightarrow> Assembler option" where
  "Ldr_at rt i a =
     Option.bind (Ldr rt (data_labels a ! i) a) (\<lambda>(lb, a').
     Some (a'\<lparr>data_labels := (data_labels a')[i := lb]\<rparr>))"

definition LiteralLdrBranch :: "u64 \<Rightarrow> Assembler \<Rightarrow> Assembler option" where
  "LiteralLdrBranch address a =
     (let dst_label = length (data_labels a);
          a1 = AppendRelocLabel (new_RelocLabel address) a
      in Option.bind (Ldr_at TMP_REG_0 dst_label a1) (\<lambda>a2.
         RelocBind (br TMP_REG_0 a2)))"

end
