(* ===== verification/A64_Reloc.thy ===== *)
theory A64_Reloc
  imports A64_Asm
begin

text \<open>
  Relocation of arm64 code, \<^verbatim>\<open>InstructionRelocationARM64.cc\<close>: the instructions of the block that a
  hook overwrites are rewritten so that they do the same at another address. One definition per
  branch of the loop body, then the loop, then the branch back and the literal pool.

  The model reads the original code from the bytes of memory; the cursor is the offset into the
  block. \<^verbatim>\<open>UNIMPLEMENTED()\<close> is an \<^verbatim>\<open>assert(0)\<close>: it ends the program (\<open>None\<close>), and with
  \<^verbatim>\<open>NDEBUG\<close> (the parameter \<open>ndebug\<close>) it does nothing. The fields \<^verbatim>\<open>mapped_addr\<close> and
  \<^verbatim>\<open>label_map\<close> are only used in code that is not compiled.
\<close>

record relo_ctx =
  relo_buffer :: u64
  buffer_cursor :: nat
  buffer_size :: nat
  relo_src_vmaddr :: u64
  relo_dst_vmaddr :: u64
  relocated_offset_map :: "nat \<rightharpoonup> nat"

definition relo_cur_src_vmaddr :: "relo_ctx \<Rightarrow> u64" where
  "relo_cur_src_vmaddr ctx = relo_src_vmaddr ctx + of_nat (buffer_cursor ctx)"

definition relo_cur_dst_vmaddr :: "relo_ctx \<Rightarrow> Assembler \<Rightarrow> u64" where
  "relo_cur_dst_vmaddr ctx a = relo_dst_vmaddr ctx + of_nat (GetBufferSize (buffer a))"

definition arm64_trunc_page :: "u64 \<Rightarrow> u64" where
  "arm64_trunc_page x = x AND NOT (0x1000 - 1)"

definition UNIMPLEMENTED :: "bool \<Rightarrow> 'a \<Rightarrow> 'a option" where
  "UNIMPLEMENTED ndebug a = (if ndebug then Some a else None)"

section \<open>One instruction\<close>

text \<open>The instruction is at address \<open>cur\<close> of the original code.\<close>

definition relo_b_bl :: "u64 \<Rightarrow> u32 \<Rightarrow> Assembler \<Rightarrow> Assembler option" where
  "relo_b_bl cur inst a =
     (let offset = decode_imm26_offset inst;
          dst_vmaddr = cur + offset;
          dst_label = length (data_labels a);
          a1 = AppendRelocLabel (new_RelocLabel dst_vmaddr) a
      in Option.bind (Ldr_at TMP_REG_0 dst_label a1) (\<lambda>a2.
         Some (if inst AND UnconditionalBranchMask = BL then blr TMP_REG_0 a2 else br TMP_REG_0 a2)))"

definition relo_ldr_literal :: "bool \<Rightarrow> u64 \<Rightarrow> u32 \<Rightarrow> Assembler \<Rightarrow> Assembler option" where
  "relo_ldr_literal ndebug cur inst a =
     (let offset = decode_imm19_offset inst;
          dst_vmaddr = cur + offset;
          rt = decode_rt inst;
          opc = bits_s inst 30 31;
          a1 = Mov TMP_REG_0 dst_vmaddr a
      in if opc = 0 then ldr (W rt) (MemOperand_imm TMP_REG_0 0 Offset) a1
         else if opc = 1 then ldr (X rt) (MemOperand_imm TMP_REG_0 0 Offset) a1
         else UNIMPLEMENTED ndebug a1)"

definition relo_adr :: "u64 \<Rightarrow> u32 \<Rightarrow> Assembler \<Rightarrow> Assembler option" where
  "relo_adr cur inst a =
     (let offset = decode_immhi_immlo_offset inst;
          dst_vmaddr = cur + offset;
          rd = decode_rd inst
      in Some (Mov (X rd) dst_vmaddr a))"

definition relo_adrp :: "u64 \<Rightarrow> u32 \<Rightarrow> Assembler \<Rightarrow> Assembler option" where
  "relo_adrp cur inst a =
     (let offset = decode_immhi_immlo_zero12_offset inst;
          dst_vmaddr = arm64_trunc_page (cur + offset);
          rd = decode_rd inst
      in Some (Mov (X rd) dst_vmaddr a))"

text \<open>The branch around the indirect jump, shared by the three conditional branches.\<close>

definition relo_skip_jump :: "u64 \<Rightarrow> u32 \<Rightarrow> Assembler \<Rightarrow> Assembler option" where
  "relo_skip_jump dst_vmaddr branch_instr a =
     (let dst_label = length (data_labels a);
          a1 = Emit branch_instr (AppendRelocLabel (new_RelocLabel dst_vmaddr) a)
      in Option.bind (Ldr_at TMP_REG_0 dst_label a1) (\<lambda>a2. Some (br TMP_REG_0 a2)))"

definition relo_b_cond :: "u64 \<Rightarrow> u32 \<Rightarrow> Assembler \<Rightarrow> Assembler option" where
  "relo_b_cond cur inst a =
     (let offset = decode_imm19_offset inst;
          dst_vmaddr = cur + offset;
          cond = ucast (bits_s inst 0 3) XOR 1;
          branch_instr = set_bits_s inst 0 3 cond;
          imm19 = drop_bit 2 (4 * 3);
          branch_instr' = set_bits_s branch_instr 5 23 imm19
      in relo_skip_jump dst_vmaddr branch_instr' a)"

definition relo_compare_b :: "u64 \<Rightarrow> u32 \<Rightarrow> Assembler \<Rightarrow> Assembler option" where
  "relo_compare_b cur inst a =
     (let offset = decode_imm19_offset inst;
          dst_vmaddr = cur + offset;
          op = bit_s inst 24 XOR 1;
          branch_instr = set_bit_s inst 24 op;
          imm19 = drop_bit 2 (4 * 3);
          branch_instr' = set_bits_s branch_instr 5 23 imm19
      in relo_skip_jump dst_vmaddr branch_instr' a)"

definition relo_test_b :: "u64 \<Rightarrow> u32 \<Rightarrow> Assembler \<Rightarrow> Assembler option" where
  "relo_test_b cur inst a =
     (let offset = decode_imm14_offset inst;
          dst_vmaddr = cur + offset;
          op = bit_s inst 24 XOR 1;
          branch_instr = set_bit_s inst 24 op;
          imm14 = drop_bit 2 (4 * 3);
          branch_instr' = set_bits_s branch_instr 5 18 imm14
      in relo_skip_jump dst_vmaddr branch_instr' a)"

definition relo_inst :: "bool \<Rightarrow> u64 \<Rightarrow> u32 \<Rightarrow> Assembler \<Rightarrow> Assembler option" where
  "relo_inst ndebug cur inst a =
     (if inst_is_b_bl inst then relo_b_bl cur inst a
      else if inst_is_ldr_literal inst then relo_ldr_literal ndebug cur inst a
      else if inst_is_adr inst then relo_adr cur inst a
      else if inst_is_adrp inst then relo_adrp cur inst a
      else if inst_is_b_cond inst then relo_b_cond cur inst a
      else if inst_is_compare_b inst then relo_compare_b cur inst a
      else if inst_is_test_b inst then relo_test_b cur inst a
      else Some (Emit inst a))"

section \<open>The block\<close>

function relo_loop :: "bool \<Rightarrow> (addr \<Rightarrow> u8) \<Rightarrow> relo_ctx \<Rightarrow> Assembler \<Rightarrow> (relo_ctx \<times> Assembler) option" where
  "relo_loop ndebug m ctx a =
     (if buffer_cursor ctx < buffer_size ctx then
        let orig_off = buffer_cursor ctx;
            relocated_off = GetBufferSize (buffer a);
            ctx1 = ctx\<lparr>relocated_offset_map := (relocated_offset_map ctx)(orig_off \<mapsto> relocated_off)\<rparr>;
            inst = get_le m 4 (relo_buffer ctx + of_nat (buffer_cursor ctx))
        in Option.bind (relo_inst ndebug (relo_cur_src_vmaddr ctx1) inst a) (\<lambda>a'.
           relo_loop ndebug m (ctx1\<lparr>buffer_cursor := buffer_cursor ctx1 + 4\<rparr>) a')
      else Some (ctx, a))"
  by pat_completeness auto

termination
  by (relation "measure (\<lambda>(_, _, ctx, _). buffer_size ctx - buffer_cursor ctx)") auto

declare relo_loop.simps [simp del]

text \<open>
  \<^verbatim>\<open>relo_relocate\<close> up to the binding of the labels. The block at \<open>origin_addr\<close> is reset to the
  length that was consumed, and the branch back goes to its end.
\<close>

definition relo_assemble :: "bool \<Rightarrow> (addr \<Rightarrow> u8) \<Rightarrow> u64 \<Rightarrow> relo_ctx \<Rightarrow> bool
    \<Rightarrow> (relo_ctx \<times> nat \<times> Assembler) option" where
  "relo_assemble ndebug m origin_addr ctx branch =
     Option.bind (relo_loop ndebug m ctx (new_Assembler 0)) (\<lambda>(ctx', a).
     (let new_origin_len = buffer_cursor ctx' in
      Option.bind (if branch then LiteralLdrBranch (origin_addr + of_nat new_origin_len) a else Some a) (\<lambda>a1.
      Option.bind (RelocBind a1) (\<lambda>a2. Some (ctx', new_origin_len, a2)))))"

end
