(* ===== verification/A64_Layout.thy ===== *)
theory A64_Layout
  imports A64_Reloc
begin

text \<open>
  The assembler as a list of words: every buffer of the arm64 back end is a sequence of 32-bit
  words (an 8-byte literal is two of them), and the labels of the literal pool are pairs of the
  index of the load and the value. The lemmas show that the byte-level operations of the code
  buffer, the binding of the labels and the relocation of an instruction are operations on these
  lists.
\<close>

section \<open>Bytes and words\<close>

definition enc :: "u32 list \<Rightarrow> u8 list" where
  "enc ws = concat (map (bytes_of 4) ws)"

lemma length_bytes_of [simp]: "length (bytes_of n w) = n"
  by (induction n arbitrary: w) auto

lemma enc_simps [simp]: "enc [] = []" "enc (w # ws) = bytes_of 4 w @ enc ws"
  by (simp_all add: enc_def)

lemma enc_append [simp]: "enc (us @ ws) = enc us @ enc ws"
  by (simp add: enc_def)

lemma length_enc [simp]: "length (enc ws) = 4 * length ws"
  by (induction ws) auto

lemma bit_word_of_bytes:
  "bit (word_of_bytes bs :: 'a::len word) n \<longleftrightarrow> n < LENGTH('a) \<and> n div 8 < length bs \<and> bit (bs ! (n div 8)) (n mod 8)"
proof (induction bs arbitrary: n)
  case (Cons b bs)
  show ?case
  proof (cases "n < 8")
    case True
    then show ?thesis by (auto simp: bit_simps)
  next
    case False
    then obtain m where m: "n = m + 8" by (metis add.commute le_Suc_ex not_less)
    have "\<not> bit b n" using False bit_imp_le_length [of b n] by auto
    moreover have "(m + 8) div 8 = Suc (m div 8)" by simp
    ultimately show ?thesis using Cons.IH [of m] by (auto simp: m bit_simps)
  qed
qed simp

lemma nth_bytes_of: "i < n \<Longrightarrow> bytes_of n w ! i = ucast (drop_bit (8 * i) w)"
proof (induction n arbitrary: w i)
  case (Suc n)
  then show ?case by (cases i) (auto simp: drop_bit_drop_bit add.commute)
qed simp

lemma word_of_bytes_of:
  "LENGTH('a) \<le> 8 * n \<Longrightarrow> word_of_bytes (bytes_of n (w :: 'a::len word)) = w"
proof (rule bit_word_eqI)
  fix i assume i: "LENGTH('a) \<le> 8 * n" "i < LENGTH('a)"
  then have "i div 8 < n" by auto
  then show "bit (word_of_bytes (bytes_of n w) :: 'a word) i \<longleftrightarrow> bit w i"
    using i by (auto simp: bit_word_of_bytes nth_bytes_of bit_simps)
qed

definition lo32 :: "u64 \<Rightarrow> u32" where "lo32 v = ucast v"
definition hi32 :: "u64 \<Rightarrow> u32" where "hi32 v = ucast (drop_bit 32 v)"

lemma bytes_of_8: "bytes_of 8 (v :: u64) = enc [lo32 v, hi32 v]"
proof (rule nth_equalityI)
  fix i assume "i < length (bytes_of 8 v)"
  then have i: "i < 8" by simp
  then have "bytes_of 8 v ! i = ucast (drop_bit (8 * i) v)" by (rule nth_bytes_of)
  also have "\<dots> = enc [lo32 v, hi32 v] ! i"
    by (rule bit_word_eqI)
       (use i in \<open>auto simp: nth_append nth_bytes_of lo32_def hi32_def bit_simps algebra_simps\<close>)
  finally show "bytes_of 8 v ! i = enc [lo32 v, hi32 v] ! i" .
qed simp

lemma drop_enc: "drop (4 * k) (enc ws) = enc (drop k ws)"
proof (induction ws arbitrary: k)
  case (Cons w ws)
  then show ?case by (cases k) auto
qed simp

lemma take_enc: "take (4 * k) (enc ws) = enc (take k ws)"
proof (induction ws arbitrary: k)
  case (Cons w ws)
  then show ?case by (cases k) auto
qed simp

lemma LoadInst_enc: "k < length ws \<Longrightarrow> LoadInst (4 * k) (enc ws) = Some (ws ! k)"
proof -
  assume k: "k < length ws"
  then have "take 4 (drop (4 * k) (enc ws)) = bytes_of 4 (ws ! k)"
    by (simp add: drop_enc Cons_nth_drop_Suc [symmetric])
  then show ?thesis using k by (simp add: LoadInst_def word_of_bytes_of)
qed

lemma RewriteInst_enc: "k < length ws \<Longrightarrow> RewriteInst (4 * k) w (enc ws) = Some (enc (ws[k := w]))"
proof -
  assume k: "k < length ws"
  have "drop (4 * k + 4) (enc ws) = enc (drop (Suc k) ws)"
    using drop_enc [of "Suc k" ws] by (simp add: add.commute)
  then show ?thesis using k by (simp add: RewriteInst_def take_enc upd_conv_take_nth_drop)
qed

section \<open>The literal pool\<close>

type_synonym lits = "(nat \<times> u64) list"

text \<open>The label of a literal: one load, at word \<open>k\<close> of the buffer, and the value.\<close>

definition lit_label :: "RelocLabel \<Rightarrow> nat \<times> u64 \<Rightarrow> bool" where
  "lit_label lb kv \<longleftrightarrow> ref_label_insts lb = [\<lparr>ref_type = kLabelImm19, ref_vmaddr = 0, ref_offset = 4 * fst kv\<rparr>] \<and>
     label_data lb = bytes_of 8 (snd kv)"

definition asm_rel :: "Assembler \<Rightarrow> u32 list \<Rightarrow> lits \<Rightarrow> bool" where
  "asm_rel a ws ls \<longleftrightarrow> buffer a = enc ws \<and> list_all2 lit_label (data_labels a) ls"

definition unbound :: "Assembler \<Rightarrow> bool" where
  "unbound a \<longleftrightarrow> (\<forall>lb\<in>set (data_labels a). relocated_pos lb = 0)"

definition patch :: "u32 list \<Rightarrow> nat \<Rightarrow> u32 list" where
  "patch ws k = ws[k := encode_imm19_offset (ws ! k) (of_nat (4 * length ws) - of_nat (4 * k))]"

fun bind_lits :: "u32 list \<Rightarrow> lits \<Rightarrow> u32 list" where
  "bind_lits ws [] = ws"
| "bind_lits ws ((k, v) # ls) = bind_lits (patch ws k @ [lo32 v, hi32 v]) ls"

lemma PseudoBind_lit:
  assumes "lit_label lb (k, v)" "buffer a = enc ws" "k < length ws"
  shows "PseudoBind lb a =
    Some (lb\<lparr>relocated_pos := 4 * length ws\<rparr>, a\<lparr>buffer := enc (patch ws k)\<rparr>)"
  using assms
  by (simp add: PseudoBind_def lit_label_def bind_to_def has_confused_instructions_def
      link_confused_instructions_def GetBufferSize_def LoadInst_enc RewriteInst_enc patch_def)

lemma lit_label_bound [simp]: "lit_label (lb\<lparr>relocated_pos := p\<rparr>) kv = lit_label lb kv"
  by (simp add: lit_label_def)

lemma RelocBind_from_lits:
  assumes "buffer a = enc ws" "list_all2 lit_label (data_labels a) (ls @ rs)"
    "\<forall>(k, v)\<in>set rs. k < length ws"
  shows "\<exists>a'. RelocBind_from (length ls) (length rs) a = Some a' \<and>
    asm_rel a' (bind_lits ws rs) (ls @ rs) \<and> realized_addr a' = realized_addr a"
  using assms
proof (induction rs arbitrary: a ws ls)
  case Nil
  then show ?case by (simp add: asm_rel_def)
next
  case (Cons r rs)
  obtain k v where r: "r = (k, v)" by fastforce
  let ?i = "length ls"
  let ?lb = "(data_labels a ! ?i)\<lparr>relocated_pos := 4 * length ws\<rparr>"
  let ?ws = "patch ws k @ [lo32 v, hi32 v]"
  let ?a = "a\<lparr>data_labels := (data_labels a)[?i := ?lb], buffer := enc ?ws\<rparr>"
  have lit: "lit_label (data_labels a ! ?i) (k, v)"
    using list_all2_nthD2 [OF Cons.prems(2), of ?i] by (simp add: r nth_append)
  have bind: "PseudoBind (data_labels a ! ?i) a = Some (?lb, a\<lparr>buffer := enc (patch ws k)\<rparr>)"
    by (rule PseudoBind_lit [OF lit Cons.prems(1)]) (use Cons.prems(3) r in auto)
  have step: "RelocBind_from ?i (length (r # rs)) a = RelocBind_from (length (ls @ [r])) (length rs) ?a"
    using lit by (simp add: bind EmitBuffer_def lit_label_def bytes_of_8)
  have labels: "list_all2 lit_label (data_labels ?a) ((ls @ [r]) @ rs)"
    using list_all2_update_cong [OF Cons.prems(2), of "?lb" "(k, v)" ?i] lit
    by (simp add: r list_update_append)
  have "\<forall>(k, v)\<in>set rs. k < length ?ws" using Cons.prems(3) by (auto simp: patch_def)
  from Cons.IH [OF _ labels this] show ?case unfolding step by (simp add: r)
qed

lemma RelocBind_lits:
  assumes "asm_rel a ws ls" "\<forall>(k, v)\<in>set ls. k < length ws"
  shows "\<exists>a'. RelocBind a = Some a' \<and> asm_rel a' (bind_lits ws ls) ls \<and> realized_addr a' = realized_addr a"
  using RelocBind_from_lits [of a ws "[]" ls] assms
  by (auto simp: asm_rel_def RelocBind_def list_all2_lengthD)

lemma length_patch [simp]: "length (patch ws k) = length ws"
  by (simp add: patch_def)

lemma length_bind_lits [simp]: "length (bind_lits ws ls) = length ws + 2 * length ls"
  by (induction ws ls rule: bind_lits.induct) auto

lemma bind_lits_keeps:
  "j < length ws \<Longrightarrow> j \<notin> fst ` set ls \<Longrightarrow> bind_lits ws ls ! j = ws ! j"
  by (induction ws ls rule: bind_lits.induct) (auto simp: nth_append patch_def)

text \<open>Where the loads and the values of the pool end up.\<close>

lemma bind_lits_load:
  assumes "distinct (map fst ls)" "\<forall>(k, v)\<in>set ls. k < length ws" "i < length ls"
  shows "bind_lits ws ls ! fst (ls ! i) =
      encode_imm19_offset (ws ! fst (ls ! i)) (of_nat (4 * (length ws + 2 * i)) - of_nat (4 * fst (ls ! i)))"
  using assms
proof (induction ws ls arbitrary: i rule: bind_lits.induct)
  case (2 ws k v ls)
  let ?ws = "patch ws k @ [lo32 v, hi32 v]"
  show ?case
  proof (cases i)
    case 0
    have "bind_lits ?ws ls ! k = ?ws ! k"
      by (rule bind_lits_keeps) (use 2(2,3) in \<open>auto simp: image_iff\<close>)
    then show ?thesis using 2(3) 0 by (simp add: nth_append patch_def)
  next
    case (Suc j)
    have j: "j < length ls" using 2(4) Suc by simp
    have "ls ! j \<in> set ls" using j by simp
    then have "fst (ls ! j) \<noteq> k" "fst (ls ! j) < length ws" using 2(2,3) by force+
    moreover have "\<forall>(k, v)\<in>set ls. k < length ?ws" using 2(3) by auto
    ultimately show ?thesis
      using 2(1) [of j] 2(2) j Suc by (simp add: nth_append patch_def algebra_simps)
  qed
qed simp

lemma bind_lits_value:
  assumes "\<forall>(k, v)\<in>set ls. k < length ws" "i < length ls"
  shows "bind_lits ws ls ! (length ws + 2 * i) = lo32 (snd (ls ! i)) \<and>
    bind_lits ws ls ! (length ws + 2 * i + 1) = hi32 (snd (ls ! i))"
  using assms
proof (induction ws ls arbitrary: i rule: bind_lits.induct)
  case (2 ws k v ls)
  let ?ws = "patch ws k @ [lo32 v, hi32 v]"
  show ?case
  proof (cases i)
    case 0
    have "bind_lits ?ws ls ! j = ?ws ! j" if "length ws \<le> j" "j < length ws + 2" for j
      by (rule bind_lits_keeps) (use that 2(2) in \<open>auto simp: image_iff\<close>)
    from this [of "length ws"] this [of "length ws + 1"] show ?thesis
      using 0 by (simp add: nth_append)
  next
    case (Suc j)
    have "\<forall>(k, v)\<in>set ls. k < length ?ws" using 2(2) by auto
    from 2(1) [OF this, of j] show ?thesis using Suc 2(3) by (simp add: algebra_simps)
  qed
qed simp

lemma encode_imm19_twice:
  "encode_imm19_offset (encode_imm19_offset w off) off' = encode_imm19_offset w off'"
  unfolding encode_imm19_offset_def Let_def
  by (rule bit_word_eqI) (auto simp: bit_set_bits_u bit_shifted_bits)

section \<open>Emitters as words\<close>

definition mov_wide_word :: "u32 \<Rightarrow> u32 \<Rightarrow> u32 \<Rightarrow> u16 \<Rightarrow> u32" where
  "mov_wide_word op sh rd h =
     MoveWideImmediateFixed OR op OR 0x80000000 OR push_bit 21 sh OR push_bit 5 (ucast h) OR rd"

definition mov_words :: "u32 \<Rightarrow> u64 \<Rightarrow> u32 list" where
  "mov_words rd v =
     [mov_wide_word MOVZ 0 rd (ucast v), mov_wide_word MOVK 1 rd (ucast (drop_bit 16 v)),
      mov_wide_word MOVK 2 rd (ucast (drop_bit 32 v)), mov_wide_word MOVK 3 rd (ucast (drop_bit 48 v))]"

lemma Emit_words: "asm_rel a ws ls \<Longrightarrow> asm_rel (Emit w a) (ws @ [w]) ls"
  by (simp add: asm_rel_def Emit_def Emit32_def EmitBuffer_def)

lemma Emit_unbound [simp]: "unbound (Emit w a) = unbound a"
  by (simp add: unbound_def Emit_def)

lemma MoveWide_word:
  "MoveWide (X rd) (ucast (h :: u16)) (16 * int n) op a = Emit (mov_wide_word op (take_bit 2 (of_nat n)) rd h) a"
proof -
  have "take_bit 16 (ucast h :: u64) = ucast h"
    by (rule bit_word_eqI) (auto simp: bit_simps dest: bit_imp_le_length)
  moreover have "ucast (push_bit 5 (ucast h :: u64)) = (push_bit 5 (ucast h) :: u32)"
    by (rule bit_word_eqI) (auto simp: bit_simps)
  ultimately show ?thesis
    by (simp add: MoveWide_def mov_wide_word_def LeftShift_eq OpEncode_sf_def Is64Bits_def X_def Rd_def
        or.assoc)
qed

lemma Mov_words:
  assumes "asm_rel a ws ls"
  shows "asm_rel (Mov (X rd) v a) (ws @ mov_words rd v) ls" "unbound (Mov (X rd) v a) = unbound a"
proof -
  have m: "(0xffff :: u32) = mask 16" by (simp add: mask_eq_exp_minus_1)
  have l: "Low16Bits w = ucast w" for w
    unfolding Low16Bits_def m by (rule bit_word_eqI) (auto simp: bit_simps)
  have h: "Low16Bits (Low32Bits v) = ucast v" "High16Bits (Low32Bits v) = ucast (drop_bit 16 v)"
    "Low16Bits (High32Bits v) = ucast (drop_bit 32 v)" "High16Bits (High32Bits v) = ucast (drop_bit 48 v)"
    unfolding l High16Bits_def Low32Bits_def High32Bits_def
    by (rule bit_word_eqI; auto simp: bit_simps algebra_simps)+
  have "Mov (X rd) v a = foldl (\<lambda>a w. Emit w a) a (mov_words rd v)"
    unfolding Mov_def Let_def h movz_def movk_def mov_words_def
    using MoveWide_word [of rd _ 0] MoveWide_word [of rd _ 1] MoveWide_word [of rd _ 2] MoveWide_word [of rd _ 3]
    by simp
  then show "asm_rel (Mov (X rd) v a) (ws @ mov_words rd v) ls" "unbound (Mov (X rd) v a) = unbound a"
    using assms by (simp_all add: mov_words_def asm_rel_def Emit_def Emit32_def EmitBuffer_def unbound_def)
qed

section \<open>Relocated code as words\<close>

definition ldr17_word :: u32 where "ldr17_word = 0x58000011"
definition br17_word :: u32 where "br17_word = 0xD61F0220"
definition blr17_word :: u32 where "blr17_word = 0xD63F0220"

definition skip_word :: "nat \<Rightarrow> u32 \<Rightarrow> u32" where
  "skip_word hi w = set_bits_u w 5 hi 3"

text \<open>
  The words that replace an instruction at \<open>cur\<close>, the loads of literals still without their
  offset, and the literals with the index of their load.
\<close>

definition relo_code :: "bool \<Rightarrow> u64 \<Rightarrow> u32 \<Rightarrow> (u32 list \<times> lits) option" where
  "relo_code ndebug cur inst =
     (if inst_is_b_bl inst then
        Some ([ldr17_word, if inst AND UnconditionalBranchMask = BL then blr17_word else br17_word],
              [(0, cur + decode_imm26_offset inst)])
      else if inst_is_ldr_literal inst then
        let mov = mov_words 17 (cur + decode_imm19_offset inst) in
        if field 31 30 inst = 0 \<or> field 31 30 inst = 1
        then Some (mov @ [0xF9400220 OR decode_rt inst], [])
        else if ndebug then Some (mov, []) else None
      else if inst_is_adr inst then
        Some (mov_words (decode_rd inst) (cur + decode_immhi_immlo_offset inst), [])
      else if inst_is_adrp inst then
        Some (mov_words (decode_rd inst) (arm64_trunc_page (cur + decode_immhi_immlo_zero12_offset inst)), [])
      else if inst_is_b_cond inst then
        Some ([skip_word 23 (set_bits_u inst 0 3 (field 3 0 inst XOR 1)), ldr17_word, br17_word],
              [(1, cur + decode_imm19_offset inst)])
      else if inst_is_compare_b inst then
        Some ([skip_word 23 (inst XOR 0x1000000), ldr17_word, br17_word],
              [(1, cur + decode_imm19_offset inst)])
      else if inst_is_test_b inst then
        Some ([skip_word 18 (inst XOR 0x1000000), ldr17_word, br17_word],
              [(1, cur + decode_imm14_offset inst)])
      else Some ([inst], []))"

definition shift_lits :: "nat \<Rightarrow> lits \<Rightarrow> lits" where
  "shift_lits n ls = map (\<lambda>(k, v). (n + k, v)) ls"

text \<open>Appending a label and loading it, as \<^verbatim>\<open>AppendRelocLabel\<close> and \<^verbatim>\<open>Ldr\<close> do.\<close>

lemma Ldr_at_words:
  assumes a: "asm_rel a ws ls" "unbound a"
  shows "\<exists>a'. Ldr_at TMP_REG_0 (length (data_labels a)) (foldl (\<lambda>a w. Emit w a) (AppendRelocLabel (new_RelocLabel v) a) cs) = Some a' \<and>
    asm_rel a' (ws @ cs @ [ldr17_word]) (ls @ [(length ws + length cs, v)]) \<and> unbound a' \<and>
    realized_addr a' = realized_addr a"
proof -
  have emits: "foldl (\<lambda>a w. Emit w a) a0 cs = a0\<lparr>buffer := buffer a0 @ enc cs\<rparr>" for a0
    by (induction cs arbitrary: a0) (auto simp: Emit_def Emit32_def EmitBuffer_def)
  have w: "LDR_x_literal OR ucast (LeftShift (0 :: u64) 26 5) OR Rt TMP_REG_0 = ldr17_word"
    by (simp add: a64_op LeftShift_eq Rt_def TMP_REG_0_def X_def ldr17_word_def)
  have "reg_type TMP_REG_0 = kRegister_64" by (simp add: TMP_REG_0_def X_def)
  then have load: "ldr_literal TMP_REG_0 0 a0 = Some (a0\<lparr>buffer := buffer a0 @ bytes_of 4 ldr17_word\<rparr>)" for a0
    by (simp add: ldr_literal_def EmitLoadRegLiteral_def w Emit_def Emit32_def EmitBuffer_def)
  define lb where "lb = link_to kLabelImm19 0 (length (buffer a @ enc cs)) (new_RelocLabel v)"
  define a' where "a' = a\<lparr>data_labels := data_labels a @ [lb], buffer := buffer a @ enc (cs @ [ldr17_word])\<rparr>"
  have "Ldr_at TMP_REG_0 (length (data_labels a)) (foldl (\<lambda>a w. Emit w a) (AppendRelocLabel (new_RelocLabel v) a) cs) = Some a'"
    unfolding emits
    by (cases a) (simp add: Ldr_at_def Ldr_def AppendRelocLabel_def nth_append load
      GetBufferSize_def a'_def lb_def new_RelocLabel_def)
  moreover have "lit_label lb (length ws + length cs, v)" "relocated_pos lb = 0"
    using a by (simp_all add: lb_def link_to_def new_RelocLabel_def lit_label_def asm_rel_def)
  ultimately show ?thesis using a
    by (auto simp: a'_def asm_rel_def unbound_def intro!: list_all2_appendI)
qed

lemma br17: "br TMP_REG_0 a = Emit br17_word a" "blr TMP_REG_0 a = Emit blr17_word a"
  by (simp_all add: br_def blr_def a64_op Rn_def TMP_REG_0_def X_def br17_word_def blr17_word_def)

text \<open>\<open>emits a ws ls r cs l\<close>: the result extends the code by \<open>cs\<close> and the pool by \<open>l\<close>.\<close>

definition extends :: "Assembler \<Rightarrow> u32 list \<Rightarrow> lits \<Rightarrow> u32 list \<Rightarrow> lits \<Rightarrow> Assembler \<Rightarrow> bool" where
  "extends a ws ls cs l a' \<longleftrightarrow> asm_rel a' (ws @ cs) (ls @ shift_lits (length ws) l) \<and> unbound a' \<and>
     realized_addr a' = realized_addr a"

lemma shift_lits_simps [simp]: "shift_lits n [] = []" "shift_lits n ((k, v) # ls) = (n + k, v) # shift_lits n ls"
  by (simp_all add: shift_lits_def)

lemma realized_Mov [simp]: "realized_addr (Mov rd v a) = realized_addr a"
  by (simp add: Mov_def Let_def movz_def movk_def MoveWide_def Emit_def)

lemma extends_Mov:
  "asm_rel a ws ls \<Longrightarrow> unbound a \<Longrightarrow> extends a ws ls (mov_words rd v) [] (Mov (X rd) v a)"
  using Mov_words [of a ws ls rd v] by (simp add: extends_def)

lemma extends_Emit:
  "extends a ws ls cs l a' \<Longrightarrow> extends a ws ls (cs @ [w]) l (Emit w a')"
  using Emit_words [of a' "ws @ cs" _ w] by (auto simp: extends_def) (simp add: Emit_def)

lemma extends_Ldr:
  assumes "asm_rel a ws ls" "unbound a"
  shows "\<exists>a'. Ldr_at TMP_REG_0 (length (data_labels a)) (foldl (\<lambda>a w. Emit w a) (AppendRelocLabel (new_RelocLabel v) a) cs) = Some a' \<and>
    extends a ws ls (cs @ [ldr17_word]) [(length cs, v)] a'"
  using Ldr_at_words [OF assms, of v cs] by (simp add: extends_def)

lemma extends_skip:
  assumes "asm_rel a ws ls" "unbound a"
  shows "\<exists>a'. relo_skip_jump v w a = Some a' \<and> extends a ws ls [w, ldr17_word, br17_word] [(1, v)] a'"
proof -
  from extends_Ldr [OF assms, of v "[w]"] obtain a' where
    "Ldr_at TMP_REG_0 (length (data_labels a)) (Emit w (AppendRelocLabel (new_RelocLabel v) a)) = Some a'"
    "extends a ws ls ([w] @ [ldr17_word]) [(1, v)] a'" by auto
  then show ?thesis
    using extends_Emit [of a ws ls "[w, ldr17_word]" "[(1, v)]" a' br17_word]
    by (simp add: relo_skip_jump_def br17)
qed

lemma ldr_x17:
  "ldr (X rt) (MemOperand_imm TMP_REG_0 0 Offset) a = Some (Emit (0xF9400220 OR rt) a)"
  "ldr (W rt) (MemOperand_imm TMP_REG_0 0 Offset) a = Some (Emit (0xF9400220 OR rt) a)"
  by (simp_all add: ldr_def LoadStore_def IsImmediateOffset_def MemOperand_imm_def a64_op LeftShift_eq
      Rn_def Rt_def TMP_REG_0_def X_def W_def flip: or.assoc)

lemma bits_s_field: "bits_s (w :: u32) 30 31 = ucast (field 31 30 w)" "bits_s (w :: u32) 0 3 = ucast (field 3 0 w)"
  by (rule bit_word_eqI; auto simp: bits_s_u bit_simps)+

lemma ucast_u32_eq: "(ucast (w :: u32) :: u64) = 0 \<longleftrightarrow> w = 0" "(ucast (w :: u32) :: u64) = 1 \<longleftrightarrow> w = 1"
proof -
  have "ucast (ucast w :: u64) = w" by (rule bit_word_eqI) (auto simp: bit_simps)
  then show "(ucast w :: u64) = 0 \<longleftrightarrow> w = 0" "(ucast w :: u64) = 1 \<longleftrightarrow> w = 1" by force+
qed

lemma ucast_field [simp]: "ucast (ucast (w :: u32) :: u64) = w"
  by (rule bit_word_eqI) (auto simp: bit_simps)

lemma bit_24: "bit (0x1000000 :: u32) n \<longleftrightarrow> n = 24"
proof -
  have "bit (push_bit 24 (1 :: u32)) n \<longleftrightarrow> n = 24"
    unfolding bit_push_bit_iff bit_1_iff by auto
  then show ?thesis by simp
qed

lemma flip_24: "set_bit_s w 24 (bit_s w 24 XOR 1) = w XOR 0x1000000"
  by (rule bit_word_eqI)
    (auto simp: set_bit_s_def bit_s_def bit_simps bit_1_iff bit_24 simp del: bit_numeral_word_iff push_bit_of_1 push_bit_numeral)

lemma relo_inst_code:
  assumes "asm_rel a ws ls" "unbound a"
  shows "case relo_code ndebug cur inst of None \<Rightarrow> relo_inst ndebug cur inst a = None
    | Some (cs, l) \<Rightarrow> \<exists>a'. relo_inst ndebug cur inst a = Some a' \<and> extends a ws ls cs l a'"
proof -
  note ext = extends_Mov [OF assms] extends_Emit [OF extends_Mov [OF assms]]
  have b: "\<exists>a'. relo_b_bl cur inst a = Some a' \<and>
      extends a ws ls [ldr17_word, if inst AND UnconditionalBranchMask = BL then blr17_word else br17_word]
        [(0, cur + decode_imm26_offset inst)] a'"
    using extends_Ldr [OF assms, of "cur + decode_imm26_offset inst" "[]"] extends_Emit [of a ws ls "[ldr17_word]"]
    by (fastforce simp: relo_b_bl_def Let_def br17)
  have e: "extends a ws ls [inst] [] (Emit inst a)"
    using extends_Emit [of a ws ls "[]" "[]" a inst] assms by (simp add: extends_def)
  note ldr17 = ldr_x17 [unfolded TMP_REG_0_def]
  note defs = relo_inst_def relo_code_def relo_ldr_literal_def relo_adr_def relo_adrp_def relo_b_cond_def
    relo_compare_b_def relo_test_b_def Let_def ldr17 bits_s_field ucast_u32_eq flip_24 set_bits_s_u
    skip_word_def UNIMPLEMENTED_def TMP_REG_0_def
  consider "inst_is_b_bl inst" | "\<not> inst_is_b_bl inst" "inst_is_ldr_literal inst"
    | "\<not> inst_is_b_bl inst" "\<not> inst_is_ldr_literal inst" by blast
  then show ?thesis
  proof cases
    case 1
    then show ?thesis using b by (simp add: defs)
  next
    case 2
    then show ?thesis using ext by (auto simp: defs)
  next
    case 3
    then show ?thesis using ext extends_skip [OF assms] e by (simp add: defs)
  qed
qed

end
