(* ===== verification/A64_Block.thy ===== *)
theory A64_Block
  imports A64_Layout
begin

text \<open>
  The relocation loop and the whole block as lists of words: the loop produces the concatenation of
  the words of its instructions, records where each starts, and fails exactly when one of them
  fails; the branch back adds two words, and binding adds the literal pool (twice when there is a
  branch back, the second copy being the one in use).
\<close>

fun relo_block :: "bool \<Rightarrow> (u64 \<times> u32) list \<Rightarrow> u32 list \<Rightarrow> lits \<Rightarrow> (u32 list \<times> lits) option" where
  "relo_block ndebug [] ws ls = Some (ws, ls)"
| "relo_block ndebug ((cur, inst) # is) ws ls =
     Option.bind (relo_code ndebug cur inst) (\<lambda>(cs, l).
     relo_block ndebug is (ws @ cs) (ls @ shift_lits (length ws) l))"

text \<open>The instructions of a block of \<open>n\<close> words, each with its original address.\<close>

definition block_insts :: "(addr \<Rightarrow> u8) \<Rightarrow> u64 \<Rightarrow> u64 \<Rightarrow> nat \<Rightarrow> (u64 \<times> u32) list" where
  "block_insts m base src n =
     map (\<lambda>i. (src + of_nat (4 * i), get_le m 4 (base + of_nat (4 * i)))) [0..<n]"

lemma length_block_insts [simp]: "length (block_insts m base src n) = n"
  by (simp add: block_insts_def)

lemma nth_block_insts: "i < n \<Longrightarrow> block_insts m base src n ! i =
    (src + of_nat (4 * i), get_le m 4 (base + of_nat (4 * i)))"
  by (simp add: block_insts_def)

lemma drop_block_insts: "i < n \<Longrightarrow> drop i (block_insts m base src n) =
    (src + of_nat (4 * i), get_le m 4 (base + of_nat (4 * i))) # drop (Suc i) (block_insts m base src n)"
  by (simp add: Cons_nth_drop_Suc [symmetric] nth_block_insts)

lemma relo_block_append:
  "relo_block ndebug (is @ js) ws ls =
     Option.bind (relo_block ndebug is ws ls) (\<lambda>(ws', ls'). relo_block ndebug js ws' ls')"
  by (induction ndebug "is" ws ls rule: relo_block.induct) (auto split: Option.bind_splits)

definition loop_result :: "bool \<Rightarrow> (addr \<Rightarrow> u8) \<Rightarrow> relo_ctx \<Rightarrow> nat \<Rightarrow> nat \<Rightarrow> u32 list \<Rightarrow> lits \<Rightarrow> relo_ctx \<Rightarrow> bool" where
  "loop_result ndebug m ctx i n ws ls ctx' \<longleftrightarrow>
     buffer_cursor ctx' = 4 * n \<and>
     (\<forall>j<i. relocated_offset_map ctx' (4 * j) = relocated_offset_map ctx (4 * j)) \<and>
     (\<forall>j. i \<le> j \<longrightarrow> j < n \<longrightarrow> (\<forall>ws1 ls1.
        relo_block ndebug (take (j - i) (drop i (block_insts m (relo_buffer ctx) (relo_src_vmaddr ctx) n))) ws ls
          = Some (ws1, ls1) \<longrightarrow> relocated_offset_map ctx' (4 * j) = Some (4 * length ws1)))"

lemma relo_loop_block:
  assumes "asm_rel a ws ls" "unbound a" "buffer_cursor ctx = 4 * i" "buffer_size ctx = 4 * n" "i \<le> n"
  shows "case relo_block ndebug (drop i (block_insts m (relo_buffer ctx) (relo_src_vmaddr ctx) n)) ws ls of
      None \<Rightarrow> relo_loop ndebug m ctx a = None
    | Some (ws', ls') \<Rightarrow> \<exists>ctx' a'. relo_loop ndebug m ctx a = Some (ctx', a') \<and> asm_rel a' ws' ls' \<and> unbound a' \<and>
        realized_addr a' = realized_addr a \<and> loop_result ndebug m ctx i n ws ls ctx'"
  using assms
proof (induction "n - i" arbitrary: i ctx a ws ls)
  case 0
  then show ?case by (auto simp: relo_loop.simps loop_result_def)
next
  case (Suc d)
  then have i: "i < n" and d: "d = n - Suc i" by auto
  let ?is = "block_insts m (relo_buffer ctx) (relo_src_vmaddr ctx) n"
  let ?cur = "relo_src_vmaddr ctx + of_nat (4 * i)" and ?inst = "get_le m 4 (relo_buffer ctx + of_nat (4 * i)) :: u32"
  let ?ctx = "ctx\<lparr>relocated_offset_map := (relocated_offset_map ctx)(4 * i \<mapsto> length (buffer a)), buffer_cursor := 4 * Suc i\<rparr>"
  have loop: "relo_loop ndebug m ctx a =
      Option.bind (relo_inst ndebug ?cur ?inst a) (\<lambda>a'. relo_loop ndebug m ?ctx a')"
    using Suc.prems(3,4) i by (subst relo_loop.simps) (simp add: Let_def GetBufferSize_def relo_cur_src_vmaddr_def add.commute [of "4 * i" 4])
  note block = drop_block_insts [OF i, of m "relo_buffer ctx" "relo_src_vmaddr ctx"]
  note inst = relo_inst_code [OF Suc.prems(1,2), of ndebug ?cur ?inst]
  show ?case
  proof (cases "relo_code ndebug ?cur ?inst")
    case None
    then show ?thesis using inst by (simp add: block loop)
  next
    case (Some r)
    obtain cs l where r: "r = (cs, l)" by fastforce
    from inst Some r obtain a1 where a1: "relo_inst ndebug ?cur ?inst a = Some a1"
      and ext: "extends a ws ls cs l a1" by auto
    let ?ws = "ws @ cs" and ?ls = "ls @ shift_lits (length ws) l"
    have len: "length (buffer a) = 4 * length ws" using Suc.prems(1) by (simp add: asm_rel_def)
    have IH: "case relo_block ndebug (drop (Suc i) ?is) ?ws ?ls of
        None \<Rightarrow> relo_loop ndebug m ?ctx a1 = None
      | Some (ws', ls') \<Rightarrow> \<exists>ctx' a'. relo_loop ndebug m ?ctx a1 = Some (ctx', a') \<and> asm_rel a' ws' ls' \<and> unbound a' \<and>
          realized_addr a' = realized_addr a1 \<and> loop_result ndebug m ?ctx (Suc i) n ?ws ?ls ctx'"
      using Suc.hyps(1) [OF d, of a1 ?ws ?ls ?ctx] ext i Suc.prems(4) by (simp add: extends_def)
    have res: "loop_result ndebug m ctx i n ws ls ctx'" if "loop_result ndebug m ?ctx (Suc i) n ?ws ?ls ctx'" for ctx'
      unfolding loop_result_def
    proof (intro conjI allI impI)
      fix j ws1 ls1
      assume j: "i \<le> j" "j < n" and blk: "relo_block ndebug (take (j - i) (drop i ?is)) ws ls = Some (ws1, ls1)"
      show "relocated_offset_map ctx' (4 * j) = Some (4 * length ws1)"
      proof (cases "j = i")
        case True
        then show ?thesis using that blk len by (simp add: loop_result_def)
      next
        case False
        then have "take (j - i) (drop i ?is) = (?cur, ?inst) # take (j - Suc i) (drop (Suc i) ?is)"
          using j by (simp add: block take_Cons')
        then show ?thesis using that blk j False Some r by (auto simp: loop_result_def)
      qed
    qed (use that in \<open>auto simp: loop_result_def\<close>)
    have "relo_loop ndebug m ctx a = relo_loop ndebug m ?ctx a1" unfolding loop a1 by simp
    moreover have "relo_block ndebug (drop i ?is) ws ls = relo_block ndebug (drop (Suc i) ?is) ?ws ?ls"
      unfolding block using Some r by simp
    moreover have "realized_addr a1 = realized_addr a" using ext by (simp add: extends_def)
    ultimately show ?thesis using IH res by (auto split: option.splits)
  qed
qed

section \<open>Literals of a block\<close>

text \<open>Loads come in the order of the code, each inside it.\<close>

definition lits_ok :: "u32 list \<Rightarrow> lits \<Rightarrow> bool" where
  "lits_ok ws ls \<longleftrightarrow> distinct (map fst ls) \<and> (\<forall>(k, v)\<in>set ls. k < length ws \<and> ws ! k = ldr17_word)"

lemma relo_code_lits:
  "relo_code ndebug cur inst = Some (cs, l) \<Longrightarrow> lits_ok cs l \<and> length l \<le> 1 \<and> cs \<noteq> [] \<and> length cs + 4 * length l \<le> 7"
  by (auto simp: relo_code_def Let_def lits_ok_def mov_words_def split: if_splits)

lemma lits_ok_append:
  assumes "lits_ok ws ls" "lits_ok cs l"
  shows "lits_ok (ws @ cs) (ls @ shift_lits (length ws) l)"
proof -
  have m: "map fst (shift_lits (length ws) l) = map ((+) (length ws)) (map fst l)"
    by (auto simp: shift_lits_def)
  then have "distinct (map fst (shift_lits (length ws) l))"
    using assms(2) by (simp add: lits_ok_def distinct_map inj_on_def)
  moreover have "fst ` set (shift_lits (length ws) l) = (+) (length ws) ` fst ` set l"
    using arg_cong [OF m, of set] by (simp add: image_image)
  ultimately show ?thesis
    using assms by (force simp: lits_ok_def nth_append shift_lits_def)
qed

lemma relo_block_lits:
  "relo_block ndebug is ws ls = Some (ws', ls') \<Longrightarrow> lits_ok ws ls \<Longrightarrow> lits_ok ws' ls'"
proof (induction ndebug "is" ws ls rule: relo_block.induct)
  case (2 ndebug cur inst "is" ws ls)
  from 2(2) obtain cs l where c: "relo_code ndebug cur inst = Some (cs, l)"
    and rest: "relo_block ndebug is (ws @ cs) (ls @ shift_lits (length ws) l) = Some (ws', ls')"
    by (auto split: Option.bind_splits)
  have "lits_ok cs l" using relo_code_lits [OF c] by simp
  from 2(1) [OF c refl rest lits_ok_append [OF 2(3) this]] show ?case .
qed simp

lemma lits_ok_nil [simp]: "lits_ok [] []"
  by (simp add: lits_ok_def)

section \<open>The assembled block\<close>

definition final_words :: "bool \<Rightarrow> u64 \<Rightarrow> u32 list \<Rightarrow> lits \<Rightarrow> u32 list" where
  "final_words branch back ws ls =
     (if branch then
        let ws1 = ws @ [ldr17_word, br17_word]; ls1 = ls @ [(length ws, back)]
        in bind_lits (bind_lits ws1 ls1) ls1
      else bind_lits ws ls)"

lemma LiteralLdrBranch_words:
  assumes "asm_rel a ws ls" "unbound a" "lits_ok ws ls"
  shows "\<exists>a'. LiteralLdrBranch v a = Some a' \<and>
    asm_rel a' (bind_lits (ws @ [ldr17_word, br17_word]) (ls @ [(length ws, v)])) (ls @ [(length ws, v)]) \<and>
    realized_addr a' = realized_addr a"
proof -
  let ?ws = "ws @ [ldr17_word, br17_word]" and ?ls = "ls @ [(length ws, v)]"
  from extends_Ldr [OF assms(1,2), of v "[]"] obtain a1 where
    a1: "Ldr_at TMP_REG_0 (length (data_labels a)) (AppendRelocLabel (new_RelocLabel v) a) = Some a1"
    and ext: "extends a ws ls [ldr17_word] [(0, v)] a1" by auto
  have "asm_rel (Emit br17_word a1) ?ws ?ls" "realized_addr (Emit br17_word a1) = realized_addr a"
    using extends_Emit [OF ext, of br17_word] by (simp_all add: extends_def)
  moreover have "\<forall>(k, v)\<in>set ?ls. k < length ?ws" using assms(3) by (auto simp: lits_ok_def)
  ultimately show ?thesis
    using RelocBind_lits [of "Emit br17_word a1" ?ws ?ls] by (auto simp: LiteralLdrBranch_def Let_def a1 br17)
qed

lemma relo_assemble_words:
  assumes ctx: "buffer_cursor ctx = 0" "buffer_size ctx = 4 * n"
  shows "case relo_block ndebug (block_insts m (relo_buffer ctx) (relo_src_vmaddr ctx) n) [] [] of
      None \<Rightarrow> relo_assemble ndebug m origin_addr ctx branch = None
    | Some (ws, ls) \<Rightarrow> \<exists>ctx' a. relo_assemble ndebug m origin_addr ctx branch = Some (ctx', 4 * n, a) \<and>
        buffer a = enc (final_words branch (origin_addr + of_nat (4 * n)) ws ls) \<and> realized_addr a = 0 \<and>
        loop_result ndebug m ctx 0 n [] [] ctx'"
proof -
  have new: "asm_rel (new_Assembler 0) [] []" "unbound (new_Assembler 0)"
    by (simp_all add: asm_rel_def new_Assembler_def unbound_def)
  have "buffer_cursor ctx = 4 * 0" using ctx by simp
  note loop = relo_loop_block [OF new this ctx(2) le0, of ndebug m, unfolded drop_0]
  show ?thesis
  proof (cases "relo_block ndebug (block_insts m (relo_buffer ctx) (relo_src_vmaddr ctx) n) [] []")
    case None
    then show ?thesis using loop by (simp add: relo_assemble_def)
  next
    case (Some r)
    obtain ws ls where r: "r = (ws, ls)" by fastforce
    have ok: "lits_ok ws ls" using relo_block_lits [of ndebug _ "[]" "[]" ws ls] Some r by simp
    from loop Some r obtain ctx' a where a: "relo_loop ndebug m ctx (new_Assembler 0) = Some (ctx', a)"
      "asm_rel a ws ls" "unbound a" "realized_addr a = 0" and res: "loop_result ndebug m ctx 0 n [] [] ctx'"
      by (auto simp: new_Assembler_def)
    have cur: "buffer_cursor ctx' = 4 * n" using res by (simp add: loop_result_def)
    have lt: "\<forall>(k, v)\<in>set ls. k < length ws" using ok by (auto simp: lits_ok_def)
    show ?thesis
    proof (cases branch)
      case True
      let ?v = "origin_addr + of_nat (4 * n)"
      let ?ls = "ls @ [(length ws, ?v)]" and ?ws = "bind_lits (ws @ [ldr17_word, br17_word]) (ls @ [(length ws, ?v)])"
      from LiteralLdrBranch_words [OF a(2,3) ok, of ?v] obtain a1 where a1: "LiteralLdrBranch ?v a = Some a1"
        "asm_rel a1 ?ws ?ls" "realized_addr a1 = 0" using a(4) by auto
      moreover have "\<forall>(k, v)\<in>set ?ls. k < length ?ws" using lt by auto
      ultimately obtain a2 where "RelocBind a1 = Some a2" "asm_rel a2 (bind_lits ?ws ?ls) ?ls" "realized_addr a2 = 0"
        using RelocBind_lits [of a1 ?ws ?ls] by auto
      then show ?thesis using a(1) a1(1) Some r True res cur
        by (simp add: relo_assemble_def Let_def final_words_def asm_rel_def)
    next
      case False
      then show ?thesis using a Some r res cur RelocBind_lits [OF a(2) lt]
        by (auto simp: relo_assemble_def Let_def final_words_def asm_rel_def)
    qed
  qed
qed

end
