(* ===== verification/A64_Exec.thy ===== *)
theory A64_Exec
  imports A64_Isa A64_Block
begin

text \<open>
  What the emitted instruction words do, by the instruction set of \<open>A64_Isa\<close>: the moves of a
  64-bit constant, the loads of the literal pool, the indirect jumps and the inverted branches
  over them.
\<close>

section \<open>Fields of emitted words\<close>

lemma field_high:
  assumes "\<And>n. lo \<le> n \<Longrightarrow> n \<le> hi \<Longrightarrow> \<not> bit w n"
  shows "field hi lo w = 0"
  by (rule bit_word_eqI) (use assms in \<open>auto simp: bit_simps\<close>)

lemma take_bit_small: "(r :: u32) < 2 ^ k \<Longrightarrow> k < 32 \<Longrightarrow> take_bit k r = r"
  by (simp add: take_bit_eq_mask less_mask_eq)

lemma not_bit_small: "(r :: u32) < 2 ^ k \<Longrightarrow> k < 32 \<Longrightarrow> k \<le> n \<Longrightarrow> \<not> bit r n"
  by (metis bit_take_bit_iff leD take_bit_small)

lemma field_reg [a64_enc]: "(r :: u32) < 32 \<Longrightarrow> 5 \<le> lo \<Longrightarrow> field hi lo r = 0" "r < 32 \<Longrightarrow> field 4 0 r = r"
  using not_bit_small [of r 5] take_bit_small [of r 5] by (auto simp: field_def intro!: field_high [unfolded field_def])

lemma not_bit_imm16: "n < 5 \<or> 21 \<le> n \<Longrightarrow> \<not> bit (push_bit 5 (ucast (h :: u16)) :: u32) n"
  by (auto simp: bit_simps dest!: bit_imp_le_length)

lemma field_imm16:
  "21 \<le> lo \<Longrightarrow> field hi lo (push_bit 5 (ucast (h :: u16)) :: u32) = 0"
  "field 4 0 (push_bit 5 (ucast h) :: u32) = 0"
  "field 20 5 (push_bit 5 (ucast h) :: u32) = ucast h"
proof -
  show "21 \<le> lo \<Longrightarrow> field hi lo (push_bit 5 (ucast h) :: u32) = 0" "field 4 0 (push_bit 5 (ucast h) :: u32) = 0"
    by (rule field_high; simp add: not_bit_imm16)+
  show "field 20 5 (push_bit 5 (ucast h) :: u32) = ucast h"
    by (rule bit_word_eqI) (auto simp: bit_simps dest: bit_imp_le_length)
qed

lemma field_shift21:
  "sh < 4 \<Longrightarrow> 23 \<le> lo \<or> hi < 21 \<Longrightarrow> field hi lo (push_bit 21 (sh :: u32)) = 0" "sh < 4 \<Longrightarrow> field 22 21 (push_bit 21 sh) = sh"
proof -
  show "sh < 4 \<Longrightarrow> 23 \<le> lo \<or> hi < 21 \<Longrightarrow> field hi lo (push_bit 21 sh) = 0"
    by (rule field_high) (use not_bit_small [of sh 2] in \<open>auto simp: bit_simps\<close>)
  show "sh < 4 \<Longrightarrow> field 22 21 (push_bit 21 sh) = sh"
  proof (rule bit_word_eqI)
    fix n
    assume "sh < 4"
    then have "bit sh n \<Longrightarrow> n < 2" using not_bit_small [of sh 2 n] by force
    then show "bit (field 22 21 (push_bit 21 sh)) n \<longleftrightarrow> bit sh n" by (auto simp: bit_simps)
  qed
qed

lemma field_numeral [a64_enc]:
  "field hi lo (numeral k :: u32) = take_bit (Suc hi - lo) (drop_bit lo (numeral k))"
  "field hi lo (0 :: u32) = 0"
  by (simp_all add: field_def)

section \<open>Moving a constant\<close>

lemma mov_word_split:
  "mov_wide_word op sh rd h = (0x92800000 OR op) OR push_bit 21 sh OR push_bit 5 (ucast h) OR rd"
proof -
  have "(0x92800000 :: u32) = 0x12800000 OR 0x80000000" by simp
  then show ?thesis by (simp only: mov_wide_word_def MoveWideImmediateFixed_def or.assoc or.left_commute or.commute)
qed

lemma mov_word_fields:
  assumes "rd < 32" "sh < 4" "op = MOVZ \<or> op = MOVK"
  shows "23 \<le> lo \<Longrightarrow> field hi lo (mov_wide_word op sh rd h) = field hi lo (0x92800000 OR op)"
    and "field 22 21 (mov_wide_word op sh rd h) = sh" "field 20 5 (mov_wide_word op sh rd h) = ucast h"
    "field 4 0 (mov_wide_word op sh rd h) = rd" "bit (mov_wide_word op sh rd h) 29 = (op = MOVK)"
proof -
  note enc = mov_word_split field_or field_shift21 field_imm16 field_reg
  show "23 \<le> lo \<Longrightarrow> field hi lo (mov_wide_word op sh rd h) = field hi lo (0x92800000 OR op)"
    using assms by (simp add: enc)
  have c: "0x92800000 OR op = (if op = MOVK then 0xF2800000 else 0xD2800000)"
    using assms(3) by (auto simp: MOVZ_def MOVK_def)
  show "field 22 21 (mov_wide_word op sh rd h) = sh" "field 20 5 (mov_wide_word op sh rd h) = ucast h"
    "field 4 0 (mov_wide_word op sh rd h) = rd"
    using assms by (simp_all add: enc c field_numeral)
  show "bit (mov_wide_word op sh rd h) 29 = (op = MOVK)"
    using assms not_bit_small [of rd 5 29] not_bit_small [of sh 2 8] not_bit_imm16 [of 29 h]
    by (simp add: mov_word_split c bit_or_iff bit_push_bit_iff)
qed

lemma exec_mov_word:
  assumes "rd < 32" "sh < 4" "op = MOVZ \<or> op = MOVK"
  shows "a64_exec (mov_wide_word op sh rd h) s =
    Some (wx (unat rd) (if op = MOVK then (rx s (unat rd) AND NOT (push_bit (16 * unat sh) 0xFFFF)) OR push_bit (16 * unat sh) (ucast h)
       else push_bit (16 * unat sh) (ucast h)) s, Fall)"
proof -
  have imm: "(ucast (ucast h :: u32) :: u64) = ucast h" by (rule bit_word_eqI) (auto simp: bit_simps dest: bit_imp_le_length)
  have "field 31 23 (0x92800000 OR op) = 0x1A5 \<or> field 31 23 (0x92800000 OR op) = 0x1E5"
    "field 30 26 (0x92800000 OR op) \<noteq> 5" "field 31 24 (0x92800000 OR op) \<noteq> 0x54"
    "field 30 25 (0x92800000 OR op) \<noteq> 0x1A" "field 30 25 (0x92800000 OR op) \<noteq> 0x1B"
    "field 28 24 (0x92800000 OR op) \<noteq> 0x10" "field 29 24 (0x92800000 OR op) \<noteq> 0x18"
    using assms(3) by (auto simp: MOVZ_def MOVK_def field_numeral)
  then show ?thesis
    by (simp add: a64_exec_def mov_word_fields [OF assms] exec_mov_wide_def Let_def reg_def imm)
qed

lemma exec_mov_words:
  assumes "rd < 32"
  shows "exec_seq (mov_words rd v) s = Some ((wx (unat rd) v s)\<lparr>pc := pc s + 16\<rparr>)"
proof -
  let ?n = "unat rd"
  have m: "(0xFFFF :: u64) = mask 16" by (simp add: mask_eq_exp_minus_1)
  have K: "MOVZ \<noteq> MOVK" by (simp add: MOVZ_def MOVK_def)
  have parts: "(((((ucast (ucast v :: u16) AND NOT (push_bit 16 0xFFFF)) OR push_bit 16 (ucast (ucast (drop_bit 16 v) :: u16)))
      AND NOT (push_bit 32 0xFFFF)) OR push_bit 32 (ucast (ucast (drop_bit 32 v) :: u16)))
      AND NOT (push_bit 48 0xFFFF)) OR push_bit 48 (ucast (ucast (drop_bit 48 v) :: u16)) = v"
    (is "?l = v")
  proof (rule bit_word_eqI)
    fix n :: nat
    consider "n < 16" | "16 \<le> n" "n < 32" "16 + (n - 16) = n" "n - 16 < 16" | "32 \<le> n" "n < 48" "32 + (n - 32) = n"
      | "48 \<le> n" "48 + (n - 48) = n" by linarith
    then show "bit ?l n \<longleftrightarrow> bit v n"
      unfolding m by cases (auto simp: bit_simps dest: bit_imp_le_length)
  qed
  show ?thesis
    using parts
    by (auto simp: mov_words_def exec_mov_word [OF assms] K wx_def rx_def)
qed

section \<open>Instruction classes\<close>

lemma field_within:
  "field hi lo w = c \<Longrightarrow> lo \<le> lo' \<Longrightarrow> hi' \<le> hi \<Longrightarrow> lo \<le> hi' \<Longrightarrow> field hi' lo' w = field (hi' - lo) (lo' - lo) c"
  by (rule bit_word_eqI) (auto simp: bit_simps)

lemma field_split:
  assumes "lo < k" "k \<le> hi" "hi < LENGTH('a)"
  shows "field hi lo (w :: 'a::len word) = push_bit (k - lo) (field hi k w) OR field (k - 1) lo w"
proof (rule bit_word_eqI)
  fix n
  have "lo + n \<le> k - 1 \<longleftrightarrow> \<not> k - lo \<le> n" "k - lo \<le> n \<Longrightarrow> k + (n - (k - lo)) = lo + n" using assms by auto
  then show "bit (field hi lo w) n \<longleftrightarrow> bit (push_bit (k - lo) (field hi k w) OR field (k - 1) lo w) n"
    using assms by (auto simp: bit_simps ac_simps dest: bit_imp_le_length)
qed

text \<open>Every class of the relocator has the meaning of the instruction set.\<close>

lemma exec_class_b: "inst_is_b_bl w \<Longrightarrow> a64_exec w s = Some (exec_b w s)"
  by (simp add: a64_exec_def inst_is_field)

lemma exec_class_b_cond: "inst_is_b_cond w \<Longrightarrow> \<not> bit w 24 \<Longrightarrow> a64_exec w s = Some (exec_b_cond w s)"
proof -
  assume w: "inst_is_b_cond w" "\<not> bit w 24"
  then have f: "field 31 25 w = 0x2A" by (simp add: inst_is_field)
  have "field 31 24 w = 0x54" using w f field_split [of 24 25 31 w] by (simp add: bit_field_iff)
  moreover have "field 30 26 w \<noteq> 5" using field_within [OF f, of 26 30] by (simp add: field_numeral)
  ultimately show ?thesis by (simp add: a64_exec_def)
qed

lemma exec_class_compare: "inst_is_compare_b w \<Longrightarrow> a64_exec w s = Some (exec_cb w s)"
proof -
  assume "inst_is_compare_b w"
  then have f: "field 30 25 w = 0x1A" by (simp add: inst_is_field)
  moreover have "field 31 24 w \<noteq> 0x54" using f field_within [of 31 24 w "0x54" 25 30] by (auto simp: field_numeral)
  moreover have "field 30 26 w \<noteq> 5" using field_within [OF f, of 26 30] by (simp add: field_numeral)
  ultimately show ?thesis by (simp add: a64_exec_def)
qed

lemma exec_class_test: "inst_is_test_b w \<Longrightarrow> a64_exec w s = Some (exec_tb w s)"
proof -
  assume "inst_is_test_b w"
  then have f: "field 30 25 w = 0x1B" by (simp add: inst_is_field)
  moreover have "field 31 24 w \<noteq> 0x54" using f field_within [of 31 24 w "0x54" 25 30] by (auto simp: field_numeral)
  moreover have "field 30 26 w \<noteq> 5" using field_within [OF f, of 26 30] by (simp add: field_numeral)
  ultimately show ?thesis by (simp add: a64_exec_def)
qed

lemma exec_class_adr: "inst_is_adr w \<or> inst_is_adrp w \<Longrightarrow> a64_exec w s = Some (exec_adr w s)"
proof -
  assume "inst_is_adr w \<or> inst_is_adrp w"
  then have f: "field 28 24 w = 0x10" by (auto simp: inst_is_field)
  have f1: "field 28 26 w = 4" "field 28 25 w = 8"
    using field_within [OF f, of 26 28] field_within [OF f, of 25 28] by (simp_all add: field_numeral)
  then have "field 31 24 w \<noteq> 0x54" "field 30 25 w \<noteq> 0x1A" "field 30 25 w \<noteq> 0x1B" "field 30 26 w \<noteq> 5"
    using f field_within [of 31 24 w "0x54" 24 28] field_within [of 30 25 w "0x1A" 25 28]
      field_within [of 30 25 w "0x1B" 25 28] field_within [of 30 26 w 5 26 28]
    by (auto simp: field_numeral)
  then show ?thesis using f by (simp add: a64_exec_def)
qed

lemma exec_class_ldr: "inst_is_ldr_literal w \<Longrightarrow> \<not> bit w 26 \<Longrightarrow> a64_exec w s = Some (exec_ldr_literal w s)"
proof -
  assume w: "inst_is_ldr_literal w" "\<not> bit w 26"
  then have f: "field 29 27 w = 3" "field 25 24 w = 0" by (simp_all add: inst_is_field)
  have l: "field 29 24 w = 0x18"
    using w f field_split [of 24 27 29 w] field_split [of 24 26 26 w] by (simp add: bit_field_iff)
  have f1: "field 28 26 w = 6" "field 28 25 w = 0xC" "field 28 24 w = 0x18"
    using field_within [OF l, of 26 28] field_within [OF l, of 25 28] field_within [OF l, of 24 28] by (simp_all add: field_numeral)
  then have "field 31 24 w \<noteq> 0x54" "field 30 25 w \<noteq> 0x1A" "field 30 25 w \<noteq> 0x1B" "field 30 26 w \<noteq> 5"
    using field_within [of 31 24 w "0x54" 24 28] field_within [of 30 25 w "0x1A" 25 28]
      field_within [of 30 25 w "0x1B" 25 28] field_within [of 30 26 w 5 26 28]
    by (auto simp: field_numeral)
  then show ?thesis using l f1 by (simp add: a64_exec_def)
qed

section \<open>Loads and jumps through register 17\<close>

lemma field_set_bits:
  assumes "st \<le> fn" "hi < st \<or> fn < lo" "\<And>n. bit v n \<Longrightarrow> n \<le> fn - st"
  shows "field hi lo (set_bits_u w st fn v) = field hi lo w"
proof (rule bit_word_eqI)
  fix n
  have "\<not> bit v (lo + n - st)" if "fn < lo" using assms(3) [of "lo + n - st"] assms(1) that by force
  then show "bit (field hi lo (set_bits_u w st fn v)) n \<longleftrightarrow> bit (field hi lo w) n"
    using assms(1,2) by (auto simp: bit_simps dest: bit_imp_le_length)
qed

lemma field_encode_imm19: "24 \<le> lo \<or> hi < 5 \<Longrightarrow> field hi lo (encode_imm19_offset w off) = field hi lo w"
  unfolding encode_imm19_offset_def Let_def
  by (rule field_set_bits) (auto simp: bit_shifted_bits simp del: bit_unsigned_iff)

lemma exec_ldr17:
  assumes "fits 19 2 off"
  shows "a64_exec (encode_imm19_offset ldr17_word off) s = Some (wx 17 (load 8 (pc s + off) s) s, Fall)"
proof -
  have "push_bit 2 (sfield 23 5 (encode_imm19_offset ldr17_word off)) = off"
    using sfield_encode [OF _ _ _ bit_shifted_bits, of 23 5 off ldr17_word] assms
    by (simp add: encode_imm19_offset_def)
  then show ?thesis
    by (simp add: a64_exec_def field_encode_imm19 exec_ldr_literal_def ldr17_word_def field_numeral reg_def)
qed

lemma exec_br17:
  "a64_exec br17_word s = Some (s, Jump (xr s 17))" "a64_exec blr17_word s = Some (s, Call (xr s 17))"
  by (simp_all add: a64_exec_def br17_word_def blr17_word_def field_numeral reg_def rx_def)

lemma exec_ldr_base17:
  assumes "rt < 32"
  shows "a64_exec (0xF9400220 OR rt) s = Some (wx (unat rt) (load 8 (xr s 17) s) s, Fall)"
proof -
  have "\<not> bit rt 30" using not_bit_small [of rt 5 30] assms by simp
  then show ?thesis using assms
    by (simp add: a64_exec_def exec_ldr_imm_def a64_enc reg_def rxsp_def bit_or_iff)
qed

section \<open>Branches over the jump\<close>

lemma bit_3: "bit (3 :: u32) n \<longleftrightarrow> n < 2"
proof -
  have "bit (mask 2 :: u32) n \<longleftrightarrow> n < 2" by (auto simp: bit_mask_iff)
  then show ?thesis by (simp add: mask_eq_exp_minus_1)
qed

lemma sfield_skip:
  assumes "hi = 23 \<or> hi = 18"
  shows "push_bit 2 (sfield hi 5 (skip_word hi w)) = 12"
proof -
  have f: "fits (Suc (hi - 5)) 2 12" using assms by (auto simp: fits_def)
  have v: "bit (3 :: u32) n \<longleftrightarrow> n \<le> hi - 5 \<and> bit (12 :: u64) (2 + n)" for n
  proof -
    have "(12 :: u64) = push_bit 2 (mask 2)" by (simp add: mask_eq_exp_minus_1)
    then have "bit (12 :: u64) (2 + n) \<longleftrightarrow> n < 2" by (auto simp only: bit_push_bit_iff bit_mask_iff) auto
    then show ?thesis using assms by (auto simp: bit_3 simp del: bit_numeral_word_iff)
  qed
  show ?thesis unfolding skip_word_def by (rule sfield_encode [OF f _ _ v]) (use assms in auto)
qed

lemma field_skip: "hi = 23 \<or> hi = 18 \<Longrightarrow> h < 5 \<or> hi < lo \<Longrightarrow> field h lo (skip_word hi w) = field h lo w"
  unfolding skip_word_def by (rule field_set_bits) (auto simp: bit_3 simp del: bit_numeral_word_iff)

lemma bit_skip: "hi = 23 \<or> hi = 18 \<Longrightarrow> hi < n \<Longrightarrow> bit (skip_word hi w) n = bit w n"
  using bit_imp_le_length [of w n] by (auto simp: skip_word_def bit_set_bits_u bit_3 simp del: bit_numeral_word_iff)

lemma cond_flip:
  assumes "c < 14"
  shows "cond_holds (c XOR 1) s \<longleftrightarrow> \<not> cond_holds c s"
proof -
  have "unat c \<in> {..<14}" using assms by (simp add: word_less_nat_alt)
  then have "c \<in> of_nat ` {..<14}" by (rule image_eqI [rotated]) simp
  also have "(of_nat ` {..<14} :: u32 set) = {0, 1, 2, 3, 4, 5, 6, 7, 8, 9, 10, 11, 12, 13}"
    by (auto simp: lessThan_nat_numeral)
  finally show ?thesis
    by (elim insertE emptyE; simp add: cond_holds_def Let_def)
qed

text \<open>The inverted branch skips the two words after it exactly when the original is not taken.\<close>

lemma skip_cond_fields:
  assumes "inst_is_b_cond w" "\<not> bit w 24"
  defines "v \<equiv> skip_word 23 (set_bits_u w 0 3 (field 3 0 w XOR 1))"
  shows "a64_exec v s = Some (exec_b_cond v s)" "field 3 0 v = field 3 0 w XOR 1"
proof -
  let ?v = "set_bits_u w 0 3 (field 3 0 w XOR 1)"
  have small: "bit (field 3 0 w XOR 1) n \<Longrightarrow> n \<le> 3" for n by (auto simp: bit_simps bit_1_iff)
  have hi: "4 \<le> lo \<Longrightarrow> field hi lo ?v = field hi lo w" for hi lo
    by (rule field_set_bits) (use small in auto)
  have c: "field 3 0 ?v = field 3 0 w XOR 1"
    by (rule bit_word_eqI) (use small in \<open>auto simp: bit_simps\<close>)
  then show "field 3 0 v = field 3 0 w XOR 1" by (simp add: v_def field_skip)
  have "inst_is_b_cond (skip_word 23 ?v)" "\<not> bit (skip_word 23 ?v) 24"
    using assms(1,2) hi [of 25 31] by (auto simp: inst_is_field field_skip bit_skip bit_set_bits_u dest: small)
  then show "a64_exec v s = Some (exec_b_cond v s)" unfolding v_def by (rule exec_class_b_cond)
qed

lemma exec_skip_cond:
  assumes "inst_is_b_cond w" "\<not> bit w 24" "field 3 0 w < 14"
  shows "a64_exec (skip_word 23 (set_bits_u w 0 3 (field 3 0 w XOR 1))) s =
    Some (s, if cond_holds (field 3 0 w) s then Fall else Jump (pc s + 12))"
  using skip_cond_fields [OF assms(1,2)] cond_flip [OF assms(3)]
  by (simp add: exec_b_cond_def sfield_skip)

lemma flipped_fields:
  "25 \<le> lo \<or> hi < 24 \<Longrightarrow> field hi lo (w XOR 0x1000000 :: u32) = field hi lo w"
  "bit (w XOR 0x1000000 :: u32) n \<longleftrightarrow> (if n = 24 then \<not> bit w n else bit w n)"
proof -
  show "bit (w XOR 0x1000000 :: u32) n \<longleftrightarrow> (if n = 24 then \<not> bit w n else bit w n)" for n
    by (simp add: bit_xor_iff bit_24 del: bit_numeral_word_iff)
  then show "25 \<le> lo \<or> hi < 24 \<Longrightarrow> field hi lo (w XOR 0x1000000 :: u32) = field hi lo w"
    by (intro bit_word_eqI) (auto simp: bit_field)
qed

lemma exec_skip_compare:
  assumes "inst_is_compare_b w"
  shows "a64_exec (skip_word 23 (w XOR 0x1000000)) s =
    Some (s, if snd (exec_cb w s) = Fall then Jump (pc s + 12) else Fall)"
proof -
  have "inst_is_compare_b (skip_word 23 (w XOR 0x1000000))"
    using assms by (simp add: inst_is_field field_skip flipped_fields)
  from exec_class_compare [OF this, of s] show ?thesis
    by (simp add: exec_cb_def field_skip bit_skip flipped_fields sfield_skip reg_def)
qed

lemma exec_skip_test:
  assumes "inst_is_test_b w"
  shows "a64_exec (skip_word 18 (w XOR 0x1000000)) s =
    Some (s, if snd (exec_tb w s) = Fall then Jump (pc s + 12) else Fall)"
proof -
  have "inst_is_test_b (skip_word 18 (w XOR 0x1000000))"
    using assms by (simp add: inst_is_field field_skip flipped_fields)
  from exec_class_test [OF this, of s] show ?thesis
    by (simp add: exec_tb_def field_skip bit_skip flipped_fields sfield_skip reg_def tb_pos_def)
qed

end
