(* ===== verification/A64_Sim.thy ===== *)
theory A64_Sim
  imports A64_Exec
begin

text \<open>
  Correctness of the relocation: with the relocated code anywhere in memory, running the words of
  an instruction there does what the instruction does at its original address, up to the scratch
  register \<^verbatim>\<open>x17\<close>, and then goes on to the words of the next instruction; after the last
  one, control returns to the end of the original block.
\<close>

section \<open>The bound literal pool\<close>

text \<open>The load at word \<open>k\<close> is bound to a pool entry with value \<open>v\<close>.\<close>

definition lit_bound :: "u32 list \<Rightarrow> nat \<Rightarrow> u64 \<Rightarrow> bool" where
  "lit_bound fw k v \<longleftrightarrow> (\<exists>P. k < P \<and> Suc P < length fw \<and>
     fw ! k = encode_imm19_offset ldr17_word (of_nat (4 * P) - of_nat (4 * k)) \<and>
     fw ! P = lo32 v \<and> fw ! Suc P = hi32 v)"

lemma bind_lits_bound:
  assumes "distinct (map fst ls)" "\<forall>(k, v)\<in>set ls. k < length ws \<and> (\<exists>off. ws ! k = encode_imm19_offset ldr17_word off)"
    "(k, v) \<in> set ls"
  shows "lit_bound (bind_lits ws ls) k v"
proof -
  from assms(3) obtain i where i: "i < length ls" "ls ! i = (k, v)" by (auto simp: in_set_conv_nth)
  from assms(2,3) obtain off where k: "k < length ws" "ws ! k = encode_imm19_offset ldr17_word off" by force
  have lt: "\<forall>(k, v)\<in>set ls. k < length ws" using assms(2) by auto
  let ?P = "length ws + 2 * i"
  have "bind_lits ws ls ! k = encode_imm19_offset ldr17_word (of_nat (4 * ?P) - of_nat (4 * k))"
    using bind_lits_load [OF assms(1) lt i(1)] i(2) k(2) by (simp add: encode_imm19_twice)
  moreover have "bind_lits ws ls ! ?P = lo32 v" "bind_lits ws ls ! Suc ?P = hi32 v"
    using bind_lits_value [OF lt i(1)] i(2) by simp_all
  ultimately show ?thesis unfolding lit_bound_def using i k by (intro exI [of _ ?P]) simp
qed

lemma ldr17_encoded: "ldr17_word = encode_imm19_offset ldr17_word 0"
  by (simp add: ldr17_word_def encode_imm19_offset_def Let_def bits_s_def set_bits_u_def submask_def)

lemma lits_ok_encoded:
  "lits_ok ws ls \<Longrightarrow> \<forall>(k, v)\<in>set ls. k < length ws \<and> (\<exists>off. ws ! k = encode_imm19_offset ldr17_word off)"
  using ldr17_encoded by (fastforce simp: lits_ok_def)

lemma lits_ok_back: "lits_ok ws ls \<Longrightarrow> lits_ok (ws @ [ldr17_word, br17_word]) (ls @ [(length ws, back)])"
  using lits_ok_append [of ws ls "[ldr17_word, br17_word]" "[(0, back)]"] by (simp add: lits_ok_def)

lemma final_words_bound:
  assumes ok: "lits_ok ws ls"
  shows "(k, v) \<in> set ls \<Longrightarrow> lit_bound (final_words branch back ws ls) k v"
    and "branch \<Longrightarrow> lit_bound (final_words branch back ws ls) (length ws) back"
proof -
  let ?ws = "ws @ [ldr17_word, br17_word]" and ?ls = "ls @ [(length ws, back)]"
  have ok1: "lits_ok ?ws ?ls" by (rule lits_ok_back [OF ok])
  then have d: "distinct (map fst ?ls)" by (simp add: lits_ok_def)
  have "\<exists>off. bind_lits ?ws ?ls ! k = encode_imm19_offset ldr17_word off" if "(k, v) \<in> set ?ls" for k v
    using bind_lits_bound [OF d lits_ok_encoded [OF ok1] that] by (auto simp: lit_bound_def)
  then have "\<forall>(k, v)\<in>set ?ls. k < length (bind_lits ?ws ?ls) \<and> (\<exists>off. bind_lits ?ws ?ls ! k = encode_imm19_offset ldr17_word off)"
    using lits_ok_encoded [OF ok1] by fastforce
  note bnd = bind_lits_bound [OF d this]
  show "lit_bound (final_words branch back ws ls) (length ws) back" if "branch"
    using bnd [of "length ws" "back"] that by (simp add: final_words_def Let_def)
  show "lit_bound (final_words branch back ws ls) k v" if "(k, v) \<in> set ls"
    using bnd [of k v] bind_lits_bound [OF _ lits_ok_encoded [OF ok] that, unfolded fst_conv] that ok
    by (simp add: final_words_def Let_def lits_ok_def)
qed

lemma final_words_keeps:
  assumes "lits_ok ws ls" "j < length ws" "j \<notin> fst ` set ls"
  shows "final_words branch back ws ls ! j = ws ! j"
  using assms by (simp add: final_words_def Let_def bind_lits_keeps nth_append)

lemma final_words_br:
  assumes "lits_ok ws ls"
  shows "final_words True back ws ls ! Suc (length ws) = br17_word"
proof -
  have "Suc (length ws) \<notin> fst ` set (ls @ [(length ws, back)])"
    using assms by (force simp: lits_ok_def)
  then show ?thesis by (simp add: final_words_def Let_def bind_lits_keeps nth_append del: set_append)
qed

lemma length_final_words:
  "length (final_words branch back ws ls) =
     (if branch then length ws + 2 + 4 * (length ls + 1) else length ws + 2 * length ls)"
  by (simp add: final_words_def Let_def)

section \<open>Code in memory\<close>

lemma code_at_nth: "code_at m D ws \<Longrightarrow> j < length ws \<Longrightarrow> get_le m 4 (D + of_nat (4 * j)) = ws ! j"
proof (induction ws arbitrary: D j)
  case (Cons w ws)
  show ?case
  proof (cases j)
    case (Suc i)
    then show ?thesis using Cons.IH [of "D + 4" i] Cons.prems by (simp add: algebra_simps)
  qed (use Cons.prems in auto)
qed simp

lemma get_le_8:
  assumes "get_le m 4 a = lo32 v" "get_le m 4 (a + 4) = hi32 v"
  shows "get_le m 8 a = (v :: u64)"
proof (rule bit_word_eqI)
  fix n :: nat
  assume n: "n < LENGTH(64)"
  have lo: "bit (get_le m 4 a :: u32) n \<longleftrightarrow> bit v n" if "n < 32"
    using assms(1) that by (simp add: lo32_def bit_simps)
  have hi: "bit (get_le m 4 (a + 4) :: u32) (n - 32) \<longleftrightarrow> bit v n" if "32 \<le> n"
    using assms(2) that n by (auto simp: hi32_def bit_simps)
  show "bit (get_le m 8 a :: u64) n \<longleftrightarrow> bit v n"
  proof (cases "n < 32")
    case False
    then obtain k where k: "n = k + 32" by (metis add.commute le_Suc_ex not_less)
    have "(k + 32) div 8 = k div 8 + 4" "(k + 32) mod 8 = k mod 8" by simp presburger
    then show ?thesis using hi False n by (auto simp: k bit_get_le algebra_simps)
  qed (use lo n in \<open>auto simp: bit_get_le\<close>)
qed

lemma code_at_sub:
  assumes "code_at m D fw" "p + length cs \<le> length fw" "\<forall>q<length cs. fw ! (p + q) = cs ! q"
  shows "code_at m (D + of_nat (4 * p)) cs"
  using assms(2,3)
proof (induction cs arbitrary: p)
  case (Cons c cs)
  have "code_at m (D + of_nat (4 * Suc p)) cs"
    by (rule Cons.IH) (use Cons.prems in \<open>auto dest: spec [of _ "Suc _"]\<close>)
  moreover have "get_le m 4 (D + of_nat (4 * p)) = c"
    using code_at_nth [OF assms(1), of p] Cons.prems by force
  ultimately show ?case by (simp add: algebra_simps)
qed simp

lemma fits_forward:
  assumes "k < P" "P < 2 ^ 18"
  shows "fits 19 2 (of_nat (4 * P) - of_nat (4 * k))"
proof -
  have e: "(of_nat (4 * P) - of_nat (4 * k) :: u64) = of_nat (4 * (P - k))"
    using assms(1) by (simp add: of_nat_diff algebra_simps)
  have small: "4 * (P - k) < 2 ^ 63" using assms(2) by simp
  have "sint (of_nat n :: u64) = int n" if "n < 2 ^ 63" for n
    using that by (simp add: signed_of_nat signed_take_bit_int_eq_self)
  from this [OF small] have "sint (of_nat (4 * (P - k)) :: u64) = int (4 * (P - k))" .
  moreover have "(of_nat (4 * (P - k)) :: u64) = push_bit 2 (of_nat (P - k))"
    by (simp add: push_bit_eq_mult)
  then have "take_bit 2 (of_nat (4 * (P - k)) :: u64) = 0" by (simp add: take_bit_push_bit)
  ultimately show ?thesis using assms by (simp add: e fits_def)
qed

text \<open>One step at a word of the relocated code, and the load of a literal.\<close>

lemma step_at:
  assumes "code_at (mem s) D fw" "j < length fw" "pc s = D + of_nat (4 * j)" "a64_exec (fw ! j) s = Some (t, fl)"
  shows "a64_step s = Some (finish fl (D + of_nat (4 * Suc j)) t)"
  using code_at_nth [OF assms(1,2)] assms(3,4) by (simp add: a64_step_def fetch_def algebra_simps)

lemma step_lit:
  assumes "code_at (mem s) D fw" "lit_bound fw k v" "length fw \<le> 2 ^ 18" "pc s = D + of_nat (4 * k)"
  shows "a64_step s = Some (s\<lparr>xr := (xr s)(17 := v), pc := D + of_nat (4 * Suc k)\<rparr>)"
proof -
  from assms(2) obtain P where P: "k < P" "Suc P < length fw"
    "fw ! k = encode_imm19_offset ldr17_word (of_nat (4 * P) - of_nat (4 * k))"
    "fw ! P = lo32 v" "fw ! Suc P = hi32 v" by (auto simp: lit_bound_def)
  have off: "fits 19 2 (of_nat (4 * P) - of_nat (4 * k))"
    using P(1,2) assms(3) by (intro fits_forward) auto
  have "pc s + (of_nat (4 * P) - of_nat (4 * k)) = D + of_nat (4 * P)" using assms(4) by simp
  moreover have "get_le (mem s) 8 (D + of_nat (4 * P)) = v"
    using code_at_nth [OF assms(1), of P] code_at_nth [OF assms(1), of "Suc P"] P
    by (intro get_le_8) (simp_all add: algebra_simps)
  ultimately have "a64_exec (fw ! k) s = Some (wx 17 v s, Fall)"
    using exec_ldr17 [OF off, of s] P(3) unfolding load_def by (simp only: mem_Collect_eq)
  from step_at [OF assms(1) _ assms(4) this] show ?thesis using P(1,2) by (simp add: wx_def)
qed

lemma run_seq_at:
  assumes "code_at (mem s) D fw" "p + length cs \<le> length fw" "\<forall>q<length cs. fw ! (p + q) = cs ! q"
    "pc s = D + of_nat (4 * p)" "exec_seq cs s = Some t"
  shows "a64_run (length cs) s = Some t"
  using exec_seq_run [OF assms(5)] code_at_sub [OF assms(1-3)] assms(4) by simp

section \<open>Simulation of one instruction\<close>

text \<open>
  The instructions whose relocation is covered: branches, the 64-bit literal load of a general
  register, address computations, and conditional branches with a real condition.
\<close>

definition relocatable :: "u32 \<Rightarrow> bool" where
  "relocatable w \<longleftrightarrow> inst_is_b_bl w \<or> (inst_is_ldr_literal w \<and> \<not> bit w 26 \<and> field 31 30 w = 1) \<or>
     inst_is_adr w \<or> inst_is_adrp w \<or> (inst_is_b_cond w \<and> \<not> bit w 24 \<and> field 3 0 w < 14) \<or>
     inst_is_compare_b w \<or> inst_is_test_b w"

text \<open>The instructions that write a register other than the link register.\<close>

definition writes_reg :: "u32 \<Rightarrow> nat \<Rightarrow> bool" where
  "writes_reg w r \<longleftrightarrow> (inst_is_ldr_literal w \<or> inst_is_adr w \<or> inst_is_adrp w) \<and> reg 4 0 w = r"

text \<open>
  \<open>placed fw p cs l\<close>: the words \<open>cs\<close> stand at \<open>p\<close> in the final code, their literal loads bound.
\<close>

definition placed :: "u32 list \<Rightarrow> nat \<Rightarrow> u32 list \<Rightarrow> lits \<Rightarrow> bool" where
  "placed fw p cs l \<longleftrightarrow> p + length cs \<le> length fw \<and> length fw \<le> 2 ^ 18 \<and>
     (\<forall>q<length cs. q \<notin> fst ` set l \<longrightarrow> fw ! (p + q) = cs ! q) \<and>
     (\<forall>(q, v)\<in>set l. lit_bound fw (p + q) v)"

text \<open>The state after the instruction, with control in the relocated code and \<open>z\<close> in \<^verbatim>\<open>x17\<close>.\<close>

definition simulates :: "a64 \<Rightarrow> u32 \<Rightarrow> u64 \<Rightarrow> u64 \<Rightarrow> bool" where
  "simulates s inst cur nxt \<longleftrightarrow> (\<exists>t fl k z. a64_exec inst (s\<lparr>pc := cur\<rparr>) = Some (t, fl) \<and>
     (writes_reg inst 17 \<longrightarrow> z = xr t 17) \<and>
     a64_run k s = Some (finish fl nxt (t\<lparr>xr := (xr t)(17 := z)\<rparr>)))"

lemma simulatesI:
  assumes "a64_exec inst (s\<lparr>pc := cur\<rparr>) = Some (t, fl)" "writes_reg inst 17 \<Longrightarrow> z = xr t 17"
    "a64_run k s = Some (finish fl nxt (t\<lparr>xr := (xr t)(17 := z)\<rparr>))"
  shows "simulates s inst cur nxt"
  using assms by (auto simp: simulates_def)

lemma br17_neq [simp]: "br17_word \<noteq> blr17_word" "blr17_word \<noteq> br17_word"
  by (simp_all add: br17_word_def blr17_word_def)

text \<open>The classes exclude each other: bits 28 to 26 tell branches from the rest.\<close>

lemma branch_class:
  assumes "inst_is_b_bl w \<or> inst_is_b_cond w \<or> inst_is_compare_b w \<or> inst_is_test_b w"
  shows "\<not> inst_is_ldr_literal w" "\<not> inst_is_adr w" "\<not> inst_is_adrp w" "\<not> writes_reg w r"
proof -
  have f: "field 28 26 w = 5"
    using assms field_within [of 30 26 w 5 26 28] field_within [of 31 25 w "0x2A" 26 28]
      field_within [of 30 25 w "0x1A" 26 28] field_within [of 30 25 w "0x1B" 26 28]
    by (auto simp: inst_is_field field_numeral)
  then have "field 28 27 w = 2" using field_within [of 28 26 w 5 27 28] by (simp add: field_numeral)
  moreover have "field 1 0 (3 :: u32) = 3" by (simp add: field_def take_bit_eq_mod)
  ultimately have "field 29 27 w \<noteq> 3" using field_within [of 29 27 w 3 27 28] by auto
  moreover have "field 28 24 w \<noteq> 0x10" using f field_within [of 28 24 w "0x10" 26 28] by (force simp: field_numeral)
  ultimately show "\<not> inst_is_ldr_literal w" "\<not> inst_is_adr w" "\<not> inst_is_adrp w"
    by (simp_all add: inst_is_field)
  then show "\<not> writes_reg w r" by (simp add: writes_reg_def)
qed

lemma jump_via_17:
  assumes "code_at (mem s) D fw" "placed fw p cs l" "cs = xs @ [ldr17_word, w]" "l = [(length xs, v)]"
    "pc s = D + of_nat (4 * (p + length xs))" "w = br17_word \<or> w = blr17_word"
  shows "a64_run 2 s = Some (finish (if w = br17_word then Jump v else Call v) (D + of_nat (4 * (p + length cs)))
    (s\<lparr>xr := (xr s)(17 := v)\<rparr>))"
proof -
  let ?k = "p + length xs"
  let ?s = "s\<lparr>xr := (xr s)(17 := v), pc := D + of_nat (4 * Suc ?k)\<rparr>"
  have lit: "lit_bound fw ?k v" and len: "Suc ?k < length fw" "length fw \<le> 2 ^ 18"
    and keep: "\<forall>q<length cs. q \<notin> fst ` set l \<longrightarrow> fw ! (p + q) = cs ! q"
    using assms(2) by (simp_all add: placed_def assms(3,4))
  have w: "fw ! Suc ?k = w" using keep [rule_format, of "Suc (length xs)"] by (simp add: assms(3,4) nth_append)
  have "a64_step s = Some ?s" by (rule step_lit [OF assms(1) lit len(2) assms(5)])
  moreover have ex: "a64_exec (fw ! Suc ?k) ?s = Some (?s, if w = br17_word then Jump v else Call v)"
    using assms(6) w by (auto simp: exec_br17)
  have "a64_step ?s = Some (finish (if w = br17_word then Jump v else Call v) (D + of_nat (4 * Suc (Suc ?k))) ?s)"
    using step_at [OF _ len(1) _ ex] assms(1) by simp
  ultimately show ?thesis using assms(3) by (simp add: numeral_2_eq_2 algebra_simps)
qed

lemma simulates_b:
  assumes "inst_is_b_bl inst" "code_at (mem s) D fw" "relo_code ndebug cur inst = Some (cs, l)" "placed fw p cs l"
    "pc s = D + of_nat (4 * p)"
  shows "simulates s inst cur (D + of_nat (4 * (p + length cs)))"
proof -
  let ?v = "cur + decode_imm26_offset inst" and ?w = "if inst AND UnconditionalBranchMask = BL then blr17_word else br17_word"
  from assms(1,3) have cs: "cs = [] @ [ldr17_word, ?w]" "l = [(length ([] :: u32 list), ?v)]" by (simp_all add: relo_code_def)
  have "field 31 26 inst = 0x25 \<longleftrightarrow> bit inst 31"
    using assms(1) field_split [of 26 31 31 inst] by (auto simp: inst_is_field bit_field_iff)
  then have link: "?w = br17_word \<longleftrightarrow> \<not> bit inst 31" by (simp add: branch_mask_field)
  have ex: "a64_exec inst (s\<lparr>pc := cur\<rparr>) = Some (s\<lparr>pc := cur\<rparr>, if ?w = br17_word then Jump ?v else Call ?v)"
    unfolding link using exec_class_b [OF assms(1), of "s\<lparr>pc := cur\<rparr>"] by (simp add: exec_b_def decode_imm26_sfield)
  have "a64_run 2 s = Some (finish (if ?w = br17_word then Jump ?v else Call ?v) (D + of_nat (4 * (p + length cs))) (s\<lparr>xr := (xr s)(17 := ?v)\<rparr>))"
    by (rule jump_via_17 [OF assms(2,4) cs]) (use assms(5) in auto)
  then show ?thesis
    by (intro simulatesI [OF ex, of ?v 2]) (use branch_class(4) assms(1) in auto)
qed

text \<open>The conditional branches: the inverted branch decides, the jump goes through \<^verbatim>\<open>x17\<close>.\<close>

lemma simulates_skip:
  assumes "code_at (mem s) D fw" "placed fw p cs l" "cs = [w, ldr17_word, br17_word]" "l = [(1, v)]"
    "pc s = D + of_nat (4 * p)" "\<not> writes_reg inst 17"
    and ex: "a64_exec inst (s\<lparr>pc := cur\<rparr>) = Some (s\<lparr>pc := cur\<rparr>, if taken then Jump v else Fall)"
    and skip: "a64_exec w s = Some (s, if taken then Fall else Jump (pc s + 12))"
  shows "simulates s inst cur (D + of_nat (4 * (p + length cs)))"
proof -
  have len: "p < length fw" and keep: "\<forall>q<length cs. q \<notin> fst ` set l \<longrightarrow> fw ! (p + q) = cs ! q"
    using assms(2) by (simp_all add: placed_def assms(3))
  have w: "fw ! p = w" using keep [rule_format, of 0] by (simp add: assms(3,4))
  have step: "a64_step s = Some (finish (if taken then Fall else Jump (pc s + 12)) (D + of_nat (4 * Suc p)) s)"
    using step_at [OF assms(1) len assms(5)] skip w by simp
  show ?thesis
  proof (cases taken)
    case True
    let ?s = "s\<lparr>pc := D + of_nat (4 * Suc p)\<rparr>"
    have "a64_run 2 ?s = Some (finish (if br17_word = br17_word then Jump v else Call v) (D + of_nat (4 * (p + length cs)))
        (?s\<lparr>xr := (xr ?s)(17 := v)\<rparr>))"
      by (rule jump_via_17 [where xs = "[w]" and l = l]) (use assms in simp_all)
    then have "a64_run 3 s = Some (s\<lparr>xr := (xr s)(17 := v), pc := v\<rparr>)"
      using step True by (simp add: numeral_3_eq_3 numeral_2_eq_2)
    then show ?thesis using True ex assms(6) by (intro simulatesI [OF ex, of v 3]) simp_all
  next
    case False
    have "a64_run 1 s = Some (s\<lparr>pc := D + of_nat (4 * (p + length cs))\<rparr>)"
      using step False assms(3,5) by (simp add: algebra_simps)
    then show ?thesis using False assms(6) by (intro simulatesI [OF ex, of "xr s 17" 1]) simp_all
  qed
qed

lemma simulates_b_cond:
  assumes "inst_is_b_cond inst" "\<not> bit inst 24" "field 3 0 inst < 14" "code_at (mem s) D fw"
    "relo_code ndebug cur inst = Some (cs, l)" "placed fw p cs l" "pc s = D + of_nat (4 * p)"
  shows "simulates s inst cur (D + of_nat (4 * (p + length cs)))"
proof -
  have cls: "\<not> inst_is_b_bl inst" "\<not> inst_is_ldr_literal inst" "\<not> inst_is_adr inst" "\<not> inst_is_adrp inst"
    using branch_class [of inst] assms(1) field_within [of 31 25 inst "0x2A" 26 30]
    by (auto simp: inst_is_field field_numeral)
  have cs: "cs = [skip_word 23 (set_bits_u inst 0 3 (field 3 0 inst XOR 1)), ldr17_word, br17_word]"
    "l = [(1, cur + decode_imm19_offset inst)]" using assms(1,5) cls by (simp_all add: relo_code_def)
  have "a64_exec inst (s\<lparr>pc := cur\<rparr>) =
      Some (s\<lparr>pc := cur\<rparr>, if cond_holds (field 3 0 inst) s then Jump (cur + decode_imm19_offset inst) else Fall)"
    using exec_class_b_cond [OF assms(1,2), of "s\<lparr>pc := cur\<rparr>"]
    by (simp add: exec_b_cond_def decode_imm19_sfield cond_holds_def)
  from simulates_skip [OF assms(4,6) cs assms(7) _ this exec_skip_cond [OF assms(1-3)]]
  show ?thesis using branch_class(4) [of inst 17] assms(1) by simp
qed

lemma simulates_compare:
  assumes "inst_is_compare_b inst" "code_at (mem s) D fw"
    "relo_code ndebug cur inst = Some (cs, l)" "placed fw p cs l" "pc s = D + of_nat (4 * p)"
  shows "simulates s inst cur (D + of_nat (4 * (p + length cs)))"
proof -
  have cls: "\<not> inst_is_b_bl inst" "\<not> inst_is_ldr_literal inst" "\<not> inst_is_adr inst" "\<not> inst_is_adrp inst" "\<not> inst_is_b_cond inst"
    using branch_class [of inst] assms(1) field_within [of 30 25 inst "0x1A" 26 30] field_within [of 31 25 inst "0x2A" 25 30]
    by (auto simp: inst_is_field field_numeral)
  let ?taken = "snd (exec_cb inst s) \<noteq> Fall"
  have cs: "cs = [skip_word 23 (inst XOR 0x1000000), ldr17_word, br17_word]"
    "l = [(1, cur + decode_imm19_offset inst)]" using assms(1,3) cls by (simp_all add: relo_code_def)
  have "a64_exec inst (s\<lparr>pc := cur\<rparr>) =
      Some (s\<lparr>pc := cur\<rparr>, if ?taken then Jump (cur + decode_imm19_offset inst) else Fall)"
    using exec_class_compare [OF assms(1), of "s\<lparr>pc := cur\<rparr>"]
    by (simp add: exec_cb_def decode_imm19_sfield rx_def)
  from simulates_skip [OF assms(2,4) cs assms(5) _ this]
  show ?thesis using branch_class(4) [of inst 17] assms(1) exec_skip_compare [OF assms(1), of s] by auto
qed

lemma simulates_test:
  assumes "inst_is_test_b inst" "code_at (mem s) D fw"
    "relo_code ndebug cur inst = Some (cs, l)" "placed fw p cs l" "pc s = D + of_nat (4 * p)"
  shows "simulates s inst cur (D + of_nat (4 * (p + length cs)))"
proof -
  have cls: "\<not> inst_is_b_bl inst" "\<not> inst_is_ldr_literal inst" "\<not> inst_is_adr inst" "\<not> inst_is_adrp inst" "\<not> inst_is_b_cond inst"
      "\<not> inst_is_compare_b inst"
    using branch_class [of inst] assms(1) field_within [of 30 25 inst "0x1B" 26 30] field_within [of 31 25 inst "0x2A" 25 30]
    by (auto simp: inst_is_field field_numeral)
  let ?taken = "snd (exec_tb inst s) \<noteq> Fall"
  have cs: "cs = [skip_word 18 (inst XOR 0x1000000), ldr17_word, br17_word]"
    "l = [(1, cur + decode_imm14_offset inst)]" using assms(1,3) cls by (simp_all add: relo_code_def)
  have "a64_exec inst (s\<lparr>pc := cur\<rparr>) =
      Some (s\<lparr>pc := cur\<rparr>, if ?taken then Jump (cur + decode_imm14_offset inst) else Fall)"
    using exec_class_test [OF assms(1), of "s\<lparr>pc := cur\<rparr>"]
    by (simp add: exec_tb_def decode_imm14_sfield rx_def)
  from simulates_skip [OF assms(2,4) cs assms(5) _ this]
  show ?thesis using branch_class(4) [of inst 17] assms(1) exec_skip_test [OF assms(1), of s] by auto
qed

text \<open>Straight-line replacements.\<close>

lemma placed_straight:
  assumes "code_at (mem s) D fw" "placed fw p cs []" "pc s = D + of_nat (4 * p)" "exec_seq cs s = Some t"
  shows "a64_run (length cs) s = Some t"
  by (rule run_seq_at [OF assms(1) _ _ assms(3,4)]) (use assms(2) in \<open>auto simp: placed_def\<close>)

lemma rt_field: "decode_rt w = field 4 0 w" "decode_rd w = field 4 0 w" "unat (field 4 0 w) = reg 4 0 w" "field 4 0 w < (32 :: u32)"
proof -
  show "decode_rt w = field 4 0 w" "decode_rd w = field 4 0 w"
    unfolding decode_rt_def decode_rd_def by (rule bit_word_eqI; auto simp: bit_simps)+
  have "field 4 0 w = w AND mask 5" by (simp add: field_def take_bit_eq_mask)
  then show "field 4 0 w < (32 :: u32)" using and_mask_less' [of 5 w] by simp
qed (simp add: reg_def)

lemma exec_seq_append:
  "exec_seq us s = Some t \<Longrightarrow> exec_seq (us @ ws) s = exec_seq ws t"
  by (induction us arbitrary: s) (auto split: Option.bind_splits prod.splits if_splits)

lemma page_add: "arm64_trunc_page (a + push_bit 12 x) = (a AND NOT 0xFFF) + push_bit 12 x"
proof -
  have m: "(0x1000 - 1 :: u64) = mask 12" "(0xFFF :: u64) = mask 12" by (simp_all add: mask_eq_exp_minus_1)
  have split: "(b :: u64) = push_bit 12 (drop_bit 12 b) + take_bit 12 b" for b
    by (simp add: bits_ident)
  have keep: "(b :: u64) AND NOT (mask 12) = push_bit 12 (drop_bit 12 b)" for b
    by (rule bit_word_eqI) (auto simp: bit_simps)
  have "a + push_bit 12 x = push_bit 12 (drop_bit 12 a + x) + take_bit 12 a"
    by (subst (1) split [of a]) (simp add: push_bit_add)
  also have "\<dots> = push_bit 12 (drop_bit 12 a + x) OR take_bit 12 a"
    by (rule disjunctive_add) (auto simp: bit_simps)
  finally have "(a + push_bit 12 x) AND NOT (mask 12) = push_bit 12 (drop_bit 12 a + x)"
    by (simp only:) (rule bit_word_eqI, auto simp: bit_simps)
  then show ?thesis unfolding arm64_trunc_page_def m keep [of a] by (simp add: push_bit_add)
qed

lemma simulates_adr:
  assumes "inst_is_adr inst \<or> inst_is_adrp inst" "code_at (mem s) D fw"
    "relo_code ndebug cur inst = Some (cs, l)" "placed fw p cs l" "pc s = D + of_nat (4 * p)"
  shows "simulates s inst cur (D + of_nat (4 * (p + length cs)))"
proof -
  let ?rd = "reg 4 0 inst"
  let ?v = "if bit inst 31 then (cur AND NOT 0xFFF) + push_bit 12 (adr_imm inst) else cur + adr_imm inst"
  have f: "field 28 24 inst = 0x10" using assms(1) by (auto simp: inst_is_field)
  have "\<not> inst_is_b_bl inst" using branch_class [of inst] assms(1) by auto
  moreover have "\<not> inst_is_ldr_literal inst"
  proof
    assume "inst_is_ldr_literal inst"
    then have "field 25 24 inst = 0" "field 29 27 inst = 3" by (auto simp: inst_is_field)
    then have "field 28 27 inst = field 1 0 3" using field_within [of 29 27 inst 3 27 28] by simp
    moreover have "field 1 0 (3 :: u32) = 3" by (simp add: field_def take_bit_eq_mod)
    moreover have "field 28 27 inst = 2" using field_within [OF f, of 27 28] by (simp add: field_numeral)
    ultimately show False by simp
  qed
  moreover have "inst_is_adr inst \<longleftrightarrow> \<not> bit inst 31" "inst_is_adrp inst \<longleftrightarrow> bit inst 31"
    using f by (auto simp: inst_is_field bit_field_iff)
  ultimately have cs: "cs = mov_words (decode_rd inst) ?v" "l = []"
    using assms(1,3)
    by (auto simp: relo_code_def decode_adr_imm decode_immhi_immlo_zero12_offset_def page_add)
  have "exec_seq cs s = Some ((wx ?rd ?v s)\<lparr>pc := pc s + 16\<rparr>)"
    unfolding cs using exec_mov_words [of "decode_rd inst" ?v s] by (simp add: rt_field)
  from placed_straight [OF assms(2) _ assms(5) this]
  have run: "a64_run (length cs) s = Some ((wx ?rd ?v s)\<lparr>pc := D + of_nat (4 * (p + length cs))\<rparr>)"
    using assms(4,5) cs by (simp add: mov_words_def algebra_simps)
  have ex: "a64_exec inst (s\<lparr>pc := cur\<rparr>) = Some (wx ?rd ?v (s\<lparr>pc := cur\<rparr>), Fall)"
    using exec_class_adr [OF assms(1), of "s\<lparr>pc := cur\<rparr>"] by (simp add: exec_adr_def)
  have "(wx ?rd ?v (s\<lparr>pc := cur\<rparr>))\<lparr>pc := n\<rparr> = (wx ?rd ?v s)\<lparr>pc := n\<rparr>" for n by (simp add: wx_def)
  then show ?thesis
    by (intro simulatesI [OF ex, of "xr (wx ?rd ?v (s\<lparr>pc := cur\<rparr>)) 17" "length cs"]) (simp_all add: run)
qed

lemma simulates_ldr:
  assumes "inst_is_ldr_literal inst" "\<not> bit inst 26" "field 31 30 inst = 1" "code_at (mem s) D fw"
    "relo_code ndebug cur inst = Some (cs, l)" "placed fw p cs l" "pc s = D + of_nat (4 * p)"
  shows "simulates s inst cur (D + of_nat (4 * (p + length cs)))"
proof -
  let ?rt = "reg 4 0 inst" and ?v = "cur + decode_imm19_offset inst"
  have "\<not> inst_is_b_bl inst" using branch_class [of inst] assms(1) by auto
  then have cs: "cs = mov_words 17 ?v @ [0xF9400220 OR decode_rt inst]" "l = []"
    using assms(1,3,5) by (simp_all add: relo_code_def)
  let ?s = "(wx 17 ?v s)\<lparr>pc := pc s + 16\<rparr>" and ?m = "load 8 ?v s"
  have "exec_seq (mov_words 17 ?v) s = Some ?s" using exec_mov_words [of 17 ?v s] by simp
  then have "exec_seq cs s = exec_seq [0xF9400220 OR decode_rt inst] ?s" unfolding cs by (rule exec_seq_append)
  also have "\<dots> = Some ((wx ?rt ?m ?s)\<lparr>pc := pc s + 20\<rparr>)"
    using exec_ldr_base17 [of "field 4 0 inst" ?s] by (simp add: rt_field wx_def load_def)
  finally have seq: "exec_seq cs s = Some ((wx ?rt ?m ?s)\<lparr>pc := pc s + 20\<rparr>)" .
  from placed_straight [OF assms(4) _ assms(7) this]
  have run: "a64_run (length cs) s = Some ((wx ?rt ?m (wx 17 ?v s))\<lparr>pc := D + of_nat (4 * (p + length cs))\<rparr>)"
    using assms(6,7) cs by (simp add: mov_words_def wx_def algebra_simps)
  have ex: "a64_exec inst (s\<lparr>pc := cur\<rparr>) = Some (wx ?rt ?m (s\<lparr>pc := cur\<rparr>), Fall)"
    using exec_class_ldr [OF assms(1,2), of "s\<lparr>pc := cur\<rparr>"] assms(3)
    by (simp add: exec_ldr_literal_def decode_imm19_sfield load_def Let_def)
  show ?thesis
    by (rule simulatesI [OF ex, of "if ?rt = 17 then ?m else ?v" "length cs"])
      (auto simp: run wx_def writes_reg_def fun_upd_twist)
qed

lemma relo_code_simulates:
  assumes "relocatable inst" "code_at (mem s) D fw"
    "relo_code ndebug cur inst = Some (cs, l)" "placed fw p cs l" "pc s = D + of_nat (4 * p)"
  shows "simulates s inst cur (D + of_nat (4 * (p + length cs)))"
  using assms unfolding relocatable_def
  by (metis simulates_b simulates_ldr simulates_adr simulates_b_cond simulates_compare simulates_test)

end
