(* ===== verification/A64_Correct.thy ===== *)
theory A64_Correct
  imports A64_Sim
begin

text \<open>
  The relocated block as a whole: where its instructions are in the code buffer, how long the
  buffer gets, when the relocation gives up, and the properties of \<^verbatim>\<open>relo_relocate\<close>. The code
  buffer may be loaded at any address.
\<close>

section \<open>The position of an instruction in the relocated code\<close>

lemma relo_block_extends:
  "relo_block ndebug is ws ls = Some (ws', ls') \<Longrightarrow>
     \<exists>ws2 ls2. ws' = ws @ ws2 \<and> ls' = ls @ ls2 \<and> (\<forall>(k, v)\<in>set ls2. length ws \<le> k)"
proof (induction ndebug "is" ws ls rule: relo_block.induct)
  case (2 ndebug cur inst "is" ws ls)
  from 2(2) obtain cs l where c: "relo_code ndebug cur inst = Some (cs, l)"
    and rest: "relo_block ndebug is (ws @ cs) (ls @ shift_lits (length ws) l) = Some (ws', ls')"
    by (auto split: Option.bind_splits)
  from 2(1) [OF c refl rest] obtain ws2 ls2 where "ws' = (ws @ cs) @ ws2"
    "ls' = (ls @ shift_lits (length ws) l) @ ls2" "\<forall>(k, v)\<in>set ls2. length (ws @ cs) \<le> k" by blast
  then show ?case
    by (intro exI [of _ "cs @ ws2"] exI [of _ "shift_lits (length ws) l @ ls2"]) (auto simp: shift_lits_def)
qed simp

lemma relo_block_at:
  assumes blk: "relo_block ndebug is [] [] = Some (ws, ls)" and i: "i < length is" and at: "is ! i = (cur, inst)"
  obtains ws1 ls1 cs l ws2 ls2 where
    "relo_block ndebug (take i is) [] [] = Some (ws1, ls1)" "relo_code ndebug cur inst = Some (cs, l)"
    "relo_block ndebug (take (Suc i) is) [] [] = Some (ws1 @ cs, ls1 @ shift_lits (length ws1) l)"
    "ws = ws1 @ cs @ ws2" "ls = ls1 @ shift_lits (length ws1) l @ ls2" "lits_ok ws1 ls1"
    "\<forall>(k, v)\<in>set ls2. length (ws1 @ cs) \<le> k"
proof -
  have split: "is = take i is @ (cur, inst) # drop (Suc i) is" using i at id_take_nth_drop [OF i] by simp
  from blk obtain ws1 ls1 where 1: "relo_block ndebug (take i is) [] [] = Some (ws1, ls1)"
    and 2: "relo_block ndebug ((cur, inst) # drop (Suc i) is) ws1 ls1 = Some (ws, ls)"
    by (subst (asm) split, subst (asm) relo_block_append) (auto split: Option.bind_splits)
  from 2 obtain cs l where c: "relo_code ndebug cur inst = Some (cs, l)"
    and rest: "relo_block ndebug (drop (Suc i) is) (ws1 @ cs) (ls1 @ shift_lits (length ws1) l) = Some (ws, ls)"
    by (auto split: Option.bind_splits)
  have nxt: "relo_block ndebug (take (Suc i) is) [] [] = Some (ws1 @ cs, ls1 @ shift_lits (length ws1) l)"
    using 1 c by (simp add: take_Suc_conv_app_nth [OF i] at relo_block_append)
  from relo_block_extends [OF rest] obtain ws2 ls2 where
    "ws = (ws1 @ cs) @ ws2" "ls = (ls1 @ shift_lits (length ws1) l) @ ls2" "\<forall>(k, v)\<in>set ls2. length (ws1 @ cs) \<le> k"
    by blast
  with nxt relo_block_lits [OF 1 lits_ok_nil] show thesis by (intro that [OF 1 c]) simp_all
qed

text \<open>The words of an instruction are placed in the final code.\<close>

lemma placed_in_final:
  assumes blk: "relo_block ndebug is [] [] = Some (ws, ls)" and parts: "ws = ws1 @ cs @ ws2"
    "ls = ls1 @ shift_lits (length ws1) l @ ls2" "lits_ok ws1 ls1" "\<forall>(k, v)\<in>set ls2. length (ws1 @ cs) \<le> k"
    and size: "length (final_words branch back ws ls) \<le> 2 ^ 18"
  shows "placed (final_words branch back ws ls) (length ws1) cs l"
proof -
  let ?fw = "final_words branch back ws ls" and ?p = "length ws1"
  have ok: "lits_ok ws ls" using relo_block_lits [OF blk] by simp
  have "?fw ! (?p + q) = cs ! q" if "q < length cs" "q \<notin> fst ` set l" for q
  proof -
    have "?p + q \<notin> fst ` set ls"
    proof
      assume "?p + q \<in> fst ` set ls"
      then have "\<exists>v. (?p + q, v) \<in> set ls1 \<or> (q, v) \<in> set l \<or> (?p + q, v) \<in> set ls2"
        by (auto simp: parts shift_lits_def)
      then obtain v where "(?p + q, v) \<in> set ls1 \<or> (q, v) \<in> set l \<or> (?p + q, v) \<in> set ls2" ..
      then show False using that parts(3,4) by (force simp: lits_ok_def)
    qed
    then have "?fw ! (?p + q) = ws ! (?p + q)"
      by (intro final_words_keeps [OF ok]) (use that in \<open>auto simp: parts\<close>)
    then show ?thesis using that by (simp add: parts nth_append)
  qed
  moreover have "lit_bound ?fw (?p + q) v" if "(q, v) \<in> set l" for q v
    by (rule final_words_bound(1) [OF ok]) (use that in \<open>force simp: parts shift_lits_def\<close>)
  moreover have "?p + length cs \<le> length ?fw" by (simp add: length_final_words parts)
  ultimately show ?thesis using size by (auto simp: placed_def)
qed

section \<open>The block\<close>

text \<open>\<open>loaded m D bs\<close>: the bytes are in memory from \<open>D\<close> on.\<close>

definition loaded :: "(addr \<Rightarrow> u8) \<Rightarrow> u64 \<Rightarrow> u8 list \<Rightarrow> bool" where
  "loaded m D bs \<longleftrightarrow> (\<forall>j<length bs. m (D + of_nat j) = bs ! j)"

lemma get_le_word_of_bytes: "(\<forall>j<n. m (D + of_nat j) = bs ! j) \<Longrightarrow> length bs = n \<Longrightarrow> (get_le m n D :: 'a::len word) = word_of_bytes bs"
proof (induction bs arbitrary: n D)
  case (Cons b bs)
  from Cons.prems obtain k where n: "n = Suc k" "length bs = k" by auto
  have "m (D + 1 + of_nat j) = bs ! j" if "j < k" for j
    using Cons.prems(1) [rule_format, of "Suc j"] n that by (simp add: algebra_simps)
  then have "\<forall>j<k. m (D + 1 + of_nat j) = bs ! j" by simp
  then have "(get_le m k (D + 1) :: 'a word) = word_of_bytes bs" by (rule Cons.IH) (rule n(2))
  moreover have "m D = b" using Cons.prems(1) [rule_format, of 0] n by simp
  ultimately show ?case by (simp add: n)
qed simp

lemma loaded_code_at: "loaded m D (enc ws) \<Longrightarrow> code_at m D ws"
proof (induction ws arbitrary: D)
  case (Cons w ws)
  have "\<forall>j<4. m (D + of_nat j) = bytes_of 4 w ! j"
    using Cons.prems by (auto simp: loaded_def nth_append)
  then have "get_le m 4 D = (word_of_bytes (bytes_of 4 w) :: u32)"
    by (intro get_le_word_of_bytes) simp_all
  then have "get_le m 4 D = w" by (simp add: word_of_bytes_of)
  moreover have "loaded m (D + 4) (enc ws)"
    unfolding loaded_def
  proof (intro allI impI)
    fix j assume "j < length (enc ws)"
    then show "m (D + 4 + of_nat j) = enc ws ! j"
      using Cons.prems [unfolded loaded_def, rule_format, of "4 + j"] by (simp add: nth_append algebra_simps)
  qed
  ultimately show ?case using Cons.IH by simp
qed simp

lemma relo_assembleE:
  assumes "relo_assemble ndebug m origin_addr ctx branch = Some (ctx', len, a)"
    "buffer_cursor ctx = 0" "buffer_size ctx = 4 * n"
  obtains ws ls where
    "relo_block ndebug (block_insts m (relo_buffer ctx) (relo_src_vmaddr ctx) n) [] [] = Some (ws, ls)"
    "buffer a = enc (final_words branch (origin_addr + of_nat (4 * n)) ws ls)" "len = 4 * n"
    "\<And>j ws1 ls1. j < n \<Longrightarrow> relo_block ndebug (take j (block_insts m (relo_buffer ctx) (relo_src_vmaddr ctx) n)) [] [] = Some (ws1, ls1)
        \<Longrightarrow> relocated_offset_map ctx' (4 * j) = Some (4 * length ws1)"
  using relo_assemble_words [OF assms(2,3), of ndebug m origin_addr branch] assms(1)
  by (auto split: option.splits simp: loop_result_def)

section \<open>Size, failure and position\<close>

lemma relo_block_size:
  "relo_block ndebug is ws ls = Some (ws', ls') \<Longrightarrow>
     length ws' + 4 * length ls' \<le> length ws + 4 * length ls + 7 * length is"
proof (induction ndebug "is" ws ls rule: relo_block.induct)
  case (2 ndebug cur inst "is" ws ls)
  from 2(2) obtain cs l where c: "relo_code ndebug cur inst = Some (cs, l)"
    and rest: "relo_block ndebug is (ws @ cs) (ls @ shift_lits (length ws) l) = Some (ws', ls')"
    by (auto split: Option.bind_splits)
  from 2(1) [OF c refl rest] relo_code_lits [OF c] show ?case by (simp add: shift_lits_def)
qed simp

lemma relo_block_None:
  "relo_block ndebug is ws ls = None \<longleftrightarrow> (\<exists>(cur, inst)\<in>set is. relo_code ndebug cur inst = None)"
  by (induction ndebug "is" ws ls rule: relo_block.induct) (auto split: Option.bind_splits)

lemma relo_code_None:
  "relo_code ndebug cur inst = None \<longleftrightarrow>
     \<not> ndebug \<and> inst_is_ldr_literal inst \<and> field 31 30 inst \<noteq> 0 \<and> field 31 30 inst \<noteq> 1"
  using branch_class [of inst] by (auto simp: relo_code_def Let_def)

text \<open>The original instruction of index \<open>i\<close>.\<close>

definition orig_inst :: "(addr \<Rightarrow> u8) \<Rightarrow> relo_ctx \<Rightarrow> nat \<Rightarrow> u32" where
  "orig_inst m ctx i = get_le m 4 (relo_buffer ctx + of_nat (4 * i))"

definition pc_relative :: "u32 \<Rightarrow> bool" where
  "pc_relative w \<longleftrightarrow> inst_is_b_bl w \<or> inst_is_ldr_literal w \<or> inst_is_adr w \<or> inst_is_adrp w \<or>
     inst_is_b_cond w \<or> inst_is_compare_b w \<or> inst_is_test_b w"

lemma branch_back:
  assumes "buffer a = enc (final_words True (origin_addr + of_nat (4 * n)) ws ls)" "lits_ok ws ls"
    "loaded (mem t) D (buffer a)" "length (buffer a) \<le> 2 ^ 20" "pc t = D + of_nat (4 * length ws)"
  shows "a64_run 2 t = Some (t\<lparr>xr := (xr t)(17 := origin_addr + of_nat (4 * n)), pc := origin_addr + of_nat (4 * n)\<rparr>)"
proof -
  let ?v = "origin_addr + of_nat (4 * n)"
  let ?fw = "final_words True ?v ws ls"
  let ?t = "t\<lparr>xr := (xr t)(17 := ?v), pc := D + of_nat (4 * Suc (length ws))\<rparr>"
  have code: "code_at (mem t) D ?fw" using assms(1,3) by (simp add: loaded_code_at)
  have len: "length ?fw \<le> 2 ^ 18" using assms(1,4) by simp
  have lit: "lit_bound ?fw (length ws) ?v" using final_words_bound(2) [OF assms(2), of True] by blast
  have "a64_step t = Some ?t" by (rule step_lit [OF code lit len assms(5)])
  moreover have "a64_exec (?fw ! Suc (length ws)) ?t = Some (?t, Jump ?v)"
    using final_words_br [OF assms(2)] exec_br17(1) [of ?t] by simp
  then have "a64_step ?t = Some (finish (Jump ?v) (D + of_nat (4 * Suc (Suc (length ws)))) ?t)"
    using step_at [of ?t D ?fw "Suc (length ws)"] code by (simp add: length_final_words)
  ultimately show ?thesis by (simp add: numeral_2_eq_2)
qed

lemma relo_code_b_cond:
  assumes "inst_is_b_cond inst"
  shows "relo_code ndebug cur inst = Some ([skip_word 23 (set_bits_u inst 0 3 (field 3 0 inst XOR 1)), ldr17_word, br17_word],
    [(1, cur + decode_imm19_offset inst)])"
proof -
  have "\<not> inst_is_b_bl inst"
    using assms field_within [of 31 25 inst "0x2A" 26 30] by (auto simp: inst_is_field field_numeral)
  then show ?thesis using branch_class [of inst] assms by (simp add: relo_code_def)
qed

lemma exec_skip_always:
  assumes "inst_is_b_cond w" "\<not> bit w 24" "field 3 0 w = 14 \<or> field 3 0 w = 15"
  shows "a64_exec (skip_word 23 (set_bits_u w 0 3 (field 3 0 w XOR 1))) s = Some (s, Jump (pc s + 12))"
proof -
  have "cond_holds (field 3 0 w XOR 1) s" using assms(3) by (auto simp: cond_holds_def Let_def)
  then show ?thesis using skip_cond_fields [OF assms(1,2)] by (simp add: exec_b_cond_def sfield_skip)
qed

text \<open>
  Everything about instruction \<open>i\<close>: its words are placed at the recorded offset, the next
  instruction or the branch back follows.
\<close>

definition returns_from :: "Assembler \<Rightarrow> u64 \<Rightarrow> u64 \<Rightarrow> u64 \<Rightarrow> bool" where
  "returns_from a D nxt target \<longleftrightarrow> (\<forall>t. loaded (mem t) D (buffer a) \<longrightarrow> pc t = nxt \<longrightarrow>
     a64_run 2 t = Some (t\<lparr>xr := (xr t)(17 := target), pc := target\<rparr>))"

lemma relo_at:
  assumes "relo_assemble ndebug m origin_addr ctx branch = Some (ctx', len, a)"
    and "buffer_cursor ctx = 0" "buffer_size ctx = 4 * n" "length (buffer a) \<le> 2 ^ 20" "i < n"
  obtains fw p cs l where "buffer a = enc fw" "relocated_offset_map ctx' (4 * i) = Some (4 * p)"
    "relo_code ndebug (relo_src_vmaddr ctx + of_nat (4 * i)) (orig_inst m ctx i) = Some (cs, l)"
    "placed fw p cs l" "Suc i < n \<longrightarrow> relocated_offset_map ctx' (4 * Suc i) = Some (4 * (p + length cs))"
    "Suc i = n \<longrightarrow> branch \<longrightarrow> returns_from a D (D + of_nat (4 * (p + length cs))) (origin_addr + of_nat len)"
proof -
  let ?is = "block_insts m (relo_buffer ctx) (relo_src_vmaddr ctx) n"
  let ?cur = "relo_src_vmaddr ctx + of_nat (4 * i)" and ?inst = "orig_inst m ctx i"
  obtain ws ls where blk: "relo_block ndebug ?is [] [] = Some (ws, ls)"
    and buf: "buffer a = enc (final_words branch (origin_addr + of_nat (4 * n)) ws ls)" and len: "len = 4 * n"
    and offs: "\<And>j ws1 ls1. j < n \<Longrightarrow> relo_block ndebug (take j ?is) [] [] = Some (ws1, ls1) \<Longrightarrow>
      relocated_offset_map ctx' (4 * j) = Some (4 * length ws1)"
    using relo_assembleE [OF assms(1-3)] by blast
  have at: "i < length ?is" "?is ! i = (?cur, ?inst)" using assms(5) by (simp_all add: nth_block_insts orig_inst_def)
  obtain ws1 ls1 cs l ws2 ls2 where p: "relo_block ndebug (take i ?is) [] [] = Some (ws1, ls1)"
    "relo_code ndebug ?cur ?inst = Some (cs, l)"
    "relo_block ndebug (take (Suc i) ?is) [] [] = Some (ws1 @ cs, ls1 @ shift_lits (length ws1) l)"
    "ws = ws1 @ cs @ ws2" "ls = ls1 @ shift_lits (length ws1) l @ ls2" "lits_ok ws1 ls1"
    "\<forall>(k, v)\<in>set ls2. length (ws1 @ cs) \<le> k"
    by (rule relo_block_at [OF blk at])
  let ?fw = "final_words branch (origin_addr + of_nat (4 * n)) ws ls" and ?nxt = "4 * (length ws1 + length cs)"
  have place: "placed ?fw (length ws1) cs l" by (rule placed_in_final [OF blk p(4-7)]) (use assms(4) buf in simp)
  have nxt: "relocated_offset_map ctx' (4 * Suc i) = Some ?nxt" if "Suc i < n" using offs [OF that p(3)] by simp
  have "returns_from a D (D + of_nat ?nxt) (origin_addr + of_nat len)" if "Suc i = n" branch
  proof -
    have "ws1 @ cs = ws" using p(3) blk that(1) by simp
    then have "length ws = length ws1 + length cs" by auto
    then show ?thesis
      using branch_back [of a origin_addr n ws ls _ D] buf that relo_block_lits [OF blk] assms(4)
      by (simp add: len returns_from_def)
  qed
  then show thesis using nxt by (intro that [OF buf offs [OF assms(5) p(1)] p(2) place]) blast+
qed

section \<open>A block\<close>

text \<open>The bytes of a list in an otherwise empty memory.\<close>

definition image :: "u64 \<Rightarrow> u8 list \<Rightarrow> addr \<Rightarrow> u8" where
  "image D bs x = (let i = unat (x - D) in if i < length bs then bs ! i else 0)"

lemma loaded_image: "length bs < 2 ^ 64 \<Longrightarrow> loaded (image D bs) D bs"
  by (simp add: loaded_def image_def unat_of_nat take_bit_nat_eq_self)

text \<open>
  Four instructions at \<^verbatim>\<open>0x10000\<close>: \<^verbatim>\<open>sub sp, sp, #32\<close>; \<^verbatim>\<open>cbz x0, .+8\<close>; \<^verbatim>\<open>bl .+256\<close>;
  \<^verbatim>\<open>ldr x1, .+8\<close>; a second block has \<^verbatim>\<open>b.al .+8\<close>.
\<close>

definition sample_words :: "u32 list" where
  "sample_words = [0xD10083FF, 0xB4000040, 0x94000040, 0x58000041]"

definition sample_ctx :: "nat \<Rightarrow> relo_ctx" where
  "sample_ctx n = \<lparr>relo_buffer = 0x10000, buffer_cursor = 0, buffer_size = 4 * n, relo_src_vmaddr = 0x10000,
     relo_dst_vmaddr = 0, relocated_offset_map = Map.empty\<rparr>"

definition sample_run :: "u32 list \<Rightarrow> (relo_ctx \<times> nat \<times> Assembler) option" where
  "sample_run ws = relo_assemble False (image 0x10000 (enc ws)) 0x10000 (sample_ctx (length ws)) True"

definition sample_state :: "Assembler \<Rightarrow> nat \<Rightarrow> a64" where
  "sample_state a off = \<lparr>xr = (\<lambda>_. 7), spr = 0, pc = 0x20000 + of_nat off, nf = False, zf = False, cf = False,
     vf = False, qr = (\<lambda>_. 0), mem = image 0x20000 (buffer a)\<rparr>"

lemma sample_run_result:
  "\<exists>ctx' a. sample_run sample_words = Some (ctx', 16, a) \<and> length (buffer a) = 100 \<and>
     relocated_offset_map ctx' 4 = Some 4"
proof -
  have "map_option (\<lambda>(c, n, a). (relocated_offset_map c 4, n, length (buffer a))) (sample_run sample_words) =
      Some (Some 4, 16, 100)" by code_simp
  then show ?thesis by auto
qed

lemma sample_always_result:
  "\<exists>ctx' a. sample_run [0x5400004E] = Some (ctx', 4, a) \<and> length (buffer a) = 52 \<and>
     relocated_offset_map ctx' 0 = Some 0"
proof -
  have "map_option (\<lambda>(c, n, a). (relocated_offset_map c 0, n, length (buffer a))) (sample_run [0x5400004E]) =
      Some (Some 0, 4, 52)" by code_simp
  then show ?thesis by auto
qed

lemma sample_orig:
  "orig_inst (image 0x10000 (enc sample_words)) (sample_ctx 4) 0 = 0xD10083FF"
  "orig_inst (image 0x10000 (enc sample_words)) (sample_ctx 4) 1 = 0xB4000040"
  "orig_inst (image 0x10000 (enc [0x5400004E])) (sample_ctx 1) 0 = 0x5400004E"
  by code_simp+

lemma sample_loaded: "length (buffer a) < 2 ^ 64 \<Longrightarrow> loaded (mem (sample_state a off)) 0x20000 (buffer a)"
  by (simp add: sample_state_def loaded_image)

lemma sample_length: "length sample_words = 4"
  by (simp add: sample_words_def)

lemma sample_ctx_fields: "buffer_cursor (sample_ctx n) = 0" "buffer_size (sample_ctx n) = 4 * n"
  by (simp_all add: sample_ctx_def)

lemma sample_assembled: "sample_run sample_words = Some r \<Longrightarrow>
    relo_assemble False (image 0x10000 (enc sample_words)) 0x10000 (sample_ctx 4) True = Some r"
  by (simp add: sample_run_def sample_length)

lemma block_simulates:
  assumes "relo_assemble ndebug m origin_addr ctx branch = Some (ctx', len, a)"
    and "buffer_cursor ctx = 0" "buffer_size ctx = 4 * n" "length (buffer a) \<le> 2 ^ 20"
    and "loaded (mem s) D (buffer a)" "i < n" "relocatable (orig_inst m ctx i)"
    and "relocated_offset_map ctx' (4 * i) = Some off" "pc s = D + of_nat off"
  shows "\<exists>nxt. simulates s (orig_inst m ctx i) (relo_src_vmaddr ctx + of_nat (4 * i)) (D + of_nat nxt) \<and>
    (Suc i < n \<longrightarrow> relocated_offset_map ctx' (4 * Suc i) = Some nxt) \<and>
    (Suc i = n \<longrightarrow> branch \<longrightarrow> returns_from a D (D + of_nat nxt) (origin_addr + of_nat len))"
proof -
  obtain fw p cs l where at: "buffer a = enc fw" "relocated_offset_map ctx' (4 * i) = Some (4 * p)"
    "relo_code ndebug (relo_src_vmaddr ctx + of_nat (4 * i)) (orig_inst m ctx i) = Some (cs, l)"
    "placed fw p cs l" "Suc i < n \<longrightarrow> relocated_offset_map ctx' (4 * Suc i) = Some (4 * (p + length cs))"
    "Suc i = n \<longrightarrow> branch \<longrightarrow> returns_from a D (D + of_nat (4 * (p + length cs))) (origin_addr + of_nat len)"
    by (rule relo_at [OF assms(1-4,6), where D = D])
  have "simulates s (orig_inst m ctx i) (relo_src_vmaddr ctx + of_nat (4 * i)) (D + of_nat (4 * (p + length cs)))"
    by (rule relo_code_simulates [OF assms(7) _ at(3,4)]) (use assms(5,8,9) at(1,2) loaded_code_at in auto)
  then show ?thesis using at(5,6) by (intro exI [of _ "4 * (p + length cs)"]) simp
qed

lemma block_size:
  assumes "relo_assemble ndebug m origin_addr ctx branch = Some (ctx', len, a)"
    and "buffer_cursor ctx = 0" "buffer_size ctx = 4 * n"
  shows "length (buffer a) \<le> 28 * n + (if branch then 24 else 0)"
proof -
  obtain ws ls where "relo_block ndebug (block_insts m (relo_buffer ctx) (relo_src_vmaddr ctx) n) [] [] = Some (ws, ls)"
    and buf: "buffer a = enc (final_words branch (origin_addr + of_nat (4 * n)) ws ls)"
    using relo_assembleE [OF assms] by blast
  from relo_block_size [OF this(1)] show ?thesis by (simp add: buf length_final_words)
qed

lemma block_aborts_iff:
  assumes "buffer_cursor ctx = 0" "buffer_size ctx = 4 * n"
  shows "relo_assemble ndebug m origin_addr ctx branch = None \<longleftrightarrow>
    \<not> ndebug \<and> (\<exists>i<n. inst_is_ldr_literal (orig_inst m ctx i) \<and>
      field 31 30 (orig_inst m ctx i) \<noteq> 0 \<and> field 31 30 (orig_inst m ctx i) \<noteq> 1)"
proof -
  let ?is = "block_insts m (relo_buffer ctx) (relo_src_vmaddr ctx) n"
  have "relo_assemble ndebug m origin_addr ctx branch = None \<longleftrightarrow> relo_block ndebug ?is [] [] = None"
    using relo_assemble_words [OF assms, of ndebug m origin_addr branch] by (auto split: option.splits)
  then show ?thesis
    by (auto simp: relo_block_None relo_code_None block_insts_def orig_inst_def)
qed

section \<open>Properties\<close>

text \<open>
  C4: The relocated code of a block, loaded anywhere, simulates the block: from the start of the
  words of a branch, a 64-bit literal load or an address computation, the machine reaches the state
  that the original instruction gives at its original address (up to \<^verbatim>\<open>x17\<close>, and to the
  link register, which points into the relocated code), either at the branch target or at the words
  of the next instruction; and behind the last instruction the code jumps to the first
  instruction after the original block.
\<close>

theorem relocated_block_simulates:
  assumes "relo_assemble ndebug m origin_addr ctx branch = Some (ctx', len, a)"
    and "buffer_cursor ctx = 0" "buffer_size ctx = 4 * n" "length (buffer a) \<le> 2 ^ 20"
    and "loaded (mem s) D (buffer a)" "i < n" "relocatable (orig_inst m ctx i)"
    and "relocated_offset_map ctx' (4 * i) = Some off" "pc s = D + of_nat off"
  shows "\<exists>nxt. simulates s (orig_inst m ctx i) (relo_src_vmaddr ctx + of_nat (4 * i)) (D + of_nat nxt) \<and>
    (Suc i < n \<longrightarrow> relocated_offset_map ctx' (4 * Suc i) = Some nxt) \<and>
    (Suc i = n \<longrightarrow> branch \<longrightarrow> returns_from a D (D + of_nat nxt) (origin_addr + of_nat len))"
  by (rule block_simulates [OF assms])

text \<open>
  An instruction that is not PC-relative is copied: its word stands at the offset recorded for
  it, and the next instruction follows it directly.
\<close>

theorem other_instructions_copied:
  assumes "relo_assemble ndebug m origin_addr ctx branch = Some (ctx', len, a)"
    and "buffer_cursor ctx = 0" "buffer_size ctx = 4 * n" "length (buffer a) \<le> 2 ^ 20"
    and "loaded mm D (buffer a)" "i < n" "\<not> pc_relative (orig_inst m ctx i)"
  shows "\<exists>off. relocated_offset_map ctx' (4 * i) = Some off \<and> get_le mm 4 (D + of_nat off) = orig_inst m ctx i \<and>
    (Suc i < n \<longrightarrow> relocated_offset_map ctx' (4 * Suc i) = Some (off + 4))"
proof -
  obtain fw p cs l where at: "buffer a = enc fw" "relocated_offset_map ctx' (4 * i) = Some (4 * p)"
    "relo_code ndebug (relo_src_vmaddr ctx + of_nat (4 * i)) (orig_inst m ctx i) = Some (cs, l)"
    "placed fw p cs l" "Suc i < n \<longrightarrow> relocated_offset_map ctx' (4 * Suc i) = Some (4 * (p + length cs))"
    "Suc i = n \<longrightarrow> branch \<longrightarrow> returns_from a D (D + of_nat (4 * (p + length cs))) (origin_addr + of_nat len)"
    by (rule relo_at [OF assms(1-4,6), where D = D])
  have cs: "cs = [orig_inst m ctx i]" "l = []" using at(3) assms(7) by (simp_all add: relo_code_def pc_relative_def)
  then have "fw ! p = orig_inst m ctx i" "p < length fw" using at(4) by (simp_all add: placed_def)
  then have "get_le mm 4 (D + of_nat (4 * p)) = orig_inst m ctx i"
    using code_at_nth [of mm D fw p] assms(5) at(1) by (simp add: loaded_code_at)
  then show ?thesis using at(2,5) cs by auto
qed

text \<open>
  C27: The relocated code of a block of \<open>n\<close> instructions has at most seven words for each of
  them, the literal pool included, and six more for the branch back.
\<close>

theorem relocated_size:
  assumes "relo_assemble ndebug m origin_addr ctx branch = Some (ctx', len, a)"
    and "buffer_cursor ctx = 0" "buffer_size ctx = 4 * n"
  shows "length (buffer a) \<le> 28 * n + (if branch then 24 else 0)"
  by (rule block_size [OF assms])

text \<open>
  C40: The relocation of a block stops the program exactly when assertions are compiled in and some
  instruction is a literal load of a size the code does not implement (a sign-extended word, a
  prefetch, a 128-bit vector register).
\<close>

theorem relocation_aborts_iff:
  assumes "buffer_cursor ctx = 0" "buffer_size ctx = 4 * n"
  shows "relo_assemble ndebug m origin_addr ctx branch = None \<longleftrightarrow>
    \<not> ndebug \<and> (\<exists>i<n. inst_is_ldr_literal (orig_inst m ctx i) \<and>
      field 31 30 (orig_inst m ctx i) \<noteq> 0 \<and> field 31 30 (orig_inst m ctx i) \<noteq> 1)"
  by (rule block_aborts_iff [OF assms])

text \<open>
  A branch with the condition ``always'' is lost: the inversion of the condition gives the other
  ``always'', so the relocated code never jumps although the original instruction always does.
\<close>

theorem always_branch_lost:
  assumes "relo_assemble ndebug m origin_addr ctx branch = Some (ctx', len, a)"
    and "buffer_cursor ctx = 0" "buffer_size ctx = 4 * n" "length (buffer a) \<le> 2 ^ 20"
    and "loaded (mem s) D (buffer a)" "i < n"
    and "inst_is_b_cond (orig_inst m ctx i)" "\<not> bit (orig_inst m ctx i) 24"
    and "field 3 0 (orig_inst m ctx i) = 14 \<or> field 3 0 (orig_inst m ctx i) = 15"
    and "relocated_offset_map ctx' (4 * i) = Some off" "pc s = D + of_nat off"
  shows "a64_exec (orig_inst m ctx i) s = Some (s, Jump (pc s + decode_imm19_offset (orig_inst m ctx i))) \<and>
    a64_run 1 s = Some (s\<lparr>pc := D + of_nat (off + 12)\<rparr>)"
proof -
  let ?w = "orig_inst m ctx i"
  obtain fw p cs l where at: "buffer a = enc fw" "relocated_offset_map ctx' (4 * i) = Some (4 * p)"
    "relo_code ndebug (relo_src_vmaddr ctx + of_nat (4 * i)) ?w = Some (cs, l)" "placed fw p cs l" "Suc i < n \<longrightarrow> relocated_offset_map ctx' (4 * Suc i) = Some (4 * (p + length cs))"
    "Suc i = n \<longrightarrow> branch \<longrightarrow> returns_from a D (D + of_nat (4 * (p + length cs))) (origin_addr + of_nat len)"
    by (rule relo_at [OF assms(1-4,6), where D = D])
  let ?v = "skip_word 23 (set_bits_u ?w 0 3 (field 3 0 ?w XOR 1))"
  have cs: "cs = [?v, ldr17_word, br17_word]" "fst ` set l = {1}"
    using relo_code_b_cond [OF assms(7)] at(3) by auto
  then have "fw ! p = ?v" "p < length fw" using at(4) unfolding placed_def by (auto dest!: spec [of _ 0])
  moreover have "a64_exec ?v s = Some (s, Jump (pc s + 12))"
    using exec_skip_always [OF assms(7-9)] .
  ultimately have "a64_step s = Some (s\<lparr>pc := pc s + 12\<rparr>)"
    using step_at [of s D fw p s "Jump (pc s + 12)"] assms(5,10,11) at(1,2) loaded_code_at by auto
  moreover have "a64_exec ?w s = Some (s, Jump (pc s + decode_imm19_offset ?w))"
    using exec_class_b_cond [OF assms(7,8), of s] assms(9)
    by (auto simp: exec_b_cond_def decode_imm19_sfield cond_holds_def)
  ultimately show ?thesis using assms(11) by (simp add: algebra_simps)
qed

text \<open>
  The relocation of a literal load keeps neither the size nor the register file: the code
  emitted for a 32-bit load, and for a load of a floating-point register, is the code for the
  64-bit load of the general register with the same number.
\<close>

theorem literal_load_confused:
  assumes "inst_is_ldr_literal inst" "field 31 30 inst = 0 \<or> field 31 30 inst = 1"
  shows "relo_inst ndebug cur inst a = relo_inst ndebug cur (set_bits_u (set_bits_u inst 30 31 1) 26 26 0) a"
proof -
  let ?x = "set_bits_u (set_bits_u inst 30 31 1) 26 26 0"
  have keep: "field hi lo ?x = field hi lo inst" if "hi < 26 \<or> (26 < lo \<and> hi < 30)" for hi lo
    using that by (subst field_set_bits; (subst field_set_bits)?) (auto simp: bit_1_iff)
  have lit: "inst_is_ldr_literal ?x" using assms(1) keep [of 29 27] keep [of 25 24] by (simp add: inst_is_field)
  have "field 31 30 ?x = 1"
    by (rule bit_word_eqI) (auto simp: bit_field bit_set_bits_u bit_1_iff)
  moreover have "decode_imm19_offset ?x = decode_imm19_offset inst"
    unfolding decode_imm19_sfield by (rule bit_word_eqI) (auto simp: bit_simps bit_1_iff min_def)
  moreover have "decode_rt ?x = decode_rt inst" by (simp add: rt_field keep)
  moreover have "\<not> inst_is_b_bl inst" "\<not> inst_is_b_bl ?x" using branch_class(1) [of inst] branch_class(1) [of ?x] assms(1) lit by auto
  ultimately show ?thesis using assms lit
    by (auto simp: relo_inst_def relo_ldr_literal_def Let_def bits_s_field ucast_u32_eq ldr_x17)
qed

theorem relocated_block_simulates_witness:
  "\<exists>ctx' a nxt. sample_run sample_words = Some (ctx', 16, a) \<and>
     simulates (sample_state a 4) 0xB4000040 0x10004 (0x20000 + of_nat nxt) \<and> relocated_offset_map ctx' 8 = Some nxt"
proof -
  obtain ctx' a where r: "sample_run sample_words = Some (ctx', 16, a)" "length (buffer a) = 100"
    "relocated_offset_map ctx' 4 = Some 4" using sample_run_result by blast
  have s: "relocatable 0xB4000040" by code_simp
  have ctx: "relo_src_vmaddr (sample_ctx 4) + of_nat (4 * 1) = 0x10004" by (simp add: sample_ctx_def)
  have st: "loaded (mem (sample_state a 4)) 0x20000 (buffer a)" "pc (sample_state a 4) = 0x20000 + of_nat 4"
    using r(2) by (simp add: sample_loaded, simp add: sample_state_def)
  have off: "relocated_offset_map ctx' (4 * 1) = Some 4" using r(3) by simp
  have "\<exists>nxt. simulates (sample_state a 4) 0xB4000040 0x10004 (0x20000 + of_nat nxt) \<and>
      (Suc 1 < 4 \<longrightarrow> relocated_offset_map ctx' (4 * Suc 1) = Some nxt)"
    using relocated_block_simulates [OF sample_assembled [OF r(1)] sample_ctx_fields _ st(1) _ _ off st(2)] s r(2)
    unfolding ctx sample_orig(2) by force
  then show ?thesis using r(1) by auto
qed

theorem other_instructions_copied_witness:
  "\<exists>ctx' a off. sample_run sample_words = Some (ctx', 16, a) \<and>
     get_le (image 0x20000 (buffer a)) 4 (0x20000 + of_nat off) = (0xD10083FF :: u32)"
proof -
  obtain ctx' a where r: "sample_run sample_words = Some (ctx', 16, a)" "length (buffer a) = 100"
    using sample_run_result by blast
  have s: "\<not> pc_relative 0xD10083FF" by code_simp
  have l: "loaded (image 0x20000 (buffer a)) 0x20000 (buffer a)" using r(2) by (simp add: loaded_image)
  have "\<exists>off. get_le (image 0x20000 (buffer a)) 4 (0x20000 + of_nat off) = (0xD10083FF :: u32)"
    using other_instructions_copied [OF sample_assembled [OF r(1)] sample_ctx_fields _ l, of 0] s r(2)
    unfolding sample_orig(1) by force
  then show ?thesis using r(1) by blast
qed

theorem relocated_size_witness:
  "\<exists>ctx' a. sample_run sample_words = Some (ctx', 16, a) \<and> length (buffer a) \<le> 136"
proof -
  obtain ctx' a where r: "sample_run sample_words = Some (ctx', 16, a)" using sample_run_result by blast
  from relocated_size [OF sample_assembled [OF this] sample_ctx_fields] this show ?thesis by simp
qed

theorem relocation_aborts_iff_witness:
  "relo_assemble False (image 0x10000 (enc [0x98000041])) 0x10000 (sample_ctx 1) True = None \<and>
   relo_assemble True (image 0x10000 (enc [0x98000041])) 0x10000 (sample_ctx 1) True \<noteq> None"
proof -
  have o: "orig_inst (image 0x10000 (enc [0x98000041])) (sample_ctx 1) 0 = 0x98000041" by code_simp
  have c: "inst_is_ldr_literal 0x98000041" "field 31 30 (0x98000041 :: u32) = 2" by code_simp+
  show ?thesis
    using relocation_aborts_iff [of "sample_ctx 1" 1 False "image 0x10000 (enc [0x98000041])" "0x10000" True]
      relocation_aborts_iff [of "sample_ctx 1" 1 True "image 0x10000 (enc [0x98000041])" "0x10000" True] o c
    by (simp add: sample_ctx_def)
qed

theorem always_branch_lost_witness:
  "\<exists>ctx' a. sample_run [0x5400004E] = Some (ctx', 4, a) \<and>
     a64_run 1 (sample_state a 0) = Some ((sample_state a 0)\<lparr>pc := 0x2000C\<rparr>)"
proof -
  obtain ctx' a where r: "sample_run [0x5400004E] = Some (ctx', 4, a)" "length (buffer a) = 52"
    "relocated_offset_map ctx' 0 = Some 0" using sample_always_result by blast
  have c: "inst_is_b_cond 0x5400004E" "\<not> bit (0x5400004E :: u32) 24" "field 3 0 (0x5400004E :: u32) = 14" by code_simp+
  have l: "loaded (mem (sample_state a 0)) 0x20000 (buffer a)" using r(2) by (simp add: sample_loaded)
  have run: "relo_assemble False (image 0x10000 (enc [0x5400004E])) 0x10000 (sample_ctx 1) True = Some (ctx', 4, a)"
    using r by (simp add: sample_run_def)
  have st: "pc (sample_state a 0) = 0x20000 + of_nat 0" by (simp add: sample_state_def)
  have off: "relocated_offset_map ctx' (4 * 0) = Some 0" using r(3) by simp
  have "a64_run 1 (sample_state a 0) = Some ((sample_state a 0)\<lparr>pc := 0x20000 + of_nat (0 + 12)\<rparr>)"
    using always_branch_lost [OF run sample_ctx_fields _ l _ _ _ _ off st] c r(2)
    unfolding sample_orig(3) by force
  then show ?thesis using r(1) by auto
qed

theorem literal_load_confused_witness:
  "relo_inst False 0 0x18000041 (new_Assembler 0) = relo_inst False 0 0x58000041 (new_Assembler 0)"
proof -
  have c: "inst_is_ldr_literal 0x18000041" "field 31 30 (0x18000041 :: u32) = 0"
    "set_bits_u (set_bits_u 0x18000041 30 31 1) 26 26 0 = 0x58000041" by code_simp+
  show ?thesis using literal_load_confused [of "0x18000041" False 0 "new_Assembler 0"] c by simp
qed

end
