(* ===== verification/A64_Trampoline.thy ===== *)
theory A64_Trampoline
  imports A64_Correct
begin

text \<open>
  The trampoline a hook writes over the entry of a function,
  \<^verbatim>\<open>TrampolineBridge/Trampoline/arm64/trampoline_arm64.cc\<close>: \<^verbatim>\<open>adrp\<close>, \<^verbatim>\<open>add\<close>, \<^verbatim>\<open>br\<close> for a target
  within 4 GiB, a literal load and a jump otherwise.
\<close>

definition llabs :: "u64 \<Rightarrow> u64" where
  "llabs x = (if sint x < 0 then - x else x)"

definition GenerateNormalTrampolineBuffer :: "u64 \<Rightarrow> u64 \<Rightarrow> u8 list option" where
  "GenerateNormalTrampolineBuffer from to =
     (let a = new_Assembler from;
          distance = llabs (from - to);
          adrp_range = push_bit (2 + 19 + 12 - 1) 1
      in map_option (\<lambda>a'. CodeBuffer_Copy (buffer a'))
           (if distance < adrp_range
            then map_option (br TMP_REG_0) (AdrpAdd TMP_REG_0 from to a)
            else LiteralLdrBranch to a))"

section \<open>The words of the trampoline\<close>

definition adrp_word :: "u64 \<Rightarrow> u32" where
  "adrp_word imm = encode_immhi_immlo_offset 0x90000011 (signed_drop_bit 12 imm)"

definition add17_word :: "u64 \<Rightarrow> u32" where
  "add17_word off = 0x91000231 OR push_bit 10 (ucast off)"

lemma page_offset: "(to :: u64) mod 0x1000 = take_bit 12 to"
  by (simp add: take_bit_eq_mod)

lemma bit_adrp_const: "bit (0x90000011 :: u32) n \<longleftrightarrow> n = 31 \<or> n = 28 \<or> n = 4 \<or> n = 0"
proof -
  have "(0x90000011 :: u32) = push_bit 31 1 OR push_bit 28 1 OR push_bit 4 1 OR 1" by simp
  moreover have "bit (push_bit 31 1 OR push_bit 28 1 OR push_bit 4 1 OR 1 :: u32) n \<longleftrightarrow> n = 31 \<or> n = 28 \<or> n = 4 \<or> n = 0"
    unfolding bit_or_iff bit_push_bit_iff bit_1_iff by auto
  ultimately show ?thesis by (simp only:)
qed

lemma bit_word_of_adr_fields:
  "n < 32 \<Longrightarrow> bit (word_of_adr_fields f) n \<longleftrightarrow>
     (if n < 5 then bit (Rd_f f) n else if n < 24 then bit (immhi_f f) (n - 5)
      else if n < 29 then bit (dummy_0_f f) (n - 24) else if n < 31 then bit (immlo_f f) (n - 29) else bit (op_f f) 0)"
  by (auto simp: word_of_adr_fields_def bit_simps not_less le_Suc_eq dest: bit_imp_le_length)

lemma bit_encode_immhi_immlo:
  assumes "n < 32"
  shows "bit (encode_immhi_immlo_offset w off) n \<longleftrightarrow>
     (if 5 \<le> n \<and> n < 24 then bit off (n - 3) else if 29 \<le> n \<and> n < 31 then bit off (n - 29) else bit w n)"
proof -
  have "2 + (n - 5) = n - 3" if "5 \<le> n" using that by simp
  then show ?thesis
    using assms by (cases "n = 31") (auto simp: encode_immhi_immlo_offset_def bit_word_of_adr_fields adr_fields_of_def bits_s_u bit_simps
      not_less le_Suc_eq split: if_splits)
qed

lemma bit_adrp_word:
  "n < 32 \<Longrightarrow> bit (adrp_word imm) n \<longleftrightarrow>
     (if 5 \<le> n \<and> n < 24 then bit imm (9 + n) else if n = 29 \<or> n = 30 then bit imm (n - 17)
      else n = 31 \<or> n = 28 \<or> n = 4 \<or> n = 0)"
proof -
  assume "n < 32"
  moreover have "12 + (n - 3) = 9 + n" if "5 \<le> n" using that by simp
  moreover have "12 + (n - 29) = n - 17" if "29 \<le> n" using that by simp
  ultimately show ?thesis
    by (auto simp: adrp_word_def bit_encode_immhi_immlo bit_adrp_const bit_signed_drop_bit_iff simp del: bit_numeral_word_iff)
qed

lemma adrp_emits: "adrp TMP_REG_0 imm a = Emit (adrp_word imm) a"
proof -
  have "ADRP OR Rd TMP_REG_0 OR ucast (LeftShift (bits_s (signed_drop_bit 12 imm) 0 1) 2 29) OR
      ucast (LeftShift (bits_s (signed_drop_bit 12 imm) 2 20) 19 5) = adrp_word imm" (is "?K OR ?r OR ?lo OR ?hi = _")
  proof (rule bit_word_eqI)
    fix n :: nat
    assume "n < LENGTH(32)"
    then have n: "n < 32" by simp
    have K: "?K OR ?r = 0x90000011" by (simp add: class_constants Rd_def TMP_REG_0_def X_def)
    have lo: "bit ?lo n \<longleftrightarrow> 29 \<le> n \<and> n < 31 \<and> bit imm (n - 17)" 
      using n by (cases "n < 29") (auto simp: bits_s_u bit_simps)
    have hi: "bit ?hi n \<longleftrightarrow> 5 \<le> n \<and> n < 24 \<and> bit imm (9 + n)"
      using n by (cases "n < 5") (auto simp: bits_s_u bit_simps)
    have "bit (?K OR ?r OR ?lo OR ?hi) n \<longleftrightarrow> bit (?K OR ?r) n \<or> bit ?lo n \<or> bit ?hi n"
      by (simp add: bit_or_iff disj_assoc)
    also have "\<dots> \<longleftrightarrow> bit (adrp_word imm) n"
      unfolding K lo hi bit_adrp_const bit_adrp_word [OF n] by (cases "n = 29 \<or> n = 30") auto
    finally show "bit (?K OR ?r OR ?lo OR ?hi) n \<longleftrightarrow> bit (adrp_word imm) n" .
  qed
  then show ?thesis by (simp add: adrp_def Let_def)
qed

lemma add_emits:
  "add TMP_REG_0 TMP_REG_0 (take_bit 12 to) a = Some (Emit (add17_word (take_bit 12 to)) a)"
proof -
  have i: "IsImmediate (Operand_imm v)" for v by (simp add: IsImmediate_def Operand_imm_def Is_def)
  have "ucast (LeftShift (take_bit 12 to) 12 10) = (push_bit 10 (ucast (take_bit 12 to)) :: u32)"
    by (rule bit_word_eqI) (auto simp: LeftShift_eq bit_simps)
  then have "ADD_x_imm OR Rd TMP_REG_0 OR Rn TMP_REG_0 OR ucast (LeftShift (take_bit 12 to) 12 10) =
      add17_word (take_bit 12 to)"
    by (simp add: a64_op LeftShift_eq Rd_def Rn_def TMP_REG_0_def X_def add17_word_def flip: or.assoc)
  moreover have "Is64Bits TMP_REG_0" by (simp add: Is64Bits_def TMP_REG_0_def X_def)
  moreover have "immediate (Operand_imm v) = v" for v by (simp add: Operand_imm_def)
  ultimately show ?thesis by (simp add: add_def AddSubImmediate_def i)
qed

lemma AdrpAdd_emits:
  "AdrpAdd TMP_REG_0 from to a =
     Some (Emit (add17_word (take_bit 12 to)) (Emit (adrp_word (ALIGN_FLOOR to 0x1000 - ALIGN_FLOOR from 0x1000)) a))"
  by (simp add: AdrpAdd_def page_offset adrp_emits add_emits)

lemma exec_adrp_word:
  "a64_exec (adrp_word imm) s =
     Some (wx 17 ((pc s AND NOT 0xFFF) + push_bit 12 (adr_imm (adrp_word imm))) s, Fall)"
proof -
  have f: "field 28 24 (adrp_word imm) = 0x10" "field 4 0 (adrp_word imm) = 0x11"
  proof -
    have "field 28 24 (adrp_word imm) = field 28 24 0x90000011" "field 4 0 (adrp_word imm) = field 4 0 0x90000011"
      by (rule bit_word_eqI; auto simp: bit_field bit_adrp_word bit_adrp_const simp del: bit_numeral_word_iff)+
    then show "field 28 24 (adrp_word imm) = 0x10" "field 4 0 (adrp_word imm) = 0x11" by (simp_all add: field_numeral)
  qed
  have b: "bit (adrp_word imm) 31" by (simp add: bit_adrp_word)
  then have hi: "inst_is_adr (adrp_word imm) \<or> inst_is_adrp (adrp_word imm)" using f by (simp add: inst_is_field bit_field_iff)
  show ?thesis using exec_class_adr [OF hi, of s] b f by (simp add: exec_adr_def reg_def)
qed

lemma exec_add17_word:
  "a64_exec (add17_word (take_bit 12 to)) s = Some (wx 17 (xr s 17 + take_bit 12 to) s, Fall)"
proof -
  let ?o = "push_bit 10 (ucast (take_bit 12 to)) :: u32"
  have z: "22 \<le> lo \<or> hi < 10 \<Longrightarrow> field hi lo ?o = 0" for hi lo
    by (rule field_high) (auto simp: bit_simps)
  have i: "(ucast (field 21 10 ?o) :: u64) = take_bit 12 to"
    by (rule bit_word_eqI) (auto simp: bit_simps)
  have b: "\<not> bit ?o 30" by (simp add: bit_simps)
  have "field 21 10 (add17_word (take_bit 12 to)) = field 21 10 ?o"
    by (simp add: add17_word_def field_or field_numeral)
  then show ?thesis
    by (simp add: a64_exec_def exec_add_imm_def Let_def reg_def add17_word_def field_or z field_numeral i b
        bit_or_iff rxsp_def wx_def wxsp_def)
qed

section \<open>Reaching the target\<close>

lemma floor_page: "ALIGN_FLOOR a 0x1000 = a - take_bit 12 a" "ALIGN_FLOOR a 0x1000 = push_bit 12 (drop_bit 12 a)"
  "ALIGN_FLOOR a 0x1000 + take_bit 12 a = a"
proof -
  have "(0x1000 - 1 :: u64) = mask 12" by (simp add: mask_eq_exp_minus_1)
  then have f: "ALIGN_FLOOR a 0x1000 = a AND NOT (mask 12)" by (simp only: ALIGN_FLOOR_def)
  also have "\<dots> = push_bit 12 (drop_bit 12 a)" by (rule bit_word_eqI) (auto simp: bit_simps)
  finally show p: "ALIGN_FLOOR a 0x1000 = push_bit 12 (drop_bit 12 a)" .
  then show "ALIGN_FLOOR a 0x1000 + take_bit 12 a = a" by (simp add: bits_ident)
  then show "ALIGN_FLOOR a 0x1000 = a - take_bit 12 a" by (metis add_diff_cancel)
qed

lemma sint_word_of_int: "- (2 ^ 63) \<le> k \<Longrightarrow> k < 2 ^ 63 \<Longrightarrow> sint (word_of_int k :: u64) = k"
  by (simp add: signed_of_int signed_take_bit_int_eq_self)

lemma uint_page: "uint (take_bit 12 (a :: u64)) < 4096" "0 \<le> uint (take_bit 12 a)"
proof -
  have u: "uint (take_bit 12 a) = take_bit 12 (uint a)" by (rule unsigned_take_bit_eq)
  show "uint (take_bit 12 a) < 4096" unfolding u using take_bit_int_less_exp [of 12 "uint a"] by simp
qed simp

lemma uint_llabs: "uint (llabs x) = \<bar>sint x\<bar>"
proof -
  have "llabs x = word_of_int \<bar>sint x\<bar>"
  proof (cases "sint x < 0")
    case True
    then have "llabs x = - word_of_int (sint x)" by (simp add: llabs_def)
    then show ?thesis using True by simp
  qed (simp add: llabs_def)
  moreover have "\<bar>sint x\<bar> < 2 ^ 64" using sint_greater_eq [of x] sint_less [of x] by auto
  ultimately show ?thesis by (simp add: unsigned_of_int take_bit_int_eq_self)
qed

lemma near_pages:
  assumes "llabs (from - to) \<le> 2 ^ 32 - 0x1000"
  shows "fits 21 12 (ALIGN_FLOOR to 0x1000 - ALIGN_FLOOR from 0x1000)"
proof -
  let ?d = "sint (from - to)" and ?D = "ALIGN_FLOOR to 0x1000 - ALIGN_FLOOR from 0x1000"
  let ?a = "uint (take_bit 12 to)" and ?b = "uint (take_bit 12 from)"
  have "uint (llabs (from - to)) \<le> uint (2 ^ 32 - 0x1000 :: u64)" using assms by (simp only: word_le_def)
  then have b: "- 4294963200 \<le> ?d" "?d \<le> 4294963200" by (simp_all add: uint_llabs abs_le_iff)
  have "?D = - (from - to) - take_bit 12 to + take_bit 12 from" by (simp add: floor_page(1))
  also have "\<dots> = word_of_int (- ?d - ?a + ?b)" by simp
  finally have D: "?D = word_of_int (- ?d - ?a + ?b)" .
  have "- 9223372036854775808 \<le> - ?d - ?a + ?b" "- ?d - ?a + ?b < 9223372036854775808"
    and r: "- 4294967296 \<le> - ?d - ?a + ?b" "- ?d - ?a + ?b < 4294967296"
    using b uint_page [of to] uint_page [of "from"] by linarith+
  then have "sint ?D = - ?d - ?a + ?b" unfolding D by (intro sint_word_of_int) simp_all
  moreover have "?D = push_bit 12 (drop_bit 12 to - drop_bit 12 from)"
    by (simp add: floor_page(2) push_bit_eq_mult left_diff_distrib)
  then have "take_bit 12 ?D = 0" by (simp add: take_bit_push_bit)
  ultimately show ?thesis using r by (simp add: fits_def)
qed

definition near_words :: "u64 \<Rightarrow> u64 \<Rightarrow> u32 list" where
  "near_words from to = [adrp_word (ALIGN_FLOOR to 0x1000 - ALIGN_FLOOR from 0x1000), add17_word (take_bit 12 to), br17_word]"

lemma trampoline_near:
  "llabs (from - to) < 2 ^ 32 \<Longrightarrow> GenerateNormalTrampolineBuffer from to = Some (enc (near_words from to))"
  by (simp add: GenerateNormalTrampolineBuffer_def AdrpAdd_emits near_words_def br17 CodeBuffer_Copy_def EmitBuffer_def
      Emit_def Emit32_def new_Assembler_def Let_def)

lemma trampoline_far:
  "\<not> llabs (from - to) < 2 ^ 32 \<Longrightarrow> GenerateNormalTrampolineBuffer from to =
     Some (enc (bind_lits [ldr17_word, br17_word] [(0, to)]))"
proof -
  assume far: "\<not> llabs (from - to) < 2 ^ 32"
  have "asm_rel (new_Assembler from) [] []" "unbound (new_Assembler from)"
    by (simp_all add: asm_rel_def new_Assembler_def unbound_def)
  from LiteralLdrBranch_words [OF this, of to] far show ?thesis
    by (auto simp: GenerateNormalTrampolineBuffer_def Let_def CodeBuffer_Copy_def EmitBuffer_def asm_rel_def)
qed

lemma run_near_words:
  assumes "code_at (mem s) from (near_words from to)" "pc s = from"
  defines "v \<equiv> ALIGN_FLOOR from 0x1000 + push_bit 12 (adr_imm (adrp_word (ALIGN_FLOOR to 0x1000 - ALIGN_FLOOR from 0x1000))) +
    take_bit 12 to"
  shows "a64_run 3 s = Some (s\<lparr>xr := (xr s)(17 := v), pc := v\<rparr>)"
proof -
  let ?D = "ALIGN_FLOOR to 0x1000 - ALIGN_FLOOR from 0x1000"
  have pg: "pc s AND NOT 0xFFF = ALIGN_FLOOR from 0x1000" by (simp add: assms(2) ALIGN_FLOOR_def)
  let ?t = "s\<lparr>xr := (xr s)(17 := v), pc := from + 8\<rparr>"
  have seq: "exec_seq [adrp_word ?D, add17_word (take_bit 12 to)] s = Some ?t"
    unfolding exec_seq.simps exec_adrp_word pg by (simp add: exec_add17_word wx_def assms(2) v_def)
  have code: "code_at (mem s) (pc s) [adrp_word ?D, add17_word (take_bit 12 to)]"
    using assms(1,2) by (simp add: near_words_def)
  have "a64_run 2 s = Some ?t" using exec_seq_run [OF seq code] by (simp add: numeral_2_eq_2 del: a64_run.simps)
  moreover have "a64_step ?t = Some (s\<lparr>xr := (xr s)(17 := v), pc := v\<rparr>)"
    using assms(1) by (simp add: near_words_def a64_step_def fetch_def exec_br17 add.assoc)
  ultimately show ?thesis using a64_run_add [of 2 1 s] by simp
qed

lemma run_near:
  assumes "fits 21 12 (ALIGN_FLOOR to 0x1000 - ALIGN_FLOOR from 0x1000)" "code_at (mem s) from (near_words from to)" "pc s = from"
  shows "a64_run 3 s = Some (s\<lparr>xr := (xr s)(17 := to), pc := to\<rparr>)"
proof -
  let ?D = "ALIGN_FLOOR to 0x1000 - ALIGN_FLOOR from 0x1000"
  have "adr_imm (adrp_word ?D) = signed_drop_bit 12 ?D"
    unfolding adrp_word_def by (rule adr_imm_encode [OF fits_page(1) [OF assms(1)]])
  then have "push_bit 12 (adr_imm (adrp_word ?D)) = ?D" using fits_page(2) [OF assms(1)] by simp
  then show ?thesis using run_near_words [OF assms(2,3)] floor_page(3) [of to] by simp
qed

lemma run_far:
  assumes "code_at (mem s) from (bind_lits [ldr17_word, br17_word] [(0, to)])" "pc s = from"
  shows "a64_run 2 s = Some (s\<lparr>xr := (xr s)(17 := to), pc := to\<rparr>)"
proof -
  let ?fw = "bind_lits [ldr17_word, br17_word] [(0, to)]"
  have ok: "lits_ok [ldr17_word, br17_word] [(0, to)]" by (simp add: lits_ok_def)
  have lit: "lit_bound ?fw 0 to"
    by (rule bind_lits_bound [OF _ lits_ok_encoded [OF ok]]) simp_all
  have "a64_step s = Some (s\<lparr>xr := (xr s)(17 := to), pc := from + of_nat (4 * Suc 0)\<rparr>)"
    by (rule step_lit [OF assms(1) lit]) (simp_all add: assms(2))
  moreover have "?fw ! 1 = br17_word" by (simp add: patch_def)
  then have "a64_step (s\<lparr>xr := (xr s)(17 := to), pc := from + of_nat (4 * Suc 0)\<rparr>) =
      Some (s\<lparr>xr := (xr s)(17 := to), pc := to\<rparr>)"
    using step_at [of "s\<lparr>xr := (xr s)(17 := to), pc := from + of_nat (4 * Suc 0)\<rparr>" "from" ?fw 1] assms(1)
    by (simp add: exec_br17)
  ultimately show ?thesis by (simp add: numeral_2_eq_2)
qed

lemma wraps_near: "llabs (0x7000000FFC - 0x7100000FF8) < 2 ^ 32"
  by code_simp

lemma trampoline_runs:
  assumes "llabs (from - to) \<le> 2 ^ 32 - 0x1000 \<or> 2 ^ 32 \<le> llabs (from - to)"
  shows "\<exists>bs. GenerateNormalTrampolineBuffer from to = Some bs \<and> (length bs = 12 \<or> length bs = 16) \<and>
    (\<forall>s. loaded (mem s) from bs \<and> pc s = from \<longrightarrow>
       (\<exists>k. a64_run k s = Some (s\<lparr>xr := (xr s)(17 := to), pc := to\<rparr>)))"
proof (cases "llabs (from - to) < 2 ^ 32")
  case True
  then have fit: "fits 21 12 (ALIGN_FLOOR to 0x1000 - ALIGN_FLOOR from 0x1000)" using assms near_pages by auto
  have "a64_run 3 s = Some (s\<lparr>xr := (xr s)(17 := to), pc := to\<rparr>)"
    if "loaded (mem s) from (enc (near_words from to))" "pc s = from" for s
    using run_near [OF fit loaded_code_at [OF that(1)] that(2)] .
  then show ?thesis using trampoline_near [OF True] by (auto simp: near_words_def)
next
  case False
  have "a64_run 2 s = Some (s\<lparr>xr := (xr s)(17 := to), pc := to\<rparr>)"
    if "loaded (mem s) from (enc (bind_lits [ldr17_word, br17_word] [(0, to)]))" "pc s = from" for s
    using run_far [OF loaded_code_at [OF that(1)] that(2)] .
  moreover have "length (enc (bind_lits [ldr17_word, br17_word] [(0, to)])) = 16" by simp
  ultimately show ?thesis using trampoline_far [OF False] by blast
qed

lemma trampoline_total:
  "\<exists>bs. GenerateNormalTrampolineBuffer from to = Some bs \<and> (length bs = 12 \<or> length bs = 16)"
  by (cases "llabs (from - to) < 2 ^ 32") (auto simp: trampoline_near trampoline_far near_words_def)

section \<open>Properties\<close>

text \<open>
  C11: The trampoline over a function entry reaches its target: it is generated for every pair of
  addresses, is 12 or 16 bytes long, and from its first instruction the machine gets to the
  target with only \<^verbatim>\<open>x17\<close> changed, unless the distance is within a page of 4 GiB.
\<close>

theorem trampoline_reaches_target:
  assumes "llabs (from - to) \<le> 2 ^ 32 - 0x1000 \<or> 2 ^ 32 \<le> llabs (from - to)"
  shows "\<exists>bs. GenerateNormalTrampolineBuffer from to = Some bs \<and> (length bs = 12 \<or> length bs = 16) \<and>
    (\<forall>s. loaded (mem s) from bs \<and> pc s = from \<longrightarrow>
       (\<exists>k. a64_run k s = Some (s\<lparr>xr := (xr s)(17 := to), pc := to\<rparr>)))"
  by (rule trampoline_runs [OF assms])

theorem trampoline_reaches_target_witness:
  "\<exists>bs. GenerateNormalTrampolineBuffer 0x10FFC 0x7F0000001234 = Some bs \<and> (length bs = 12 \<or> length bs = 16)"
proof -
  have "2 ^ 32 \<le> llabs (0x10FFC - 0x7F0000001234)" by code_simp
  then show ?thesis using trampoline_reaches_target [of "0x10FFC" "0x7F0000001234"] by blast
qed

text \<open>
  Within a page of 4 GiB the range test of the generator is wrong: the distance of the two
  addresses is below its bound, the distance of their pages is not, and the trampoline goes to an
  address 8 GiB below the target.
\<close>

theorem trampoline_wraps:
  "\<exists>bs. GenerateNormalTrampolineBuffer 0x7000000FFC 0x7100000FF8 = Some bs \<and>
    (\<forall>s. loaded (mem s) 0x7000000FFC bs \<and> pc s = 0x7000000FFC \<longrightarrow>
       map_option pc (a64_run 3 s) = Some (0x7100000FF8 - 2 ^ 33))"
proof -
  have v: "ALIGN_FLOOR 0x7000000FFC 0x1000 + push_bit 12 (adr_imm (adrp_word (ALIGN_FLOOR 0x7100000FF8 0x1000 -
      ALIGN_FLOOR 0x7000000FFC 0x1000))) + take_bit 12 0x7100000FF8 = 0x7100000FF8 - 2 ^ 33" by code_simp
  have "map_option pc (a64_run 3 s) = Some (0x7100000FF8 - 2 ^ 33)"
    if "loaded (mem s) 0x7000000FFC (enc (near_words 0x7000000FFC 0x7100000FF8))" "pc s = 0x7000000FFC" for s
    using run_near_words [OF loaded_code_at [OF that(1)] that(2)] unfolding v by simp
  then show ?thesis using trampoline_near [OF wraps_near] by blast
qed

theorem trampoline_wraps_witness:
  "\<exists>bs. GenerateNormalTrampolineBuffer 0x7000000FFC 0x7100000FF8 = Some bs \<and>
    map_option pc (a64_run 3 \<lparr>xr = (\<lambda>_. 0), spr = 0, pc = 0x7000000FFC, nf = False, zf = False, cf = False,
       vf = False, qr = (\<lambda>_. 0), mem = image 0x7000000FFC bs\<rparr>) = Some 0x6F00000FF8"
proof -
  obtain bs where bs: "GenerateNormalTrampolineBuffer 0x7000000FFC 0x7100000FF8 = Some bs"
    "\<forall>s. loaded (mem s) 0x7000000FFC bs \<and> pc s = 0x7000000FFC \<longrightarrow>
       map_option pc (a64_run 3 s) = Some (0x7100000FF8 - 2 ^ 33)" using trampoline_wraps by blast
  have "length bs = 12" using bs(1) trampoline_near [OF wraps_near] by (auto simp: near_words_def)
  then have "loaded (image 0x7000000FFC bs) 0x7000000FFC bs" by (simp add: loaded_image)
  then show ?thesis using bs by (intro exI [of _ bs]) simp
qed

end
