(* ===== verification/A64_Closure.thy ===== *)
theory A64_Closure
  imports A64_Trampoline
begin

unbundle bit_operations_syntax

text \<open>
  The code that the closure trampoline of an instrumented instruction consists of
  (\<^verbatim>\<open>ClosureTrampolineARM64.cc\<close>), and the bridge that all of them share (\<^verbatim>\<open>closure_bridge_arm64.cc\<close>).
\<close>

section \<open>Emitting a sequence\<close>

fun emit_all :: "(Assembler \<Rightarrow> Assembler option) list \<Rightarrow> Assembler \<Rightarrow> Assembler option" where
  "emit_all [] a = Some a"
| "emit_all (f # fs) a = Option.bind (f a) (emit_all fs)"

definition MEM :: "CPURegister \<Rightarrow> nat \<Rightarrow> MemOperand" where
  "MEM base off = MemOperand_imm base (of_nat off) Offset"

definition MEM_EXT :: "CPURegister \<Rightarrow> nat \<Rightarrow> AddrMode \<Rightarrow> MemOperand" where
  "MEM_EXT base off am = MemOperand_imm base (of_nat off) am"

section \<open>The bridge\<close>

text \<open>
  \<^verbatim>\<open>full\<close> is the build option \<^verbatim>\<open>FULL_FLOATING_POINT_REGISTER_PACK\<close>. The registers are stored below the
  stack pointer, the highest first, so that they form a \<^verbatim>\<open>DobbyRegisterContext\<close>.
\<close>

definition bridge_save_high_q :: "bool \<Rightarrow> (Assembler \<Rightarrow> Assembler option) list" where
  "bridge_save_high_q full =
     (if full then
        [sub SP SP (24 * 16),
         stp (Q 30) (Q 31) (MEM SP (22 * 16)), stp (Q 28) (Q 29) (MEM SP (20 * 16)),
         stp (Q 26) (Q 27) (MEM SP (18 * 16)), stp (Q 24) (Q 25) (MEM SP (16 * 16)),
         stp (Q 22) (Q 23) (MEM SP (14 * 16)), stp (Q 20) (Q 21) (MEM SP (12 * 16)),
         stp (Q 18) (Q 19) (MEM SP (10 * 16)), stp (Q 16) (Q 17) (MEM SP (8 * 16)),
         stp (Q 14) (Q 15) (MEM SP (6 * 16)), stp (Q 12) (Q 13) (MEM SP (4 * 16)),
         stp (Q 10) (Q 11) (MEM SP (2 * 16)), stp (Q 8) (Q 9) (MEM SP (0 * 16))]
      else [])"

definition bridge_save_low_q :: "(Assembler \<Rightarrow> Assembler option) list" where
  "bridge_save_low_q =
     [sub SP SP (8 * 16),
      stp (Q 6) (Q 7) (MEM SP (6 * 16)), stp (Q 4) (Q 5) (MEM SP (4 * 16)),
      stp (Q 2) (Q 3) (MEM SP (2 * 16)), stp (Q 0) (Q 1) (MEM SP (0 * 16))]"

definition bridge_save_x :: "(Assembler \<Rightarrow> Assembler option) list" where
  "bridge_save_x =
     [sub SP SP (30 * 8),
      stp (X 29) (X 30) (MEM SP (28 * 8)), stp (X 27) (X 28) (MEM SP (26 * 8)),
      stp (X 25) (X 26) (MEM SP (24 * 8)), stp (X 23) (X 24) (MEM SP (22 * 8)),
      stp (X 21) (X 22) (MEM SP (20 * 8)), stp (X 19) (X 20) (MEM SP (18 * 8)),
      stp (X 17) (X 18) (MEM SP (16 * 8)), stp (X 15) (X 16) (MEM SP (14 * 8)),
      stp (X 13) (X 14) (MEM SP (12 * 8)), stp (X 11) (X 12) (MEM SP (10 * 8)),
      stp (X 9) (X 10) (MEM SP (8 * 8)), stp (X 7) (X 8) (MEM SP (6 * 8)),
      stp (X 5) (X 6) (MEM SP (4 * 8)), stp (X 3) (X 4) (MEM SP (2 * 8)),
      stp (X 1) (X 2) (MEM SP (0 * 8)),
      sub SP SP (2 * 8), str (X 0) (MEM SP 8)]"

text \<open>The size of the context: two dummies, \<^verbatim>\<open>sp\<close>, 31 general registers and 8 or 32 vector registers.\<close>

definition sizeof_DobbyRegisterContext :: nat where
  "sizeof_DobbyRegisterContext = 3 * 8 + 29 * 8 + 2 * 8 + 32 * 16"

definition REGISTER_CONTEXT_SIZE :: "bool \<Rightarrow> nat" where
  "REGISTER_CONTEXT_SIZE full =
     (if full then sizeof_DobbyRegisterContext else sizeof_DobbyRegisterContext - 24 * 16)"

definition bridge_call :: "bool \<Rightarrow> addr \<Rightarrow> (Assembler \<Rightarrow> Assembler option) list" where
  "bridge_call full handler =
     [add TMP_REG_0 SP (2 * 8), add TMP_REG_0 TMP_REG_0 (2 * 8 + 30 * 8 + 8 * 16)] @
     (if full then [add TMP_REG_0 TMP_REG_0 (24 * 16)] else []) @
     [sub SP SP (2 * 8), str TMP_REG_0 (MEM SP 8),
      mov (X 0) SP, ldr (X 1) (MEM SP (REGISTER_CONTEXT_SIZE full + 0)), Some \<circ> CallFunction handler]"

definition bridge_restore_x :: "(Assembler \<Rightarrow> Assembler option) list" where
  "bridge_restore_x =
     [add SP SP (2 * 8), ldr (X 0) (MEM SP 8), add SP SP (2 * 8),
      ldp (X 1) (X 2) (MEM_EXT SP 16 PostIndex), ldp (X 3) (X 4) (MEM_EXT SP 16 PostIndex),
      ldp (X 5) (X 6) (MEM_EXT SP 16 PostIndex), ldp (X 7) (X 8) (MEM_EXT SP 16 PostIndex),
      ldp (X 9) (X 10) (MEM_EXT SP 16 PostIndex), ldp (X 11) (X 12) (MEM_EXT SP 16 PostIndex),
      ldp (X 13) (X 14) (MEM_EXT SP 16 PostIndex), ldp (X 15) (X 16) (MEM_EXT SP 16 PostIndex),
      ldp (X 17) (X 18) (MEM_EXT SP 16 PostIndex), ldp (X 19) (X 20) (MEM_EXT SP 16 PostIndex),
      ldp (X 21) (X 22) (MEM_EXT SP 16 PostIndex), ldp (X 23) (X 24) (MEM_EXT SP 16 PostIndex),
      ldp (X 25) (X 26) (MEM_EXT SP 16 PostIndex), ldp (X 27) (X 28) (MEM_EXT SP 16 PostIndex),
      ldp (X 29) (X 30) (MEM_EXT SP 16 PostIndex)]"

definition bridge_restore_q :: "bool \<Rightarrow> (Assembler \<Rightarrow> Assembler option) list" where
  "bridge_restore_q full =
     [ldp (Q 0) (Q 1) (MEM_EXT SP 32 PostIndex), ldp (Q 2) (Q 3) (MEM_EXT SP 32 PostIndex),
      ldp (Q 4) (Q 5) (MEM_EXT SP 32 PostIndex), ldp (Q 6) (Q 7) (MEM_EXT SP 32 PostIndex)] @
     (if full then
        [ldp (Q 8) (Q 9) (MEM_EXT SP 32 PostIndex), ldp (Q 10) (Q 11) (MEM_EXT SP 32 PostIndex),
         ldp (Q 12) (Q 13) (MEM_EXT SP 32 PostIndex), ldp (Q 14) (Q 15) (MEM_EXT SP 32 PostIndex),
         ldp (Q 16) (Q 17) (MEM_EXT SP 32 PostIndex), ldp (Q 18) (Q 19) (MEM_EXT SP 32 PostIndex),
         ldp (Q 20) (Q 21) (MEM_EXT SP 32 PostIndex), ldp (Q 22) (Q 23) (MEM_EXT SP 32 PostIndex),
         ldp (Q 24) (Q 25) (MEM_EXT SP 32 PostIndex), ldp (Q 26) (Q 27) (MEM_EXT SP 32 PostIndex),
         ldp (Q 28) (Q 29) (MEM_EXT SP 32 PostIndex), ldp (Q 30) (Q 31) (MEM_EXT SP 32 PostIndex)]
      else [])"

definition closure_bridge_code :: "bool \<Rightarrow> addr \<Rightarrow> Assembler option" where
  "closure_bridge_code full handler =
     emit_all (bridge_save_high_q full @ bridge_save_low_q @ bridge_save_x @ bridge_call full handler @
       bridge_restore_x @ bridge_restore_q full @ [Some \<circ> ret]) (new_Assembler 0)"

section \<open>The closure trampoline\<close>

text \<open>The code up to the last label, which the address of the bridge follows.\<close>

definition closure_trampoline_code :: "addr \<Rightarrow> Assembler option" where
  "closure_trampoline_code tramp_entry =
     Option.bind (emit_all [sub SP SP (2 * 8), str (X 30) (MEM SP 8)] (new_Assembler 0)) (\<lambda>a.
     Option.bind (Ldr TMP_REG_0 new_PseudoLabel a) (\<lambda>(entry_label, a).
     Option.bind (str TMP_REG_0 (MEM SP 0) a) (\<lambda>a.
     Option.bind (Ldr TMP_REG_0 new_PseudoLabel a) (\<lambda>(forward_bridge_label, a).
     Option.bind (emit_all [Some \<circ> blr TMP_REG_0, ldr (X 30) (MEM SP 8), add SP SP (2 * 8), Some \<circ> br TMP_REG_0] a) (\<lambda>a.
     Option.bind (PseudoBind entry_label a) (\<lambda>(_, a).
     Option.bind (PseudoBind forward_bridge_label (EmitInt64 tramp_entry a)) (\<lambda>(_, a).
     Some a)))))))"

end
