(* ===== verification/A64_Stack.thy ===== *)
theory A64_Stack
  imports A64_Trampoline
begin

unbundle bit_operations_syntax

text \<open>
  The instructions that work on the stack: stores, pairs with and without an update of the base, and the
  return, after the Arm Architecture Reference Manual, on top of the subset of \<^theory_text>\<open>A64_Isa\<close>. A frame is
  a part of memory seen as words of 64 bits. Like the instruction set, this is what the generated code
  is measured against, not a model of code.
\<close>

section \<open>Instructions\<close>

definition store_q :: "(addr \<Rightarrow> u8) \<Rightarrow> u64 \<Rightarrow> 128 word \<Rightarrow> (addr \<Rightarrow> u8)" where
  "store_q m a v = upd_le (upd_le m 8 a (ucast v :: u64)) 8 (a + 8) (ucast (drop_bit 64 v) :: u64)"

definition load_q :: "(addr \<Rightarrow> u8) \<Rightarrow> u64 \<Rightarrow> 128 word" where
  "load_q m a = ucast (get_le m 8 a :: u64) OR push_bit 64 (ucast (get_le m 8 (a + 8) :: u64))"

definition exec_str :: "u32 \<Rightarrow> a64 \<Rightarrow> a64 \<times> flow" where
  "exec_str w s =
     (s\<lparr>mem := upd_le (mem s) 8 (rxsp s (reg 9 5 w) + push_bit 3 (ucast (field 21 10 w))) (rx s (reg 4 0 w))\<rparr>, Fall)"

definition exec_stp :: "u32 \<Rightarrow> a64 \<Rightarrow> a64 \<times> flow" where
  "exec_stp w s =
     (let a = rxsp s (reg 9 5 w) + push_bit 3 (sfield 21 15 w)
      in (s\<lparr>mem := upd_le (upd_le (mem s) 8 a (rx s (reg 4 0 w))) 8 (a + 8) (rx s (reg 14 10 w))\<rparr>, Fall))"

definition exec_stp_q :: "u32 \<Rightarrow> a64 \<Rightarrow> a64 \<times> flow" where
  "exec_stp_q w s =
     (let a = rxsp s (reg 9 5 w) + push_bit 4 (sfield 21 15 w)
      in (s\<lparr>mem := store_q (store_q (mem s) a (qr s (reg 4 0 w))) (a + 16) (qr s (reg 14 10 w))\<rparr>, Fall))"

definition exec_ldp_post :: "u32 \<Rightarrow> a64 \<Rightarrow> a64 \<times> flow" where
  "exec_ldp_post w s =
     (let n = reg 9 5 w; a = rxsp s n
      in (wxsp n (a + push_bit 3 (sfield 21 15 w)) (wx (reg 14 10 w) (load 8 (a + 8) s) (wx (reg 4 0 w) (load 8 a s) s)), Fall))"

definition exec_ldp_q_post :: "u32 \<Rightarrow> a64 \<Rightarrow> a64 \<times> flow" where
  "exec_ldp_q_post w s =
     (let n = reg 9 5 w; a = rxsp s n
      in (wxsp n (a + push_bit 4 (sfield 21 15 w))
           (s\<lparr>qr := (qr s)(reg 4 0 w := load_q (mem s) a, reg 14 10 w := load_q (mem s) (a + 16))\<rparr>), Fall))"

definition a64x_exec :: "u32 \<Rightarrow> a64 \<Rightarrow> (a64 \<times> flow) option" where
  "a64x_exec w s =
     (if field 31 22 w = 0x3E4 then Some (exec_str w s)
      else if field 31 22 w = 0x2A4 then Some (exec_stp w s)
      else if field 31 22 w = 0x2B4 then Some (exec_stp_q w s)
      else if field 31 22 w = 0x2A3 then Some (exec_ldp_post w s)
      else if field 31 22 w = 0x2B3 then Some (exec_ldp_q_post w s)
      else if field 31 10 w = 0x3597C0 \<and> field 4 0 w = 0 then Some (s, Jump (rx s (reg 9 5 w)))
      else a64_exec w s)"

definition a64x_step :: "a64 \<Rightarrow> a64 option" where
  "a64x_step s = map_option (\<lambda>(t, fl). finish fl (pc s + 4) t) (a64x_exec (fetch s) s)"

fun a64x_run :: "nat \<Rightarrow> a64 \<Rightarrow> a64 option" where
  "a64x_run 0 s = Some s"
| "a64x_run (Suc k) s = Option.bind (a64x_step s) (a64x_run k)"

lemma a64x_run_add: "a64x_run (j + k) s = Option.bind (a64x_run j s) (a64x_run k)"
  by (induction j arbitrary: s) (auto split: Option.bind_splits)

section \<open>Frames\<close>

text \<open>The memory \<open>m\<close> with the words \<open>f 0\<close>, \<open>\<dots>\<close>, \<open>f (n - 1)\<close> from \<open>F\<close> on.\<close>

definition put_frame :: "(addr \<Rightarrow> u8) \<Rightarrow> u64 \<Rightarrow> nat \<Rightarrow> (nat \<Rightarrow> u64) \<Rightarrow> (addr \<Rightarrow> u8)" where
  "put_frame m F n f a =
     (let k = unat (a - F) in if k < 8 * n then ucast (drop_bit (8 * (k mod 8)) (f (k div 8))) else m a)"

definition frame_of :: "(addr \<Rightarrow> u8) \<Rightarrow> u64 \<Rightarrow> nat \<Rightarrow> u64" where
  "frame_of m F i = get_le m 8 (F + of_nat (8 * i))"

definition in_frame :: "u64 \<Rightarrow> nat \<Rightarrow> u64 \<Rightarrow> bool" where
  "in_frame F n a \<longleftrightarrow> unat (a - F) < 8 * n"

lemma frame_addr: "a = F + of_nat (unat (a - F))"
  by simp

lemma byte_of_get_le:
  assumes "j < 8"
  shows "ucast (drop_bit (8 * j) (get_le m 8 a :: u64)) = m (a + of_nat j)"
proof (rule bit_word_eqI)
  fix k :: nat
  assume "k < LENGTH(8)"
  then have k: "k < 8" by simp
  have "8 * j + k < 64" "(8 * j + k) div 8 = j" "(8 * j + k) mod 8 = k" using k assms by auto
  then show "bit (ucast (drop_bit (8 * j) (get_le m 8 a :: u64)) :: u8) k = bit (m (a + of_nat j)) k"
    using k assms by (simp add: bit_simps bit_get_le)
qed

lemma put_frame_of: "put_frame m F n (frame_of m F) = m"
proof
  fix a
  show "put_frame m F n (frame_of m F) a = m a"
  proof (cases "unat (a - F) < 8 * n")
    case True
    let ?k = "unat (a - F)"
    have "F + of_nat (8 * (?k div 8)) + of_nat (?k mod 8) = F + of_nat (8 * (?k div 8) + ?k mod 8)" by (simp only: of_nat_add add.assoc)
    also have "\<dots> = a" by (simp only: mult_div_mod_eq) simp
    finally have "m (F + of_nat (8 * (?k div 8)) + of_nat (?k mod 8)) = m a" by simp
    with True show ?thesis unfolding put_frame_def Let_def frame_of_def by (simp only: if_True byte_of_get_le [OF mod_less_divisor] zero_less_numeral)
  qed (simp add: put_frame_def)
qed

lemma put_frame_outside: "\<not> in_frame F n a \<Longrightarrow> put_frame m F n f a = m a"
  by (simp add: put_frame_def in_frame_def)

lemma store_frame:
  assumes i: "unat (a - F) = 8 * i" "i < n" and n: "n < 2 ^ 32"
  shows "upd_le (put_frame m F n f) 8 a v = put_frame m F n (f(i := v :: u64))"
proof
  fix b
  have a: "a = F + of_nat (8 * i)" using i(1) frame_addr [of a F] by simp
  show "upd_le (put_frame m F n f) 8 a v b = put_frame m F n (f(i := v)) b"
  proof (cases "\<exists>j < 8. b = a + of_nat j")
    case True
    then obtain j where j: "j < 8" "b = a + of_nat j" by blast
    have "b - F = of_nat (8 * i + j)" by (simp add: j a)
    moreover have "8 * i + j < 2 ^ 64" using i(2) n j(1) by simp
    then have "unat (of_nat (8 * i + j) :: u64) = 8 * i + j"
      unfolding unat_of_nat by simp
    ultimately have k: "unat (b - F) = 8 * i + j" by simp
    have "upd_le (put_frame m F n f) 8 a v b = ucast (drop_bit (8 * j) v)" unfolding j(2) by (rule upd_le_same) (use j in simp_all)
    moreover have "(8 * i + j) div 8 = i" "(8 * i + j) mod 8 = j" "8 * i + j < 8 * n" using j(1) i(2) by auto
    ultimately show ?thesis by (simp add: put_frame_def k)
  next
    case False
    then have "upd_le (put_frame m F n f) 8 a v b = put_frame m F n f b" by (intro upd_le_other) auto
    moreover have "unat (b - F) div 8 \<noteq> i"
    proof
      assume e: "unat (b - F) div 8 = i"
      have "b = F + of_nat (8 * i + unat (b - F) mod 8)"
        using frame_addr [of b F] e mult_div_mod_eq [of 8 "unat (b - F)"] by (metis)
      then have "b = a + of_nat (unat (b - F) mod 8)" by (simp add: a add.assoc)
      then show False using False by (metis mod_less_divisor zero_less_numeral)
    qed
    ultimately show ?thesis by (simp add: put_frame_def Let_def)
  qed
qed

lemma load_frame:
  assumes "unat (a - F) = 8 * i" "i < n" "n < 2 ^ 32"
  shows "get_le (put_frame m F n f) 8 a = f i"
proof -
  have "put_frame m F n f = upd_le (put_frame m F n f) 8 a (f i)" using store_frame [OF assms, of m f "f i"] by simp
  then have "get_le (put_frame m F n f) 8 a = (get_le (upd_le (put_frame m F n f) 8 a (f i)) 8 a :: u64)" by simp
  then show ?thesis by (simp add: get_upd_le)
qed

lemma frame_stores:
  "unat (a - F) mod 8 = 0 \<Longrightarrow> unat (a - F) div 8 < n \<Longrightarrow> n < 2 ^ 32 \<Longrightarrow>
     upd_le (put_frame m F n f) 8 a v = put_frame m F n (f(unat (a - F) div 8 := v :: u64))"
  by (rule store_frame) auto

lemma frame_loads:
  "unat (a - F) mod 8 = 0 \<Longrightarrow> unat (a - F) div 8 < n \<Longrightarrow> n < 2 ^ 32 \<Longrightarrow>
     get_le (put_frame m F n f) 8 a = f (unat (a - F) div 8)"
  by (rule load_frame) auto

lemma code_at_frame:
  assumes "\<forall>i < 4 * length ws. \<not> in_frame F n (a + of_nat i)"
  shows "code_at (put_frame m F n f) a ws = code_at m a ws"
  using assms
proof (induction ws arbitrary: a)
  case (Cons w ws)
  have "get_le (put_frame m F n f) 4 a = (get_le m 4 a :: u32)"
    using Cons.prems by (intro get_le_cong) (auto intro!: put_frame_outside)
  moreover have rest: "\<forall>i < 4 * length ws. \<not> in_frame F n (a + 4 + of_nat i)"
  proof (intro allI impI)
    fix i
    assume "i < 4 * length ws"
    then show "\<not> in_frame F n (a + 4 + of_nat i)" using Cons.prems [rule_format, of "4 + i"] by (simp add: add.assoc)
  qed
  ultimately show ?case using Cons.IH [OF rest] by simp
qed simp

section \<open>Straight lines\<close>

text \<open>A straight line of instructions that stores into the frame only.\<close>

definition framed :: "(addr \<Rightarrow> u8) \<Rightarrow> u64 \<Rightarrow> nat \<Rightarrow> (addr \<Rightarrow> u8) \<Rightarrow> bool" where
  "framed m F n m' \<longleftrightarrow> (\<exists>f. m' = put_frame m F n f)"

lemma framed_put [simp]: "framed m F n (put_frame m F n f)"
  by (auto simp: framed_def)

fun exec_line :: "(addr \<Rightarrow> u8) \<Rightarrow> u64 \<Rightarrow> nat \<Rightarrow> u32 list \<Rightarrow> a64 \<Rightarrow> a64 option" where
  "exec_line m F n [] s = Some s"
| "exec_line m F n (w # ws) s =
     Option.bind (a64x_exec w s) (\<lambda>(t, fl).
       if fl = Fall \<and> framed m F n (mem t) then exec_line m F n ws (t\<lparr>pc := pc s + 4\<rparr>) else None)"

lemma exec_line_append: "exec_line m F n (us @ ws) s = Option.bind (exec_line m F n us s) (exec_line m F n ws)"
  by (induction us arbitrary: s) (auto split: Option.bind_splits)

lemma exec_line_run:
  "exec_line m F n ws s = Some t \<Longrightarrow> framed m F n (mem s) \<Longrightarrow> code_at m (pc s) ws \<Longrightarrow>
   \<forall>i < 4 * length ws. \<not> in_frame F n (pc s + of_nat i) \<Longrightarrow>
     a64x_run (length ws) s = Some t \<and> framed m F n (mem t)"
proof (induction ws arbitrary: s)
  case (Cons w ws)
  from Cons.prems(1) obtain u where u: "a64x_exec w s = Some (u, Fall)" "framed m F n (mem u)"
    and rest: "exec_line m F n ws (u\<lparr>pc := pc s + 4\<rparr>) = Some t"
    by (auto split: Option.bind_splits prod.splits if_splits)
  have "code_at (mem s) (pc s) (w # ws)"
    using Cons.prems(2,3) code_at_frame [OF Cons.prems(4), of m] by (auto simp: framed_def simp del: code_at.simps)
  then have "fetch s = w" by (simp add: fetch_def)
  moreover have "\<forall>i < 4 * length ws. \<not> in_frame F n (pc s + 4 + of_nat i)"
  proof (intro allI impI)
    fix i
    assume "i < 4 * length ws"
    then show "\<not> in_frame F n (pc s + 4 + of_nat i)" using Cons.prems(4) [rule_format, of "4 + i"] by (simp add: add.assoc)
  qed
  ultimately show ?case using Cons.IH [OF rest] Cons.prems(3) u by (simp add: a64x_step_def)
qed simp

text \<open>The extension does not change what the subset does.\<close>

lemma field_of_high: "22 \<le> lo \<Longrightarrow> lo \<le> hi \<Longrightarrow> hi \<le> 31 \<Longrightarrow> field hi lo w = field (hi - 22) (lo - 22) (field 31 22 w)"
  by (rule bit_word_eqI) (auto simp: bit_field)

lemma a64_exec_disjoint:
  "field 31 22 w \<in> {0x3E4, 0x2A4, 0x2B4, 0x2A3, 0x2B3, 0x359} \<Longrightarrow> a64_exec w s = None"
proof -
  assume f: "field 31 22 w \<in> {0x3E4, 0x2A4, 0x2B4, 0x2A3, 0x2B3, 0x359}"
  have r: "field 31 22 w = field 21 12 (field 31 10 w)" by (rule bit_word_eqI) (auto simp: bit_field)
  then have "field 31 10 w \<noteq> 0x3587C0" "field 31 10 w \<noteq> 0x358FC0" using f by (auto simp: field_numeral)
  then show ?thesis using f
    by (auto simp: a64_exec_def field_numeral field_of_high [of 26 30 w] field_of_high [of 24 31 w] field_of_high [of 25 30 w]
        field_of_high [of 24 28 w] field_of_high [of 24 29 w] field_of_high [of 23 31 w])
qed

lemma a64x_exec_base: "a64_exec w s = Some r \<Longrightarrow> a64x_exec w s = Some r"
proof -
  assume e: "a64_exec w s = Some r"
  then have "field 31 22 w \<notin> {0x3E4, 0x2A4, 0x2B4, 0x2A3, 0x2B3, 0x359}" using a64_exec_disjoint [of w s] by auto
  moreover have "field 31 22 w = field 21 12 (field 31 10 w)" by (rule bit_word_eqI) (auto simp: bit_field)
  then have "field 31 10 w \<noteq> 0x3597C0" using calculation by (auto simp: field_numeral)
  ultimately show ?thesis using e by (simp add: a64x_exec_def)
qed

lemma exec_seq_line: "exec_seq ws s = Some t \<Longrightarrow> framed m F n (mem s) \<Longrightarrow> exec_line m F n ws s = Some t"
proof (induction ws arbitrary: s)
  case (Cons w ws)
  from Cons.prems(1) obtain u where u: "a64_exec w s = Some (u, Fall)" and rest: "exec_seq ws (u\<lparr>pc := pc s + 4\<rparr>) = Some t"
    by (auto split: Option.bind_splits prod.splits if_splits)
  then show ?case using Cons.IH [OF rest] Cons.prems(2) a64x_exec_base [OF u] a64_exec_mem [OF u] by simp
qed simp

text \<open>A straight line with a jump or a call behind it.\<close>

definition clear_of_frame :: "u64 \<Rightarrow> nat \<Rightarrow> u64 \<Rightarrow> nat \<Rightarrow> bool" where
  "clear_of_frame F n a k \<longleftrightarrow> (\<forall>i < 4 * k. \<not> in_frame F n (a + of_nat i))"

lemma exec_line_pc: "exec_line m F n ws s = Some t \<Longrightarrow> pc t = pc s + 4 * of_nat (length ws)"
  by (induction ws arbitrary: s) (fastforce split: Option.bind_splits prod.splits if_splits simp: algebra_simps)+

lemma clear_of_frame_part:
  assumes "clear_of_frame F n a (j + k)"
  shows "clear_of_frame F n a j" "clear_of_frame F n (a + 4 * of_nat j) k"
proof -
  show "clear_of_frame F n a j" using assms by (simp add: clear_of_frame_def)
  have "\<not> in_frame F n (a + 4 * of_nat j + of_nat i)" if "i < 4 * k" for i
    using assms [unfolded clear_of_frame_def, rule_format, of "4 * j + i"] that by (simp add: algebra_simps)
  then show "clear_of_frame F n (a + 4 * of_nat j) k" by (simp add: clear_of_frame_def)
qed

lemma line_then:
  assumes code: "code_at m (pc s) (us @ [w])" and clear: "clear_of_frame F n (pc s) (length us + 1)"
    and s: "framed m F n (mem s)" and run: "exec_line m F n us s = Some t" and last: "a64x_exec w t = Some (t', fl)"
  shows "a64x_run (length us + 1) s = Some (finish fl (pc t + 4) t')"
proof -
  have c: "code_at m (pc s) us" "code_at m (pc s + 4 * of_nat (length us)) [w]" using code by (simp_all add: code_at_append)
  have r: "a64x_run (length us) s = Some t" "framed m F n (mem t)"
    using exec_line_run [OF run s c(1)] clear_of_frame_part(1) [OF clear] by (simp_all add: clear_of_frame_def)
  have "code_at (mem t) (pc t) [w]"
    using r(2) c(2) code_at_frame [of "[w]" F n "pc t" m] clear_of_frame_part(2) [OF clear] exec_line_pc [OF run]
    by (auto simp: framed_def clear_of_frame_def)
  then have "a64x_step t = Some (finish fl (pc t + 4) t')" using last by (simp add: a64x_step_def fetch_def)
  then show ?thesis using r(1) a64x_run_add [of "length us" 1 s] by simp
qed

lemma sfield_numeral: "sfield hi lo (numeral k) = word_of_int (signed_take_bit (hi - lo) (uint (drop_bit lo (numeral k :: u32))))"
  by (simp add: sfield_def)

lemma q_halves: "(ucast (ucast v :: u64) OR push_bit 64 (ucast (ucast (drop_bit 64 v) :: u64)) :: 128 word) = v"
  by (rule bit_word_eqI) (auto simp: bit_simps)

lemmas line_simps = a64x_exec_def a64_exec_def exec_str_def exec_stp_def exec_stp_q_def exec_ldp_post_def exec_ldp_q_post_def
  exec_add_imm_def exec_ldr_imm_def field_numeral sfield_numeral reg_def rxsp_def rx_def wxsp_def wx_def store_q_def load_q_def
  frame_stores frame_loads load_def

end
