(* ===== verification/A64_Bridge.thy ===== *)
theory A64_Bridge
  imports A64_Closure A64_Stack
begin

unbundle bit_operations_syntax

text \<open>
  The words of the closure trampoline and of the bridge, and what they do: the bridge saves the
  registers as the context that the handler gets, and restores them from it.
\<close>

section \<open>Words\<close>

definition save_words :: "u32 list" where
  "save_words =
     [3506570239, 2902663142, 2902595556, 2902527970, 2902460384, 3506684927,
      2836298749, 2836231163, 2836163577, 2836095991, 2836028405, 2835960819,
      2835893233, 2835825647, 2835758061, 2835690475, 2835622889, 2835555303,
      2835487717, 2835420131, 2835352545, 3506455551, 4177528800, 2432713713,
      2433090097, 3506455551, 4177528817, 2432697312, 4181773281]"

definition restore_words :: "u32 list" where
  "restore_words =
     [2432713727, 4181723104,
      2432713727, 2831223777, 2831225827, 2831227877, 2831229927, 2831231977,
      2831234027, 2831236077, 2831238127, 2831240177, 2831242227, 2831244277,
      2831246327, 2831248377, 2831250427, 2831252477, 2898331616, 2898333666,
      2898335716, 2898337766, 3596551104]"

definition bridge_words :: "u64 \<Rightarrow> u32 list" where
  "bridge_words handler = save_words @ mov_words 17 handler @ [blr17_word] @ restore_words"

definition emits :: "(Assembler \<Rightarrow> Assembler option) \<Rightarrow> u32 \<Rightarrow> bool" where
  "emits f w \<longleftrightarrow> (\<forall>a. f a = Some (Emit w a))"

lemma emits_all: "list_all2 emits fs ws \<Longrightarrow> emit_all fs a = Some (foldl (\<lambda>a w. Emit w a) a ws)"
  by (induction fs ws arbitrary: a rule: list_all2_induct) (simp_all add: emits_def)

definition pair_word :: "u32 \<Rightarrow> CPURegister \<Rightarrow> CPURegister \<Rightarrow> MemOperand \<Rightarrow> u32" where
  "pair_word op r r2 d =
     op OR (if IsImmediateOffset d then LoadStorePairOffsetFixed
            else if IsPreIndex d then LoadStorePairPreIndexFixed else LoadStorePairPostIndexFixed) OR
     (OpEncode_LoadStorePair op r r2 d OR Rt2 r2 OR Rn (mbase d) OR Rt r)"

definition single_word :: "u32 \<Rightarrow> CPURegister \<Rightarrow> MemOperand \<Rightarrow> u32" where
  "single_word op r d =
     LoadStoreUnsignedOffsetFixed OR op OR
     ucast (LeftShift (signed_drop_bit (OpEncode_scale (LoadStoreUnsignedOffsetFixed OR op)) (offset_m d)) 12 10) OR
     Rn (mbase d) OR Rt r"

definition addsub_word :: "u32 \<Rightarrow> CPURegister \<Rightarrow> CPURegister \<Rightarrow> u64 \<Rightarrow> u32" where
  "addsub_word op rd rn imm = op OR Rd rd OR Rn rn OR ucast (LeftShift imm 12 10)"

lemma emits_pair:
  "stp (X i) r d a = Some (Emit (pair_word STP_x (X i) r d) a)" "stp (Q i) r d a = Some (Emit (pair_word STP_q (Q i) r d) a)"
  "ldp (X i) r d a = Some (Emit (pair_word LDP_x (X i) r d) a)" "ldp (Q i) r d a = Some (Emit (pair_word LDP_q (Q i) r d) a)"
  by (simp_all add: stp_def ldp_def LoadStorePair_def pair_word_def Let_def X_def Q_def)

lemma emits_single:
  "str r (MEM b k) a = Some (Emit (single_word STR_x r (MEM b k)) a)"
  "ldr r (MEM b k) a = Some (Emit (single_word LDR_x r (MEM b k)) a)"
  by (simp_all add: str_def ldr_def LoadStore_def single_word_def Let_def MEM_def IsImmediateOffset_def MemOperand_imm_def)

lemma emits_addsub:
  "Is64Bits rd \<Longrightarrow> Is64Bits rn \<Longrightarrow> add rd rn imm a = Some (Emit (addsub_word ADD_x_imm rd rn imm) a)"
  "Is64Bits rd \<Longrightarrow> Is64Bits rn \<Longrightarrow> sub rd rn imm a = Some (Emit (addsub_word SUB_x_imm rd rn imm) a)"
  by (simp_all add: add_def sub_def AddSubImmediate_def addsub_word_def Let_def IsImmediate_def Operand_imm_def Is_def)

lemma save_words_eq:
  "[addsub_word SUB_x_imm SP SP (8 * 16),
      pair_word STP_q (Q 6) (Q 7) (MEM SP (6 * 16)),
      pair_word STP_q (Q 4) (Q 5) (MEM SP (4 * 16)),
      pair_word STP_q (Q 2) (Q 3) (MEM SP (2 * 16)),
      pair_word STP_q (Q 0) (Q 1) (MEM SP (0 * 16)),
      addsub_word SUB_x_imm SP SP (30 * 8),
      pair_word STP_x (X 29) (X 30) (MEM SP (28 * 8)),
      pair_word STP_x (X 27) (X 28) (MEM SP (26 * 8)),
      pair_word STP_x (X 25) (X 26) (MEM SP (24 * 8)),
      pair_word STP_x (X 23) (X 24) (MEM SP (22 * 8)),
      pair_word STP_x (X 21) (X 22) (MEM SP (20 * 8)),
      pair_word STP_x (X 19) (X 20) (MEM SP (18 * 8)),
      pair_word STP_x (X 17) (X 18) (MEM SP (16 * 8)),
      pair_word STP_x (X 15) (X 16) (MEM SP (14 * 8)),
      pair_word STP_x (X 13) (X 14) (MEM SP (12 * 8)),
      pair_word STP_x (X 11) (X 12) (MEM SP (10 * 8)),
      pair_word STP_x (X 9) (X 10) (MEM SP (8 * 8)),
      pair_word STP_x (X 7) (X 8) (MEM SP (6 * 8)),
      pair_word STP_x (X 5) (X 6) (MEM SP (4 * 8)),
      pair_word STP_x (X 3) (X 4) (MEM SP (2 * 8)),
      pair_word STP_x (X 1) (X 2) (MEM SP (0 * 8)),
      addsub_word SUB_x_imm SP SP (2 * 8),
      single_word STR_x (X 0) (MEM SP 8),
      addsub_word ADD_x_imm TMP_REG_0 SP (2 * 8),
      addsub_word ADD_x_imm TMP_REG_0 TMP_REG_0 (2 * 8 + 30 * 8 + 8 * 16),
      addsub_word SUB_x_imm SP SP (2 * 8),
      single_word STR_x TMP_REG_0 (MEM SP 8),
      addsub_word ADD_x_imm (X 0) SP (0),
      single_word LDR_x (X 1) (MEM SP 400)] = save_words"
  unfolding save_words_def by code_simp

lemma restore_words_eq:
  "[addsub_word ADD_x_imm SP SP (2 * 8),
      single_word LDR_x (X 0) (MEM SP 8),
      addsub_word ADD_x_imm SP SP (2 * 8),
      pair_word LDP_x (X 1) (X 2) (MEM_EXT SP 16 PostIndex),
      pair_word LDP_x (X 3) (X 4) (MEM_EXT SP 16 PostIndex),
      pair_word LDP_x (X 5) (X 6) (MEM_EXT SP 16 PostIndex),
      pair_word LDP_x (X 7) (X 8) (MEM_EXT SP 16 PostIndex),
      pair_word LDP_x (X 9) (X 10) (MEM_EXT SP 16 PostIndex),
      pair_word LDP_x (X 11) (X 12) (MEM_EXT SP 16 PostIndex),
      pair_word LDP_x (X 13) (X 14) (MEM_EXT SP 16 PostIndex),
      pair_word LDP_x (X 15) (X 16) (MEM_EXT SP 16 PostIndex),
      pair_word LDP_x (X 17) (X 18) (MEM_EXT SP 16 PostIndex),
      pair_word LDP_x (X 19) (X 20) (MEM_EXT SP 16 PostIndex),
      pair_word LDP_x (X 21) (X 22) (MEM_EXT SP 16 PostIndex),
      pair_word LDP_x (X 23) (X 24) (MEM_EXT SP 16 PostIndex),
      pair_word LDP_x (X 25) (X 26) (MEM_EXT SP 16 PostIndex),
      pair_word LDP_x (X 27) (X 28) (MEM_EXT SP 16 PostIndex),
      pair_word LDP_x (X 29) (X 30) (MEM_EXT SP 16 PostIndex),
      pair_word LDP_q (Q 0) (Q 1) (MEM_EXT SP 32 PostIndex),
      pair_word LDP_q (Q 2) (Q 3) (MEM_EXT SP 32 PostIndex),
      pair_word LDP_q (Q 4) (Q 5) (MEM_EXT SP 32 PostIndex),
      pair_word LDP_q (Q 6) (Q 7) (MEM_EXT SP 32 PostIndex),
      0xD65F03C0] = restore_words"
  unfolding restore_words_def by code_simp

lemma is64: "Is64Bits SP" "Is64Bits TMP_REG_0" "Is64Bits (X i)"
  by (simp_all add: Is64Bits_def SP_def TMP_REG_0_def X_def)

lemma emit_all_append: "emit_all (fs @ gs) a = Option.bind (emit_all fs a) (emit_all gs)"
  by (induction fs arbitrary: a) (auto split: Option.bind_splits)

lemma mov_sp: "mov (X 0) SP a = add (X 0) SP 0 a"
  by (simp add: mov_def Is_def)

lemma emit_save:
  "emit_all (bridge_save_high_q False @ bridge_save_low_q @ bridge_save_x @ butlast (bridge_call False handler)) a =
     Some (foldl (\<lambda>a w. Emit w a) a save_words)"
  unfolding save_words_eq [symmetric]
  by (simp add: bridge_save_high_q_def bridge_save_low_q_def bridge_save_x_def bridge_call_def
      emits_pair emits_single emits_addsub is64 mov_sp REGISTER_CONTEXT_SIZE_def sizeof_DobbyRegisterContext_def)

lemma emit_restore:
  "emit_all (bridge_restore_x @ bridge_restore_q False @ [Some \<circ> ret]) a =
     Some (foldl (\<lambda>a w. Emit w a) a restore_words)"
  unfolding restore_words_eq [symmetric]
  by (simp add: bridge_restore_x_def bridge_restore_q_def ret_def emits_pair emits_single emits_addsub is64)

section \<open>The code\<close>

lemma foldl_Emit:
  "buffer (foldl (\<lambda>a w. Emit w a) a ws) = buffer a @ enc ws"
  "data_labels (foldl (\<lambda>a w. Emit w a) a ws) = data_labels a"
  "realized_addr (foldl (\<lambda>a w. Emit w a) a ws) = realized_addr a"
  by (induction ws arbitrary: a) (simp_all add: Emit_def Emit32_def EmitBuffer_def)

lemma save_rel: "asm_rel (foldl (\<lambda>a w. Emit w a) (new_Assembler 0) ws) ws []"
  by (simp add: asm_rel_def foldl_Emit new_Assembler_def)

lemma Call_rel: "asm_rel a ws ls \<Longrightarrow> asm_rel (CallFunction handler a) (ws @ mov_words 17 handler @ [blr17_word]) ls"
proof -
  assume "asm_rel a ws ls"
  from Emit_words [OF Mov_words(1) [OF this, of 17 handler], of blr17_word] show ?thesis
    by (simp add: CallFunction_def br17(2)) (simp add: TMP_REG_0_def)
qed

lemma realized_Call: "realized_addr (CallFunction handler a) = realized_addr a"
  by (simp add: CallFunction_def br17 Emit_def Emit32_def EmitBuffer_def)

lemma bridge_code:
  "\<exists>b. closure_bridge_code False handler = Some b \<and> buffer b = enc (bridge_words handler) \<and> realized_addr b = 0"
proof -
  obtain P R where P: "P = bridge_save_high_q False @ bridge_save_low_q @ bridge_save_x @ butlast (bridge_call False handler)"
    and R: "R = bridge_restore_x @ bridge_restore_q False @ [Some \<circ> ret]" by blast
  have call: "bridge_call False handler = butlast (bridge_call False handler) @ [Some \<circ> CallFunction handler]"
    by (simp add: bridge_call_def)
  have "closure_bridge_code False handler = emit_all (P @ (Some \<circ> CallFunction handler) # R) (new_Assembler 0)"
    unfolding closure_bridge_code_def P R by (subst call) (simp only: append_assoc append_Cons append_Nil)
  also have "\<dots> = Option.bind (emit_all P (new_Assembler 0)) (\<lambda>a. emit_all R (CallFunction handler a))"
    by (cases "emit_all P (new_Assembler 0)") (simp_all add: emit_all_append)
  also have "\<dots> = Some (foldl (\<lambda>a w. Emit w a) (CallFunction handler (foldl (\<lambda>a w. Emit w a) (new_Assembler 0) save_words)) restore_words)"
    unfolding P R emit_save emit_restore bind.simps ..
  finally show ?thesis using Call_rel [OF save_rel [of save_words], of handler]
    by (simp add: foldl_Emit bridge_words_def asm_rel_def realized_Call new_Assembler_def)
qed

definition tramp_words :: "u64 \<Rightarrow> u64 \<Rightarrow> u32 list" where
  "tramp_words entry bridge =
     [3506455551, 4177528830, 0x580000F1, 4177527793, 0x580000F1, blr17_word, 4181723134, 2432713727, br17_word,
      lo32 entry, hi32 entry, lo32 bridge, hi32 bridge]"

lemma Ldr_new: "Ldr TMP_REG_0 new_PseudoLabel a = Some (link_to kLabelImm19 0 (length (buffer a)) new_PseudoLabel, Emit 0x58000011 a)"
proof -
  have "LDR_x_literal OR ucast (LeftShift (0 :: u64) 26 5) OR Rt TMP_REG_0 = 0x58000011" by code_simp
  moreover have "reg_type TMP_REG_0 = kRegister_64" by (simp add: TMP_REG_0_def X_def)
  ultimately show ?thesis
    by (simp add: Ldr_def new_PseudoLabel_def ldr_literal_def EmitLoadRegLiteral_def GetBufferSize_def)
qed

lemma PseudoBind_new:
  assumes "buffer a = enc ws" "k < length ws"
  shows "PseudoBind (link_to kLabelImm19 0 (4 * k) new_PseudoLabel) a =
    Some (bind_to (4 * length ws) (link_to kLabelImm19 0 (4 * k) new_PseudoLabel),
      a\<lparr>buffer := enc (ws[k := encode_imm19_offset (ws ! k) (of_nat (4 * length ws) - of_nat (4 * k))])\<rparr>)"
  using assms
  by (simp add: PseudoBind_def link_to_def bind_to_def new_PseudoLabel_def has_confused_instructions_def
      link_confused_instructions_def LoadInst_enc RewriteInst_enc GetBufferSize_def Let_def)

lemma tramp_words_eq:
  "[addsub_word SUB_x_imm SP SP (2 * 8), single_word STR_x (X 30) (MEM SP 8), 0x58000011,
    single_word STR_x TMP_REG_0 (MEM SP 0), 0x58000011, blr17_word, single_word LDR_x (X 30) (MEM SP 8),
    addsub_word ADD_x_imm SP SP (2 * 8), br17_word] =
   [3506455551, 4177528830, 0x58000011, 4177527793, 0x58000011, blr17_word, 4181723134, 2432713727, br17_word]"
  by code_simp

lemma tramp_links: "encode_imm19_offset 0x58000011 28 = 0x580000F1"
  by code_simp

lemma tramp_code:
  "\<exists>a. closure_trampoline_code entry = Some a \<and> buffer (EmitInt64 bridge a) = enc (tramp_words entry bridge) \<and>
     realized_addr (EmitInt64 bridge a) = 0"
proof -
  let ?W = "[3506455551, 4177528830, 0x58000011, 4177527793, 0x58000011, blr17_word, 4181723134, 2432713727, br17_word]"
  let ?l1 = "link_to kLabelImm19 0 8 new_PseudoLabel" and ?l2 = "link_to kLabelImm19 0 16 new_PseudoLabel"
  obtain a where a: "buffer a = enc ?W" and r: "realized_addr a = 0" and c: "closure_trampoline_code entry =
     Option.bind (PseudoBind ?l1 a) (\<lambda>(_, a). Option.bind (PseudoBind ?l2 (EmitInt64 entry a)) (\<lambda>(_, a). Some a))"
  proof
    let ?a = "foldl (\<lambda>a w. Emit w a) (new_Assembler 0) ?W"
    show "buffer ?a = enc ?W" by (simp only: foldl_Emit) (simp add: new_Assembler_def)
    show "realized_addr ?a = 0" by (simp only: foldl_Emit) (simp add: new_Assembler_def)
    show "closure_trampoline_code entry =
       Option.bind (PseudoBind ?l1 ?a) (\<lambda>(_, a). Option.bind (PseudoBind ?l2 (EmitInt64 entry a)) (\<lambda>(_, a). Some a))"
      unfolding tramp_words_eq [symmetric]
      by (simp add: closure_trampoline_code_def emits_single emits_addsub is64 Ldr_new br17 Emit_def Emit32_def EmitBuffer_def new_Assembler_def)
  qed
  have b1: "PseudoBind ?l1 a = Some (bind_to 36 ?l1, a\<lparr>buffer := enc (?W[2 := 0x580000F1])\<rparr>)"
    using PseudoBind_new [OF a, of 2] by (simp add: tramp_links del: enc_simps)
  let ?a = "EmitInt64 entry (a\<lparr>buffer := enc (?W[2 := 0x580000F1])\<rparr>)"
  have "buffer ?a = enc (?W[2 := 0x580000F1] @ [lo32 entry, hi32 entry])"
    by (simp add: EmitInt64_def Emit64_def EmitBuffer_def bytes_of_8)
  from PseudoBind_new [OF this, of 4] have b2: "PseudoBind ?l2 ?a = Some (bind_to 44 ?l2,
      ?a\<lparr>buffer := enc ((?W[2 := 0x580000F1] @ [lo32 entry, hi32 entry])[4 := 0x580000F1])\<rparr>)"
    by (simp add: tramp_links del: enc_simps enc_append)
  have "closure_trampoline_code entry =
      Some (?a\<lparr>buffer := enc ((?W[2 := 0x580000F1] @ [lo32 entry, hi32 entry])[4 := 0x580000F1])\<rparr>)"
    unfolding c b1 by (simp only: bind.simps prod.case b2)
  then show ?thesis
    using r by (simp add: EmitInt64_def Emit64_def EmitBuffer_def bytes_of_8 tramp_words_def)
qed

end
