(* ===== verification/A64_Handled.thy ===== *)
theory A64_Handled
  imports A64_Bridge
begin

unbundle bit_operations_syntax

text \<open>
  The machine runs an instrumented instruction: the trampoline and the bridge save the registers, the
  handler gets them, and the registers come back from where the handler left them.
\<close>

section \<open>Saving\<close>

text \<open>What the bridge stores: words 3 to 33 for the general registers, two each for the vector registers.\<close>

definition saved :: "u64 \<Rightarrow> a64 \<Rightarrow> (nat \<Rightarrow> u64) \<Rightarrow> (nat \<Rightarrow> u64)" where
  "saved sp s f =
     f(46 := ucast (qr s 6), 47 := ucast (drop_bit 64 (qr s 6)), 48 := ucast (qr s 7),
       49 := ucast (drop_bit 64 (qr s 7)), 42 := ucast (qr s 4), 43 := ucast (drop_bit 64 (qr s 4)),
       44 := ucast (qr s 5), 45 := ucast (drop_bit 64 (qr s 5)), 38 := ucast (qr s 2),
       39 := ucast (drop_bit 64 (qr s 2)), 40 := ucast (qr s 3), 41 := ucast (drop_bit 64 (qr s 3)),
       34 := ucast (qr s 0), 35 := ucast (drop_bit 64 (qr s 0)), 36 := ucast (qr s 1),
       37 := ucast (drop_bit 64 (qr s 1)), 32 := xr s 29, 33 := xr s 30, 30 := xr s 27, 31 := xr s 28,
       28 := xr s 25, 29 := xr s 26, 26 := xr s 23, 27 := xr s 24, 24 := xr s 21, 25 := xr s 22,
       22 := xr s 19, 23 := xr s 20, 20 := xr s 17, 21 := xr s 18, 18 := xr s 15, 19 := xr s 16,
       16 := xr s 13, 17 := xr s 14, 14 := xr s 11, 15 := xr s 12, 12 := xr s 9, 13 := xr s 10,
       10 := xr s 7, 11 := xr s 8, 8 := xr s 5, 9 := xr s 6, 6 := xr s 3, 7 := xr s 4, 4 := xr s 1,
       5 := xr s 2, 3 := xr s 0, 1 := sp)"

lemma save_line:
  assumes "spr s = F + 400" "mem s = put_frame m F 52 f"
  shows "exec_line m F 52 save_words s = Some (s\<lparr>spr := F, mem := put_frame m F 52 (saved (416 + F) s f),
    xr := (xr s)(17 := 416 + F, 0 := F, 1 := f 50), pc := 116 + pc s\<rparr>)"
  using assms by (simp add: save_words_def line_simps Let_def saved_def)

section \<open>Restoring\<close>

definition restored :: "(nat \<Rightarrow> u64) \<Rightarrow> a64 \<Rightarrow> a64" where
  "restored f s =
     s\<lparr>xr := (xr s)(0 := f 3, 1 := f 4, 2 := f 5, 3 := f 6, 4 := f 7, 5 := f 8, 6 := f 9, 7 := f 10,
         8 := f 11, 9 := f 12, 10 := f 13, 11 := f 14, 12 := f 15, 13 := f 16, 14 := f 17, 15 := f 18,
         16 := f 19, 17 := f 20, 18 := f 21, 19 := f 22, 20 := f 23, 21 := f 24, 22 := f 25, 23 := f 26,
         24 := f 27, 25 := f 28, 26 := f 29, 27 := f 30, 28 := f 31, 29 := f 32, 30 := f 33),
       qr := (qr s)(0 := ucast (f 34) OR push_bit 64 (ucast (f 35)),
         1 := ucast (f 36) OR push_bit 64 (ucast (f 37)), 2 := ucast (f 38) OR push_bit 64 (ucast (f 39)),
         3 := ucast (f 40) OR push_bit 64 (ucast (f 41)), 4 := ucast (f 42) OR push_bit 64 (ucast (f 43)),
         5 := ucast (f 44) OR push_bit 64 (ucast (f 45)), 6 := ucast (f 46) OR push_bit 64 (ucast (f 47)),
         7 := ucast (f 48) OR push_bit 64 (ucast (f 49)))\<rparr>"

lemma restore_line:
  assumes "spr s = F" "mem s = put_frame m F 52 f"
  shows "exec_line m F 52 (butlast restore_words) s = Some (restored f s\<lparr>spr := 400 + F, pc := 88 + pc s\<rparr>)"
  using assms by (simp add: restore_words_def line_simps Let_def restored_def)

text \<open>The words by the number of the register.\<close>

lemma below_numeral: "(\<forall>n<numeral k. P n) \<longleftrightarrow> P (pred_numeral k) \<and> (\<forall>n<pred_numeral k. P n)"
  by (simp only: numeral_eq_Suc All_less_Suc)

lemma saved_x: "n < 31 \<Longrightarrow> saved sp s f (3 + n) = xr s n"
proof -
  have "\<forall>n<31. saved sp s f (3 + n) = xr s n" by (simp add: below_numeral saved_def)
  then show "n < 31 \<Longrightarrow> saved sp s f (3 + n) = xr s n" by blast
qed

lemma saved_q:
  assumes "n < 8"
  shows "saved sp s f (34 + 2 * n) = ucast (qr s n)" "saved sp s f (35 + 2 * n) = ucast (drop_bit 64 (qr s n))"
proof -
  have "\<forall>n<8. saved sp s f (34 + 2 * n) = ucast (qr s n)" by (simp add: below_numeral saved_def)
  moreover have "\<forall>n<8. saved sp s f (35 + 2 * n) = ucast (drop_bit 64 (qr s n))" by (simp add: below_numeral saved_def)
  ultimately show "saved sp s f (34 + 2 * n) = ucast (qr s n)" "saved sp s f (35 + 2 * n) = ucast (drop_bit 64 (qr s n))"
    using assms by blast+
qed

lemma saved_other: "saved sp s f 1 = sp" "50 \<le> n \<Longrightarrow> saved sp s f n = f n"
  by (simp_all add: saved_def)

lemma restored_x:
  assumes "n < 31"
  shows "xr (restored f s) n = f (3 + n)"
proof -
  have "\<forall>n<31. xr (restored f s) n = f (3 + n)" by (simp add: below_numeral restored_def)
  then show ?thesis using assms by blast
qed

lemma restored_q:
  assumes "n < 8"
  shows "qr (restored f s) n = ucast (f (34 + 2 * n)) OR push_bit 64 (ucast (f (35 + 2 * n)))"
proof -
  have "\<forall>n<8. qr (restored f s) n = ucast (f (34 + 2 * n)) OR push_bit 64 (ucast (f (35 + 2 * n)))"
    by (simp add: below_numeral restored_def)
  then show ?thesis using assms by blast
qed

lemma restored_other [simp]: "mem (restored f s) = mem s" "spr (restored f s) = spr s" "pc (restored f s) = pc s"
  by (simp_all add: restored_def)

section \<open>The four runs\<close>

lemma clear_bytes:
  assumes "clear_of_frame F n a k" "4 * j + 8 \<le> 4 * k"
  shows "(get_le (put_frame m F n f) 8 (a + of_nat (4 * j)) :: u64) = get_le m 8 (a + of_nat (4 * j))"
proof (rule get_le_cong, intro allI impI)
  fix i :: nat
  assume "i < 8"
  then have "\<not> in_frame F n (a + of_nat (4 * j + i))" using assms by (simp add: clear_of_frame_def del: of_nat_add)
  then show "put_frame m F n f (a + of_nat (4 * j) + of_nat i) = m (a + of_nat (4 * j) + of_nat i)"
    by (intro put_frame_outside) (simp add: add.assoc)
qed

lemma tramp_literals:
  assumes "code_at m T (tramp_words entry bridge)" "clear_of_frame F 52 T 13"
  shows "get_le (put_frame m F 52 f) 8 (36 + T) = entry" "get_le (put_frame m F 52 f) 8 (44 + T) = bridge"
proof -
  have "get_le m 8 (T + of_nat (4 * 9)) = entry" "get_le m 8 (T + of_nat (4 * 11)) = bridge"
    by (rule get_le_8; use assms(1) in \<open>simp add: tramp_words_def add.assoc\<close>)+
  then show "get_le (put_frame m F 52 f) 8 (36 + T) = entry" "get_le (put_frame m F 52 f) 8 (44 + T) = bridge"
    using clear_bytes [OF assms(2), of 9 m f] clear_bytes [OF assms(2), of 11 m f] by (simp_all add: add.commute)
qed

lemma tramp_enter:
  assumes code: "code_at m T (tramp_words entry bridge)" "clear_of_frame F 52 T 13"
    and s: "mem s = put_frame m F 52 f" "spr s = F + 416" "pc s = T"
  shows "a64x_run 6 s = Some (s\<lparr>spr := 400 + F, mem := put_frame m F 52 (f(51 := xr s 30, 50 := entry)),
    xr := (xr s)(17 := bridge, 30 := T + 24), pc := bridge\<rparr>)"
proof -
  let ?us = "[3506455551, 4177528830, 0x580000F1, 4177527793, 0x580000F1] :: u32 list"
  have n: "length ?us + 1 = 6" by simp
  have c: "code_at m (pc s) (?us @ [blr17_word])" "clear_of_frame F 52 (pc s) (length ?us + 1)"
    unfolding n using code(1) clear_of_frame_part(1) [of F 52 T 6 7] code(2) s(3) by (simp_all add: tramp_words_def)
  have run: "exec_line m F 52 ?us s = Some (s\<lparr>spr := 400 + F, mem := put_frame m F 52 (f(51 := xr s 30, 50 := entry)),
      xr := (xr s)(17 := bridge), pc := 20 + T\<rparr>)"
    using s tramp_literals [OF code] by (simp add: line_simps exec_ldr_literal_def Let_def)
  have "a64x_run (length ?us + 1) s = Some (finish (Call bridge) (20 + T + 4) (s\<lparr>spr := 400 + F,
      mem := put_frame m F 52 (f(51 := xr s 30, 50 := entry)), xr := (xr s)(17 := bridge), pc := 20 + T\<rparr>))"
    using line_then [OF c _ run a64x_exec_base [OF exec_br17(2)]] s(1) by simp
  then show ?thesis unfolding n by (simp add: add.commute fun_upd_twist)
qed

lemma bridge_enter:
  assumes code: "code_at m A (bridge_words handler)" "clear_of_frame F 52 A 57"
    and s: "mem s = put_frame m F 52 f" "spr s = F + 400" "pc s = A"
  shows "a64x_run 34 s = Some (s\<lparr>spr := F, mem := put_frame m F 52 (saved (416 + F) s f),
    xr := (xr s)(17 := handler, 0 := F, 1 := f 50, 30 := A + 136), pc := handler\<rparr>)"
proof -
  let ?us = "save_words @ mov_words 17 handler"
  have n: "length ?us + 1 = 34" by (simp add: save_words_def mov_words_def)
  have w: "bridge_words handler = (?us @ [blr17_word]) @ restore_words" by (simp add: bridge_words_def)
  have c: "code_at m (pc s) (?us @ [blr17_word])" "clear_of_frame F 52 (pc s) (length ?us + 1)"
    using code(1) clear_of_frame_part(1) [of F 52 A 34 23] code(2) s(3)
    unfolding n w code_at_append [of _ _ "?us @ [blr17_word]"] by simp_all
  let ?s = "s\<lparr>spr := F, mem := put_frame m F 52 (saved (416 + F) s f),
    xr := (xr s)(17 := 416 + F, 0 := F, 1 := f 50), pc := 116 + pc s\<rparr>"
  have "exec_line m F 52 (mov_words 17 handler) ?s = Some ((wx (unat (17 :: u32)) handler ?s)\<lparr>pc := pc ?s + 16\<rparr>)"
    by (rule exec_seq_line [OF exec_mov_words]) simp_all
  then have run: "exec_line m F 52 ?us s = Some ((wx 17 handler ?s)\<lparr>pc := 132 + A\<rparr>)"
    using save_line [OF s(2,1)] s(3) by (simp add: exec_line_append)
  have "a64x_run (length ?us + 1) s = Some (finish (Call handler) (132 + A + 4) ((wx 17 handler ?s)\<lparr>pc := 132 + A\<rparr>))"
    using line_then [OF c _ run a64x_exec_base [OF exec_br17(2)]] s(1) by (simp add: wx_def)
  then show ?thesis unfolding n by (simp add: wx_def add.commute fun_upd_twist)
qed

lemma bridge_leave:
  assumes code: "code_at m A (bridge_words handler)" "clear_of_frame F 52 A 57"
    and u: "mem u = put_frame m F 52 f" "spr u = F" "pc u = A + 136"
  shows "a64x_run 23 u = Some (restored f u\<lparr>spr := 400 + F, pc := f 33\<rparr>)"
proof -
  have w: "butlast restore_words @ [0xD65F03C0] = restore_words" "length (butlast restore_words) = 22"
    by (simp_all add: restore_words_def)
  have n': "length (butlast restore_words) + 1 = 23" by (simp only: w(2))
  have v: "bridge_words handler = (save_words @ mov_words 17 handler @ [blr17_word]) @ restore_words" by (simp add: bridge_words_def)
  have n: "length (save_words @ mov_words 17 handler @ [blr17_word]) = 34" by (simp add: save_words_def mov_words_def)
  have c: "code_at m (pc u) (butlast restore_words @ [0xD65F03C0])" "clear_of_frame F 52 (pc u) (length (butlast restore_words) + 1)"
    using code(1) clear_of_frame_part(2) [of F 52 A 34 23] code(2) u(3) unfolding w v code_at_append n
    by (simp_all add: add.commute)
  have r: "a64x_exec 0xD65F03C0 t = Some (t, Jump (xr t 30))" for t
    by (simp add: a64x_exec_def field_numeral reg_def rx_def)
  show ?thesis
    using line_then [OF c _ restore_line [OF u(2,1)] r, unfolded n'] u(1) restored_x [of 30 f u] by simp
qed

lemma tramp_leave:
  assumes code: "code_at m T (tramp_words entry bridge)" "clear_of_frame F 52 T 13"
    and u: "mem u = put_frame m F 52 f" "spr u = 400 + F" "pc u = T + 24"
  shows "a64x_run 3 u = Some (u\<lparr>xr := (xr u)(30 := f 51), spr := 416 + F, pc := xr u 17\<rparr>)"
proof -
  let ?us = "[4181723134, 2432713727] :: u32 list"
  have n: "length ?us + 1 = 3" by simp
  have c: "code_at m (pc u) (?us @ [br17_word])" "clear_of_frame F 52 (pc u) (length ?us + 1)"
    unfolding n using code(1) clear_of_frame_part(2) [of F 52 T 6 7] clear_of_frame_part(1) [of F 52 "T + 24" 3 4] code(2) u(3)
    by (simp_all add: tramp_words_def add.assoc)
  have run: "exec_line m F 52 ?us u = Some (u\<lparr>xr := (xr u)(30 := f 51), spr := 416 + F, pc := T + 32\<rparr>)"
    using u by (simp add: line_simps Let_def)
  show ?thesis
    using line_then [OF c _ run a64x_exec_base [OF exec_br17(1)], unfolded n] u(1) by simp
qed

section \<open>An instrumented instruction\<close>

lemma frame_of_put: "i < 52 \<Longrightarrow> frame_of (put_frame m F 52 f) F i = f i"
  unfolding frame_of_def
  by (rule load_frame [of _ F i]) (simp_all add: unat_of_nat take_bit_nat_eq_self del: of_nat_mult)

text \<open>The context that the handler gets, as what it says of a state of the machine.\<close>

definition context_of :: "(addr \<Rightarrow> u8) \<Rightarrow> u64 \<Rightarrow> a64 \<Rightarrow> bool" where
  "context_of m F s \<longleftrightarrow> frame_of m F 1 = spr s \<and> (\<forall>n<31. frame_of m F (3 + n) = xr s n) \<and>
     (\<forall>n<8. frame_of m F (34 + 2 * n) = ucast (qr s n) \<and> frame_of m F (35 + 2 * n) = ucast (drop_bit 64 (qr s n)))"

definition loads_context :: "(addr \<Rightarrow> u8) \<Rightarrow> u64 \<Rightarrow> a64 \<Rightarrow> bool" where
  "loads_context m F s \<longleftrightarrow> (\<forall>n<30. xr s n = frame_of m F (3 + n)) \<and>
     (\<forall>n<8. qr s n = ucast (frame_of m F (34 + 2 * n)) OR push_bit 64 (ucast (frame_of m F (35 + 2 * n))))"

lemma handler_entered:
  assumes "code_at m T (tramp_words entry bridge)" "code_at m bridge (bridge_words handler)"
    and "clear_of_frame F 52 T 13" "clear_of_frame F 52 bridge 57"
    and "mem s = m" "spr s = F + 416" "pc s = T"
  shows "\<exists>t. a64x_run 40 s = Some t \<and> pc t = handler \<and> spr t = F \<and> xr t 0 = F \<and> xr t 1 = entry \<and> xr t 30 = bridge + 136 \<and>
    context_of (mem t) F (s\<lparr>xr := (xr s)(17 := bridge, 30 := T + 24)\<rparr>) \<and> frame_of (mem t) F 51 = xr s 30 \<and>
    (\<forall>a. \<not> in_frame F 52 a \<longrightarrow> mem t a = m a)"
proof -
  let ?f = "(frame_of m F)(51 := xr s 30, 50 := entry)"
  let ?s = "s\<lparr>spr := 400 + F, mem := put_frame m F 52 ?f, xr := (xr s)(17 := bridge, 30 := T + 24), pc := bridge\<rparr>"
  have m: "mem s = put_frame m F 52 (frame_of m F)" by (simp add: assms(5) put_frame_of)
  let ?g = "saved (416 + F) ?s ?f"
  let ?t = "?s\<lparr>spr := F, mem := put_frame m F 52 ?g, xr := (xr ?s)(17 := handler, 0 := F, 1 := ?f 50, 30 := bridge + 136), pc := handler\<rparr>"
  have "a64x_run 34 ?s = Some ?t"
    by (rule bridge_enter [OF assms(2,4), where f = ?f]) (simp_all add: add.commute)
  then have run: "a64x_run 40 s = Some ?t"
    using tramp_enter [OF assms(1,3) m assms(6,7)] a64x_run_add [of 6 34 s] by (simp only: numeral_plus_numeral bind.simps) simp
  have "context_of (mem ?t) F (s\<lparr>xr := (xr s)(17 := bridge, 30 := T + 24)\<rparr>)"
    unfolding context_of_def
    by (simp add: frame_of_put saved_x saved_q saved_other assms(6) add.commute [of _ F] del: fun_upd_apply One_nat_def)
  moreover have "frame_of (mem ?t) F 51 = xr s 30" by (simp add: frame_of_put saved_other)
  moreover have "mem ?t a = m a" if "\<not> in_frame F 52 a" for a using that by (simp add: put_frame_outside)
  ultimately show ?thesis using run by (intro exI [of _ ?t]) simp
qed

lemma handler_left:
  assumes "code_at (mem u) T (tramp_words entry bridge)" "code_at (mem u) bridge (bridge_words handler)"
    and "clear_of_frame F 52 T 13" "clear_of_frame F 52 bridge 57"
    and "spr u = F" "pc u = bridge + 136" "frame_of (mem u) F 33 = T + 24"
  shows "\<exists>v. a64x_run 26 u = Some v \<and> pc v = frame_of (mem u) F 20 \<and> spr v = F + 416 \<and> xr v 30 = frame_of (mem u) F 51 \<and>
    loads_context (mem u) F v \<and> mem v = mem u"
proof -
  let ?f = "frame_of (mem u) F"
  have m: "mem u = put_frame (mem u) F 52 ?f" by (simp add: put_frame_of)
  let ?v = "restored ?f u\<lparr>spr := 400 + F, pc := ?f 33\<rparr>"
  have "mem ?v = put_frame (mem u) F 52 ?f" using m by simp
  from tramp_leave [OF assms(1,3) this] have
    "a64x_run 3 ?v = Some (?v\<lparr>xr := (xr ?v)(30 := ?f 51), spr := 416 + F, pc := xr ?v 17\<rparr>)" by (simp add: assms(7))
  moreover have "a64x_run 23 u = Some ?v" by (rule bridge_leave [OF assms(2,4) m assms(5,6)])
  ultimately have "a64x_run 26 u = Some (?v\<lparr>xr := (xr ?v)(30 := ?f 51), spr := 416 + F, pc := xr ?v 17\<rparr>)"
    using a64x_run_add [of 23 3 u] by (simp only: numeral_plus_numeral bind.simps) simp
  moreover have "xr ?v 17 = ?f 20" using restored_x [of 17 ?f u] by simp
  moreover have "loads_context (mem u) F (?v\<lparr>xr := (xr ?v)(30 := ?f 51), spr := 416 + F, pc := xr ?v 17\<rparr>)"
    by (auto simp: loads_context_def restored_x restored_q)
  ultimately show ?thesis by (auto simp: add.commute)
qed

end
