(* ===== verification/Db_Near.thy ===== *)
theory Db_Near
  imports Db_Memory
begin

unbundle bit_operations_syntax

text \<open>
  The allocator of memory near an address (\<^verbatim>\<open>NearMemoryAllocator.cc\<close>), the map of the process it
  searches for holes (\<^verbatim>\<open>GetProcessMemoryLayout\<close> of \<^verbatim>\<open>PlatformUtil/Linux\<close>), and the trampolines of
  the near branch plugin (\<^verbatim>\<open>near_trampoline_arm64.cc\<close>).
\<close>

section \<open>The map of the process\<close>

record MemRegion = MemRange +
  permission :: MemoryPermission

definition new_MemRegion :: "addr \<Rightarrow> u64 \<Rightarrow> MemoryPermission \<Rightarrow> MemRegion" where
  "new_MemRegion a sz prm = \<lparr>mr_start = a, mr_end = a + sz, mr_size = sz, permission = prm\<rparr>"

definition region_permission :: "string \<Rightarrow> MemoryPermission" where
  "region_permission p =
     (if p ! 0 = CHR ''r'' \<and> p ! 1 = CHR ''w'' then kReadWrite
      else if p ! 0 = CHR ''r'' \<and> p ! 2 = CHR ''x'' then kReadExecute
      else if p ! 0 = CHR ''r'' \<and> p ! 1 = CHR ''w'' \<and> p ! 2 = CHR ''x'' then kReadWriteExecute
      else kNoAccess)"

text \<open>
  \<^verbatim>\<open>sscanf(line, "%lx-%lx %4c %lx %hhx:%hhx %ld %n", ...) >= 7\<close>: the first two numbers and the
  four characters; the other conversions only have to succeed.
\<close>

definition sscanf_region :: "string \<Rightarrow> (u64 \<times> u64 \<times> string) option" where
  "sscanf_region line =
     (case scan_hex line of
        Some (start, c # r1) \<Rightarrow>
          (if c \<noteq> CHR ''-'' then None
           else case scan_hex r1 of
             None \<Rightarrow> None
           | Some (en, r2) \<Rightarrow>
               let r3 = dropWhile isspace r2 in
               (if length r3 < 4 then None
                else case scan_hex (drop 4 r3) of
                  None \<Rightarrow> None
                | Some (_, r4) \<Rightarrow> (if skip_device_inode r4 = None then None else Some (start, en, take 4 r3))))
      | _ \<Rightarrow> None)"

text \<open>
  The text of the file is read through a buffer of 2049 characters that a read at the end of the
  file leaves as it is; each turn of the loop declares it anew, on the same place of the stack. The
  flag of \<^verbatim>\<open>feof\<close> is set by a read that ran into the end of the file. The test for a line of
  \<^verbatim>\<open>LINE_MAX\<close> characters is never true, as \<^verbatim>\<open>fgets\<close> stores fewer.
\<close>

definition read_line :: "string \<Rightarrow> string \<Rightarrow> string \<times> string \<times> bool" where
  "read_line buf rest =
     (if rest = [] then (buf, [], True)
      else case fgets_take 2047 rest of (l, r) \<Rightarrow>
        (l, r, r = [] \<and> last l \<noteq> CHR 0x0A \<and> length l < 2047))"

lemma fgets_take_shorter: "s \<noteq> [] \<Longrightarrow> length (snd (fgets_take (Suc n) s)) < length s"
proof -
  have le: "length (snd (fgets_take k t)) \<le> length t" for k t
    by (induction k t rule: fgets_take.induct) (auto split: prod.splits intro: le_SucI)
  show "s \<noteq> [] \<Longrightarrow> length (snd (fgets_take (Suc n) s)) < length s"
    using le [of n "tl s"] by (cases s) (auto split: prod.splits simp: less_Suc_eq_le)
qed

lemma read_line_shorter:
  assumes "read_line buf rest = (buf', rest', eof')" "\<not> eof'"
  shows "length rest' < length rest"
proof -
  have "rest \<noteq> []" using assms by (auto simp: read_line_def)
  moreover have "2047 = Suc 2046" by simp
  ultimately have "length (snd (fgets_take 2047 rest)) < length rest" using fgets_take_shorter by metis
  then show ?thesis using assms by (auto simp: read_line_def split: if_splits prod.splits)
qed

lemma read_line_le:
  assumes "read_line buf rest = (buf', rest', eof')"
  shows "length rest' \<le> length rest"
  using assms fgets_take_length [of 2047 rest] by (auto simp: read_line_def split: if_splits prod.splits)

function layout_loop :: "bool \<Rightarrow> string \<Rightarrow> bool \<Rightarrow> string \<Rightarrow> MemRegion list \<Rightarrow> MemRegion list outcome" where
  "layout_loop ndebug buf eof rest regions =
     (if eof then Ok (sort_key mr_start regions)
      else case read_line buf rest of (buf', rest', eof') \<Rightarrow>
        (case sscanf_region (c_str buf') of
           None \<Rightarrow> obind (CHECK ndebug False) (\<lambda>_. Ok regions)
         | Some (start, en, perms) \<Rightarrow>
             layout_loop ndebug buf' eof' rest'
               (regions @ [new_MemRegion start (en - start) (region_permission perms)])))"
  by pat_completeness auto
termination
  by (relation "measure (\<lambda>(ndebug, buf, eof, rest, regions). 2 * length rest + (if eof then 0 else 1))")
    (auto dest!: sym [of _ "read_line _ _"] dest: read_line_shorter read_line_le)

declare layout_loop.simps [simp del]

text \<open>\<open>stack\<close> is what the first buffer holds before anything was read.\<close>

definition GetProcessMemoryLayout :: "'e dobby_env_scheme \<Rightarrow> string \<Rightarrow> memory \<Rightarrow> MemRegion list outcome" where
  "GetProcessMemoryLayout env stack m =
     (case os_maps env m of None \<Rightarrow> Ok [] | Some txt \<Rightarrow> layout_loop (env_ndebug env) stack False txt [])"

section \<open>Room near a position\<close>

text \<open>
  The part of an unused range that lies within the search range, when it has room: its start, and 0
  otherwise. The bounds wrap around at the ends of the address space.
\<close>

definition unused_within :: "addr \<Rightarrow> addr \<Rightarrow> u64 \<Rightarrow> addr \<Rightarrow> addr \<Rightarrow> addr" where
  "unused_within min_valid_addr max_valid_addr sz unused_mem_start unused_mem_end =
     (let s = max unused_mem_start min_valid_addr; e = min unused_mem_end max_valid_addr
      in if s \<ge> e then 0 else if e - s < sz then 0 else s)"

definition allocateFromDefaultArena :: "addr \<Rightarrow> addr \<Rightarrow> u64 \<Rightarrow> MemoryArena \<Rightarrow> addr" where
  "allocateFromDefaultArena min_valid_addr max_valid_addr sz arena =
     (let unused_mem_start = cursor_addr arena; unused_mem_end = ma_addr arena + mr_size arena
      in if unused_mem_end < min_valid_addr \<or> unused_mem_start > max_valid_addr then 0
         else unused_within min_valid_addr max_valid_addr sz unused_mem_start unused_mem_end)"

definition check_has_sufficient_memory_between_region :: "addr \<Rightarrow> addr \<Rightarrow> u64 \<Rightarrow> MemRegion \<Rightarrow> MemRegion \<Rightarrow> addr" where
  "check_has_sufficient_memory_between_region min_valid_addr max_valid_addr sz rgn next_rgn =
     (let unused_mem_start = mr_start rgn + mr_size rgn; unused_mem_end = mr_start next_rgn
      in if unused_mem_end < min_valid_addr \<or> unused_mem_start > max_valid_addr then 0
         else unused_within min_valid_addr max_valid_addr sz (ALIGN_FLOOR unused_mem_start 4) unused_mem_end)"

text \<open>
  The loop over the code arenas stops at the first with room; the loop over the data arenas never
  stops, so that the last one decides. The index is the place of the arena in the vector.
\<close>

fun code_arena_with_room :: "(MemoryArena \<Rightarrow> addr) \<Rightarrow> MemoryArena list \<Rightarrow> (nat \<times> addr) option" where
  "code_arena_with_room f [] = None"
| "code_arena_with_room f (a # as) =
     (if f a \<noteq> 0 then Some (0, f a) else map_option (\<lambda>(i, u). (Suc i, u)) (code_arena_with_room f as))"

definition data_arena_with_room :: "(MemoryArena \<Rightarrow> addr) \<Rightarrow> MemoryArena list \<Rightarrow> (nat \<times> addr) option" where
  "data_arena_with_room f as =
     (if as = [] \<or> f (last as) = 0 then None else Some (length as - 1, f (last as)))"

text \<open>A placeholder block up to the position, and the block itself.\<close>

definition alloc_at :: "addr \<Rightarrow> u64 \<Rightarrow> MemoryArena \<Rightarrow> MemBlock option \<times> MemoryArena" where
  "alloc_at unused_mem sz arena =
     (case allocMemBlock (unused_mem - cursor_addr arena) arena of (_, arena) \<Rightarrow> allocMemBlock sz arena)"

definition allocateNearBlockFromDefaultAllocator ::
    "u32 \<Rightarrow> addr \<Rightarrow> u64 \<Rightarrow> bool \<Rightarrow> 's mem_state_scheme \<Rightarrow> MemBlock option \<times> 's mem_state_scheme" where
  "allocateNearBlockFromDefaultAllocator sz pos search_range executable st =
     (let f = allocateFromDefaultArena (pos - search_range) (pos + search_range) (ucast sz) in
      if executable
      then (case code_arena_with_room f (code_arenas st) of
              None \<Rightarrow> (None, st)
            | Some (i, u) \<Rightarrow>
                (case alloc_at u (ucast sz) (code_arenas st ! i) of
                   (blk, arena) \<Rightarrow> (blk, st\<lparr>code_arenas := (code_arenas st)[i := arena]\<rparr>)))
      else (case data_arena_with_room f (data_arenas st) of
              None \<Rightarrow> (None, st)
            | Some (i, u) \<Rightarrow>
                (case alloc_at u (ucast sz) (data_arenas st ! i) of
                   (blk, arena) \<Rightarrow> (blk, st\<lparr>data_arenas := (data_arenas st)[i := arena]\<rparr>))))"

fun hole_between_regions :: "(MemRegion \<Rightarrow> MemRegion \<Rightarrow> addr) \<Rightarrow> MemRegion list \<Rightarrow> addr" where
  "hole_between_regions f (r # s # rs) = (if f r s \<noteq> 0 then f r s else hole_between_regions f (s # rs))"
| "hole_between_regions f _ = 0"

text \<open>
  Pages for the block are mapped over whatever is there (\<^verbatim>\<open>MAP_FIXED\<close>), from the page of the
  position to the page of the first byte after the block, and registered as an arena.
\<close>

definition allocateNearBlockFromUnusedRegion ::
    "'e dobby_env_scheme \<Rightarrow> string \<Rightarrow> u32 \<Rightarrow> addr \<Rightarrow> u64 \<Rightarrow> bool \<Rightarrow> (MemBlock option, 's mem_state_scheme) act" where
  "allocateNearBlockFromUnusedRegion env stack sz pos search_range executable st =
     obind (GetProcessMemoryLayout env stack (pmem st)) (\<lambda>layout.
     let unused_mem = hole_between_regions
           (check_has_sufficient_memory_between_region (pos - search_range) (pos + search_range) (ucast sz)) layout
     in if unused_mem = 0 then Ok (None, st)
        else
          let page = env_page env;
              first_page = ALIGN_FLOOR unused_mem page;
              end_page = ALIGN_FLOOR (unused_mem + ucast sz) page;
              arena_size = end_page - first_page + page
          in case OSMemory_Allocate env arena_size kNoAccess first_page (pmem st) of (a, m) \<Rightarrow>
             if a = 0 then Ok (None, st\<lparr>pmem := m\<rparr>)
             else
               case OSMemory_SetPermission env first_page arena_size (if executable then kReadExecute else kReadWrite) m of
                 (ok, m) \<Rightarrow>
               case alloc_at unused_mem (ucast sz) (new_MemoryArena first_page arena_size) of
                 (blk, arena) \<Rightarrow>
               Ok (blk, if executable then st\<lparr>pmem := m, code_arenas := code_arenas st @ [arena]\<rparr>
                        else st\<lparr>pmem := m, data_arenas := data_arenas st @ [arena]\<rparr>))"

definition allocateNearBlock ::
    "'e dobby_env_scheme \<Rightarrow> string \<Rightarrow> u32 \<Rightarrow> addr \<Rightarrow> u64 \<Rightarrow> bool \<Rightarrow> (MemBlock option, 's mem_state_scheme) act" where
  "allocateNearBlock env stack sz pos search_range executable st =
     (case allocateNearBlockFromDefaultAllocator sz pos search_range executable st of
        (Some blk, st) \<Rightarrow> Ok (Some blk, st)
      | (None, st) \<Rightarrow> allocateNearBlockFromUnusedRegion env stack sz pos search_range executable st)"

text \<open>The null pointer is the address 0.\<close>

definition block_addr :: "MemBlock option \<Rightarrow> addr" where
  "block_addr blk = (case blk of None \<Rightarrow> 0 | Some b \<Rightarrow> mb_addr b)"

definition allocateNearExecMemory ::
    "'e dobby_env_scheme \<Rightarrow> string \<Rightarrow> u32 \<Rightarrow> addr \<Rightarrow> u64 \<Rightarrow> (addr, 's mem_state_scheme) act" where
  "allocateNearExecMemory env stack sz pos search_range st =
     sbind (allocateNearBlock env stack sz pos search_range True st) (\<lambda>blk st. Ok (block_addr blk, st))"

definition allocateNearExecMemory_buffer ::
    "'e dobby_env_scheme \<Rightarrow> string \<Rightarrow> u8 list \<Rightarrow> u32 \<Rightarrow> addr \<Rightarrow> u64 \<Rightarrow> (addr, 's mem_state_scheme) act" where
  "allocateNearExecMemory_buffer env stack buf len pos search_range st =
     sbind (allocateNearExecMemory env stack len pos search_range st) (\<lambda>a st.
       obind (DobbyCodePatch env a buf len (pmem st)) (\<lambda>m. Ok (a, st\<lparr>pmem := m\<rparr>)))"

definition allocateNearDataMemory ::
    "'e dobby_env_scheme \<Rightarrow> string \<Rightarrow> u32 \<Rightarrow> addr \<Rightarrow> u64 \<Rightarrow> (addr, 's mem_state_scheme) act" where
  "allocateNearDataMemory env stack sz pos search_range st =
     sbind (allocateNearBlock env stack sz pos search_range False st) (\<lambda>blk st. Ok (block_addr blk, st))"

text \<open>The variant with contents takes executable memory, which \<^verbatim>\<open>memcpy\<close> cannot write.\<close>

definition allocateNearDataMemory_buffer ::
    "'e dobby_env_scheme \<Rightarrow> string \<Rightarrow> u8 list \<Rightarrow> u32 \<Rightarrow> addr \<Rightarrow> u64 \<Rightarrow> (addr, 's mem_state_scheme) act" where
  "allocateNearDataMemory_buffer env stack buf len pos search_range st =
     sbind (allocateNearExecMemory env stack len pos search_range st) (\<lambda>a st.
       obind (memcpy (pmem st) a buf (unat len)) (\<lambda>m. Ok (a, st\<lparr>pmem := m\<rparr>)))"

section \<open>Trampolines of one branch\<close>

definition ARM64_B_XXX_RANGE :: u64 where "ARM64_B_XXX_RANGE = push_bit 2 (push_bit 25 1)"

text \<open>
  The code that forwards a branch that does not reach: in memory near the source. When the target is
  out of the range of \<^verbatim>\<open>adrp\<close> too, the code is longer and a second block is taken for it.
\<close>

definition GenerateFastForwardTrampoline ::
    "'e dobby_env_scheme \<Rightarrow> string \<Rightarrow> addr \<Rightarrow> addr \<Rightarrow> (MemBlock option, 's mem_state_scheme) act" where
  "GenerateFastForwardTrampoline env stack src dst st =
     (let tramp_size = 3 * 4;
          adrp_range = push_bit (2 + 19 + 12 - 1) 1
      in sbind (allocateNearExecMemory env stack tramp_size src ARM64_B_XXX_RANGE st) (\<lambda>tramp_mem st.
         if tramp_mem = 0 then Ok (None, st)
         else if llabs (tramp_mem - dst) < adrp_range
         then obind (case AdrpAdd TMP_REG_0 tramp_mem dst (new_Assembler 0) of None \<Rightarrow> Abort | Some a \<Rightarrow> Ok a) (\<lambda>a.
              FinalizeFromTurboAssembler env (SetRealizedAddress tramp_mem (br TMP_REG_0 a)) st)
         else
           let a = br TMP_REG_0 (Mov TMP_REG_0 dst (new_Assembler 0)) in
           sbind (allocateNearExecMemory env stack (of_nat (GetBufferSize (buffer a))) src ARM64_B_XXX_RANGE st) (\<lambda>tramp_mem st.
             if tramp_mem = 0 then Ok (None, st)
             else FinalizeFromTurboAssembler env (SetRealizedAddress tramp_mem a) st)))"

definition GenerateNearTrampolineBuffer ::
    "'e dobby_env_scheme \<Rightarrow> string \<Rightarrow> addr \<Rightarrow> addr \<Rightarrow> (u8 list option, 's mem_state_scheme) act" where
  "GenerateNearTrampolineBuffer env stack src dst st =
     (let a = new_Assembler src in
      if llabs (dst - src) < ARM64_B_XXX_RANGE
      then Ok (Some (CodeBuffer_Copy (buffer (b_branch (dst - src) a))), st)
      else sbind (GenerateFastForwardTrampoline env stack src dst st) (\<lambda>code st.
        case code of
          None \<Rightarrow> Ok (None, st)
        | Some blk \<Rightarrow> Ok (Some (CodeBuffer_Copy (buffer (b_branch (mb_addr blk - src) a))), st)))"

end
