(* ===== verification/Db_Hook.thy ===== *)
theory Db_Hook
  imports Db_Near
begin

unbundle bit_operations_syntax

text \<open>
  The hook engine of Dobby on Android arm64: the registry of hooked addresses (\<^verbatim>\<open>Interceptor\<close>), the
  routing of an inline hook (\<^verbatim>\<open>InterceptRouting\<close>, \<^verbatim>\<open>FunctionInlineHookRouting\<close>) with the relocation
  of the code it overwrites (\<^verbatim>\<open>GenRelocateCode\<close>), and the interface \<^verbatim>\<open>DobbyHook\<close>, \<^verbatim>\<open>DobbyDestroy\<close>.

  An entry holds the routing object that the code reaches through a pointer. The fields that the
  constructor of an entry leaves alone keep what the heap block \<open>raw\<close> held.
\<close>

section \<open>Entries and routings\<close>

datatype InterceptEntryType = kFunctionInlineHook | kInstructionInstrument

record InterceptRouting =
  rt_origin :: "MemBlock option"
  rt_relocated :: "MemBlock option"
  trampoline_buffer :: "u8 list option"
  trampoline_target :: addr
  pre_handler :: addr

record InterceptEntry =
  ie_id :: u32
  ie_type :: InterceptEntryType
  patched_addr :: addr
  relocated_addr :: addr
  origin_insns :: "u8 list"
  origin_insn_size :: u32
  routing :: InterceptRouting

record ClosureTrampolineEntry =
  tramp_address :: addr
  tramp_size :: u32
  carry_handler :: addr
  carry_data :: addr

text \<open>
  The state of the engine: the registry, the plugins, and for instrumented instructions the bridge
  and the two kinds of heap objects their code finds through pointers.
\<close>

record hook_state = mem_state +
  entries :: "InterceptEntry list"
  near_branch_trampoline :: bool
  plugins :: nat
  closure_bridge :: addr
  closure_entries :: "addr \<rightharpoonup> ClosureTrampolineEntry"
  instrumented :: "addr \<rightharpoonup> InterceptEntry"

definition new_InterceptRouting :: InterceptRouting where
  "new_InterceptRouting = \<lparr>rt_origin = None, rt_relocated = None, trampoline_buffer = None,
     trampoline_target = 0, pre_handler = 0\<rparr>"

section \<open>The registry\<close>

fun find_entry :: "addr \<Rightarrow> InterceptEntry list \<Rightarrow> InterceptEntry option" where
  "find_entry a [] = None"
| "find_entry a (e # es) = (if patched_addr e = a then Some e else find_entry a es)"

definition Interceptor_find :: "addr \<Rightarrow> hook_state \<Rightarrow> InterceptEntry option" where
  "Interceptor_find a st = find_entry a (entries st)"

definition Interceptor_add :: "InterceptEntry \<Rightarrow> hook_state \<Rightarrow> hook_state" where
  "Interceptor_add e st = st\<lparr>entries := entries st @ [e]\<rparr>"

fun remove_entry :: "addr \<Rightarrow> InterceptEntry list \<Rightarrow> InterceptEntry list" where
  "remove_entry a [] = []"
| "remove_entry a (e # es) = (if patched_addr e = a then es else e # remove_entry a es)"

definition Interceptor_remove :: "addr \<Rightarrow> hook_state \<Rightarrow> hook_state" where
  "Interceptor_remove a st = st\<lparr>entries := remove_entry a (entries st)\<rparr>"

definition Interceptor_count :: "hook_state \<Rightarrow> nat" where
  "Interceptor_count st = length (entries st)"

definition new_InterceptEntry :: "InterceptEntry \<Rightarrow> InterceptEntryType \<Rightarrow> addr \<Rightarrow> hook_state \<Rightarrow> InterceptEntry" where
  "new_InterceptEntry raw ty address st =
     raw\<lparr>ie_type := ty, patched_addr := address, ie_id := of_nat (Interceptor_count st),
         routing := new_InterceptRouting\<rparr>"

section \<open>Relocating the overwritten code\<close>

fun read_bytes :: "memory \<Rightarrow> addr \<Rightarrow> nat \<Rightarrow> u8 list run" where
  "read_bytes m a 0 = Ret []"
| "read_bytes m a (Suc n) = run_bind (load8 m a) (\<lambda>b. run_bind (read_bytes m (a + 1) n) (\<lambda>bs. Ret (b # bs)))"

definition new_relo_ctx :: "addr \<Rightarrow> MemBlock \<Rightarrow> MemBlock \<Rightarrow> relo_ctx" where
  "new_relo_ctx buf origin relocated =
     \<lparr>relo_buffer = buf, buffer_cursor = 0, buffer_size = unat (mr_size origin),
      relo_src_vmaddr = mb_addr origin, relo_dst_vmaddr = mb_addr relocated, relocated_offset_map = Map.empty\<rparr>"

text \<open>
  \<^verbatim>\<open>relo_relocate\<close> and \<^verbatim>\<open>GenRelocateCode\<close>: the blocks of the original and of the relocated code after
  it. The code is read before anything is written.
\<close>

definition GenRelocateCode ::
    "'e dobby_env_scheme \<Rightarrow> addr \<Rightarrow> MemBlock \<Rightarrow> MemBlock \<Rightarrow> bool \<Rightarrow> (MemBlock \<times> MemBlock, 's mem_state_scheme) act" where
  "GenRelocateCode env buf origin relocated branch st =
     obind (of_run (read_bytes (pmem st) buf (unat (mr_size origin)))) (\<lambda>_.
     case relo_assemble (env_ndebug env) (mbytes (pmem st)) (mb_addr origin) (new_relo_ctx buf origin relocated) branch of
       None \<Rightarrow> Abort
     | Some (ctx, new_origin_len, a) \<Rightarrow>
         let origin = reset_MemBlock (mb_addr origin) (of_nat new_origin_len) origin in
         sbind (FinalizeFromTurboAssembler env a st) (\<lambda>code st.
           obind (Sigsegv_if_null code) (\<lambda>code.
           Ok ((origin, reset_MemBlock (mb_addr code) (mr_size code) relocated), st))))"

definition GenRelocateCodeAndBranch ::
    "'e dobby_env_scheme \<Rightarrow> addr \<Rightarrow> MemBlock \<Rightarrow> MemBlock \<Rightarrow> (MemBlock \<times> MemBlock, 's mem_state_scheme) act" where
  "GenRelocateCodeAndBranch env buf origin relocated st = GenRelocateCode env buf origin relocated True st"

section \<open>Routing\<close>

text \<open>\<^verbatim>\<open>InterceptRouting::GenerateRelocatedCode\<close>. Its result, a flag, is ignored by all callers.\<close>

definition GenerateRelocatedCode ::
    "'e dobby_env_scheme \<Rightarrow> InterceptEntry \<Rightarrow> (bool \<times> InterceptEntry, hook_state) act" where
  "GenerateRelocatedCode env entry st =
     obind (Sigsegv_if_null (trampoline_buffer (routing entry))) (\<lambda>tramp.
     let tramp_size = of_nat (GetBufferSize tramp);
         origin = new_MemBlock (patched_addr entry) (ucast (tramp_size :: u32));
         relocated = new_MemBlock 0 0
     in sbind (GenRelocateCodeAndBranch env (patched_addr entry) origin relocated st) (\<lambda>blks st.
        case blks of (origin, relocated) \<Rightarrow>
        let entry = entry\<lparr>routing := (routing entry)\<lparr>rt_origin := Some origin, rt_relocated := Some relocated\<rparr>\<rparr> in
        if mr_size relocated = 0 then Ok ((False, entry), st)
        else
          let entry = entry\<lparr>relocated_addr := mb_addr relocated\<rparr> in
          obind (of_run (read_bytes (pmem st) (mb_addr origin) (unat (mr_size origin)))) (\<lambda>bs.
          if length bs > length (origin_insns entry) then UB
          else Ok ((True, entry\<lparr>origin_insns := bs @ drop (length bs) (origin_insns entry)\<rparr>), st))))"

text \<open>\<^verbatim>\<open>InterceptRouting::GenerateTrampolineBuffer\<close>, with the near branch plugin when it is enabled.\<close>

definition GenerateTrampolineBuffer ::
    "'e dobby_env_scheme \<Rightarrow> string \<Rightarrow> addr \<Rightarrow> addr \<Rightarrow> InterceptRouting \<Rightarrow> (InterceptRouting, hook_state) act" where
  "GenerateTrampolineBuffer env stack src dst r st =
     sbind (if near_branch_trampoline st
            then sbind (GenerateNearTrampolineBuffer env stack src dst st) (\<lambda>buf st.
                   Ok (case buf of None \<Rightarrow> r | Some bs \<Rightarrow> r\<lparr>trampoline_buffer := Some bs\<rparr>, st))
            else Ok (r, st)) (\<lambda>r st.
     if trampoline_buffer r = None
     then (case GenerateNormalTrampolineBuffer src dst of
             None \<Rightarrow> Abort
           | Some bs \<Rightarrow> Ok (r\<lparr>trampoline_buffer := Some bs\<rparr>, st))
     else Ok (r, st))"

text \<open>\<^verbatim>\<open>InterceptRouting::Active\<close> and \<^verbatim>\<open>Commit\<close>: the trampoline over the original code.\<close>

definition Routing_Active :: "'e dobby_env_scheme \<Rightarrow> InterceptEntry \<Rightarrow> hook_state \<Rightarrow> hook_state outcome" where
  "Routing_Active env entry st =
     obind (Sigsegv_if_null (trampoline_buffer (routing entry))) (\<lambda>tramp.
     obind (DobbyCodePatch env (patched_addr entry) tramp (of_nat (GetBufferSize tramp)) (pmem st)) (\<lambda>m.
     Ok (st\<lparr>pmem := m\<rparr>)))"

definition Routing_Commit :: "'e dobby_env_scheme \<Rightarrow> InterceptEntry \<Rightarrow> hook_state \<Rightarrow> hook_state outcome" where
  "Routing_Commit env entry st = Routing_Active env entry st"

definition FunctionInlineHook_BuildRouting ::
    "'e dobby_env_scheme \<Rightarrow> string \<Rightarrow> addr \<Rightarrow> InterceptEntry \<Rightarrow> (InterceptEntry, hook_state) act" where
  "FunctionInlineHook_BuildRouting env stack replace_func entry st =
     (let r = (routing entry)\<lparr>trampoline_target := replace_func\<rparr> in
      sbind (GenerateTrampolineBuffer env stack (patched_addr entry) (trampoline_target r) r st) (\<lambda>r st.
      Ok (entry\<lparr>routing := r\<rparr>, st)))"

definition FunctionInlineHook_DispatchRouting ::
    "'e dobby_env_scheme \<Rightarrow> string \<Rightarrow> addr \<Rightarrow> InterceptEntry \<Rightarrow> (InterceptEntry, hook_state) act" where
  "FunctionInlineHook_DispatchRouting env stack replace_func entry st =
     sbind (FunctionInlineHook_BuildRouting env stack replace_func entry st) (\<lambda>entry st.
     sbind (GenerateRelocatedCode env entry st) (\<lambda>r st. Ok (snd r, st)))"

section \<open>The interface\<close>

definition RS_FAILED :: int where "RS_FAILED = - 1"
definition RS_SUCCESS :: int where "RS_SUCCESS = 0"

definition DobbyHook ::
    "'e dobby_env_scheme \<Rightarrow> string \<Rightarrow> InterceptEntry \<Rightarrow> addr \<Rightarrow> addr \<Rightarrow> addr \<Rightarrow> (int, hook_state) act" where
  "DobbyHook env stack raw address replace_func origin_func st =
     (if address = 0 then Ok (RS_FAILED, st)
      else case OSMemory_SetPermission env (ALIGN_FLOOR address (env_page env)) (env_page env) kReadExecute (pmem st) of
        (ok, m) \<Rightarrow>
        let st = st\<lparr>pmem := m\<rparr> in
        if \<not> ok then Ok (RS_FAILED, st)
        else case Interceptor_find address st of
          Some _ \<Rightarrow> Ok (RS_FAILED, st)
        | None \<Rightarrow>
            let entry = new_InterceptEntry raw kFunctionInlineHook address st in
            sbind (FunctionInlineHook_DispatchRouting env stack replace_func entry st) (\<lambda>entry st.
            obind (if origin_func \<noteq> 0 then of_run (store64 (pmem st) origin_func (relocated_addr entry))
                   else Ok (pmem st)) (\<lambda>m.
            obind (Routing_Commit env entry (st\<lparr>pmem := m\<rparr>)) (\<lambda>st.
            Ok (RS_SUCCESS, Interceptor_add entry st)))))"

text \<open>\<^verbatim>\<open>RT_FAILED\<close> and \<^verbatim>\<open>RT_SUCCESS\<close> have the same values.\<close>

definition DobbyDestroy :: "'e dobby_env_scheme \<Rightarrow> addr \<Rightarrow> (int, hook_state) act" where
  "DobbyDestroy env address st =
     (case Interceptor_find address st of
        Some entry \<Rightarrow>
          obind (DobbyCodePatch env address (origin_insns entry) (origin_insn_size entry) (pmem st)) (\<lambda>m.
          Ok (RS_SUCCESS, Interceptor_remove address (st\<lparr>pmem := m\<rparr>)))
      | None \<Rightarrow> Ok (RS_FAILED, st))"

definition dobby_enable_near_branch_trampoline :: "hook_state \<Rightarrow> hook_state" where
  "dobby_enable_near_branch_trampoline st = st\<lparr>plugins := plugins st + 1, near_branch_trampoline := True\<rparr>"

definition dobby_disable_near_branch_trampoline :: "hook_state \<Rightarrow> hook_state" where
  "dobby_disable_near_branch_trampoline st = st\<lparr>near_branch_trampoline := False\<rparr>"

end
