(* ===== verification/Db_Instrument.thy ===== *)
theory Db_Instrument
  imports A64_Closure Db_Hook
begin

unbundle bit_operations_syntax

text \<open>
  Instruction instrumentation on arm64: the bridge that all closure trampolines share and the closure
  trampoline of an instrumented instruction as blocks of executable memory, the handlers the bridge
  calls, and \<^verbatim>\<open>DobbyInstrument\<close>.
\<close>

section \<open>The bridge\<close>

text \<open>
  What the code takes from the image it is part of: the build option and the addresses of two of its
  functions.
\<close>

record dobby_image = dobby_env +
  full_pack :: bool
  addr_bridge_handler :: addr
  addr_instrument_dispatch :: addr

definition get_closure_bridge :: "'e dobby_image_scheme \<Rightarrow> (addr, hook_state) act" where
  "get_closure_bridge env st =
     (if closure_bridge st \<noteq> 0 then Ok (closure_bridge st, st)
      else case closure_bridge_code (full_pack env) (addr_bridge_handler env) of
        None \<Rightarrow> Abort
      | Some a \<Rightarrow>
          sbind (FinalizeFromTurboAssembler env a st) (\<lambda>code st.
            obind (Sigsegv_if_null code) (\<lambda>code.
            Ok (mb_addr code, st\<lparr>closure_bridge := mb_addr code\<rparr>))))"

section \<open>The closure trampoline\<close>

text \<open>\<open>tramp_entry\<close> is the address of the new \<^verbatim>\<open>ClosureTrampolineEntry\<close>.\<close>

definition CreateClosureTrampoline ::
    "'e dobby_image_scheme \<Rightarrow> addr \<Rightarrow> addr \<Rightarrow> addr \<Rightarrow> (ClosureTrampolineEntry, hook_state) act" where
  "CreateClosureTrampoline env tramp_entry data handler st =
     (case closure_trampoline_code tramp_entry of
        None \<Rightarrow> Abort
      | Some a \<Rightarrow>
          sbind (get_closure_bridge env st) (\<lambda>bridge st.
          sbind (FinalizeFromTurboAssembler env (EmitInt64 bridge a) st) (\<lambda>code st.
          obind (Sigsegv_if_null code) (\<lambda>closure_tramp.
          let e = \<lparr>tramp_address = mb_addr closure_tramp, tramp_size = ucast (mr_size closure_tramp),
                   carry_handler = handler, carry_data = data\<rparr>
          in Ok (e, st\<lparr>closure_entries := (closure_entries st)(tramp_entry \<mapsto> e)\<rparr>)))))"

section \<open>The handlers\<close>

text \<open>
  The functions the bridge reaches, on the bytes of the memory; \<open>callback\<close> stands for the code of the
  user: the function at an address, called with the instrumented address and the context.
\<close>

type_synonym callback = "addr \<Rightarrow> addr \<Rightarrow> addr \<Rightarrow> (addr \<Rightarrow> u8) \<Rightarrow> (addr \<Rightarrow> u8)"

definition offsetof_x :: "nat \<Rightarrow> addr" where
  "offsetof_x i = of_nat (3 * 8 + 8 * i)"

definition set_routing_bridge_next_hop :: "addr \<Rightarrow> addr \<Rightarrow> (addr \<Rightarrow> u8) \<Rightarrow> (addr \<Rightarrow> u8)" where
  "set_routing_bridge_next_hop ctx address m = upd_le m 8 (ctx + offsetof_x (unat (reg_code TMP_REG_0))) address"

definition instrument_forward_handler :: "callback \<Rightarrow> InterceptEntry \<Rightarrow> addr \<Rightarrow> (addr \<Rightarrow> u8) \<Rightarrow> (addr \<Rightarrow> u8)" where
  "instrument_forward_handler callback entry ctx m =
     (let m = (if pre_handler (routing entry) \<noteq> 0
               then callback (pre_handler (routing entry)) (patched_addr entry) ctx m else m)
      in set_routing_bridge_next_hop ctx (relocated_addr entry) m)"

definition instrument_routing_dispatch :: "callback \<Rightarrow> InterceptEntry \<Rightarrow> addr \<Rightarrow> (addr \<Rightarrow> u8) \<Rightarrow> (addr \<Rightarrow> u8)" where
  "instrument_routing_dispatch callback entry ctx m = instrument_forward_handler callback entry ctx m"

text \<open>
  The bridge handler calls what the closure carries; \<open>None\<close> when that is not a function and an object
  of the engine.
\<close>

definition common_closure_bridge_handler ::
    "'e dobby_image_scheme \<Rightarrow> callback \<Rightarrow> hook_state \<Rightarrow> addr \<Rightarrow> addr \<Rightarrow> (addr \<Rightarrow> u8) \<Rightarrow> (addr \<Rightarrow> u8) option" where
  "common_closure_bridge_handler env callback st ctx entry m =
     (case closure_entries st entry of
        None \<Rightarrow> None
      | Some e \<Rightarrow>
          if carry_handler e = addr_instrument_dispatch env
          then map_option (\<lambda>d. instrument_routing_dispatch callback d ctx m) (instrumented st (carry_data e))
          else None)"

section \<open>The instrumentation\<close>

text \<open>
  \<open>entry_ptr\<close> and \<open>tramp_entry\<close> are the addresses of the two new heap objects. The entry is written
  where the closure finds it when its routing is complete; nothing runs in between.
\<close>

definition InstructionInstrument_BuildRouting ::
    "'e dobby_image_scheme \<Rightarrow> string \<Rightarrow> addr \<Rightarrow> addr \<Rightarrow> InterceptEntry \<Rightarrow> (InterceptEntry, hook_state) act" where
  "InstructionInstrument_BuildRouting env stack entry_ptr tramp_entry entry st =
     sbind (CreateClosureTrampoline env tramp_entry entry_ptr (addr_instrument_dispatch env) st) (\<lambda>e st.
     let r = (routing entry)\<lparr>trampoline_target := tramp_address e\<rparr> in
     sbind (GenerateTrampolineBuffer env stack (patched_addr entry) (trampoline_target r) r st) (\<lambda>r st.
     Ok (entry\<lparr>routing := r\<rparr>, st)))"

definition InstructionInstrument_DispatchRouting ::
    "'e dobby_image_scheme \<Rightarrow> string \<Rightarrow> addr \<Rightarrow> addr \<Rightarrow> InterceptEntry \<Rightarrow> (InterceptEntry, hook_state) act" where
  "InstructionInstrument_DispatchRouting env stack entry_ptr tramp_entry entry st =
     sbind (InstructionInstrument_BuildRouting env stack entry_ptr tramp_entry entry st) (\<lambda>entry st.
     sbind (GenerateRelocatedCode env entry st) (\<lambda>r st. Ok (snd r, st)))"

definition DobbyInstrument ::
    "'e dobby_image_scheme \<Rightarrow> string \<Rightarrow> InterceptEntry \<Rightarrow> addr \<Rightarrow> addr \<Rightarrow> addr \<Rightarrow> addr \<Rightarrow> (int, hook_state) act" where
  "DobbyInstrument env stack raw entry_ptr tramp_entry address handler st =
     (if address = 0 then Ok (RS_FAILED, st)
      else case OSMemory_SetPermission env (ALIGN_FLOOR address (env_page env)) (env_page env) kReadExecute (pmem st) of
        (ok, m) \<Rightarrow>
        let st = st\<lparr>pmem := m\<rparr> in
        if \<not> ok then Ok (RS_FAILED, st)
        else case Interceptor_find address st of
          Some _ \<Rightarrow> Ok (RS_FAILED, st)
        | None \<Rightarrow>
            let entry = new_InterceptEntry raw kInstructionInstrument address st;
                entry = entry\<lparr>routing := (routing entry)\<lparr>pre_handler := handler\<rparr>\<rparr>
            in sbind (InstructionInstrument_DispatchRouting env stack entry_ptr tramp_entry entry st) (\<lambda>entry st.
               obind (Routing_Commit env entry st) (\<lambda>st.
               Ok (RS_SUCCESS, Interceptor_add entry
                     (st\<lparr>instrumented := (instrumented st)(entry_ptr \<mapsto> entry)\<rparr>)))))"

end
