(* ===== verification/Db_Patch.thy ===== *)
theory Db_Patch
  imports Db_Memory
begin

unbundle bit_operations_syntax

text \<open>
  The contract of the kernel that Dobby's memory layer rests on (\<open>kernel_ok\<close>, the documented behaviour
  of \<^verbatim>\<open>mmap\<close> and \<^verbatim>\<open>mprotect\<close>), facts about pages, and what \<^verbatim>\<open>DobbyCodePatch\<close> changes.
\<close>

section \<open>The kernel's contract\<close>

definition page_uniform :: "memory \<Rightarrow> bool" where
  "page_uniform m \<longleftrightarrow> (\<forall>x y. PAGE_START x = PAGE_START y \<longrightarrow> mprot m x = mprot m y)"

definition mapped :: "memory \<Rightarrow> addr \<Rightarrow> bool" where
  "mapped m x \<longleftrightarrow> mprot m x \<noteq> None"

text \<open>
  Pages have 4096 bytes; \<^verbatim>\<open>mprotect\<close> of mapped pages succeeds, of an unmapped page it fails and changes
  nothing, and it never maps or unmaps; an \<^verbatim>\<open>mmap\<close> that fails changes nothing; a mapping that \<^verbatim>\<open>mmap\<close> returns is page-aligned, was not mapped before unless its address
  was fixed, and has the protection that was asked for.
\<close>

definition mmapped :: "memory \<Rightarrow> addr \<Rightarrow> u64 \<Rightarrow> u32 \<Rightarrow> memory \<Rightarrow> bool" where
  "mmapped m a len p m' \<longleftrightarrow> PAGE_START a = a \<and> a \<noteq> 0 \<and> unat a + unat len < 2 ^ 64 \<and>
     mprot m' = mprot (mprotected m a len p) \<and> (\<forall>x. \<not> x - a < len \<longrightarrow> mbytes m' x = mbytes m x)"

definition kernel_ok :: "'e dobby_env_scheme \<Rightarrow> bool" where
  "kernel_ok env \<longleftrightarrow> env_page env = 0x1000 \<and>
     (\<forall>m a len p. PAGE_START a = a \<and> (\<forall>x. x - a < len \<longrightarrow> mapped m x) \<longrightarrow>
        fst (os_mprotect env m a len p) = 0 \<and> snd (snd (os_mprotect env m a len p)) = mprotected m a len p) \<and>
     (\<forall>m a p. PAGE_START a = a \<and> (\<forall>x. x - a < 0x1000 \<longrightarrow> \<not> mapped m x) \<longrightarrow>
        fst (os_mprotect env m a 0x1000 p) \<noteq> 0 \<and> snd (snd (os_mprotect env m a 0x1000 p)) = m) \<and>
     (\<forall>m a len p. mapped (snd (snd (os_mprotect env m a len p))) = mapped m) \<and>
     (\<forall>m f len p fixed m'. env_mmap env m f len p fixed = (None, m') \<longrightarrow> m' = m) \<and>
     (\<forall>m f len p fixed a m'. env_mmap env m f len p fixed = (Some a, m') \<and> len mod 0x1000 = 0 \<longrightarrow>
        mmapped m a len p m' \<and> (fixed \<longrightarrow> a = f) \<and> (\<not> fixed \<longrightarrow> (\<forall>x. x - a < len \<longrightarrow> \<not> mapped m x)))"

lemma kernel_okD:
  assumes "kernel_ok env"
  shows "env_page env = 0x1000"
    and "PAGE_START a = a \<Longrightarrow> (\<And>x. x - a < len \<Longrightarrow> mapped m x) \<Longrightarrow>
      fst (os_mprotect env m a len p) = 0 \<and> snd (snd (os_mprotect env m a len p)) = mprotected m a len p"
    and "PAGE_START a = a \<Longrightarrow> (\<And>x. x - a < 0x1000 \<Longrightarrow> \<not> mapped m x) \<Longrightarrow>
      fst (os_mprotect env m a 0x1000 p) \<noteq> 0 \<and> snd (snd (os_mprotect env m a 0x1000 p)) = m"
    and "env_mmap env m f len p fixed = (Some a, m') \<Longrightarrow> len mod 0x1000 = 0 \<Longrightarrow>
      mmapped m a len p m' \<and> (fixed \<longrightarrow> a = f) \<and> (\<not> fixed \<longrightarrow> (\<forall>x. x - a < len \<longrightarrow> \<not> mapped m x))"
    and "mapped (snd (snd (os_mprotect env m a len p))) = mapped m"
    and "env_mmap env m f len p fixed = (None, m') \<Longrightarrow> m' = m"
proof -
  note k = assms [unfolded kernel_ok_def]
  show "env_page env = 0x1000" using k by (elim conjE)
  show "PAGE_START a = a \<Longrightarrow> (\<And>x. x - a < len \<Longrightarrow> mapped m x) \<Longrightarrow>
      fst (os_mprotect env m a len p) = 0 \<and> snd (snd (os_mprotect env m a len p)) = mprotected m a len p"
    using k by (elim conjE) simp
  show "PAGE_START a = a \<Longrightarrow> (\<And>x. x - a < 0x1000 \<Longrightarrow> \<not> mapped m x) \<Longrightarrow>
      fst (os_mprotect env m a 0x1000 p) \<noteq> 0 \<and> snd (snd (os_mprotect env m a 0x1000 p)) = m"
    using k by (elim conjE) simp
  show "env_mmap env m f len p fixed = (Some a, m') \<Longrightarrow> len mod 0x1000 = 0 \<Longrightarrow>
      mmapped m a len p m' \<and> (fixed \<longrightarrow> a = f) \<and> (\<not> fixed \<longrightarrow> (\<forall>x. x - a < len \<longrightarrow> \<not> mapped m x))"
  proof -
    assume h: "env_mmap env m f len p fixed = (Some a, m')" "len mod 0x1000 = 0"
    from k have "\<forall>m f len p fixed a m'. env_mmap env m f len p fixed = (Some a, m') \<and> len mod 0x1000 = 0 \<longrightarrow>
        mmapped m a len p m' \<and> (fixed \<longrightarrow> a = f) \<and> (\<not> fixed \<longrightarrow> (\<forall>x. x - a < len \<longrightarrow> \<not> mapped m x))"
      by (elim conjE) assumption
    from this [rule_format, OF conjI [OF h]] show ?thesis .
  qed
  show "mapped (snd (snd (os_mprotect env m a len p))) = mapped m" using k by (elim conjE) simp
  show "env_mmap env m f len p fixed = (None, m') \<Longrightarrow> m' = m"
  proof -
    assume h: "env_mmap env m f len p fixed = (None, m')"
    from k have "\<forall>m f len p fixed m'. env_mmap env m f len p fixed = (None, m') \<longrightarrow> m' = m"
      by (elim conjE) assumption
    from this [rule_format, OF h] show ?thesis .
  qed
qed

section \<open>Pages\<close>

lemma PAGE_START_eq: "PAGE_START a = ALIGN_FLOOR a 0x1000"
  by (simp add: PAGE_START_def PAGE_MASK_def PAGE_SIZE_def ALIGN_FLOOR_def)

lemma PAGE_START_idem [simp]: "PAGE_START (PAGE_START a) = PAGE_START a"
  by (simp add: PAGE_START_def and.assoc)

text \<open>The protection of one page of a uniform memory is set, when it is mapped.\<close>

definition set_page :: "addr \<Rightarrow> u32 \<Rightarrow> memory \<Rightarrow> memory" where
  "set_page a p m = (if mapped m a then mprotected m (PAGE_START a) 0x1000 p else m)"

lemma mprot_set_page:
  "mprot (set_page a p m) x = (if mapped m a \<and> PAGE_START x = PAGE_START a then Some p else mprot m x)"
proof (cases "mapped m a")
  case True
  have "mprot (set_page a p m) x = (if x - PAGE_START a < 4096 then Some p else mprot m x)"
    unfolding set_page_def mprotected_def by (simp add: True)
  moreover have "(x - PAGE_START a < 4096) = (PAGE_START x = PAGE_START a)" by (rule page_offset_less)
  ultimately have "mprot (set_page a p m) x = (if PAGE_START x = PAGE_START a then Some p else mprot m x)"
    by (simp only:)
  then show ?thesis using True by simp
next
  case False
  then show ?thesis by (simp only: set_page_def if_False simp_thms)
qed

lemma mbytes_set_page [simp]: "mbytes (set_page a p m) = mbytes m"
  by (simp add: set_page_def mprotected_def)

lemma page_uniformD: "page_uniform m \<Longrightarrow> PAGE_START x = PAGE_START y \<Longrightarrow> mprot m x = mprot m y"
  unfolding page_uniform_def by blast

lemma mapped_set_page [simp]:
  assumes "page_uniform m"
  shows "mapped (set_page a p m) = mapped m"
proof
  fix x
  show "mapped (set_page a p m) x = mapped m x"
  proof (cases "mapped m a \<and> PAGE_START x = PAGE_START a")
    case True
    then have "mprot m x = mprot m a" by (intro page_uniformD [OF assms]) simp
    then have "mapped m x" using True by (simp add: mapped_def)
    moreover have "mapped (set_page a p m) x" using True unfolding mapped_def mprot_set_page by simp
    ultimately show ?thesis by simp
  next
    case False
    then have "mprot (set_page a p m) x = mprot m x" unfolding mprot_set_page by (rule if_not_P)
    then show ?thesis by (simp add: mapped_def)
  qed
qed

lemma page_uniform_set_page:
  assumes "page_uniform m"
  shows "page_uniform (set_page a p m)"
  unfolding page_uniform_def mprot_set_page
proof (intro allI impI)
  fix x y
  assume "PAGE_START x = PAGE_START y"
  then show "(if mapped m a \<and> PAGE_START x = PAGE_START a then Some p else mprot m x) =
      (if mapped m a \<and> PAGE_START y = PAGE_START a then Some p else mprot m y)"
    using page_uniformD [OF assms, of x y] by simp
qed

lemma mprotect_page:
  assumes "kernel_ok env" "page_uniform m"
  shows "mprotect env (PAGE_START a) 0x1000 p m = set_page a p m"
proof (cases "mapped m a")
  case True
  have "mapped m x" if "x - PAGE_START a < 0x1000" for x
    using that True page_uniformD [OF assms(2), of x a] by (simp add: page_offset_less mapped_def)
  then show ?thesis
    using kernel_okD(2) [OF assms(1) PAGE_START_idem] True by (simp add: mprotect_def set_page_def)
next
  case False
  have "\<not> mapped m x" if "x - PAGE_START a < 0x1000" for x
    using that False page_uniformD [OF assms(2), of x a] by (simp add: page_offset_less mapped_def)
  then show ?thesis
    using kernel_okD(3) [OF assms(1) PAGE_START_idem] False by (simp add: mprotect_def set_page_def)
qed

section \<open>Writing bytes\<close>

definition overlay :: "(addr \<Rightarrow> u8) \<Rightarrow> addr \<Rightarrow> u8 list \<Rightarrow> addr \<Rightarrow> u8" where
  "overlay f a bs x = (if unat (x - a) < length bs then bs ! unat (x - a) else f x)"

lemma overlay_Nil [simp]: "overlay f a [] = f"
  by (rule ext) (simp add: overlay_def)

lemma overlay_Cons:
  assumes "length bs < 2 ^ 64"
  shows "overlay f a (b # bs) = overlay (f(a := b)) (a + 1) bs"
proof
  fix x
  show "overlay f a (b # bs) x = overlay (f(a := b)) (a + 1) bs x"
  proof (cases "x = a")
    case True
    have "a - (a + 1) = (- 1 :: u64)" by simp
    then have "unat (a - (a + 1)) = unat (- 1 :: u64)" by (simp only:)
    then have "unat (a - (a + 1)) = 18446744073709551615" by (simp add: unsigned_minus_1_eq_mask mask_eq_exp_minus_1)
    with True assms show ?thesis by (simp add: overlay_def)
  next
    case False
    then have "x - a \<noteq> 0" by simp
    then have "unat (x - (a + 1)) = unat (x - a) - 1" "0 < unat (x - a)"
      by (simp_all add: unat_minus_one unat_gt_0 diff_diff_eq [symmetric])
    with False show ?thesis by (auto simp: overlay_def nth_Cons')
  qed
qed

lemma store_bytes_overlay:
  "all_writable m a (length bs) \<Longrightarrow> length bs < 2 ^ 64 \<Longrightarrow>
     store_bytes m a bs = Ret (m\<lparr>mbytes := overlay (mbytes m) a bs\<rparr>)"
  unfolding all_writable_def
proof (induction bs arbitrary: m a)
  case (Cons b bs)
  then have w: "writable m a" "\<forall>i<length bs. writable m (a + 1 + of_nat i)"
    by (auto simp: all_less_Suc_shift algebra_simps)
  then have "\<forall>i<length bs. writable (m\<lparr>mbytes := (mbytes m)(a := b)\<rparr>) (a + 1 + of_nat i)"
    by (simp add: writable_def)
  from Cons.IH [OF this] w(1) Cons.prems(2) show ?case by (simp add: store8_def overlay_Cons fun_upd_def)
qed simp

lemma overlay_loaded: "length bs \<le> 2 ^ 64 \<Longrightarrow> loaded (overlay f a bs) a bs"
  by (auto simp: loaded_def overlay_def unat_of_nat)

text \<open>Two ranges of addresses that do not meet.\<close>

definition ranges_apart :: "addr \<Rightarrow> nat \<Rightarrow> addr \<Rightarrow> nat \<Rightarrow> bool" where
  "ranges_apart a n b k \<longleftrightarrow> (\<forall>x. \<not> (in_range x a n \<and> in_range x b k))"

lemma overlay_outside: "\<not> in_range x a (length bs) \<Longrightarrow> overlay f a bs x = f x"
  by (simp add: overlay_def in_range_def)

section \<open>What a patch changes\<close>

lemma mprot_set_page_uniform:
  assumes "page_uniform m"
  shows "mprot (set_page a p m) x = (if mapped m x \<and> PAGE_START x = PAGE_START a then Some p else mprot m x)"
proof (cases "PAGE_START x = PAGE_START a")
  case True
  then have "mapped m x = mapped m a" unfolding mapped_def by (simp add: page_uniformD [OF assms True])
  with True show ?thesis by (simp add: mprot_set_page)
qed (simp add: mprot_set_page)

lemma page_uniform_update [simp]: "page_uniform (m\<lparr>mbytes := f\<rparr>) = page_uniform m"
  by (simp add: page_uniform_def)

lemma mapped_update [simp]: "mapped (m\<lparr>mbytes := f\<rparr>) = mapped m"
  by (rule ext) (simp add: mapped_def)

definition on_pages :: "addr \<Rightarrow> addr \<Rightarrow> addr \<Rightarrow> bool" where
  "on_pages a e x \<longleftrightarrow> PAGE_START x = PAGE_START a \<or> PAGE_START x = PAGE_START e"

text \<open>The pages of \<open>a\<close> and \<open>e\<close> get the protection \<open>p\<close>.\<close>

definition set_pages :: "addr \<Rightarrow> addr \<Rightarrow> u32 \<Rightarrow> memory \<Rightarrow> memory" where
  "set_pages a e p m = m\<lparr>mprot := (\<lambda>x. if mapped m x \<and> on_pages a e x then Some p else mprot m x)\<rparr>"

lemma set_pages_props [simp]: "mbytes (set_pages a e p m) = mbytes m" "mapped (set_pages a e p m) = mapped m"
  by (simp_all add: set_pages_def fun_eq_iff mapped_def)

lemma set_pages_uniform:
  assumes "page_uniform m"
  shows "page_uniform (set_pages a e p m)"
  unfolding page_uniform_def
proof (intro allI impI)
  fix x y
  assume xy: "PAGE_START x = PAGE_START y"
  then have "mprot m x = mprot m y" by (rule page_uniformD [OF assms])
  with xy show "mprot (set_pages a e p m) x = mprot (set_pages a e p m) y"
    by (simp add: set_pages_def on_pages_def mapped_def)
qed

lemma set_two_pages:
  assumes "page_uniform m"
  shows "(if PAGE_START a \<noteq> PAGE_START e then set_page e p (set_page a p m) else set_page a p m) = set_pages a e p m"
proof (rule memory.equality)
  show "mprot (if PAGE_START a \<noteq> PAGE_START e then set_page e p (set_page a p m) else set_page a p m) =
      mprot (set_pages a e p m)"
    by (rule ext) (auto simp: set_pages_def on_pages_def mprot_set_page_uniform assms page_uniform_set_page)
qed (simp_all add: set_pages_def)

lemma set_pages_twice: "set_pages a e p (set_pages a e q m) = set_pages a e p m"
  by (rule memory.equality) (simp_all add: set_pages_def fun_eq_iff mapped_def)

lemma set_pages_bytes: "set_pages a e p (m\<lparr>mbytes := f\<rparr>) = (set_pages a e p m)\<lparr>mbytes := f\<rparr>"
  by (rule memory.equality) (simp_all add: set_pages_def mapped_def fun_eq_iff)

lemma page_between:
  assumes "unat a + n < 2 ^ 64" "n \<le> 0x1000" "i \<le> n"
  shows "on_pages a (a + of_nat n) (a + of_nat i)"
proof -
  have u: "unat (a + of_nat k) = unat a + k" if "k \<le> n" for k
    using that assms(1) by (simp add: unat_word_ariths unat_of_nat)
  have "(unat a + i) div 4096 = unat a div 4096 \<or> (unat a + i) div 4096 = (unat a + n) div 4096"
  proof -
    have d: "(unat a + k) div 4096 = unat a div 4096 + (unat a mod 4096 + k) div 4096" for k
    proof -
      have "unat a + k = (unat a mod 4096 + k) + unat a div 4096 * 4096" by simp
      then show ?thesis by (simp only: div_mult_self1 numeral_neq_zero not_False_eq_True)
    qed
    show ?thesis
    proof (cases "unat a mod 4096 + i < 4096")
      case True
      then show ?thesis by (simp add: d)
    next
      case False
      have "unat a mod 4096 < 4096" by simp
      with False assms(2,3) have "(unat a mod 4096 + i) div 4096 = 1" "(unat a mod 4096 + n) div 4096 = 1"
        by (simp_all add: div_nat_eqI)
      then show ?thesis by (simp add: d)
    qed
  qed
  then show ?thesis by (auto simp: on_pages_def word_unat_eq_iff unat_PAGE_START u assms(3))
qed

abbreviation RWX :: u32 where "RWX \<equiv> PROT_READ OR PROT_WRITE OR PROT_EXEC"
abbreviation RX :: u32 where "RX \<equiv> PROT_READ OR PROT_EXEC"

lemma store_bytes_fails: "\<not> all_writable m a (length bs) \<Longrightarrow> store_bytes m a bs = Segv"
proof (induction bs arbitrary: m a)
  case (Cons b bs)
  show ?case
  proof (cases "writable m a")
    case True
    then have "\<not> all_writable (m\<lparr>mbytes := (mbytes m)(a := b)\<rparr>) (a + 1) (length bs)"
      using Cons.prems by (auto simp: all_writable_def writable_def all_less_Suc_shift algebra_simps)
    from Cons.IH [OF this] True show ?thesis by (simp add: store8_def fun_upd_def)
  qed (simp add: store8_def)
qed (simp add: all_writable_def)

text \<open>
  A patch writes through the page of its first byte and the page behind its last, and through
  whatever else is writable; it faults at any other byte.
\<close>

lemma code_patch_cases:
  assumes "kernel_ok env" "page_uniform m" "unat len \<le> length buf"
    and "\<And>i. i < unat len \<Longrightarrow> mapped m (a + of_nat i)"
  shows "DobbyCodePatch env a buf len m =
    (if \<forall>i<unat len. on_pages a (a + ucast len) (a + of_nat i) \<or> writable m (a + of_nat i)
     then Ok ((set_pages a (a + ucast len) RX m)\<lparr>mbytes := overlay (mbytes m) a (take (unat len) buf)\<rparr>)
     else Sigsegv)"
proof -
  let ?e = "a + ucast len" and ?n = "unat len"
  have pg: "env_page env = 0x1000" by (rule kernel_okD(1) [OF assms(1)])
  have two: "(if PAGE_START a \<noteq> PAGE_START ?e
        then mprotect env (PAGE_START ?e) 0x1000 p (mprotect env (PAGE_START a) 0x1000 p m')
        else mprotect env (PAGE_START a) 0x1000 p m') = set_pages a ?e p m'" if "page_uniform m'" for p m'
  proof -
    have "mprotect env (PAGE_START a) 0x1000 p m' = set_page a p m'"
      "mprotect env (PAGE_START ?e) 0x1000 p (set_page a p m') = set_page ?e p (set_page a p m')"
      by (rule mprotect_page [OF assms(1)], rule that, rule mprotect_page [OF assms(1)], rule page_uniform_set_page [OF that])
    then show ?thesis by (simp only: set_two_pages [OF that])
  qed
  let ?m2 = "set_pages a ?e RWX m" and ?bs = "take ?n buf"
  have len: "length ?bs = ?n" "?n < 2 ^ 64" using assms(3) unsigned_less [of len, where 'a = nat] by simp_all
  have "writable ?m2 (a + of_nat i) \<longleftrightarrow> on_pages a ?e (a + of_nat i) \<or> writable m (a + of_nat i)" if "i < ?n" for i
    using assms(4) [OF that] by (simp add: writable_def set_pages_def prot_defs small_bits)
  then have w: "all_writable ?m2 a ?n \<longleftrightarrow> (\<forall>i<?n. on_pages a ?e (a + of_nat i) \<or> writable m (a + of_nat i))"
    by (simp add: all_writable_def)
  have patch: "DobbyCodePatch env a buf len m = obind (memcpy ?m2 a buf ?n) (\<lambda>m3.
      Ok (if PAGE_START a \<noteq> PAGE_START ?e
        then mprotect env (PAGE_START ?e) 0x1000 RX (mprotect env (PAGE_START a) 0x1000 RX m3)
        else mprotect env (PAGE_START a) 0x1000 RX m3))"
    unfolding DobbyCodePatch_def pg Let_def PAGE_START_eq [symmetric] two [OF assms(2)] by simp
  show ?thesis
  proof (cases "all_writable ?m2 a ?n")
    case True
    then have "store_bytes ?m2 a ?bs = Ret (?m2\<lparr>mbytes := overlay (mbytes ?m2) a ?bs\<rparr>)"
      by (intro store_bytes_overlay) (use len in simp_all)
    then have cpy: "memcpy ?m2 a buf ?n = Ok (?m2\<lparr>mbytes := overlay (mbytes m) a ?bs\<rparr>)"
      using assms(3) by (simp add: memcpy_def)
    show ?thesis
      unfolding patch cpy obind.simps if_P [OF True [unfolded w]]
      by (subst two) (simp_all add: set_pages_uniform assms(2) set_pages_bytes set_pages_twice)
  next
    case False
    then have "store_bytes ?m2 a ?bs = Segv" using store_bytes_fails [of ?m2 a ?bs] unfolding len(1) by blast
    then have cpy: "memcpy ?m2 a buf ?n = Sigsegv" using assms(3) by (simp add: memcpy_def)
    show ?thesis unfolding patch cpy obind.simps if_not_P [OF False [unfolded w]] ..
  qed
qed

lemma short_patch_on_pages:
  assumes "unat a + unat (len :: u32) < 2 ^ 64" "unat len \<le> 0x1000" "i < unat len"
  shows "on_pages a (a + ucast len) (a + of_nat i)"
proof -
  have "a + ucast len = a + of_nat (unat len)" by simp
  then show ?thesis using page_between [OF assms(1,2), of i] assms(3) by simp
qed

lemma code_patch:
  assumes "kernel_ok env" "page_uniform m" "unat len \<le> length buf" "unat len \<le> 0x1000"
    and "unat a + unat len < 2 ^ 64" "\<And>i. i < unat len \<Longrightarrow> mapped m (a + of_nat i)"
  shows "DobbyCodePatch env a buf len m =
    Ok ((set_pages a (a + ucast len) RX m)\<lparr>mbytes := overlay (mbytes m) a (take (unat len) buf)\<rparr>)"
  using code_patch_cases [OF assms(1-3,6)] short_patch_on_pages [OF assms(5,4)] by auto

end
