(* ===== verification/Db_Alloc.thy ===== *)
theory Db_Alloc
  imports Db_Patch
begin

unbundle bit_operations_syntax

text \<open>
  Correctness of Dobby's allocator of executable memory: its blocks lie in mapped arenas and never
  overlap, a request of at most a page is served when the kernel gives a page, and assembled code
  ends up in a block of its own.
\<close>

section \<open>Arenas\<close>

definition arena_wf :: "MemoryArena \<Rightarrow> bool" where
  "arena_wf a \<longleftrightarrow> ma_addr a = mr_start a \<and> mr_end a = mr_start a + mr_size a \<and>
     unat (mr_start a) + unat (mr_size a) < 2 ^ 64 \<and> mr_start a \<le> cursor_addr a \<and> cursor_addr a \<le> mr_end a"

definition region :: "('z MemRange_scheme) \<Rightarrow> addr set" where
  "region r = {mr_start r ..< mr_end r}"

definition used_part :: "MemoryArena \<Rightarrow> addr set" where
  "used_part a = {mr_start a ..< cursor_addr a}"

definition regions :: "MemoryArena list \<Rightarrow> addr set" where
  "regions as = (\<Union>a\<in>set as. region a)"

definition used_in :: "MemoryArena list \<Rightarrow> addr set" where
  "used_in as = (\<Union>a\<in>set as. used_part a)"

text \<open>Well-formed arenas that do not overlap.\<close>

definition arenas_ok :: "MemoryArena list \<Rightarrow> bool" where
  "arenas_ok as \<longleftrightarrow> list_all arena_wf as \<and> sorted_wrt (\<lambda>a b. region a \<inter> region b = {}) as"

text \<open>\<open>block_of b n\<close>: the block has \<open>n\<close> bytes and does not wrap.\<close>

definition block_of :: "MemBlock \<Rightarrow> u64 \<Rightarrow> bool" where
  "block_of b n \<longleftrightarrow> mb_addr b = mr_start b \<and> mr_end b = mr_start b + n \<and> mr_size b = n \<and>
     unat (mr_start b) + unat n < 2 ^ 64"

lemma region_simps [simp]: "regions [] = {}" "regions (a # as) = region a \<union> regions as"
  "regions (as @ bs) = regions as \<union> regions bs" "used_in [] = {}"
  "used_in (a # as) = used_part a \<union> used_in as" "used_in (as @ bs) = used_in as \<union> used_in bs"
  by (auto simp: regions_def used_in_def)

lemma used_in_regions: "list_all arena_wf as \<Longrightarrow> used_in as \<subseteq> regions as"
  by (induction as) (auto simp: arena_wf_def used_part_def region_def)

lemma allocMemBlock_fits:
  assumes "arena_wf a" "allocMemBlock n a = (Some b, a')"
  shows "arena_wf a'" "region a' = region a" "used_part a' = used_part a \<union> region b" "used_part a \<inter> region b = {}"
    "region b \<subseteq> region a" "block_of b n"
proof -
  have wf: "ma_addr a = mr_start a" "mr_end a = mr_start a + mr_size a"
    "unat (mr_start a) + unat (mr_size a) < 2 ^ 64" "mr_start a \<le> cursor_addr a" "cursor_addr a \<le> mr_end a"
    using assms(1) unfolding arena_wf_def by blast+
  from assms(2) have room: "n \<le> mr_end a - cursor_addr a" and b: "b = new_MemBlock (cursor_addr a) n"
    and a': "a' = a\<lparr>cursor_addr := cursor_addr a + n\<rparr>" by (auto simp: allocMemBlock_def split: if_splits)
  have "unat n \<le> unat (mr_end a) - unat (cursor_addr a)" using room wf(5)
    by (simp add: word_le_nat_alt unat_sub)
  then have u: "unat (cursor_addr a) + unat n \<le> unat (mr_end a)" using wf(5) by (simp add: word_le_nat_alt)
  then have c: "unat (cursor_addr a + n) = unat (cursor_addr a) + unat n"
    using unat_u64_less [of "mr_end a"] by (simp add: unat_word_ariths)
  then have le: "cursor_addr a \<le> cursor_addr a + n" "cursor_addr a + n \<le> mr_end a"
    using u by (simp_all add: word_le_nat_alt)
  show "arena_wf a'" unfolding arena_wf_def a' using wf le by simp
  show "region a' = region a" by (simp add: a' region_def)
  show "used_part a' = used_part a \<union> region b"
    using wf(4) le(1) by (auto simp: a' b used_part_def region_def new_MemBlock_def)
  show "used_part a \<inter> region b = {}" by (auto simp: b used_part_def region_def new_MemBlock_def)
  show "region b \<subseteq> region a" using wf(4) le by (auto simp: b region_def new_MemBlock_def)
  show "block_of b n" using u unat_u64_less [of "mr_end a"] by (simp add: b block_of_def new_MemBlock_def)
qed

lemma allocMemBlock_None: "allocMemBlock n a = (None, a') \<Longrightarrow> a' = a"
  by (auto simp: allocMemBlock_def split: if_splits)

text \<open>\<open>takes as b as'\<close>: the block \<open>b\<close> was cut from unused room of the arenas.\<close>

definition takes :: "MemoryArena list \<Rightarrow> MemBlock \<Rightarrow> u64 \<Rightarrow> MemoryArena list \<Rightarrow> bool" where
  "takes as b n as' \<longleftrightarrow> list_all arena_wf as' \<and> map region as' = map region as \<and>
     used_in as' = used_in as \<union> region b \<and> used_in as \<inter> region b = {} \<and> region b \<subseteq> regions as \<and> block_of b n"

lemma regions_map: "map region as = map region bs \<Longrightarrow> regions as = regions bs"
  unfolding regions_def by (metis image_set)

lemma arenas_ok_regions:
  assumes "list_all arena_wf as'" "map region as' = map region as" "arenas_ok as"
  shows "arenas_ok as'"
proof -
  have "sorted_wrt (\<lambda>A B. A \<inter> B = {}) (map region as)"
    using assms(3) by (simp add: arenas_ok_def sorted_wrt_map)
  then have "sorted_wrt (\<lambda>A B. A \<inter> B = {}) (map region as')" by (simp only: assms(2))
  with assms(1) show ?thesis by (simp add: arenas_ok_def sorted_wrt_map)
qed

lemma arenas_ok_Cons: "arenas_ok (a # as) \<longleftrightarrow> arena_wf a \<and> region a \<inter> regions as = {} \<and> arenas_ok as"
  by (auto simp: arenas_ok_def regions_def)

lemma takes_head:
  assumes "arenas_ok (a # as)" "allocMemBlock n a = (Some b, a')"
  shows "takes (a # as) b n (a' # as)"
proof -
  note a = assms(1) [unfolded arenas_ok_Cons]
  note f = allocMemBlock_fits [OF _ assms(2)]
  have "used_in as \<inter> region b = {}"
    using used_in_regions [of as] f(5) a by (auto simp: arenas_ok_def)
  then show ?thesis using f a by (auto simp: takes_def arenas_ok_def)
qed

lemma takes_tail:
  assumes "arenas_ok (a # as)" "takes as b n as'"
  shows "takes (a # as) b n (a # as')"
proof -
  note a = assms(1) [unfolded arenas_ok_Cons]
  note t = assms(2) [unfolded takes_def]
  have "used_part a \<subseteq> region a" using a by (auto simp: used_part_def region_def arena_wf_def)
  then have "used_part a \<inter> region b = {}" using a t by blast
  then show ?thesis using a t by (auto simp: takes_def)
qed

lemma alloc_loop_takes:
  "arenas_ok as \<Longrightarrow> alloc_loop n as = (Some b, as') \<Longrightarrow> takes as b n as'"
proof (induction as arbitrary: as')
  case (Cons a as)
  show ?case
  proof (cases "allocMemBlock n a")
    case (Pair r a')
    show ?thesis
    proof (cases r)
      case None
      then have "a' = a" using allocMemBlock_None Pair by blast
      with Pair None Cons show ?thesis
        by (auto simp: arenas_ok_Cons split: prod.splits intro!: takes_tail)
    next
      case (Some b')
      with Pair Cons.prems show ?thesis by (auto intro: takes_head)
    qed
  qed
qed simp

lemma alloc_loop_None: "alloc_loop n as = (None, as') \<Longrightarrow> as' = as"
  by (induction as arbitrary: as') (auto split: prod.splits option.splits dest: allocMemBlock_None)

section \<open>The invariant of the allocator\<close>

definition arenas_of :: "'s mem_state_scheme \<Rightarrow> MemoryArena list" where
  "arenas_of st = code_arenas st @ data_arenas st"

definition alloc_inv :: "'e dobby_env_scheme \<Rightarrow> 's mem_state_scheme \<Rightarrow> bool" where
  "alloc_inv env st \<longleftrightarrow> kernel_ok env \<and> page_uniform (pmem st) \<and> \<not> mapped (pmem st) 0 \<and> arenas_ok (arenas_of st) \<and>
     (\<forall>x\<in>regions (arenas_of st). mapped (pmem st) x)"

definition used :: "'s mem_state_scheme \<Rightarrow> addr set" where
  "used st = used_in (arenas_of st)"

lemma in_region_iff:
  fixes a n x :: u64
  assumes "unat a + unat n < 2 ^ 64"
  shows "x \<in> {a ..< a + n} \<longleftrightarrow> x - a < n"
proof -
  have u: "unat (a + n) = unat a + unat n" using assms by (simp add: unat_word_ariths)
  have "x - a < n \<longleftrightarrow> a \<le> x \<and> unat x < unat a + unat n"
  proof (cases "a \<le> x")
    case True
    then show ?thesis by (simp add: word_less_nat_alt unat_sub word_le_nat_alt) arith
  next
    case False
    then have "unat (x - a) = unat x + 2 ^ 64 - unat a" by (simp add: unat_sub_if' word_le_nat_alt)
    with False assms show ?thesis by (simp add: word_less_nat_alt)
  qed
  then show ?thesis by (simp add: word_less_nat_alt u)
qed

text \<open>Memory that only gained mappings: a mapped address keeps its contents and protection.\<close>

definition grows :: "memory \<Rightarrow> memory \<Rightarrow> bool" where
  "grows m m' \<longleftrightarrow> page_uniform m' \<and> (\<forall>x. mapped m x \<longrightarrow> mprot m' x = mprot m x \<and> mbytes m' x = mbytes m x)"

lemma aligned_pages:
  fixes a len :: u64
  assumes "PAGE_START a = a" "len mod 0x1000 = 0" "unat a + unat len < 2 ^ 64" "PAGE_START x = PAGE_START y" "x - a < len"
  shows "y - a < len"
proof -
  have "unat a mod 4096 = 0" using arg_cong [OF assms(1), of unat] unat_PAGE_START [of a]
    by (metis mod_mult_self2_is_0)
  then obtain k where k: "unat a = 4096 * k" by auto
  have "unat len mod 4096 = 0" using arg_cong [OF assms(2), of unat] by (simp add: unat_mod)
  then obtain j where j: "unat len = 4096 * j" by auto
  have "a \<le> x \<and> unat x < unat a + unat len"
    using assms(5) in_region_iff [OF assms(3), of x] assms(3) by (auto simp: word_less_nat_alt unat_word_ariths)
  then have x: "4096 * k \<le> unat x" "unat x < 4096 * (k + j)" using k j by (simp_all add: word_le_nat_alt)
  have "unat x div 4096 = unat y div 4096" using assms(4) by (auto simp: word_unat_eq_iff unat_PAGE_START)
  moreover have "k \<le> unat x div 4096" "unat x div 4096 < k + j"
    using x by (simp_all add: less_eq_div_iff_mult_less_eq div_less_iff_less_mult mult.commute)
  ultimately have "k \<le> unat y div 4096" "unat y div 4096 < k + j" by simp_all
  then have "4096 * k \<le> unat y" "unat y < 4096 * (k + j)"
    by (simp_all add: less_eq_div_iff_mult_less_eq div_less_iff_less_mult mult.commute)
  then show ?thesis using in_region_iff [OF assms(3), of y] assms(3) k j
    by (auto simp: word_less_nat_alt word_le_nat_alt unat_word_ariths)
qed

text \<open>A fresh arena: mapped, given its protection, and appended.\<close>

lemma fresh_arena:
  assumes inv: "alloc_inv env st" and len: "len mod 0x1000 = 0"
    and all: "OSMemory_Allocate env len kNoAccess 0 (pmem st) = (a, m)" "a \<noteq> 0"
    and prot: "OSMemory_SetPermission env a len access m = (ok, m')"
  shows "ok" "grows (pmem st) m'" "unat a + unat len < 2 ^ 64" "PAGE_START a = a"
    "\<And>x. x - a < len \<Longrightarrow> \<not> mapped (pmem st) x \<and> mprot m' x = Some (GetProtectionFromMemoryPermission access)"
    "\<And>x. \<not> x - a < len \<Longrightarrow> mprot m' x = mprot (pmem st) x"
proof -
  have k: "kernel_ok env" and u: "page_uniform (pmem st)" using inv by (simp_all add: alloc_inv_def)
  have "env_mmap env (pmem st) 0 len 0 False = (Some a, m)"
    using all by (auto simp: OSMemory_Allocate_def split: prod.splits option.splits)
  from kernel_okD(4) [OF k this len]
  have mm: "mmapped (pmem st) a len 0 m" and new: "\<forall>x. x - a < len \<longrightarrow> \<not> mapped (pmem st) x" by simp_all
  then show al: "PAGE_START a = a" and nw: "unat a + unat len < 2 ^ 64" by (simp_all add: mmapped_def)
  have m: "mprot m = mprot (mprotected (pmem st) a len 0)" "\<And>x. \<not> x - a < len \<Longrightarrow> mbytes m x = mbytes (pmem st) x"
    using mm by (simp_all add: mmapped_def)
  have "mapped m x" if "x - a < len" for x using that by (simp add: mapped_def m mprotected_def)
  then have "fst (os_mprotect env m a len p) = 0 \<and> snd (snd (os_mprotect env m a len p)) = mprotected m a len p" for p
    by (intro kernel_okD(2) [OF k al])
  then have m': "m' = mprotected m a len (GetProtectionFromMemoryPermission access)" and "ok"
    using prot by (auto simp: OSMemory_SetPermission_def split: prod.splits) (metis fst_conv snd_conv)+
  show "ok" by fact
  show in': "\<not> mapped (pmem st) x \<and> mprot m' x = Some (GetProtectionFromMemoryPermission access)" if "x - a < len" for x
    using that new by (simp add: m' mprotected_def)
  show out: "mprot m' x = mprot (pmem st) x" if "\<not> x - a < len" for x
    using that by (simp add: m' m mprotected_def)
  have "page_uniform m'"
    unfolding page_uniform_def
  proof (intro allI impI)
    fix x y
    assume xy: "PAGE_START x = PAGE_START y"
    then have "x - a < len \<longleftrightarrow> y - a < len"
      using aligned_pages [OF al len nw xy] aligned_pages [OF al len nw xy [symmetric]] by blast
    then show "mprot m' x = mprot m' y"
      using in' [of x] in' [of y] out [of x] out [of y] page_uniformD [OF u xy] by (cases "x - a < len") auto
  qed
  moreover have "mprot m' x = mprot (pmem st) x \<and> mbytes m' x = mbytes (pmem st) x" if "mapped (pmem st) x" for x
  proof -
    have "\<not> x - a < len" using that in' [of x] by blast
    then show ?thesis using out [of x] m(2) [of x] by (simp add: m' mprotected_def)
  qed
  ultimately show "grows (pmem st) m'" by (simp add: grows_def)
qed

lemma arenas_ok_append:
  "arenas_ok (as @ bs) \<longleftrightarrow> arenas_ok as \<and> arenas_ok bs \<and> regions as \<inter> regions bs = {}"
  by (induction as) (auto simp: arenas_ok_Cons, auto simp: arenas_ok_def)

lemma takes_ok: "arenas_ok as \<Longrightarrow> takes as b n as' \<Longrightarrow> arenas_ok as' \<and> regions as' = regions as"
  using arenas_ok_regions regions_map unfolding takes_def by blast

text \<open>\<open>takes\<close> in one part of the arenas is \<open>takes\<close> in all of them.\<close>

lemma takes_append:
  assumes "arenas_ok (as @ bs)"
  shows "takes as b n as' \<Longrightarrow> takes (as @ bs) b n (as' @ bs)" "takes bs b n bs' \<Longrightarrow> takes (as @ bs) b n (as @ bs')"
proof -
  have w: "list_all arena_wf as" "list_all arena_wf bs" "regions as \<inter> regions bs = {}"
    using assms [unfolded arenas_ok_append] by (auto simp: arenas_ok_def)
  note u = used_in_regions [OF w(1)] used_in_regions [OF w(2)]
  show "takes as b n as' \<Longrightarrow> takes (as @ bs) b n (as' @ bs)" using w u unfolding takes_def by auto
  show "takes bs b n bs' \<Longrightarrow> takes (as @ bs) b n (as @ bs')" using w u unfolding takes_def by auto
qed

lemma takes_inv:
  assumes "alloc_inv env st" "takes (arenas_of st) b n (arenas_of st')" "pmem st' = pmem st"
  shows "alloc_inv env st' \<and> block_of b n \<and> region b \<inter> used st = {} \<and> used st' = used st \<union> region b \<and>
    (\<forall>x\<in>region b. mapped (pmem st') x) \<and> grows (pmem st) (pmem st') \<and> region b \<subseteq> regions (arenas_of st)"
  using assms takes_ok [OF _ assms(2)] unfolding alloc_inv_def takes_def used_def grows_def by auto

lemma new_arena_wf:
  "unat a + unat len < 2 ^ 64 \<Longrightarrow> arena_wf (new_MemoryArena a len) \<and> used_part (new_MemoryArena a len) = {} \<and>
     region (new_MemoryArena a len) = {a ..< a + len}"
proof -
  assume "unat a + unat len < 2 ^ 64"
  moreover from this have "a \<le> a + len" by (simp add: word_le_nat_alt unat_word_ariths)
  ultimately show ?thesis by (simp add: arena_wf_def new_MemoryArena_def used_part_def region_def)
qed

text \<open>Memory that the kernel may give to the allocator.\<close>

definition kernel_gives :: "'e dobby_env_scheme \<Rightarrow> addr \<Rightarrow> bool" where
  "kernel_gives env x \<longleftrightarrow> (\<exists>len m a m'. OSMemory_Allocate env len kNoAccess 0 m = (a, m') \<and> a \<noteq> 0 \<and> x - a < len)"

text \<open>Appending a fresh arena keeps the invariant.\<close>

lemma new_arena_inv:
  assumes "alloc_inv env st" "len mod 0x1000 = 0"
    and "OSMemory_Allocate env len kNoAccess 0 (pmem st) = (a, m)" "a \<noteq> 0"
    and "OSMemory_SetPermission env a len access m = (ok, m')"
    and "arenas_of st' = as @ [new_MemoryArena a len] @ bs" "as @ bs = arenas_of st" "pmem st' = m'"
  shows "alloc_inv env st' \<and> grows (pmem st) (pmem st') \<and> used st' = used st \<and>
    (\<forall>x\<in>region (new_MemoryArena a len). \<not> mapped (pmem st) x \<and> kernel_gives env x)"
proof -
  note f = fresh_arena [OF assms(1-5)]
  note n = new_arena_wf [OF f(3)]
  have inv: "kernel_ok env" "page_uniform (pmem st)" "\<not> mapped (pmem st) 0" "arenas_ok (as @ bs)"
    "\<And>x. x \<in> regions (as @ bs) \<Longrightarrow> mapped (pmem st) x"
    using assms(1) unfolding alloc_inv_def assms(7) by auto
  have r: "x \<in> region (new_MemoryArena a len) \<longleftrightarrow> x - a < len" for x
    using n in_region_iff [OF f(3), of x] by simp
  have disj: "region (new_MemoryArena a len) \<inter> regions (as @ bs) = {}" using r f(5) inv(5) by blast
  have map': "mapped (pmem st') x" if "x \<in> regions (arenas_of st')" for x
  proof (cases "x - a < len")
    case True
    then show ?thesis using f(5) by (simp add: mapped_def assms(8))
  next
    case False
    then have "x \<in> regions (as @ bs)" using that r by (auto simp: assms(6))
    from inv(5) [OF this] show ?thesis using f(6) [OF False] by (simp add: mapped_def assms(8))
  qed
  have "\<not> 0 - a < len"
  proof
    assume "0 - a < len"
    then have "0 \<in> {a ..< a + len}" using in_region_iff [OF f(3), of 0] by simp
    then show False using assms(4) by simp
  qed
  then have "\<not> mapped (pmem st') 0" using inv(3) f(6) [of 0] by (simp add: mapped_def assms(8))
  moreover have "arenas_ok (arenas_of st')"
    using inv(4) disj n by (auto simp: assms(6) arenas_ok_append arenas_ok_Cons)
  moreover have "used st' = used st" using n by (simp add: used_def assms(6) flip: assms(7))
  moreover have "page_uniform (pmem st')" using f(2) by (simp add: grows_def assms(8))
  moreover have "kernel_gives env x" if "x - a < len" for x using that assms(3,4) by (auto simp: kernel_gives_def)
  ultimately show ?thesis using inv(1) map' f(2,5) r by (auto simp: alloc_inv_def assms(8))
qed

lemma ceil_page: "ALIGN_CEIL a 0x1000 mod 0x1000 = 0"
proof -
  have "ALIGN_CEIL a 0x1000 = (a + 0x1000 - 1) AND NOT (mask 12)"
    by (simp add: ALIGN_CEIL_def mask_eq_exp_minus_1)
  also have "\<dots> = push_bit 12 (drop_bit 12 (a + 0x1000 - 1))" by (rule bit_word_eqI) (auto simp: bit_simps)
  finally have "take_bit 12 (ALIGN_CEIL a 0x1000) = 0" by (simp add: take_bit_push_bit)
  then show ?thesis by (simp add: take_bit_eq_mod)
qed

lemma ceil_page32: "ucast (ucast (ALIGN_CEIL a 0x1000) :: u32) mod (0x1000 :: u64) = 0"
proof -
  have "take_bit 12 (ALIGN_CEIL a 0x1000) = 0" using ceil_page [of a] by (simp add: take_bit_eq_mod)
  then have "take_bit 12 (ucast (ucast (ALIGN_CEIL a 0x1000) :: u32) :: u64) = 0"
    by (simp add: bit_eq_iff bit_simps)
  then show ?thesis by (simp add: take_bit_eq_mod)
qed

lemma alloc_last_snoc: "alloc_last n (as @ [a]) = (case allocMemBlock n a of (r, a') \<Rightarrow> (r, as @ [a']))"
  by (simp add: alloc_last_def)

lemma allocateCodeMemoryArena_inv:
  assumes "alloc_inv env st" "ucast sz mod (0x1000 :: u64) = 0" "allocateCodeMemoryArena env sz st = Ok (a, st1)" "ma_addr a \<noteq> 0"
  shows "alloc_inv env st1 \<and> grows (pmem st) (pmem st1) \<and> used st1 = used st \<and> (\<forall>x\<in>region a. \<not> mapped (pmem st) x \<and> kernel_gives env x)" "code_arenas st1 = code_arenas st @ [a]"
    "data_arenas st1 = data_arenas st"
proof -
  obtain b m ok m' where r: "OSMemory_Allocate env (ucast sz) kNoAccess 0 (pmem st) = (b, m)"
    "OSMemory_SetPermission env b (ucast sz) kReadExecute m = (ok, m')" by (metis surj_pair)
  have k: "env_page env = 0x1000" using assms(1) kernel_okD(1) by (auto simp: alloc_inv_def)
  from assms(3) have a: "a = new_MemoryArena b (ucast sz)" and st1: "st1 = st\<lparr>pmem := m', code_arenas := code_arenas st @ [a]\<rparr>"
    by (auto simp: allocateCodeMemoryArena_def r obind_eq_Ok Let_def)
  show ca: "code_arenas st1 = code_arenas st @ [a]" and da: "data_arenas st1 = data_arenas st" by (simp_all add: st1)
  have "b \<noteq> 0" using assms(4) by (simp add: a new_MemoryArena_def)
  from new_arena_inv [OF assms(1,2) r(1) this r(2), of st1 "code_arenas st" "data_arenas st"]
  show "alloc_inv env st1 \<and> grows (pmem st) (pmem st1) \<and> used st1 = used st \<and> (\<forall>x\<in>region a. \<not> mapped (pmem st) x \<and> kernel_gives env x)"
    by (simp add: arenas_of_def ca da a st1)
qed

lemma grows_refl: "page_uniform m \<Longrightarrow> grows m m"
  by (simp add: grows_def)

lemma grows_trans: "grows m1 m2 \<Longrightarrow> grows m2 m3 \<Longrightarrow> grows m1 m3"
  by (simp add: grows_def mapped_def)

text \<open>New arenas are made of memory that was not mapped.\<close>

definition new_room :: "'e dobby_env_scheme \<Rightarrow> 's mem_state_scheme \<Rightarrow> 's mem_state_scheme \<Rightarrow> bool" where
  "new_room env st st' \<longleftrightarrow>
     (\<forall>x\<in>regions (arenas_of st'). x \<in> regions (arenas_of st) \<or> \<not> mapped (pmem st) x \<and> kernel_gives env x)"

text \<open>A block that is not at address 0 was cut from unused room.\<close>

lemma allocateExecBlock_fresh:
  assumes "alloc_inv env st" "allocateExecBlock env sz st = Ok (Some b, st')" "mb_addr b \<noteq> 0"
  shows "alloc_inv env st' \<and> block_of b (ucast sz) \<and> region b \<inter> used st = {} \<and> used st' = used st \<union> region b \<and>
    (\<forall>x\<in>region b. mapped (pmem st') x) \<and> grows (pmem st) (pmem st') \<and>
    (\<forall>x\<in>region b. x \<in> regions (arenas_of st) \<or> \<not> mapped (pmem st) x) \<and> new_room env st st'"
proof (cases "alloc_loop (ucast sz) (code_arenas st)")
  case (Pair r as)
  have ok: "arenas_ok (code_arenas st @ data_arenas st)" using assms(1) by (simp add: alloc_inv_def arenas_of_def)
  show ?thesis
  proof (cases r)
    case (Some b')
    with Pair assms(2) have b: "b' = b" and st': "st' = st\<lparr>code_arenas := as\<rparr>" by (auto simp: allocateExecBlock_def)
    have "takes (code_arenas st) b (ucast sz) as"
      using alloc_loop_takes Pair Some b ok by (auto simp: arenas_ok_append)
    then have t: "takes (arenas_of st) b (ucast sz) (arenas_of st')"
      using takes_append(1) [OF ok] by (simp add: arenas_of_def st')
    have "regions (arenas_of st') = regions (arenas_of st)"
      using takes_ok [OF _ t] assms(1) by (simp add: alloc_inv_def)
    then show ?thesis using takes_inv [OF assms(1) t] by (auto simp: st' new_room_def)
  next
    case None
    then have as: "st\<lparr>code_arenas := as\<rparr> = st" using alloc_loop_None Pair by fastforce
    have pg: "env_page env = 0x1000" using assms(1) kernel_okD(1) by (auto simp: alloc_inv_def)
    let ?len = "ucast (ALIGN_CEIL (ucast sz) 0x1000) :: u32"
    from assms(2) Pair None as pg have "sbind (allocateCodeMemoryArena env ?len st) (\<lambda>_ st.
          case alloc_last (ucast sz) (code_arenas st) of (blk, as) \<Rightarrow>
          obind (CHECK (env_ndebug env) (blk \<noteq> None)) (\<lambda>_. Ok (blk, st\<lparr>code_arenas := as\<rparr>))) = Ok (Some b, st')"
      by (simp add: allocateExecBlock_def)
    then obtain a st1 where a: "allocateCodeMemoryArena env ?len st = Ok (a, st1)" and
      r: "(case alloc_last (ucast sz) (code_arenas st1) of (blk, as) \<Rightarrow>
          obind (CHECK (env_ndebug env) (blk \<noteq> None)) (\<lambda>_. Ok (blk, st1\<lparr>code_arenas := as\<rparr>))) = Ok (Some b, st')"
      unfolding sbind_def obind_eq_Ok by auto
    obtain as' where l: "alloc_last (ucast sz) (code_arenas st1) = (Some b, as')" and st': "st' = st1\<lparr>code_arenas := as'\<rparr>"
      using r by (cases "alloc_last (ucast sz) (code_arenas st1)") (auto simp: obind_eq_Ok)
    from a have ca: "code_arenas st1 = code_arenas st @ [a]"
      by (auto simp: allocateCodeMemoryArena_def obind_eq_Ok Let_def split: prod.splits)
    obtain a' where a': "allocMemBlock (ucast sz) a = (Some b, a')" "as' = code_arenas st @ [a']"
      using l by (auto simp: ca alloc_last_snoc split: prod.splits)
    have "ma_addr a = cursor_addr a"
      using a by (auto simp: allocateCodeMemoryArena_def obind_eq_Ok Let_def new_MemoryArena_def split: prod.splits)
    moreover have "mb_addr b = cursor_addr a" using a'(1) by (auto simp: allocMemBlock_def new_MemBlock_def split: if_splits)
    ultimately have "ma_addr a \<noteq> 0" using assms(3) by simp
    note s1 = allocateCodeMemoryArena_inv [OF assms(1) ceil_page32 a this]
    have ok1: "arenas_ok (code_arenas st1 @ data_arenas st1)" using s1(1) by (simp add: alloc_inv_def arenas_of_def)
    have ok2: "arenas_ok (code_arenas st @ [a])" using ok1 unfolding ca arenas_ok_append by simp
    then have "arenas_ok [a]" unfolding arenas_ok_append by simp
    then have "takes [a] b (ucast sz) [a']" by (rule takes_head [OF _ a'(1)])
    then have "takes (code_arenas st1) b (ucast sz) as'"
      unfolding ca a'(2) by (rule takes_append(2) [OF ok2])
    then have tk: "takes (arenas_of st1) b (ucast sz) (arenas_of st')"
      using takes_append(1) [OF ok1] by (simp add: arenas_of_def st')
    have same: "regions (arenas_of st') = regions (arenas_of st1)"
      using takes_ok [OF _ tk] s1(1) by (simp add: alloc_inv_def)
    from tk s1(1) takes_inv [of env st1 b "ucast sz" st'] have t: "alloc_inv env st' \<and> block_of b (ucast sz) \<and> region b \<inter> used st1 = {} \<and>
        used st' = used st1 \<union> region b \<and> (\<forall>x\<in>region b. mapped (pmem st') x) \<and> grows (pmem st1) (pmem st') \<and>
        region b \<subseteq> regions (arenas_of st1)" by (simp add: st')
    have old: "x \<in> regions (arenas_of st) \<or> \<not> mapped (pmem st) x \<and> kernel_gives env x" if "x \<in> regions (arenas_of st1)" for x
      using that s1 by (auto simp: arenas_of_def)
    then have "\<forall>x\<in>region b. x \<in> regions (arenas_of st) \<or> \<not> mapped (pmem st) x" using t by blast
    moreover have "new_room env st st'" using old same by (simp add: new_room_def)
    ultimately show ?thesis using t s1(1) grows_trans by auto
  qed
qed

section \<open>Availability\<close>

lemma unat_ceil_page:
  assumes "unat (a :: u64) + 0xFFF < 2 ^ 64"
  shows "unat (ALIGN_CEIL a 0x1000) = (unat a + 0xFFF) div 4096 * 4096"
proof -
  have u: "unat (a + 0xFFF) = unat a + 0xFFF" using assms by (simp add: unat_word_ariths)
  have "ALIGN_CEIL a 0x1000 = PAGE_START (a + 0xFFF)"
    by (simp add: ALIGN_CEIL_def PAGE_START_def PAGE_MASK_def PAGE_SIZE_def add.commute)
  then show ?thesis by (simp add: unat_PAGE_START u)
qed

lemma ceil_page32_ge:
  assumes "unat (sz :: u32) \<le> 2 ^ 32 - 0x1000"
  shows "ucast sz \<le> (ucast (ucast (ALIGN_CEIL (ucast sz) 0x1000) :: u32) :: u64)"
proof -
  have s: "unat (ucast sz :: u64) = unat sz"
    using unsigned_less [of sz, where 'a = nat] by (simp add: unsigned_ucast_eq take_bit_nat_eq_self)
  define c where "c = (unat sz + 0xFFF) div 4096 * 4096"
  have ge: "n \<le> (n + 0xFFF) div 4096 * 4096" for n :: nat
    using div_mult_mod_eq [of "n + 0xFFF" 4096] mod_less_divisor [of 4096 "n + 0xFFF"] by linarith
  have "c \<le> unat sz + 0xFFF" unfolding c_def by (rule div_times_less_eq_dividend)
  then have lt: "c < 2 ^ 32" using assms by simp
  have "unat (ucast sz :: u64) + 0xFFF < 2 ^ 64" using assms by (simp add: s)
  then have "unat (ALIGN_CEIL (ucast sz) 0x1000) = c" by (simp only: unat_ceil_page s c_def)
  then have "unat (ucast (ucast (ALIGN_CEIL (ucast sz) 0x1000) :: u32) :: u64) = c"
    using lt by (simp add: unsigned_ucast_eq unsigned_take_bit_eq take_bit_nat_eq_self)
  then show ?thesis using ge [of "unat sz"] by (simp only: word_le_nat_alt s c_def)
qed

definition exec_arena_len :: "u32 \<Rightarrow> u64" where
  "exec_arena_len sz = ucast (ucast (ALIGN_CEIL (ucast sz) 0x1000) :: u32)"

lemma block_addr_in: "block_of b n \<Longrightarrow> n \<noteq> 0 \<Longrightarrow> mb_addr b \<in> region b"
  using in_region_iff [of "mr_start b" n "mr_start b"] by (simp add: block_of_def region_def word_neq_0_conv)

lemma unat_ucast32 [simp]: "unat (ucast (w :: u32) :: u64) = unat w"
  using unsigned_less [of w, where 'a = nat] by (simp add: unsigned_ucast_eq take_bit_nat_eq_self)

text \<open>An arena with \<open>n\<close> free bytes.\<close>

definition room_in :: "MemoryArena list \<Rightarrow> nat \<Rightarrow> bool" where
  "room_in as n \<longleftrightarrow> (\<exists>a\<in>set as. n \<le> unat (mr_end a - cursor_addr a))"

lemma room_in_Cons: "room_in (a # as) n \<longleftrightarrow> n \<le> unat (mr_end a - cursor_addr a) \<or> room_in as n"
  by (simp add: room_in_def)

lemma room_in_mono: "room_in as n \<Longrightarrow> m \<le> n \<Longrightarrow> room_in as m"
  unfolding room_in_def by (meson le_trans)

lemma alloc_loop_room: "room_in as (unat n) \<Longrightarrow> \<exists>b as'. alloc_loop n as = (Some b, as')"
proof (induction as)
  case (Cons a as)
  then show ?case
    by (cases "alloc_loop n as"; cases "mr_end a - cursor_addr a < n")
      (auto simp: room_in_Cons allocMemBlock_def word_less_nat_alt)
qed (simp add: room_in_def)

lemma alloc_loop_rest:
  "alloc_loop n as = (Some b, as') \<Longrightarrow> room_in as k \<Longrightarrow> room_in as' (k - unat n)"
proof (induction as arbitrary: as')
  case (Cons a as)
  show ?case
  proof (cases "mr_end a - cursor_addr a < n")
    case True
    with Cons.prems(1) obtain as1 where "alloc_loop n as = (Some b, as1)" "as' = a # as1"
      by (auto simp: allocMemBlock_def split: prod.splits)
    with Cons show ?thesis by (auto simp: room_in_Cons)
  next
    case False
    have "unat (mr_end a - cursor_addr a - n) = unat (mr_end a - cursor_addr a) - unat n"
      using False by (simp add: unat_sub)
    moreover have "as' = a\<lparr>cursor_addr := cursor_addr a + n\<rparr> # as" using False Cons.prems(1) by (simp add: allocMemBlock_def)
    ultimately show ?thesis using Cons.prems(2) room_in_mono [of as k "k - unat n"]
      by (auto simp: room_in_Cons diff_diff_eq)
  qed
qed (simp add: room_in_def)

lemma allocateExecBlock_serves:
  assumes "alloc_inv env st" "sz \<noteq> 0" "unat sz \<le> 2 ^ 32 - 0x1000"
    and "room_in (code_arenas st) (unat sz) \<or> fst (OSMemory_Allocate env (exec_arena_len sz) kNoAccess 0 (pmem st)) \<noteq> 0"
  shows "\<exists>b st'. allocateExecBlock env sz st = Ok (Some b, st') \<and> mb_addr b \<noteq> 0"
proof (cases "alloc_loop (ucast sz) (code_arenas st)")
  case (Pair r as)
  have sz0: "(ucast sz :: u64) \<noteq> 0" using assms(2) by (metis unat_ucast32 unat_eq_zero)
  show ?thesis
  proof (cases r)
    case (Some b)
    have ok: "arenas_ok (code_arenas st @ data_arenas st)" using assms(1) by (simp add: alloc_inv_def arenas_of_def)
    have "takes (code_arenas st) b (ucast sz) as"
      using alloc_loop_takes Pair Some ok by (auto simp: arenas_ok_append)
    then have "mb_addr b \<in> regions (arenas_of st)"
      using block_addr_in [OF _ sz0] by (auto simp: takes_def arenas_of_def)
    then have "mb_addr b \<noteq> 0" using assms(1) by (auto simp: alloc_inv_def)
    then show ?thesis using Pair Some by (auto simp: allocateExecBlock_def)
  next
    case None
    then have "\<not> room_in (code_arenas st) (unat sz)"
      using alloc_loop_room [of "code_arenas st" "ucast sz"] Pair by fastforce
    then have kern: "fst (OSMemory_Allocate env (exec_arena_len sz) kNoAccess 0 (pmem st)) \<noteq> 0" using assms(4) by blast
    from None have as: "st\<lparr>code_arenas := as\<rparr> = st" using alloc_loop_None Pair by fastforce
    have pg: "env_page env = 0x1000" using assms(1) kernel_okD(1) by (auto simp: alloc_inv_def)
    obtain a m ok m' where r: "OSMemory_Allocate env (exec_arena_len sz) kNoAccess 0 (pmem st) = (a, m)"
      "OSMemory_SetPermission env a (exec_arena_len sz) kReadExecute m = (ok, m')" by (metis surj_pair)
    let ?a = "new_MemoryArena a (exec_arena_len sz)"
    have "allocateCodeMemoryArena env (ucast (ALIGN_CEIL (ucast sz) 0x1000)) st =
        Ok (?a, st\<lparr>pmem := m', code_arenas := code_arenas st @ [?a]\<rparr>)"
      using ceil_page32 [of "ucast sz"] r
      by (simp add: allocateCodeMemoryArena_def CHECK_def pg exec_arena_len_def Let_def)
    moreover have "allocMemBlock (ucast sz) ?a = (Some (new_MemBlock a (ucast sz)), ?a\<lparr>cursor_addr := a + ucast sz\<rparr>)"
      using ceil_page32_ge [OF assms(3)] by (auto simp: allocMemBlock_def new_MemoryArena_def exec_arena_len_def)
    ultimately show ?thesis using Pair None as pg kern r(1)
      by (simp add: allocateExecBlock_def alloc_last_snoc CHECK_def new_MemBlock_def)
  qed
qed

text \<open>There always is a block; it is at address 0 only when the kernel gave no memory.\<close>

lemma allocateExecBlock_cases:
  assumes "alloc_inv env st" "unat sz \<le> 2 ^ 32 - 0x1000" "allocateExecBlock env sz st = Ok (r, st1)"
  shows "\<exists>b. r = Some b \<and> (mb_addr b = 0 \<longrightarrow> \<not> mapped (pmem st1) 0)"
proof (cases "alloc_loop (ucast sz) (code_arenas st)")
  case (Pair q as)
  have inv: "kernel_ok env" "\<not> mapped (pmem st) 0" using assms(1) by (simp_all add: alloc_inv_def)
  note pg = kernel_okD(1) [OF inv(1)]
  show ?thesis
  proof (cases q)
    case (Some b)
    then show ?thesis using Pair assms(3) inv(2) by (auto simp: allocateExecBlock_def)
  next
    case None
    then have as: "st\<lparr>code_arenas := as\<rparr> = st" using alloc_loop_None Pair by fastforce
    obtain a m ok m' where o: "OSMemory_Allocate env (exec_arena_len sz) kNoAccess 0 (pmem st) = (a, m)"
      "OSMemory_SetPermission env a (exec_arena_len sz) kReadExecute m = (ok, m')" by (metis surj_pair)
    let ?a = "new_MemoryArena a (exec_arena_len sz)"
    have "allocateCodeMemoryArena env (ucast (ALIGN_CEIL (ucast sz) 0x1000)) st =
        Ok (?a, st\<lparr>pmem := m', code_arenas := code_arenas st @ [?a]\<rparr>)"
      using ceil_page32 [of "ucast sz"] o
      by (simp add: allocateCodeMemoryArena_def CHECK_def pg exec_arena_len_def Let_def)
    moreover have "allocMemBlock (ucast sz) ?a = (Some (new_MemBlock a (ucast sz)), ?a\<lparr>cursor_addr := a + ucast sz\<rparr>)"
      using ceil_page32_ge [OF assms(2)] by (auto simp: allocMemBlock_def new_MemoryArena_def exec_arena_len_def)
    ultimately have r: "r = Some (new_MemBlock a (ucast sz))" "pmem st1 = m'" using Pair None as pg assms(3)
      by (auto simp: allocateExecBlock_def alloc_last_snoc CHECK_def)
    have "\<not> mapped m' 0" if "a = 0"
    proof -
      obtain p q where mm: "env_mmap env (pmem st) 0 (exec_arena_len sz) 0 False = (p, q)" by (metis surj_pair)
      have "p = None"
      proof (rule ccontr)
        assume "p \<noteq> None"
        then obtain a' where "p = Some a'" by auto
        with mm have "a' \<noteq> 0" "a = a'"
          using kernel_okD(4) [OF inv(1), of "pmem st" 0 "exec_arena_len sz" 0 False a' q] ceil_page32 [of "ucast sz"] o(1)
          by (auto simp: mmapped_def exec_arena_len_def OSMemory_Allocate_def)
        with that show False by simp
      qed
      with mm have "m = pmem st" using kernel_okD(6) [OF inv(1)] o(1) by (auto simp: OSMemory_Allocate_def)
      moreover have "mapped m' = mapped m" using o(2) kernel_okD(5) [OF inv(1)]
        by (auto simp: OSMemory_SetPermission_def split: prod.splits) (metis snd_conv)+
      ultimately show ?thesis using inv(2) by simp
    qed
    then show ?thesis by (simp add: r new_MemBlock_def)
  qed
qed

section \<open>Finalized code\<close>

text \<open>Without memory from the kernel the block is at address 0, and the patch faults.\<close>

lemma patch_null:
  assumes "kernel_ok env" "\<not> mapped m 0" "buf \<noteq> []" "len \<noteq> 0"
  shows "DobbyCodePatch env 0 buf len m = Sigsegv \<or> DobbyCodePatch env 0 buf len m = UB"
proof -
  have "\<not> mapped (mprotect env a sz p m') 0" if "\<not> mapped m' 0" for a sz p m'
    using that kernel_okD(5) [OF assms(1)] by (simp add: mprotect_def)
  then have m2: "\<not> mapped (if c then mprotect env a sz p (mprotect env a' sz p m) else mprotect env a' sz p m) 0" for c a a' sz p
    using assms(2) by simp
  have "unat len \<noteq> 0" using assms(4) by (simp add: unat_eq_zero)
  then obtain b bs where "take (unat len) buf = b # bs" using assms(3) by (cases buf; cases "unat len") auto
  then have "memcpy m' 0 buf (unat len) = Sigsegv \<or> memcpy m' 0 buf (unat len) = UB" if "\<not> mapped m' 0" for m'
    using that by (auto simp: memcpy_def store8_def writable_def mapped_def)
  then have bad: "obind (memcpy m' 0 buf (unat len)) f = Sigsegv \<or> obind (memcpy m' 0 buf (unat len)) f = UB"
    if "\<not> mapped m' 0" for m' and f :: "memory \<Rightarrow> memory outcome" using that by fastforce
  show ?thesis unfolding DobbyCodePatch_def Let_def by (rule bad [OF m2])
qed

text \<open>Outside the block nothing that was mapped changes but the protection of pages that become \<open>RX\<close>.\<close>

definition extends_memory :: "memory \<Rightarrow> memory \<Rightarrow> addr set \<Rightarrow> bool" where
  "extends_memory m m' A \<longleftrightarrow> page_uniform m' \<and> (\<forall>x. mapped m x \<longrightarrow> mapped m' x \<and> (x \<notin> A \<longrightarrow> mbytes m' x = mbytes m x))"

lemma block_addrs_in:
  assumes "block_of b (ucast (len :: u32))" "i < unat len"
  shows "mb_addr b + of_nat i \<in> region b"
proof -
  have "unat (of_nat i :: u64) = i" using assms(2) unsigned_less [of len, where 'a = nat]
    by (simp add: unat_of_nat take_bit_nat_eq_self)
  then show ?thesis using assms in_region_iff [of "mr_start b" "ucast len" "mb_addr b + of_nat i"]
    by (simp add: block_of_def region_def word_less_nat_alt)
qed

lemma patch_block:
  assumes "alloc_inv env st" "block_of b (ucast (len :: u32))" "\<And>x. x \<in> region b \<Longrightarrow> mapped (pmem st) x"
    and "length buf = unat len" "unat len \<le> 0x1000"
  shows "DobbyCodePatch env (mb_addr b) buf len (pmem st) =
    Ok ((set_pages (mb_addr b) (mb_addr b + ucast len) RX (pmem st))\<lparr>mbytes := overlay (mbytes (pmem st)) (mb_addr b) buf\<rparr>)"
proof -
  have k: "kernel_ok env" "page_uniform (pmem st)" using assms(1) by (simp_all add: alloc_inv_def)
  have nw: "unat (mb_addr b) + unat len < 2 ^ 64" using assms(2) by (simp add: block_of_def)
  have "mapped (pmem st) (mb_addr b + of_nat i)" if "i < unat len" for i
    by (rule assms(3)) (rule block_addrs_in [OF assms(2) that])
  from code_patch [OF k _ assms(5) nw this, of buf] show ?thesis using assms(4) by simp
qed

lemma FinalizeFromTurboAssembler_correct:
  assumes "alloc_inv env st" "realized_addr a = 0" "buffer a \<noteq> []" "length (buffer a) \<le> 0x1000"
    and "FinalizeFromTurboAssembler env a st = Ok (r, st')"
  shows "\<exists>b. r = Some b \<and> mb_addr b \<noteq> 0 \<and> block_of b (of_nat (length (buffer a))) \<and> region b \<inter> used st = {} \<and>
    used st' = used st \<union> region b \<and> alloc_inv env st' \<and> loaded (mbytes (pmem st')) (mb_addr b) (buffer a) \<and>
    (\<forall>x\<in>region b. mapped (pmem st') x) \<and> extends_memory (pmem st) (pmem st') (region b) \<and>
    (\<forall>x\<in>region b. x \<in> regions (arenas_of st) \<or> \<not> mapped (pmem st) x) \<and> new_room env st st' \<and>
    (\<forall>x. mapped (pmem st) x \<longrightarrow> mprot (pmem st') x = mprot (pmem st) x \<or> mprot (pmem st') x = Some RX)"
proof -
  let ?n = "length (buffer a)" and ?buf = "buffer a"
  have n: "unat (ucast (of_nat ?n :: u64) :: u32) = ?n" "unat (of_nat ?n :: u64) = ?n"
    using assms(4) by (simp_all add: unsigned_ucast_eq unat_of_nat take_bit_nat_eq_self)
  then have cn: "ucast (ucast (of_nat ?n :: u64) :: u32) = (of_nat ?n :: u64)" by (metis unat_ucast32 word_unat_eq_iff)
  let ?len = "ucast (of_nat ?n :: u64) :: u32"
  have k: "kernel_ok env" using assms(1) by (simp add: alloc_inv_def)
  from assms(5) have "sbind (allocateExecBlock env ?len st) (\<lambda>blk st.
      case blk of None \<Rightarrow> Ok (None, st)
      | Some blk \<Rightarrow> obind (DobbyCodePatch env (mb_addr blk) ?buf ?len (pmem st)) (\<lambda>m.
          Ok (Some (new_MemBlock (mb_addr blk) (of_nat ?n)), st\<lparr>pmem := m\<rparr>))) = Ok (r, st')"
    by (simp add: FinalizeFromTurboAssembler_def assms(2) GetBufferSize_def Let_def)
  then obtain blk st1 where al: "allocateExecBlock env ?len st = Ok (blk, st1)" and rest: "(case blk of None \<Rightarrow> Ok (None, st1)
      | Some blk \<Rightarrow> obind (DobbyCodePatch env (mb_addr blk) ?buf ?len (pmem st1)) (\<lambda>m.
          Ok (Some (new_MemBlock (mb_addr blk) (of_nat ?n)), st1\<lparr>pmem := m\<rparr>))) = Ok (r, st')"
    unfolding sbind_def obind_eq_Ok by auto
  have "unat ?len \<le> 2 ^ 32 - 0x1000" using n assms(4) by simp
  from allocateExecBlock_cases [OF assms(1) this al] obtain b where b: "blk = Some b"
    "mb_addr b = 0 \<longrightarrow> \<not> mapped (pmem st1) 0" by blast
  have len0: "?len \<noteq> 0" using n assms(3) by (metis length_0_conv unat_eq_zero)
  have nz: "mb_addr b \<noteq> 0"
  proof
    assume "mb_addr b = 0"
    then show False using rest b patch_null [OF k _ assms(3) len0, of "pmem st1"] by auto
  qed
  from allocateExecBlock_fresh [OF assms(1) al [unfolded b(1)] nz]
  have f: "alloc_inv env st1" "block_of b (of_nat ?n)" "region b \<inter> used st = {}" "used st1 = used st \<union> region b"
    "\<And>x. x \<in> region b \<Longrightarrow> mapped (pmem st1) x" "grows (pmem st) (pmem st1)"
    and old: "\<forall>x\<in>region b. x \<in> regions (arenas_of st) \<or> \<not> mapped (pmem st) x"
    and room: "new_room env st st1" by (auto simp: cn)
  have reg: "x \<in> region b \<longleftrightarrow> x - mb_addr b < of_nat ?n" for x
    using f(2) in_region_iff [of "mr_start b" "of_nat ?n" x] by (simp add: block_of_def region_def)
  let ?m = "(set_pages (mb_addr b) (mb_addr b + ucast ?len) RX (pmem st1))
      \<lparr>mbytes := overlay (mbytes (pmem st1)) (mb_addr b) ?buf\<rparr>"
  have "DobbyCodePatch env (mb_addr b) ?buf ?len (pmem st1) = Ok ?m"
    by (rule patch_block [OF f(1) _ f(5)]) (use f(2) n cn assms(4) in simp_all)
  then have st': "st' = st1\<lparr>pmem := ?m\<rparr>" and r: "r = Some (new_MemBlock (mb_addr b) (of_nat ?n))"
    using rest b(1) by auto
  have rb: "region (new_MemBlock (mb_addr b) (of_nat ?n)) = region b" "block_of (new_MemBlock (mb_addr b) (of_nat ?n)) (of_nat ?n)"
    using f(2) by (simp_all add: new_MemBlock_def region_def block_of_def)
  have out: "mbytes ?m x = mbytes (pmem st1) x" if "x \<notin> region b" for x
    using that n by (simp add: overlay_def reg word_less_nat_alt)
  have inv': "alloc_inv env st'" using f(1)
    by (auto simp: st' alloc_inv_def arenas_of_def set_pages_uniform)
  have ext: "extends_memory (pmem st) (pmem st') (region b)"
    unfolding extends_memory_def
  proof (intro conjI allI impI)
    show "page_uniform (pmem st')" using inv' by (simp add: alloc_inv_def)
    fix x
    assume x: "mapped (pmem st) x"
    then show "mapped (pmem st') x" using f(6) by (simp add: st' grows_def mapped_def)
    show "mbytes (pmem st') x = mbytes (pmem st) x" if "x \<notin> region b"
      using out [OF that] x f(6) by (simp add: st' grows_def)
  qed
  have prot: "mprot (pmem st') x = mprot (pmem st) x \<or> mprot (pmem st') x = Some RX" if "mapped (pmem st) x" for x
    using that f(6) by (simp add: st' grows_def set_pages_def)
  have "used st' = used st \<union> region b" using f(4) by (simp add: st' used_def arenas_of_def)
  moreover have "loaded (mbytes (pmem st')) (mb_addr b) ?buf" using assms(4) by (simp add: st' overlay_loaded)
  moreover have "\<forall>x\<in>region b. mapped (pmem st') x" using f(5) by (simp add: st')
  moreover have "new_room env st st'" using room by (simp add: st' new_room_def arenas_of_def)
  ultimately show ?thesis
    using rb f(3) inv' ext prot nz old by (intro exI [of _ "new_MemBlock (mb_addr b) (of_nat ?n)"]) (simp add: r new_MemBlock_def)
qed

lemma exec_arena_page:
  assumes "0 < unat sz" "unat sz \<le> 0x1000"
  shows "exec_arena_len sz = 0x1000"
proof -
  have "unat (ALIGN_CEIL (ucast sz) 0x1000) = (unat sz + 0xFFF) div 4096 * 4096"
    using assms(2) by (subst unat_ceil_page) simp_all
  also have "(unat sz + 0xFFF) div 4096 = 1" using assms by (simp add: div_nat_eqI)
  finally have "unat (exec_arena_len sz) = 0x1000"
    by (simp add: exec_arena_len_def unsigned_ucast_eq unsigned_take_bit_eq take_bit_nat_eq_self)
  then show ?thesis by (simp add: word_unat_eq_iff)
qed

text \<open>What an allocation leaves: the rest of the room, or of a new page.\<close>

lemma allocateExecBlock_room:
  assumes "alloc_inv env st" "0 < unat sz" "unat sz \<le> 0x1000" "allocateExecBlock env sz st = Ok (r, st1)"
  shows "(room_in (code_arenas st) k \<longrightarrow> room_in (code_arenas st1) (k - unat sz)) \<and>
    (pmem st1 = pmem st \<or> room_in (code_arenas st1) (0x1000 - unat sz))"
proof (cases "alloc_loop (ucast sz) (code_arenas st)")
  case (Pair q as)
  show ?thesis
  proof (cases q)
    case (Some b)
    then have "st1 = st\<lparr>code_arenas := as\<rparr>" using Pair assms(4) by (auto simp: allocateExecBlock_def)
    then show ?thesis using alloc_loop_rest [OF Pair [unfolded Some], of k] by simp
  next
    case None
    then have as: "st\<lparr>code_arenas := as\<rparr> = st" using alloc_loop_None Pair by fastforce
    have pg: "env_page env = 0x1000" using assms(1) kernel_okD(1) by (auto simp: alloc_inv_def)
    obtain a m ok m' where o: "OSMemory_Allocate env 0x1000 kNoAccess 0 (pmem st) = (a, m)"
      "OSMemory_SetPermission env a 0x1000 kReadExecute m = (ok, m')" by (metis surj_pair)
    let ?a = "new_MemoryArena a 0x1000"
    have e: "ucast (ucast (ALIGN_CEIL (ucast sz) 0x1000) :: u32) = (0x1000 :: u64)"
      using exec_arena_page [OF assms(2,3)] by (simp add: exec_arena_len_def)
    have le: "(ucast sz :: u64) \<le> 0x1000" using assms(3) by (simp add: word_le_nat_alt)
    have "allocateCodeMemoryArena env (ucast (ALIGN_CEIL (ucast sz) 0x1000)) st =
        Ok (?a, st\<lparr>pmem := m', code_arenas := code_arenas st @ [?a]\<rparr>)"
      using o by (simp add: allocateCodeMemoryArena_def CHECK_def pg e Let_def)
    moreover have "allocMemBlock (ucast sz) ?a = (Some (new_MemBlock a (ucast sz)), ?a\<lparr>cursor_addr := a + ucast sz\<rparr>)"
      using le by (auto simp: allocMemBlock_def new_MemoryArena_def)
    ultimately have ca: "code_arenas st1 = code_arenas st @ [?a\<lparr>cursor_addr := a + ucast sz\<rparr>]" using Pair None as pg assms(4)
      by (auto simp: allocateExecBlock_def alloc_last_snoc CHECK_def)
    have "unat (0x1000 - ucast sz :: u64) = 0x1000 - unat sz" using le by (simp add: unat_sub)
    then have "room_in (code_arenas st1) (0x1000 - unat sz)"
      by (simp add: ca room_in_def new_MemoryArena_def)
    moreover have "room_in (code_arenas st) k \<longrightarrow> room_in (code_arenas st1) (k - unat sz)"
      using room_in_mono [of "code_arenas st" k "k - unat sz"] by (auto simp: ca room_in_def)
    ultimately show ?thesis by simp
  qed
qed

lemma store_bytes_mapped: "store_bytes m a bs = Ret m' \<Longrightarrow> mapped m' = mapped m"
proof (induction bs arbitrary: m a)
  case (Cons b bs)
  then obtain m1 where "store8 m a b = Ret m1" "store_bytes m1 (a + 1) bs = Ret m'" by (auto simp: run_simps)
  with Cons.IH [OF this(2)] show ?case by (auto simp: store8_def mapped_def fun_eq_iff split: if_splits)
qed simp

lemma DobbyCodePatch_mapped:
  assumes "kernel_ok env" "DobbyCodePatch env a buf len m = Ok m'"
  shows "mapped m' = mapped m"
proof -
  have p: "mapped (mprotect env b sz p q) = mapped q" for b sz p q
    using kernel_okD(5) [OF assms(1)] by (simp add: mprotect_def)
  have c: "mapped m2 = mapped m1" if "memcpy m1 b bs n = Ok m2" for m1 m2 b bs n
    using that store_bytes_mapped [of m1 b "take n bs" m2]
    by (cases "store_bytes m1 b (take n bs)") (auto simp: memcpy_def split: if_splits)
  show ?thesis using assms(2) by (auto simp: DobbyCodePatch_def Let_def obind_eq_Ok p dest!: c split: if_splits)
qed

text \<open>The kernel still gives a page, whatever the contents and the protection of the memory.\<close>

definition gives_page :: "'e dobby_env_scheme \<Rightarrow> memory \<Rightarrow> bool" where
  "gives_page env m \<longleftrightarrow> (\<forall>m'. mapped m' = mapped m \<longrightarrow> fst (OSMemory_Allocate env 0x1000 kNoAccess 0 m') \<noteq> 0)"

definition roomy :: "'e dobby_env_scheme \<Rightarrow> 's mem_state_scheme \<Rightarrow> nat \<Rightarrow> bool" where
  "roomy env st n \<longleftrightarrow> room_in (code_arenas st) n \<or> n \<le> 0x1000 \<and> gives_page env (pmem st)"

lemma FinalizeFromTurboAssembler_room:
  assumes "alloc_inv env st" "realized_addr a = 0" "buffer a \<noteq> []" "length (buffer a) \<le> 0x1000"
    and "roomy env st k" "length (buffer a) \<le> k" "FinalizeFromTurboAssembler env a st = Ok (r, st')"
  shows "roomy env st' (k - length (buffer a))"
proof -
  let ?n = "length (buffer a)"
  let ?len = "ucast (of_nat ?n :: u64) :: u32"
  have n: "unat ?len = ?n" "unat (of_nat ?n :: u64) = ?n"
    using assms(4) by (simp_all add: unsigned_ucast_eq unat_of_nat take_bit_nat_eq_self)
  have n0: "0 < ?n" using assms(3) by simp
  have kern: "kernel_ok env" using assms(1) by (simp add: alloc_inv_def)
  from assms(7) obtain blk st1 where al: "allocateExecBlock env ?len st = Ok (blk, st1)" and rest: "(case blk of None \<Rightarrow> Ok (None, st1)
      | Some blk \<Rightarrow> obind (DobbyCodePatch env (mb_addr blk) (buffer a) ?len (pmem st1)) (\<lambda>m.
          Ok (Some (new_MemBlock (mb_addr blk) (of_nat ?n)), st1\<lparr>pmem := m\<rparr>))) = Ok (r, st')"
    unfolding FinalizeFromTurboAssembler_def GetBufferSize_def Let_def sbind_def obind_eq_Ok if_P [OF assms(2)] by auto
  note room = allocateExecBlock_room [OF assms(1) _ _ al, unfolded n, OF n0 assms(4)]
  have ca: "code_arenas st' = code_arenas st1" using rest by (auto simp: obind_eq_Ok split: option.splits)
  show ?thesis
  proof (cases "room_in (code_arenas st) k \<or> room_in (code_arenas st1) (0x1000 - ?n)")
    case True
    moreover have "room_in (code_arenas st1) (k - ?n)" if "k \<le> 0x1000" "room_in (code_arenas st1) (0x1000 - ?n)"
      using that room_in_mono [of "code_arenas st1" "0x1000 - ?n" "k - ?n"] by simp
    ultimately show ?thesis using room [of k] assms(5) by (auto simp: roomy_def ca)
  next
    case False
    then have k: "k \<le> 0x1000" "gives_page env (pmem st)" "pmem st1 = pmem st" using assms(5) room [of k] by (auto simp: roomy_def)
    have "mapped (pmem st') = mapped (pmem st)"
      using rest DobbyCodePatch_mapped [OF kern] k(3) by (auto simp: obind_eq_Ok split: option.splits)
    moreover have "k - ?n \<le> 0x1000" using k(1) by linarith
    ultimately show ?thesis using k by (simp add: roomy_def gives_page_def)
  qed
qed

lemma FinalizeFromTurboAssembler_serves:
  assumes "alloc_inv env st" "realized_addr a = 0" "buffer a \<noteq> []" "length (buffer a) \<le> 0x1000"
    and "room_in (code_arenas st) (length (buffer a)) \<or> fst (OSMemory_Allocate env 0x1000 kNoAccess 0 (pmem st)) \<noteq> 0"
  shows "\<exists>r st'. FinalizeFromTurboAssembler env a st = Ok (r, st')"
proof -
  let ?len = "ucast (of_nat (length (buffer a)) :: u64) :: u32"
  have n: "unat ?len = length (buffer a)"
    using assms(4) by (simp add: unsigned_ucast_eq unat_of_nat take_bit_nat_eq_self)
  have len: "?len \<noteq> 0" "0 < unat ?len" "unat ?len \<le> 0x1000" using n assms(3,4) by (auto simp: unat_eq_zero [symmetric])
  obtain b st1 where al: "allocateExecBlock env ?len st = Ok (Some b, st1)" "mb_addr b \<noteq> 0"
    using allocateExecBlock_serves [OF assms(1) len(1)] len(3) exec_arena_page [OF len(2,3)] assms(5) n by auto
  from allocateExecBlock_fresh [OF assms(1) al] have
    f: "alloc_inv env st1" "block_of b (ucast ?len)" "\<And>x. x \<in> region b \<Longrightarrow> mapped (pmem st1) x" by auto
  from patch_block [OF f n [symmetric] len(3)] al(1) assms(2) show ?thesis
    by (simp add: FinalizeFromTurboAssembler_def GetBufferSize_def Let_def)
qed

section \<open>Blocks never overlap\<close>

text \<open>
  The contract a client of a block allocator relies on: while an invariant holds, a block that is
  not at address 0 shares no byte with what was taken before, and is taken from then on.
\<close>

primrec alloc_seq :: "('q \<Rightarrow> ('r option, 's) act) \<Rightarrow> 'q list \<Rightarrow> ('r list, 's) act" where
  "alloc_seq f [] st = Ok ([], st)"
| "alloc_seq f (q # qs) st =
     sbind (f q st) (\<lambda>b st. obind (Sigsegv_if_null b) (\<lambda>b. sbind (alloc_seq f qs st) (\<lambda>bs st. Ok (b # bs, st))))"

locale block_allocator =
  fixes alloc :: "'q \<Rightarrow> (MemBlock option, 's) act" and inv :: "'s \<Rightarrow> bool" and taken :: "'s \<Rightarrow> addr set"
  assumes fresh: "inv st \<Longrightarrow> alloc q st = Ok (Some b, st') \<Longrightarrow> mb_addr b \<noteq> 0 \<Longrightarrow>
    inv st' \<and> region b \<inter> taken st = {} \<and> taken st \<union> region b \<subseteq> taken st'"
begin

lemma seq_disjoint:
  "inv st \<Longrightarrow> alloc_seq alloc qs st = Ok (bs, st') \<Longrightarrow> \<forall>b\<in>set bs. mb_addr b \<noteq> 0 \<Longrightarrow>
     inv st' \<and> (\<forall>b\<in>set bs. region b \<inter> taken st = {}) \<and> sorted_wrt (\<lambda>b c. region b \<inter> region c = {}) bs"
proof (induction qs arbitrary: st bs)
  case (Cons q qs)
  from Cons.prems(2) obtain b st1 bs' where b: "alloc q st = Ok (Some b, st1)" "alloc_seq alloc qs st1 = Ok (bs', st')" "bs = b # bs'"
    by (auto simp: sbind_eq_Ok obind_eq_Ok Sigsegv_if_null_def split: option.splits)
  from fresh [OF Cons.prems(1) b(1)] Cons.prems(3) b(3)
  have f: "inv st1" "region b \<inter> taken st = {}" "taken st \<union> region b \<subseteq> taken st1" by auto
  from Cons.IH [OF f(1) b(2)] Cons.prems(3) b(3) f show ?case by fastforce
qed simp

end

interpretation exec: block_allocator "allocateExecBlock env" "alloc_inv env" used for env :: "'e dobby_env_scheme"
  by unfold_locales (use allocateExecBlock_fresh in blast)

section \<open>A kernel and a process\<close>

text \<open>
  A kernel that gives one page, at \<^verbatim>\<open>0x50000\<close>, and a process with a function at \<^verbatim>\<open>0x10000\<close> in a page
  of code that is followed by a page of data.
\<close>

definition sample_kernel :: dobby_env where
  "sample_kernel =
     \<lparr>os_maps = (\<lambda>_. None),
      os_mprotect = (\<lambda>m a len p. if \<forall>x. x - a < len \<longrightarrow> mapped m x then (0, 0, mprotected m a len p) else (- 1, 12, m)),
      env_mmap = (\<lambda>m f len p fixed. if \<not> fixed \<and> len = 0x1000 \<and> (\<forall>x. x - 0x50000 < 0x1000 \<longrightarrow> \<not> mapped m x)
                  then (Some 0x50000, mprotected m 0x50000 0x1000 p) else (None, m)),
      env_page = 0x1000, env_ndebug = False\<rparr>"

definition sample_pages :: "addr \<Rightarrow> u32 option" where
  "sample_pages x = (if PAGE_START x = 0x10000 then Some RX else if PAGE_START x = 0x11000 then Some 3 else None)"

definition sample_memory :: memory where
  "sample_memory = \<lparr>mbytes = image 0x10000 (enc sample_words), mprot = sample_pages\<rparr>"

definition sample_mem_state :: mem_state where
  "sample_mem_state = \<lparr>pmem = sample_memory, code_arenas = [], data_arenas = []\<rparr>"

lemma mapped_mprotected: "(\<And>x. x - a < len \<Longrightarrow> mapped m x) \<Longrightarrow> mapped (mprotected m a len p) = mapped m"
  by (rule ext) (auto simp: mapped_def mprotected_def)

lemma page_50000: "PAGE_START 0x50000 = 0x50000" "PAGE_START 0x10000 = 0x10000" "PAGE_START 0x11000 = 0x11000"
    "PAGE_START 0 = 0"
  by (simp_all add: PAGE_START_def PAGE_MASK_def PAGE_SIZE_def)

lemma sample_kernel_ok: "kernel_ok sample_kernel"
  unfolding kernel_ok_def
proof (intro conjI allI impI)
  show "env_page sample_kernel = 0x1000" by (simp add: sample_kernel_def)
  fix m :: memory and a len :: u64 and p :: u32
  show "mapped (snd (snd (os_mprotect sample_kernel m a len p))) = mapped m"
    by (simp add: sample_kernel_def mapped_mprotected)
  show "fst (os_mprotect sample_kernel m a len p) = 0" "snd (snd (os_mprotect sample_kernel m a len p)) = mprotected m a len p"
    if "PAGE_START a = a \<and> (\<forall>x. x - a < len \<longrightarrow> mapped m x)" using that by (simp_all add: sample_kernel_def)
next
  fix m :: memory and a :: addr and p :: u32
  assume "PAGE_START a = a \<and> (\<forall>x. x - a < 0x1000 \<longrightarrow> \<not> mapped m x)"
  then have "\<not> mapped m a" by (auto dest!: spec [of _ a])
  then have "\<not> (\<forall>x. x - a < 0x1000 \<longrightarrow> mapped m x)" by (intro notI) (drule spec [of _ a], simp)
  then show "fst (os_mprotect sample_kernel m a 0x1000 p) \<noteq> 0" "snd (snd (os_mprotect sample_kernel m a 0x1000 p)) = m"
    by (simp_all only: sample_kernel_def os.simps if_False fst_conv snd_conv)
next
  fix m m' :: memory and f len p fixed
  assume "env_mmap sample_kernel m f len p fixed = (None, m')"
  then show "m' = m" by (auto simp: sample_kernel_def split: if_splits)
next
  fix m m' :: memory and f len p fixed a
  assume r: "env_mmap sample_kernel m f len p fixed = (Some a, m') \<and> len mod 0x1000 = 0"
  then have c: "\<not> fixed" "len = 0x1000" "\<forall>x. x - 0x50000 < 0x1000 \<longrightarrow> \<not> mapped m x" "a = 0x50000" "m' = mprotected m a 0x1000 p"
    by (auto simp: sample_kernel_def split: if_splits)
  show "mmapped m a len p m'" by (simp add: c mmapped_def page_50000) (simp add: mprotected_def)
  show "fixed \<Longrightarrow> a = f" using c(1) by simp
  show "\<not> mapped m x" if "x - a < len" for x using c that by simp
qed

lemma sample_uniform: "page_uniform sample_memory"
  by (simp add: page_uniform_def sample_memory_def sample_pages_def)

lemma sample_mapped: "mapped sample_memory x \<longleftrightarrow> PAGE_START x = 0x10000 \<or> PAGE_START x = 0x11000"
  by (simp add: mapped_def sample_memory_def sample_pages_def)

lemma sample_inv: "alloc_inv sample_kernel sample_mem_state"
  using sample_kernel_ok sample_uniform
  by (simp add: alloc_inv_def sample_mem_state_def arenas_of_def arenas_ok_def sample_mapped page_50000)

lemma sample_free:
  assumes "x - 0x50000 < (0x1000 :: u64)"
  shows "\<not> mapped sample_memory x"
proof -
  have "PAGE_START x = 0x50000" using assms page_offset_less [of x "0x50000"] by (simp add: page_50000)
  then show ?thesis by (simp add: sample_mapped)
qed

lemma sample_allocate:
  assumes "\<And>x. mapped m x = mapped sample_memory x"
  shows "OSMemory_Allocate sample_kernel 0x1000 kNoAccess 0 m = (0x50000, mprotected m 0x50000 0x1000 0)"
proof -
  have "\<forall>x. x - 0x50000 < 0x1000 \<longrightarrow> \<not> mapped m x" using assms sample_free by blast
  then show ?thesis by (simp add: OSMemory_Allocate_def sample_kernel_def)
qed

end
