(* ===== verification/Db_Hooked.thy ===== *)
theory Db_Hooked
  imports Db_Hook Db_Alloc
begin

unbundle bit_operations_syntax

text \<open>
  Correctness of the inline hook: after \<^verbatim>\<open>DobbyHook\<close> a call of the function runs the replacement, and
  a call through the returned pointer runs what the function was.
\<close>

section \<open>Running what was overwritten\<close>

text \<open>
  One instruction of the relocated code does what \<open>inst\<close> did at \<open>cur\<close>: a PC-relative instruction
  that is \<open>relocatable\<close> is simulated, an instruction that is not PC-relative is the same word. Nothing
  is said of the PC-relative instructions that are not \<open>relocatable\<close>: conditional branches with the
  conditions \<^verbatim>\<open>al\<close> and \<^verbatim>\<open>nv\<close>, and literal loads of 32-bit and of SIMD registers, which the code
  does not relocate faithfully, and the literal loads \<^verbatim>\<open>ldrsw\<close> and \<^verbatim>\<open>prfm\<close>, which it does not implement.
\<close>

definition does_same :: "a64 \<Rightarrow> u32 \<Rightarrow> addr \<Rightarrow> addr \<Rightarrow> bool" where
  "does_same s inst cur nxt \<longleftrightarrow>
     (relocatable inst \<longrightarrow> simulates s inst cur nxt) \<and> (\<not> pc_relative inst \<longrightarrow> fetch s = inst \<and> nxt = pc s + 4)"

text \<open>
  The code at \<open>D\<close> in the memory \<open>m1\<close> does what the \<open>n\<close> instructions at \<open>a\<close> in \<open>m0\<close> did, and goes on
  behind them.
\<close>

definition runs_original :: "(addr \<Rightarrow> u8) \<Rightarrow> (addr \<Rightarrow> u8) \<Rightarrow> addr \<Rightarrow> nat \<Rightarrow> addr \<Rightarrow> bool" where
  "runs_original m0 m1 a n D \<longleftrightarrow> (\<exists>R. R 0 = D \<and>
     (\<forall>i<n. \<forall>s. mem s = m1 \<and> pc s = R i \<longrightarrow>
        does_same s (get_le m0 4 (a + of_nat (4 * i))) (a + of_nat (4 * i)) (R (Suc i))) \<and>
     (\<forall>t. mem t = m1 \<and> pc t = R n \<longrightarrow>
        a64_run 2 t = Some (t\<lparr>xr := (xr t)(17 := a + of_nat (4 * n)), pc := a + of_nat (4 * n)\<rparr>)))"

lemma relocated_program:
  assumes asm: "relo_assemble ndebug m0 a ctx True = Some (ctx', len, b)"
    and ctx: "buffer_cursor ctx = 0" "buffer_size ctx = 4 * n" "relo_buffer ctx = a" "relo_src_vmaddr ctx = a"
    and n: "0 < n" and size: "length (buffer b) \<le> 2 ^ 20" and l: "loaded m1 D (buffer b)"
  shows "len = 4 * n \<and> runs_original m0 m1 a n D"
proof -
  obtain ws ls where blk: "relo_block ndebug (block_insts m0 (relo_buffer ctx) (relo_src_vmaddr ctx) n) [] [] = Some (ws, ls)"
    and len: "len = 4 * n"
    and offs: "\<And>j ws1 ls1. j < n \<Longrightarrow>
      relo_block ndebug (take j (block_insts m0 (relo_buffer ctx) (relo_src_vmaddr ctx) n)) [] [] = Some (ws1, ls1) \<Longrightarrow>
      relocated_offset_map ctx' (4 * j) = Some (4 * length ws1)"
    using relo_assembleE [OF asm ctx(1,2)] by blast
  have "\<exists>fw p cs l. buffer b = enc fw \<and> relocated_offset_map ctx' (4 * i) = Some (4 * p) \<and>
      relo_code ndebug (a + of_nat (4 * i)) (orig_inst m0 ctx i) = Some (cs, l) \<and> placed fw p cs l \<and>
      (Suc i < n \<longrightarrow> relocated_offset_map ctx' (4 * Suc i) = Some (4 * (p + length cs))) \<and>
      (Suc i = n \<longrightarrow> returns_from b D (D + of_nat (4 * (p + length cs))) (a + of_nat len))" if "i < n" for i
    by (rule relo_at [OF asm ctx(1,2) size that, where D = D]) (auto simp: ctx(4))
  then obtain fw p cs l where at: "\<And>i. i < n \<Longrightarrow> buffer b = enc (fw i) \<and> relocated_offset_map ctx' (4 * i) = Some (4 * p i) \<and>
      relo_code ndebug (a + of_nat (4 * i)) (orig_inst m0 ctx i) = Some (cs i, l i) \<and> placed (fw i) (p i) (cs i) (l i) \<and>
      (Suc i < n \<longrightarrow> relocated_offset_map ctx' (4 * Suc i) = Some (4 * (p i + length (cs i)))) \<and>
      (Suc i = n \<longrightarrow> returns_from b D (D + of_nat (4 * (p i + length (cs i)))) (a + of_nat len))"
    by metis
  define R where "R i = D + of_nat (if i < n then 4 * p i else 4 * (p (n - 1) + length (cs (n - 1))))" for i
  have nxt: "R (Suc i) = D + of_nat (4 * (p i + length (cs i)))" if "i < n" for i
  proof (cases "Suc i < n")
    case True
    then have "4 * p (Suc i) = 4 * (p i + length (cs i))" using at [OF that] at [OF True] by simp
    then show ?thesis using True by (simp add: R_def)
  next
    case False
    then have "n - 1 = i" using that by simp
    then show ?thesis using False by (simp add: R_def)
  qed
  have "relocated_offset_map ctx' (4 * 0) = Some 0" using offs [of 0] n by simp
  then have R0: "R 0 = D" using at [OF n] n by (simp add: R_def)
  have orig: "orig_inst m0 ctx i = get_le m0 4 (a + of_nat (4 * i))" for i by (simp add: orig_inst_def ctx(3))
  have same: "does_same s (get_le m0 4 (a + of_nat (4 * i))) (a + of_nat (4 * i)) (R (Suc i))"
    if i: "i < n" and s: "mem s = m1" "pc s = R i" for i s
  proof -
    have b: "buffer b = enc (fw i)" "placed (fw i) (p i) (cs i) (l i)"
      "relo_code ndebug (a + of_nat (4 * i)) (orig_inst m0 ctx i) = Some (cs i, l i)" using at [OF i] by simp_all
    have code: "code_at (mem s) D (fw i)" using l b(1) s(1) by (simp add: loaded_code_at)
    have pc: "pc s = D + of_nat (4 * p i)" using s(2) i by (simp add: R_def)
    have "simulates s (orig_inst m0 ctx i) (a + of_nat (4 * i)) (D + of_nat (4 * (p i + length (cs i))))"
      if "relocatable (orig_inst m0 ctx i)"
      by (rule relo_code_simulates [OF that code b(3,2) pc])
    moreover have "fetch s = orig_inst m0 ctx i \<and> length (cs i) = 1" if "\<not> pc_relative (orig_inst m0 ctx i)"
    proof -
      have c: "cs i = [orig_inst m0 ctx i]" "l i = []" using b(3) that by (simp_all add: relo_code_def pc_relative_def)
      then have "fw i ! p i = orig_inst m0 ctx i" "p i < length (fw i)" using b(2) by (simp_all add: placed_def)
      then show ?thesis using code_at_nth [of "mem s" D "fw i" "p i"] code pc c by (simp add: fetch_def)
    qed
    ultimately show ?thesis by (auto simp: does_same_def orig nxt [OF i] pc algebra_simps)
  qed
  have "a64_run 2 t = Some (t\<lparr>xr := (xr t)(17 := a + of_nat (4 * n)), pc := a + of_nat (4 * n)\<rparr>)"
    if "mem t = m1" "pc t = R n" for t
  proof -
    have "returns_from b D (R n) (a + of_nat len)" using at [of "n - 1"] nxt [of "n - 1"] n by simp
    then show ?thesis using that l by (simp add: returns_from_def len)
  qed
  then show ?thesis using R0 same len unfolding runs_original_def by blast
qed

section \<open>The relocated code of an entry\<close>

lemma read_bytes_Ret: "read_bytes m a n = Ret bs \<Longrightarrow> bs = map (\<lambda>i. mbytes m (a + of_nat i)) [0..<n]"
proof (induction n arbitrary: a bs)
  case (Suc n)
  then obtain bs' where "read_bytes m (a + 1) n = Ret bs'" "bs = mbytes m a # bs'"
    by (auto simp: run_simps load8_def split: if_splits)
  from Suc.IH [OF this(1)] this(2) have "bs = mbytes m (a + of_nat 0) # map (\<lambda>i. mbytes m (a + of_nat (Suc i))) [0..<n]"
    by (simp add: add.assoc)
  then show ?case by (simp add: map_upt_Suc del: upt_Suc of_nat_Suc)
qed simp

text \<open>\<open>outside st x\<close>: memory of the process that does not belong to the allocator.\<close>

definition outside :: "'s mem_state_scheme \<Rightarrow> addr \<Rightarrow> bool" where
  "outside st x \<longleftrightarrow> mapped (pmem st) x \<and> x \<notin> regions (arenas_of st)"

lemma region_block_in:
  assumes "block_of b (of_nat n)" "i < n" "n < 2 ^ 64"
  shows "mb_addr b + of_nat i \<in> region b"
proof -
  have "unat (of_nat n :: u64) = n" "unat (of_nat i :: u64) = i"
    using assms by (simp_all add: unat_of_nat take_bit_nat_eq_self)
  then show ?thesis using assms in_region_iff [of "mr_start b" "of_nat n" "mb_addr b + of_nat i"]
    by (simp add: block_of_def region_def word_less_nat_alt)
qed

lemma used_mapped: "alloc_inv env st \<Longrightarrow> x \<in> used st \<Longrightarrow> mapped (pmem st) x"
  using used_in_regions [of "arenas_of st"] by (auto simp: alloc_inv_def used_def arenas_ok_def)

text \<open>The allocator leaves the rest of the state alone.\<close>

definition same_engine :: "hook_state \<Rightarrow> hook_state \<Rightarrow> bool" where
  "same_engine st st' \<longleftrightarrow> entries st' = entries st \<and> near_branch_trampoline st' = near_branch_trampoline st \<and>
     plugins st' = plugins st \<and> closure_bridge st' = closure_bridge st \<and> closure_entries st' = closure_entries st \<and>
     instrumented st' = instrumented st"

lemma allocateCodeMemoryArena_frame: "allocateCodeMemoryArena env n st = Ok (a, st') \<Longrightarrow> same_engine st st'"
  by (auto simp: allocateCodeMemoryArena_def obind_eq_Ok Let_def same_engine_def split: prod.splits)

lemma allocateExecBlock_frame:
  assumes "allocateExecBlock env n st = Ok (b, st')"
  shows "same_engine st st'"
proof (cases "alloc_loop (ucast n) (code_arenas st)")
  case (Pair r as)
  have same: "same_engine (st\<lparr>code_arenas := as\<rparr>) s \<Longrightarrow> same_engine st (s\<lparr>code_arenas := as'\<rparr>)" for s as'
    by (simp add: same_engine_def)
  show ?thesis
  proof (cases r)
    case None
    let ?len = "ucast (ALIGN_CEIL (ucast n) (env_page env))"
    have "sbind (allocateCodeMemoryArena env ?len (st\<lparr>code_arenas := as\<rparr>)) (\<lambda>_ st.
          case alloc_last (ucast n) (code_arenas st) of (blk, as) \<Rightarrow>
          obind (CHECK (env_ndebug env) (blk \<noteq> None)) (\<lambda>_. Ok (blk, st\<lparr>code_arenas := as\<rparr>))) = Ok (b, st')"
      using assms by (simp add: allocateExecBlock_def Pair None)
    then obtain a s where "allocateCodeMemoryArena env ?len (st\<lparr>code_arenas := as\<rparr>) = Ok (a, s)"
      and s: "(case alloc_last (ucast n) (code_arenas s) of (blk, as) \<Rightarrow>
          obind (CHECK (env_ndebug env) (blk \<noteq> None)) (\<lambda>_. Ok (blk, s\<lparr>code_arenas := as\<rparr>))) = Ok (b, st')"
      unfolding sbind_eq_Ok by blast
    from allocateCodeMemoryArena_frame [OF this(1)] s show ?thesis
      by (cases "alloc_last (ucast n) (code_arenas s)") (auto simp: obind_eq_Ok intro: same)
  qed (use assms in \<open>auto simp: allocateExecBlock_def Pair same_engine_def\<close>)
qed

lemma FinalizeFromTurboAssembler_frame:
  assumes "FinalizeFromTurboAssembler env a st = Ok (r, st')"
  shows "same_engine st st'"
proof -
  let ?len = "ucast (of_nat (GetBufferSize (buffer a)) :: u64) :: u32"
  have up: "same_engine st s \<Longrightarrow> same_engine st (s\<lparr>pmem := m\<rparr>)" for s m by (simp add: same_engine_def)
  have refl: "same_engine st st" by (simp add: same_engine_def)
  show ?thesis
  proof (cases "realized_addr a = 0")
    case True
    with assms obtain blk s where al: "allocateExecBlock env ?len st = Ok (blk, s)"
      and "blk = None \<longrightarrow> s = st'" "blk \<noteq> None \<longrightarrow> st' = s\<lparr>pmem := pmem st'\<rparr>"
      unfolding FinalizeFromTurboAssembler_def Let_def sbind_eq_Ok if_P [OF True]
      by (auto simp: obind_eq_Ok split: option.splits)
    then show ?thesis using allocateExecBlock_frame [OF al] up [of s "pmem st'"] by (cases blk) auto
  next
    case False
    with assms show ?thesis using up [OF refl] by (auto simp: FinalizeFromTurboAssembler_def Let_def obind_eq_Ok)
  qed
qed

text \<open>What holds after the relocation of \<open>n\<close> instructions.\<close>

definition relocated_entry ::
    "'e dobby_env_scheme \<Rightarrow> hook_state \<Rightarrow> InterceptEntry \<Rightarrow> nat \<Rightarrow> hook_state \<Rightarrow> InterceptEntry \<Rightarrow> u8 list \<Rightarrow> bool" where
  "relocated_entry env st e n st' e' buf \<longleftrightarrow>
     alloc_inv env st' \<and> same_engine st st' \<and>
     patched_addr e' = patched_addr e \<and> origin_insn_size e' = origin_insn_size e \<and>
     trampoline_buffer (routing e') = trampoline_buffer (routing e) \<and> pre_handler (routing e') = pre_handler (routing e) \<and>
     take (4 * n) (origin_insns e') = map (\<lambda>i. mbytes (pmem st') (patched_addr e + of_nat i)) [0..<4 * n] \<and>
     loaded (mbytes (pmem st')) (relocated_addr e') buf \<and>
     (\<forall>i<length buf. \<not> outside st (relocated_addr e' + of_nat i) \<and> relocated_addr e' + of_nat i \<in> used st') \<and>
     (\<forall>m1. loaded m1 (relocated_addr e') buf \<longrightarrow>
        runs_original (mbytes (pmem st)) m1 (patched_addr e) n (relocated_addr e')) \<and>
     (\<forall>x. mapped (pmem st) x \<longrightarrow> mapped (pmem st') x) \<and>
     (\<forall>x. outside st x \<longrightarrow> mbytes (pmem st') x = mbytes (pmem st) x) \<and>
     used st \<subseteq> used st' \<and> (\<forall>x\<in>used st. mbytes (pmem st') x = mbytes (pmem st) x) \<and> new_room env st st' \<and>
     (\<forall>x. mapped (pmem st) x \<longrightarrow> mprot (pmem st') x = mprot (pmem st) x \<or> mprot (pmem st') x = Some RX)"

lemma GenerateRelocatedCode_correct:
  assumes inv: "alloc_inv env st" and tr: "trampoline_buffer (routing e) = Some bs" "length bs = 4 * n" "0 < n" "n \<le> 4"
    and run: "GenerateRelocatedCode env e st = Ok ((ok, e'), st')"
  shows "ok \<and> (\<exists>buf. relocated_entry env st e n st' e' buf)"
proof -
  let ?a = "patched_addr e" and ?origin = "new_MemBlock (patched_addr e) (ucast (of_nat (length bs) :: u32))"
  let ?ctx = "new_relo_ctx (patched_addr e) ?origin (new_MemBlock 0 0)"
  have sz: "unat (ucast (of_nat (length bs) :: u32) :: u64) = 4 * n"
    using tr(4) by (simp add: unat_of_nat take_bit_nat_eq_self tr(2) del: of_nat_mult)
  have ctx: "buffer_cursor ?ctx = 0" "buffer_size ?ctx = 4 * n" "relo_buffer ?ctx = ?a" "relo_src_vmaddr ?ctx = ?a"
    using sz by (simp_all add: new_relo_ctx_def new_MemBlock_def)
  from run tr(1) obtain blks st1 where
    gen: "GenRelocateCode env ?a ?origin (new_MemBlock 0 0) True st = Ok (blks, st1)" and
    rest: "(case blks of (origin, relocated) \<Rightarrow>
        let entry = e\<lparr>routing := (routing e)\<lparr>rt_origin := Some origin, rt_relocated := Some relocated\<rparr>\<rparr> in
        if mr_size relocated = 0 then Ok ((False, entry), st1)
        else
          let entry = entry\<lparr>relocated_addr := mb_addr relocated\<rparr> in
          obind (of_run (read_bytes (pmem st1) (mb_addr origin) (unat (mr_size origin)))) (\<lambda>bs.
          if length bs > length (origin_insns entry) then UB
          else Ok ((True, entry\<lparr>origin_insns := bs @ drop (length bs) (origin_insns entry)\<rparr>), st1))) = Ok ((ok, e'), st')"
    by (auto simp: GenerateRelocatedCode_def GenRelocateCodeAndBranch_def Sigsegv_if_null_def sbind_def obind_eq_Ok
        GetBufferSize_def Let_def)
  from gen obtain ctx' len a code where asm: "relo_assemble (env_ndebug env) (mbytes (pmem st)) ?a ?ctx True = Some (ctx', len, a)"
    and fin: "FinalizeFromTurboAssembler env a st = Ok (Some code, st1)"
    and blks: "blks = (reset_MemBlock ?a (of_nat len) ?origin, reset_MemBlock (mb_addr code) (mr_size code) (new_MemBlock 0 0))"
    by (auto simp: GenRelocateCode_def sbind_def obind_eq_Ok Sigsegv_if_null_def Let_def new_MemBlock_def
        split: option.splits)
  have bl: "length (buffer a) \<le> 28 * n + 24" using block_size [OF asm ctx(1,2)] by simp
  obtain ws ls where "buffer a = enc (final_words True (?a + of_nat (4 * n)) ws ls)" and len: "len = 4 * n"
    using relo_assembleE [OF asm ctx(1,2)] by metis
  then have "length (buffer a) = 4 * (length ws + 2 + 4 * (length ls + 1))" by (simp add: length_final_words)
  then have ne: "buffer a \<noteq> []" by auto
  have "realized_addr a = 0"
    using relo_assemble_words [OF ctx(1,2), of "env_ndebug env" "mbytes (pmem st)" ?a True] asm by (auto split: option.splits)
  from FinalizeFromTurboAssembler_correct [OF inv this ne _ fin] bl tr(4) have
    f: "mb_addr code \<noteq> 0" "block_of code (of_nat (length (buffer a)))" "alloc_inv env st1"
      "loaded (mbytes (pmem st1)) (mb_addr code) (buffer a)" "extends_memory (pmem st) (pmem st1) (region code)"
      "\<And>x. x \<in> region code \<Longrightarrow> x \<in> regions (arenas_of st) \<or> \<not> mapped (pmem st) x" "new_room env st st1"
      "\<And>x. mapped (pmem st) x \<Longrightarrow> mprot (pmem st1) x = mprot (pmem st) x \<or> mprot (pmem st1) x = Some RX"
    and u: "region code \<inter> used st = {}" "used st1 = used st \<union> region code" by auto
  have us: "mbytes (pmem st1) x = mbytes (pmem st) x" if "x \<in> used st" for x
    using used_mapped [OF inv that] u(1) f(5) that by (auto simp: extends_memory_def)
  have "unat (of_nat (length (buffer a)) :: u64) = length (buffer a)"
    using bl tr(4) by (simp add: unat_of_nat take_bit_nat_eq_self)
  then have "mr_size code \<noteq> 0" using f(2) ne by (auto simp: block_of_def)
  moreover have "unat (of_nat (4 * n) :: u64) = 4 * n" using tr(4) by (simp add: unat_of_nat take_bit_nat_eq_self del: of_nat_mult)
  ultimately obtain obs where obs: "read_bytes (pmem st1) ?a (4 * n) = Ret obs" and ok: ok and st': "st' = st1" and
    e': "e' = e\<lparr>routing := (routing e)\<lparr>rt_origin := Some (fst blks), rt_relocated := Some (snd blks)\<rparr>,
            relocated_addr := mb_addr code, origin_insns := obs @ drop (length obs) (origin_insns e)\<rparr>"
    using rest
    by (cases "read_bytes (pmem st1) ?a (4 * n)")
      (auto simp: blks len reset_MemBlock_def new_MemBlock_def Let_def obind_eq_Ok split: if_splits)
  have obs': "obs = map (\<lambda>i. mbytes (pmem st1) (?a + of_nat i)) [0..<4 * n]" by (rule read_bytes_Ret [OF obs])
  have runs: "runs_original (mbytes (pmem st)) m1 ?a n (mb_addr code)" if "loaded m1 (mb_addr code) (buffer a)" for m1
    using relocated_program [OF asm ctx tr(3) _ that] bl tr(4) by simp
  have away: "\<not> outside st (mb_addr code + of_nat i)" if "i < length (buffer a)" for i
    using f(6) [OF region_block_in [OF f(2) that]] bl tr(4) by (auto simp: outside_def)
  have "mb_addr code + of_nat i \<in> used st1" if "i < length (buffer a)" for i
    using region_block_in [OF f(2) that] bl tr(4) u(2) by auto
  note away = away this
  have keep: "mapped (pmem st1) x \<and> mbytes (pmem st1) x = mbytes (pmem st) x" if "outside st x" for x
    using that f(5) f(6) [of x] by (auto simp: outside_def extends_memory_def)
  have "relocated_entry env st e n st' e' (buffer a)"
    using FinalizeFromTurboAssembler_frame [OF fin] f(3,4,5,7,8) runs away keep u(2) us
    by (auto simp: relocated_entry_def st' e' obs' extends_memory_def)
  then show ?thesis using ok by blast
qed

section \<open>DobbyHook\<close>

text \<open>
  What a hook needs: room for the longest trampoline in code that is mapped and not the
  allocator's, and for the result a slot with the same properties, apart from that code.
\<close>

definition code_room :: "'s mem_state_scheme \<Rightarrow> addr \<Rightarrow> bool" where
  "code_room st a \<longleftrightarrow> unat a + 16 < 2 ^ 64 \<and> (\<forall>i<16. outside st (a + of_nat i))"

definition slot_room :: "'s mem_state_scheme \<Rightarrow> addr \<Rightarrow> addr \<Rightarrow> bool" where
  "slot_room st a slot \<longleftrightarrow> slot = 0 \<or> (\<forall>i<8. outside st (slot + of_nat i) \<and> \<not> in_range (slot + of_nat i) a 16)"

definition in_slot :: "addr \<Rightarrow> addr \<Rightarrow> bool" where
  "in_slot slot x \<longleftrightarrow> slot \<noteq> 0 \<and> in_range x slot 8"

lemma store64_mem:
  "store64 m a w = Ret m' \<Longrightarrow> m' = m\<lparr>mbytes := upd_le (mbytes m) 8 a w\<rparr>"
  using store_le_upd [of m a 8 w] store_le_fails [of m a 8 w] by (cases "all_writable m a 8") (auto simp: store64_def)

lemma protect_code:
  assumes "alloc_inv env st" "mapped (pmem st) a"
    "OSMemory_SetPermission env (ALIGN_FLOOR a (env_page env)) (env_page env) kReadExecute (pmem st) = (ok, m)"
  shows "ok" "m = set_page a RX (pmem st)" "alloc_inv env (st\<lparr>pmem := m\<rparr>)"
proof -
  have k: "kernel_ok env" and u: "page_uniform (pmem st)" using assms(1) by (simp_all add: alloc_inv_def)
  have "mapped (pmem st) x" if "x - PAGE_START a < 0x1000" for x
  proof -
    have "PAGE_START x = PAGE_START a" using that page_offset_less [of x a] by simp
    then show ?thesis using assms(2) page_uniformD [OF u] by (metis mapped_def)
  qed
  from kernel_okD(2) [OF k PAGE_START_idem this, where p = RX]
  have "fst (os_mprotect env (pmem st) (PAGE_START a) 0x1000 RX) = 0"
    "snd (snd (os_mprotect env (pmem st) (PAGE_START a) 0x1000 RX)) = set_page a RX (pmem st)"
    using assms(2) by (simp_all add: set_page_def)
  then show "ok" and m: "m = set_page a RX (pmem st)"
    using assms(3) kernel_okD(1) [OF k]
    by (auto simp: OSMemory_SetPermission_def PAGE_START_eq [symmetric] split: prod.splits)
  show "alloc_inv env (st\<lparr>pmem := m\<rparr>)"
    using assms(1) by (simp add: alloc_inv_def m arenas_of_def page_uniform_set_page)
qed

lemma BuildRouting_plain:
  assumes "\<not> near_branch_trampoline st" "e = new_InterceptEntry raw ty address st0"
  shows "\<exists>bs. GenerateNormalTrampolineBuffer address replace_func = Some bs \<and> (length bs = 12 \<or> length bs = 16) \<and>
    FunctionInlineHook_BuildRouting env stack replace_func e st =
      Ok (e\<lparr>routing := new_InterceptRouting\<lparr>trampoline_target := replace_func, trampoline_buffer := Some bs\<rparr>\<rparr>, st)"
proof -
  obtain bs where "GenerateNormalTrampolineBuffer address replace_func = Some bs" "length bs = 12 \<or> length bs = 16"
    using trampoline_total by blast
  then show ?thesis using assms
    by (auto simp: FunctionInlineHook_BuildRouting_def GenerateTrampolineBuffer_def new_InterceptEntry_def new_InterceptRouting_def)
qed

lemma hook_cases:
  assumes "\<not> near_branch_trampoline st" "DobbyHook env stack raw address replace_func slot st = Ok (RS_SUCCESS, st')"
  obtains m bs st1 e ok m2 m3 where
    "OSMemory_SetPermission env (ALIGN_FLOOR address (env_page env)) (env_page env) kReadExecute (pmem st) = (True, m)"
    "Interceptor_find address st = None" "GenerateNormalTrampolineBuffer address replace_func = Some bs"
    "length bs = 12 \<or> length bs = 16"
    "GenerateRelocatedCode env ((new_InterceptEntry raw kFunctionInlineHook address st)\<lparr>routing := new_InterceptRouting
        \<lparr>trampoline_target := replace_func, trampoline_buffer := Some bs\<rparr>\<rparr>) (st\<lparr>pmem := m\<rparr>) = Ok ((ok, e), st1)"
    "(if slot \<noteq> 0 then of_run (store64 (pmem st1) slot (relocated_addr e)) else Ok (pmem st1)) = Ok m2"
    "DobbyCodePatch env (patched_addr e) (the (trampoline_buffer (routing e)))
       (of_nat (length (the (trampoline_buffer (routing e))))) m2 = Ok m3"
    "st' = Interceptor_add e (st1\<lparr>pmem := m3\<rparr>)"
proof -
  let ?e0 = "new_InterceptEntry raw kFunctionInlineHook address st"
  obtain ok0 m where p: "OSMemory_SetPermission env (ALIGN_FLOOR address (env_page env)) (env_page env) kReadExecute (pmem st) = (ok0, m)"
    by (metis surj_pair)
  have nb: "\<not> near_branch_trampoline (st\<lparr>pmem := m\<rparr>)" using assms(1) by simp
  have e0: "new_InterceptEntry raw kFunctionInlineHook address (st\<lparr>pmem := m\<rparr>) = ?e0" "patched_addr ?e0 = address"
    by (simp_all add: new_InterceptEntry_def Interceptor_count_def)
  obtain bs where bs: "GenerateNormalTrampolineBuffer address replace_func = Some bs" "length bs = 12 \<or> length bs = 16"
    "FunctionInlineHook_BuildRouting env stack replace_func ?e0 (st\<lparr>pmem := m\<rparr>) =
      Ok (?e0\<lparr>routing := new_InterceptRouting\<lparr>trampoline_target := replace_func, trampoline_buffer := Some bs\<rparr>\<rparr>, st\<lparr>pmem := m\<rparr>)"
    using BuildRouting_plain [OF nb refl, of address replace_func env stack] by blast
  let ?e1 = "?e0\<lparr>routing := new_InterceptRouting\<lparr>trampoline_target := replace_func, trampoline_buffer := Some bs\<rparr>\<rparr>"
  have fail: "RS_FAILED \<noteq> RS_SUCCESS" by (simp add: RS_FAILED_def RS_SUCCESS_def)
  have "address \<noteq> 0" "ok0" "Interceptor_find address (st\<lparr>pmem := m\<rparr>) = None"
    using assms(2) fail p by (auto simp: DobbyHook_def Let_def split: if_splits option.splits)
  note ok = this
  have fnd: "Interceptor_find address st = None" using ok(3) by (simp add: Interceptor_find_def)
  from assms(2) ok p have "sbind (FunctionInlineHook_DispatchRouting env stack replace_func ?e0 (st\<lparr>pmem := m\<rparr>)) (\<lambda>entry st.
      obind (if slot \<noteq> 0 then of_run (store64 (pmem st) slot (relocated_addr entry)) else Ok (pmem st)) (\<lambda>m.
      obind (Routing_Commit env entry (st\<lparr>pmem := m\<rparr>)) (\<lambda>st. Ok (RS_SUCCESS, Interceptor_add entry st)))) = Ok (RS_SUCCESS, st')"
    by (simp add: DobbyHook_def Let_def e0)
  then obtain r st1 where gen: "GenerateRelocatedCode env ?e1 (st\<lparr>pmem := m\<rparr>) = Ok (r, st1)"
    and rest: "obind (if slot \<noteq> 0 then of_run (store64 (pmem st1) slot (relocated_addr (snd r))) else Ok (pmem st1)) (\<lambda>m.
      obind (Routing_Commit env (snd r) (st1\<lparr>pmem := m\<rparr>)) (\<lambda>st. Ok (RS_SUCCESS, Interceptor_add (snd r) st))) = Ok (RS_SUCCESS, st')"
    unfolding FunctionInlineHook_DispatchRouting_def bs(3) sbind_simps
    unfolding sbind_eq_Ok by (elim exE conjE) (simp only: outcome.inject prod.inject)
  obtain m2 st2 where m2: "(if slot \<noteq> 0 then of_run (store64 (pmem st1) slot (relocated_addr (snd r))) else Ok (pmem st1)) = Ok m2"
    and cm: "Routing_Commit env (snd r) (st1\<lparr>pmem := m2\<rparr>) = Ok st2" and st': "st' = Interceptor_add (snd r) st2"
    using rest unfolding obind_eq_Ok by auto
  obtain m3 where m3: "DobbyCodePatch env (patched_addr (snd r)) (the (trampoline_buffer (routing (snd r))))
       (of_nat (length (the (trampoline_buffer (routing (snd r)))))) m2 = Ok m3" and st2: "st2 = st1\<lparr>pmem := m3\<rparr>"
    using cm by (auto simp: Routing_Commit_def Routing_Active_def obind_eq_Ok Sigsegv_if_null_def GetBufferSize_def split: option.splits)
  show thesis
    by (rule that [of m bs "fst r" "snd r" st1 m2 m3]) (use ok p fnd bs gen m2 m3 st' st2 in auto)
qed

text \<open>Everything a successful hook leaves behind.\<close>

definition hooked ::
    "'e dobby_env_scheme \<Rightarrow> hook_state \<Rightarrow> addr \<Rightarrow> addr \<Rightarrow> addr \<Rightarrow> hook_state \<Rightarrow> InterceptEntry \<Rightarrow> u8 list \<Rightarrow> bool" where
  "hooked env st address replace_func slot st' e bs \<longleftrightarrow>
     alloc_inv env st' \<and> entries st' = entries st @ [e] \<and> patched_addr e = address \<and>
     GenerateNormalTrampolineBuffer address replace_func = Some bs \<and> (length bs = 12 \<or> length bs = 16) \<and>
     loaded (mbytes (pmem st')) address bs \<and>
     runs_original (mbytes (pmem st)) (mbytes (pmem st')) address (length bs div 4) (relocated_addr e) \<and>
     take (length bs) (origin_insns e) = map (\<lambda>i. mbytes (pmem st) (address + of_nat i)) [0..<length bs] \<and>
     (slot \<noteq> 0 \<longrightarrow> get_le (mbytes (pmem st')) 8 slot = relocated_addr e) \<and>
     (\<forall>x. mapped (pmem st) x \<longrightarrow> mapped (pmem st') x) \<and>
     (\<forall>x. outside st x \<and> \<not> in_range x address (length bs) \<and> \<not> in_slot slot x \<longrightarrow>
        mbytes (pmem st') x = mbytes (pmem st) x)"

lemma dobby_hook_effect:
  assumes inv: "alloc_inv env st" and nb: "\<not> near_branch_trampoline st" and room: "code_room st address" "slot_room st address slot"
    and run: "DobbyHook env stack raw address replace_func slot st = Ok (RS_SUCCESS, st')"
  shows "\<exists>e bs. hooked env st address replace_func slot st' e bs \<and> origin_insn_size e = origin_insn_size raw \<and>
    Interceptor_find address st = None"
proof -
  from hook_cases [OF nb run] obtain m bs st1 e ok m2 m3 where
    p: "OSMemory_SetPermission env (ALIGN_FLOOR address (env_page env)) (env_page env) kReadExecute (pmem st) = (True, m)"
    and fnd: "Interceptor_find address st = None" and bs: "GenerateNormalTrampolineBuffer address replace_func = Some bs"
    "length bs = 12 \<or> length bs = 16"
    and gen: "GenerateRelocatedCode env ((new_InterceptEntry raw kFunctionInlineHook address st)\<lparr>routing := new_InterceptRouting
        \<lparr>trampoline_target := replace_func, trampoline_buffer := Some bs\<rparr>\<rparr>) (st\<lparr>pmem := m\<rparr>) = Ok ((ok, e), st1)"
    and m2: "(if slot \<noteq> 0 then of_run (store64 (pmem st1) slot (relocated_addr e)) else Ok (pmem st1)) = Ok m2"
    and m3: "DobbyCodePatch env (patched_addr e) (the (trampoline_buffer (routing e)))
       (of_nat (length (the (trampoline_buffer (routing e))))) m2 = Ok m3"
    and st': "st' = Interceptor_add e (st1\<lparr>pmem := m3\<rparr>)" by metis
  let ?e1 = "(new_InterceptEntry raw kFunctionInlineHook address st)\<lparr>routing := new_InterceptRouting
        \<lparr>trampoline_target := replace_func, trampoline_buffer := Some bs\<rparr>\<rparr>"
  let ?n = "length bs div 4" and ?st0 = "st\<lparr>pmem := m\<rparr>"
  have n: "length bs = 4 * ?n" "0 < ?n" "?n \<le> 4" using bs(2) by auto
  have u0: "page_uniform (pmem st)" using inv by (simp add: alloc_inv_def)
  have "outside st (address + of_nat 0)" using room(1) unfolding code_room_def by (metis zero_less_numeral)
  then have "mapped (pmem st) address" by (simp add: outside_def)
  from protect_code [OF inv this p] have m: "m = set_page address RX (pmem st)" and inv0: "alloc_inv env ?st0" by simp_all
  have bytes0: "mbytes m = mbytes (pmem st)" "mapped m = mapped (pmem st)" by (simp_all add: m u0)
  have out0: "outside ?st0 = outside st" by (rule ext) (simp add: outside_def bytes0 arenas_of_def)
  have e1: "patched_addr ?e1 = address" "origin_insn_size ?e1 = origin_insn_size raw" "trampoline_buffer (routing ?e1) = Some bs"
    by (simp_all add: new_InterceptEntry_def)
  from GenerateRelocatedCode_correct [OF inv0 e1(3) n gen] obtain buf where
    r: "relocated_entry env ?st0 ?e1 ?n st1 e buf" by blast
  have e: "patched_addr e = address" "origin_insn_size e = origin_insn_size raw" "trampoline_buffer (routing e) = Some bs"
    and inv1: "alloc_inv env st1" and eng: "same_engine ?st0 st1"
    and org: "take (4 * ?n) (origin_insns e) = map (\<lambda>i. mbytes (pmem st1) (address + of_nat i)) [0..<4 * ?n]"
    and lb: "loaded (mbytes (pmem st1)) (relocated_addr e) buf"
    and away: "\<And>i. i < length buf \<Longrightarrow> \<not> outside st (relocated_addr e + of_nat i)"
    and runs: "\<And>m1. loaded m1 (relocated_addr e) buf \<Longrightarrow> runs_original (mbytes (pmem st)) m1 address ?n (relocated_addr e)"
    and mp1: "\<And>x. mapped (pmem st) x \<Longrightarrow> mapped (pmem st1) x"
    and kp1: "\<And>x. outside st x \<Longrightarrow> mbytes (pmem st1) x = mbytes (pmem st) x"
    using r by (auto simp: relocated_entry_def e1 out0 bytes0)
  have b2: "mbytes m2 = (if slot \<noteq> 0 then upd_le (mbytes (pmem st1)) 8 slot (relocated_addr e) else mbytes (pmem st1))"
    and p2: "mprot m2 = mprot (pmem st1)"
    using m2 store64_mem [of "pmem st1" slot "relocated_addr e"]
    by (cases "store64 (pmem st1) slot (relocated_addr e)"; auto split: if_splits)+
  have u1: "page_uniform (pmem st1)" using inv1 by (simp add: alloc_inv_def)
  have u2: "page_uniform m2" using u1 unfolding page_uniform_def p2 .
  have mp2: "mapped m2 = mapped (pmem st1)" by (simp add: mapped_def p2 fun_eq_iff)
  have len: "unat (of_nat (length bs) :: u32) = length bs" using bs(2) by auto
  have co: "outside st (address + of_nat i)" if "i < length bs" for i
    using room(1) that bs(2) by (auto simp: code_room_def)
  have mp: "mapped m2 (address + of_nat i)" if "i < unat (of_nat (length bs) :: u32)" for i
    using co [of i] that mp1 by (simp add: len outside_def mp2)
  have nw: "unat address + unat (of_nat (length bs) :: u32) < 2 ^ 64" using room(1) bs(2) by (auto simp: code_room_def len)
  have k: "kernel_ok env" using inv by (simp add: alloc_inv_def)
  from m3 e have "DobbyCodePatch env address bs (of_nat (length bs)) m2 = Ok m3" by simp
  then have m3': "m3 = (set_pages address (address + ucast (of_nat (length bs) :: u32)) RX m2)
      \<lparr>mbytes := overlay (mbytes m2) address bs\<rparr>"
    using code_patch [OF k u2 _ _ nw mp, of bs] len bs(2) by auto
  have range16: "in_range x address 16" if "in_range x address (length bs)" for x using that bs(2) by (auto simp: in_range_def)
  have b3: "mbytes m3 = overlay (mbytes m2) address bs" by (simp add: m3')
  have kp3: "mbytes m3 x = mbytes (pmem st1) x" if "\<not> in_range x address (length bs)" "\<not> in_slot slot x" for x
  proof -
    have "mbytes m3 x = mbytes m2 x" unfolding b3 by (rule overlay_outside [OF that(1)])
    also have "\<dots> = mbytes (pmem st1) x"
      using that(2) upd_le_other [of 8 x slot "mbytes (pmem st1)" "relocated_addr e"] in_range_iff [of 8 x slot]
      by (auto simp: b2 in_slot_def)
    finally show ?thesis .
  qed
  have blk: "loaded (mbytes m3) (relocated_addr e) buf"
    unfolding loaded_def
  proof (intro allI impI)
    fix i
    assume i: "i < length buf"
    let ?x = "relocated_addr e + of_nat i"
    have "\<not> in_range ?x address (length bs)" using away [OF i] co bs(2) in_range_iff [of "length bs" ?x address] by auto
    moreover have "\<not> in_slot slot ?x"
      using away [OF i] room(2) in_range_iff [of 8 ?x slot] by (auto simp: in_slot_def slot_room_def)
    ultimately have "mbytes m3 ?x = mbytes (pmem st1) ?x" by (rule kp3)
    then show "mbytes m3 ?x = buf ! i" using lb i by (simp add: loaded_def)
  qed
  have slot: "get_le (mbytes m3) 8 slot = relocated_addr e" if "slot \<noteq> 0"
  proof -
    have "(get_le (mbytes m3) 8 slot :: u64) = get_le (mbytes m2) 8 slot"
    proof (intro get_le_cong allI impI)
      fix i :: nat
      assume "i < 8"
      then have "\<not> in_range (slot + of_nat i) address 16" using room(2) that by (simp add: slot_room_def)
      then show "mbytes m3 (slot + of_nat i) = mbytes m2 (slot + of_nat i)"
        unfolding b3 using range16 by (intro overlay_outside) blast
    qed
    then show ?thesis using that by (simp add: b2 get_upd_le)
  qed
  have inv': "alloc_inv env st'"
    using inv1 u2 by (auto simp: st' Interceptor_add_def alloc_inv_def m3' mp2 arenas_of_def set_pages_uniform)
  have "map (\<lambda>i. mbytes (pmem st1) (address + of_nat i)) [0..<length bs] =
      map (\<lambda>i. mbytes (pmem st) (address + of_nat i)) [0..<length bs]" using kp1 co by simp
  then have org': "take (length bs) (origin_insns e) = map (\<lambda>i. mbytes (pmem st) (address + of_nat i)) [0..<length bs]"
    using org n(1) by metis
  have "loaded (mbytes m3) address bs" unfolding b3 by (rule overlay_loaded) (use bs(2) in auto)
  then have "hooked env st address replace_func slot st' e bs"
    unfolding hooked_def using inv' eng e bs org' slot kp3 kp1 mp1 runs [OF blk]
    by (simp add: st' Interceptor_add_def same_engine_def m3' mp2)
  then show ?thesis using e(2) fnd by blast
qed

section \<open>When a hook succeeds\<close>

lemma read_bytes_readable:
  "all_readable m a n \<Longrightarrow> read_bytes m a n = Ret (map (\<lambda>i. mbytes m (a + of_nat i)) [0..<n])"
proof -
  have "all_readable m a n \<Longrightarrow> \<exists>bs. read_bytes m a n = Ret bs"
  proof (induction n arbitrary: a)
    case (Suc n)
    then have "readable m a" "all_readable m (a + 1) n" by (auto simp: all_readable_def all_less_Suc_shift algebra_simps)
    moreover from Suc.IH [OF this(2)] obtain bs where "read_bytes m (a + 1) n = Ret bs" by blast
    ultimately show ?case by (simp add: load8_def)
  qed simp
  then show "all_readable m a n \<Longrightarrow> ?thesis" using read_bytes_Ret by blast
qed

definition implemented :: "'e dobby_env_scheme \<Rightarrow> (addr \<Rightarrow> u8) \<Rightarrow> addr \<Rightarrow> bool" where
  "implemented env m a \<longleftrightarrow> env_ndebug env \<or> (\<forall>i<4. let w = get_le m 4 (a + of_nat (4 * i)) :: u32 in
     \<not> inst_is_ldr_literal w \<or> field 31 30 w = 0 \<or> field 31 30 w = 1)"

lemma GenerateRelocatedCode_serves:
  assumes inv: "alloc_inv env st" and tr: "trampoline_buffer (routing e) = Some bs" "length bs = 4 * n" "0 < n" "n \<le> 4"
    and rd: "all_readable (pmem st) (patched_addr e) 16" and imp: "implemented env (mbytes (pmem st)) (patched_addr e)"
    and kern: "room_in (code_arenas st) 136 \<or> fst (OSMemory_Allocate env 0x1000 kNoAccess 0 (pmem st)) \<noteq> 0"
    and buf: "16 \<le> length (origin_insns e)" and room: "code_room st (patched_addr e)"
  shows "\<exists>e' st'. GenerateRelocatedCode env e st = Ok ((True, e'), st')"
proof -
  let ?a = "patched_addr e" and ?origin = "new_MemBlock (patched_addr e) (ucast (of_nat (length bs) :: u32))"
  let ?ctx = "new_relo_ctx (patched_addr e) ?origin (new_MemBlock 0 0)"
  have sz: "unat (ucast (of_nat (length bs) :: u32) :: u64) = 4 * n"
    using tr(4) by (simp add: unat_of_nat take_bit_nat_eq_self tr(2) del: of_nat_mult)
  have ctx: "buffer_cursor ?ctx = 0" "buffer_size ?ctx = 4 * n" "relo_buffer ?ctx = ?a" "relo_src_vmaddr ?ctx = ?a"
    using sz by (simp_all add: new_relo_ctx_def new_MemBlock_def)
  have rd4: "all_readable (pmem st) ?a (4 * n)" using rd tr(4) by (auto simp: all_readable_def)
  have "relo_assemble (env_ndebug env) (mbytes (pmem st)) ?a ?ctx True \<noteq> None"
  proof
    assume "relo_assemble (env_ndebug env) (mbytes (pmem st)) ?a ?ctx True = None"
    from block_aborts_iff [OF ctx(1,2), THEN iffD1, OF this] obtain i where "\<not> env_ndebug env" "i < n"
      "inst_is_ldr_literal (orig_inst (mbytes (pmem st)) ?ctx i)" "field 31 30 (orig_inst (mbytes (pmem st)) ?ctx i) \<noteq> 0"
      "field 31 30 (orig_inst (mbytes (pmem st)) ?ctx i) \<noteq> 1" by auto
    moreover from this tr(4) have "i < 4" by simp
    ultimately show False using imp by (auto simp: implemented_def orig_inst_def ctx(3) Let_def)
  qed
  then obtain ctx' len a where asm: "relo_assemble (env_ndebug env) (mbytes (pmem st)) ?a ?ctx True = Some (ctx', len, a)" by auto
  have bl: "length (buffer a) \<le> 28 * n + 24" using block_size [OF asm ctx(1,2)] by simp
  obtain ws ls where "buffer a = enc (final_words True (?a + of_nat (4 * n)) ws ls)" and len: "len = 4 * n"
    using relo_assembleE [OF asm ctx(1,2)] by metis
  then have "length (buffer a) = 4 * (length ws + 2 + 4 * (length ls + 1))" by (simp add: length_final_words)
  then have ne: "buffer a \<noteq> []" by auto
  have r0: "realized_addr a = 0"
    using relo_assemble_words [OF ctx(1,2), of "env_ndebug env" "mbytes (pmem st)" ?a True] asm by (auto split: option.splits)
  have le: "length (buffer a) \<le> 0x1000" using bl tr(4) by simp
  have "room_in (code_arenas st) (length (buffer a)) \<or> fst (OSMemory_Allocate env 0x1000 kNoAccess 0 (pmem st)) \<noteq> 0"
    using kern room_in_mono [of "code_arenas st" 136 "length (buffer a)"] bl tr(4) by auto
  from FinalizeFromTurboAssembler_serves [OF inv r0 ne le this] obtain r st1 where
    fin0: "FinalizeFromTurboAssembler env a st = Ok (r, st1)" by blast
  from FinalizeFromTurboAssembler_correct [OF inv r0 ne le fin0] obtain code where r: "r = Some code" and
    f: "block_of code (of_nat (length (buffer a)))"
      "\<And>x. mapped (pmem st) x \<Longrightarrow> mprot (pmem st1) x = mprot (pmem st) x \<or> mprot (pmem st1) x = Some RX" by auto
  note fin = fin0 [unfolded r]
  have "unat (of_nat (length (buffer a)) :: u64) = length (buffer a)"
    using bl tr(4) by (simp add: unat_of_nat take_bit_nat_eq_self)
  then have nz: "mr_size code \<noteq> 0" using f(1) ne by (auto simp: block_of_def)
  have "all_readable (pmem st1) ?a (4 * n)"
    unfolding all_readable_def
  proof (intro allI impI)
    fix i
    assume "i < 4 * n"
    then have "readable (pmem st) (?a + of_nat i)" using rd4 by (simp add: all_readable_def)
    then show "readable (pmem st1) (?a + of_nat i)"
      using f(2) [of "?a + of_nat i"] by (auto simp: readable_def mapped_def prot_defs small_bits split: option.splits)
  qed
  from read_bytes_readable [OF this] have rb: "\<exists>obs. read_bytes (pmem st1) ?a (4 * n) = Ret obs \<and> length obs = 4 * n" by simp
  have "unat (of_nat (4 * n) :: u64) = 4 * n" using tr(4) by (simp add: unat_of_nat take_bit_nat_eq_self del: of_nat_mult)
  with rb obtain obs where obs: "read_bytes (pmem st1) ?a (unat (of_nat (4 * n) :: u64)) = Ret obs" "length obs = 4 * n" by auto
  have o: "mb_addr ?origin = ?a" "unat (mr_size ?origin) = 4 * n" using sz by (simp_all add: new_MemBlock_def)
  let ?o1 = "reset_MemBlock ?a (of_nat len) ?origin" and ?r1 = "reset_MemBlock (mb_addr code) (mr_size code) (new_MemBlock 0 0)"
  have gen: "GenRelocateCodeAndBranch env ?a ?origin (new_MemBlock 0 0) st = Ok ((?o1, ?r1), st1)"
    unfolding GenRelocateCodeAndBranch_def GenRelocateCode_def o read_bytes_readable [OF rd4] of_run.simps obind.simps asm
    by (simp add: fin Sigsegv_if_null_def o)
  have o1: "mb_addr ?o1 = ?a" "mr_size ?o1 = of_nat (4 * n)" "mr_size ?r1 \<noteq> 0"
    using nz by (simp_all add: reset_MemBlock_def len)
  show ?thesis
    unfolding GenerateRelocatedCode_def tr(1) Sigsegv_if_null_def option.case obind.simps GetBufferSize_def Let_def gen sbind_simps
      prod.case o1(1,2) obs(1) of_run.simps if_not_P [OF o1(3)]
    using obs(2) buf tr(4) by simp
qed

lemma code_room_mapped: "code_room st a \<Longrightarrow> mapped (pmem st) a"
proof -
  assume "code_room st a"
  then have "outside st (a + of_nat 0)" unfolding code_room_def by (metis zero_less_numeral)
  then show ?thesis by (simp add: outside_def)
qed

end
