(* ===== verification/Db_Slot.thy ===== *)
theory Db_Slot
  imports Db_Hooked
begin

unbundle bit_operations_syntax

text \<open>
  What a hook does to the protection of memory that is not the code: the store into the caller's
  slot happens after the relocated code was written, and writing code takes the page behind it
  along. From this the cases in which a hook succeeds and in which that store faults.
\<close>

section \<open>Pages of the allocator\<close>

text \<open>An address on a page of a code arena or on the page of the arena's end.\<close>

definition beside_arena :: "MemoryArena list \<Rightarrow> addr \<Rightarrow> bool" where
  "beside_arena as x \<longleftrightarrow> (\<exists>a\<in>set as. \<exists>y. mr_start a \<le> y \<and> y \<le> mr_end a \<and> PAGE_START x = PAGE_START y)"

lemma alloc_loop_within:
  "list_all arena_wf as \<Longrightarrow> alloc_loop n as = (Some b, as') \<Longrightarrow>
     \<exists>a\<in>set as. mr_start a \<le> mb_addr b \<and> mb_addr b \<le> mr_end a \<and> mr_start a \<le> mb_addr b + n \<and> mb_addr b + n \<le> mr_end a"
proof (induction as arbitrary: as')
  case (Cons a as)
  show ?case
  proof (cases "allocMemBlock n a")
    case (Pair r a')
    show ?thesis
    proof (cases r)
      case None
      then show ?thesis using Cons Pair by (auto split: prod.splits)
    next
      case (Some b')
      with Pair Cons.prems have b: "allocMemBlock n a = (Some b, a')" and wf: "arena_wf a" by auto
      have "arena_wf a'" by (rule allocMemBlock_fits [OF wf b])
      moreover have "mb_addr b = cursor_addr a" "a' = a\<lparr>cursor_addr := cursor_addr a + n\<rparr>"
        using b by (auto simp: allocMemBlock_def new_MemBlock_def split: if_splits)
      ultimately show ?thesis using wf by (auto simp: arena_wf_def)
    qed
  qed
qed simp

text \<open>
  An allocation leaves protections alone but for new pages, which become readable and executable;
  its block is in an old arena, or starts a new one.
\<close>

lemma allocateExecBlock_pages:
  assumes inv: "alloc_inv env st" and al: "allocateExecBlock env sz st = Ok (Some b, st1)" "mb_addr b \<noteq> 0"
  shows "(\<forall>x. mprot (pmem st1) x = mprot (pmem st) x \<or> \<not> mapped (pmem st) x \<and> mprot (pmem st1) x = Some RX) \<and>
    (beside_arena (code_arenas st) (mb_addr b) \<and> beside_arena (code_arenas st) (mb_addr b + ucast sz) \<or>
     PAGE_START (mb_addr b) = mb_addr b \<and> (\<forall>x. x - mb_addr b < exec_arena_len sz \<longrightarrow> \<not> mapped (pmem st) x))"
proof (cases "alloc_loop (ucast sz) (code_arenas st)")
  case (Pair r as)
  show ?thesis
  proof (cases r)
    case (Some b')
    have wf: "list_all arena_wf (code_arenas st)" using inv by (simp add: alloc_inv_def arenas_of_def arenas_ok_def)
    from Some Pair al(1) have "b' = b" "st1 = st\<lparr>code_arenas := as\<rparr>" by (auto simp: allocateExecBlock_def)
    with alloc_loop_within [OF wf] Pair Some show ?thesis by (fastforce simp: beside_arena_def)
  next
    case None
    then have as: "st\<lparr>code_arenas := as\<rparr> = st" using alloc_loop_None Pair by fastforce
    have pg: "env_page env = 0x1000" using inv kernel_okD(1) by (auto simp: alloc_inv_def)
    obtain a m ok m' where r: "OSMemory_Allocate env (exec_arena_len sz) kNoAccess 0 (pmem st) = (a, m)"
      "OSMemory_SetPermission env a (exec_arena_len sz) kReadExecute m = (ok, m')" by (metis surj_pair)
    let ?a = "new_MemoryArena a (exec_arena_len sz)"
    have "allocateCodeMemoryArena env (ucast (ALIGN_CEIL (ucast sz) 0x1000)) st =
        Ok (?a, st\<lparr>pmem := m', code_arenas := code_arenas st @ [?a]\<rparr>)"
      using ceil_page32 [of "ucast sz"] r
      by (simp add: allocateCodeMemoryArena_def CHECK_def pg exec_arena_len_def Let_def)
    with al(1) Pair None as pg have b: "mb_addr b = a" and st1: "pmem st1 = m'"
      by (auto simp: allocateExecBlock_def alloc_last_snoc CHECK_def allocMemBlock_def new_MemoryArena_def new_MemBlock_def
          split: if_splits)
    have "exec_arena_len sz mod 0x1000 = 0" unfolding exec_arena_len_def by (rule ceil_page32)
    note f = fresh_arena [OF inv this r(1) al(2) [unfolded b] r(2)]
    have "GetProtectionFromMemoryPermission kReadExecute = RX" by simp
    then have "mprot m' x = mprot (pmem st) x \<or> \<not> mapped (pmem st) x \<and> mprot m' x = Some RX" for x
      using f(5) [of x] f(6) [of x] by (cases "x - a < exec_arena_len sz") simp_all
    then show ?thesis using f(4,5) by (simp add: b st1)
  qed
qed

text \<open>
  Placing code keeps the protection of mapped memory that is not beside an arena, and makes nothing
  writable.
\<close>

lemma FinalizeFromTurboAssembler_pages:
  assumes inv: "alloc_inv env st" and a: "realized_addr a = 0" "buffer a \<noteq> []" "length (buffer a) < 0x1000"
    and run: "FinalizeFromTurboAssembler env a st = Ok (r, st')"
  shows "(\<forall>x. mprot (pmem st') x = mprot (pmem st) x \<or> mprot (pmem st') x = Some RX) \<and>
    (\<forall>x. mapped (pmem st) x \<and> \<not> beside_arena (code_arenas st) x \<longrightarrow> mprot (pmem st') x = mprot (pmem st) x)"
proof -
  let ?n = "length (buffer a)" and ?len = "ucast (of_nat (length (buffer a)) :: u64) :: u32"
  have n: "unat ?len = ?n" "0 < unat ?len" "unat ?len \<le> 0x1000"
    using a(2,3) by (simp_all add: unsigned_ucast_eq unat_of_nat take_bit_nat_eq_self)
  have n': "unat ?len \<le> 2 ^ 32 - 0x1000" using n(3) by simp
  from run have "sbind (allocateExecBlock env ?len st) (\<lambda>blk st.
      case blk of None \<Rightarrow> Ok (None, st)
      | Some blk \<Rightarrow> obind (DobbyCodePatch env (mb_addr blk) (buffer a) ?len (pmem st)) (\<lambda>m.
          Ok (Some (new_MemBlock (mb_addr blk) (of_nat ?n)), st\<lparr>pmem := m\<rparr>))) = Ok (r, st')"
    by (simp add: FinalizeFromTurboAssembler_def a(1) GetBufferSize_def Let_def)
  then obtain blk st1 where al: "allocateExecBlock env ?len st = Ok (blk, st1)" and rest: "(case blk of None \<Rightarrow> Ok (None, st1)
      | Some blk \<Rightarrow> obind (DobbyCodePatch env (mb_addr blk) (buffer a) ?len (pmem st1)) (\<lambda>m.
          Ok (Some (new_MemBlock (mb_addr blk) (of_nat ?n)), st1\<lparr>pmem := m\<rparr>))) = Ok (r, st')"
    unfolding sbind_def obind_eq_Ok by auto
  from allocateExecBlock_cases [OF inv n' al] obtain b where b: "blk = Some b" "mb_addr b = 0 \<longrightarrow> \<not> mapped (pmem st1) 0" by blast
  have k: "kernel_ok env" using inv by (simp add: alloc_inv_def)
  have nz: "mb_addr b \<noteq> 0"
  proof
    assume "mb_addr b = 0"
    moreover have "?len \<noteq> 0" using n(2) by auto
    ultimately show False using rest b patch_null [OF k _ a(2), of "pmem st1" ?len] by auto
  qed
  note al' = al [unfolded b(1)]
  note f = allocateExecBlock_fresh [OF inv al' nz] and pgs = allocateExecBlock_pages [OF inv al' nz]
  let ?e = "mb_addr b + ucast ?len"
  have "DobbyCodePatch env (mb_addr b) (buffer a) ?len (pmem st1) =
      Ok ((set_pages (mb_addr b) ?e RX (pmem st1))\<lparr>mbytes := overlay (mbytes (pmem st1)) (mb_addr b) (buffer a)\<rparr>)"
    by (rule patch_block) (use f n in auto)
  with rest b(1) have st': "mprot (pmem st') x = (if mapped (pmem st1) x \<and> on_pages (mb_addr b) ?e x then Some RX else mprot (pmem st1) x)" for x
    by (auto simp: set_pages_def)
  have "mprot (pmem st') x = mprot (pmem st) x" if x: "mapped (pmem st) x" "\<not> beside_arena (code_arenas st) x" for x
  proof -
    have "\<not> on_pages (mb_addr b) ?e x"
      using pgs
    proof (elim conjE disjE)
      assume "beside_arena (code_arenas st) (mb_addr b)" "beside_arena (code_arenas st) ?e"
      with x(2) show ?thesis by (auto simp: beside_arena_def on_pages_def)
    next
      assume new: "PAGE_START (mb_addr b) = mb_addr b" "\<forall>x. x - mb_addr b < exec_arena_len ?len \<longrightarrow> \<not> mapped (pmem st) x"
      have "?e - PAGE_START (mb_addr b) < 0x1000" using n a(3) by (simp add: new(1) word_less_nat_alt)
      then have "PAGE_START ?e = PAGE_START (mb_addr b)" by (simp only: page_offset_less)
      moreover have "\<not> x - PAGE_START (mb_addr b) < 0x1000"
        using new(2) x(1) exec_arena_page [OF n(2,3)] by (auto simp: new(1))
      then have "PAGE_START x \<noteq> PAGE_START (mb_addr b)" by (simp add: page_offset_less)
      ultimately show ?thesis by (simp add: on_pages_def)
    qed
    then show ?thesis using pgs x(1) by (auto simp: st')
  qed
  moreover have "mprot (pmem st') x = mprot (pmem st) x \<or> mprot (pmem st') x = Some RX" for x
    using pgs by (auto simp: st')
  ultimately show ?thesis by blast
qed

text \<open>\<open>pages_kept as m m'\<close>: the two facts about the memory before and after.\<close>

definition pages_kept :: "MemoryArena list \<Rightarrow> memory \<Rightarrow> memory \<Rightarrow> bool" where
  "pages_kept as m m' \<longleftrightarrow> (\<forall>x. mprot m' x = mprot m x \<or> mprot m' x = Some RX) \<and>
     (\<forall>x. mapped m x \<and> \<not> beside_arena as x \<longrightarrow> mprot m' x = mprot m x)"

lemma GenerateRelocatedCode_finalized:
  assumes tr: "trampoline_buffer (routing e) = Some bs" "length bs = 4 * n" "0 < n" "n \<le> 4"
    and run: "GenerateRelocatedCode env e st = Ok (r, st')"
  shows "\<exists>a code. FinalizeFromTurboAssembler env a st = Ok (Some code, st') \<and> realized_addr a = 0 \<and> buffer a \<noteq> [] \<and>
     length (buffer a) \<le> 136"
proof -
  let ?a = "patched_addr e" and ?origin = "new_MemBlock (patched_addr e) (ucast (of_nat (length bs) :: u32))"
  let ?ctx = "new_relo_ctx (patched_addr e) ?origin (new_MemBlock 0 0)"
  have sz: "unat (ucast (of_nat (length bs) :: u32) :: u64) = 4 * n"
    using tr(4) by (simp add: unat_of_nat take_bit_nat_eq_self tr(2) del: of_nat_mult)
  have ctx: "buffer_cursor ?ctx = 0" "buffer_size ?ctx = 4 * n" "relo_buffer ?ctx = ?a" "relo_src_vmaddr ?ctx = ?a"
    using sz by (simp_all add: new_relo_ctx_def new_MemBlock_def)
  from run tr(1) obtain blks where gen: "GenRelocateCode env ?a ?origin (new_MemBlock 0 0) True st = Ok (blks, st')"
    by (auto simp: GenerateRelocatedCode_def GenRelocateCodeAndBranch_def Sigsegv_if_null_def sbind_def obind_eq_Ok
        GetBufferSize_def Let_def split: if_splits)
  then obtain ctx' len a code where asm: "relo_assemble (env_ndebug env) (mbytes (pmem st)) ?a ?ctx True = Some (ctx', len, a)"
    and fin: "FinalizeFromTurboAssembler env a st = Ok (Some code, st')"
    by (auto simp: GenRelocateCode_def sbind_def obind_eq_Ok Sigsegv_if_null_def Let_def new_MemBlock_def
        split: option.splits)
  obtain ws ls where "buffer a = enc (final_words True (?a + of_nat (4 * n)) ws ls)"
    using relo_assembleE [OF asm ctx(1,2)] by metis
  then have "length (buffer a) = 4 * (length ws + 2 + 4 * (length ls + 1))" by (simp add: length_final_words)
  moreover have "realized_addr a = 0"
    using relo_assemble_words [OF ctx(1,2), of "env_ndebug env" "mbytes (pmem st)" ?a True] asm by (auto split: option.splits)
  moreover have "length (buffer a) \<le> 136" using block_size [OF asm ctx(1,2)] tr(4) by simp
  ultimately show ?thesis using fin by fastforce
qed

lemma GenerateRelocatedCode_pages:
  assumes "alloc_inv env st" "trampoline_buffer (routing e) = Some bs" "length bs = 4 * n" "0 < n" "n \<le> 4"
    and "GenerateRelocatedCode env e st = Ok (r, st')"
  shows "pages_kept (code_arenas st) (pmem st) (pmem st')"
proof -
  from GenerateRelocatedCode_finalized [OF assms(2-6)] obtain a code where
    "FinalizeFromTurboAssembler env a st = Ok (Some code, st')" "realized_addr a = 0" "buffer a \<noteq> []" "length (buffer a) < 0x1000"
    by fastforce
  from FinalizeFromTurboAssembler_pages [OF assms(1) this(2-4,1)] show ?thesis by (simp add: pages_kept_def)
qed

lemma pages_kept_writable:
  assumes "pages_kept as m m'"
  shows "\<not> all_writable m a n \<Longrightarrow> \<not> all_writable m' a n"
    and "all_writable m a n \<Longrightarrow> (\<And>i. i < n \<Longrightarrow> \<not> beside_arena as (a + of_nat i)) \<Longrightarrow> all_writable m' a n"
proof -
  have "writable m' x \<Longrightarrow> writable m x" for x
    using assms by (auto simp: pages_kept_def writable_def prot_defs small_bits dest!: spec [of _ x])
  then show "\<not> all_writable m a n \<Longrightarrow> \<not> all_writable m' a n" by (auto simp: all_writable_def)
  have "writable m x \<Longrightarrow> \<not> beside_arena as x \<Longrightarrow> writable m' x" for x
  proof -
    assume w: "writable m x" "\<not> beside_arena as x"
    then have "mapped m x" by (auto simp: writable_def mapped_def split: option.splits)
    then have "mprot m' x = mprot m x" using assms w(2) by (simp add: pages_kept_def)
    with w(1) show "writable m' x" by (simp add: writable_def)
  qed
  then show "all_writable m a n \<Longrightarrow> (\<And>i. i < n \<Longrightarrow> \<not> beside_arena as (a + of_nat i)) \<Longrightarrow> all_writable m' a n"
    by (simp add: all_writable_def)
qed

section \<open>When a hook succeeds\<close>

lemma hook_outcome:
  assumes inv: "alloc_inv env st" and nb: "\<not> near_branch_trampoline st" and room: "code_room st address"
    and free: "Interceptor_find address st = None" and rd: "all_readable (pmem st) address 16"
    and imp: "implemented env (mbytes (pmem st)) address" and raw: "16 \<le> length (origin_insns raw)"
    and kern: "fst (OSMemory_Allocate env 0x1000 kNoAccess 0 (set_page address RX (pmem st))) \<noteq> 0"
  shows "\<exists>m. pages_kept (code_arenas st) (set_page address RX (pmem st)) m \<and>
     (if slot = 0 \<or> all_writable m slot 8
      then \<exists>st'. DobbyHook env stack raw address replace_func slot st = Ok (RS_SUCCESS, st')
      else DobbyHook env stack raw address replace_func slot st = Sigsegv)"
proof -
  have mp: "mapped (pmem st) address" by (rule code_room_mapped [OF room])
  have u0: "page_uniform (pmem st)" using inv by (simp add: alloc_inv_def)
  obtain ok m where p: "OSMemory_SetPermission env (ALIGN_FLOOR address (env_page env)) (env_page env) kReadExecute (pmem st) = (ok, m)"
    by (metis surj_pair)
  from protect_code [OF inv mp p] have ok: ok and m: "m = set_page address RX (pmem st)" and inv0: "alloc_inv env (st\<lparr>pmem := m\<rparr>)"
    by simp_all
  have "address \<noteq> 0" using mp inv by (auto simp: alloc_inv_def)
  let ?st0 = "st\<lparr>pmem := m\<rparr>" and ?e0 = "new_InterceptEntry raw kFunctionInlineHook address st"
  have bytes0: "mbytes m = mbytes (pmem st)" "mapped m = mapped (pmem st)" by (simp_all add: m u0)
  have e00: "new_InterceptEntry raw kFunctionInlineHook address ?st0 = ?e0" by (simp add: new_InterceptEntry_def Interceptor_count_def)
  have nb0: "\<not> near_branch_trampoline ?st0" using nb by simp
  obtain bs where bs: "length bs = 12 \<or> length bs = 16"
    "FunctionInlineHook_BuildRouting env stack replace_func ?e0 ?st0 =
      Ok (?e0\<lparr>routing := new_InterceptRouting\<lparr>trampoline_target := replace_func, trampoline_buffer := Some bs\<rparr>\<rparr>, ?st0)"
    using BuildRouting_plain [OF nb0 refl, of address replace_func env stack] by blast
  let ?e1 = "?e0\<lparr>routing := new_InterceptRouting\<lparr>trampoline_target := replace_func, trampoline_buffer := Some bs\<rparr>\<rparr>"
  let ?n = "length bs div 4"
  have n: "length bs = 4 * ?n" "0 < ?n" "?n \<le> 4" using bs(1) by auto
  have e1: "patched_addr ?e1 = address" "trampoline_buffer (routing ?e1) = Some bs" "origin_insns ?e1 = origin_insns raw"
    by (simp_all add: new_InterceptEntry_def)
  have rd0: "all_readable m address 16"
    using rd by (auto simp: all_readable_def readable_def m mprot_set_page prot_defs small_bits)
  have room0: "code_room ?st0 address" using room by (simp add: code_room_def outside_def bytes0 arenas_of_def)
  obtain e st1 where gen: "GenerateRelocatedCode env ?e1 ?st0 = Ok ((True, e), st1)"
    using GenerateRelocatedCode_serves [OF inv0 e1(2) n] rd0 imp kern raw room0 unfolding e1 by (auto simp: bytes0 m)
  from GenerateRelocatedCode_correct [OF inv0 e1(2) n gen] obtain buf where r: "relocated_entry env ?st0 ?e1 ?n st1 e buf" by blast
  then have e: "patched_addr e = address" "trampoline_buffer (routing e) = Some bs" and inv1: "alloc_inv env st1"
    and mp1: "\<And>x. mapped (pmem st) x \<Longrightarrow> mapped (pmem st1) x" by (simp_all add: relocated_entry_def e1 bytes0)
  have disp: "FunctionInlineHook_DispatchRouting env stack replace_func ?e0 ?st0 = Ok (e, st1)"
    unfolding FunctionInlineHook_DispatchRouting_def bs(2) sbind_simps gen by simp
  have fnd0: "Interceptor_find address ?st0 = None" using free by (simp add: Interceptor_find_def)
  have hook: "DobbyHook env stack raw address replace_func slot st =
      obind (if slot \<noteq> 0 then of_run (store64 (pmem st1) slot (relocated_addr e)) else Ok (pmem st1)) (\<lambda>m.
            obind (Routing_Commit env e (st1\<lparr>pmem := m\<rparr>)) (\<lambda>st. Ok (RS_SUCCESS, Interceptor_add e st)))"
    unfolding DobbyHook_def if_not_P [OF \<open>address \<noteq> 0\<close>] p Let_def prod.case fnd0 option.case e00 disp sbind_simps
    using ok by simp
  have commit: "\<exists>st3. Routing_Commit env e (st1\<lparr>pmem := m2\<rparr>) = Ok st3" if "mprot m2 = mprot (pmem st1)" for m2
  proof -
    have len: "unat (of_nat (length bs) :: u32) = length bs" using bs(1) by auto
    have k: "kernel_ok env" using inv by (simp add: alloc_inv_def)
    have u: "page_uniform m2" using inv1 unfolding alloc_inv_def page_uniform_def that by blast
    have "mapped m2 (address + of_nat i)" if "i < length bs" for i
      using mp1 [of "address + of_nat i"] that bs(1) room \<open>mprot m2 = _\<close> by (auto simp: code_room_def outside_def mapped_def)
    then show ?thesis
      using code_patch [OF k u, of "of_nat (length bs)" bs address] bs(1) room
      by (auto simp: Routing_Commit_def Routing_Active_def e Sigsegv_if_null_def GetBufferSize_def len code_room_def)
  qed
  have pgs: "pages_kept (code_arenas st) (set_page address RX (pmem st)) (pmem st1)"
    using GenerateRelocatedCode_pages [OF inv0 e1(2) n gen] by (simp add: m)
  have "if slot = 0 \<or> all_writable (pmem st1) slot 8
      then \<exists>st'. DobbyHook env stack raw address replace_func slot st = Ok (RS_SUCCESS, st')
      else DobbyHook env stack raw address replace_func slot st = Sigsegv"
  proof (cases "slot = 0")
    case True
    then show ?thesis using hook commit [of "pmem st1"] by auto
  next
    case False
    show ?thesis
    proof (cases "all_writable (pmem st1) slot 8")
      case True
      then have "store64 (pmem st1) slot (relocated_addr e) = Ret ((pmem st1)\<lparr>mbytes := upd_le (mbytes (pmem st1)) 8 slot (relocated_addr e)\<rparr>)"
        by (simp add: store64_def store_le_upd)
      then show ?thesis
        using hook False commit [of "(pmem st1)\<lparr>mbytes := upd_le (mbytes (pmem st1)) 8 slot (relocated_addr e)\<rparr>"] True by auto
    next
      case no: False
      have "store_le (pmem st1) 8 slot (relocated_addr e) = Segv" by (rule store_le_fails [OF no])
      then show ?thesis using hook False no by (simp add: store64_def)
    qed
  qed
  with pgs show ?thesis by blast
qed

end
