(* ===== verification/Db_Dobby.thy ===== *)
theory Db_Dobby
  imports Db_Slot
begin

unbundle bit_operations_syntax

text \<open>
  The properties of Dobby's interface: what a hook installs, when it succeeds, what it refuses, and
  what taking it back restores; before them, those of the memory layer below it.
\<close>

section \<open>A process with a function to hook\<close>

definition sample_hook_state :: hook_state where
  "sample_hook_state = \<lparr>pmem = sample_memory, code_arenas = [], data_arenas = [], entries = [],
     near_branch_trampoline = False, plugins = 0, closure_bridge = 0, closure_entries = Map.empty,
     instrumented = Map.empty\<rparr>"

text \<open>What the heap block of an entry may hold before its constructor runs.\<close>

definition sample_raw :: InterceptEntry where
  "sample_raw = \<lparr>ie_id = 0, ie_type = kFunctionInlineHook, patched_addr = 0, relocated_addr = 0,
     origin_insns = replicate 256 0, origin_insn_size = 0, routing = new_InterceptRouting\<rparr>"

lemma sample_hook_inv: "alloc_inv sample_kernel sample_hook_state"
  using sample_inv by (simp add: alloc_inv_def sample_hook_state_def sample_mem_state_def arenas_of_def)

lemma sample_page_in:
  assumes "i < 0x1000"
  shows "PAGE_START (0x10000 + of_nat i) = 0x10000"
proof -
  have "unat (0x10000 + of_nat i :: u64) = 0x10000 + i"
    using assms by (simp add: unat_word_ariths unat_of_nat take_bit_nat_eq_self)
  then have "(0x10000 + of_nat i :: u64) - PAGE_START 0x10000 < 4096"
    using assms by (simp add: page_50000 word_less_nat_alt unat_of_nat take_bit_nat_eq_self)
  then show ?thesis using page_offset_less [of "0x10000 + of_nat i" "0x10000"] by (simp add: page_50000)
qed

lemma sample_room: "code_room sample_hook_state 0x10000"
  by (simp add: code_room_def outside_def sample_hook_state_def sample_mapped sample_page_in arenas_of_def)

lemma sample_readable: "all_readable sample_memory 0x10000 16"
  by (simp add: all_readable_def readable_def sample_memory_def sample_pages_def sample_page_in prot_defs small_bits)

lemma sample_implemented: "implemented sample_kernel (mbytes sample_memory) 0x10000"
proof -
  have "list_all (\<lambda>i. let w = get_le (mbytes sample_memory) 4 (0x10000 + of_nat (4 * i)) :: u32 in
     \<not> inst_is_ldr_literal w \<or> field 31 30 w = 0 \<or> field 31 30 w = 1) [0..<4]"
    by code_simp
  then show ?thesis by (auto simp: implemented_def list_all_iff)
qed

lemma sample_gives_page:
  "fst (OSMemory_Allocate sample_kernel 0x1000 kNoAccess 0 (set_page a p sample_memory)) \<noteq> 0"
  by (simp add: sample_allocate sample_uniform)

lemma sample_hooked:
  "\<exists>st'. DobbyHook sample_kernel stack sample_raw 0x10000 f 0 sample_hook_state = Ok (RS_SUCCESS, st')"
proof -
  have "Interceptor_find 0x10000 sample_hook_state = None" "\<not> near_branch_trampoline sample_hook_state"
    "16 \<le> length (origin_insns sample_raw)" "pmem sample_hook_state = sample_memory"
    by (simp_all add: Interceptor_find_def sample_hook_state_def sample_raw_def)
  then show ?thesis
    using hook_outcome [OF sample_hook_inv _ sample_room, of sample_raw 0 stack f] sample_readable sample_implemented
      sample_gives_page by auto
qed

section \<open>What a hook leaves behind\<close>

lemma refused_state:
  assumes "alloc_inv env st"
  shows "snd (OSMemory_SetPermission env (ALIGN_FLOOR a (env_page env)) (env_page env) kReadExecute (pmem st)) =
    set_page a RX (pmem st)"
proof -
  have k: "kernel_ok env" and u: "page_uniform (pmem st)" using assms by (simp_all add: alloc_inv_def)
  show ?thesis
    using mprotect_page [OF k u, of a RX] kernel_okD(1) [OF k]
    by (auto simp: OSMemory_SetPermission_def mprotect_def PAGE_START_eq [symmetric] split: prod.splits)
qed

lemma remove_last: "find_entry a es = None \<Longrightarrow> patched_addr e = a \<Longrightarrow> remove_entry a (es @ [e]) = es"
  by (induction es) (auto split: if_splits)

lemma find_last: "find_entry a es = None \<Longrightarrow> patched_addr e = a \<Longrightarrow> find_entry a (es @ [e]) = Some e"
  by (induction es) (auto split: if_splits)

lemma hooked_destroy:
  assumes h: "hooked env st address f slot st' e bs" and free: "Interceptor_find address st = None"
    and room: "code_room st address" and sz: "unat (origin_insn_size e) \<le> length bs"
  shows "\<exists>st''. DobbyDestroy env address st' = Ok (RS_SUCCESS, st'') \<and> entries st'' = entries st \<and>
    (\<forall>i<length bs. mbytes (pmem st'') (address + of_nat i) =
       (if i < unat (origin_insn_size e) then mbytes (pmem st) else mbytes (pmem st')) (address + of_nat i))"
proof -
  let ?n = "unat (origin_insn_size e)" and ?buf = "take (unat (origin_insn_size e)) (origin_insns e)"
  have inv: "alloc_inv env st'" and ent: "entries st' = entries st @ [e]" "patched_addr e = address"
    and len: "length bs = 12 \<or> length bs = 16"
    and org: "take (length bs) (origin_insns e) = map (\<lambda>i. mbytes (pmem st) (address + of_nat i)) [0..<length bs]"
    and mp: "\<And>x. mapped (pmem st) x \<Longrightarrow> mapped (pmem st') x" using h by (simp_all add: hooked_def)
  have k: "kernel_ok env" and u: "page_uniform (pmem st')" using inv by (simp_all add: alloc_inv_def)
  have "length (take (length bs) (origin_insns e)) = length bs" by (simp only: org) simp
  then have le: "length bs \<le> length (origin_insns e)" by simp
  have buf: "?buf = map (\<lambda>i. mbytes (pmem st) (address + of_nat i)) [0..<?n]"
    using arg_cong [OF org, of "take ?n"] sz by (simp add: take_map min_absorb1)
  have "DobbyCodePatch env address (origin_insns e) (origin_insn_size e) (pmem st') =
    Ok ((set_pages address (address + ucast (origin_insn_size e)) RX (pmem st'))\<lparr>mbytes := overlay (mbytes (pmem st')) address ?buf\<rparr>)"
    by (rule code_patch [OF k u]) (use sz le len room mp in \<open>auto simp: code_room_def outside_def\<close>)
  moreover have "Interceptor_find address st' = Some e" using free by (simp add: Interceptor_find_def ent find_last)
  moreover have "remove_entry address (entries st') = entries st" using free by (simp add: Interceptor_find_def ent remove_last)
  moreover have "overlay (mbytes (pmem st')) address ?buf (address + of_nat i) =
      (if i < ?n then mbytes (pmem st) else mbytes (pmem st')) (address + of_nat i)" if "i < length bs" for i
    unfolding overlay_def buf using that len by (auto simp: unat_of_nat take_bit_nat_eq_self)
  ultimately show ?thesis by (simp add: DobbyDestroy_def Interceptor_remove_def)
qed

section \<open>Properties\<close>

text \<open>
  C18: What a code patch does to mapped memory, of whatever length: when each byte of the patch is
  on the page of the first byte, on the page of the byte behind the last, or writable before, it
  succeeds, writes exactly the bytes asked for, and leaves those two pages readable and executable,
  but not writable; nothing else changes. Otherwise it faults. A patch of at most a page never
  faults, as it touches no page between the two.
\<close>

theorem code_patch_effect:
  assumes "kernel_ok env" "page_uniform m" "unat len \<le> length buf"
    and "unat a + unat len < 2 ^ 64" "\<And>i. i < unat len \<Longrightarrow> mapped m (a + of_nat i)"
    and reach: "reach = (\<forall>i<unat len. on_pages a (a + ucast len) (a + of_nat i) \<or> writable m (a + of_nat i))"
  shows "(reach \<longrightarrow> (\<exists>m'. DobbyCodePatch env a buf len m = Ok m' \<and>
      (\<forall>x. mbytes m' x = (if in_range x a (unat len) then buf ! unat (x - a) else mbytes m x)) \<and>
      (\<forall>x. mprot m' x = (if mapped m x \<and> (PAGE_START x = PAGE_START a \<or> PAGE_START x = PAGE_START (a + ucast len))
         then Some RX else mprot m x)))) \<and>
    (\<not> reach \<longrightarrow> DobbyCodePatch env a buf len m = Sigsegv) \<and> (unat len \<le> 0x1000 \<longrightarrow> reach)"
  using code_patch_cases [OF assms(1-3,5)] short_patch_on_pages [OF assms(4)] assms(3)
  unfolding reach by (simp add: set_pages_def on_pages_def overlay_def in_range_def)

text \<open>
  A patch that ends with a page takes the next page, of data, from its program; a patch over three
  pages of code faults in the second.
\<close>

definition code_memory :: memory where
  "code_memory = \<lparr>mbytes = (\<lambda>_. 0), mprot = (\<lambda>_. Some RX)\<rparr>"

theorem code_patch_effect_witness:
  "(\<exists>m'. DobbyCodePatch sample_kernel 0x10FF0 (replicate 16 1) 16 sample_memory = Ok m' \<and>
     writable sample_memory 0x11000 \<and> \<not> writable m' 0x11000 \<and> mbytes m' 0x11000 = mbytes sample_memory 0x11000) \<and>
   DobbyCodePatch sample_kernel 0x10000 (replicate 0x2001 1) 0x2001 code_memory = Sigsegv"
proof -
  have "PAGE_START (0x10FF0 + of_nat i) = 0x10000" if "i < 16" for i
    using sample_page_in [of "0xFF0 + i"] that by simp
  then obtain m' where "DobbyCodePatch sample_kernel 0x10FF0 (replicate 16 1) 16 sample_memory = Ok m'"
    "\<forall>x. mbytes m' x = (if in_range x 0x10FF0 16 then replicate 16 1 ! unat (x - 0x10FF0) else mbytes sample_memory x)"
    "\<forall>x. mprot m' x = (if mapped sample_memory x \<and> (PAGE_START x = PAGE_START 0x10FF0 \<or> PAGE_START x = PAGE_START 0x11000)
       then Some RX else mprot sample_memory x)"
    using code_patch_effect [OF sample_kernel_ok sample_uniform, of 16 "replicate 16 1" "0x10FF0", OF _ _ _ refl]
    by (auto simp: sample_mapped)
  moreover have "mapped sample_memory 0x11000" by (simp add: sample_mapped page_50000)
  moreover have "\<not> in_range 0x11000 0x10FF0 16" by (simp add: in_range_def)
  ultimately have "\<exists>m'. DobbyCodePatch sample_kernel 0x10FF0 (replicate 16 1) 16 sample_memory = Ok m' \<and>
     writable sample_memory 0x11000 \<and> \<not> writable m' 0x11000 \<and> mbytes m' 0x11000 = mbytes sample_memory 0x11000"
    by (simp add: writable_def prot_defs small_bits sample_memory_def sample_pages_def page_50000)
  moreover have "DobbyCodePatch sample_kernel 0x10000 (replicate 0x2001 1) 0x2001 code_memory = Sigsegv"
  proof -
    have "\<not> on_pages 0x10000 0x12001 0x11000" "\<not> writable code_memory 0x11000"
      by (simp_all add: on_pages_def PAGE_START_def PAGE_MASK_def PAGE_SIZE_def writable_def code_memory_def prot_defs small_bits)
    then have "\<not> (\<forall>i<unat (0x2001 :: u32). on_pages 0x10000 (0x10000 + ucast (0x2001 :: u32)) (0x10000 + of_nat i) \<or>
        writable code_memory (0x10000 + of_nat i))"
      by (auto intro!: exI [of _ "0x1000"])
    moreover have "page_uniform code_memory" "mapped code_memory x" for x
      by (simp_all add: page_uniform_def mapped_def code_memory_def)
    ultimately show ?thesis
      using code_patch_effect [OF sample_kernel_ok, of code_memory "0x2001" "replicate 0x2001 1" "0x10000", OF _ _ _ _ refl] by simp
  qed
  ultimately show ?thesis by blast
qed

text \<open>
  C16: Blocks of executable memory never overlap: in any sequence of allocations, whatever their
  sizes and whatever the kernel chooses, each block that is not null is apart from the blocks the
  allocator gave before and from the others, and the allocator's invariant holds again.
\<close>

theorem exec_blocks_disjoint:
  assumes "alloc_inv env st" "alloc_seq (allocateExecBlock env) sizes st = Ok (blocks, st')"
    and "\<forall>b\<in>set blocks. mb_addr b \<noteq> 0"
  shows "alloc_inv env st' \<and> (\<forall>b\<in>set blocks. region b \<inter> used st = {}) \<and>
    sorted_wrt (\<lambda>b c. region b \<inter> region c = {}) blocks"
  by (rule exec.seq_disjoint [OF assms])

theorem exec_blocks_disjoint_witness:
  "\<exists>b c st'. alloc_seq (allocateExecBlock sample_kernel) [40, 100] sample_mem_state = Ok ([b, c], st') \<and>
     mb_addr b = 0x50000 \<and> mb_addr c = 0x50028 \<and> region b \<inter> region c = {}"
proof -
  let ?m = "mprotected sample_memory 0x50000 0x1000 0"
  have al: "OSMemory_Allocate sample_kernel 0x1000 kNoAccess 0 sample_memory = (0x50000, ?m)"
    by (rule sample_allocate) simp
  have pg: "env_page sample_kernel = 0x1000" "\<not> env_ndebug sample_kernel" by (simp_all add: sample_kernel_def)
  have ceil: "ALIGN_CEIL 40 0x1000 = (0x1000 :: u64)" by code_simp
  obtain ok m2 where p: "OSMemory_SetPermission sample_kernel 0x50000 0x1000 kReadExecute ?m = (ok, m2)" by (metis surj_pair)
  let ?b = "new_MemBlock 0x50000 40" and ?c = "new_MemBlock 0x50028 100" and ?a = "new_MemoryArena 0x50000 0x1000"
  let ?st = "\<lambda>c. \<lparr>pmem = m2, code_arenas = [?a\<lparr>cursor_addr := c\<rparr>], data_arenas = []\<rparr>"
  have "allocateExecBlock sample_kernel 40 sample_mem_state = Ok (Some ?b, ?st 0x50028)"
    by (simp add: sample_mem_state_def allocateExecBlock_def allocateCodeMemoryArena_def pg ceil al p CHECK_def
        alloc_last_def allocMemBlock_def new_MemoryArena_def new_MemBlock_def Let_def)
  moreover have "allocateExecBlock sample_kernel 100 (?st 0x50028) = Ok (Some ?c, ?st 0x5008C)"
    by (simp add: allocateExecBlock_def allocMemBlock_def new_MemoryArena_def new_MemBlock_def)
  ultimately have "\<exists>st'. alloc_seq (allocateExecBlock sample_kernel) [40, 100] sample_mem_state = Ok ([?b, ?c], st')"
    by (simp add: Sigsegv_if_null_def)
  then obtain st' where s: "alloc_seq (allocateExecBlock sample_kernel) [40, 100] sample_mem_state = Ok ([?b, ?c], st')" by blast
  have "region ?b \<inter> region ?c = {}"
    using exec_blocks_disjoint [OF sample_inv s] by (simp add: new_MemBlock_def)
  then show ?thesis using s by (auto simp: new_MemBlock_def)
qed

text \<open>
  C2: What a successful hook installs: the entry is registered, a call of the function arrives at
  the replacement with only \<^verbatim>\<open>x17\<close> changed, the code at the returned address does what the
  overwritten instructions did and goes on behind them, the caller's slot holds that address, and
  no byte of the program changes but the trampoline and the slot. This is for a hook without the near
  branch plugin and a replacement that is nearer than 4 GiB (less a page) or farther; and what the
  overwritten instructions did is kept for those that \<open>does_same\<close> covers: \<^verbatim>\<open>b.al\<close>, \<^verbatim>\<open>b.nv\<close> and the
  literal loads of 32-bit and SIMD registers are not, the relocation gets them wrong.
\<close>

theorem dobby_hook_installs:
  assumes "alloc_inv env st" "\<not> near_branch_trampoline st" "code_room st address" "slot_room st address slot"
    and "llabs (address - replace_func) \<le> 2 ^ 32 - 0x1000 \<or> 2 ^ 32 \<le> llabs (address - replace_func)"
    and "DobbyHook env stack raw address replace_func slot st = Ok (RS_SUCCESS, st')"
  shows "\<exists>e n. entries st' = entries st @ [e] \<and> patched_addr e = address \<and> (n = 3 \<or> n = 4) \<and>
    (\<forall>s. mem s = mbytes (pmem st') \<and> pc s = address \<longrightarrow>
       (\<exists>k. a64_run k s = Some (s\<lparr>xr := (xr s)(17 := replace_func), pc := replace_func\<rparr>))) \<and>
    runs_original (mbytes (pmem st)) (mbytes (pmem st')) address n (relocated_addr e) \<and>
    (slot \<noteq> 0 \<longrightarrow> get_le (mbytes (pmem st')) 8 slot = relocated_addr e) \<and>
    (\<forall>x. outside st x \<and> \<not> in_range x address (4 * n) \<and> \<not> in_slot slot x \<longrightarrow>
       mbytes (pmem st') x = mbytes (pmem st) x)"
proof -
  obtain e bs where h: "hooked env st address replace_func slot st' e bs"
    using dobby_hook_effect [OF assms(1-4,6)] by blast
  then have bs: "GenerateNormalTrampolineBuffer address replace_func = Some bs" "length bs = 12 \<or> length bs = 16"
    "loaded (mbytes (pmem st')) address bs" by (simp_all add: hooked_def)
  have "\<exists>k. a64_run k s = Some (s\<lparr>xr := (xr s)(17 := replace_func), pc := replace_func\<rparr>)"
    if "mem s = mbytes (pmem st')" "pc s = address" for s
    using trampoline_runs [OF assms(5)] bs(1,3) that by auto
  then show ?thesis using h bs(2) by (intro exI [of _ e] exI [of _ "length bs div 4"]) (auto simp: hooked_def)
qed

theorem dobby_hook_installs_witness:
  "\<exists>st' e. DobbyHook sample_kernel '''' sample_raw 0x10000 0x7F0000001234 0 sample_hook_state = Ok (RS_SUCCESS, st') \<and>
     entries st' = [e] \<and> mbytes (pmem st') 0x11000 = mbytes sample_memory 0x11000"
proof -
  obtain st' where s: "DobbyHook sample_kernel '''' sample_raw 0x10000 0x7F0000001234 0 sample_hook_state = Ok (RS_SUCCESS, st')"
    using sample_hooked by blast
  have "2 ^ 32 \<le> llabs (0x10000 - 0x7F0000001234)" by code_simp
  moreover have "outside sample_hook_state 0x11000"
    by (simp add: outside_def sample_hook_state_def sample_mapped page_50000 arenas_of_def)
  moreover have "\<not> in_range 0x11000 0x10000 12" "\<not> in_range 0x11000 0x10000 16" by (simp_all add: in_range_def)
  ultimately show ?thesis
    using dobby_hook_installs [OF sample_hook_inv _ sample_room _ _ s] s
    by (fastforce simp: slot_room_def in_slot_def sample_hook_state_def)
qed

text \<open>
  C14: When a hook succeeds: for readable code of at least four instructions that is not the
  allocator's and not hooked yet, without literals the relocation does not implement, and a kernel
  that still has a page, the result is success when the caller passes no slot, and when the slot is
  writable once the page of the code is not writable any more, and is not on a page of an arena of
  code or on the page behind one. It is SIGSEGV when a slot is passed that is not writable then. (A
  writable slot beside an arena may be lost to the relocated code, which takes the page behind it.)
\<close>

theorem dobby_hook_succeeds:
  assumes "alloc_inv env st" "\<not> near_branch_trampoline st" "code_room st address"
    and "Interceptor_find address st = None" "all_readable (pmem st) address 16"
    and "implemented env (mbytes (pmem st)) address" "16 \<le> length (origin_insns raw)"
    and "fst (OSMemory_Allocate env 0x1000 kNoAccess 0 (set_page address RX (pmem st))) \<noteq> 0"
  shows "(slot = 0 \<or> all_writable (set_page address RX (pmem st)) slot 8 \<and>
        (\<forall>i<8. \<not> beside_arena (code_arenas st) (slot + of_nat i)) \<longrightarrow>
      (\<exists>st'. DobbyHook env stack raw address replace_func slot st = Ok (RS_SUCCESS, st'))) \<and>
    (slot \<noteq> 0 \<and> \<not> all_writable (set_page address RX (pmem st)) slot 8 \<longrightarrow>
      DobbyHook env stack raw address replace_func slot st = Sigsegv)"
proof -
  from hook_outcome [OF assms, of slot stack replace_func] obtain m where
    m: "pages_kept (code_arenas st) (set_page address RX (pmem st)) m"
    and r: "if slot = 0 \<or> all_writable m slot 8
      then \<exists>st'. DobbyHook env stack raw address replace_func slot st = Ok (RS_SUCCESS, st')
      else DobbyHook env stack raw address replace_func slot st = Sigsegv" by blast
  show ?thesis using r pages_kept_writable [OF m, where a = slot and n = 8] by auto
qed

text \<open>A slot in the page of data behind the code is served, one in the page of the code faults.\<close>

theorem dobby_hook_succeeds_witness:
  "(\<exists>st'. DobbyHook sample_kernel '''' sample_raw 0x10000 0x30000 0x11000 sample_hook_state = Ok (RS_SUCCESS, st')) \<and>
   DobbyHook sample_kernel '''' sample_raw 0x10000 0x30000 0x10800 sample_hook_state = Sigsegv"
proof -
  let ?m = "set_page 0x10000 RX sample_memory"
  have "PAGE_START (0x11000 + of_nat i) = 0x11000" if "i < 8" for i :: nat
  proof -
    have "(0x11000 + of_nat i :: u64) - PAGE_START 0x11000 < 4096"
      using that by (simp add: page_50000 word_less_nat_alt unat_of_nat take_bit_nat_eq_self)
    then show ?thesis using page_offset_less [of "0x11000 + of_nat i" "0x11000"] by (simp add: page_50000)
  qed
  then have "all_writable ?m 0x11000 8"
    by (simp add: all_writable_def writable_def mprot_set_page page_50000 sample_memory_def sample_pages_def prot_defs small_bits)
  moreover have "\<not> writable ?m (0x10800 + of_nat 0)"
    using sample_page_in [of "0x800"]
    by (simp add: writable_def mprot_set_page sample_mapped page_50000 prot_defs small_bits)
  then have "\<not> all_writable ?m 0x10800 8" unfolding all_writable_def by (meson zero_less_numeral)
  moreover have "Interceptor_find 0x10000 sample_hook_state = None" "\<not> near_branch_trampoline sample_hook_state"
    "16 \<le> length (origin_insns sample_raw)" "pmem sample_hook_state = sample_memory" "code_arenas sample_hook_state = []"
    by (simp_all add: Interceptor_find_def sample_hook_state_def sample_raw_def)
  ultimately show ?thesis
    using dobby_hook_succeeds [OF sample_hook_inv _ sample_room, of sample_raw "0x11000" "''''" "0x30000"]
      dobby_hook_succeeds [OF sample_hook_inv _ sample_room, of sample_raw "0x10800" "''''" "0x30000"]
      sample_readable sample_implemented sample_gives_page by (simp add: beside_arena_def)
qed

text \<open>
  C19: A function is hooked at most once: the second hook of an address fails and leaves everything as
  it was, but for the page of the code, which becomes readable and executable.
\<close>

theorem dobby_hook_refuses:
  assumes "alloc_inv env st" "Interceptor_find address st \<noteq> None"
  shows "\<exists>p. DobbyHook env stack raw address replace_func slot st = Ok (RS_FAILED, st\<lparr>pmem := (pmem st)\<lparr>mprot := p\<rparr>\<rparr>) \<and>
    (\<forall>x. PAGE_START x \<noteq> PAGE_START address \<longrightarrow> p x = mprot (pmem st) x)"
proof (cases "address = 0")
  case True
  then show ?thesis by (auto simp: DobbyHook_def intro: exI [of _ "mprot (pmem st)"])
next
  case False
  obtain ok m where p: "OSMemory_SetPermission env (ALIGN_FLOOR address (env_page env)) (env_page env) kReadExecute (pmem st) = (ok, m)"
    by (metis surj_pair)
  then have m: "m = (pmem st)\<lparr>mprot := mprot (set_page address RX (pmem st))\<rparr>"
    using refused_state [OF assms(1), of address] by (auto intro!: memory.equality)
  have "Interceptor_find address (st\<lparr>pmem := m\<rparr>) = Interceptor_find address st" by (simp add: Interceptor_find_def)
  then show ?thesis using assms(2) False p m
    by (intro exI [of _ "mprot (set_page address RX (pmem st))"]) (auto simp: DobbyHook_def mprot_set_page Let_def)
qed

theorem dobby_hook_refuses_witness:
  "\<exists>st' p. DobbyHook sample_kernel '''' sample_raw 0x10000 0x30000 0 sample_hook_state = Ok (RS_SUCCESS, st') \<and>
     DobbyHook sample_kernel '''' sample_raw 0x10000 0x40000 0 st' = Ok (RS_FAILED, st'\<lparr>pmem := (pmem st')\<lparr>mprot := p\<rparr>\<rparr>)"
proof -
  obtain st' where s: "DobbyHook sample_kernel '''' sample_raw 0x10000 0x30000 0 sample_hook_state = Ok (RS_SUCCESS, st')"
    using sample_hooked by blast
  obtain e bs where h: "hooked sample_kernel sample_hook_state 0x10000 0x30000 0 st' e bs"
    using dobby_hook_effect [OF sample_hook_inv _ sample_room _ s] by (auto simp: slot_room_def sample_hook_state_def)
  then have "alloc_inv sample_kernel st'" "Interceptor_find 0x10000 st' \<noteq> None"
    by (simp_all add: hooked_def Interceptor_find_def sample_hook_state_def)
  from dobby_hook_refuses [OF this] s show ?thesis by blast
qed

text \<open>
  C17: What taking a hook back restores: the registry is as before the hook, and of the overwritten
  bytes those below \<^verbatim>\<open>origin_insn_size\<close> are restored. No code sets that field, so it is what the heap
  block of the entry held.
\<close>

theorem destroy_after_hook:
  assumes "alloc_inv env st" "\<not> near_branch_trampoline st" "code_room st address" "slot_room st address slot"
    and "DobbyHook env stack raw address replace_func slot st = Ok (RS_SUCCESS, st')"
    and "unat (origin_insn_size raw) \<le> 12"
  shows "\<exists>st'' n. DobbyDestroy env address st' = Ok (RS_SUCCESS, st'') \<and> entries st'' = entries st \<and>
    (n = 12 \<or> n = 16) \<and> (\<forall>i<n. mbytes (pmem st'') (address + of_nat i) =
       (if i < unat (origin_insn_size raw) then mbytes (pmem st) else mbytes (pmem st')) (address + of_nat i))"
proof -
  obtain e bs where h: "hooked env st address replace_func slot st' e bs"
    and e: "origin_insn_size e = origin_insn_size raw" "Interceptor_find address st = None"
    using dobby_hook_effect [OF assms(1-5)] by blast
  moreover have n: "length bs = 12 \<or> length bs = 16" using h by (simp add: hooked_def)
  ultimately show ?thesis using hooked_destroy [OF h e(2) assms(3)] assms(6) by fastforce
qed

text \<open>With a zero field the trampoline stays in place.\<close>

theorem destroy_after_hook_witness:
  "\<exists>st' st''. DobbyHook sample_kernel '''' sample_raw 0x10000 0x30000 0 sample_hook_state = Ok (RS_SUCCESS, st') \<and>
     DobbyDestroy sample_kernel 0x10000 st' = Ok (RS_SUCCESS, st'') \<and> entries st'' = [] \<and>
     (\<forall>i<12. mbytes (pmem st'') (0x10000 + of_nat i) = mbytes (pmem st') (0x10000 + of_nat i))"
proof -
  obtain st' where s: "DobbyHook sample_kernel '''' sample_raw 0x10000 0x30000 0 sample_hook_state = Ok (RS_SUCCESS, st')"
    using sample_hooked by blast
  have z: "unat (origin_insn_size sample_raw) = 0" "unat (origin_insn_size sample_raw) \<le> 12" by (simp_all add: sample_raw_def)
  have n: "\<not> near_branch_trampoline sample_hook_state" "slot_room sample_hook_state 0x10000 0" "entries sample_hook_state = []"
    by (simp_all add: sample_hook_state_def slot_room_def)
  from destroy_after_hook [OF sample_hook_inv n(1) sample_room n(2) s z(2)] s show ?thesis
    unfolding z(1) n(3) by fastforce
qed

end
