(* ===== verification/Db_Instrumented.thy ===== *)
theory Db_Instrumented
  imports A64_Handled Db_Instrument Db_Dobby
begin

unbundle bit_operations_syntax

text \<open>
  Correctness of an instrumented instruction: what \<^verbatim>\<open>DobbyInstrument\<close> installs, and that a machine that
  comes to the instruction calls the handler with its registers and goes on with the instruction.
\<close>

section \<open>Code in blocks of the allocator\<close>

definition resident :: "'s mem_state_scheme \<Rightarrow> addr \<Rightarrow> u8 list \<Rightarrow> bool" where
  "resident st D bs \<longleftrightarrow> loaded (mbytes (pmem st)) D bs \<and> (\<forall>i<length bs. D + of_nat i \<in> used st)"

text \<open>What later allocations keep.\<close>

definition keeps :: "'e dobby_env_scheme \<Rightarrow> 's mem_state_scheme \<Rightarrow> 's mem_state_scheme \<Rightarrow> bool" where
  "keeps env st st' \<longleftrightarrow> used st \<subseteq> used st' \<and> (\<forall>x\<in>used st. mbytes (pmem st') x = mbytes (pmem st) x) \<and> new_room env st st' \<and>
     (\<forall>x. mapped (pmem st) x \<longrightarrow> mapped (pmem st') x) \<and> (\<forall>x. outside st x \<longrightarrow> mbytes (pmem st') x = mbytes (pmem st) x) \<and>
     (\<forall>x. mapped (pmem st) x \<longrightarrow> mprot (pmem st') x = mprot (pmem st) x \<or> mprot (pmem st') x = Some RX)"

lemma keeps_itself: "keeps env st st"
  by (simp add: keeps_def new_room_def)

lemma keeps_outside: "keeps env st st' \<Longrightarrow> outside st x \<Longrightarrow> outside st' x"
  by (auto simp: keeps_def outside_def new_room_def)

lemma keeps_after:
  assumes "keeps env st st1" "keeps env st1 st2"
  shows "keeps env st st2"
proof -
  have "new_room env st st2" using assms by (auto simp: keeps_def new_room_def)
  moreover have "mbytes (pmem st2) x = mbytes (pmem st) x" if "outside st x" for x
    using assms that keeps_outside [OF assms(1) that] by (simp add: keeps_def)
  moreover have "mprot (pmem st2) x = mprot (pmem st) x \<or> mprot (pmem st2) x = Some RX" if "mapped (pmem st) x" for x
    using assms that unfolding keeps_def by metis
  ultimately show ?thesis using assms unfolding keeps_def by auto
qed

lemma keeps_readable: "keeps env st st' \<Longrightarrow> all_readable (pmem st) a n \<Longrightarrow> all_readable (pmem st') a n"
proof -
  assume k: "keeps env st st'" and rd: "all_readable (pmem st) a n"
  have "readable (pmem st') x" if r: "readable (pmem st) x" for x
  proof -
    have "mapped (pmem st) x" using r by (auto simp: readable_def mapped_def split: option.splits)
    then have "mprot (pmem st') x = mprot (pmem st) x \<or> mprot (pmem st') x = Some RX" using k by (simp add: keeps_def)
    then show ?thesis using r by (auto simp: readable_def prot_defs small_bits)
  qed
  then show ?thesis using rd by (simp add: all_readable_def)
qed

lemma keeps_code:
  assumes "keeps env st st'" "code_room st a"
  shows "code_room st' a" "i < 16 \<Longrightarrow> mbytes (pmem st') (a + of_nat i) = mbytes (pmem st) (a + of_nat i)"
    "i < 4 \<Longrightarrow> get_le (mbytes (pmem st')) 4 (a + of_nat (4 * i)) = (get_le (mbytes (pmem st)) 4 (a + of_nat (4 * i)) :: u32)"
proof -
  show "code_room st' a" using assms(2) keeps_outside [OF assms(1)] by (simp add: code_room_def)
  show same: "i < 16 \<Longrightarrow> mbytes (pmem st') (a + of_nat i) = mbytes (pmem st) (a + of_nat i)" for i
    using assms by (simp add: code_room_def keeps_def)
  assume i: "i < 4"
  show "get_le (mbytes (pmem st')) 4 (a + of_nat (4 * i)) = (get_le (mbytes (pmem st)) 4 (a + of_nat (4 * i)) :: u32)"
  proof (rule get_le_cong, intro allI impI)
    fix j :: nat
    assume "j < 4"
    then show "mbytes (pmem st') (a + of_nat (4 * i) + of_nat j) = mbytes (pmem st) (a + of_nat (4 * i) + of_nat j)"
      using same [of "4 * i + j"] i by (simp add: add.assoc)
  qed
qed

lemma resident_keeps: "resident st D bs \<Longrightarrow> keeps env st st' \<Longrightarrow> resident st' D bs"
  by (auto simp: resident_def keeps_def loaded_def)

lemma used_not_outside: "alloc_inv env st' \<Longrightarrow> new_room env st st' \<Longrightarrow> x \<in> used st' \<Longrightarrow> \<not> outside st x"
  using used_in_regions [of "arenas_of st'"]
  by (auto simp: alloc_inv_def new_room_def outside_def used_def arenas_ok_def)

lemma Finalize_keeps:
  assumes "alloc_inv env st" "realized_addr a = 0" "buffer a \<noteq> []" "length (buffer a) \<le> 0x1000"
    and "FinalizeFromTurboAssembler env a st = Ok (r, st')"
  shows "\<exists>b. r = Some b \<and> mb_addr b \<noteq> 0 \<and> resident st' (mb_addr b) (buffer a) \<and> keeps env st st' \<and> alloc_inv env st' \<and>
    same_engine st st'"
proof -
  from FinalizeFromTurboAssembler_correct [OF assms] obtain b where b: "r = Some b" "mb_addr b \<noteq> 0"
    "block_of b (of_nat (length (buffer a)))" "region b \<inter> used st = {}" "used st' = used st \<union> region b" "alloc_inv env st'"
    "loaded (mbytes (pmem st')) (mb_addr b) (buffer a)" "extends_memory (pmem st) (pmem st') (region b)" "new_room env st st'"
    "\<forall>x. mapped (pmem st) x \<longrightarrow> mprot (pmem st') x = mprot (pmem st) x \<or> mprot (pmem st') x = Some RX"
    by blast
  have "mb_addr b + of_nat i \<in> used st'" if "i < length (buffer a)" for i
    using region_block_in [OF b(3) that] assms(4) b(5) by simp
  then have "resident st' (mb_addr b) (buffer a)" using b(7) by (simp add: resident_def)
  moreover have "mbytes (pmem st') x = mbytes (pmem st) x" if "x \<in> used st" for x
    using used_mapped [OF assms(1) that] b(4,8) that by (auto simp: extends_memory_def)
  moreover have "mbytes (pmem st') x = mbytes (pmem st) x" if "outside st x" for x
    using used_not_outside [OF b(6,9), of x] b(5,8) that by (auto simp: extends_memory_def outside_def)
  ultimately show ?thesis
    using b FinalizeFromTurboAssembler_frame [OF assms(5)] by (auto simp: keeps_def extends_memory_def)
qed

section \<open>The bridge and the closure trampoline\<close>

text \<open>The bridge, once it exists, is in a block of the allocator.\<close>

definition bridge_ok :: "'e dobby_image_scheme \<Rightarrow> hook_state \<Rightarrow> bool" where
  "bridge_ok env st \<longleftrightarrow> (closure_bridge st \<noteq> 0 \<longrightarrow>
     resident st (closure_bridge st) (enc (bridge_words (addr_bridge_handler env))))"

lemma len_words: "length (enc (bridge_words h)) = 228" "length (enc (tramp_words e b)) = 52"
  by (simp_all add: bridge_words_def save_words_def restore_words_def mov_words_def tramp_words_def)

lemma get_closure_bridge_correct:
  assumes "alloc_inv env st" "\<not> full_pack env" "bridge_ok env st" "get_closure_bridge env st = Ok (b, st')"
  shows "b \<noteq> 0 \<and> closure_bridge st' = b \<and> bridge_ok env st' \<and> keeps env st st' \<and> alloc_inv env st' \<and>
    same_engine (st\<lparr>closure_bridge := b\<rparr>) st'"
proof (cases "closure_bridge st = 0")
  case False
  then show ?thesis using assms by (auto simp: get_closure_bridge_def keeps_itself same_engine_def)
next
  case True
  obtain a where a: "closure_bridge_code False (addr_bridge_handler env) = Some a"
    "buffer a = enc (bridge_words (addr_bridge_handler env))" "realized_addr a = 0" using bridge_code by blast
  have "length (buffer a) = 228" unfolding a(2) by (rule len_words(1))
  then have len: "buffer a \<noteq> []" "length (buffer a) \<le> 0x1000" by auto
  from assms(4) obtain code st1 where fin: "FinalizeFromTurboAssembler env a st = Ok (Some code, st1)"
    and r: "b = mb_addr code" "st' = st1\<lparr>closure_bridge := mb_addr code\<rparr>"
    using True assms(2) a(1)
    by (auto simp: get_closure_bridge_def sbind_def obind_eq_Ok Sigsegv_if_null_def split: option.splits)
  from Finalize_keeps [OF assms(1) a(3) len fin] have f: "b \<noteq> 0" "resident st1 b (buffer a)" "keeps env st st1" "alloc_inv env st1"
    "same_engine st st1" by (simp_all add: r)
  then show ?thesis
    by (simp add: r bridge_ok_def resident_def a(2) keeps_def new_room_def alloc_inv_def same_engine_def arenas_of_def used_def)
qed

lemma CreateClosureTrampoline_correct:
  assumes "alloc_inv env st" "\<not> full_pack env" "bridge_ok env st" "CreateClosureTrampoline env te data h st = Ok (e, st')"
  shows "alloc_inv env st' \<and> bridge_ok env st' \<and> closure_bridge st' \<noteq> 0 \<and> keeps env st st' \<and>
    resident st' (tramp_address e) (enc (tramp_words te (closure_bridge st'))) \<and> carry_handler e = h \<and> carry_data e = data \<and>
    same_engine (st\<lparr>closure_bridge := closure_bridge st', closure_entries := (closure_entries st)(te \<mapsto> e)\<rparr>) st'"
proof -
  obtain a where a: "closure_trampoline_code te = Some a"
    "\<And>b. buffer (EmitInt64 b a) = enc (tramp_words te b) \<and> realized_addr (EmitInt64 b a) = 0" using tramp_code [of te] by (metis option.inject)
  from assms(4) a(1) obtain b st1 code st2 where br: "get_closure_bridge env st = Ok (b, st1)"
    and fin: "FinalizeFromTurboAssembler env (EmitInt64 b a) st1 = Ok (Some code, st2)"
    and e: "e = \<lparr>tramp_address = mb_addr code, tramp_size = ucast (mr_size code), carry_handler = h, carry_data = data\<rparr>"
    and st': "st' = st2\<lparr>closure_entries := (closure_entries st2)(te \<mapsto> e)\<rparr>"
    by (auto simp: CreateClosureTrampoline_def sbind_def obind_eq_Ok Sigsegv_if_null_def Let_def split: option.splits)
  from get_closure_bridge_correct [OF assms(1-3) br] have b: "b \<noteq> 0" "closure_bridge st1 = b" "bridge_ok env st1"
    "keeps env st st1" "alloc_inv env st1" "same_engine (st\<lparr>closure_bridge := b\<rparr>) st1" by simp_all
  have "length (buffer (EmitInt64 b a)) = 52" unfolding a(2) [THEN conjunct1] by (rule len_words(2))
  then have len: "buffer (EmitInt64 b a) \<noteq> []" "length (buffer (EmitInt64 b a)) \<le> 0x1000" by auto
  from Finalize_keeps [OF b(5) _ len fin] a(2) have f: "resident st2 (mb_addr code) (enc (tramp_words te b))" "keeps env st1 st2"
    "alloc_inv env st2" "same_engine st1 st2" by auto
  have cb: "closure_bridge st2 = b" using f(4) b(2) by (simp add: same_engine_def)
  have "resident st2 b (enc (bridge_words (addr_bridge_handler env)))"
    using b(1,2,3) resident_keeps [OF _ f(2)] by (simp add: bridge_ok_def)
  moreover have "keeps env st st2" by (rule keeps_after [OF b(4) f(2)])
  ultimately show ?thesis using f b(1,6) cb
    by (simp add: st' e bridge_ok_def resident_def keeps_def new_room_def alloc_inv_def same_engine_def arenas_of_def used_def)
qed

section \<open>DobbyInstrument\<close>

lemma Instrument_BuildRouting_plain:
  assumes "CreateClosureTrampoline env te ep (addr_instrument_dispatch env) st = Ok (ce, st1)" "\<not> near_branch_trampoline st1"
    and "trampoline_buffer (routing e) = None"
  shows "\<exists>bs. GenerateNormalTrampolineBuffer (patched_addr e) (tramp_address ce) = Some bs \<and> (length bs = 12 \<or> length bs = 16) \<and>
    InstructionInstrument_BuildRouting env stack ep te e st =
      Ok (e\<lparr>routing := (routing e)\<lparr>trampoline_target := tramp_address ce, trampoline_buffer := Some bs\<rparr>\<rparr>, st1)"
proof -
  obtain bs where "GenerateNormalTrampolineBuffer (patched_addr e) (tramp_address ce) = Some bs" "length bs = 12 \<or> length bs = 16"
    using trampoline_total by blast
  then show ?thesis using assms
    by (auto simp: InstructionInstrument_BuildRouting_def GenerateTrampolineBuffer_def Let_def)
qed

definition instrument_entry :: "InterceptEntry \<Rightarrow> addr \<Rightarrow> addr \<Rightarrow> hook_state \<Rightarrow> InterceptEntry" where
  "instrument_entry raw address handler st =
     (new_InterceptEntry raw kInstructionInstrument address st)\<lparr>routing := new_InterceptRouting\<lparr>pre_handler := handler\<rparr>\<rparr>"

lemma instrument_cases:
  assumes "alloc_inv env st" "\<not> full_pack env" "bridge_ok env st" "\<not> near_branch_trampoline st" "mapped (pmem st) address"
    and run: "DobbyInstrument env stack raw ep te address handler st = Ok (RS_SUCCESS, st')"
  obtains m ce st1 bs ok e st2 m3 where
    "OSMemory_SetPermission env (ALIGN_FLOOR address (env_page env)) (env_page env) kReadExecute (pmem st) = (True, m)"
    "Interceptor_find address st = None"
    "CreateClosureTrampoline env te ep (addr_instrument_dispatch env) (st\<lparr>pmem := m\<rparr>) = Ok (ce, st1)"
    "GenerateNormalTrampolineBuffer address (tramp_address ce) = Some bs" "length bs = 12 \<or> length bs = 16"
    "GenerateRelocatedCode env ((instrument_entry raw address handler st)\<lparr>routing := new_InterceptRouting
        \<lparr>pre_handler := handler, trampoline_target := tramp_address ce, trampoline_buffer := Some bs\<rparr>\<rparr>) st1 = Ok ((ok, e), st2)"
    "DobbyCodePatch env (patched_addr e) (the (trampoline_buffer (routing e)))
       (of_nat (length (the (trampoline_buffer (routing e))))) (pmem st2) = Ok m3"
    "st' = Interceptor_add e (st2\<lparr>pmem := m3, instrumented := (instrumented st2)(ep \<mapsto> e)\<rparr>)"
proof -
  let ?e0 = "instrument_entry raw address handler st"
  obtain ok0 m where p: "OSMemory_SetPermission env (ALIGN_FLOOR address (env_page env)) (env_page env) kReadExecute (pmem st) = (ok0, m)"
    by (metis surj_pair)
  note prot = protect_code [OF assms(1,5) p]
  have fail: "RS_FAILED \<noteq> RS_SUCCESS" by (simp add: RS_FAILED_def RS_SUCCESS_def)
  have ok: "address \<noteq> 0" "ok0" "Interceptor_find address (st\<lparr>pmem := m\<rparr>) = None"
    using run fail p by (auto simp: DobbyInstrument_def Let_def split: if_splits option.splits)
  have fnd: "Interceptor_find address st = None" using ok(3) by (simp add: Interceptor_find_def)
  have e0: "new_InterceptEntry raw kInstructionInstrument address (st\<lparr>pmem := m\<rparr>)\<lparr>routing :=
      (routing (new_InterceptEntry raw kInstructionInstrument address (st\<lparr>pmem := m\<rparr>)))\<lparr>pre_handler := handler\<rparr>\<rparr> = ?e0"
    by (simp add: instrument_entry_def new_InterceptEntry_def Interceptor_count_def)
  have e0': "patched_addr ?e0 = address" "routing ?e0 = new_InterceptRouting\<lparr>pre_handler := handler\<rparr>"
    "trampoline_buffer (routing ?e0) = None"
    by (simp_all add: instrument_entry_def new_InterceptEntry_def new_InterceptRouting_def)
  from run ok p have "sbind (InstructionInstrument_DispatchRouting env stack ep te ?e0 (st\<lparr>pmem := m\<rparr>)) (\<lambda>entry st.
      obind (Routing_Commit env entry st) (\<lambda>st.
      Ok (RS_SUCCESS, Interceptor_add entry (st\<lparr>instrumented := (instrumented st)(ep \<mapsto> entry)\<rparr>)))) = Ok (RS_SUCCESS, st')"
    unfolding DobbyInstrument_def Let_def by (simp add: e0)
  then obtain e st2 where disp: "InstructionInstrument_DispatchRouting env stack ep te ?e0 (st\<lparr>pmem := m\<rparr>) = Ok (e, st2)"
    and rest: "obind (Routing_Commit env e st2) (\<lambda>st.
      Ok (RS_SUCCESS, Interceptor_add e (st\<lparr>instrumented := (instrumented st)(ep \<mapsto> e)\<rparr>))) = Ok (RS_SUCCESS, st')"
    unfolding sbind_eq_Ok by (elim exE conjE) simp
  obtain ce st1 where cl: "CreateClosureTrampoline env te ep (addr_instrument_dispatch env) (st\<lparr>pmem := m\<rparr>) = Ok (ce, st1)"
    using disp unfolding InstructionInstrument_DispatchRouting_def InstructionInstrument_BuildRouting_def sbind_eq_Ok by blast
  have br: "bridge_ok env (st\<lparr>pmem := m\<rparr>)"
    using assms(3) by (simp add: bridge_ok_def resident_def used_def arenas_of_def prot(2) loaded_def)
  have "near_branch_trampoline st1 = near_branch_trampoline st"
    using CreateClosureTrampoline_correct [OF prot(3) assms(2) br cl] by (simp add: same_engine_def)
  then have "\<not> near_branch_trampoline st1" using assms(4) by simp
  from Instrument_BuildRouting_plain [OF cl this e0'(3), of stack] obtain bs where
    bs: "GenerateNormalTrampolineBuffer address (tramp_address ce) = Some bs" "length bs = 12 \<or> length bs = 16"
    "InstructionInstrument_BuildRouting env stack ep te ?e0 (st\<lparr>pmem := m\<rparr>) = Ok (?e0\<lparr>routing := new_InterceptRouting
        \<lparr>pre_handler := handler, trampoline_target := tramp_address ce, trampoline_buffer := Some bs\<rparr>\<rparr>, st1)"
    by (auto simp: e0')
  obtain r where gen: "GenerateRelocatedCode env (?e0\<lparr>routing := new_InterceptRouting
        \<lparr>pre_handler := handler, trampoline_target := tramp_address ce, trampoline_buffer := Some bs\<rparr>\<rparr>) st1 = Ok (r, st2)"
    and e: "e = snd r"
    using disp unfolding InstructionInstrument_DispatchRouting_def bs(3) sbind_simps unfolding sbind_eq_Ok by auto
  obtain st3 where cm: "Routing_Commit env e st2 = Ok st3"
    and st': "st' = Interceptor_add e (st3\<lparr>instrumented := (instrumented st3)(ep \<mapsto> e)\<rparr>)"
    using rest unfolding obind_eq_Ok by auto
  obtain m3 where m3: "DobbyCodePatch env (patched_addr e) (the (trampoline_buffer (routing e)))
       (of_nat (length (the (trampoline_buffer (routing e))))) (pmem st2) = Ok m3" and st3: "st3 = st2\<lparr>pmem := m3\<rparr>"
    using cm by (auto simp: Routing_Commit_def Routing_Active_def obind_eq_Ok Sigsegv_if_null_def GetBufferSize_def split: option.splits)
  show thesis
    by (rule that [of m ce st1 bs "fst r" e st2 m3]) (use ok p fnd cl bs gen m3 st' st3 e in auto)
qed

text \<open>Everything a successful instrumentation leaves behind.\<close>

definition instruments ::
    "'e dobby_image_scheme \<Rightarrow> hook_state \<Rightarrow> addr \<Rightarrow> addr \<Rightarrow> addr \<Rightarrow> addr \<Rightarrow> hook_state \<Rightarrow> InterceptEntry \<Rightarrow>
     ClosureTrampolineEntry \<Rightarrow> u8 list \<Rightarrow> u8 list \<Rightarrow> bool" where
  "instruments env st ep te address handler st' e ce bs buf \<longleftrightarrow>
     alloc_inv env st' \<and> bridge_ok env st' \<and> closure_bridge st' \<noteq> 0 \<and> entries st' = entries st @ [e] \<and>
     patched_addr e = address \<and> pre_handler (routing e) = handler \<and> instrumented st' = (instrumented st)(ep \<mapsto> e) \<and>
     closure_entries st' = (closure_entries st)(te \<mapsto> ce) \<and> carry_handler ce = addr_instrument_dispatch env \<and> carry_data ce = ep \<and>
     resident st' (tramp_address ce) (enc (tramp_words te (closure_bridge st'))) \<and>
     GenerateNormalTrampolineBuffer address (tramp_address ce) = Some bs \<and> (length bs = 12 \<or> length bs = 16) \<and>
     loaded (mbytes (pmem st')) address bs \<and> resident st' (relocated_addr e) buf \<and>
     (\<forall>m1. loaded m1 (relocated_addr e) buf \<longrightarrow>
        runs_original (mbytes (pmem st)) m1 address (length bs div 4) (relocated_addr e)) \<and>
     new_room env st st' \<and> (\<forall>x. mapped (pmem st) x \<longrightarrow> mapped (pmem st') x) \<and>
     (\<forall>x. outside st x \<and> \<not> in_range x address (length bs) \<longrightarrow> mbytes (pmem st') x = mbytes (pmem st) x)"

lemma keeps_protect: "m = set_page a RX (pmem st) \<Longrightarrow> page_uniform (pmem st) \<Longrightarrow> keeps env st (st\<lparr>pmem := m\<rparr>)"
  by (simp add: keeps_def used_def arenas_of_def new_room_def mprot_set_page)

lemma keeps_relocated: "relocated_entry env st e n st' e' buf \<Longrightarrow> keeps env st st'"
  by (simp add: relocated_entry_def keeps_def)

lemma dobby_instrument_effect:
  assumes inv: "alloc_inv env st" "\<not> full_pack env" "bridge_ok env st" and nb: "\<not> near_branch_trampoline st"
    and room: "code_room st address"
    and run: "DobbyInstrument env stack raw ep te address handler st = Ok (RS_SUCCESS, st')"
  shows "\<exists>e ce bs buf. instruments env st ep te address handler st' e ce bs buf \<and> Interceptor_find address st = None"
proof -
  have mp: "mapped (pmem st) address" by (rule code_room_mapped [OF room])
  from instrument_cases [OF inv nb mp run] obtain m ce st1 bs ok e st2 m3 where
    p: "OSMemory_SetPermission env (ALIGN_FLOOR address (env_page env)) (env_page env) kReadExecute (pmem st) = (True, m)"
    and fnd: "Interceptor_find address st = None"
    and cl: "CreateClosureTrampoline env te ep (addr_instrument_dispatch env) (st\<lparr>pmem := m\<rparr>) = Ok (ce, st1)"
    and bs: "GenerateNormalTrampolineBuffer address (tramp_address ce) = Some bs" "length bs = 12 \<or> length bs = 16"
    and gen: "GenerateRelocatedCode env ((instrument_entry raw address handler st)\<lparr>routing := new_InterceptRouting
        \<lparr>pre_handler := handler, trampoline_target := tramp_address ce, trampoline_buffer := Some bs\<rparr>\<rparr>) st1 = Ok ((ok, e), st2)"
    and m3: "DobbyCodePatch env (patched_addr e) (the (trampoline_buffer (routing e)))
       (of_nat (length (the (trampoline_buffer (routing e))))) (pmem st2) = Ok m3"
    and st': "st' = Interceptor_add e (st2\<lparr>pmem := m3, instrumented := (instrumented st2)(ep \<mapsto> e)\<rparr>)" by metis
  let ?e1 = "(instrument_entry raw address handler st)\<lparr>routing := new_InterceptRouting
        \<lparr>pre_handler := handler, trampoline_target := tramp_address ce, trampoline_buffer := Some bs\<rparr>\<rparr>"
  let ?n = "length bs div 4" and ?st0 = "st\<lparr>pmem := m\<rparr>"
  have n: "length bs = 4 * ?n" "0 < ?n" "?n \<le> 4" using bs(2) by auto
  have u0: "page_uniform (pmem st)" using inv by (simp add: alloc_inv_def)
  from protect_code [OF inv(1) mp p] have m: "m = set_page address RX (pmem st)" and inv0: "alloc_inv env ?st0" by simp_all
  have k0: "keeps env st ?st0" by (rule keeps_protect [OF m u0])
  have br0: "bridge_ok env ?st0" using inv(3) resident_keeps [OF _ k0] by (simp add: bridge_ok_def)
  from CreateClosureTrampoline_correct [OF inv0 inv(2) br0 cl] have inv1: "alloc_inv env st1" "bridge_ok env st1" "closure_bridge st1 \<noteq> 0"
    and k1: "keeps env ?st0 st1" and t1: "resident st1 (tramp_address ce) (enc (tramp_words te (closure_bridge st1)))"
    and ce: "carry_handler ce = addr_instrument_dispatch env" "carry_data ce = ep"
    and g1: "same_engine (st\<lparr>pmem := m, closure_bridge := closure_bridge st1, closure_entries := (closure_entries st)(te \<mapsto> ce)\<rparr>) st1"
    by simp_all
  have e1: "patched_addr ?e1 = address" "trampoline_buffer (routing ?e1) = Some bs" "pre_handler (routing ?e1) = handler"
    by (simp_all add: instrument_entry_def new_InterceptEntry_def)
  from GenerateRelocatedCode_correct [OF inv1(1) e1(2) n gen] obtain buf where r: "relocated_entry env st1 ?e1 ?n st2 e buf" by blast
  have k2: "keeps env st1 st2" by (rule keeps_relocated [OF r])
  have k01: "keeps env st st1" by (rule keeps_after [OF k0 k1])
  have k: "keeps env st st2" by (rule keeps_after [OF k01 k2])
  have e: "patched_addr e = address" "trampoline_buffer (routing e) = Some bs" "pre_handler (routing e) = handler"
    and inv2: "alloc_inv env st2" and g2: "same_engine st1 st2" and r2: "resident st2 (relocated_addr e) buf"
    and runs1: "\<And>m1. loaded m1 (relocated_addr e) buf \<Longrightarrow> runs_original (mbytes (pmem st1)) m1 address ?n (relocated_addr e)"
    using r by (auto simp: relocated_entry_def e1 resident_def)
  have runs: "runs_original (mbytes (pmem st)) m1 address ?n (relocated_addr e)" if "loaded m1 (relocated_addr e) buf" for m1
    using runs1 [OF that] keeps_code(3) [OF k01 room] n(3) by (auto simp: runs_original_def)
  have cb: "closure_bridge st2 = closure_bridge st1" using g2 by (simp add: same_engine_def)
  have br2: "resident st2 (closure_bridge st1) (enc (bridge_words (addr_bridge_handler env)))"
    using inv1(2,3) resident_keeps [OF _ k2] by (simp add: bridge_ok_def)
  have t2: "resident st2 (tramp_address ce) (enc (tramp_words te (closure_bridge st1)))" by (rule resident_keeps [OF t1 k2])
  have len: "unat (of_nat (length bs) :: u32) = length bs" using bs(2) by auto
  have co: "outside st (address + of_nat i)" if "i < length bs" for i
    using room that bs(2) by (auto simp: code_room_def)
  have u2: "page_uniform (pmem st2)" and kern: "kernel_ok env" using inv2 by (simp_all add: alloc_inv_def)
  have "mapped (pmem st2) (address + of_nat i)" if "i < unat (of_nat (length bs) :: u32)" for i
    using co [of i] that k by (simp add: len outside_def keeps_def)
  moreover have "unat address + unat (of_nat (length bs) :: u32) < 2 ^ 64" using room bs(2) by (auto simp: code_room_def len)
  ultimately have m3': "m3 = (set_pages address (address + ucast (of_nat (length bs) :: u32)) RX (pmem st2))
      \<lparr>mbytes := overlay (mbytes (pmem st2)) address bs\<rparr>"
    using code_patch [OF kern u2, of "of_nat (length bs)" bs address] m3 e len bs(2) by auto
  have b3: "mbytes m3 = overlay (mbytes (pmem st2)) address bs" by (simp add: m3')
  have kp: "mbytes m3 x = mbytes (pmem st2) x" if "x \<in> used st2" for x
  proof -
    have "\<not> outside st x" using used_not_outside [OF inv2 _ that] k by (simp add: keeps_def)
    then have "\<not> in_range x address (length bs)" using co bs(2) in_range_iff [of "length bs" x address] by auto
    then show ?thesis unfolding b3 by (rule overlay_outside)
  qed
  have ar: "used st' = used st2" "new_room env st st' = new_room env st st2" "pmem st' = m3"
    by (simp_all add: st' Interceptor_add_def used_def new_room_def arenas_of_def)
  have res: "resident st' D ws" if "resident st2 D ws" for D ws
    using that kp by (simp add: resident_def ar loaded_def)
  have inv': "alloc_inv env st'"
    using inv2 u2 by (auto simp: st' Interceptor_add_def alloc_inv_def m3' arenas_of_def set_pages_uniform)
  have "loaded (mbytes m3) address bs" unfolding b3 by (rule overlay_loaded) (use bs(2) in auto)
  moreover have "mbytes m3 x = mbytes (pmem st) x" if "outside st x" "\<not> in_range x address (length bs)" for x
    using overlay_outside [OF that(2), of "mbytes (pmem st2)"] k that(1) by (simp add: b3 keeps_def)
  ultimately have "instruments env st ep te address handler st' e ce bs buf"
    unfolding instruments_def using inv' res [OF br2] res [OF t2] res [OF r2] runs g1 g2 e ce bs k inv1(3) cb
    by (simp add: ar keeps_def bridge_ok_def) (simp add: st' Interceptor_add_def same_engine_def m3' u2)
  then show ?thesis using fnd by blast
qed

section \<open>When an instrumentation succeeds\<close>

lemma roomy_mono: "roomy env st n \<Longrightarrow> k \<le> n \<Longrightarrow> roomy env st k"
  using room_in_mono by (auto simp: roomy_def)

lemma roomy_room: "roomy env st n \<Longrightarrow> room_in (code_arenas st) n \<or> fst (OSMemory_Allocate env 0x1000 kNoAccess 0 (pmem st)) \<noteq> 0"
  by (auto simp: roomy_def gives_page_def)

lemma Finalize_serves_roomy:
  fixes st :: hook_state
  assumes "alloc_inv env st" "realized_addr a = 0" "buffer a \<noteq> []" "length (buffer a) \<le> 0x1000" "roomy env st n" "length (buffer a) \<le> n"
  shows "\<exists>code st'. FinalizeFromTurboAssembler env a st = Ok (Some code, st') \<and> roomy env st' (n - length (buffer a))"
proof -
  obtain r st' where f: "FinalizeFromTurboAssembler env a st = Ok (r, st')"
    using FinalizeFromTurboAssembler_serves [OF assms(1-4) roomy_room [OF roomy_mono [OF assms(5,6)]]] by blast
  show ?thesis using f Finalize_keeps [OF assms(1-4) f] FinalizeFromTurboAssembler_room [OF assms f] by auto
qed

lemma get_closure_bridge_serves:
  assumes "alloc_inv env st" "\<not> full_pack env" "roomy env st n" "228 \<le> n"
  shows "\<exists>b st'. get_closure_bridge env st = Ok (b, st') \<and> roomy env st' (n - 228)"
proof (cases "closure_bridge st = 0")
  case True
  obtain a where a: "closure_bridge_code False (addr_bridge_handler env) = Some a"
    "buffer a = enc (bridge_words (addr_bridge_handler env))" "realized_addr a = 0" using bridge_code by blast
  have l: "length (buffer a) = 228" unfolding a(2) by (rule len_words(1))
  then have "buffer a \<noteq> []" "length (buffer a) \<le> 0x1000" "length (buffer a) \<le> n" using assms(4) by auto
  from Finalize_serves_roomy [OF assms(1) a(3) this(1,2) assms(3) this(3)] show ?thesis
    using True assms(2) a(1) by (auto simp: get_closure_bridge_def l Sigsegv_if_null_def roomy_def)
next
  case False
  then show ?thesis using roomy_mono [OF assms(3), of "n - 228"] by (simp add: get_closure_bridge_def)
qed

lemma CreateClosureTrampoline_serves:
  assumes "alloc_inv env st" "\<not> full_pack env" "bridge_ok env st" "roomy env st n" "280 \<le> n"
  shows "\<exists>ce st'. CreateClosureTrampoline env te data h st = Ok (ce, st') \<and> roomy env st' (n - 280)"
proof -
  obtain a where a: "closure_trampoline_code te = Some a"
    "\<And>b. buffer (EmitInt64 b a) = enc (tramp_words te b) \<and> realized_addr (EmitInt64 b a) = 0"
    using tramp_code [of te] by (metis option.inject)
  obtain b st1 where b: "get_closure_bridge env st = Ok (b, st1)" "roomy env st1 (n - 228)"
    using get_closure_bridge_serves [OF assms(1,2,4)] assms(5) by auto
  have inv: "alloc_inv env st1" using get_closure_bridge_correct [OF assms(1-3) b(1)] by blast
  have l: "length (buffer (EmitInt64 b a)) = 52" unfolding a(2) [THEN conjunct1] by (rule len_words(2))
  then have "buffer (EmitInt64 b a) \<noteq> []" "length (buffer (EmitInt64 b a)) \<le> 0x1000" "length (buffer (EmitInt64 b a)) \<le> n - 228"
    using assms(5) by auto
  from Finalize_serves_roomy [OF inv a(2) [THEN conjunct2] this(1,2) b(2) this(3)] show ?thesis
    using a(1) b(1) by (auto simp: CreateClosureTrampoline_def l Sigsegv_if_null_def roomy_def Let_def)
qed

lemma gives_page_protect: "page_uniform m \<Longrightarrow> gives_page env (set_page a p m) = gives_page env m"
  by (simp add: gives_page_def)

lemma instrument_serves:
  assumes inv: "alloc_inv env st" "\<not> full_pack env" "bridge_ok env st" and nb: "\<not> near_branch_trampoline st"
    and room: "code_room st address" and free: "Interceptor_find address st = None"
    and rd: "all_readable (pmem st) address 16" and imp: "implemented env (mbytes (pmem st)) address"
    and raw: "16 \<le> length (origin_insns raw)" and kern: "roomy env st 416"
  shows "\<exists>st'. DobbyInstrument env stack raw ep te address handler st = Ok (RS_SUCCESS, st')"
proof -
  have mp: "mapped (pmem st) address" by (rule code_room_mapped [OF room])
  have u0: "page_uniform (pmem st)" using inv by (simp add: alloc_inv_def)
  obtain ok m where p: "OSMemory_SetPermission env (ALIGN_FLOOR address (env_page env)) (env_page env) kReadExecute (pmem st) = (ok, m)"
    by (metis surj_pair)
  from protect_code [OF inv(1) mp p] have ok: ok and m: "m = set_page address RX (pmem st)" and inv0: "alloc_inv env (st\<lparr>pmem := m\<rparr>)"
    by simp_all
  have a0: "address \<noteq> 0" using mp inv(1) by (auto simp: alloc_inv_def)
  let ?st0 = "st\<lparr>pmem := m\<rparr>" and ?e0 = "instrument_entry raw address handler st"
  have k0: "keeps env st ?st0" by (rule keeps_protect [OF m u0])
  have br0: "bridge_ok env ?st0" using inv(3) resident_keeps [OF _ k0] by (simp add: bridge_ok_def)
  have "roomy env ?st0 416" using kern by (simp add: roomy_def m gives_page_protect u0)
  from CreateClosureTrampoline_serves [OF inv0 inv(2) br0 this, of te ep "addr_instrument_dispatch env"] obtain ce st1 where
    cl: "CreateClosureTrampoline env te ep (addr_instrument_dispatch env) ?st0 = Ok (ce, st1)" and r1: "roomy env st1 136" by auto
  from CreateClosureTrampoline_correct [OF inv0 inv(2) br0 cl] have inv1: "alloc_inv env st1" and k1: "keeps env ?st0 st1"
    and g1: "near_branch_trampoline st1 = near_branch_trampoline st" by (simp_all add: same_engine_def)
  have k: "keeps env st st1" by (rule keeps_after [OF k0 k1])
  have e0: "new_InterceptEntry raw kInstructionInstrument address ?st0\<lparr>routing :=
      (routing (new_InterceptEntry raw kInstructionInstrument address ?st0))\<lparr>pre_handler := handler\<rparr>\<rparr> = ?e0"
    by (simp add: instrument_entry_def new_InterceptEntry_def Interceptor_count_def)
  have e0': "patched_addr ?e0 = address" "routing ?e0 = new_InterceptRouting\<lparr>pre_handler := handler\<rparr>"
    "trampoline_buffer (routing ?e0) = None" "origin_insns ?e0 = origin_insns raw"
    by (simp_all add: instrument_entry_def new_InterceptEntry_def new_InterceptRouting_def)
  have nb1: "\<not> near_branch_trampoline st1" using nb g1 by simp
  from Instrument_BuildRouting_plain [OF cl nb1 e0'(3), of stack] obtain bs where bs: "length bs = 12 \<or> length bs = 16"
    "InstructionInstrument_BuildRouting env stack ep te ?e0 ?st0 = Ok (?e0\<lparr>routing := (routing ?e0)
        \<lparr>trampoline_target := tramp_address ce, trampoline_buffer := Some bs\<rparr>\<rparr>, st1)" by blast
  let ?e1 = "?e0\<lparr>routing := (routing ?e0)\<lparr>trampoline_target := tramp_address ce, trampoline_buffer := Some bs\<rparr>\<rparr>"
  let ?n = "length bs div 4"
  have n: "length bs = 4 * ?n" "0 < ?n" "?n \<le> 4" using bs(1) by auto
  have e1: "patched_addr ?e1 = address" "trampoline_buffer (routing ?e1) = Some bs" "origin_insns ?e1 = origin_insns raw"
    by (simp_all add: e0')
  have imp1: "implemented env (mbytes (pmem st1)) address"
    using imp keeps_code(3) [OF k room] by (auto simp: implemented_def Let_def)
  obtain e st2 where gen: "GenerateRelocatedCode env ?e1 st1 = Ok ((True, e), st2)"
    using GenerateRelocatedCode_serves [OF inv1 e1(2) n] keeps_readable [OF k rd] imp1 roomy_room [OF r1] raw keeps_code(1) [OF k room]
    unfolding e1 by blast
  from GenerateRelocatedCode_correct [OF inv1 e1(2) n gen] obtain buf where r: "relocated_entry env st1 ?e1 ?n st2 e buf" by blast
  then have e: "patched_addr e = address" "trampoline_buffer (routing e) = Some bs" and inv2: "alloc_inv env st2"
    by (simp_all add: relocated_entry_def e1)
  have k2: "keeps env st st2" by (rule keeps_after [OF k keeps_relocated [OF r]])
  have disp: "InstructionInstrument_DispatchRouting env stack ep te ?e0 ?st0 = Ok (e, st2)"
    unfolding InstructionInstrument_DispatchRouting_def bs(2) sbind_simps gen by simp
  have fnd0: "Interceptor_find address ?st0 = None" using free by (simp add: Interceptor_find_def)
  have hook: "DobbyInstrument env stack raw ep te address handler st =
      obind (Routing_Commit env e st2) (\<lambda>st.
        Ok (RS_SUCCESS, Interceptor_add e (st\<lparr>instrumented := (instrumented st)(ep \<mapsto> e)\<rparr>)))"
    unfolding DobbyInstrument_def if_not_P [OF a0] p Let_def prod.case fnd0 option.case e0 disp sbind_simps
    using ok by simp
  have len: "unat (of_nat (length bs) :: u32) = length bs" using bs(1) by auto
  have kern: "kernel_ok env" and u: "page_uniform (pmem st2)" using inv2 by (simp_all add: alloc_inv_def)
  have "mapped (pmem st2) (address + of_nat i)" if "i < length bs" for i
    using keeps_code(1) [OF k2 room] that bs(1) by (auto simp: code_room_def outside_def)
  then show ?thesis
    using hook code_patch [OF kern u, of "of_nat (length bs)" bs address] bs(1) room
    by (auto simp: Routing_Commit_def Routing_Active_def e Sigsegv_if_null_def GetBufferSize_def len code_room_def)
qed

section \<open>Running an instrumented instruction\<close>

lemma a64_run_x: "a64_run k s = Some t \<Longrightarrow> a64x_run k s = Some t"
proof (induction k arbitrary: s)
  case (Suc k)
  then obtain u where u: "a64_step s = Some u" "a64_run k u = Some t" by (auto split: Option.bind_splits)
  then obtain r where "a64_exec (fetch s) s = Some r" "u = (case r of (t, fl) \<Rightarrow> finish fl (pc s + 4) t)"
    by (auto simp: a64_step_def)
  then have "a64x_step s = Some u" using a64x_exec_base by (simp add: a64x_step_def)
  then show ?case using Suc.IH [OF u(2)] by simp
qed simp

text \<open>\<open>stack_room st F\<close>: the 416 bytes from \<open>F\<close> on belong to the program.\<close>

definition stack_room :: "hook_state \<Rightarrow> addr \<Rightarrow> bool" where
  "stack_room st F \<longleftrightarrow> (\<forall>j<416. outside st (F + of_nat j))"

lemma stack_not_used:
  assumes "alloc_inv env st" "stack_room st F" "x \<in> used st"
  shows "\<not> in_frame F 52 x"
proof
  assume "in_frame F 52 x"
  then have "outside st (F + of_nat (unat (x - F)))" using assms(2) unfolding in_frame_def stack_room_def by auto
  then have "outside st x" by simp
  then show False using assms(1,3) used_not_outside [of env st st x] by (simp add: new_room_def)
qed

lemma resident_clear:
  assumes "alloc_inv env st" "stack_room st F" "resident st D bs" "4 * k \<le> length bs"
  shows "clear_of_frame F 52 D k"
  using stack_not_used [OF assms(1,2)] assms(3,4) by (simp add: clear_of_frame_def resident_def)

text \<open>The closure handler on the memory of the machine.\<close>

lemma handler_sets_hop:
  assumes "closure_entries st te = Some ce" "carry_handler ce = addr_instrument_dispatch env" "instrumented st (carry_data ce) = Some e"
    and "m' = (if pre_handler (routing e) \<noteq> 0 then callback (pre_handler (routing e)) (patched_addr e) F m else m)"
  shows "common_closure_bridge_handler env callback st F te m =
    Some (put_frame m' F 52 ((frame_of m' F)(20 := relocated_addr e)))"
proof -
  have "upd_le (put_frame m' F 52 (frame_of m' F)) 8 (F + 160) (relocated_addr e) =
      put_frame m' F 52 ((frame_of m' F)(20 := relocated_addr e))"
    by (rule store_frame) simp_all
  then have "upd_le m' 8 (F + 160) (relocated_addr e) = put_frame m' F 52 ((frame_of m' F)(20 := relocated_addr e))"
    by (simp add: put_frame_of)
  moreover have "offsetof_x (unat (reg_code TMP_REG_0)) = 160" by (simp add: offsetof_x_def TMP_REG_0_def X_def)
  ultimately show ?thesis
    using assms by (simp add: common_closure_bridge_handler_def instrument_routing_dispatch_def instrument_forward_handler_def
        set_routing_bridge_next_hop_def Let_def)
qed

lemma loaded_same: "loaded m D bs \<Longrightarrow> (\<And>i. i < length bs \<Longrightarrow> m' (D + of_nat i) = m (D + of_nat i)) \<Longrightarrow> loaded m' D bs"
  by (simp add: loaded_def)

lemma instrumented_entered:
  assumes ins: "instruments env st ep te address handler st' e ce bs buf"
    and dist: "llabs (address - tramp_address ce) \<le> 2 ^ 32 - 0x1000 \<or> 2 ^ 32 \<le> llabs (address - tramp_address ce)"
    and s: "mem s = mbytes (pmem st')" "pc s = address" "stack_room st' (spr s - 416)"
  shows "\<exists>k t. a64x_run k s = Some t \<and> pc t = addr_bridge_handler env \<and> spr t = spr s - 416 \<and> xr t 0 = spr s - 416 \<and>
    xr t 1 = te \<and> xr t 30 = closure_bridge st' + 136 \<and>
    context_of (mem t) (spr s - 416) (s\<lparr>xr := (xr s)(17 := closure_bridge st', 30 := tramp_address ce + 24)\<rparr>) \<and>
    frame_of (mem t) (spr s - 416) 51 = xr s 30 \<and> (\<forall>a. \<not> in_frame (spr s - 416) 52 a \<longrightarrow> mem t a = mem s a)"
proof -
  let ?T = "tramp_address ce" and ?b = "closure_bridge st'" and ?F = "spr s - 416"
  have i: "alloc_inv env st'" "resident st' ?b (enc (bridge_words (addr_bridge_handler env)))"
    "resident st' ?T (enc (tramp_words te ?b))" "GenerateNormalTrampolineBuffer address ?T = Some bs"
    "loaded (mbytes (pmem st')) address bs"
    using ins by (simp_all add: instruments_def bridge_ok_def)
  obtain k where "a64_run k s = Some (s\<lparr>xr := (xr s)(17 := ?T), pc := ?T\<rparr>)"
    using trampoline_runs [OF dist] i(4,5) s(1,2) by (metis option.inject)
  then have k: "a64x_run k s = Some (s\<lparr>xr := (xr s)(17 := ?T), pc := ?T\<rparr>)" by (rule a64_run_x)
  have c: "code_at (mbytes (pmem st')) ?T (tramp_words te ?b)" "code_at (mbytes (pmem st')) ?b (bridge_words (addr_bridge_handler env))"
    using i(2,3) loaded_code_at by (auto simp: resident_def)
  have f: "clear_of_frame ?F 52 ?T 13" "clear_of_frame ?F 52 ?b 57"
    using resident_clear [OF i(1) s(3) i(3), of 13] resident_clear [OF i(1) s(3) i(2), of 57] unfolding len_words by simp_all
  obtain t where t: "a64x_run 40 (s\<lparr>xr := (xr s)(17 := ?T), pc := ?T\<rparr>) = Some t" "pc t = addr_bridge_handler env" "spr t = ?F"
    "xr t 0 = ?F" "xr t 1 = te" "xr t 30 = ?b + 136"
    "context_of (mem t) ?F ((s\<lparr>xr := (xr s)(17 := ?T), pc := ?T\<rparr>)\<lparr>xr := ((xr s)(17 := ?T))(17 := ?b, 30 := ?T + 24)\<rparr>)"
    "frame_of (mem t) ?F 51 = xr s 30" "\<forall>a. \<not> in_frame ?F 52 a \<longrightarrow> mem t a = mbytes (pmem st') a"
    using handler_entered [OF c f, of "s\<lparr>xr := (xr s)(17 := ?T), pc := ?T\<rparr>"] s(1) by auto
  have "context_of (mem t) ?F (s\<lparr>xr := (xr s)(17 := ?b, 30 := ?T + 24)\<rparr>)" using t(7) by (simp add: context_of_def)
  moreover have "a64x_run (k + 40) s = Some t" using k t(1) by (simp add: a64x_run_add)
  ultimately show ?thesis using t s(1) by auto
qed

lemma instrumented_left:
  assumes ins: "instruments env st ep te address handler st' e ce bs buf" and F: "stack_room st' F"
    and m': "\<And>x. x \<in> used st' \<Longrightarrow> m' x = mbytes (pmem st') x" "frame_of m' F 33 = tramp_address ce + 24"
    and u: "mem u = put_frame m' F 52 ((frame_of m' F)(20 := relocated_addr e))" "spr u = F" "pc u = closure_bridge st' + 136"
  shows "\<exists>v. a64x_run 26 u = Some v \<and> pc v = relocated_addr e \<and> spr v = F + 416 \<and> xr v 30 = frame_of m' F 51 \<and>
    (\<forall>n<30. n \<noteq> 17 \<longrightarrow> xr v n = frame_of m' F (3 + n)) \<and>
    (\<forall>n<8. qr v n = ucast (frame_of m' F (34 + 2 * n)) OR push_bit 64 (ucast (frame_of m' F (35 + 2 * n)))) \<and>
    mem v = mem u \<and> runs_original (mbytes (pmem st)) (mem v) address (length bs div 4) (pc v)"
proof -
  let ?T = "tramp_address ce" and ?b = "closure_bridge st'"
  have i: "alloc_inv env st'" "resident st' ?b (enc (bridge_words (addr_bridge_handler env)))"
    "resident st' ?T (enc (tramp_words te ?b))" "resident st' (relocated_addr e) buf"
    "\<And>m1. loaded m1 (relocated_addr e) buf \<Longrightarrow> runs_original (mbytes (pmem st)) m1 address (length bs div 4) (relocated_addr e)"
    using ins by (simp_all add: instruments_def bridge_ok_def)
  have same: "mem u x = mbytes (pmem st') x" if "x \<in> used st'" for x
    using that m'(1) stack_not_used [OF i(1) F that] by (simp add: u(1) put_frame_outside)
  have res: "loaded (mem u) D ws" if "resident st' D ws" for D ws
    using that same by (auto simp: resident_def intro: loaded_same)
  have c: "code_at (mem u) ?T (tramp_words te ?b)" "code_at (mem u) ?b (bridge_words (addr_bridge_handler env))"
    using i(2,3) res loaded_code_at by blast+
  have f: "clear_of_frame F 52 ?T 13" "clear_of_frame F 52 ?b 57"
    using resident_clear [OF i(1) F i(3), of 13] resident_clear [OF i(1) F i(2), of 57] unfolding len_words by simp_all
  have fr: "frame_of (mem u) F j = (if j = 20 then relocated_addr e else frame_of m' F j)" if "j < 52" for j
    using that by (simp add: u(1) frame_of_put)
  obtain v where v: "a64x_run 26 u = Some v" "pc v = frame_of (mem u) F 20" "spr v = F + 416" "xr v 30 = frame_of (mem u) F 51"
    "loads_context (mem u) F v" "mem v = mem u"
    using handler_left [OF c f u(2,3)] m'(2) by (auto simp: fr)
  have "runs_original (mbytes (pmem st)) (mem v) address (length bs div 4) (pc v)"
    using i(5) [OF res [OF i(4)]] v(2,6) by (simp add: fr)
  then show ?thesis using v by (intro exI [of _ v]) (auto simp: fr loads_context_def)
qed

section \<open>An image with the engine in it\<close>

definition sample_image :: dobby_image where
  "sample_image = \<lparr>os_maps = os_maps sample_kernel, os_mprotect = os_mprotect sample_kernel, env_mmap = env_mmap sample_kernel,
     env_page = env_page sample_kernel, env_ndebug = env_ndebug sample_kernel, full_pack = False,
     addr_bridge_handler = 0x7000, addr_instrument_dispatch = 0x7100\<rparr>"

lemma sample_image_allocate: "OSMemory_Allocate sample_image = OSMemory_Allocate sample_kernel"
  by (intro ext) (simp add: OSMemory_Allocate_def sample_image_def)

lemma kernel_ok_cong:
  assumes "os_mprotect env' = os_mprotect env" "env_mmap env' = env_mmap env" "env_page env' = env_page env"
  shows "kernel_ok env' = kernel_ok env"
  unfolding kernel_ok_def assms ..

lemma sample_image_inv: "alloc_inv sample_image sample_hook_state" "\<not> full_pack sample_image" "bridge_ok sample_image sample_hook_state"
proof -
  have "os_mprotect sample_image = os_mprotect sample_kernel" "env_mmap sample_image = env_mmap sample_kernel"
    "env_page sample_image = env_page sample_kernel" by (simp_all add: sample_image_def)
  from kernel_ok_cong [OF this] sample_kernel_ok have "kernel_ok sample_image" by simp
  then show "alloc_inv sample_image sample_hook_state" using sample_hook_inv by (simp add: alloc_inv_def)
qed (simp_all add: sample_image_def bridge_ok_def sample_hook_state_def)

lemma sample_image_gives: "kernel_gives sample_image x \<Longrightarrow> x - 0x50000 < 0x1000"
  by (auto simp: kernel_gives_def sample_image_allocate OSMemory_Allocate_def sample_kernel_def split: if_splits)

lemma sample_state: "\<not> near_branch_trampoline sample_hook_state" "pmem sample_hook_state = sample_memory"
    "Interceptor_find a sample_hook_state = None" "16 \<le> length (origin_insns sample_raw)" "entries sample_hook_state = []"
  by (simp_all add: sample_hook_state_def Interceptor_find_def sample_raw_def)

lemma sample_roomy: "roomy sample_image sample_hook_state 416"
  by (simp add: roomy_def gives_page_def sample_image_allocate sample_allocate sample_state)

lemma sample_image_implemented: "implemented sample_image (mbytes sample_memory) 0x10000"
  using sample_implemented by (simp add: implemented_def sample_image_def)

lemma sample_instrumented:
  "\<exists>st'. DobbyInstrument sample_image stack sample_raw ep te 0x10000 h sample_hook_state = Ok (RS_SUCCESS, st')"
  using instrument_serves [OF sample_image_inv sample_state(1) sample_room sample_state(3) _ _ sample_state(4) sample_roomy]
    sample_readable sample_image_implemented by (simp add: sample_state)

lemma sample_near:
  assumes "instruments sample_image sample_hook_state ep te a h st' e ce bs buf"
  shows "llabs (0x10000 - tramp_address ce) \<le> 2 ^ 32 - 0x1000"
proof -
  let ?d = "tramp_address ce - 0x50000"
  have "alloc_inv sample_image st'" "new_room sample_image sample_hook_state st'"
    and r: "resident st' (tramp_address ce) (enc (tramp_words te (closure_bridge st')))" using assms by (simp_all add: instruments_def)
  moreover have "tramp_address ce + of_nat 0 \<in> used st'"
    using r len_words(2) [of te "closure_bridge st'"] unfolding resident_def by (metis zero_less_numeral)
  ultimately have "kernel_gives sample_image (tramp_address ce)"
    using used_in_regions [of "arenas_of st'"]
    by (auto simp: new_room_def alloc_inv_def used_def arenas_ok_def arenas_of_def sample_hook_state_def)
  then have "?d < 0x1000" by (rule sample_image_gives)
  then have d: "uint ?d < 0x1000" by (simp add: word_less_def)
  have "0x10000 - tramp_address ce = word_of_int (- 0x40000 - uint ?d)" by (simp add: algebra_simps)
  moreover have "sint (word_of_int (- 0x40000 - uint ?d) :: u64) = - 0x40000 - uint ?d"
  proof (intro sint_word_of_int)
    have "- 9223372036854775808 \<le> - 0x40000 - uint ?d" "- 0x40000 - uint ?d < 9223372036854775808"
      using d uint_ge_0 [of ?d] by linarith+
    then show "- (2 ^ 63) \<le> - 0x40000 - uint ?d" "- 0x40000 - uint ?d < 2 ^ 63" by simp_all
  qed
  ultimately have "sint (0x10000 - tramp_address ce) = - 0x40000 - uint ?d" by simp
  moreover have "\<bar>- 0x40000 - uint ?d\<bar> \<le> 4294963200" using d uint_ge_0 [of ?d] by linarith
  ultimately show ?thesis by (simp add: word_le_def uint_llabs)
qed

lemma page_in: "PAGE_START a = a \<Longrightarrow> i < 0x1000 \<Longrightarrow> PAGE_START (a + of_nat i) = a"
  using page_offset_less [of "a + of_nat i" a] by (simp add: word_less_nat_alt unat_of_nat take_bit_nat_eq_self)

lemma instruments_outside: "instruments env st ep te a h st' e ce bs buf \<Longrightarrow> outside st x \<Longrightarrow> outside st' x"
  by (auto simp: instruments_def outside_def new_room_def)

lemma sample_stack:
  assumes "instruments sample_image sample_hook_state ep te a h st' e ce bs buf"
  shows "stack_room st' 0x11100"
  unfolding stack_room_def
proof (intro allI impI)
  fix j :: nat
  assume "j < 416"
  then have "PAGE_START (0x11000 + of_nat (0x100 + j)) = 0x11000" using page_in [of "0x11000" "0x100 + j"] by (simp add: page_50000)
  then have "outside sample_hook_state (0x11100 + of_nat j)"
    by (simp add: outside_def sample_mapped arenas_of_def sample_hook_state_def)
  then show "outside st' (0x11100 + of_nat j)" by (rule instruments_outside [OF assms])
qed

text \<open>A thread that comes to the function, with the number of each register in it.\<close>

definition sample_thread :: "hook_state \<Rightarrow> a64" where
  "sample_thread st = \<lparr>xr = of_nat, spr = 0x112A0, pc = 0x10000, nf = False, zf = False, cf = False, vf = False,
     qr = (\<lambda>_. 0), mem = mbytes (pmem st)\<rparr>"

section \<open>Properties\<close>

text \<open>
  C15: When an instrumentation succeeds: for readable code of at least four instructions that is not
  the allocator's and not hooked yet, without literals the relocation does not implement, and
  allocator and kernel with room for the 416 bytes that bridge, closure trampoline and relocated
  code take at most, the result is success.
\<close>

theorem dobby_instrument_succeeds:
  assumes "alloc_inv env st" "\<not> full_pack env" "bridge_ok env st" "\<not> near_branch_trampoline st" "code_room st address"
    and "Interceptor_find address st = None" "all_readable (pmem st) address 16"
    and "implemented env (mbytes (pmem st)) address" "16 \<le> length (origin_insns raw)" "roomy env st 416"
  shows "\<exists>st'. DobbyInstrument env stack raw ep te address handler st = Ok (RS_SUCCESS, st')"
  by (rule instrument_serves [OF assms])

theorem dobby_instrument_succeeds_witness:
  "\<exists>st'. DobbyInstrument sample_image '''' sample_raw 0x9000 0x9100 0x10000 0x8000 sample_hook_state = Ok (RS_SUCCESS, st')"
  using dobby_instrument_succeeds [OF sample_image_inv sample_state(1) sample_room sample_state(3) _ _ sample_state(4) sample_roomy]
    sample_readable sample_image_implemented by (simp add: sample_state)

text \<open>
  C3: What an instrumented instruction does: a machine that comes to it reaches the handler of the
  bridge with a context that holds its stack pointer and its registers, \<^verbatim>\<open>x17\<close> and \<^verbatim>\<open>lr\<close> excepted,
  and with the entry of the closure; nothing but the 416 bytes below the stack pointer has changed.
  The handler runs the callback and sets the next hop. If the callback left the engine's code, the
  \<^verbatim>\<open>lr\<close> of the context and the two words above it alone, the machine then goes on with the registers
  that the callback left in the context, with its own \<^verbatim>\<open>lr\<close> and stack pointer, in code that does what
  the overwritten instructions did. This is for an engine without the near branch plugin, a closure
  that is nearer than 4 GiB (less a page) or farther, and overwritten instructions that \<open>does_same\<close>
  covers: \<^verbatim>\<open>b.al\<close>, \<^verbatim>\<open>b.nv\<close> and the literal loads of 32-bit and SIMD registers are not.
\<close>

theorem instrumented_instruction:
  assumes "alloc_inv env st" "\<not> full_pack env" "bridge_ok env st" "\<not> near_branch_trampoline st" "code_room st address"
    and "DobbyInstrument env stack raw ep te address handler st = Ok (RS_SUCCESS, st')"
    and "\<And>ce. closure_entries st' te = Some ce \<Longrightarrow>
      llabs (address - tramp_address ce) \<le> 2 ^ 32 - 0x1000 \<or> 2 ^ 32 \<le> llabs (address - tramp_address ce)"
    and "mem s = mbytes (pmem st')" "pc s = address" "F = spr s - 416" "stack_room st' F"
  shows "\<exists>k t lr. a64x_run k s = Some t \<and> pc t = addr_bridge_handler env \<and> xr t 0 = F \<and> xr t 1 = te \<and>
    context_of (mem t) F (s\<lparr>xr := (xr s)(17 := closure_bridge st', 30 := lr)\<rparr>) \<and>
    (\<forall>a. \<not> in_frame F 52 a \<longrightarrow> mem t a = mem s a) \<and>
    (\<forall>callback m'. m' = (if handler \<noteq> 0 then callback handler address F (mem t) else mem t) \<and>
       (\<forall>x\<in>used st'. m' x = mem t x) \<and> frame_of m' F 33 = frame_of (mem t) F 33 \<and> frame_of m' F 51 = frame_of (mem t) F 51 \<longrightarrow>
       (\<exists>m2. common_closure_bridge_handler env callback st' (xr t 0) (xr t 1) (mem t) = Some m2 \<and>
         (\<forall>u. mem u = m2 \<and> spr u = spr t \<and> pc u = xr t 30 \<longrightarrow>
           (\<exists>v n. a64x_run 26 u = Some v \<and> spr v = spr s \<and> xr v 30 = xr s 30 \<and>
             (\<forall>i<30. i \<noteq> 17 \<longrightarrow> xr v i = frame_of m' F (3 + i)) \<and>
             (\<forall>i<8. qr v i = ucast (frame_of m' F (34 + 2 * i)) OR push_bit 64 (ucast (frame_of m' F (35 + 2 * i)))) \<and>
             (n = 3 \<or> n = 4) \<and> runs_original (mbytes (pmem st)) (mem v) address n (pc v)))))"
proof -
  obtain e ce bs buf where ins: "instruments env st ep te address handler st' e ce bs buf"
    using dobby_instrument_effect [OF assms(1-6)] by blast
  then have i: "alloc_inv env st'" "closure_entries st' te = Some ce" "carry_handler ce = addr_instrument_dispatch env"
    "instrumented st' (carry_data ce) = Some e" "pre_handler (routing e) = handler" "patched_addr e = address"
    "length bs div 4 = 3 \<or> length bs div 4 = 4"
    by (auto simp: instruments_def)
  obtain k t where t: "a64x_run k s = Some t" "pc t = addr_bridge_handler env" "spr t = F" "xr t 0 = F" "xr t 1 = te"
    "xr t 30 = closure_bridge st' + 136"
    "context_of (mem t) F (s\<lparr>xr := (xr s)(17 := closure_bridge st', 30 := tramp_address ce + 24)\<rparr>)"
    "\<forall>a. \<not> in_frame F 52 a \<longrightarrow> mem t a = mem s a" "frame_of (mem t) F 51 = xr s 30"
    using instrumented_entered [OF ins assms(7) [OF i(2)] assms(8,9)] assms(10,11) by blast
  have "frame_of (mem t) F (3 + 30) = tramp_address ce + 24"
    using t(7) [unfolded context_of_def, THEN conjunct2, THEN conjunct1, rule_format, of 30] by simp
  then have lr: "frame_of (mem t) F 33 = tramp_address ce + 24" by simp
  have used: "mem t x = mbytes (pmem st') x" if "x \<in> used st'" for x
    using t(8) stack_not_used [OF i(1) assms(11) that] assms(8) by simp
  have "\<exists>m2. common_closure_bridge_handler env callback st' (xr t 0) (xr t 1) (mem t) = Some m2 \<and>
         (\<forall>u. mem u = m2 \<and> spr u = spr t \<and> pc u = xr t 30 \<longrightarrow>
           (\<exists>v n. a64x_run 26 u = Some v \<and> spr v = spr s \<and> xr v 30 = xr s 30 \<and>
             (\<forall>i<30. i \<noteq> 17 \<longrightarrow> xr v i = frame_of m' F (3 + i)) \<and>
             (\<forall>i<8. qr v i = ucast (frame_of m' F (34 + 2 * i)) OR push_bit 64 (ucast (frame_of m' F (35 + 2 * i)))) \<and>
             (n = 3 \<or> n = 4) \<and> runs_original (mbytes (pmem st)) (mem v) address n (pc v)))"
    if m': "m' = (if handler \<noteq> 0 then callback handler address F (mem t) else mem t)" "\<forall>x\<in>used st'. m' x = mem t x"
      "frame_of m' F 33 = frame_of (mem t) F 33" "frame_of m' F 51 = frame_of (mem t) F 51" for callback m'
  proof (rule exI [of _ "put_frame m' F 52 ((frame_of m' F)(20 := relocated_addr e))"], intro conjI allI impI)
    show "common_closure_bridge_handler env callback st' (xr t 0) (xr t 1) (mem t) =
        Some (put_frame m' F 52 ((frame_of m' F)(20 := relocated_addr e)))"
      unfolding t(4,5) by (rule handler_sets_hop [OF i(2-4)]) (simp add: i(5,6) m'(1))
    fix u :: a64
    assume u: "mem u = put_frame m' F 52 ((frame_of m' F)(20 := relocated_addr e)) \<and> spr u = spr t \<and> pc u = xr t 30"
    have same: "m' x = mbytes (pmem st') x" if "x \<in> used st'" for x using that m'(2) used by simp
    have spr: "spr s = F + 416" by (simp add: assms(10))
    show "\<exists>v n. a64x_run 26 u = Some v \<and> spr v = spr s \<and> xr v 30 = xr s 30 \<and>
        (\<forall>i<30. i \<noteq> 17 \<longrightarrow> xr v i = frame_of m' F (3 + i)) \<and>
        (\<forall>i<8. qr v i = ucast (frame_of m' F (34 + 2 * i)) OR push_bit 64 (ucast (frame_of m' F (35 + 2 * i)))) \<and>
        (n = 3 \<or> n = 4) \<and> runs_original (mbytes (pmem st)) (mem v) address n (pc v)"
      using instrumented_left [OF ins assms(11) same m'(3) [unfolded lr], of u] u t(3,6,9) i(7) m'(4) unfolding spr by metis
  qed
  then show ?thesis using t by (intro exI [of _ k] exI [of _ t] exI [of _ "tramp_address ce + 24"]) simp
qed

theorem instrumented_instruction_witness:
  "\<exists>st' k t m2. DobbyInstrument sample_image '''' sample_raw 0x9000 0x9100 0x10000 0 sample_hook_state = Ok (RS_SUCCESS, st') \<and>
     a64x_run k (sample_thread st') = Some t \<and> pc t = 0x7000 \<and> xr t 0 = 0x11100 \<and> xr t 1 = 0x9100 \<and>
     common_closure_bridge_handler sample_image (\<lambda>_ _ _ m. m) st' (xr t 0) (xr t 1) (mem t) = Some m2 \<and>
     (\<exists>v. a64x_run 26 (t\<lparr>mem := m2, pc := xr t 30\<rparr>) = Some v \<and> spr v = 0x112A0 \<and> xr v 30 = 30 \<and> xr v 5 = 5)"
proof -
  obtain st' where st': "DobbyInstrument sample_image '''' sample_raw 0x9000 0x9100 0x10000 0 sample_hook_state = Ok (RS_SUCCESS, st')"
    using sample_instrumented by blast
  obtain e ce bs buf where ins: "instruments sample_image sample_hook_state 0x9000 0x9100 0x10000 0 st' e ce bs buf"
    using dobby_instrument_effect [OF sample_image_inv sample_state(1) sample_room st'] by blast
  have dist: "llabs (0x10000 - tramp_address c) \<le> 2 ^ 32 - 0x1000 \<or> 2 ^ 32 \<le> llabs (0x10000 - tramp_address c)"
    if "closure_entries st' 0x9100 = Some c" for c
    using that ins sample_near [OF ins] by (auto simp: instruments_def)
  let ?s = "sample_thread st'"
  have s: "mem ?s = mbytes (pmem st')" "pc ?s = 0x10000" "0x11100 = spr ?s - 416" by (simp_all add: sample_thread_def)
  note run = instrumented_instruction [OF sample_image_inv sample_state(1) sample_room st' dist s sample_stack [OF ins]]
  obtain k t lr where t: "a64x_run k ?s = Some t" "pc t = addr_bridge_handler sample_image" "xr t 0 = 0x11100" "xr t 1 = 0x9100"
    "context_of (mem t) 0x11100 (?s\<lparr>xr := (xr ?s)(17 := closure_bridge st', 30 := lr)\<rparr>)"
    and rest: "\<exists>m2. common_closure_bridge_handler sample_image (\<lambda>_ _ _ m. m) st' (xr t 0) (xr t 1) (mem t) = Some m2 \<and>
         (\<forall>u. mem u = m2 \<and> spr u = spr t \<and> pc u = xr t 30 \<longrightarrow>
           (\<exists>v n. a64x_run 26 u = Some v \<and> spr v = spr ?s \<and> xr v 30 = xr ?s 30 \<and>
             (\<forall>i<30. i \<noteq> 17 \<longrightarrow> xr v i = frame_of (mem t) 0x11100 (3 + i)) \<and>
             (\<forall>i<8. qr v i = ucast (frame_of (mem t) 0x11100 (34 + 2 * i)) OR push_bit 64 (ucast (frame_of (mem t) 0x11100 (35 + 2 * i)))) \<and>
             (n = 3 \<or> n = 4) \<and> runs_original (mbytes (pmem sample_hook_state)) (mem v) 0x10000 n (pc v)))"
    using run by auto
  from rest obtain m2 where m2: "common_closure_bridge_handler sample_image (\<lambda>_ _ _ m. m) st' (xr t 0) (xr t 1) (mem t) = Some m2"
    and u: "\<And>u. mem u = m2 \<and> spr u = spr t \<and> pc u = xr t 30 \<Longrightarrow>
       \<exists>v. a64x_run 26 u = Some v \<and> spr v = spr ?s \<and> xr v 30 = xr ?s 30 \<and> (\<forall>i<30. i \<noteq> 17 \<longrightarrow> xr v i = frame_of (mem t) 0x11100 (3 + i))"
    by blast
  obtain v where v: "a64x_run 26 (t\<lparr>mem := m2, pc := xr t 30\<rparr>) = Some v" "spr v = spr ?s" "xr v 30 = xr ?s 30"
    "\<forall>i<30. i \<noteq> 17 \<longrightarrow> xr v i = frame_of (mem t) 0x11100 (3 + i)" using u [of "t\<lparr>mem := m2, pc := xr t 30\<rparr>"] by auto
  have "frame_of (mem t) 0x11100 (3 + 5) = 5"
    using t(5) [unfolded context_of_def, THEN conjunct2, THEN conjunct1, rule_format, of 5] by (simp add: sample_thread_def)
  moreover have "xr v 5 = frame_of (mem t) 0x11100 (3 + 5)" using v(4) [rule_format, of 5] by simp
  ultimately have "xr v 5 = 5" by simp
  moreover have "addr_bridge_handler sample_image = 0x7000" "spr ?s = 0x112A0" "xr ?s 30 = 30"
    by (simp_all add: sample_image_def sample_thread_def)
  ultimately show ?thesis using st' t m2 v by metis
qed

end
