(* ===== verification/Js_Strings.thy ===== *)
theory Js_Strings
  imports Prelude "HOL-Library.Sublist"
begin

text \<open>
  Strings of the application: what \<^verbatim>\<open>std::string\<close> offers to it, and the two helpers of
  \<^verbatim>\<open>utils/str_helper.cpp\<close>. A position that \<^verbatim>\<open>find\<close> does not find (\<^verbatim>\<open>npos\<close>) is \<open>None\<close>; strings are
  shorter than 2 GiB, so that the conversions of positions to \<^verbatim>\<open>int\<close> and back lose nothing.
\<close>

section \<open>Strings of the standard library\<close>

definition str_find :: "string \<Rightarrow> string \<Rightarrow> nat \<Rightarrow> nat option" where
  "str_find s pat i = find (\<lambda>k. prefix pat (drop k s)) [i..<Suc (length s)]"

text \<open>\<^verbatim>\<open>find_last_of\<close> for one character, up to a position (\<^verbatim>\<open>npos\<close>: the whole string).\<close>

definition find_last_of :: "string \<Rightarrow> char \<Rightarrow> nat option \<Rightarrow> nat option" where
  "find_last_of s c till =
     (let n = (case till of None \<Rightarrow> length s | Some p \<Rightarrow> min (Suc p) (length s))
      in find (\<lambda>k. s ! k = c) (rev [0..<n]))"

text \<open>\<^verbatim>\<open>substr\<close> throws \<^verbatim>\<open>out_of_range\<close> when the position is past the end.\<close>

definition substr :: "string \<Rightarrow> nat \<Rightarrow> nat \<Rightarrow> string option" where
  "substr s pos n = (if pos > length s then None else Some (take n (drop pos s)))"

lemma substr_part: "s = u @ x @ v \<Longrightarrow> k = length u \<Longrightarrow> n = length x \<Longrightarrow> substr s k n = Some x"
  by (simp add: substr_def)

definition substr_from :: "string \<Rightarrow> nat \<Rightarrow> string option" where
  "substr_from s pos = substr s pos (length s)"

definition str_replace :: "string \<Rightarrow> nat \<Rightarrow> nat \<Rightarrow> string \<Rightarrow> string" where
  "str_replace s pos n new = take pos s @ new @ drop (pos + n) s"

definition count_char :: "string \<Rightarrow> char \<Rightarrow> nat" where
  "count_char s c = length (filter (\<lambda>x. x = c) s)"

section \<open>The helpers\<close>

text \<open>
  \<^verbatim>\<open>replace_all\<close> replaces the first occurrence until there is none, searching from the start each
  time; it has no value when that never ends.
\<close>

partial_function (option) replace_all :: "string \<Rightarrow> string \<Rightarrow> string \<Rightarrow> string option" where
  [code]: "replace_all s old new =
     (case str_find s old 0 of
        None \<Rightarrow> Some s
      | Some pos \<Rightarrow> replace_all (str_replace s pos (length old) new) old new)"

partial_function (option) string_split_from :: "string \<Rightarrow> string \<Rightarrow> nat \<Rightarrow> string list \<Rightarrow> string list option" where
  [code]: "string_split_from s pat i result =
     (if i < length s then
        (case str_find s pat i of
           None \<Rightarrow> Some (result @ [drop i s])
         | Some pos \<Rightarrow>
             if pos < length s
             then string_split_from s pat (pos + length pat) (result @ [take (pos - i) (drop i s)])
             else string_split_from s pat (Suc i) result)
      else Some result)"

definition string_split :: "string \<Rightarrow> string \<Rightarrow> string list option" where
  "string_split s pat = string_split_from s pat 0 []"

text \<open>
  The conversions to and from hexadecimal text: two digits and a blank for each byte, or a line feed
  after each sixteenth. \<^verbatim>\<open>hex2int\<close> knows two of the six letters, and gives both the values from 0 on.
\<close>

definition hex2int :: "char \<Rightarrow> nat" where
  "hex2int c =
     (let n = of_char c in
      if 48 \<le> n \<and> n \<le> 57 then n - 48
      else if 65 \<le> n \<and> n \<le> (66 :: nat) then n - 65
      else if 97 \<le> n \<and> n \<le> 98 then n - 97
      else 0)"

definition cHex :: string where
  "cHex = ''0123456789ABCDEF''"

definition hex2str :: "char list \<Rightarrow> string" where
  "hex2str hex =
     concat (map (\<lambda>j. let a = of_char (hex ! j) in
         [cHex ! (a mod 256 div 16), cHex ! (a mod 16), if (j + 1) mod 16 = 0 then CHR 0x0A else CHR '' ''])
       [0..<length hex])"

text \<open>The loop takes two characters at a time while the first is not the last one.\<close>

fun str2hex :: "string \<Rightarrow> char list" where
  "str2hex (a # b # s) = char_of (hex2int a * 16 + hex2int b) # str2hex s"
| "str2hex _ = []"

section \<open>Searching\<close>

lemma find_upt_None: "find P [i..<n] = None \<longleftrightarrow> (\<forall>k. i \<le> k \<and> k < n \<longrightarrow> \<not> P k)"
  by (auto simp: find_None_iff)

lemma find_upt_Some: "find P [i..<n] = Some k \<longleftrightarrow> i \<le> k \<and> k < n \<and> P k \<and> (\<forall>j. i \<le> j \<and> j < k \<longrightarrow> \<not> P j)"
proof (induction n)
  case (Suc n)
  show ?case
  proof (cases "i \<le> n")
    case True
    then have "[i..<Suc n] = [i..<n] @ [n]" by simp
    moreover have "find P (xs @ ys) = (case find P xs of None \<Rightarrow> find P ys | Some y \<Rightarrow> Some y)" for xs ys :: "nat list"
      by (induction xs) auto
    ultimately show ?thesis
      using Suc find_upt_None [of P i n] True
      by (auto split: option.splits simp: less_Suc_eq le_less)
  qed auto
qed simp

lemma str_find_Some:
  "str_find s pat i = Some k \<longleftrightarrow>
     i \<le> k \<and> k \<le> length s \<and> prefix pat (drop k s) \<and> (\<forall>j. i \<le> j \<and> j < k \<longrightarrow> \<not> prefix pat (drop j s))"
  unfolding str_find_def find_upt_Some by auto

lemma str_find_None:
  "str_find s pat i = None \<longleftrightarrow> (\<forall>k. i \<le> k \<and> k \<le> length s \<longrightarrow> \<not> prefix pat (drop k s))"
  unfolding str_find_def find_upt_None by auto

lemma prefix_single: "prefix [c] xs \<longleftrightarrow> (\<exists>ys. xs = c # ys)"
  by (auto simp: prefix_def)

text \<open>A character is found behind the longest part without it.\<close>

lemma str_find_char:
  "str_find s [c] 0 = (if c \<in> set s then Some (length (takeWhile (\<lambda>x. x \<noteq> c) s)) else None)"
proof (cases "c \<in> set s")
  case True
  then obtain us vs where s: "s = us @ c # vs" "c \<notin> set us" by (metis split_list_first)
  have "\<not> prefix [c] (drop j s)" if "j < length us" for j
  proof
    assume "prefix [c] (drop j s)"
    then obtain ys where "drop j s = c # ys" by (auto simp: prefix_single)
    moreover have "drop j s = us ! j # drop (Suc j) s" using that s(1) by (simp add: Cons_nth_drop_Suc [symmetric] nth_append)
    ultimately have "us ! j = c" by simp
    then show False using s(2) that nth_mem by metis
  qed
  then have "str_find s [c] 0 = Some (length us)" unfolding str_find_Some by (auto simp: s(1) prefix_single)
  moreover have "takeWhile (\<lambda>x. x \<noteq> c) s = us" using s(2) by (simp add: s(1) takeWhile_append)
  ultimately show ?thesis using True by simp
next
  case False
  have "\<not> prefix [c] (drop k s)" for k
    using False set_drop_subset [of k s] by (force simp: prefix_single)
  then show ?thesis using False by (simp add: str_find_None)
qed

lemma find_rev_upt: "find P (rev [0..<n]) = Some k \<longleftrightarrow> k < n \<and> P k \<and> (\<forall>j. k < j \<and> j < n \<longrightarrow> \<not> P j)"
proof (induction n)
  case (Suc n)
  then show ?case by (auto simp: less_Suc_eq)
qed simp

text \<open>The last occurrence of a character before a position.\<close>

lemma find_last_of_append:
  assumes "c \<notin> set v"
  shows "find_last_of (u @ c # v) c None = Some (length u)"
  unfolding find_last_of_def Let_def option.case find_rev_upt
proof (intro conjI allI impI)
  fix j
  assume j: "length u < j \<and> j < length (u @ c # v)"
  then have "(u @ c # v) ! j = v ! (j - Suc (length u))" by (simp add: nth_append nth_Cons')
  moreover have "j - Suc (length u) < length v" using j by auto
  ultimately show "(u @ c # v) ! j \<noteq> c" using assms nth_mem by metis
qed simp_all

lemma find_last_of_till:
  assumes "c \<notin> set v"
  shows "find_last_of (u @ c # v @ w) c (Some (length u + length v)) = Some (length u)"
  unfolding find_last_of_def Let_def option.case find_rev_upt
proof (intro conjI allI impI)
  fix j
  assume j: "length u < j \<and> j < min (Suc (length u + length v)) (length (u @ c # v @ w))"
  then have "(u @ c # v @ w) ! j = v ! (j - Suc (length u))" by (auto simp: nth_append nth_Cons')
  moreover have "j - Suc (length u) < length v" using j by auto
  ultimately show "(u @ c # v @ w) ! j \<noteq> c" using assms nth_mem by metis
qed simp_all

lemma find_last_of_none:
  assumes "c \<notin> set u" "u \<noteq> []"
  shows "find_last_of (u @ w) c (Some (length u - 1)) = None"
proof -
  have "find (\<lambda>k. (u @ w) ! k = c) (rev [0..<length u]) = None"
    using assms by (auto simp: find_None_iff nth_append)
  then show ?thesis using assms(2) by (simp add: find_last_of_def)
qed

section \<open>Replacing every occurrence\<close>

definition subst_char :: "char \<Rightarrow> string \<Rightarrow> string \<Rightarrow> string" where
  "subst_char c new s = concat (map (\<lambda>x. if x = c then new else [x]) s)"

lemma subst_char_absent [simp]: "c \<notin> set s \<Longrightarrow> subst_char c new s = s"
  by (induction s) (auto simp: subst_char_def)

lemma subst_char_append [simp]: "subst_char c new (s @ t) = subst_char c new s @ subst_char c new t"
  by (simp add: subst_char_def)

lemma subst_char_Cons: "subst_char c new (x # s) = (if x = c then new else [x]) @ subst_char c new s"
  by (simp add: subst_char_def)

text \<open>Replacing a character by a string without it ends, with the substitution.\<close>

lemma replace_all_char:
  assumes "c \<notin> set new"
  shows "replace_all s [c] new = Some (subst_char c new s)"
proof (induction "count_list s c" arbitrary: s)
  case 0
  then have "c \<notin> set s" by (metis count_list_0_iff)
  then show ?case by (simp add: replace_all.simps [of s] str_find_char)
next
  case (Suc n)
  then have "c \<in> set s" using count_list_0_iff [of s c] by auto
  then obtain us vs where s: "s = us @ c # vs" "c \<notin> set us" by (metis split_list_first)
  then have find: "str_find s [c] 0 = Some (length us)" by (simp add: str_find_char takeWhile_append)
  have "count_list (us @ new @ vs) c = n"
    using Suc.hyps(2) assms s(2) by (simp add: s(1) count_notin)
  with Suc.hyps(1) have "replace_all (us @ new @ vs) [c] new = Some (subst_char c new (us @ new @ vs))" by simp
  moreover have "subst_char c new (us @ new @ vs) = subst_char c new s"
    using assms s by (simp add: subst_char_Cons)
  moreover have "str_replace s (length us) (length [c]) new = us @ new @ vs" by (simp add: str_replace_def s(1))
  ultimately show ?case unfolding replace_all.simps [of s] find by simp
qed

text \<open>Replacing a character by a string that has it never ends once there is an occurrence.\<close>

lemma replace_all_removes:
  assumes "replace_all s old new = Some r"
  shows "\<not> (\<exists>c. old = [c] \<and> c \<in> set new \<and> c \<in> set s)"
proof (rule replace_all.raw_induct [OF _ assms])
  fix f s old new r
  assume IH: "\<And>s old new r. f s old new = Some r \<Longrightarrow> \<not> (\<exists>c. old = [c] \<and> c \<in> set new \<and> c \<in> set s)"
    and step: "(case str_find s old 0 of None \<Rightarrow> Some s
      | Some pos \<Rightarrow> f (str_replace s pos (length old) new) old new) = Some r"
  show "\<not> (\<exists>c. old = [c] \<and> c \<in> set new \<and> c \<in> set s)"
  proof
    assume "\<exists>c. old = [c] \<and> c \<in> set new \<and> c \<in> set s"
    then obtain c where c: "old = [c]" "c \<in> set new" "c \<in> set s" by blast
    let ?s = "str_replace s (length (takeWhile (\<lambda>x. x \<noteq> c) s)) (length old) new"
    have "f ?s old new = Some r" using step c by (simp add: str_find_char)
    from IH [OF this] c(1,2) have "c \<notin> set ?s" by blast
    then show False using c(2) by (simp add: str_replace_def)
  qed
qed

lemma replace_all_diverges: "c \<in> set new \<Longrightarrow> c \<in> set s \<Longrightarrow> replace_all s [c] new = None"
  using replace_all_removes [of s "[c]" new] by (cases "replace_all s [c] new") auto

end
