(* ===== verification/Js_Parse.thy ===== *)
theory Js_Parse
  imports Js_Strings "HOL-Library.Monad_Syntax"
begin

text \<open>
  The names and signatures of native methods, \<^verbatim>\<open>hook_jni/parse_java_sig.cpp\<close>: descriptors of the
  virtual machine, the names of exported symbols, and declarations as the runtime prints them. The
  functions fill the variables of their caller, which are the fields of a record here; \<open>None\<close> stands
  for a call that does not return, because it loops, because \<^verbatim>\<open>substr\<close> throws, or because a part of a
  name is read that is not there.
\<close>

section \<open>Descriptors\<close>

record java_method =
  class_name :: string
  method_name :: string
  args_type :: "string list"
  ret_type :: string
  is_override :: bool

text \<open>The characters of a C string.\<close>

definition cstr :: "string \<Rightarrow> string" where
  "cstr s = takeWhile (\<lambda>c. c \<noteq> CHR 0x00) s"

definition is_java_base_args_sig :: "char \<Rightarrow> bool" where
  "is_java_base_args_sig sig =
     (sig = CHR ''V'' \<or> sig = CHR ''Z'' \<or> sig = CHR ''B'' \<or> sig = CHR ''C'' \<or> sig = CHR ''S'' \<or>
      sig = CHR ''I'' \<or> sig = CHR ''J'' \<or> sig = CHR ''F'' \<or> sig = CHR ''D'')"

text \<open>
  The two lambdas of \<^verbatim>\<open>split_args_sig\<close>, on the rest of the string from the position on; \<open>None\<close> is the
  position \<open>- 1\<close>.
\<close>

fun get_class_args_type :: "string \<Rightarrow> (string \<times> string) option" where
  "get_class_args_type [] = None"
| "get_class_args_type (c # s) =
     (if c = CHR '';'' then Some ([c], s)
      else map_option (\<lambda>(sig, rest). (c # sig, rest)) (get_class_args_type s))"

fun get_array_args_count :: "string \<Rightarrow> (nat \<times> string) option" where
  "get_array_args_count [] = None"
| "get_array_args_count (c # s) =
     (if c \<noteq> CHR ''['' then Some (0, c # s)
      else map_option (\<lambda>(n, rest). (Suc n, rest)) (get_array_args_count s))"

lemma get_class_args_type_shorter: "get_class_args_type s = Some (t, rest) \<Longrightarrow> length rest < length s"
  by (induction s arbitrary: t) (force split: if_splits)+

lemma get_array_args_count_le: "get_array_args_count s = Some (n, rest) \<Longrightarrow> length rest \<le> length s"
  by (induction s arbitrary: n) (force split: if_splits)+

text \<open>
  The loop. The brackets before a class are put into the string of the class and then overwritten:
  \<open>sig\<close> is assigned, not appended to.
\<close>

function split_args_loop :: "string \<Rightarrow> nat \<Rightarrow> string list \<Rightarrow> bool \<times> string list" where
  "split_args_loop psig array ret_sig =
     (case psig of
        [] \<Rightarrow> (True, ret_sig)
      | c # s \<Rightarrow>
          if c = CHR ''['' then
            (case get_array_args_count s of
               None \<Rightarrow> (False, ret_sig)
             | Some (n, rest) \<Rightarrow> split_args_loop rest (Suc n) ret_sig)
          else if c = CHR ''L'' then
            (case get_class_args_type psig of
               None \<Rightarrow> (False, ret_sig)
             | Some (sig, rest) \<Rightarrow> split_args_loop rest 0 (ret_sig @ [sig]))
          else if is_java_base_args_sig c then
            split_args_loop s 0 (ret_sig @ [replicate array CHR ''['' @ [c]])
          else (False, ret_sig))"
  by pat_completeness auto
termination
  by (relation "measure (\<lambda>(psig, array, ret_sig). length psig)")
    (auto dest: get_array_args_count_le get_class_args_type_shorter simp del: get_class_args_type.simps)

declare split_args_loop.simps [simp del]

definition split_args_sig :: "string \<Rightarrow> string list \<Rightarrow> bool \<times> string list" where
  "split_args_sig args_sig ret_sig = split_args_loop (cstr args_sig) 0 ret_sig"

section \<open>Signatures of methods\<close>

definition parse_java_signature :: "string \<Rightarrow> java_method \<Rightarrow> (bool \<times> java_method) option" where
  "parse_java_signature signature d =
     (let cpy_signature = cstr signature in
      case (str_find cpy_signature ''('' 0, str_find cpy_signature '')'' 0) of
        (Some p1, Some p2) \<Rightarrow>
          if p1 > p2 then Some (False, d)
          else Option.bind (substr cpy_signature (p1 + 1) (p2 - p1 - 1)) (\<lambda>args_sig.
            case (if args_sig \<noteq> [] then split_args_sig args_sig (args_type d) else (True, args_type d)) of
              (ok, args) \<Rightarrow>
                if \<not> ok then Some (False, d\<lparr>args_type := args\<rparr>)
                else map_option (\<lambda>r. (True, d\<lparr>args_type := args, ret_type := r\<rparr>)) (substr_from cpy_signature (p2 + 1)))
      | _ \<Rightarrow> Some (False, d))"

section \<open>Names of exported symbols\<close>

definition parse_java_lang_name :: "string \<Rightarrow> java_method \<Rightarrow> (bool \<times> java_method) option" where
  "parse_java_lang_name lang_name d =
     (let name = cstr lang_name in
      if length name < 6 \<or> take 5 name \<noteq> ''Java_'' then Some (False, d)
      else let sys_name_cpy = drop 5 name in
      if str_find sys_name_cpy ''_0'' 0 \<noteq> None then Some (False, d)
      else Option.bind (string_split sys_name_cpy ''__'') (\<lambda>sp_sys_name.
        if length sp_sys_name \<noteq> 1 \<and> length sp_sys_name \<noteq> 2 then Some (False, d)
        else
          let override = (str_find sys_name_cpy ''__'' 0 \<noteq> None);
              d = d\<lparr>is_override := override\<rparr>;
              sp_sys_name = (if override then sp_sys_name else sp_sys_name @ [''''])
          in if length sp_sys_name < 2 then None
          else Option.bind (replace_all (sp_sys_name ! 0) ''_'' ''.'') (\<lambda>api_sig.
            Option.bind (replace_all api_sig ''.1'' ''_'') (\<lambda>api_sig.
            case find_last_of api_sig CHR ''.'' None of
              None \<Rightarrow> Some (False, d)
            | Some en \<Rightarrow>
                let d = d\<lparr>class_name := take en api_sig, method_name := drop (en + 1) api_sig\<rparr> in
                if class_name d = [] \<or> method_name d = [] then Some (False, d)
                else if override then
                  Option.bind (replace_all (sp_sys_name ! 1) ''_2'' '';'') (\<lambda>args_sig.
                  map_option (\<lambda>args_sig. case split_args_sig args_sig (args_type d) of
                      (ok, args) \<Rightarrow> (ok, d\<lparr>args_type := args\<rparr>)) (replace_all args_sig ''_3'' ''[''))
                else Some (True, d)))))"

section \<open>Declarations\<close>

definition make_sig :: "string \<Rightarrow> nat \<Rightarrow> string" where
  "make_sig sig array = replicate array CHR ''['' @ sig"

definition conv_java_type_2_sig_type :: "string \<Rightarrow> string option" where
  "conv_java_type_2_sig_type type_name =
     (let has_array = str_find type_name ''['' 0 \<noteq> None \<and> str_find type_name '']'' 0 \<noteq> None;
          array = (if has_array then count_char type_name CHR ''['' else 0)
      in Option.bind (if has_array
           then Option.bind (replace_all type_name ''['' '''') (\<lambda>s. replace_all s '']'' '''')
           else Some type_name) (\<lambda>cpy_str.
         if cpy_str = ''void'' then Some (make_sig ''V'' array)
         else if cpy_str = ''boolean'' then Some (make_sig ''Z'' array)
         else if cpy_str = ''byte'' then Some (make_sig ''B'' array)
         else if cpy_str = ''char'' then Some (make_sig ''C'' array)
         else if cpy_str = ''short'' then Some (make_sig ''S'' array)
         else if cpy_str = ''int'' then Some (make_sig ''I'' array)
         else if cpy_str = ''long'' then Some (make_sig ''J'' array)
         else if cpy_str = ''float'' then Some (make_sig ''F'' array)
         else if cpy_str = ''double'' then Some (make_sig ''D'' array)
         else map_option (\<lambda>s. make_sig (''L'' @ s @ '';'') array) (replace_all cpy_str ''.'' ''/'')))"

fun conv_each :: "string list \<Rightarrow> string list option" where
  "conv_each [] = Some []"
| "conv_each (item # items) =
     Option.bind (conv_java_type_2_sig_type item) (\<lambda>t. map_option (\<lambda>ts. t # ts) (conv_each items))"

text \<open>
  \<^verbatim>\<open>decl.find_last_of(' ', p - 1)\<close> with \<open>p = 0\<close> searches the whole string. The last part of the function, from
  the place of the blank before the method on.
\<close>

definition parse_ret_type :: "string \<Rightarrow> nat \<Rightarrow> java_method \<Rightarrow> (bool \<times> java_method) option" where
  "parse_ret_type decl p d =
     (case find_last_of decl CHR '' '' (if p = 0 then None else Some (p - 1)) of
        None \<Rightarrow> Some (take p decl, True)
      | Some p2 \<Rightarrow>
          if p \<le> p2 + 1 then Some (ret_type d, False)
          else map_option (\<lambda>r. (r, True)) (substr decl (p2 + 1) (p - p2 - 1)))
     \<bind> (\<lambda>(r, ok).
       if \<not> ok \<or> r = [] then Some (False, d\<lparr>ret_type := r\<rparr>)
       else map_option (\<lambda>r. (True, d\<lparr>ret_type := r\<rparr>)) (conv_java_type_2_sig_type r))"

definition parse_java_pretty_name :: "string \<Rightarrow> java_method \<Rightarrow> (bool \<times> java_method) option" where
  "parse_java_pretty_name decl d =
     (if count_char decl CHR '' '' < 1 then Some (False, d)
      else case (str_find decl ''('' 0, str_find decl '')'' 0) of
        (Some start, Some en) \<Rightarrow>
          if en < start + 1 then Some (False, d)
          else
            substr decl (start + 1) (en - start - 1) \<bind> (\<lambda>args.
            replace_all args '' '' '''' \<bind> (\<lambda>args.
            string_split args '','' \<bind> (\<lambda>items.
            conv_each items \<bind> (\<lambda>items.
            let d = d\<lparr>args_type := items\<rparr> in
            case find_last_of decl CHR '' '' (Some start) of
              None \<Rightarrow> Some (False, d)
            | Some p \<Rightarrow>
                if start \<le> p + 1 then Some (False, d)
                else
                  substr decl (p + 1) (start - p - 1) \<bind> (\<lambda>class_method.
                  if class_method = [] then Some (False, d)
                  else case find_last_of class_method CHR ''.'' None of
                    None \<Rightarrow> Some (False, d)
                  | Some ppoint \<Rightarrow>
                      let d = d\<lparr>method_name := drop (ppoint + 1) class_method, class_name := take ppoint class_method\<rparr>
                      in if method_name d = [] \<or> class_name d = [] then Some (False, d)
                         else parse_ret_type decl p d)))))
      | _ \<Rightarrow> Some (False, d))"

section \<open>The types of arguments\<close>

record args_type_t =
  sig :: string
  inner_base_type :: string
  array_dim :: "nat option"

text \<open>
  The character at position 0 of an empty string is NUL. The dimension counts dots, and is
  not set (\<open>None\<close>) for what is no array. The part of a class name starts behind its \<^verbatim>\<open>L\<close> and leaves out the last character, or nothing when there is none.
\<close>

definition conv_sig_2_args_type :: "string \<Rightarrow> args_type_t option" where
  "conv_sig_2_args_type s =
     (let starts = (\<lambda>c. s \<noteq> [] \<and> hd s = c)
      in (if starts CHR ''[''
          then map_option (\<lambda>t. (t, Some (count_char s CHR ''.''))) (replace_all s ''['' '''')
          else Some (s, None)) \<bind> (\<lambda>(inner, dim).
         (if starts CHR ''L''
          then (let n = length inner in substr inner 1 (if n < 2 then n else n - 2)) \<bind> (\<lambda>t.
               replace_all t ''_'' ''_1'' \<bind> (\<lambda>t. replace_all t ''/'' ''_''))
          else Some inner) \<bind> (\<lambda>inner.
         Some \<lparr>sig = s, inner_base_type = inner, array_dim = dim\<rparr>)))"

end
