(* ===== verification/Js_Correct.thy ===== *)
theory Js_Correct
  imports Js_Parse
begin

text \<open>
  Correctness of the parsers of \<^verbatim>\<open>parse_java_sig.cpp\<close> against the grammar of descriptors, the mangling
  of native methods and the declarations that the runtime prints.
\<close>

section \<open>Descriptors\<close>

text \<open>An argument: its dimensions, and a primitive type or a class.\<close>

datatype base_type = Prim char | Class string

type_synonym arg_type = "nat \<times> base_type"

fun base_text :: "base_type \<Rightarrow> string" where
  "base_text (Prim c) = [c]"
| "base_text (Class name) = CHR ''L'' # name @ '';''"

fun arg_text :: "arg_type \<Rightarrow> string" where
  "arg_text (n, b) = replicate n CHR ''['' @ base_text b"

fun base_ok :: "base_type \<Rightarrow> bool" where
  "base_ok (Prim c) = is_java_base_args_sig c"
| "base_ok (Class name) = (CHR '';'' \<notin> set name)"

definition args_ok :: "arg_type list \<Rightarrow> bool" where
  "args_ok ts = list_all (base_ok \<circ> snd) ts"

definition args_text :: "arg_type list \<Rightarrow> string" where
  "args_text ts = concat (map arg_text ts)"

text \<open>What the parser keeps of an argument: a class loses its dimensions.\<close>

fun kept :: "arg_type \<Rightarrow> string" where
  "kept (n, Prim c) = replicate n CHR ''['' @ [c]"
| "kept (n, Class name) = CHR ''L'' # name @ '';''"

lemma args_simps [simp]: "args_ok []" "args_ok (t # ts) \<longleftrightarrow> base_ok (snd t) \<and> args_ok ts"
  "args_text [] = []" "args_text (t # ts) = arg_text t @ args_text ts"
  by (simp_all add: args_ok_def args_text_def)

lemma get_class_text: "CHR '';'' \<notin> set name \<Longrightarrow> get_class_args_type (name @ CHR '';'' # s) = Some (name @ '';'', s)"
  by (induction name) auto

lemma get_class_split:
  "get_class_args_type s = Some (t, rest) \<Longrightarrow>
     \<exists>name. CHR '';'' \<notin> set name \<and> s = name @ CHR '';'' # rest \<and> t = name @ '';''"
proof (induction s arbitrary: t)
  case (Cons c s)
  show ?case
  proof (cases "c = CHR '';''")
    case True
    then show ?thesis using Cons.prems by (intro exI [of _ "[]"]) auto
  next
    case False
    with Cons.prems obtain t' where t: "get_class_args_type s = Some (t', rest)" "t = c # t'" by auto
    from Cons.IH [OF t(1)] t(2) False show ?thesis by (metis append_Cons set_ConsD)
  qed
qed simp

lemma get_array_text:
  "s \<noteq> [] \<Longrightarrow> hd s \<noteq> CHR ''['' \<Longrightarrow> get_array_args_count (replicate n CHR ''['' @ s) = Some (n, s)"
  by (induction n) (auto simp: neq_Nil_conv)

lemma get_array_split:
  "get_array_args_count s = Some (n, rest) \<Longrightarrow>
     s = replicate n CHR ''['' @ rest \<and> rest \<noteq> [] \<and> hd rest \<noteq> CHR ''[''"
  by (induction s arbitrary: n) (auto split: if_splits)

lemma base_char: "is_java_base_args_sig c \<Longrightarrow> c \<noteq> CHR ''['' \<and> c \<noteq> CHR ''L''"
  by (auto simp: is_java_base_args_sig_def)

lemma base_text_hd: "base_ok b \<Longrightarrow> base_text b \<noteq> [] \<and> hd (base_text b) \<noteq> CHR ''[''"
  by (cases b) (auto dest: base_char)

lemma split_base:
  assumes "base_ok b"
  shows "split_args_loop (base_text b @ s) a acc = split_args_loop s 0 (acc @ [kept (a, b)])"
proof (cases b)
  case (Prim c)
  then show ?thesis using assms base_char [of c]
    by (subst split_args_loop.simps) simp
next
  case (Class name)
  then have "get_class_args_type (CHR ''L'' # name @ CHR '';'' # s) = Some (CHR ''L'' # name @ '';'', s)"
    using assms get_class_text [of name s] by simp
  with Class show ?thesis by (subst split_args_loop.simps) (simp del: get_class_args_type.simps)
qed

lemma split_arg:
  assumes "base_ok (snd t)"
  shows "split_args_loop (arg_text t @ s) 0 acc = split_args_loop s 0 (acc @ [kept t])"
proof (cases t)
  case (Pair n b)
  then have b: "base_ok b" using assms by simp
  show ?thesis
  proof (cases n)
    case 0
    then show ?thesis using split_base [OF b] Pair by simp
  next
    case (Suc k)
    have "get_array_args_count (replicate k CHR ''['' @ base_text b @ s) = Some (k, base_text b @ s)"
      by (rule get_array_text) (use base_text_hd [OF b] in \<open>auto simp: hd_append\<close>)
    then show ?thesis using split_base [OF b] Pair Suc
      by (subst split_args_loop.simps) (simp del: get_array_args_count.simps)
  qed
qed

lemma split_args_text: "args_ok ts \<Longrightarrow> split_args_loop (args_text ts) 0 acc = (True, acc @ map kept ts)"
proof (induction ts arbitrary: acc)
  case Nil
  then show ?case by (simp add: split_args_loop.simps)
next
  case (Cons t ts)
  then show ?case by (simp add: split_arg)
qed

lemma split_args_complete:
  "split_args_loop s a acc = (True, r) \<Longrightarrow> a = 0 \<or> s \<noteq> [] \<and> hd s \<noteq> CHR ''['' \<Longrightarrow>
     \<exists>ts. args_ok ts \<and> replicate a CHR ''['' @ s = args_text ts \<and> r = acc @ map kept ts"
proof (induction s a acc rule: split_args_loop.induct)
  case (1 s a acc)
  show ?case
  proof (cases s)
    case Nil
    then show ?thesis using "1.prems" by (intro exI [of _ "[]"]) (simp add: split_args_loop.simps)
  next
    case (Cons c s')
    consider "c = CHR ''[''" | "c = CHR ''L''" | "c \<noteq> CHR ''[''" "c \<noteq> CHR ''L''" by blast
    then show ?thesis
    proof cases
      case 1
      with "1.prems"(1) Cons obtain n rest where g: "get_array_args_count s' = Some (n, rest)"
        and l: "split_args_loop rest (Suc n) acc = (True, r)"
        by (subst (asm) split_args_loop.simps) (auto split: option.splits)
      from get_array_split [OF g] have s': "s' = replicate n CHR ''['' @ rest" "rest \<noteq> [] \<and> hd rest \<noteq> CHR ''[''" by auto
      have "a = 0" using "1.prems"(2) Cons 1 by simp
      with "1.IH"(1) [OF Cons 1 g refl l] s' Cons 1 show ?thesis by simp
    next
      case 2
      with "1.prems"(1) Cons obtain t rest where g: "get_class_args_type s = Some (t, rest)"
        and l: "split_args_loop rest 0 (acc @ [t]) = (True, r)"
        by (subst (asm) split_args_loop.simps) (auto split: option.splits simp del: get_class_args_type.simps)
      from get_class_split [OF g] obtain nm where nm: "CHR '';'' \<notin> set nm" "s = nm @ CHR '';'' # rest" "t = nm @ '';''" by blast
      with Cons 2 obtain name where name: "nm = CHR ''L'' # name" by (cases nm) auto
      have ne: "CHR ''L'' \<noteq> CHR ''[''" by simp
      from "1.IH"(2) [OF Cons _ 2 g refl l] 2 obtain ts where
        "args_ok ts" "rest = args_text ts" "r = (acc @ [t]) @ map kept ts" by auto
      then show ?thesis using nm name
        by (intro exI [of _ "(a, Class name) # ts"]) auto
    next
      case 3
      with "1.prems"(1) Cons have c: "is_java_base_args_sig c"
        and l: "split_args_loop s' 0 (acc @ [replicate a CHR ''['' @ [c]]) = (True, r)"
        by (subst (asm) split_args_loop.simps, simp split: if_splits)+
      from "1.IH"(3) [OF Cons 3 c l] obtain ts where
        "args_ok ts" "s' = args_text ts" "r = (acc @ [replicate a CHR ''['' @ [c]]) @ map kept ts" by auto
      then show ?thesis using Cons c
        by (intro exI [of _ "(a, Prim c) # ts"]) auto
    qed
  qed
qed

section \<open>Searching for one character\<close>

lemma str_find_char_Some:
  "str_find s [c] 0 = Some k \<longleftrightarrow> (\<exists>u v. s = u @ c # v \<and> c \<notin> set u \<and> k = length u)"
proof
  assume "str_find s [c] 0 = Some k"
  then have c: "c \<in> set s" and k: "k = length (takeWhile (\<lambda>x. x \<noteq> c) s)" by (auto simp: str_find_char split: if_splits)
  from c obtain u v where s: "s = u @ c # v" "c \<notin> set u" by (metis split_list_first)
  then have "takeWhile (\<lambda>x. x \<noteq> c) s = u" by (simp add: takeWhile_append)
  with s k show "\<exists>u v. s = u @ c # v \<and> c \<notin> set u \<and> k = length u" by auto
qed (auto simp: str_find_char takeWhile_append)

lemma str_find_char_None: "str_find s [c] 0 = None \<longleftrightarrow> c \<notin> set s"
  by (simp add: str_find_char)

text \<open>A string with one \<^verbatim>\<open>(\<close> before a \<^verbatim>\<open>)\<close>, both the first of their kind.\<close>

lemma two_chars:
  assumes "s = u @ c # v" "c \<notin> set u" "s = u' @ c' # v'" "c' \<notin> set u'" "length u < length u'"
  shows "\<exists>w. u' = u @ c # w \<and> v = w @ c' # v'"
proof -
  from assms(1,3) have "u @ c # v = u' @ c' # v'" by simp
  then obtain zs where "u = u' @ zs \<and> zs @ c # v = c' # v' \<or> u @ zs = u' \<and> c # v = zs @ c' # v'"
    by (auto simp: append_eq_append_conv2)
  then show ?thesis using assms(5) by (cases zs) auto
qed

lemma cstr_id: "CHR 0x00 \<notin> set s \<Longrightarrow> cstr s = s"
  unfolding cstr_def by (rule takeWhile_eq_all_conv [THEN iffD2]) auto

lemma cstr_part: "cstr s = u @ w \<Longrightarrow> CHR 0x00 \<notin> set w"
proof
  assume "cstr s = u @ w" "CHR 0x00 \<in> set w"
  then have "CHR 0x00 \<in> set (cstr s)" by simp
  then show False unfolding cstr_def by (metis set_takeWhileD)
qed

section \<open>Signatures\<close>

lemma parse_signature_True:
  assumes s: "cstr s = u @ CHR ''('' # w @ CHR '')'' # v" "CHR ''('' \<notin> set u" "CHR '')'' \<notin> set (u @ w)"
  shows "parse_java_signature s d =
    (case split_args_loop w 0 (args_type d) of (ok, args) \<Rightarrow>
       Some (ok, if ok then d\<lparr>args_type := args, ret_type := v\<rparr> else d\<lparr>args_type := args\<rparr>))"
proof -
  let ?c = "cstr s"
  have p1: "str_find ?c ''('' 0 = Some (length u)" unfolding str_find_char_Some using s by auto
  have "?c = (u @ CHR ''('' # w) @ CHR '')'' # v" using s(1) by simp
  then have p2: "str_find ?c '')'' 0 = Some (length u + Suc (length w))" unfolding str_find_char_Some using s(3)
    by (intro exI [of _ "u @ CHR ''('' # w"] exI [of _ v]) auto
  have w: "cstr w = w" using cstr_part [of s "u @ ''(''" "w @ CHR '')'' # v"] s(1) by (intro cstr_id) auto
  have args: "substr ?c (length u + 1) (length u + Suc (length w) - length u - 1) = Some w"
    unfolding s(1) by (simp add: substr_def)
  have ret: "substr_from ?c (length u + Suc (length w) + 1) = Some v"
    unfolding s(1) by (simp add: substr_from_def substr_def)
  have sp: "(if w \<noteq> [] then split_args_sig w (args_type d) else (True, args_type d)) = split_args_loop w 0 (args_type d)"
    by (simp add: split_args_sig_def w split_args_loop.simps [of "[]"])
  show ?thesis
    unfolding parse_java_signature_def Let_def p1 p2 option.case prod.case
    using args ret sp by (cases "split_args_loop w 0 (args_type d)") simp
qed

lemma parse_signature_cases:
  "(\<exists>u w v. cstr s = u @ CHR ''('' # w @ CHR '')'' # v \<and> CHR ''('' \<notin> set u \<and> CHR '')'' \<notin> set (u @ w)) \<or>
   parse_java_signature s d = Some (False, d)"
proof (cases "str_find (cstr s) ''('' 0"; cases "str_find (cstr s) '')'' 0")
  fix p1 p2
  assume f: "str_find (cstr s) ''('' 0 = Some p1" "str_find (cstr s) '')'' 0 = Some p2"
  then obtain u v u' v' where u: "cstr s = u @ CHR ''('' # v" "CHR ''('' \<notin> set u" "p1 = length u"
    and u': "cstr s = u' @ CHR '')'' # v'" "CHR '')'' \<notin> set u'" "p2 = length u'"
    unfolding str_find_char_Some by blast
  show ?thesis
  proof (cases "p1 > p2")
    case True
    then show ?thesis using f by (simp add: parse_java_signature_def)
  next
    case False
    have "u @ CHR ''('' # v = u' @ CHR '')'' # v'" using u(1) u'(1) by simp
    then have "p1 \<noteq> p2" using u(3) u'(3) by auto
    with False have "length u < length u'" using u(3) u'(3) by simp
    from two_chars [OF u(1,2) u'(1,2) this] obtain w where "u' = u @ CHR ''('' # w" "v = w @ CHR '')'' # v'" by blast
    then show ?thesis using u u'(2) by auto
  qed
qed (simp_all add: parse_java_signature_def)

end
