(* ===== verification/Js_Names.thy ===== *)
theory Js_Names
  imports Js_Correct
begin

text \<open>
  Mangled names of native methods, and the declarations of methods: what the parsers make of the text
  that the runtime environment produces for a method.
\<close>

section \<open>Pairs of characters\<close>

fun has_pair :: "char \<Rightarrow> char \<Rightarrow> string \<Rightarrow> bool" where
  "has_pair a b (x # y # s) = (x = a \<and> y = b \<or> has_pair a b (y # s))"
| "has_pair a b _ = False"

fun subst_pair :: "char \<Rightarrow> char \<Rightarrow> char \<Rightarrow> string \<Rightarrow> string" where
  "subst_pair a b d (x # y # s) = (if x = a \<and> y = b then d # subst_pair a b d s else x # subst_pair a b d (y # s))"
| "subst_pair a b d s = s"

lemma prefix_pair: "prefix [a, b] s \<longleftrightarrow> (\<exists>v. s = a # b # v)"
  by (auto simp: prefix_def)

lemma has_pair_iff: "has_pair a b s \<longleftrightarrow> (\<exists>k \<le> length s. prefix [a, b] (drop k s))"
proof (induction a b s rule: has_pair.induct)
  case (1 a b x y s)
  have "(\<exists>k \<le> length (x # y # s). prefix [a, b] (drop k (x # y # s))) \<longleftrightarrow>
      prefix [a, b] (x # y # s) \<or> (\<exists>k \<le> length (y # s). prefix [a, b] (drop k (y # s)))" (is "?l \<longleftrightarrow> ?r")
  proof
    assume ?l
    then obtain k where "k \<le> length (x # y # s)" "prefix [a, b] (drop k (x # y # s))" by blast
    then show ?r by (cases k) auto
  next
    assume ?r
    then show ?l
    proof
      assume "prefix [a, b] (x # y # s)"
      then show ?l by (intro exI [of _ 0]) simp
    next
      assume "\<exists>k \<le> length (y # s). prefix [a, b] (drop k (y # s))"
      then obtain k where "k \<le> length (y # s)" "prefix [a, b] (drop k (y # s))" by blast
      then show ?l by (intro exI [of _ "Suc k"]) simp
    qed
  qed
  then show ?case using 1 by (auto simp: prefix_pair)
qed (auto simp: prefix_pair drop_Cons')

lemma str_find_pair_None: "str_find s [a, b] 0 = None \<longleftrightarrow> \<not> has_pair a b s"
  by (auto simp: str_find_None has_pair_iff)

lemma subst_pair_absent: "\<not> has_pair a b s \<Longrightarrow> subst_pair a b d s = s"
  by (induction a b d s rule: subst_pair.induct) auto

lemma has_pair_last: "\<not> has_pair a b (u @ [x]) \<Longrightarrow> y \<noteq> b \<Longrightarrow> \<not> has_pair a b (u @ [x, y])"
  by (induction u rule: induct_list012) auto

lemma subst_pair_first:
  "\<not> has_pair a b (u @ [a]) \<Longrightarrow> a \<noteq> b \<Longrightarrow> subst_pair a b d (u @ a # b # v) = u @ d # subst_pair a b d v"
proof (induction u rule: induct_list012)
  case (3 x y u)
  then show ?case by auto
qed auto

lemma subst_pair_skip:
  "\<not> has_pair a b (u @ [d]) \<Longrightarrow> d \<noteq> a \<Longrightarrow> subst_pair a b e (u @ d # v) = u @ d # subst_pair a b e v"
proof (induction u rule: induct_list012)
  case 1
  then show ?case by (cases v) auto
next
  case (2 x)
  then show ?case by (cases v) auto
qed auto

text \<open>The first pair: no pair reaches its first character.\<close>

lemma str_find_pair_Some:
  assumes "str_find s [a, b] 0 = Some k"
  shows "\<exists>u v. s = u @ a # b # v \<and> \<not> has_pair a b (u @ [a]) \<and> k = length u"
proof -
  from assms have k: "k \<le> length s" "prefix [a, b] (drop k s)" "\<And>j. j < k \<Longrightarrow> \<not> prefix [a, b] (drop j s)"
    by (auto simp: str_find_Some)
  then obtain v where v: "drop k s = a # b # v" by (auto simp: prefix_pair)
  let ?u = "take k s"
  have s: "s = ?u @ a # b # v" using append_take_drop_id [of k s] v by simp
  have len: "length ?u = k" using k(1) by simp
  have "\<not> prefix [a, b] (drop j (?u @ [a]))" if "j \<le> length (?u @ [a])" for j
  proof
    assume "prefix [a, b] (drop j (?u @ [a]))"
    then obtain w where w: "drop j (?u @ [a]) = a # b # w" by (auto simp: prefix_pair)
    then have "length (drop j (?u @ [a])) \<ge> 2" by simp
    then have j: "j < k" using len by simp
    have "drop j s = drop j (?u @ [a]) @ b # v" using j len by (subst s) simp
    with w k(3) [OF j] show False by (simp add: prefix_pair)
  qed
  then have "\<not> has_pair a b (?u @ [a])" by (auto simp: has_pair_iff)
  with s len show ?thesis by metis
qed

lemma replace_all_pair:
  assumes "a \<noteq> b" "d \<noteq> a" "d \<noteq> b"
  shows "replace_all s [a, b] [d] = Some (subst_pair a b d s)"
proof (induction "length s" arbitrary: s rule: less_induct)
  case less
  show ?case
  proof (cases "str_find s [a, b] 0")
    case None
    then have "subst_pair a b d s = s" by (simp add: str_find_pair_None subst_pair_absent)
    then show ?thesis unfolding replace_all.simps [of s] None by simp
  next
    case (Some k)
    then obtain u v where s: "s = u @ a # b # v" "\<not> has_pair a b (u @ [a])" "k = length u"
      using str_find_pair_Some by blast
    have r: "str_replace s k (length [a, b]) [d] = u @ d # v" using s by (simp add: str_replace_def)
    have "length (u @ d # v) < length s" using s(1) by simp
    from less.hyps [OF this] have "replace_all s [a, b] [d] = Some (subst_pair a b d (u @ d # v))"
      unfolding replace_all.simps [of s] Some option.case r .
    moreover have "\<not> has_pair a b (u @ [d])" using s(2) assms(3)
      by (induction u rule: induct_list012) auto
    ultimately show ?thesis using subst_pair_skip [of a b u d d v] subst_pair_first [OF s(2) assms(1)] assms(2) s(1) by simp
  qed
qed

section \<open>Splitting at a separator\<close>

fun join :: "string \<Rightarrow> string list \<Rightarrow> string" where
  "join sep [] = []"
| "join sep [x] = x"
| "join sep (x # y # xs) = x @ sep @ join sep (y # xs)"

lemma join_Cons: "xs \<noteq> [] \<Longrightarrow> join sep (x # xs) = x @ sep @ join sep xs"
  by (cases xs) auto

lemma str_find_shift:
  assumes "i \<le> length s"
  shows "str_find s pat i = map_option (\<lambda>k. i + k) (str_find (drop i s) pat 0)"
proof (cases "str_find (drop i s) pat 0")
  case None
  have "\<not> prefix pat (drop k s)" if "i \<le> k" "k \<le> length s" for k
    using None that by (auto simp: str_find_None dest!: spec [of _ "k - i"])
  then have "str_find s pat i = None" by (simp add: str_find_None)
  then show ?thesis using None by simp
next
  case (Some m)
  then have m: "m \<le> length s - i" "prefix pat (drop (m + i) s)" "\<And>j. j < m \<Longrightarrow> \<not> prefix pat (drop (j + i) s)"
    by (auto simp: str_find_Some)
  have "\<not> prefix pat (drop j s)" if "i \<le> j" "j < i + m" for j using m(3) [of "j - i"] that by auto
  then have "str_find s pat i = Some (i + m)" unfolding str_find_Some using m assms by (simp add: add.commute)
  then show ?thesis using Some by simp
qed

lemma split_step:
  assumes "i < length s" "str_find (drop i s) pat 0 = Some k" "i + k < length s"
  shows "string_split_from s pat i acc = string_split_from s pat (i + k + length pat) (acc @ [take k (drop i s)])"
  using assms str_find_shift [of i s pat] by (subst string_split_from.simps) simp

lemma split_last:
  assumes "i < length s" "str_find (drop i s) pat 0 = None"
  shows "string_split_from s pat i acc = Some (acc @ [drop i s])"
  using assms str_find_shift [of i s pat] by (subst string_split_from.simps) simp

lemma split_char_from:
  assumes "list_all (\<lambda>x. c \<notin> set x) xs" "xs \<noteq> []" "last xs \<noteq> []" "drop i s = join [c] xs"
  shows "string_split_from s [c] i acc = Some (acc @ xs)"
  using assms
proof (induction xs arbitrary: i acc)
  case (Cons x xs)
  show ?case
  proof (cases xs)
    case Nil
    then have d: "drop i s = x" "c \<notin> set x" "x \<noteq> []" using Cons.prems by auto
    then have "i < length s" by (metis drop_all not_less)
    then show ?thesis using split_last [of i s "[c]" acc] d Nil by (simp add: str_find_char)
  next
    case (Cons y ys)
    then have d: "drop i s = x @ c # join [c] xs" using Cons.prems by (simp add: join_Cons)
    then have len: "length s = i + length x + Suc (length (join [c] xs))" "i < length s"
      by (metis (no_types, lifting) add.assoc add_Suc_right append_Cons drop_eq_Nil2 append_is_Nil_conv
          le_add_diff_inverse length_Cons length_append length_drop list.discI nat_le_linear)
        (metis append_is_Nil_conv d drop_all list.discI not_less)
    have x: "c \<notin> set x" using Cons.prems(1) by simp
    have "str_find (drop i s) [c] 0 = Some (length x)" unfolding str_find_char_Some using d x by blast
    then have "string_split_from s [c] i acc = string_split_from s [c] (i + length x + 1) (acc @ [x])"
      using split_step [of i s "[c]" "length x" acc] len d by simp
    moreover have "drop (i + length x + 1) s = join [c] xs"
    proof -
      have "drop (i + length x + 1) s = drop (Suc (length x)) (drop i s)" by (simp add: add.commute add.left_commute)
      then show ?thesis by (simp add: d)
    qed
    ultimately show ?thesis using Cons.IH [of "i + length x + 1" "acc @ [x]"] Cons.prems Cons by simp
  qed
qed simp

lemma string_split_char:
  assumes "list_all (\<lambda>x. c \<notin> set x) xs" "xs \<noteq> []" "last xs \<noteq> []"
  shows "string_split (join [c] xs) [c] = Some xs"
  using split_char_from [OF assms, of 0 "join [c] xs" "[]"] by (simp add: string_split_def)

lemma string_split_absent: "s \<noteq> [] \<Longrightarrow> str_find s pat 0 = None \<Longrightarrow> string_split s pat = Some [s]"
  using split_last [of 0 s pat "[]"] by (simp add: string_split_def)

lemma string_split_empty: "string_split [] pat = Some []"
  by (simp add: string_split_def string_split_from.simps)

end
