(* ===== verification/Js_Decl.thy ===== *)
theory Js_Decl
  imports Js_Names
begin

text \<open>
  The properties of the parsers: descriptors and signatures, the demangling of native names, and the
  declarations of methods.
\<close>

section \<open>Mangled names\<close>

text \<open>
  The native interface writes a name with the letters and digits of ASCII: it escapes \<^verbatim>\<open>_\<close> as \<^verbatim>\<open>_1\<close>,
  \<^verbatim>\<open>;\<close> as \<^verbatim>\<open>_2\<close>, \<^verbatim>\<open>[\<close> as \<^verbatim>\<open>_3\<close> and any other character as \<^verbatim>\<open>_0\<close> with its code in four hexadecimal
  digits, and joins the parts of a name with \<^verbatim>\<open>_\<close>.
\<close>

definition alnum :: "char \<Rightarrow> bool" where
  "alnum c \<longleftrightarrow> c \<in> set ''0123456789ABCDEFGHIJKLMNOPQRSTUVWXYZabcdefghijklmnopqrstuvwxyz''"

definition hex4 :: "nat \<Rightarrow> string" where
  "hex4 n = map (\<lambda>k. ''0123456789abcdef'' ! (n div 16 ^ k mod 16)) [3, 2, 1, 0]"

definition esc_char :: "char \<Rightarrow> string" where
  "esc_char c =
     (if alnum c then [c]
      else if c = CHR ''_'' then ''_1''
      else if c = CHR '';'' then ''_2''
      else if c = CHR ''['' then ''_3''
      else ''_0'' @ hex4 (of_char c))"

definition esc :: "string \<Rightarrow> string" where
  "esc x = concat (map esc_char x)"

definition mangled :: "string list \<Rightarrow> string" where
  "mangled xs = ''Java_'' @ join ''_'' (map esc xs)"

text \<open>
  Identifiers of Java in ASCII: letters, digits, \<^verbatim>\<open>_\<close> and \<^verbatim>\<open>$\<close>, not starting with a digit; and here
  not with \<^verbatim>\<open>_\<close> either, which makes a mangled name with \<^verbatim>\<open>__\<close>, the mark of an overloaded method.
\<close>

definition ident_ok :: "string \<Rightarrow> bool" where
  "ident_ok x \<longleftrightarrow> x \<noteq> [] \<and> list_all (\<lambda>c. alnum c \<or> c \<in> set ''_$'') x \<and> hd x \<notin> set ''_0123456789''"

section \<open>Names of letters, digits and underscores\<close>

definition esc_plain :: "string \<Rightarrow> string" where
  "esc_plain x = subst_char CHR ''_'' ''_1'' x"

definition plain_ident :: "string \<Rightarrow> bool" where
  "plain_ident x \<longleftrightarrow> x \<noteq> [] \<and> hd x \<notin> {CHR ''_'', CHR ''0'', CHR ''1''} \<and> CHR ''.'' \<notin> set x \<and> CHR 0x00 \<notin> set x"

lemma ident_plain:
  assumes "ident_ok x" "CHR ''$'' \<notin> set x"
  shows "plain_ident x" "esc x = esc_plain x"
proof -
  have n: "\<not> alnum CHR ''.''" "\<not> alnum CHR 0x00" "\<not> alnum CHR ''_''" by (simp_all add: alnum_def)
  have ok: "\<forall>c\<in>set x. alnum c \<or> c = CHR ''_''" using assms by (auto simp: ident_ok_def list_all_iff)
  then have "CHR ''.'' \<notin> set x" "CHR 0x00 \<notin> set x" using n by auto
  with assms show "plain_ident x" by (auto simp: plain_ident_def ident_ok_def)
  have "\<forall>c\<in>set x. alnum c \<or> c = CHR ''_'' \<Longrightarrow> esc x = esc_plain x" for x
    using n by (induction x) (auto simp: esc_def esc_plain_def esc_char_def subst_char_Cons subst_char_def)
  then show "esc x = esc_plain x" using ok by blast
qed

lemma has_pair_Cons: "x \<noteq> a \<Longrightarrow> has_pair a b (x # s) = has_pair a b s"
  by (cases s) auto

lemma has_pair_hd: "s \<noteq> [] \<Longrightarrow> has_pair a b (a # s) \<longleftrightarrow> hd s = b \<or> has_pair a b s"
  by (cases s) auto

lemma subst_pair_Cons: "x \<noteq> a \<Longrightarrow> subst_pair a b d (x # s) = x # subst_pair a b d s"
  by (cases s) auto

lemma subst_pair_hd: "s \<noteq> [] \<Longrightarrow> hd s \<noteq> b \<Longrightarrow> subst_pair a b d (a # s) = a # subst_pair a b d s"
  by (cases s) auto

lemma esc_plain_hd: "plain_ident x \<Longrightarrow> esc_plain x \<noteq> [] \<and> hd (esc_plain x) = hd x"
  by (cases x) (auto simp: esc_plain_def subst_char_Cons plain_ident_def)

lemma has_pair_esc: "b \<noteq> CHR ''1'' \<Longrightarrow> has_pair CHR ''_'' b (esc_plain x @ t) = has_pair CHR ''_'' b t"
  by (induction x) (auto simp: esc_plain_def subst_char_Cons has_pair_Cons)

lemma join_hd: "xs \<noteq> [] \<Longrightarrow> hd xs \<noteq> [] \<Longrightarrow> join sep xs \<noteq> [] \<and> hd (join sep xs) = hd (hd xs)"
  by (cases xs; cases "tl xs") (auto simp: neq_Nil_conv)

lemma no_pair:
  assumes "list_all plain_ident xs" "b = CHR ''0'' \<or> b = CHR ''_''"
  shows "\<not> has_pair CHR ''_'' b (join ''_'' (map esc_plain xs))"
  using assms(1)
proof (induction xs rule: induct_list012)
  case (2 x)
  then show ?case using has_pair_esc [of b x "[]"] assms(2) by auto
next
  case (3 x y zs)
  let ?J = "join ''_'' (map esc_plain (y # zs))"
  have "?J \<noteq> [] \<and> hd ?J = hd y" using join_hd [of "map esc_plain (y # zs)" "''_''"] esc_plain_hd [of y] 3(3) by simp
  moreover have "hd y \<noteq> b" using 3(3) assms(2) by (auto simp: plain_ident_def)
  moreover have "\<not> has_pair CHR ''_'' b ?J" using 3 by simp
  ultimately have "\<not> has_pair CHR ''_'' b (CHR ''_'' # ?J)" by (simp add: has_pair_hd)
  then show ?case using has_pair_esc [of b x "CHR ''_'' # ?J"] assms(2) by auto
qed simp

lemma dots: "subst_char CHR ''_'' ''.'' (join ''_'' (map esc_plain xs)) = join ''.'' (map (subst_char CHR ''_'' ''.1'') xs)"
proof -
  have e: "subst_char CHR ''_'' ''.'' (esc_plain x) = subst_char CHR ''_'' ''.1'' x" for x
    by (induction x) (auto simp: esc_plain_def subst_char_def)
  show ?thesis
  proof (induction xs rule: induct_list012)
    case (3 x y zs)
    then show ?case by (simp add: e subst_char_Cons)
  qed (simp_all add: e)
qed

lemma undot: "CHR ''.'' \<notin> set x \<Longrightarrow>
    subst_pair CHR ''.'' CHR ''1'' CHR ''_'' (subst_char CHR ''_'' ''.1'' x @ t) = x @ subst_pair CHR ''.'' CHR ''1'' CHR ''_'' t"
  by (induction x) (auto simp: subst_char_Cons subst_pair_Cons)

lemma undots:
  assumes "list_all plain_ident xs"
  shows "subst_pair CHR ''.'' CHR ''1'' CHR ''_'' (join ''.'' (map (subst_char CHR ''_'' ''.1'') xs)) = join ''.'' xs"
  using assms
proof (induction xs rule: induct_list012)
  case (2 x)
  then show ?case using undot [of x "[]"] by (simp add: plain_ident_def)
next
  case (3 x y zs)
  let ?J = "join ''.'' (map (subst_char CHR ''_'' ''.1'') (y # zs))"
  have "subst_char CHR ''_'' ''.1'' y \<noteq> [] \<and> hd (subst_char CHR ''_'' ''.1'' y) = hd y" using 3(3)
    by (cases y) (auto simp: subst_char_Cons plain_ident_def)
  then have "?J \<noteq> [] \<and> hd ?J \<noteq> CHR ''1''"
    using join_hd [of "map (subst_char CHR ''_'' ''.1'') (y # zs)" "''.''"] 3(3) by (auto simp: plain_ident_def)
  then have "subst_pair CHR ''.'' CHR ''1'' CHR ''_'' (CHR ''.'' # ?J) = CHR ''.'' # join ''.'' (y # zs)"
    using 3 by (simp add: subst_pair_hd)
  moreover have "CHR ''.'' \<notin> set x" using 3(3) by (simp add: plain_ident_def)
  ultimately show ?case using undot [of x "CHR ''.'' # ?J"] by simp
qed simp

lemma no_nul: "list_all plain_ident xs \<Longrightarrow> CHR 0x00 \<notin> set (join ''_'' (map esc_plain xs))"
proof -
  have e: "CHR 0x00 \<notin> set x \<Longrightarrow> CHR 0x00 \<notin> set (esc_plain x)" for x by (auto simp: esc_plain_def subst_char_def)
  show "list_all plain_ident xs \<Longrightarrow> CHR 0x00 \<notin> set (join ''_'' (map esc_plain xs))"
    by (induction xs rule: induct_list012) (auto simp: plain_ident_def e)
qed

lemma join_snoc: "cs \<noteq> [] \<Longrightarrow> join sep (cs @ [m]) = join sep cs @ sep @ m"
  by (induction cs rule: induct_list012) auto

lemma demangle_plain:
  assumes cs: "cs \<noteq> []" and ok: "list_all plain_ident (cs @ [m])"
  shows "parse_java_lang_name (''Java_'' @ join ''_'' (map esc_plain (cs @ [m]))) d =
    Some (True, d\<lparr>is_override := False, class_name := join ''.'' cs, method_name := m\<rparr>)"
proof -
  let ?S = "join ''_'' (map esc_plain (cs @ [m]))"
  have hd: "hd (cs @ [m]) \<noteq> []" using cs ok by (cases cs) (auto simp: plain_ident_def)
  have esc_m: "esc_plain m \<noteq> []" using ok esc_plain_hd [of m] by simp
  have S: "?S = join ''_'' (map esc_plain cs) @ ''_'' @ esc_plain m" using cs join_snoc [of "map esc_plain cs" "''_''" "esc_plain m"] by simp
  have "length (''Java_'' @ join ''_'' (map esc_plain (cs @ [m]))) \<ge> 6" using S esc_m by (cases "esc_plain m") (simp_all add: mangled_def)
  moreover have c: "cstr (''Java_'' @ join ''_'' (map esc_plain (cs @ [m]))) = ''Java_'' @ ?S"
    using no_nul [OF ok] by (simp add: cstr_id)
  moreover have n: "str_find ?S ''_0'' 0 = None" "str_find ?S ''__'' 0 = None"
    using no_pair [OF ok] by (simp_all add: str_find_pair_None)
  moreover have sp: "string_split ?S ''__'' = Some [?S]" using S n(2) by (intro string_split_absent) simp_all
  moreover have r: "replace_all ?S ''_'' ''.'' = Some (join ''.'' (map (subst_char CHR ''_'' ''.1'') (cs @ [m])))"
    using replace_all_char [of "CHR ''_''" "''.''" ?S] dots [of "cs @ [m]"] by simp
  moreover have r2: "replace_all (join ''.'' (map (subst_char CHR ''_'' ''.1'') (cs @ [m]))) ''.1'' ''_'' = Some (join ''.'' (cs @ [m]))"
    using replace_all_pair [of "CHR ''.''" "CHR ''1''" "CHR ''_''"] undots [OF ok] by simp
  moreover have J: "join ''.'' (cs @ [m]) = join ''.'' cs @ CHR ''.'' # m" using join_snoc [OF cs, of "''.''" m] by simp
  moreover have l: "find_last_of (join ''.'' (cs @ [m])) CHR ''.'' None = Some (length (join ''.'' cs))"
    unfolding J using ok by (intro find_last_of_append) (simp add: plain_ident_def)
  moreover have "join ''.'' cs \<noteq> []" "m \<noteq> []"
    using join_hd [of cs "''.''"] cs hd ok by (auto simp: plain_ident_def)
  moreover have "?S \<noteq> []" using S by simp
  ultimately show ?thesis
    unfolding parse_java_lang_name_def Let_def c
    by (simp add: del: join.simps map_append)
qed

section \<open>All names\<close>

lemma dollar_pair: "CHR ''$'' \<in> set x \<Longrightarrow> \<exists>u v. esc x = u @ ''_0'' @ v"
proof -
  assume "CHR ''$'' \<in> set x"
  then obtain ys zs where "x = ys @ CHR ''$'' # zs" by (auto simp: in_set_conv_decomp)
  then have "esc x = esc ys @ ''_0'' @ (hex4 36 @ esc zs)" by (simp add: esc_def esc_char_def alnum_def)
  then show ?thesis by blast
qed

lemma has_pair_here: "has_pair a b (u @ a # b # v)"
proof (induction u)
  case (Cons x u)
  then show ?case by (cases "u @ a # b # v") auto
qed simp

lemma join_part: "x \<in> set xs \<Longrightarrow> \<exists>u v. join sep xs = u @ x @ v"
proof (induction xs rule: induct_list012)
  case (2 y)
  then have "join sep [y] = [] @ x @ []" by simp
  then show ?case by blast
next
  case (3 y z zs)
  show ?case
  proof (cases "x = y")
    case True
    then have "join sep (y # z # zs) = [] @ x @ sep @ join sep (z # zs)" by simp
    then show ?thesis by blast
  next
    case False
    with 3 obtain u v where "join sep (z # zs) = u @ x @ v" by auto
    then have "join sep (y # z # zs) = (y @ sep @ u) @ x @ v" by simp
    then show ?thesis by blast
  qed
qed auto

lemma esc_no_nul: "CHR 0x00 \<notin> set (esc x)"
proof -
  have digit: "''0123456789abcdef'' ! d \<noteq> CHR 0x00" if "d < 16" for d
    using nth_mem [of d "''0123456789abcdef''"] that by auto
  have "CHR 0x00 \<notin> set (hex4 n)" for n
  proof
    assume "CHR 0x00 \<in> set (hex4 n)"
    then obtain k where "CHR 0x00 = ''0123456789abcdef'' ! (n div 16 ^ k mod 16)" unfolding hex4_def set_map by blast
    then show False using digit [of "n div 16 ^ k mod 16"] by simp
  qed
  moreover have "\<not> alnum CHR 0x00" by (simp add: alnum_def)
  ultimately have "CHR 0x00 \<notin> set (esc_char c)" for c by (auto simp: esc_char_def)
  then show ?thesis by (simp add: esc_def)
qed

lemma join_no_nul: "CHR 0x00 \<notin> set (join ''_'' (map esc xs))"
  by (induction xs rule: induct_list012) (auto simp: esc_no_nul)

lemma demangle:
  assumes cs: "cs \<noteq> []" and ok: "list_all ident_ok (cs @ [m])"
  shows "parse_java_lang_name (mangled (cs @ [m])) d =
    (if \<exists>x\<in>set (cs @ [m]). CHR ''$'' \<in> set x then Some (False, d)
     else Some (True, d\<lparr>is_override := False, class_name := join ''.'' cs, method_name := m\<rparr>))"
proof (cases "\<exists>x\<in>set (cs @ [m]). CHR ''$'' \<in> set x")
  case True
  let ?S = "join ''_'' (map esc (cs @ [m]))"
  from True obtain x where x: "x \<in> set (cs @ [m])" "CHR ''$'' \<in> set x" by blast
  obtain u v where "esc x = u @ ''_0'' @ v" using dollar_pair [OF x(2)] by blast
  moreover obtain u' v' where "?S = u' @ esc x @ v'" using join_part [of "esc x" "map esc (cs @ [m])" "''_''"] x(1) by auto
  ultimately have S: "?S = (u' @ u) @ CHR ''_'' # CHR ''0'' # v @ v'" by simp
  then have "has_pair CHR ''_'' CHR ''0'' ?S" by (simp only: has_pair_here)
  then have n: "str_find ?S ''_0'' 0 \<noteq> None" by (simp add: str_find_pair_None)
  have "cstr (mangled (cs @ [m])) = ''Java_'' @ ?S"
    using join_no_nul [of "cs @ [m]"] by (simp add: mangled_def cstr_id)
  with n True show ?thesis by (auto simp: parse_java_lang_name_def)
next
  case False
  then have "list_all plain_ident (cs @ [m])" "map esc (cs @ [m]) = map esc_plain (cs @ [m])"
    using ok ident_plain by (auto simp: list_all_iff)
  then show ?thesis using demangle_plain [OF cs, of m d] False by (simp only: mangled_def if_False)
qed

section \<open>Declarations\<close>

text \<open>The name of a type with its dimensions, as the runtime prints it, and its descriptor.\<close>

definition type_text :: "nat \<times> string \<Rightarrow> string" where
  "type_text t = snd t @ concat (replicate (fst t) ''[]'')"

definition base_sig :: "string \<Rightarrow> string" where
  "base_sig name =
     (case map_of [(''void'', ''V''), (''boolean'', ''Z''), (''byte'', ''B''), (''char'', ''C''), (''short'', ''S''),
        (''int'', ''I''), (''long'', ''J''), (''float'', ''F''), (''double'', ''D'')] name of
        Some s \<Rightarrow> s
      | None \<Rightarrow> ''L'' @ subst_char CHR ''.'' ''/'' name @ '';'')"

definition type_sig :: "nat \<times> string \<Rightarrow> string" where
  "type_sig t = replicate (fst t) CHR ''['' @ base_sig (snd t)"

definition type_ok :: "nat \<times> string \<Rightarrow> bool" where
  "type_ok t \<longleftrightarrow> snd t \<noteq> [] \<and> set (snd t) \<inter> {CHR ''['', CHR '']'', CHR '','', CHR '' '', CHR ''('', CHR '')''} = {}"

lemma brackets: "subst_char CHR ''['' [] (concat (replicate n ''[]'')) = replicate n CHR '']''"
  "subst_char CHR '']'' [] (replicate n CHR '']'') = []"
  "count_char (concat (replicate n ''[]'')) CHR ''['' = n"
  by (induction n) (auto simp: subst_char_def count_char_def)

lemma count_char_append [simp]: "count_char (s @ t) c = count_char s c + count_char t c"
  by (simp add: count_char_def)

lemma count_char_0: "count_char s c = 0 \<longleftrightarrow> c \<notin> set s"
  by (auto simp: count_char_def filter_empty_conv)

lemma conv_type:
  assumes "type_ok t"
  shows "conv_java_type_2_sig_type (type_text t) = Some (type_sig t)"
proof -
  obtain n name where t: "t = (n, name)" by (cases t)
  have ok: "CHR ''['' \<notin> set name" "CHR '']'' \<notin> set name" using assms by (auto simp: type_ok_def t)
  let ?T = "name @ concat (replicate n ''[]'')"
  let ?has = "str_find ?T ''['' 0 \<noteq> None \<and> str_find ?T '']'' 0 \<noteq> None"
  have has: "?has \<longleftrightarrow> n \<noteq> 0" using ok by (cases n) (auto simp: str_find_char)
  have arr: "(if ?has then count_char ?T CHR ''['' else 0) = n"
    using has ok brackets(3) [of n] by (auto simp: count_char_0 [symmetric])
  have "replace_all ?T ''['' '''' = Some (name @ replicate n CHR '']'')"
    using replace_all_char [of "CHR ''[''" "[]" ?T] ok brackets(1) [of n] by simp
  moreover have "replace_all (name @ replicate n CHR '']'') '']'' '''' = Some name"
    using replace_all_char [of "CHR '']''" "[]" "name @ replicate n CHR '']''"] ok brackets(2) [of n] by simp
  ultimately have cpy: "(if ?has then Option.bind (replace_all ?T ''['' '''') (\<lambda>s. replace_all s '']'' '''') else Some ?T) = Some name"
    using has by auto
  have slash: "replace_all name ''.'' ''/'' = Some (subst_char CHR ''.'' ''/'' name)"
    by (rule replace_all_char) simp
  show ?thesis
    unfolding conv_java_type_2_sig_type_def Let_def type_text_def t fst_conv snd_conv arr cpy
    by (simp add: slash type_sig_def make_sig_def base_sig_def)
qed

lemma conv_types: "list_all type_ok ts \<Longrightarrow> conv_each (map type_text ts) = Some (map type_sig ts)"
  by (induction ts) (auto simp: conv_type)

text \<open>
  \<^verbatim>\<open>modifiers type class.method(arguments)\<close>, where the modifiers may be missing; after the closing
  parenthesis anything may follow.
\<close>

definition decl_text :: "string \<Rightarrow> nat \<times> string \<Rightarrow> string \<Rightarrow> string \<Rightarrow> (nat \<times> string) list \<Rightarrow> string \<Rightarrow> string" where
  "decl_text mods ret cls meth args after =
     (if mods = [] then [] else mods @ '' '') @ type_text ret @ '' '' @ cls @ ''.'' @ meth @ ''('' @
     join '','' (map type_text args) @ '')'' @ after"

lemma type_text_chars:
  assumes "type_ok t" "c \<in> set (type_text t)"
  shows "c \<noteq> CHR '','' \<and> c \<noteq> CHR '' '' \<and> c \<noteq> CHR ''('' \<and> c \<noteq> CHR '')''"
proof -
  have "set (concat (replicate n ''[]'')) \<subseteq> {CHR ''['', CHR '']''}" for n by auto
  then show ?thesis using assms by (fastforce simp: type_ok_def type_text_def)
qed

lemma join_chars: "c \<in> set (join sep xs) \<Longrightarrow> c \<in> set sep \<or> (\<exists>x\<in>set xs. c \<in> set x)"
  by (induction xs rule: induct_list012) auto

end
