(* ===== verification/Js_Props.thy ===== *)
theory Js_Props
  imports Js_Decl
begin

text \<open>
  What the parsers of \<^verbatim>\<open>parse_java_sig.cpp\<close> do on the texts that they are written for: descriptors,
  signatures, mangled names and declarations.
\<close>

section \<open>Declarations of methods\<close>

definition part_ok :: "string \<Rightarrow> bool" where
  "part_ok x \<longleftrightarrow> x \<noteq> [] \<and> set x \<inter> {CHR '' '', CHR ''('', CHR '')''} = {}"

text \<open>A text with the blank before the return type, if there is one, and the two parentheses.\<close>

lemma ret_type_found:
  assumes ret: "type_ok ret" and decl: "decl = (if mods = [] then [] else mods @ '' '') @ type_text ret @ CHR '' '' # w"
  shows "parse_ret_type decl (length decl - Suc (length w)) d = Some (True, d\<lparr>ret_type := type_sig ret\<rparr>)"
proof -
  let ?r = "type_text ret"
  have r: "CHR '' '' \<notin> set ?r" "?r \<noteq> []" using type_text_chars [OF ret] ret by (auto simp: type_text_def type_ok_def)
  note conv = conv_type [OF ret]
  show ?thesis
  proof (cases "mods = []")
    case True
    have "find_last_of decl CHR '' '' (Some (length ?r - 1)) = None"
      using find_last_of_none [OF r, of "CHR '' '' # w"] decl True by simp
    then show ?thesis using decl True r conv by (simp add: parse_ret_type_def)
  next
    case False
    let ?p = "length mods + Suc (length ?r)"
    have "find_last_of decl CHR '' '' (Some (length mods + length ?r)) = Some (length mods)"
      using find_last_of_till [OF r(1), of mods "CHR '' '' # w"] decl False by simp
    moreover have "substr decl (length mods + 1) (?p - length mods - 1) = Some ?r"
      using decl False by (simp add: substr_def)
    ultimately show ?thesis using decl False r conv by (simp add: parse_ret_type_def)
  qed
qed

lemma declaration_parts:
  assumes ok: "CHR ''('' \<notin> set mods" "CHR '')'' \<notin> set mods" "type_ok ret" "part_ok cls" "part_ok meth"
      "list_all type_ok args"
  defines "u \<equiv> (if mods = [] then [] else mods @ '' '') @ type_text ret"
    and "a \<equiv> join '','' (map type_text args)"
    and "c \<equiv> cls @ ''.'' @ meth"
  shows "decl_text mods ret cls meth args rest = u @ CHR '' '' # c @ CHR ''('' # a @ CHR '')'' # rest"
    "CHR '' '' \<notin> set c" "CHR ''('' \<notin> set (u @ CHR '' '' # c)" "CHR '')'' \<notin> set (u @ CHR '' '' # c @ CHR ''('' # a)"
    "CHR '' '' \<notin> set a" "string_split a '','' = Some (map type_text args)"
proof -
  have t: "\<And>t x. t \<in> set args \<Longrightarrow> x \<in> set (type_text t) \<Longrightarrow> x \<noteq> CHR '','' \<and> x \<noteq> CHR '' '' \<and> x \<noteq> CHR ''('' \<and> x \<noteq> CHR '')''"
    using ok(6) type_text_chars by (auto simp: list_all_iff)
  have a: "x \<noteq> CHR '' '' \<and> x \<noteq> CHR '')''" if "x \<in> set a" for x
    using join_chars [of x "'',''" "map type_text args"] that t unfolding a_def by auto
  show "decl_text mods ret cls meth args rest = u @ CHR '' '' # c @ CHR ''('' # a @ CHR '')'' # rest"
    by (simp add: decl_text_def u_def a_def c_def)
  show "CHR '' '' \<notin> set c" using ok(4,5) by (auto simp: c_def part_ok_def)
  then show "CHR ''('' \<notin> set (u @ CHR '' '' # c)" "CHR '')'' \<notin> set (u @ CHR '' '' # c @ CHR ''('' # a)"
    using ok type_text_chars [OF ok(3)] a by (auto simp: c_def u_def part_ok_def)
  show "CHR '' '' \<notin> set a" using a by blast
  show "string_split a '','' = Some (map type_text args)"
  proof (cases "args = []")
    case False
    have "type_text (last args) \<noteq> []" using ok(6) False by (auto simp: list_all_iff type_text_def type_ok_def)
    then show ?thesis unfolding a_def using False t
      by (intro string_split_char) (auto simp: list_all_iff last_map)
  qed (simp add: a_def string_split_empty)
qed

text \<open>C28: The declaration of a method that the runtime prints is taken apart into the class, the method
  and the descriptors of the arguments and of the result, whatever the modifiers and whatever follows.\<close>
theorem declaration_parsed:
  assumes "CHR ''('' \<notin> set mods" "CHR '')'' \<notin> set mods" "type_ok ret" "part_ok cls" "part_ok meth"
      "CHR ''.'' \<notin> set meth" "list_all type_ok args"
  shows "parse_java_pretty_name (decl_text mods ret cls meth args rest) d =
    Some (True, d\<lparr>class_name := cls, method_name := meth, args_type := map type_sig args, ret_type := type_sig ret\<rparr>)"
proof -
  let ?u = "(if mods = [] then [] else mods @ '' '') @ type_text ret"
  let ?a = "join '','' (map type_text args)" and ?c = "cls @ ''.'' @ meth"
  let ?d = "decl_text mods ret cls meth args rest"
  note parts = declaration_parts [OF assms(1-5,7)]
  have d: "?d = ?u @ CHR '' '' # ?c @ CHR ''('' # ?a @ CHR '')'' # rest" by (rule parts(1))
  have ne: "cls \<noteq> []" "meth \<noteq> []" using assms by (simp_all add: part_ok_def)
  let ?start = "length ?u + Suc (length ?c)"
  have p1: "str_find ?d ''('' 0 = Some ?start" unfolding str_find_char_Some d using parts(3)
    by (intro exI [of _ "?u @ CHR '' '' # ?c"] exI [of _ "?a @ CHR '')'' # rest"]) simp
  have p2: "str_find ?d '')'' 0 = Some (?start + Suc (length ?a))" unfolding str_find_char_Some d using parts(4)
    by (intro exI [of _ "?u @ CHR '' '' # ?c @ CHR ''('' # ?a"] exI [of _ rest]) simp
  have a: "substr ?d (?start + 1) (?start + Suc (length ?a) - ?start - 1) = Some ?a"
    unfolding d by (rule substr_part [of _ "?u @ CHR '' '' # ?c @ ''(''" _ "CHR '')'' # rest"]) simp_all
  have a': "replace_all ?a '' '' '''' = Some ?a" using replace_all_char [of "CHR '' ''" "[]" ?a] parts(5) by simp
  have p: "find_last_of ?d CHR '' '' (Some ?start) = Some (length ?u)"
    using find_last_of_till [of "CHR '' ''" "?c @ ''(''" ?u "?a @ CHR '')'' # rest"] parts(2) unfolding d by simp
  have c: "substr ?d (length ?u + 1) (?start - length ?u - 1) = Some ?c"
    unfolding d by (simp add: substr_def)
  have pt: "find_last_of ?c CHR ''.'' None = Some (length cls)"
    using find_last_of_append [OF assms(6), of cls] by simp
  have n: "count_char ?d CHR '' '' \<ge> 1" unfolding d by (simp add: count_char_def)
  have r: "parse_ret_type ?d (length ?u) d' = Some (True, d'\<lparr>ret_type := type_sig ret\<rparr>)" for d'
    using ret_type_found [OF assms(3), of ?d mods "?c @ CHR ''('' # ?a @ CHR '')'' # rest" d'] d by simp
  show ?thesis
    unfolding parse_java_pretty_name_def Let_def p1 p2 option.case prod.case p
    using n a a' parts(6) conv_types [OF assms(7)] c pt ne r by simp
qed

lemma declaration_parsed_witness:
  "parse_java_pretty_name ''native void com.hook.test.test2(java.lang.String,int[][])''
      \<lparr>class_name = [], method_name = [], args_type = [], ret_type = [], is_override = False\<rparr> =
    Some (True, \<lparr>class_name = ''com.hook.test'', method_name = ''test2'',
      args_type = [''Ljava/lang/String;'', ''[[I''], ret_type = ''V'', is_override = False\<rparr>)"
  using declaration_parsed [of "''native''" "(0, ''void'')" "''com.hook.test''" "''test2''"
      "[(0, ''java.lang.String''), (2, ''int'')]" "[]"
      "\<lparr>class_name = [], method_name = [], args_type = [], ret_type = [], is_override = False\<rparr>"]
  by (simp add: decl_text_def type_text_def type_sig_def base_sig_def type_ok_def part_ok_def subst_char_def numeral_2_eq_2)

section \<open>Descriptors and signatures\<close>

text \<open>C29: The descriptor of arguments is accepted exactly when it is a sequence of primitive types and
  classes with dimensions, and the arguments are appended in order; an array of classes is entered as
  the class, without its brackets.\<close>
theorem descriptor_split:
  "split_args_sig s v = (True, r) \<longleftrightarrow> (\<exists>ts. args_ok ts \<and> cstr s = args_text ts \<and> r = v @ map kept ts)"
proof
  assume "split_args_sig s v = (True, r)"
  then show "\<exists>ts. args_ok ts \<and> cstr s = args_text ts \<and> r = v @ map kept ts"
    using split_args_complete [of "cstr s" 0 v r] by (simp add: split_args_sig_def)
next
  assume "\<exists>ts. args_ok ts \<and> cstr s = args_text ts \<and> r = v @ map kept ts"
  then show "split_args_sig s v = (True, r)" using split_args_text by (auto simp: split_args_sig_def)
qed

text \<open>C32: Parsing a method signature always returns, and with success exactly when the text is
  something without parentheses, then a descriptor of arguments in parentheses, then the result.\<close>
theorem signature_parsed:
  "\<exists>ok d'. parse_java_signature s d = Some (ok, d') \<and>
     (ok \<longleftrightarrow> (\<exists>u ts v. cstr s = u @ ''('' @ args_text ts @ '')'' @ v \<and> CHR ''('' \<notin> set u \<and>
       CHR '')'' \<notin> set (u @ args_text ts) \<and> args_ok ts \<and>
       d' = d\<lparr>args_type := args_type d @ map kept ts, ret_type := v\<rparr>))"
  (is "\<exists>ok d'. _ \<and> (ok \<longleftrightarrow> ?form d')")
proof (cases "\<exists>u w v. cstr s = u @ CHR ''('' # w @ CHR '')'' # v \<and> CHR ''('' \<notin> set u \<and> CHR '')'' \<notin> set (u @ w)")
  case True
  then obtain u w v where s: "cstr s = u @ CHR ''('' # w @ CHR '')'' # v" "CHR ''('' \<notin> set u" "CHR '')'' \<notin> set (u @ w)" by blast
  obtain ok args where sp: "split_args_loop w 0 (args_type d) = (ok, args)" by fastforce
  let ?d = "if ok then d\<lparr>args_type := args, ret_type := v\<rparr> else d\<lparr>args_type := args\<rparr>"
  have p: "parse_java_signature s d = Some (ok, ?d)" using parse_signature_True [OF s, of d] sp by simp
  have "?form ?d" if ok
  proof -
    from that sp split_args_complete [of w 0 "args_type d" args] obtain ts
      where "args_ok ts" "w = args_text ts" "args = args_type d @ map kept ts" by auto
    then show ?thesis using s that by auto
  qed
  moreover have ok if "?form d'" for d'
  proof -
    from that obtain u' ts v' where f: "cstr s = u' @ CHR ''('' # args_text ts @ CHR '')'' # v'" "CHR ''('' \<notin> set u'"
      "CHR '')'' \<notin> set (u' @ args_text ts)" "args_ok ts" by auto
    from parse_signature_True [OF f(1-3), of d] p split_args_text [OF f(4), of "args_type d"] show ok by simp
  qed
  ultimately show ?thesis using p by blast
next
  case False
  then have "parse_java_signature s d = Some (False, d)" using parse_signature_cases [of s d] by blast
  moreover have "\<not> ?form d" using False by fastforce
  ultimately show ?thesis by blast
qed

section \<open>Mangled names\<close>

text \<open>C31: The name of the exported function of a native method, mangled as the native interface asks,
  is taken apart into the class and the method again when the identifiers are of ASCII letters,
  digits and underscores; when one of them has a \<^verbatim>\<open>$\<close>, as the name of an inner class has, the name
  is refused. No identifier starts with an underscore here.\<close>
theorem name_demangled:
  assumes "packages \<noteq> []" "list_all ident_ok (packages @ [meth])"
  shows "parse_java_lang_name (mangled (packages @ [meth])) d =
    (if \<exists>x\<in>set (packages @ [meth]). CHR ''$'' \<in> set x then Some (False, d)
     else Some (True, d\<lparr>is_override := False, class_name := join ''.'' packages, method_name := meth\<rparr>))"
  by (rule demangle [OF assms])

text \<open>A method of a class, and a method of an inner class of it.\<close>

lemma name_demangled_witness:
  "parse_java_lang_name ''Java_com_caller_analyse_1test_init_1jni_1hook''
      \<lparr>class_name = [], method_name = [], args_type = [], ret_type = [], is_override = True\<rparr> =
    Some (True, \<lparr>class_name = ''com.caller.analyse_test'', method_name = ''init_jni_hook'', args_type = [],
      ret_type = [], is_override = False\<rparr>) \<and>
   parse_java_lang_name ''Java_com_Outer_00024Inner_run''
      \<lparr>class_name = [], method_name = [], args_type = [], ret_type = [], is_override = True\<rparr> =
    Some (False, \<lparr>class_name = [], method_name = [], args_type = [], ret_type = [], is_override = True\<rparr>)"
proof -
  let ?d = "\<lparr>class_name = [], method_name = [], args_type = [], ret_type = [], is_override = True\<rparr>"
  have "list_all ident_ok ([''com'', ''caller'', ''analyse_test''] @ [''init_jni_hook''])"
    "mangled ([''com'', ''caller'', ''analyse_test''] @ [''init_jni_hook'']) = ''Java_com_caller_analyse_1test_init_1jni_1hook''"
    "list_all ident_ok ([''com'', ''Outer$Inner''] @ [''run''])"
    "mangled ([''com'', ''Outer$Inner''] @ [''run'']) = ''Java_com_Outer_00024Inner_run''"
    by code_simp+
  then show ?thesis
    using name_demangled [of "[''com'', ''caller'', ''analyse_test'']" "''init_jni_hook''" ?d]
      name_demangled [of "[''com'', ''Outer$Inner'']" "''run''" ?d] by simp
qed

section \<open>Types of arguments\<close>

text \<open>C35: The conversion of a descriptor of a class to the type of an argument does not end exactly when
  the name has an underscore.\<close>
theorem args_type_hangs:
  "conv_sig_2_args_type (CHR ''L'' # name @ '';'') = None \<longleftrightarrow> CHR ''_'' \<in> set name"
proof -
  have n: "(if length (CHR ''L'' # name @ '';'') < 2 then length (CHR ''L'' # name @ '';'') else length (CHR ''L'' # name @ '';'') - 2) = length name"
    by simp
  have sub: "substr (CHR ''L'' # name @ '';'') (Suc 0) (length name) = Some name" by (simp add: substr_def)
  have c: "conv_sig_2_args_type (CHR ''L'' # name @ '';'') =
      map_option (\<lambda>t. \<lparr>sig = CHR ''L'' # name @ '';'', inner_base_type = t, array_dim = None\<rparr>)
        (Option.bind (replace_all name ''_'' ''_1'') (\<lambda>t. replace_all t ''/'' ''_''))"
    unfolding conv_sig_2_args_type_def Let_def n
    by (cases "replace_all name ''_'' ''_1''") (simp_all add: sub map_conv_bind_option comp_def)
  show ?thesis
  proof (cases "CHR ''_'' \<in> set name")
    case True
    then show ?thesis using replace_all_diverges [of "CHR ''_''" "''_1''" name] c by simp
  next
    case False
    have "replace_all name ''_'' ''_1'' = Some name"
      by (subst replace_all.simps) (use False in \<open>simp add: str_find_char\<close>)
    moreover have "replace_all name ''/'' ''_'' = Some (subst_char CHR ''/'' ''_'' name)"
      by (rule replace_all_char) simp
    ultimately show ?thesis using False c by simp
  qed
qed

end
