(* ===== verification/Fh_Memory.thy ===== *)
theory Fh_Memory
  imports Prelude
begin

text \<open>
  Files in memory, \<^verbatim>\<open>hook_libc/memory_file.h\<close>: the class that stands in for a file of the traced
  program. The fields of type \<^verbatim>\<open>int\<close> are integers; an operation that leaves their range, an access
  outside the buffer and an exception of \<^verbatim>\<open>new\<close> are \<open>Undef\<close>. A \<^verbatim>\<open>size_t\<close> is a natural number below
  \<open>2 ^ 64\<close>. The lemmas relate the operations to a file as a list of bytes with a position.
\<close>

section \<open>Integers of the machine\<close>

definition to_int :: "int \<Rightarrow> int" where
  "to_int x = signed_take_bit 31 x"

definition to_size_t :: "int \<Rightarrow> int" where
  "to_size_t x = take_bit 64 x"

definition int_op :: "int \<Rightarrow> int run" where
  "int_op x = (if - (2 ^ 31) \<le> x \<and> x < 2 ^ 31 then Ret x else Undef)"

text \<open>The conversion of half an integer, as \<^verbatim>\<open>double\<close>, to \<^verbatim>\<open>int\<close>: towards zero.\<close>

definition int_of_half :: "int \<Rightarrow> int run" where
  "int_of_half x = int_op (if 0 \<le> x then x div 2 else - ((- x) div 2))"

text \<open>The bytes from a place of a buffer, and a copy to a place of it.\<close>

definition copy_from :: "u8 list \<Rightarrow> int \<Rightarrow> int \<Rightarrow> u8 list run" where
  "copy_from data off n =
     (if 0 \<le> off \<and> 0 \<le> n \<and> off + n \<le> int (length data) then Ret (take (nat n) (drop (nat off) data)) else Undef)"

definition copy_to :: "u8 list \<Rightarrow> int \<Rightarrow> u8 list \<Rightarrow> int \<Rightarrow> u8 list run" where
  "copy_to data off src n =
     (if 0 \<le> off \<and> 0 \<le> n \<and> off + n \<le> int (length data) \<and> n \<le> int (length src)
      then Ret (take (nat off) data @ take (nat n) src @ drop (nat (off + n)) data) else Undef)"

section \<open>The class\<close>

record memory_file =
  mf_path :: string
  alllen :: int
  mf_len :: int
  mf_off :: int
  share_data :: "u8 list"

text \<open>\<^verbatim>\<open>read\<close> gives what it returns, the bytes in the buffer, and the object.\<close>

definition mf_read :: "memory_file \<Rightarrow> int \<Rightarrow> bool \<Rightarrow> (int \<times> u8 list \<times> memory_file) run" where
  "mf_read self rsize update =
     (if mf_off self \<ge> mf_len self then Ret (0, [], self)
      else run_bind (int_op (mf_len self - mf_off self)) (\<lambda>d.
        let rlen = to_int (if to_size_t d > rsize then rsize else to_size_t d) in
        run_bind (copy_from (share_data self) (mf_off self) (to_size_t rlen)) (\<lambda>buffer.
        Ret (to_size_t rlen, buffer, if update then self\<lparr>mf_off := mf_off self + rlen\<rparr> else self))))"

definition write_len :: "memory_file \<Rightarrow> int \<Rightarrow> int run" where
  "write_len self wsize =
     run_bind (int_op (alllen self - mf_off self)) (\<lambda>d.
     Ret (to_int (if to_size_t d > wsize then wsize else to_size_t d)))"

text \<open>The new buffer: once and a half as long, filled with zeros.\<close>

definition write_grow :: "memory_file \<Rightarrow> int \<Rightarrow> memory_file run" where
  "write_grow self rlen =
     run_bind (int_op (alllen self - rlen)) (\<lambda>d.
     run_bind (int_of_half (2 * d + alllen self)) (\<lambda>alllen'.
     if alllen' < 0 then Undef
     else run_bind (copy_from (share_data self) 0 (to_size_t (mf_len self))) (\<lambda>data.
       run_bind (copy_to (replicate (nat alllen') 0) 0 data (to_size_t (mf_len self))) (\<lambda>nbuf.
       Ret (self\<lparr>alllen := alllen', share_data := nbuf\<rparr>)))))"

definition write_finish :: "memory_file \<Rightarrow> u8 list \<Rightarrow> int \<Rightarrow> bool \<Rightarrow> (int \<times> memory_file) run" where
  "write_finish self buffer rlen update =
     run_bind (copy_to (share_data self) (mf_off self) buffer (to_size_t rlen)) (\<lambda>data.
     let self = self\<lparr>share_data := data\<rparr>;
         self = (if update then self\<lparr>mf_off := mf_off self + rlen\<rparr> else self);
         self = (if mf_off self \<ge> mf_len self then self\<lparr>mf_len := mf_off self\<rparr> else self)
     in Ret (to_size_t rlen, self))"

definition mf_write :: "memory_file \<Rightarrow> u8 list \<Rightarrow> bool \<Rightarrow> (int \<times> memory_file) run" where
  "mf_write self buffer update =
     (let wsize = int (length buffer) in
      run_bind (write_len self wsize) (\<lambda>rlen.
      if rlen \<le> 0
      then run_bind (write_grow self rlen) (\<lambda>self.
        run_bind (write_len self wsize) (\<lambda>rlen. write_finish self buffer rlen update))
      else write_finish self buffer rlen update))"

text \<open>The search for the end of the line reads the buffer until it finds one.\<close>

fun line_len :: "u8 list \<Rightarrow> int run" where
  "line_len [] = Undef"
| "line_len (c # cs) = (if c = 10 then Ret 0 else run_bind (line_len cs) (\<lambda>n. Ret (1 + n)))"

text \<open>The position is passed as the flag \<^verbatim>\<open>update\<close> of \<^verbatim>\<open>read\<close>.\<close>

definition mf_fgets :: "memory_file \<Rightarrow> int \<Rightarrow> (int \<times> u8 list \<times> memory_file) run" where
  "mf_fgets self max_count =
     (if mf_off self \<ge> mf_len self then Ret (0, [], self)
      else run_bind (if mf_off self < 0 then Undef else line_len (drop (nat (mf_off self)) (share_data self))) (\<lambda>rlen.
        let rlen = (if rlen > max_count then max_count else rlen) in
        run_bind (mf_read self (to_size_t rlen) (mf_off self \<noteq> 0)) (\<lambda>(_, buffer, self).
        Ret (to_size_t rlen, buffer, self))))"

section \<open>Construction\<close>

text \<open>The three constructors: a copy, the buffer of the caller, and an empty file.\<close>

definition memory_file_copy :: "u8 list \<Rightarrow> memory_file run" where
  "memory_file_copy data =
     run_bind (int_of_half (3 * int (length data))) (\<lambda>alllen'.
     run_bind (copy_to (replicate (nat alllen') 0) 0 data (int (length data))) (\<lambda>buf.
     Ret \<lparr>mf_path = [], alllen = alllen', mf_len = int (length data), mf_off = 0, share_data = buf\<rparr>))"

definition memory_file_move :: "u8 list \<Rightarrow> int \<Rightarrow> memory_file run" where
  "memory_file_move data n =
     run_bind (int_of_half (3 * n)) (\<lambda>alllen'.
     Ret \<lparr>mf_path = [], alllen = alllen', mf_len = n, mf_off = 0, share_data = data\<rparr>)"

definition memory_file_empty :: memory_file where
  "memory_file_empty = \<lparr>mf_path = [], alllen = 1024 * 2, mf_len = 0, mf_off = 0, share_data = replicate 2048 0\<rparr>"

definition get_path :: "memory_file \<Rightarrow> string" where
  "get_path self = mf_path self"

section \<open>Well-formed files and their contents\<close>

text \<open>
  The invariant: the buffer has the size that the object believes, the length and the position lie
  within it, and behind the length it is zero. A position may be ahead of the length.
\<close>

definition mf_inv :: "memory_file \<Rightarrow> bool" where
  "mf_inv self \<longleftrightarrow>
     0 \<le> mf_len self \<and> mf_len self \<le> alllen self \<and> 0 \<le> mf_off self \<and> mf_off self \<le> alllen self \<and>
     alllen self = int (length (share_data self)) \<and> alllen self < 2 ^ 30 \<and>
     (\<forall>b \<in> set (drop (nat (mf_len self)) (share_data self)). b = 0)"

definition contents :: "memory_file \<Rightarrow> u8 list" where
  "contents self = take (nat (mf_len self)) (share_data self)"

text \<open>The abstract file: writing at a position overwrites, and fills a hole with zeros.\<close>

definition file_write :: "u8 list \<Rightarrow> nat \<Rightarrow> u8 list \<Rightarrow> u8 list" where
  "file_write c pos bs =
     take pos (c @ replicate (pos - length c) 0) @ bs @ drop (pos + length bs) c"

definition file_read :: "u8 list \<Rightarrow> nat \<Rightarrow> nat \<Rightarrow> u8 list" where
  "file_read c pos n = take n (drop pos c)"

lemma to_int_id: "- (2 ^ 31) \<le> x \<Longrightarrow> x < 2 ^ 31 \<Longrightarrow> to_int x = x"
  by (simp add: to_int_def signed_take_bit_int_eq_self)

lemma to_size_t_id: "0 \<le> x \<Longrightarrow> x < 2 ^ 64 \<Longrightarrow> to_size_t x = x"
  by (simp add: to_size_t_def take_bit_int_eq_self)

lemma mf_invD:
  assumes "mf_inv self"
  shows "0 \<le> mf_len self" "mf_len self \<le> alllen self" "0 \<le> mf_off self" "mf_off self \<le> alllen self"
    "alllen self = int (length (share_data self))" "alllen self < 2 ^ 30"
    "share_data self = contents self @ replicate (nat (alllen self - mf_len self)) 0"
    "length (contents self) = nat (mf_len self)"
proof -
  show b: "0 \<le> mf_len self" "mf_len self \<le> alllen self" "0 \<le> mf_off self" "mf_off self \<le> alllen self"
    "alllen self = int (length (share_data self))" "alllen self < 2 ^ 30"
    using assms by (simp_all add: mf_inv_def)
  have "drop (nat (mf_len self)) (share_data self) = replicate (length (drop (nat (mf_len self)) (share_data self))) 0"
    using assms by (intro replicate_eqI) (simp_all add: mf_inv_def)
  moreover have "length (drop (nat (mf_len self)) (share_data self)) = nat (alllen self - mf_len self)" using b by auto
  ultimately have "drop (nat (mf_len self)) (share_data self) = replicate (nat (alllen self - mf_len self)) 0" by metis
  then show "share_data self = contents self @ replicate (nat (alllen self - mf_len self)) 0"
    unfolding contents_def by (metis append_take_drop_id)
  show "length (contents self) = nat (mf_len self)" using b by (simp add: contents_def)
qed

text \<open>Reading is reading from the list of bytes.\<close>

lemma read_refines:
  assumes inv: "mf_inv self" and n: "0 \<le> rsize"
  defines "bs \<equiv> file_read (contents self) (nat (mf_off self)) (nat rsize)"
  shows "mf_read self rsize update =
    Ret (int (length bs), bs, if update then self\<lparr>mf_off := mf_off self + int (length bs)\<rparr> else self)"
proof (cases "mf_off self \<ge> mf_len self")
  case True
  then have "bs = []" using mf_invD(8,3) [OF inv] by (simp add: bs_def file_read_def)
  with True show ?thesis by (simp add: mf_read_def)
next
  case False
  note i = mf_invD [OF inv]
  let ?d = "mf_len self - mf_off self"
  have d: "int_op ?d = Ret ?d" "to_size_t ?d = ?d" using False i(1-4,6) by (simp_all add: int_op_def to_size_t_id)
  obtain r where r_def: "r = (if ?d > rsize then rsize else ?d)" by blast
  have r: "to_int r = r" "to_size_t r = r" "0 \<le> r" "mf_off self + r \<le> mf_len self"
    using False i(1-4,6) n by (auto simp: r_def intro!: to_int_id to_size_t_id)
  have len: "length bs = nat r" using False i(3,8) n by (auto simp: bs_def file_read_def r_def)
  have "take (nat r) (drop (nat (mf_off self)) (share_data self)) = take (nat r) (drop (nat (mf_off self)) (contents self))"
    using i(3,8) r(3,4) by (subst i(7)) auto
  also have "\<dots> = bs" using False i(3,8) n by (auto simp: bs_def file_read_def min_def nat_diff_distrib r_def)
  finally have "copy_from (share_data self) (mf_off self) r = Ret bs"
    using r i(2,3,5) by (simp add: copy_from_def)
  moreover have "mf_read self rsize update = run_bind (copy_from (share_data self) (mf_off self) (to_size_t (to_int r)))
      (\<lambda>buffer. Ret (to_size_t (to_int r), buffer, if update then self\<lparr>mf_off := mf_off self + to_int r\<rparr> else self))"
    using False d by (simp add: mf_read_def Let_def r_def del: if_distrib)
  ultimately show ?thesis using r len by simp
qed

end
