(* ===== verification/Fh_Write.thy ===== *)
theory Fh_Write
  imports Fh_Memory
begin

text \<open>
  Writing to a file in memory: a call stores a part of the bytes, and calling again until all are
  stored ends.
\<close>

lemma copy_from_start: "0 \<le> n \<Longrightarrow> n \<le> int (length data) \<Longrightarrow> copy_from data 0 n = Ret (take (nat n) data)"
  by (simp add: copy_from_def)

lemma grown:
  assumes inv: "mf_inv self" and small: "alllen self < 2 ^ 29"
  defines "a \<equiv> 3 * alllen self div 2"
  defines "self' \<equiv> self\<lparr>alllen := a, share_data := share_data self @ replicate (nat (a - alllen self)) 0\<rparr>"
  shows "write_grow self 0 = Ret self'" "mf_inv self'" "contents self' = contents self"
proof -
  note i = mf_invD [OF inv]
  have a: "alllen self \<le> a" "a < 2 ^ 30" "0 \<le> a" using i(1-4,6) small by (simp_all add: a_def)
  have half: "int_of_half (2 * alllen self + alllen self) = Ret a"
    using i(1-4,6) a by (simp add: int_of_half_def int_op_def a_def)
  have d: "int_op (alllen self - 0) = Ret (alllen self)" using i(1-4,6) by (simp add: int_op_def)
  have l: "to_size_t (mf_len self) = mf_len self" using i(1-4,6) by (simp add: to_size_t_id)
  have c: "copy_from (share_data self) 0 (mf_len self) = Ret (contents self)"
    using i(1,2,5) by (simp add: copy_from_start contents_def)
  have n: "nat a - nat (mf_len self) = nat (alllen self - mf_len self) + nat (a - alllen self)" using i(1-4,6) a by simp
  have "copy_to (replicate (nat a) 0) 0 (contents self) (mf_len self) = Ret (share_data self @ replicate (nat (a - alllen self)) 0)"
    using i(1,2,8) a n by (subst i(7)) (simp add: copy_to_def drop_replicate replicate_add)
  with half d l c a show "write_grow self 0 = Ret self'" by (simp add: write_grow_def self'_def)
  show "contents self' = contents self" using i(1,2,5) by (simp add: contents_def self'_def)
  have "\<forall>b \<in> set (drop (nat (mf_len self)) (share_data self)). b = 0" using inv by (simp add: mf_inv_def)
  then show "mf_inv self'" using i(1-6) a by (auto simp: mf_inv_def self'_def)
qed

text \<open>What the copy and the updates behind it do.\<close>

definition stored :: "memory_file \<Rightarrow> u8 list \<Rightarrow> memory_file" where
  "stored self bs =
     self\<lparr>share_data := take (nat (mf_off self)) (share_data self) @ bs @
         drop (nat (mf_off self) + length bs) (share_data self),
       mf_off := mf_off self + int (length bs), mf_len := max (mf_len self) (mf_off self + int (length bs))\<rparr>"

lemma stored_correct:
  assumes inv: "mf_inv self" and fits: "mf_off self + int (length bs) \<le> alllen self"
  shows "mf_inv (stored self bs)" "contents (stored self bs) = file_write (contents self) (nat (mf_off self)) bs"
proof -
  note i = mf_invD [OF inv]
  obtain p n c l z where p: "mf_off self = int p" "mf_len self = int l" "alllen self = int n" "c = contents self"
      "z = n - l" by (metis i(1,2,3,4) nonneg_int_cases order_trans)
  have l: "length c = l" "l \<le> n" "p \<le> n" "p + length bs \<le> n" using i(2,4,8) fits p by simp_all
  have data: "share_data self = c @ replicate z 0" using i(7) p by (simp add: nat_diff_distrib)
  let ?D = "take p (share_data self) @ bs @ drop (p + length bs) (share_data self)"
  have sd: "share_data (stored self bs) = ?D" "mf_len (stored self bs) = int (max l (p + length bs))"
      "mf_off (stored self bs) = int (p + length bs)" "alllen (stored self bs) = int n"
    using p by (simp_all add: stored_def)
  have D: "?D = file_write c p bs @ replicate (n - max l (p + length bs)) 0"
  proof (cases "p + length bs \<le> l")
    case True
    then show ?thesis using l p(5) by (simp add: data file_write_def max_def)
  next
    case False
    then have "drop (p + length bs) (share_data self) = replicate (n - (p + length bs)) 0"
      using l p(5) by (simp add: data)
    moreover have "take p (c @ replicate z 0) = take p (c @ replicate (p - length c) 0)"
      using l p(5) by (simp add: min_def)
    ultimately show ?thesis using False l by (simp add: data file_write_def max_def)
  qed
  have len: "length (file_write c p bs) = max l (p + length bs)" using l by (simp add: file_write_def)
  have "contents (stored self bs) = take (max l (p + length bs)) ?D" by (simp only: contents_def sd nat_int)
  also have "\<dots> = file_write c p bs" unfolding D using len by simp
  finally show "contents (stored self bs) = file_write (contents self) (nat (mf_off self)) bs" using p by simp
  have n: "length ?D = n" using l p(5) by (simp add: data)
  have "drop (max l (p + length bs)) ?D = replicate (n - max l (p + length bs)) 0" unfolding D using len by simp
  then have "\<forall>b \<in> set (drop (nat (mf_len (stored self bs))) (share_data (stored self bs))). b = 0"
    by (simp only: sd nat_int set_replicate_conv_if) simp
  then show "mf_inv (stored self bs)" using n l i(6) p unfolding mf_inv_def sd by simp
qed

lemma write_len_room:
  assumes "mf_inv self"
  shows "write_len self (int w) = Ret (min (int w) (alllen self - mf_off self))"
proof -
  note i = mf_invD [OF assms]
  have "int_op (alllen self - mf_off self) = Ret (alllen self - mf_off self)"
      "to_size_t (alllen self - mf_off self) = alllen self - mf_off self"
    using i(1-4,6) by (simp_all add: int_op_def to_size_t_id)
  moreover have "to_int (alllen self - mf_off self) = alllen self - mf_off self"
      "int w < alllen self - mf_off self \<Longrightarrow> to_int (int w) = int w"
    using i(1-4,6) by (auto intro: to_int_id)
  ultimately show ?thesis by (simp add: write_len_def min_def)
qed

lemma write_stores:
  assumes inv: "mf_inv self" and k: "0 \<le> k" "k \<le> int (length buf)" "mf_off self + k \<le> alllen self"
  shows "write_finish self buf k True = Ret (k, stored self (take (nat k) buf))"
proof -
  note i = mf_invD [OF inv]
  have s: "to_size_t k = k" using i(1-4,6) k by (simp add: to_size_t_id)
  have len: "length (take (nat k) buf) = nat k" using k by simp
  have "copy_to (share_data self) (mf_off self) buf k =
      Ret (take (nat (mf_off self)) (share_data self) @ take (nat k) buf @ drop (nat (mf_off self + k)) (share_data self))"
    using i(3,5) k by (simp add: copy_to_def)
  moreover have "nat (mf_off self + k) = nat (mf_off self) + nat k" using i(3) k(1) by (simp add: nat_add_distrib)
  moreover have "stored self (take (nat k) buf) = self\<lparr>share_data := take (nat (mf_off self)) (share_data self) @
      take (nat k) buf @ drop (nat (mf_off self) + nat k) (share_data self), mf_off := mf_off self + k,
      mf_len := max (mf_len self) (mf_off self + k)\<rparr>" unfolding stored_def len using k(1) by simp
  ultimately show ?thesis using s k(1) by (simp add: write_finish_def max_def Let_def)
qed

text \<open>The room that a write of something finds: at a full buffer, the new half.\<close>

definition free_room :: "memory_file \<Rightarrow> int" where
  "free_room self = (if mf_off self < alllen self then alllen self - mf_off self else 3 * alllen self div 2 - alllen self)"

lemma write_refines:
  assumes inv: "mf_inv self" and small: "alllen self < 2 ^ 29"
  shows "\<exists>self'. mf_write self buf True = Ret (min (int (length buf)) (free_room self), self') \<and> mf_inv self' \<and>
    contents self' = file_write (contents self) (nat (mf_off self)) (take (nat (free_room self)) buf) \<and>
    mf_off self' = mf_off self + min (int (length buf)) (free_room self) \<and>
    alllen self' = (if buf = [] \<or> mf_off self = alllen self then alllen self + alllen self div 2 else alllen self)"
proof -
  note i = mf_invD [OF inv]
  let ?w = "int (length buf)"
  have tk: "take (nat (min ?w r)) buf = take (nat r) buf" for r by (simp add: min_def)
  have fin: "\<exists>self''. Ret (min ?w r, stored s (take (nat (min ?w r)) buf)) = Ret (min ?w r, self'') \<and> mf_inv self'' \<and>
      contents self'' = file_write (contents s) (nat (mf_off s)) (take (nat r) buf) \<and>
      mf_off self'' = mf_off s + min ?w r \<and> alllen self'' = alllen s"
    if "mf_inv s" "mf_off s + min ?w r \<le> alllen s" "0 \<le> r" for s r
  proof -
    have l: "int (length (take (nat r) buf)) = min ?w r" using that(3) by simp
    then have "mf_off s + int (length (take (nat r) buf)) \<le> alllen s" using that(2) by simp
    from stored_correct [OF that(1) this] show ?thesis using l by (simp add: tk stored_def)
  qed
  show ?thesis
  proof (cases "min ?w (alllen self - mf_off self) \<le> 0")
    case False
    then have lt: "mf_off self < alllen self" by simp
    then have "free_room self = alllen self - mf_off self" by (simp add: free_room_def)
    moreover have "mf_write self buf True = Ret (min ?w (free_room self), stored self (take (nat (min ?w (free_room self))) buf))"
      using False write_stores [OF inv, of "min ?w (alllen self - mf_off self)" buf] calculation
      unfolding mf_write_def Let_def write_len_room [OF inv] by simp
    moreover have "buf \<noteq> []" using False lt by auto
    ultimately show ?thesis using fin [OF inv, of "free_room self"] False lt i(1-4) by fastforce
  next
    case True
    let ?a = "3 * alllen self div 2"
    obtain s where s: "write_grow self 0 = Ret s" "mf_inv s" "contents s = contents self" "alllen s = ?a" "mf_off s = mf_off self"
      using grown [OF inv small] by simp
    have z: "min ?w (alllen self - mf_off self) = 0" using True i(4) by simp
    have le: "alllen self \<le> ?a" "?a = alllen self + alllen self div 2" using i(1,2) by simp_all
    have eq: "min ?w (?a - mf_off self) = min ?w (free_room self)" "0 \<le> free_room self" "mf_off self + min ?w (free_room self) \<le> ?a"
      using z le i(1,2,4) by (auto simp: free_room_def min_def split: if_splits)
    have "mf_write self buf True = Ret (min ?w (free_room self), stored s (take (nat (min ?w (free_room self))) buf))"
      using write_stores [OF s(2), of "min ?w (free_room self)" buf] eq s(4,5)
      unfolding mf_write_def Let_def write_len_room [OF inv] z by (simp add: s(1) write_len_room [OF s(2)])
    moreover have f: "mf_off s + min ?w (free_room self) \<le> alllen s" using eq s(4,5) by simp
    moreover have "buf = [] \<or> mf_off self = alllen self" using z i(4) by (auto simp: min_def split: if_splits)
    ultimately show ?thesis using fin [OF s(2) f eq(2)] s(3-5) le by fastforce
  qed
qed

section \<open>Writing everything\<close>

text \<open>
  What a caller does with short writes: call again with the rest, at most \<open>n\<close> times. A call that
  stores nothing fails.
\<close>

fun write_all :: "nat \<Rightarrow> memory_file \<Rightarrow> u8 list \<Rightarrow> memory_file run" where
  "write_all 0 self buf = (if buf = [] then Ret self else Undef)"
| "write_all (Suc n) self buf =
     (if buf = [] then Ret self
      else run_bind (mf_write self buf True) (\<lambda>(k, self).
        if k = 0 then Undef else write_all n self (drop (nat k) buf)))"

lemma file_write_append: "file_write (file_write c p a) (p + length a) b = file_write c p (a @ b)"
proof -
  have t: "length (take p (c @ replicate (p - length c) 0)) = p" by simp
  then have l: "length (file_write c p a) \<ge> p + length a" by (simp add: file_write_def)
  have "take (p + length a) (file_write c p a) = take p (c @ replicate (p - length c) 0) @ a"
    using t by (simp add: file_write_def)
  moreover have "drop (p + length a + length b) (file_write c p a) = drop (p + length a + length b) c"
    using t by (simp add: file_write_def add.commute add.left_commute)
  ultimately show ?thesis using l by (simp add: file_write_def [of "file_write c p a"]) (simp add: file_write_def add.assoc)
qed

lemma file_read_write: "file_read (file_write c p bs) p (length bs) = bs"
proof -
  have "length (take p (c @ replicate (p - length c) 0)) = p" by simp
  then show ?thesis by (simp add: file_read_def file_write_def)
qed

lemma write_all_stores:
  assumes "mf_inv self" "2 \<le> alllen self" "alllen self < 2 ^ 29" "2 * (mf_off self + int (length buf)) < 2 ^ 29"
    "length buf \<le> n"
  shows "\<exists>self'. write_all n self buf = Ret self' \<and> mf_inv self' \<and>
    contents self' = (if buf = [] then contents self else file_write (contents self) (nat (mf_off self)) buf) \<and>
    mf_off self' = mf_off self + int (length buf)"
  using assms
proof (induction n self buf rule: write_all.induct)
  case (2 n self buf)
  show ?case
  proof (cases "buf = []")
    case False
    note i = mf_invD [OF "2.prems"(1)]
    obtain r where r: "r = nat (free_room self)" by blast
    have r': "free_room self = int r" "1 \<le> r" using "2.prems"(2) i(4) r by (auto simp: free_room_def)
    obtain self' where w: "mf_write self buf True = Ret (min (int (length buf)) (free_room self), self')" "mf_inv self'"
      "contents self' = file_write (contents self) (nat (mf_off self)) (take r buf)"
      "mf_off self' = mf_off self + min (int (length buf)) (free_room self)"
      "alllen self' = (if mf_off self = alllen self then alllen self + alllen self div 2 else alllen self)"
      using write_refines [OF "2.prems"(1,3), of buf] False r by auto
    have k: "nat (min (int (length buf)) (free_room self)) = min (length buf) r" using r'(1) by (simp add: min_def)
    have step: "write_all (Suc n) self buf = write_all n self' (drop r buf)"
      using w(1) r'(2) False k r'(1) by (auto simp: min_def)
    have off: "mf_off self' = mf_off self + int (min (length buf) r)" using w(4) r'(1) by simp
    have "alllen self' < 2 ^ 29" "2 \<le> alllen self'" using w(5) "2.prems"(2-4) i(3,4) by (auto split: if_splits)
    moreover have "2 * (mf_off self' + int (length (drop r buf))) < 2 ^ 29" using off "2.prems"(4) by (auto simp: min_def)
    moreover have "length (drop r buf) \<le> n" using "2.prems"(5) r'(2) by simp
    ultimately obtain self'' where s: "write_all n self' (drop r buf) = Ret self''" "mf_inv self''"
      "contents self'' = (if drop r buf = [] then contents self' else file_write (contents self') (nat (mf_off self')) (drop r buf))"
      "mf_off self'' = mf_off self' + int (length (drop r buf))"
      using "2.IH" [OF False w(1) refl] w(2) k r'(1,2) False by (auto simp: min_def split: if_splits)
    have "nat (mf_off self') = nat (mf_off self) + length (take r buf)" using off i(3) by (simp add: min.commute nat_add_distrib)
    then have "contents self'' = file_write (contents self) (nat (mf_off self)) buf"
      using s(3) w(3) file_write_append [of "contents self" "nat (mf_off self)" "take r buf" "drop r buf"] by auto
    then show ?thesis using step s off False by auto
  qed (use "2.prems"(1) in simp)
qed simp

section \<open>Lines\<close>

lemma line_len_append: "line_len (xs @ ys) = (if 10 \<in> set xs then Ret (int (length (takeWhile (\<lambda>c. c \<noteq> 10) xs)))
    else run_bind (line_len ys) (\<lambda>n. Ret (int (length xs) + n)))"
proof (induction xs)
  case (Cons x xs)
  then show ?case by (auto simp: run_simps add.assoc)
qed simp

lemma line_len_zeros: "line_len (replicate n 0) = Undef"
  by (induction n) auto

lemma line_found:
  assumes "mf_inv self" "mf_off self < mf_len self"
  shows "line_len (drop (nat (mf_off self)) (share_data self)) =
    (let rest = drop (nat (mf_off self)) (contents self) in
     if 10 \<in> set rest then Ret (int (length (takeWhile (\<lambda>c. c \<noteq> 10) rest))) else Undef)"
proof -
  note i = mf_invD [OF assms(1)]
  have "nat (mf_off self) - length (contents self) = 0" using i(8) assms(2) by simp
  then have "drop (nat (mf_off self)) (share_data self) =
      drop (nat (mf_off self)) (contents self) @ replicate (nat (alllen self - mf_len self)) 0"
    by (subst i(7)) simp
  then show ?thesis by (simp add: line_len_append line_len_zeros Let_def)
qed

lemma fgets_behaviour:
  assumes inv: "mf_inv self" and off: "mf_off self < mf_len self" and m: "0 < m" "m < 2 ^ 31"
  shows "mf_fgets self m =
    (let rest = drop (nat (mf_off self)) (contents self);
         line = take (nat m) (takeWhile (\<lambda>c. c \<noteq> 10) rest)
     in if 10 \<in> set rest
        then Ret (int (length line), line,
          if mf_off self = 0 then self else self\<lparr>mf_off := mf_off self + int (length line)\<rparr>)
        else Undef)"
proof -
  note i = mf_invD [OF inv]
  obtain rest where rest: "rest = drop (nat (mf_off self)) (contents self)" by blast
  show ?thesis
  proof (cases "10 \<in> set rest")
    case True
    obtain t where t: "t = takeWhile (\<lambda>c. c \<noteq> 10) rest" by blast
    obtain r where r: "r = (if int (length t) > m then m else int (length t))" by blast
    have le: "length t \<le> length rest" by (simp add: t length_takeWhile_le)
    then have "int (length t) < 2 ^ 30" using rest i(2,3,6,8) by simp
    then have size: "to_size_t r = r" "0 \<le> r" using m by (auto simp: r intro!: to_size_t_id)
    have "take (nat r) rest = take (nat m) t"
    proof -
      obtain d where "rest = t @ d" using t by (metis takeWhile_dropWhile_id)
      moreover have "nat r \<le> length t" using r m by auto
      ultimately have "take (nat r) rest = take (nat r) t" by simp
      then show ?thesis using r m by auto
    qed
    then have bs: "file_read (contents self) (nat (mf_off self)) (nat r) = take (nat m) t" by (simp add: file_read_def rest)
    have len: "int (length (take (nat m) t)) = r" using r m by auto
    have "line_len (drop (nat (mf_off self)) (share_data self)) = Ret (int (length t))"
      using line_found [OF inv off] True by (simp add: rest t Let_def)
    then have "mf_fgets self m = run_bind (mf_read self r (mf_off self \<noteq> 0)) (\<lambda>(_, buffer, self). Ret (r, buffer, self))"
      using off i(3) size by (simp add: mf_fgets_def Let_def r [symmetric])
    also have "\<dots> = Ret (r, take (nat m) t, if mf_off self \<noteq> 0 then self\<lparr>mf_off := mf_off self + r\<rparr> else self)"
      using read_refines [OF inv size(2), of "mf_off self \<noteq> 0"] unfolding bs len by simp
    finally show ?thesis unfolding Let_def rest [symmetric] t [symmetric] len using True by auto
  qed (use off i(3) line_found [OF inv off] rest in \<open>simp add: mf_fgets_def Let_def\<close>)
qed

end
