(* ===== verification/Fh_Hook.thy ===== *)
theory Fh_Hook
  imports Fh_Memory
begin

text \<open>
  The replacements of the file functions of the C library: the interface of a filter (\<^verbatim>\<open>filter.h\<close>), the
  class \<^verbatim>\<open>file_hook\<close> that answers calls through a filter (\<^verbatim>\<open>file_hook.h\<close>), the tables of patterns and of
  handles (\<^verbatim>\<open>base_hook.cpp\<close>), and the functions that are put in place of those of the library
  (\<^verbatim>\<open>file_hook.cpp\<close>). The library is a parameter, with a state \<^typ>\<open>'w\<close> of its own, and so is the class
  of a filter, a table of virtual functions over the state \<^typ>\<open>'f\<close> of its objects.
\<close>

section \<open>Filters\<close>

datatype file_stat_type = fstat_type | lstat_type | stat_type

definition file_open_type_open :: nat where "file_open_type_open = 1"
definition file_open_type_popen :: nat where "file_open_type_popen = 2"
definition file_open_type_fopen :: nat where "file_open_type_fopen = 4"

datatype open_args =
  Open_args string int nat
| Fpopen_args string string

text \<open>
  The virtual functions. A pointer argument that the function writes is a result, \<open>None\<close> when it is
  left alone. \<^verbatim>\<open>before_open\<close> gets the address of its object and the counter of descriptors.
\<close>

record 'f file_filter =
  on_set_pos :: "'f \<Rightarrow> int \<Rightarrow> bool \<times> int option \<times> 'f"
  on_get_pos :: "'f \<Rightarrow> int"
  on_get_file_size :: "'f \<Rightarrow> int"
  before_open :: "'f \<Rightarrow> nat \<Rightarrow> open_args \<Rightarrow> open_args \<Rightarrow> addr \<Rightarrow> int \<Rightarrow> bool \<times> u64 option \<times> open_args \<times> int \<times> 'f"
  on_close :: "'f \<Rightarrow> (int \<times> 'f) run"
  before_read :: "'f \<Rightarrow> int \<Rightarrow> bool \<Rightarrow> (int \<times> u8 list \<times> 'f) run"
  after_read :: "'f \<Rightarrow> u8 list \<Rightarrow> int \<Rightarrow> int \<Rightarrow> bool \<Rightarrow> int \<times> u8 list \<times> 'f"
  before_write :: "'f \<Rightarrow> u8 list \<Rightarrow> (int \<times> 'f) run"
  before_stat :: "'f \<Rightarrow> file_stat_type \<Rightarrow> bool \<times> int option \<times> u8 list option \<times> 'f"
  after_stat :: "'f \<Rightarrow> int \<Rightarrow> u8 list \<Rightarrow> int \<times> u8 list \<times> 'f"
  before_rename :: "'f \<Rightarrow> string \<Rightarrow> bool \<times> int option \<times> 'f"
  before_access :: "'f \<Rightarrow> int \<Rightarrow> bool \<times> int option \<times> 'f"

text \<open>\<^verbatim>\<open>require_fd\<close> gives the counter and advances it.\<close>

definition require_fd :: "int \<Rightarrow> int \<times> int" where
  "require_fd fd_index = (fd_index, to_int (fd_index + 1))"

text \<open>\<^verbatim>\<open>memory_file\<close> as a filter. The size of \<^verbatim>\<open>struct stat\<close> on the target is 128.\<close>

definition on_set_pos_memory :: "memory_file \<Rightarrow> int \<Rightarrow> bool \<times> int option \<times> memory_file" where
  "on_set_pos_memory self offset = (True, Some 0, self\<lparr>mf_off := offset\<rparr>)"

definition before_open_memory ::
    "memory_file \<Rightarrow> nat \<Rightarrow> open_args \<Rightarrow> open_args \<Rightarrow> addr \<Rightarrow> int \<Rightarrow> bool \<times> u64 option \<times> open_args \<times> int \<times> memory_file" where
  "before_open_memory self type args new_args this fd_index =
     (if bit type 0
      then (case require_fd fd_index of (fd, fd_index) \<Rightarrow> (True, Some (word_of_int fd), new_args, fd_index, self))
      else (True, Some this, new_args, fd_index, self))"

definition before_read_memory :: "memory_file \<Rightarrow> int \<Rightarrow> bool \<Rightarrow> (int \<times> u8 list \<times> memory_file) run" where
  "before_read_memory self read_size is_fgets =
     (if is_fgets then mf_fgets self (to_int read_size) else mf_read self read_size True)"

definition memory_file_filter :: "memory_file file_filter" where
  "memory_file_filter =
     \<lparr>on_set_pos = on_set_pos_memory,
      on_get_pos = mf_off,
      on_get_file_size = alllen,
      before_open = before_open_memory,
      on_close = (\<lambda>self. Ret (0, self)),
      before_read = before_read_memory,
      after_read = (\<lambda>self buf read_size readed_size is_fgets. (0, buf, self)),
      before_write = (\<lambda>self buf. mf_write self buf True),
      before_stat = (\<lambda>self stat_type. (True, Some 0, Some (replicate 128 0), self)),
      after_stat = (\<lambda>self ret buf. (-1, buf, self)),
      before_rename = (\<lambda>self new_path. (True, Some 0, self\<lparr>mf_path := new_path\<rparr>)),
      before_access = (\<lambda>self mode. (True, Some 0, self))\<rparr>"

text \<open>
  \<^verbatim>\<open>none_file_filter\<close>, with what it inherits from \<^verbatim>\<open>common_file_filter\<close>: a file that is not there. The
  inherited \<^verbatim>\<open>on_close\<close> has no \<^verbatim>\<open>return\<close>.
\<close>

definition none_file_filter :: "unit file_filter" where
  "none_file_filter =
     \<lparr>on_set_pos = (\<lambda>self offset. (False, None, self)),
      on_get_pos = (\<lambda>self. -1),
      on_get_file_size = (\<lambda>self. -1),
      before_open = (\<lambda>self type args new_args this fd_index.
        (True, Some (if bit type 0 then -1 else 0), new_args, fd_index, self)),
      on_close = (\<lambda>self. Undef),
      before_read = (\<lambda>self read_size is_fgets. Ret (0, [], self)),
      after_read = (\<lambda>self buf read_size readed_size is_fgets. (readed_size, buf, self)),
      before_write = (\<lambda>self buf. Ret (0, self)),
      before_stat = (\<lambda>self stat_type. (True, Some (-1), None, self)),
      after_stat = (\<lambda>self ret buf. (ret, buf, self)),
      before_rename = (\<lambda>self new_path. (True, Some (-1), self)),
      before_access = (\<lambda>self mode. (True, Some (-1), self))\<rparr>"

section \<open>The library\<close>

text \<open>
  The functions that the hooks replaced (\<^verbatim>\<open>libc_file_func_list\<close>) and the ones that the hooks use: \<^verbatim>\<open>new\<close>
  for the object of a filter, regular expressions, and the memory of the process. The result of a
  read is what it returns and the bytes it put into the buffer.
\<close>

record 'w libc_file_func_list =
  phook_open :: "string \<Rightarrow> int \<Rightarrow> nat option \<Rightarrow> 'w \<Rightarrow> (int \<times> 'w) run"
  phook_read :: "int \<Rightarrow> int \<Rightarrow> 'w \<Rightarrow> ((int \<times> u8 list) \<times> 'w) run"
  phook_pread :: "int \<Rightarrow> int \<Rightarrow> int \<Rightarrow> 'w \<Rightarrow> ((int \<times> u8 list) \<times> 'w) run"
  phook_write :: "int \<Rightarrow> u8 list \<Rightarrow> 'w \<Rightarrow> (int \<times> 'w) run"
  phook_pwrite :: "int \<Rightarrow> u8 list \<Rightarrow> int \<Rightarrow> 'w \<Rightarrow> (int \<times> 'w) run"
  phook_fstat :: "int \<Rightarrow> u8 list \<Rightarrow> 'w \<Rightarrow> ((int \<times> u8 list) \<times> 'w) run"
  phook_close :: "int \<Rightarrow> 'w \<Rightarrow> (int \<times> 'w) run"
  phook_popen :: "string \<Rightarrow> string \<Rightarrow> 'w \<Rightarrow> (addr \<times> 'w) run"
  phook_pclose :: "addr \<Rightarrow> 'w \<Rightarrow> (int \<times> 'w) run"
  phook_fopen :: "string \<Rightarrow> string \<Rightarrow> 'w \<Rightarrow> (addr \<times> 'w) run"
  phook_fclose :: "addr \<Rightarrow> 'w \<Rightarrow> (int \<times> 'w) run"
  phook_fread :: "int \<Rightarrow> int \<Rightarrow> addr \<Rightarrow> 'w \<Rightarrow> ((int \<times> u8 list) \<times> 'w) run"
  phook_fwrite :: "u8 list \<Rightarrow> int \<Rightarrow> int \<Rightarrow> addr \<Rightarrow> 'w \<Rightarrow> (int \<times> 'w) run"
  phook_fgets :: "int \<Rightarrow> addr \<Rightarrow> 'w \<Rightarrow> (u8 list option \<times> 'w) run"
  phook_fputs :: "u8 list \<Rightarrow> addr \<Rightarrow> 'w \<Rightarrow> (int \<times> 'w) run"
  phook_fseek :: "addr \<Rightarrow> int \<Rightarrow> int \<Rightarrow> 'w \<Rightarrow> (int \<times> 'w) run"
  phook_ftell :: "addr \<Rightarrow> 'w \<Rightarrow> (int \<times> 'w) run"
  phook_rewind :: "addr \<Rightarrow> 'w \<Rightarrow> 'w run"
  phook_lstat :: "string \<Rightarrow> u8 list \<Rightarrow> 'w \<Rightarrow> ((int \<times> u8 list) \<times> 'w) run"
  phook_stat :: "string \<Rightarrow> u8 list \<Rightarrow> 'w \<Rightarrow> ((int \<times> u8 list) \<times> 'w) run"
  phook_access :: "string \<Rightarrow> int \<Rightarrow> 'w \<Rightarrow> (int \<times> 'w) run"
  phook_rename :: "string \<Rightarrow> string \<Rightarrow> 'w \<Rightarrow> (int \<times> 'w) run"
  new_filter :: "'w \<Rightarrow> addr \<times> 'w"
  regexec :: "string \<Rightarrow> string \<Rightarrow> bool"
  process_memory :: "'w \<Rightarrow> memory"

section \<open>The class file_hook\<close>

record 'f file_hook =
  file_instance_id :: int
  info_path :: string
  call_back :: 'f
  call_back_addr :: addr

text \<open>A variable that is read before it was written has no value.\<close>

definition the_value :: "'a option \<Rightarrow> 'a run" where
  "the_value v = (case v of None \<Rightarrow> Undef | Some x \<Rightarrow> Ret x)"

definition strlen_buf :: "u8 list \<Rightarrow> int run" where
  "strlen_buf buf = (if 0 \<in> set buf then Ret (int (length (takeWhile (\<lambda>c. c \<noteq> 0) buf))) else Undef)"

definition write_over :: "u8 list \<Rightarrow> u8 list \<Rightarrow> u8 list" where
  "write_over new buf = new @ drop (length new) buf"

text \<open>
  A method takes the functions of the filter and of the library, its arguments, the object and the
  state of the library, and gives its result, the object and the state.
\<close>

definition new_path_given :: "open_args \<Rightarrow> bool" where
  "new_path_given new_args = (case new_args of Open_args p _ _ \<Rightarrow> p \<noteq> [] | Fpopen_args p _ \<Rightarrow> p \<noteq> [])"

definition fh_fopen where
  "fh_fopen ff libc path mode self fd_index w =
     (case before_open ff (call_back self) file_open_type_fopen (Fpopen_args path mode) (Fpopen_args [] [])
         (call_back_addr self) fd_index of
        (handled, handle, new_args, fd_index, cb) \<Rightarrow>
          let self = self\<lparr>call_back := cb\<rparr> in
          if handled then run_bind (the_value handle) (\<lambda>fp. Ret (fp, self, fd_index, w))
          else case new_args of
            Fpopen_args buf_path buf_mode \<Rightarrow>
              run_bind (if buf_path \<noteq> [] then phook_fopen libc buf_path buf_mode w else phook_fopen libc path mode w)
                (\<lambda>(fp, w). Ret (fp, self, fd_index, w))
          | _ \<Rightarrow> Undef)"

definition fh_popen where
  "fh_popen ff libc command mode self fd_index w =
     (case before_open ff (call_back self) file_open_type_popen (Fpopen_args command mode) (Fpopen_args [] [])
         (call_back_addr self) fd_index of
        (handled, handle, new_args, fd_index, cb) \<Rightarrow>
          let self = self\<lparr>call_back := cb\<rparr> in
          if handled then run_bind (the_value handle) (\<lambda>fp. Ret (fp, self, fd_index, w))
          else case new_args of
            Fpopen_args buf_path buf_mode \<Rightarrow>
              run_bind (if buf_path \<noteq> [] then phook_popen libc buf_path buf_mode w else phook_popen libc command mode w)
                (\<lambda>(fp, w). Ret (fp, self, fd_index, w))
          | _ \<Rightarrow> Undef)"

text \<open>The result of \<^verbatim>\<open>fgets\<close> is the buffer (\<open>Some\<close>) or a null pointer; the buffer may be written either way.\<close>

definition fh_fgets where
  "fh_fgets ff libc buffer max_count fp self w =
     run_bind (before_read ff (call_back self) (to_size_t max_count) True) (\<lambda>(n, bytes, cb).
     let self = self\<lparr>call_back := cb\<rparr>; buffer = write_over bytes buffer in
     if n = 0 then
       run_bind (phook_fgets libc max_count fp w) (\<lambda>(line, w).
       let buffer = (case line of None \<Rightarrow> buffer | Some l \<Rightarrow> write_over l buffer) in
       run_bind (strlen_buf buffer) (\<lambda>n.
       case after_read ff (call_back self) buffer (to_size_t max_count) n True of
         (n, buffer, cb) \<Rightarrow> Ret ((n \<noteq> 0, buffer), self\<lparr>call_back := cb\<rparr>, w)))
     else Ret ((True, buffer), self, w))"

definition fh_fread where
  "fh_fread ff libc sz count fp self w =
     (let rd_size = to_int (sz * count) in
      run_bind (before_read ff (call_back self) (to_size_t rd_size) False) (\<lambda>(n, buffer, cb).
      let self = self\<lparr>call_back := cb\<rparr>; rded_size = to_int n in
      if rded_size = 0 then
        run_bind (phook_fread libc sz count fp w) (\<lambda>((n, bytes), w).
        case after_read ff (call_back self) (write_over bytes buffer) (to_size_t rd_size) (to_size_t (to_int n)) False of
          (n, buffer, cb) \<Rightarrow> Ret ((n, buffer), self\<lparr>call_back := cb\<rparr>, w))
      else Ret ((to_size_t rded_size, buffer), self, w)))"

definition fh_fputs where
  "fh_fputs ff libc buffer fp self w =
     run_bind (before_write ff (call_back self) buffer) (\<lambda>(n, cb).
     let self = self\<lparr>call_back := cb\<rparr>; wted_size = to_int n in
     if wted_size \<noteq> 0 then Ret (wted_size, self, w)
     else run_bind (phook_fwrite libc buffer (int (length buffer)) 1 fp w) (\<lambda>(n, w). Ret (to_int n, self, w)))"

text \<open>The buffer of a write has the bytes to write.\<close>

definition fh_fwrite where
  "fh_fwrite ff libc buffer fp self w =
     run_bind (before_write ff (call_back self) buffer) (\<lambda>(wted_size, cb).
     let self = self\<lparr>call_back := cb\<rparr> in
     if wted_size \<noteq> 0 then Ret (wted_size, self, w)
     else run_bind (phook_fwrite libc buffer (int (length buffer)) 1 fp w) (\<lambda>(n, w). Ret (n, self, w)))"

definition fh_fseek where
  "fh_fseek ff libc fp offset whence self w =
     (let cb = call_back self;
          after = (\<lambda>self w. run_bind (phook_fseek libc fp offset whence w) (\<lambda>(r, w). Ret (r, self, w)))
      in if on_get_pos ff cb = -1 \<or> on_get_file_size ff cb = -1 then after self w
      else
        let pos = (if whence = 0 then to_int offset
                   else if whence = 1 then to_int (on_get_pos ff cb + offset)
                   else if whence = 2 then to_int (on_get_file_size ff cb - 1 + offset)
                   else 0)
        in case on_set_pos ff cb pos of
          (handled, ret, cb) \<Rightarrow>
            let self = self\<lparr>call_back := cb\<rparr> in
            if handled then run_bind (the_value ret) (\<lambda>r. Ret (r, self, w)) else after self w)"

definition fh_ftell where
  "fh_ftell ff libc fp self w =
     (let rpos = on_get_pos ff (call_back self) in
      if rpos \<noteq> -1 then Ret (rpos, self, w)
      else run_bind (phook_ftell libc fp w) (\<lambda>(r, w). Ret (r, self, w)))"

definition fh_rewind where
  "fh_rewind ff libc fp self w =
     (case on_set_pos ff (call_back self) 0 of
        (handled, rpos, cb) \<Rightarrow>
          let self = self\<lparr>call_back := cb\<rparr> in
          if handled then Ret (self, w) else run_bind (phook_rewind libc fp w) (\<lambda>w. Ret (self, w)))"

definition fh_pclose where
  "fh_pclose ff libc fp self w =
     run_bind (on_close ff (call_back self)) (\<lambda>(_, cb).
     run_bind (phook_pclose libc fp w) (\<lambda>(r, w). Ret (r, self\<lparr>call_back := cb\<rparr>, w)))"

definition fh_fclose where
  "fh_fclose ff libc fp self w =
     run_bind (on_close ff (call_back self)) (\<lambda>(_, cb).
     run_bind (phook_fclose libc fp w) (\<lambda>(r, w). Ret (r, self\<lparr>call_back := cb\<rparr>, w)))"

text \<open>On the 64-bit target the handle that the filter gives is a pointer from which the descriptor is read.\<close>

definition fh_open where
  "fh_open ff libc path flag mode self fd_index w =
     (case before_open ff (call_back self) file_open_type_open (Open_args path flag mode) (Open_args [] 0 0)
         (call_back_addr self) fd_index of
        (handled, handle, new_args, fd_index, cb) \<Rightarrow>
          let self = self\<lparr>call_back := cb\<rparr> in
          if handled then
            run_bind (the_value handle) (\<lambda>handle.
            run_bind (load32 (process_memory libc w) handle) (\<lambda>_.
            run_bind (load32 (process_memory libc w) (handle + 4)) (\<lambda>_.
            run_bind (load32 (process_memory libc w) handle) (\<lambda>fd. Ret (sint fd, self, fd_index, w)))))
          else case new_args of
            Open_args buf_path new_flag new_mode \<Rightarrow>
              run_bind (if buf_path \<noteq> [] then phook_open libc buf_path new_flag (Some new_mode) w
                  else phook_open libc path flag (Some mode) w)
                (\<lambda>(fd, w). Ret (fd, self, fd_index, w))
          | _ \<Rightarrow> Undef)"

definition fh_read where
  "fh_read ff libc fd nbytes self w =
     run_bind (before_read ff (call_back self) nbytes False) (\<lambda>(rded_size, buffer, cb).
     let self = self\<lparr>call_back := cb\<rparr> in
     if rded_size = 0 then
       run_bind (phook_read libc fd nbytes w) (\<lambda>((n, bytes), w).
       case after_read ff (call_back self) (write_over bytes buffer) nbytes (to_size_t n) False of
         (n, buffer, cb) \<Rightarrow> Ret ((signed_take_bit 63 n, buffer), self\<lparr>call_back := cb\<rparr>, w))
     else Ret ((signed_take_bit 63 rded_size, buffer), self, w))"

text \<open>\<^verbatim>\<open>auto_set_pos\<close>: the constructor moves the position, the destructor moves it back.\<close>

definition auto_set_pos where
  "auto_set_pos ff pos self = (on_get_pos ff (call_back self),
     case on_set_pos ff (call_back self) (to_int pos) of (_, _, cb) \<Rightarrow> self\<lparr>call_back := cb\<rparr>)"

definition auto_set_pos_end where
  "auto_set_pos_end ff old_pos self =
     (case on_set_pos ff (call_back self) old_pos of (_, _, cb) \<Rightarrow> self\<lparr>call_back := cb\<rparr>)"

definition fh_pread where
  "fh_pread ff libc fd count offset self w =
     (case auto_set_pos ff offset self of
        (old_pos, self) \<Rightarrow>
          run_bind (fh_read ff libc fd count self w) (\<lambda>(r, self, w).
          Ret (r, auto_set_pos_end ff old_pos self, w)))"

definition fh_write where
  "fh_write ff libc fd buffer self w =
     run_bind (before_write ff (call_back self) buffer) (\<lambda>(wted_size, cb).
     let self = self\<lparr>call_back := cb\<rparr> in
     if wted_size \<noteq> 0 then Ret (signed_take_bit 63 wted_size, self, w)
     else run_bind (phook_write libc fd buffer w) (\<lambda>(n, w). Ret (n, self, w)))"

definition fh_pwrite where
  "fh_pwrite ff libc fd buffer offset self w =
     (case auto_set_pos ff offset self of
        (old_pos, self) \<Rightarrow>
          run_bind (fh_write ff libc fd buffer self w) (\<lambda>(r, self, w).
          Ret (r, auto_set_pos_end ff old_pos self, w)))"

definition fh_fstat where
  "fh_fstat ff libc fd buf self w =
     (case before_stat ff (call_back self) fstat_type of
        (handled, ret, buf', cb) \<Rightarrow>
          let self = self\<lparr>call_back := cb\<rparr>; buf = (case buf' of None \<Rightarrow> buf | Some b \<Rightarrow> b) in
          if handled then run_bind (the_value ret) (\<lambda>r. Ret ((r, buf), self, w))
          else run_bind (phook_fstat libc fd buf w) (\<lambda>((r, buf), w).
            case after_stat ff (call_back self) r buf of (r, buf, cb) \<Rightarrow> Ret ((r, buf), self\<lparr>call_back := cb\<rparr>, w)))"

definition fh_close where
  "fh_close ff libc fd self w =
     run_bind (on_close ff (call_back self)) (\<lambda>(_, cb).
     run_bind (phook_close libc fd w) (\<lambda>(r, w). Ret (r, self\<lparr>call_back := cb\<rparr>, w)))"

text \<open>The four functions on paths compare what the filter says with 0.\<close>

definition fh_lstat where
  "fh_lstat ff libc path buf self w =
     (case before_stat ff (call_back self) lstat_type of
        (handled, ret, buf', cb) \<Rightarrow>
          let self = self\<lparr>call_back := cb\<rparr>; buf = (case buf' of None \<Rightarrow> buf | Some b \<Rightarrow> b) in
          if handled = False then run_bind (the_value ret) (\<lambda>r. Ret ((r, buf), self, w))
          else run_bind (phook_lstat libc path buf w) (\<lambda>((r, buf), w).
            case after_stat ff (call_back self) r buf of (r, buf, cb) \<Rightarrow> Ret ((r, buf), self\<lparr>call_back := cb\<rparr>, w)))"

definition fh_stat where
  "fh_stat ff libc pathname buf self w =
     (case before_stat ff (call_back self) stat_type of
        (handled, ret, buf', cb) \<Rightarrow>
          let self = self\<lparr>call_back := cb\<rparr>; buf = (case buf' of None \<Rightarrow> buf | Some b \<Rightarrow> b) in
          if handled = False then run_bind (the_value ret) (\<lambda>r. Ret ((r, buf), self, w))
          else run_bind (phook_stat libc pathname buf w) (\<lambda>((r, buf), w).
            case after_stat ff (call_back self) r buf of (r, buf, cb) \<Rightarrow> Ret ((r, buf), self\<lparr>call_back := cb\<rparr>, w)))"

definition fh_rename where
  "fh_rename ff libc old_path new_path self w =
     (case before_rename ff (call_back self) new_path of
        (handled, ret, cb) \<Rightarrow>
          let self = self\<lparr>call_back := cb\<rparr> in
          if handled = False then run_bind (the_value ret) (\<lambda>r. Ret (r, self, w))
          else run_bind (phook_rename libc old_path new_path w) (\<lambda>(r, w). Ret (r, self, w)))"

definition fh_access where
  "fh_access ff libc pathname mode self w =
     (case before_access ff (call_back self) mode of
        (handled, ret, cb) \<Rightarrow>
          let self = self\<lparr>call_back := cb\<rparr> in
          if handled = False then run_bind (the_value ret) (\<lambda>r. Ret (r, self, w))
          else run_bind (phook_access libc pathname mode w) (\<lambda>(r, w). Ret (r, self, w)))"

section \<open>Patterns and handles\<close>

record 'f inside_hook_params =
  reg_path :: string
  ffactory :: 'f
  open_index :: int

text \<open>
  The global state. \<^verbatim>\<open>hook_file_list\<close> is ordered by its keys. A factory gives the state of a new object.
\<close>

record ('f, 'w) hooks =
  hook_file_list :: "(int \<times> 'f inside_hook_params) list"
  map_hook_index :: int
  g_hook :: "addr \<Rightarrow> 'f file_hook option"
  fd_index :: int
  world :: 'w

definition hook_global_init :: "('f, 'w) hooks \<Rightarrow> ('f, 'w) hooks" where
  "hook_global_init s = s\<lparr>fd_index := 65555\<rparr>"

definition is_hook_handle :: "addr \<Rightarrow> ('f, 'w) hooks \<Rightarrow> bool" where
  "is_hook_handle handle s = (g_hook s handle \<noteq> None)"

definition remove_hook_handle :: "addr \<Rightarrow> ('f, 'w) hooks \<Rightarrow> ('f, 'w) hooks run" where
  "remove_hook_handle handle s =
     (case g_hook s handle of None \<Rightarrow> Undef | Some _ \<Rightarrow> Ret (s\<lparr>g_hook := (g_hook s)(handle := None)\<rparr>))"

text \<open>\<^verbatim>\<open>map::insert\<close> keeps an entry that is there.\<close>

definition insert_hook_handle :: "addr \<Rightarrow> 'f file_hook \<Rightarrow> ('f, 'w) hooks \<Rightarrow> ('f, 'w) hooks" where
  "insert_hook_handle handle phook s =
     (case g_hook s handle of None \<Rightarrow> s\<lparr>g_hook := (g_hook s)(handle \<mapsto> phook)\<rparr> | Some _ \<Rightarrow> s)"

definition get_hook_handle :: "addr \<Rightarrow> ('f, 'w) hooks \<Rightarrow> 'f file_hook option" where
  "get_hook_handle handle s = g_hook s handle"

definition check_hook_info :: "string \<Rightarrow> ('f, 'w) hooks \<Rightarrow> bool" where
  "check_hook_info path s = list_all (\<lambda>item. reg_path (snd item) \<noteq> path) (hook_file_list s)"

fun first_match :: "(string \<Rightarrow> string \<Rightarrow> bool) \<Rightarrow> string \<Rightarrow> (int \<times> 'f inside_hook_params) list \<Rightarrow>
    ('f inside_hook_params \<times> (int \<times> 'f inside_hook_params) list) option" where
  "first_match matches name [] = None"
| "first_match matches name ((k, item) # items) =
     (if matches (reg_path item) name
      then Some (item, (k, item\<lparr>open_index := to_int (open_index item + 1)\<rparr>) # items)
      else map_option (\<lambda>(found, rest). (found, (k, item) # rest)) (first_match matches name items))"

definition check_and_create_handle ::
    "'w libc_file_func_list \<Rightarrow> string \<Rightarrow> ('f, 'w) hooks \<Rightarrow> 'f file_hook option \<times> ('f, 'w) hooks" where
  "check_and_create_handle libc FileName s =
     (case first_match (regexec libc) FileName (hook_file_list s) of
        None \<Rightarrow> (None, s)
      | Some (item, items) \<Rightarrow>
          (case new_filter libc (world s) of
             (a, w) \<Rightarrow>
               (Some \<lparr>file_instance_id = open_index item, info_path = FileName, call_back = ffactory item, call_back_addr = a\<rparr>,
                s\<lparr>hook_file_list := items, world := w\<rparr>)))"

text \<open>The return type of \<^verbatim>\<open>register_file_hook\<close> is \<^verbatim>\<open>int\<close>; a pattern that is there gives \<^verbatim>\<open>false\<close>.\<close>

definition map_insert :: "int \<Rightarrow> 'v \<Rightarrow> (int \<times> 'v) list \<Rightarrow> (int \<times> 'v) list" where
  "map_insert k v items =
     (if k \<in> fst ` set items then items
      else takeWhile (\<lambda>item. fst item < k) items @ (k, v) # dropWhile (\<lambda>item. fst item < k) items)"

definition register_file_hook :: "string \<Rightarrow> 'f \<Rightarrow> ('f, 'w) hooks \<Rightarrow> int \<times> ('f, 'w) hooks" where
  "register_file_hook path factory s =
     (if \<not> check_hook_info path s then (0, s)
      else
        let iinfo = \<lparr>reg_path = path, ffactory = factory, open_index = 0\<rparr>;
            mhandle = map_hook_index s;
            s = s\<lparr>map_hook_index := to_int (mhandle + 1)\<rparr>
        in (mhandle, s\<lparr>hook_file_list := map_insert mhandle iinfo (hook_file_list s)\<rparr>))"

definition unregister_file_hook :: "int \<Rightarrow> ('f, 'w) hooks \<Rightarrow> ('f, 'w) hooks" where
  "unregister_file_hook mhandle s =
     s\<lparr>hook_file_list := filter (\<lambda>item. fst item \<noteq> mhandle) (hook_file_list s)\<rparr>"

section \<open>The replacements\<close>

text \<open>The function of the library in place of the replacement.\<close>

definition forward where
  "forward libc_call s = run_bind (libc_call (world s)) (\<lambda>(r, w). Ret (r, s\<lparr>world := w\<rparr>))"

text \<open>
  \<^verbatim>\<open>auto p = dynamic_cast<...>(get_hook_handle(h)); if (p) return p->...; return file_func_ptr...;\<close>: a
  method of the object behind a handle, or the function of the library.
\<close>

definition dispatch where
  "dispatch h method libc_call s =
     (case get_hook_handle h s of
        Some p \<Rightarrow> run_bind (method p (world s)) (\<lambda>(r, p, w). Ret (r, s\<lparr>g_hook := (g_hook s)(h \<mapsto> p), world := w\<rparr>))
      | None \<Rightarrow> forward libc_call s)"

text \<open>A method of a new object for a path, which is deleted behind the call, or the function of the library.\<close>

definition dispatch_path where
  "dispatch_path libc file method libc_call s =
     (case check_and_create_handle libc file s of
        (Some p, s) \<Rightarrow> run_bind (method p (world s)) (\<lambda>(r, p, w). Ret (r, s\<lparr>world := w\<rparr>))
      | (None, s) \<Rightarrow> forward libc_call s)"

text \<open>Closing takes the object out of the table and deletes it.\<close>

definition dispatch_close where
  "dispatch_close h method libc_call s =
     (case get_hook_handle h s of
        Some p \<Rightarrow>
          run_bind (method p (world s)) (\<lambda>(_, p, w).
          run_bind (remove_hook_handle h (s\<lparr>world := w\<rparr>)) (\<lambda>s. Ret (0, s)))
      | None \<Rightarrow> forward libc_call s)"

definition hook_fopen where
  "hook_fopen ff libc FileName mode s =
     (case check_and_create_handle libc FileName s of
        (Some phandle, s) \<Rightarrow>
          run_bind (fh_fopen ff libc FileName mode phandle (fd_index s) (world s)) (\<lambda>(fp, phandle, fdi, w).
          let s = s\<lparr>fd_index := fdi, world := w\<rparr>
          in Ret (fp, if fp \<noteq> 0 then insert_hook_handle fp phandle s else s))
      | (None, s) \<Rightarrow> forward (phook_fopen libc FileName mode) s)"

definition hook_fclose where
  "hook_fclose ff libc fp s = dispatch_close fp (fh_fclose ff libc fp) (phook_fclose libc fp) s"

definition hook_fgets where
  "hook_fgets ff libc buffer MaxCount fp s =
     dispatch fp (fh_fgets ff libc buffer MaxCount fp)
       (\<lambda>w. run_bind (phook_fgets libc MaxCount fp w) (\<lambda>(line, w).
         Ret (case line of None \<Rightarrow> (False, buffer) | Some l \<Rightarrow> (True, write_over l buffer), w))) s"

definition hook_fwrite where
  "hook_fwrite ff libc buf sz count fp s =
     dispatch fp (fh_fwrite ff libc (take (nat (to_size_t (sz * count))) buf) fp) (phook_fwrite libc buf sz count fp) s"

definition hook_fputs where
  "hook_fputs ff libc buf fp s = dispatch fp (fh_fputs ff libc buf fp) (phook_fputs libc buf fp) s"

definition hook_fread where
  "hook_fread ff libc sz count fp s = dispatch fp (fh_fread ff libc sz count fp) (phook_fread libc sz count fp) s"

definition hook_fseek where
  "hook_fseek ff libc fp offset whence s =
     dispatch fp (fh_fseek ff libc fp offset whence) (phook_fseek libc fp offset whence) s"

definition hook_ftell where
  "hook_ftell ff libc fp s = dispatch fp (fh_ftell ff libc fp) (phook_ftell libc fp) s"

definition hook_rewind where
  "hook_rewind ff libc fp s =
     dispatch fp (\<lambda>p w. run_bind (fh_rewind ff libc fp p w) (\<lambda>(p, w). Ret ((), p, w)))
       (\<lambda>w. run_bind (phook_rewind libc fp w) (\<lambda>w. Ret ((), w))) s"

text \<open>Without an object, \<^verbatim>\<open>popen\<close> and \<^verbatim>\<open>pclose\<close> forward to \<^verbatim>\<open>fopen\<close> and \<^verbatim>\<open>fclose\<close>.\<close>

definition hook_popen where
  "hook_popen ff libc command mode s =
     (case check_and_create_handle libc command s of
        (Some phandle, s) \<Rightarrow>
          run_bind (fh_popen ff libc command mode phandle (fd_index s) (world s)) (\<lambda>(fp, phandle, fdi, w).
          let s = s\<lparr>fd_index := fdi, world := w\<rparr>
          in Ret (fp, if fp \<noteq> 0 then insert_hook_handle fp phandle s else s))
      | (None, s) \<Rightarrow> forward (phook_fopen libc command mode) s)"

definition hook_pclose where
  "hook_pclose ff libc fp s = dispatch_close fp (fh_pclose ff libc fp) (phook_fclose libc fp) s"

text \<open>The third argument is there when the flags have \<^verbatim>\<open>O_CREAT\<close>, bit 6.\<close>

definition hook_open where
  "hook_open ff libc path oflag mode_arg s =
     (let mode = (if bit oflag 6 then mode_arg else 0) in
      case check_and_create_handle libc path s of
        (Some phandle, s) \<Rightarrow>
          run_bind (fh_open ff libc path oflag mode phandle (fd_index s) (world s)) (\<lambda>(fd, phandle, fdi, w).
          let s = s\<lparr>fd_index := fdi, world := w\<rparr>
          in Ret (fd, if fd \<noteq> -1 then insert_hook_handle (word_of_int fd) phandle s else s))
      | (None, s) \<Rightarrow>
          forward (phook_open libc path oflag (if bit oflag 6 then Some mode else None)) s)"

definition hook_read where
  "hook_read ff libc fd nbytes s =
     dispatch (word_of_int fd) (fh_read ff libc fd nbytes) (phook_read libc fd nbytes) s"

definition hook_pread where
  "hook_pread ff libc fd count offset s =
     dispatch (word_of_int fd) (fh_pread ff libc fd count offset) (phook_pread libc fd count offset) s"

definition hook_write where
  "hook_write ff libc fd buf s = dispatch (word_of_int fd) (fh_write ff libc fd buf) (phook_write libc fd buf) s"

definition hook_pwrite where
  "hook_pwrite ff libc fd buf offset s =
     dispatch (word_of_int fd) (fh_pwrite ff libc fd buf offset) (phook_pwrite libc fd buf offset) s"

definition hook_fstat where
  "hook_fstat ff libc fd buf s = dispatch (word_of_int fd) (fh_fstat ff libc fd buf) (phook_fstat libc fd buf) s"

definition hook_close where
  "hook_close ff libc fd s = dispatch_close (word_of_int fd) (fh_close ff libc fd) (phook_close libc fd) s"

definition hook_lstat where
  "hook_lstat ff libc file buf s = dispatch_path libc file (fh_lstat ff libc file buf) (phook_lstat libc file buf) s"

definition hook_stat where
  "hook_stat ff libc pathname buf s =
     dispatch_path libc pathname (fh_stat ff libc pathname buf) (phook_stat libc pathname buf) s"

definition hook_rename where
  "hook_rename ff libc old_path new_path s =
     dispatch_path libc old_path (fh_rename ff libc old_path new_path) (phook_rename libc old_path new_path) s"

definition hook_access where
  "hook_access ff libc pathname mode s =
     dispatch_path libc pathname (fh_access ff libc pathname mode) (phook_access libc pathname mode) s"

end
