(* ===== verification/Fh_Files.thy ===== *)
theory Fh_Files
  imports Fh_Write Fh_Hook
begin

text \<open>
  What the traced program sees of a file in memory through the replaced functions, and where the
  replacements leave the program and the library alone.
\<close>

section \<open>A filter that serves a file\<close>

text \<open>
  The contract between \<^verbatim>\<open>file_hook\<close> and a filter that has the contents of a file: the filter keeps an
  invariant, its bytes and a position up to a limit, and reads as a file does.
\<close>

locale byte_filter =
  fixes ff :: "'f file_filter"
    and inv :: "'f \<Rightarrow> bool"
    and bytes :: "'f \<Rightarrow> u8 list"
    and pos :: "'f \<Rightarrow> nat"
    and limit :: "'f \<Rightarrow> nat"
  assumes get_pos: "inv f \<Longrightarrow> on_get_pos ff f = int (pos f)"
    and bound: "inv f \<Longrightarrow> pos f \<le> limit f \<and> length (bytes f) \<le> limit f \<and> limit f < 2 ^ 30"
    and set_pos: "inv f \<Longrightarrow> p \<le> limit f \<Longrightarrow>
      \<exists>f'. on_set_pos ff f (int p) = (True, Some 0, f') \<and> inv f' \<and> bytes f' = bytes f \<and> pos f' = p \<and> limit f' = limit f"
    and reads: "inv f \<Longrightarrow> 0 \<le> n \<Longrightarrow>
      \<exists>f'. before_read ff f n False =
          Ret (int (length (file_read (bytes f) (pos f) (nat n))), file_read (bytes f) (pos f) (nat n), f') \<and>
        inv f' \<and> bytes f' = bytes f \<and> pos f' = pos f + length (file_read (bytes f) (pos f) (nat n)) \<and> limit f' = limit f"
begin

lemma read_bound: "inv f \<Longrightarrow> length (file_read (bytes f) p n) < 2 ^ 30"
  using bound [of f] by (auto simp: file_read_def)

lemma fread_served:
  assumes "inv (call_back self)" "0 \<le> sz * count" "sz * count < 2 ^ 31"
  defines "bs \<equiv> file_read (bytes (call_back self)) (pos (call_back self)) (nat (sz * count))"
  assumes "bs \<noteq> []"
  shows "\<exists>f'. fh_fread ff libc sz count fp self w = Ret ((int (length bs), bs), self\<lparr>call_back := f'\<rparr>, w) \<and>
    inv f' \<and> bytes f' = bytes (call_back self) \<and> pos f' = pos (call_back self) + length bs"
proof -
  have i: "to_size_t (to_int (sz * count)) = sz * count" using assms(2,3) by (simp add: to_int_id to_size_t_id)
  have l: "to_int (int (length bs)) = int (length bs)" "to_size_t (int (length bs)) = int (length bs)"
    using read_bound [OF assms(1), of "pos (call_back self)" "nat (sz * count)"]
    by (simp_all add: bs_def to_int_id to_size_t_id)
  from reads [OF assms(1,2)] obtain f' where "before_read ff (call_back self) (sz * count) False = Ret (int (length bs), bs, f')"
      "inv f'" "bytes f' = bytes (call_back self)" "pos f' = pos (call_back self) + length bs"
    unfolding bs_def by blast
  then show ?thesis using i l assms(5) by (intro exI [of _ f']) (simp add: fh_fread_def Let_def)
qed

lemma read_served:
  assumes "inv (call_back self)" "0 \<le> n"
  defines "bs \<equiv> file_read (bytes (call_back self)) (pos (call_back self)) (nat n)"
  assumes "bs \<noteq> []"
  shows "\<exists>f'. fh_read ff libc fd n self w = Ret ((int (length bs), bs), self\<lparr>call_back := f'\<rparr>, w) \<and>
    inv f' \<and> bytes f' = bytes (call_back self) \<and> pos f' = pos (call_back self) + length bs \<and>
    limit f' = limit (call_back self)"
proof -
  have l: "signed_take_bit 63 (int (length bs)) = int (length bs)"
    using read_bound [OF assms(1), of "pos (call_back self)" "nat n"] by (intro signed_take_bit_int_eq_self) (simp_all add: bs_def)
  from reads [OF assms(1,2)] obtain f' where "before_read ff (call_back self) n False = Ret (int (length bs), bs, f')"
      "inv f'" "bytes f' = bytes (call_back self)" "pos f' = pos (call_back self) + length bs" "limit f' = limit (call_back self)"
    unfolding bs_def by blast
  then show ?thesis using l assms(4) by (intro exI [of _ f']) (simp add: fh_read_def Let_def)
qed

lemma pread_served:
  assumes "inv (call_back self)" "0 \<le> n" "offset \<le> limit (call_back self)"
  defines "bs \<equiv> file_read (bytes (call_back self)) offset (nat n)"
  assumes "bs \<noteq> []"
  shows "\<exists>f'. fh_pread ff libc fd n (int offset) self w = Ret ((int (length bs), bs), self\<lparr>call_back := f'\<rparr>, w) \<and>
    inv f' \<and> bytes f' = bytes (call_back self) \<and> pos f' = pos (call_back self)"
proof -
  note b = bound [OF assms(1)]
  have i: "to_int (int offset) = int offset" using assms(3) b by (intro to_int_id) auto
  from set_pos [OF assms(1,3)] obtain f1 where f1: "on_set_pos ff (call_back self) (int offset) = (True, Some 0, f1)"
    "inv f1" "bytes f1 = bytes (call_back self)" "pos f1 = offset" "limit f1 = limit (call_back self)" by blast
  have "inv (call_back (self\<lparr>call_back := f1\<rparr>))" using f1(2) by simp
  moreover have "file_read (bytes (call_back (self\<lparr>call_back := f1\<rparr>))) (pos (call_back (self\<lparr>call_back := f1\<rparr>))) (nat n) = bs"
    using f1(3,4) by (simp add: bs_def)
  ultimately obtain f2 where f2: "fh_read ff libc fd n (self\<lparr>call_back := f1\<rparr>) w = Ret ((int (length bs), bs), self\<lparr>call_back := f2\<rparr>, w)"
    "inv f2" "bytes f2 = bytes (call_back self)" "limit f2 = limit (call_back self)"
    using read_served [of "self\<lparr>call_back := f1\<rparr>" n libc fd w] assms(2,5) f1(3,5) by auto
  have "pos (call_back self) \<le> limit f2" using b f2(4) by simp
  from set_pos [OF f2(2) this] obtain f3 where "on_set_pos ff f2 (int (pos (call_back self))) = (True, Some 0, f3)"
    "inv f3" "bytes f3 = bytes f2" "pos f3 = pos (call_back self)" by blast
  then show ?thesis using f1(1) f2 i get_pos [OF assms(1)]
    by (intro exI [of _ f3]) (simp add: fh_pread_def auto_set_pos_def auto_set_pos_end_def)
qed

end

interpretation mem_file: byte_filter memory_file_filter mf_inv contents "\<lambda>m. nat (mf_off m)" "\<lambda>m. nat (alllen m)"
proof
  fix f :: memory_file and n :: int and p :: nat
  assume inv: "mf_inv f"
  note i = mf_invD(1-4,6,8) [OF inv]
  show "on_get_pos memory_file_filter f = int (nat (mf_off f))" using i(3) by (simp add: memory_file_filter_def)
  show "nat (mf_off f) \<le> nat (alllen f) \<and> length (contents f) \<le> nat (alllen f) \<and> nat (alllen f) < 2 ^ 30" using i by auto
  show "\<exists>f'. on_set_pos memory_file_filter f (int p) = (True, Some 0, f') \<and> mf_inv f' \<and> contents f' = contents f \<and>
      nat (mf_off f') = p \<and> nat (alllen f') = nat (alllen f)" if "p \<le> nat (alllen f)"
    using inv that i by (auto simp: memory_file_filter_def on_set_pos_memory_def mf_inv_def contents_def)
  assume n: "0 \<le> n"
  have "length (file_read (contents f) (nat (mf_off f)) (nat n)) \<le> nat (mf_len f) - nat (mf_off f)"
    using i(6) by (simp add: file_read_def)
  then have "mf_inv (f\<lparr>mf_off := mf_off f + int (length (file_read (contents f) (nat (mf_off f)) (nat n)))\<rparr>)"
    using inv i by (auto simp: mf_inv_def)
  then show "\<exists>f'. before_read memory_file_filter f n False =
      Ret (int (length (file_read (contents f) (nat (mf_off f)) (nat n))), file_read (contents f) (nat (mf_off f)) (nat n), f') \<and>
      mf_inv f' \<and> contents f' = contents f \<and>
      nat (mf_off f') = nat (mf_off f) + length (file_read (contents f) (nat (mf_off f)) (nat n)) \<and> nat (alllen f') = nat (alllen f)"
    using read_refines [OF inv n, of True] i(3)
    by (simp add: memory_file_filter_def before_read_memory_def contents_def nat_add_distrib)
qed

section \<open>A library for examples\<close>

text \<open>No call does anything, nothing is mapped, and a pattern matches itself.\<close>

definition sample_libc :: "unit libc_file_func_list" where
  "sample_libc =
     \<lparr>phook_open = (\<lambda>_ _ _ w. Ret (-1, w)), phook_read = (\<lambda>_ _ w. Ret ((-1, []), w)),
      phook_pread = (\<lambda>_ _ _ w. Ret ((-1, []), w)), phook_write = (\<lambda>_ _ w. Ret (-1, w)),
      phook_pwrite = (\<lambda>_ _ _ w. Ret (-1, w)), phook_fstat = (\<lambda>_ b w. Ret ((-1, b), w)),
      phook_close = (\<lambda>_ w. Ret (-1, w)), phook_popen = (\<lambda>_ _ w. Ret (0, w)), phook_pclose = (\<lambda>_ w. Ret (-1, w)),
      phook_fopen = (\<lambda>_ _ w. Ret (0, w)), phook_fclose = (\<lambda>_ w. Undef),
      phook_fread = (\<lambda>_ _ _ w. Undef), phook_fwrite = (\<lambda>_ _ _ _ w. Undef), phook_fgets = (\<lambda>_ _ w. Undef),
      phook_fputs = (\<lambda>_ _ w. Undef), phook_fseek = (\<lambda>_ _ _ w. Undef), phook_ftell = (\<lambda>_ w. Undef),
      phook_rewind = (\<lambda>_ w. Undef), phook_lstat = (\<lambda>_ b w. Ret ((-1, b), w)),
      phook_stat = (\<lambda>_ b w. Ret ((-1, b), w)), phook_access = (\<lambda>_ _ w. Ret (-1, w)),
      phook_rename = (\<lambda>_ _ w. Ret (-1, w)), new_filter = (\<lambda>w. (0x7000, w)), regexec = (=),
      process_memory = (\<lambda>_. no_memory)\<rparr>"

section \<open>Files in memory\<close>


definition sample_file :: memory_file where
  "sample_file = \<lparr>mf_path = [], alllen = 4, mf_len = 3, mf_off = 1, share_data = [65, 10, 66, 0]\<rparr>"

lemma sample_file_inv: "mf_inv sample_file" "contents sample_file = [65, 10, 66]"
  by (simp_all add: sample_file_def mf_inv_def contents_def numeral_3_eq_3)

lemma sample_file_fields: "alllen sample_file = 4" "mf_len sample_file = 3" "mf_off sample_file = 1"
  by (simp_all add: sample_file_def)


text \<open>C36: \<^verbatim>\<open>fgets\<close> on a file in memory gives the line without its line feed when there is one, and does
  not move on at position 0; when no line feed follows, it reads past the end of the buffer.\<close>
theorem memory_fgets:
  assumes "mf_inv f" "mf_off f < mf_len f" "0 < n" "n < 2 ^ 31"
  shows "before_read_memory f n True =
    (let rest = drop (nat (mf_off f)) (contents f);
         line = take (nat n) (takeWhile (\<lambda>c. c \<noteq> 10) rest)
     in if 10 \<in> set rest
        then Ret (int (length line), line, if mf_off f = 0 then f else f\<lparr>mf_off := mf_off f + int (length line)\<rparr>)
        else Undef)"
  using fgets_behaviour [OF assms] assms(3,4) by (simp add: before_read_memory_def to_int_id)

lemma memory_fgets_witness:
  "before_read_memory (sample_file\<lparr>mf_off := 2\<rparr>) 8 True = Undef \<and>
   before_read_memory (sample_file\<lparr>mf_off := 0\<rparr>) 8 True = Ret (1, [65], sample_file\<lparr>mf_off := 0\<rparr>)"
  using memory_fgets [of "sample_file\<lparr>mf_off := 2\<rparr>" 8] memory_fgets [of "sample_file\<lparr>mf_off := 0\<rparr>" 8]
  by (simp add: sample_file_def mf_inv_def contents_def numeral_3_eq_3)

text \<open>C30: \<^verbatim>\<open>fread\<close> on the handle of a file in memory gives the next bytes of the file and moves the
  position behind them, without a call of the library; at the end of the file the library is called
  with the handle, and the result is 0.\<close>
theorem memory_fread:
  assumes h: "g_hook s fp = Some p" and inv: "mf_inv (call_back p)" and n: "0 \<le> sz * count" "sz * count < 2 ^ 31"
  shows "let bs = file_read (contents (call_back p)) (nat (mf_off (call_back p))) (nat (sz * count)) in
    (if bs \<noteq> [] then \<exists>p'. hook_fread memory_file_filter libc sz count fp s =
         Ret ((int (length bs), bs), s\<lparr>g_hook := (g_hook s)(fp \<mapsto> p')\<rparr>) \<and> mf_inv (call_back p') \<and>
         contents (call_back p') = contents (call_back p) \<and> mf_off (call_back p') = mf_off (call_back p) + int (length bs)
     else hook_fread memory_file_filter libc sz count fp s =
       run_bind (phook_fread libc sz count fp (world s)) (\<lambda>((n, bytes), w). Ret ((0, bytes), s\<lparr>world := w\<rparr>)))"
proof -
  let ?bs = "file_read (contents (call_back p)) (nat (mf_off (call_back p))) (nat (sz * count))"
  show ?thesis
  proof (cases "?bs = []")
    case False
    from mem_file.fread_served [OF inv n False, of libc fp "world s"] obtain f' where f':
      "fh_fread memory_file_filter libc sz count fp p (world s) = Ret ((int (length ?bs), ?bs), p\<lparr>call_back := f'\<rparr>, world s)"
      "mf_inv f'" "contents f' = contents (call_back p)" "nat (mf_off f') = nat (mf_off (call_back p)) + length ?bs" by blast
    then have "mf_off f' = mf_off (call_back p) + int (length ?bs)"
      using mf_invD(3) [OF inv] mf_invD(3) [OF f'(2)] by simp
    then show ?thesis using False f' h
      by (auto simp: hook_fread_def dispatch_def get_hook_handle_def Let_def intro!: exI [of _ "p\<lparr>call_back := f'\<rparr>"])
  next
    case True
    have i: "to_size_t (to_int (sz * count)) = sz * count" using n by (simp add: to_int_id to_size_t_id)
    have "mf_off (call_back p) = mf_off (call_back p) + 0" by simp
    then have r: "before_read memory_file_filter (call_back p) (sz * count) False = Ret (0, [], call_back p)"
      using read_refines [OF inv n(1), of True] True by (simp add: memory_file_filter_def before_read_memory_def)
    have "fh_fread memory_file_filter libc sz count fp p w =
        run_bind (phook_fread libc sz count fp w) (\<lambda>((n, bytes), w). Ret ((0, bytes), p, w))" for w
      using i r by (simp add: fh_fread_def Let_def to_int_def memory_file_filter_def write_over_def cong: run_bind_cong)
    moreover have "(g_hook s)(fp \<mapsto> p) = g_hook s" using h by auto
    ultimately show ?thesis using True h
      by (cases "phook_fread libc sz count fp (world s)")
        (auto simp: hook_fread_def dispatch_def get_hook_handle_def Let_def)
  qed
qed

definition sample_hooks :: "(memory_file, unit) hooks" where
  "sample_hooks =
     \<lparr>hook_file_list = [(0, \<lparr>reg_path = ''a'', ffactory = sample_file, open_index = 0\<rparr>)], map_hook_index = 1,
      g_hook = [5 \<mapsto> \<lparr>file_instance_id = 0, info_path = ''a'', call_back = sample_file, call_back_addr = 5\<rparr>],
      fd_index = 65555, world = ()\<rparr>"

lemma sample_handle: "g_hook sample_hooks 5 = Some \<lparr>file_instance_id = 0, info_path = ''a'', call_back = sample_file, call_back_addr = 5\<rparr>"
  by (simp add: sample_hooks_def)

lemma memory_fread_witness:
  "\<exists>s. hook_fread memory_file_filter sample_libc 1 8 5 sample_hooks = Ret ((2, [10, 66]), s)"
  using memory_fread [OF sample_handle, of 1 8 sample_libc] sample_file_inv
  by (auto simp: file_read_def sample_file_def Let_def)

end
