(* ===== verification/Fh_Props.thy ===== *)
theory Fh_Props
  imports Fh_Files
begin

text \<open>
  The replaced functions as the traced program calls them: positions, opening and closing, the table
  of patterns, and the calls that have nothing to do with a filter.
\<close>

section \<open>Positions\<close>

text \<open>C33: \<^verbatim>\<open>pread\<close> on the descriptor of a file in memory gives the bytes at the offset and leaves the
  position where it was.\<close>
theorem memory_pread:
  assumes h: "g_hook s (word_of_int fd) = Some p" and inv: "mf_inv (call_back p)" and n: "0 \<le> n"
    and offset: "int offset \<le> alllen (call_back p)" and ne: "file_read (contents (call_back p)) offset (nat n) \<noteq> []"
  shows "\<exists>p'. hook_pread memory_file_filter libc fd n (int offset) s =
      Ret ((int (length (file_read (contents (call_back p)) offset (nat n))), file_read (contents (call_back p)) offset (nat n)),
        s\<lparr>g_hook := (g_hook s)(word_of_int fd \<mapsto> p')\<rparr>) \<and>
    contents (call_back p') = contents (call_back p) \<and> mf_off (call_back p') = mf_off (call_back p)"
proof -
  have "offset \<le> nat (alllen (call_back p))" using offset by simp
  from mem_file.pread_served [OF inv n this ne, of libc fd "world s"] obtain f' where f':
    "fh_pread memory_file_filter libc fd n (int offset) p (world s) = Ret ((int (length (file_read (contents (call_back p)) offset (nat n))),
       file_read (contents (call_back p)) offset (nat n)), p\<lparr>call_back := f'\<rparr>, world s)"
    "mf_inv f'" "contents f' = contents (call_back p)" "nat (mf_off f') = nat (mf_off (call_back p))" by blast
  then have "mf_off f' = mf_off (call_back p)" using mf_invD(3) [OF inv] mf_invD(3) [OF f'(2)] by simp
  then show ?thesis using f' h
    by (intro exI [of _ "p\<lparr>call_back := f'\<rparr>"]) (simp add: hook_pread_def dispatch_def get_hook_handle_def)
qed

lemma memory_pread_witness:
  "\<exists>s. hook_pread memory_file_filter sample_libc 5 2 0 sample_hooks = Ret ((2, [65, 10]), s)"
  using memory_pread [of sample_hooks 5 _ 2 0 sample_libc] sample_handle sample_file_inv
  by (auto simp: file_read_def sample_file_def)

text \<open>C37: \<^verbatim>\<open>fseek\<close> on a file in memory sets the position that \<^verbatim>\<open>ftell\<close> tells, from the start, from the
  position, or from the last byte of the buffer, which is not the end of the file.\<close>
theorem memory_fseek:
  assumes h: "g_hook s fp = Some p" and inv: "mf_inv (call_back p)" and w: "whence \<in> {0, 1, 2}"
    and r: "0 \<le> base + offset" "base + offset < 2 ^ 31"
      "base = (if whence = 0 then 0 else if whence = 1 then mf_off (call_back p) else alllen (call_back p) - 1)"
  shows "\<exists>s'. hook_fseek memory_file_filter libc fp offset whence s = Ret (0, s') \<and>
    hook_ftell memory_file_filter libc fp s' = Ret (base + offset, s')"
proof -
  note i = mf_invD(1-4,6) [OF inv]
  let ?m = "(call_back p)\<lparr>mf_off := base + offset\<rparr>"
  have to: "to_int (base + offset) = base + offset" using r(1,2) by (simp add: to_int_id)
  have "fh_fseek memory_file_filter libc fp offset whence p (world s) = Ret (0, p\<lparr>call_back := ?m\<rparr>, world s)"
  proof -
    have pos: "mf_off (call_back p) \<noteq> -1" "alllen (call_back p) \<noteq> -1" using i by auto
    consider "whence = 0" | "whence = 1" | "whence = 2" using w by blast
    then show ?thesis using pos to r(3)
      by cases (simp_all add: fh_fseek_def Let_def memory_file_filter_def on_set_pos_memory_def the_value_def)
  qed
  moreover have "fh_ftell memory_file_filter libc fp (p\<lparr>call_back := ?m\<rparr>) w = Ret (base + offset, p\<lparr>call_back := ?m\<rparr>, w)" for w
    using r(1) by (simp add: fh_ftell_def memory_file_filter_def Let_def)
  ultimately show ?thesis using h
    by (intro exI [of _ "s\<lparr>g_hook := (g_hook s)(fp \<mapsto> p\<lparr>call_back := ?m\<rparr>)\<rparr>"])
      (simp add: hook_fseek_def hook_ftell_def dispatch_def get_hook_handle_def)
qed

lemma memory_fseek_witness:
  "\<exists>s. hook_fseek memory_file_filter sample_libc 5 0 2 sample_hooks = Ret (0, s) \<and>
    hook_ftell memory_file_filter sample_libc 5 s = Ret (3, s) \<and> mf_len sample_file = 3"
proof -
  have "mf_inv (call_back \<lparr>file_instance_id = 0, info_path = ''a'', call_back = sample_file, call_back_addr = 5\<rparr>)"
    by (simp add: sample_file_inv)
  moreover have "(2 :: int) \<in> {0, 1, 2}" "0 \<le> 3 + (0 :: int)" "3 + (0 :: int) < 2 ^ 31" by simp_all
  moreover have "3 = (if (2 :: int) = 0 then 0 else if (2 :: int) = 1
      then mf_off (call_back \<lparr>file_instance_id = 0, info_path = ''a'', call_back = sample_file, call_back_addr = 5\<rparr>)
      else alllen (call_back \<lparr>file_instance_id = 0, info_path = ''a'', call_back = sample_file, call_back_addr = 5\<rparr>) - 1)"
    by (simp add: sample_file_fields)
  ultimately have "\<exists>s. hook_fseek memory_file_filter sample_libc 5 0 2 sample_hooks = Ret (0, s) \<and>
    hook_ftell memory_file_filter sample_libc 5 s = Ret (3 + 0, s)"
    by (rule memory_fseek [OF sample_handle])
  then show ?thesis by (simp add: sample_file_fields)
qed

section \<open>Opening and closing\<close>

text \<open>Opening a path that a pattern with files in memory matches gives the address of a new file, which
  the table then has for this handle; closing it calls \<^verbatim>\<open>fclose\<close> of the library on this address, which is
  no stream of the library.\<close>
theorem memory_fopen_fclose:
  assumes m: "first_match (regexec libc) name (hook_file_list s) = Some (item, items)"
    and a: "new_filter libc (world s) = (fp, w)" "fp \<noteq> 0" "g_hook s fp = None"
  shows "\<exists>s' p. hook_fopen memory_file_filter libc name mode s = Ret (fp, s') \<and> g_hook s' = (g_hook s)(fp \<mapsto> p) \<and>
    call_back p = ffactory item \<and> info_path p = name \<and> world s' = w \<and> hook_file_list s' = items \<and>
    hook_fclose memory_file_filter libc fp s' =
      run_bind (phook_fclose libc fp w) (\<lambda>(_, w'). Ret (0, s'\<lparr>g_hook := g_hook s, world := w'\<rparr>))"
proof -
  let ?p = "\<lparr>file_instance_id = open_index item, info_path = name, call_back = ffactory item, call_back_addr = fp\<rparr>"
  let ?s = "s\<lparr>hook_file_list := items, world := w, g_hook := (g_hook s)(fp \<mapsto> ?p)\<rparr>"
  have c: "check_and_create_handle libc name s = (Some ?p, s\<lparr>hook_file_list := items, world := w\<rparr>)"
    using m a(1) by (simp add: check_and_create_handle_def)
  have "hook_fopen memory_file_filter libc name mode s = Ret (fp, ?s)"
    using a(2,3) by (simp add: hook_fopen_def c fh_fopen_def memory_file_filter_def before_open_memory_def
        file_open_type_fopen_def the_value_def insert_hook_handle_def Let_def bit_numeral_rec)
  moreover have "hook_fclose memory_file_filter libc fp ?s =
      run_bind (phook_fclose libc fp w) (\<lambda>(_, w'). Ret (0, ?s\<lparr>g_hook := g_hook s, world := w'\<rparr>))"
    using a(3) by (cases "phook_fclose libc fp w")
      (auto simp: hook_fclose_def dispatch_close_def get_hook_handle_def fh_fclose_def memory_file_filter_def
        remove_hook_handle_def fun_upd_idem)
  ultimately show ?thesis by (intro exI [of _ ?s] exI [of _ ?p]) simp
qed

lemma memory_fopen_fclose_witness:
  "\<exists>s. hook_fopen memory_file_filter sample_libc ''a'' ''r'' sample_hooks = Ret (0x7000, s) \<and>
    hook_fclose memory_file_filter sample_libc 0x7000 s = Undef"
  using memory_fopen_fclose [where libc = sample_libc and name = "''a''" and s = sample_hooks and fp = "0x7000" and mode = "''r''"]
  by (auto simp: sample_hooks_def sample_libc_def)

text \<open>C38: \<^verbatim>\<open>open\<close> of a path that a pattern with files in memory matches is a fault when nothing is mapped at
  the address that the descriptor counter has as a number: the new descriptor is used as a pointer.\<close>
theorem memory_open_faults:
  assumes m: "first_match (regexec libc) name (hook_file_list s) = Some (item, items)"
    and a: "new_filter libc (world s) = (this, w)" "\<not> readable (process_memory libc w) (word_of_int (fd_index s))"
  shows "hook_open memory_file_filter libc name oflag mode s = Segv"
proof -
  have "load32 (process_memory libc w) (word_of_int (fd_index s)) = Segv"
    using a(2) by (simp add: load32_def numeral_eq_Suc load8_def)
  then show ?thesis using m a(1)
    by (simp add: hook_open_def check_and_create_handle_def fh_open_def memory_file_filter_def before_open_memory_def
        file_open_type_open_def require_fd_def the_value_def Let_def bit_0)
qed

lemma memory_open_faults_witness:
  "hook_open memory_file_filter sample_libc ''a'' 0 0 sample_hooks = Segv"
  by (rule memory_open_faults) (simp_all add: sample_hooks_def sample_libc_def readable_def no_memory_def)

section \<open>The table of patterns\<close>

text \<open>The keys ascend, below the next one, and no pattern is there twice.\<close>

definition hooks_inv :: "('f, 'w) hooks \<Rightarrow> bool" where
  "hooks_inv s \<longleftrightarrow>
     sorted_wrt (<) (map fst (hook_file_list s)) \<and> (\<forall>k \<in> fst ` set (hook_file_list s). 0 \<le> k \<and> k < map_hook_index s) \<and>
     distinct (map (reg_path \<circ> snd) (hook_file_list s)) \<and> 0 \<le> map_hook_index s"

lemma first_match_paths:
  "first_match matches name items = Some (item, items') \<Longrightarrow>
     map fst items' = map fst items \<and> map (reg_path \<circ> snd) items' = map (reg_path \<circ> snd) items"
  by (induction items arbitrary: items') (auto split: if_splits)

lemma hooks_inv_same:
  assumes "map fst (hook_file_list s') = map fst (hook_file_list s)"
    "map (reg_path \<circ> snd) (hook_file_list s') = map (reg_path \<circ> snd) (hook_file_list s)"
    "map_hook_index s' = map_hook_index s"
  shows "hooks_inv s' = hooks_inv s"
  unfolding hooks_inv_def list.set_map [symmetric] assms ..

lemma map_insert_last: "\<forall>k \<in> fst ` set items. k < n \<Longrightarrow> map_insert n v items = items @ [(n, v)]"
proof -
  assume a: "\<forall>k \<in> fst ` set items. k < n"
  then have "takeWhile (\<lambda>item. fst item < n) items = items" "dropWhile (\<lambda>item. fst item < n) items = []"
    by (auto simp: takeWhile_eq_all_conv dropWhile_eq_Nil_conv)
  with a show ?thesis by (auto simp: map_insert_def)
qed

lemma filter_sorted_keys: "sorted_wrt (<) (map fst items) \<Longrightarrow> sorted_wrt (<) (map fst (filter P items))"
  by (induction items) auto

text \<open>C34: The table of patterns keeps its keys in the order of registration and has no pattern twice. A new
  pattern is entered behind the others under the value of the counter, which is its handle. For a pattern
  that is in the table already nothing changes and the result is 0, whatever the handle of that pattern:
  unregistering this result takes the entry with the handle 0 out, if there is one, and leaves the
  pattern in the table, unless its own handle is 0.\<close>
theorem pattern_table:
  assumes inv: "hooks_inv s"
  shows "(map_hook_index s < 2 ^ 31 - 1 \<longrightarrow> hooks_inv (snd (register_file_hook path f s))) \<and>
    (check_hook_info path s \<longrightarrow> fst (register_file_hook path f s) = map_hook_index s \<and> hook_file_list (snd (register_file_hook path f s)) =
       hook_file_list s @ [(fst (register_file_hook path f s), \<lparr>reg_path = path, ffactory = f, open_index = 0\<rparr>)]) \<and>
    (\<not> check_hook_info path s \<longrightarrow> register_file_hook path f s = (0, s) \<and>
       (\<exists>k item. (k, item) \<in> set (hook_file_list s) \<and> reg_path item = path \<and>
          (k \<noteq> 0 \<longrightarrow> (k, item) \<in> set (hook_file_list (unregister_file_hook (fst (register_file_hook path f s)) s)))) \<and>
       0 \<notin> fst ` set (hook_file_list (unregister_file_hook (fst (register_file_hook path f s)) s))) \<and>
    hooks_inv (unregister_file_hook h s) \<and> hooks_inv (snd (check_and_create_handle libc name s))"
proof (intro conjI impI)
  have new: "register_file_hook path f s = (map_hook_index s, s\<lparr>map_hook_index := to_int (map_hook_index s + 1),
      hook_file_list := hook_file_list s @ [(map_hook_index s, \<lparr>reg_path = path, ffactory = f, open_index = 0\<rparr>)]\<rparr>)"
    if "check_hook_info path s"
    using that map_insert_last [of "hook_file_list s" "map_hook_index s"] inv
    by (simp add: register_file_hook_def hooks_inv_def Let_def)
  show old: "register_file_hook path f s = (0, s)" if "\<not> check_hook_info path s"
    using that by (simp add: register_file_hook_def)
  show "fst (register_file_hook path f s) = map_hook_index s" if "check_hook_info path s" using new [OF that] by simp
  show "\<exists>k item. (k, item) \<in> set (hook_file_list s) \<and> reg_path item = path \<and>
      (k \<noteq> 0 \<longrightarrow> (k, item) \<in> set (hook_file_list (unregister_file_hook (fst (register_file_hook path f s)) s)))"
    if "\<not> check_hook_info path s"
    using that old [OF that] by (fastforce simp: check_hook_info_def list_all_iff unregister_file_hook_def)
  show "0 \<notin> fst ` set (hook_file_list (unregister_file_hook (fst (register_file_hook path f s)) s))"
    if "\<not> check_hook_info path s" using old [OF that] by (auto simp: unregister_file_hook_def)
  show "hook_file_list (snd (register_file_hook path f s)) =
      hook_file_list s @ [(fst (register_file_hook path f s), \<lparr>reg_path = path, ffactory = f, open_index = 0\<rparr>)]"
    if "check_hook_info path s" using new [OF that] by simp
  show "hooks_inv (snd (register_file_hook path f s))" if small: "map_hook_index s < 2 ^ 31 - 1"
  proof (cases "check_hook_info path s")
    case True
    have "to_int (map_hook_index s + 1) = map_hook_index s + 1" using inv small by (simp add: to_int_id hooks_inv_def)
    moreover have "\<forall>item \<in> set (hook_file_list s). reg_path (snd item) \<noteq> path"
      using True by (simp add: check_hook_info_def list_all_iff)
    ultimately show ?thesis using inv new [OF True] by (auto simp: hooks_inv_def sorted_wrt_append)
  qed (use old inv in simp)
  show "hooks_inv (unregister_file_hook h s)"
    using inv by (auto simp: hooks_inv_def unregister_file_hook_def filter_sorted_keys distinct_map_filter)
  show "hooks_inv (snd (check_and_create_handle libc name s))"
  proof (cases "first_match (regexec libc) name (hook_file_list s)")
    case (Some r)
    obtain item items where "r = (item, items)" by (cases r)
    with Some have f: "first_match (regexec libc) name (hook_file_list s) = Some (item, items)" by simp
    have "hooks_inv (snd (check_and_create_handle libc name s)) = hooks_inv s"
      using first_match_paths [OF f] by (intro hooks_inv_same) (simp_all add: check_and_create_handle_def f split: prod.splits)
    then show ?thesis using inv by simp
  qed (use inv in \<open>simp add: check_and_create_handle_def\<close>)
qed

lemma sample_hooks_inv: "hooks_inv sample_hooks"
  by (simp add: hooks_inv_def sample_hooks_def)

lemma sample_hooks_table: "map_hook_index sample_hooks = 1" "\<not> check_hook_info ''a'' sample_hooks"
  by (simp_all add: sample_hooks_def check_hook_info_def)

definition two_patterns :: "(memory_file, unit) hooks" where
  "two_patterns = sample_hooks\<lparr>map_hook_index := 2, hook_file_list := hook_file_list sample_hooks @
     [(1, \<lparr>reg_path = ''b'', ffactory = sample_file, open_index = 0\<rparr>)]\<rparr>"

lemma two_patterns_inv: "hooks_inv two_patterns" "\<not> check_hook_info ''b'' two_patterns"
  by (simp_all add: hooks_inv_def two_patterns_def sample_hooks_def check_hook_info_def)

lemma pattern_table_witness:
  "hooks_inv (snd (register_file_hook ''b'' sample_file sample_hooks)) \<and>
   fst (register_file_hook ''b'' sample_file sample_hooks) = 1 \<and>
   register_file_hook ''b'' sample_file two_patterns = (0, two_patterns) \<and>
   map fst (hook_file_list (unregister_file_hook 0 two_patterns)) = [1]"
proof -
  have "check_hook_info ''b'' sample_hooks" by (simp add: sample_hooks_def check_hook_info_def)
  then show ?thesis
    using pattern_table [OF sample_hooks_inv, of "''b''" sample_file] pattern_table [OF two_patterns_inv(1), of "''b''" sample_file]
      two_patterns_inv(2)
    by (simp add: sample_hooks_table) (simp add: two_patterns_def sample_hooks_def unregister_file_hook_def)
qed

section \<open>Other files\<close>

text \<open>A path that no pattern matches and a handle that is not in the table go to the library, with the
  arguments of the call and nothing else changed; only \<^verbatim>\<open>popen\<close> and \<^verbatim>\<open>pclose\<close> become \<^verbatim>\<open>fopen\<close> and
  \<^verbatim>\<open>fclose\<close>.\<close>
theorem other_files_untouched:
  assumes n: "first_match (regexec libc) name (hook_file_list s) = None"
    and h: "g_hook s fp = None" "g_hook s (word_of_int fd) = None"
  shows "hook_fopen ff libc name mode s = forward (phook_fopen libc name mode) s \<and>
    hook_open ff libc name oflag md s = forward (phook_open libc name oflag (if bit oflag 6 then Some md else None)) s \<and>
    hook_fread ff libc sz n' fp s = forward (phook_fread libc sz n' fp) s \<and>
    hook_fwrite ff libc buf sz n' fp s = forward (phook_fwrite libc buf sz n' fp) s \<and>
    hook_fclose ff libc fp s = forward (phook_fclose libc fp) s \<and>
    hook_read ff libc fd k s = forward (phook_read libc fd k) s \<and>
    hook_pread ff libc fd k pos s = forward (phook_pread libc fd k pos) s \<and>
    hook_write ff libc fd buf s = forward (phook_write libc fd buf) s \<and>
    hook_close ff libc fd s = forward (phook_close libc fd) s \<and>
    hook_stat ff libc name buf s = forward (phook_stat libc name buf) s \<and>
    hook_access ff libc name k s = forward (phook_access libc name k) s \<and>
    hook_popen ff libc name mode s = forward (phook_fopen libc name mode) s \<and>
    hook_pclose ff libc fp s = forward (phook_fclose libc fp) s"
proof -
  have "check_and_create_handle libc name s = (None, s)" using n by (simp add: check_and_create_handle_def)
  then show ?thesis using h
    by (simp add: hook_fopen_def hook_open_def hook_fread_def hook_fwrite_def hook_fclose_def hook_read_def hook_pread_def
        hook_write_def hook_close_def hook_stat_def hook_access_def hook_popen_def hook_pclose_def dispatch_def
        dispatch_path_def dispatch_close_def get_hook_handle_def Let_def)
qed

lemma other_files_untouched_witness:
  "hook_open memory_file_filter sample_libc ''b'' 0 0 sample_hooks = Ret (-1, sample_hooks)"
  using other_files_untouched [of sample_libc "''b''" sample_hooks 6 6 memory_file_filter "[]" 0 0]
  by (simp add: forward_def sample_hooks_def sample_libc_def)

end
