(* ===== verification/Fh_Init.thy ===== *)
theory Fh_Init
  imports Xh_Core
begin

text \<open>
  The interface of \<^verbatim>\<open>libxhook\<close> (\<^verbatim>\<open>xhook.c\<close>; \<^verbatim>\<open>xhook_clear\<close> is the two parts of \<^verbatim>\<open>xh_core_clear\<close> as they are),
  and its use by \<^verbatim>\<open>init_file_hook\<close>, which puts the file functions of \<^verbatim>\<open>file_hook.cpp\<close> in place of those
  of the library: the address of \<^verbatim>\<open>hook_\<close>\<open>f\<close> and the variable \<^verbatim>\<open>phook_\<close>\<open>f\<close> are parameters.
\<close>

definition xhook_register ::
    "'re env \<Rightarrow> string option \<Rightarrow> string option \<Rightarrow> u64 \<Rightarrow> addr \<Rightarrow> 're core \<Rightarrow> int \<times> 're core" where
  "xhook_register env pathname_regex_str symbol new_func old_func c =
     xh_core_register env pathname_regex_str symbol new_func old_func c"

definition xhook_ignore :: "'re env \<Rightarrow> string option \<Rightarrow> string option \<Rightarrow> 're core \<Rightarrow> int \<times> 're core" where
  "xhook_ignore env pathname_regex_str symbol c = xh_core_ignore env pathname_regex_str symbol c"

definition xhook_refresh :: "'re env \<Rightarrow> bool \<Rightarrow> 're core \<Rightarrow> ('re, int) crun" where
  "xhook_refresh env async c = xh_core_refresh env async c"

definition xhook_enable_debug :: "bool \<Rightarrow> 're core \<Rightarrow> 're core" where
  "xhook_enable_debug flag c = xh_core_enable_debug flag c"

definition xhook_enable_sigsegv_protection :: "bool \<Rightarrow> 're core \<Rightarrow> 're core" where
  "xhook_enable_sigsegv_protection flag c = xh_core_enable_sigsegv_protection flag c"

text \<open>The functions that are replaced, in the order of the calls.\<close>

definition file_hook_symbols :: "string list" where
  "file_hook_symbols =
     [''open'', ''read'', ''pread'', ''write'', ''pwrite'', ''fstat'', ''close'',
      ''popen'', ''pclose'', ''fopen'', ''fclose'', ''fread'', ''fwrite'', ''fgets'', ''fputs'', ''fseek'', ''ftell'',
      ''rewind'', ''lstat'', ''stat'', ''rename'', ''access'']"

fun register_all :: "'re env \<Rightarrow> string \<Rightarrow> (string \<Rightarrow> u64) \<Rightarrow> (string \<Rightarrow> addr) \<Rightarrow> string list \<Rightarrow> 're core \<Rightarrow> 're core" where
  "register_all env module_name hook phook [] c = c"
| "register_all env module_name hook phook (x # xs) c =
     register_all env module_name hook phook xs
       (snd (xhook_register env (Some module_name) (Some x) (hook x) (phook x) c))"

definition init_file_hook :: "'re env \<Rightarrow> (string \<Rightarrow> u64) \<Rightarrow> (string \<Rightarrow> addr) \<Rightarrow> 're core \<Rightarrow> ('re, int) crun" where
  "init_file_hook env hook phook c =
     xhook_refresh env False (register_all env ''libsmsdk.so'' hook phook file_hook_symbols c)"

lemma register_all_appends:
  assumes "regcomp env module_name = Some r" "\<forall>n. alloc_ok env n" "\<not> inited c" "\<forall>x \<in> set xs. hook x \<noteq> 0"
  shows "register_all env module_name hook phook xs c =
    c\<lparr>hook_infos := hook_infos c @
        map (\<lambda>x. \<lparr>hi_pathname_regex = r, hi_symbol = x, hi_new_func = hook x, hi_old_func = phook x\<rparr>) xs,
      allocs := allocs c + 2 * length xs\<rparr>"
  using assms(3,4)
proof (induction xs arbitrary: c)
  case (Cons x xs)
  have "snd (xhook_register env (Some module_name) (Some x) (hook x) (phook x) c) =
      c\<lparr>hook_infos := hook_infos c @ [\<lparr>hi_pathname_regex = r, hi_symbol = x, hi_new_func = hook x, hi_old_func = phook x\<rparr>],
        allocs := allocs c + 2\<rparr>"
    using assms(1,2) Cons.prems by (simp add: xhook_register_def xh_core_register_def alloc_def Let_def)
  then show ?case using Cons by simp
qed simp

text \<open>Before the first refresh, with memory and a valid expression, the initialisation of the file hooks
  registers the twenty-two functions for the one library and refreshes: every library that is hooked
  from then on is hooked with all of them.\<close>
theorem file_hooks_registered:
  assumes "regcomp env ''libsmsdk.so'' = Some r" "\<forall>n. alloc_ok env n" "\<not> inited c"
    "\<forall>x \<in> set file_hook_symbols. hook x \<noteq> 0"
  shows "init_file_hook env hook phook c = xh_core_refresh env False
    (c\<lparr>hook_infos := hook_infos c @ map (\<lambda>x. \<lparr>hi_pathname_regex = r, hi_symbol = x, hi_new_func = hook x,
         hi_old_func = phook x\<rparr>) file_hook_symbols, allocs := allocs c + 44\<rparr>)"
  unfolding init_file_hook_def xhook_refresh_def register_all_appends [OF assms] by (simp add: file_hook_symbols_def)

end
