(* ===== verification/Spec2Isabelle.thy ===== *)
theory Spec2Isabelle
  imports Xh_Init Xh_Hook Xh_Thread X86_Sse_Tables X86_Operands A64_Trampoline Db_Instrumented Js_Props Fh_Props Fh_Init
begin

text \<open>
  \<^bold>\<open>What this development is.\<close> The repository builds Android libraries that trace a running program
  by redirecting its functions. Two engines do the redirection, and the application builds on them.
  They are modelled here as the source has them on the 64-bit little-endian target (\<^verbatim>\<open>arm64-v8a\<close>):

  \<^item> \<^verbatim>\<open>libxhook\<close> (\<^verbatim>\<open>src/app/src/main/cpp/libxhook\<close>) replaces the function pointers through which a loaded
    library calls others: it walks the map of the process, reads the ELF tables of each library in
    memory, finds the symbol, and writes the new address into the slots of the relocation tables;

  \<^item> \<^verbatim>\<open>Dobby\<close> (\<^verbatim>\<open>src/app/src/main/cpp/dobby\<close>) writes a jump over the first instructions of a function;
    before that it relocates these instructions to memory of its own, so that the function can
    still be called. An instrumented instruction jumps to a closure trampoline instead, which calls
    a callback with the registers and goes on with the relocated code;

  \<^item> the application itself answers the file functions of a traced library from files in memory
    (\<^verbatim>\<open>hook_libc\<close>), and takes the names and signatures of native methods apart (\<^verbatim>\<open>hook_jni\<close>).

  \<^bold>\<open>Theories and source.\<close> Each group of definitions follows one part of the source, in its order and
  with its names; C++ state is a record that the operations pass on.

  \<^item> \<^theory_text>\<open>Prelude\<close>: machine types, memory as bytes with page protections, loads and stores that can
    fault, C strings in memory.
  \<^item> \<^theory_text>\<open>Xh_Reloc\<close>, \<^theory_text>\<open>Xh_Packed\<close> (\<^verbatim>\<open>xh_elf.c\<close>): the iterators over plain and packed relocation tables. The packed
    iterator decodes exactly what a reference encoder of the format wrote.
  \<^item> \<^theory_text>\<open>Xh_Util\<close> (\<^verbatim>\<open>xh_util.c\<close>): protection of an address from the text of the map, and its change.
  \<^item> \<^theory_text>\<open>Xh_Elf\<close>, \<^theory_text>\<open>Xh_Symbols\<close>, \<^theory_text>\<open>Xh_Init\<close>, \<^theory_text>\<open>Xh_Hook\<close> (\<^verbatim>\<open>xh_elf.c\<close>): the operations on one library, the soundness
    and completeness of the two hash lookups, the invariant that initialisation establishes, and
    what a hook does to memory: the slots of the symbol get the new address, nothing else changes.
  \<^item> \<^theory_text>\<open>Xh_Core\<close>, \<^theory_text>\<open>Xh_Refresh\<close>, \<^theory_text>\<open>Xh_Thread\<close> (\<^verbatim>\<open>xh_core.c\<close>): the registered hooks, the refresh, the recovery from
    faults, and the refresh thread as a step relation whose steps are the critical sections of the
    locks and the calls of one client; invariants hold in every reachable state, and a clear that joins
    the thread ends with everything cleared.
  \<^item> \<^theory_text>\<open>X86_Tables\<close>, \<^theory_text>\<open>X86_Sse_Tables\<close>, \<^theory_text>\<open>X86_Decode\<close> (\<^verbatim>\<open>x86_insn_decode\<close>): Dobby's x86 decoder and its tables.
    \<^theory_text>\<open>X86_Safety\<close> shows that it never reads outside its buffer. \<^theory_text>\<open>X86_Intel\<close> gives the length of an instruction
    after the processor manual: its opcode maps are written down from the manual, and nothing of the
    decoder is in them. \<^theory_text>\<open>X86_Rows\<close> compares the rows of the decoder's tables with these maps, \<^theory_text>\<open>X86_Cursor\<close>
    says exactly how far each stage of the decoder moves, and \<^theory_text>\<open>X86_Length\<close> has the result: the length is
    that of the manual exactly when the instruction is not one of the listed departures.
    \<^theory_text>\<open>X86_Operands\<close> is about the operands a relocation rewrites.
  \<^item> \<^theory_text>\<open>A64_Kit\<close>, \<^theory_text>\<open>A64_Asm\<close>, \<^theory_text>\<open>A64_Reloc\<close>, \<^theory_text>\<open>A64_Trampoline\<close> (\<^verbatim>\<open>InstructionRelocation/arm64\<close>, \<^verbatim>\<open>core/assembler\<close>,
    \<^verbatim>\<open>TrampolineBridge/Trampoline/arm64\<close>): the bit macros, the assembler, the relocation and the
    trampoline. \<^theory_text>\<open>A64_Isa\<close> is the part of the instruction set they use, from the architecture manual:
    a specification, not a model of code. \<^theory_text>\<open>A64_Layout\<close>, \<^theory_text>\<open>A64_Block\<close>, \<^theory_text>\<open>A64_Exec\<close>, \<^theory_text>\<open>A64_Sim\<close>,
    \<^theory_text>\<open>A64_Correct\<close> show that relocated code simulates the original one.
  \<^item> \<^theory_text>\<open>Db_Memory\<close>, \<^theory_text>\<open>Db_Near\<close>, \<^theory_text>\<open>Db_Hook\<close> (\<^verbatim>\<open>MemoryAllocator\<close>, \<^verbatim>\<open>Backend/UserMode\<close>, \<^verbatim>\<open>InterceptRouting\<close>,
    \<^verbatim>\<open>Interceptor.cpp\<close>, \<^verbatim>\<open>dobby.cpp\<close>): memory for code, the registry and the interface. \<^theory_text>\<open>Db_Patch\<close>,
    \<^theory_text>\<open>Db_Alloc\<close>, \<^theory_text>\<open>Db_Hooked\<close>, \<^theory_text>\<open>Db_Slot\<close>, \<^theory_text>\<open>Db_Dobby\<close> hold their correctness, down to the machine: a call of a
    hooked function runs the replacement, a call through the returned pointer what the function was.
    \<^theory_text>\<open>Db_Patch\<close> gives the outcome of a code patch of any length, the fault of one that spans three pages
    or more included; \<^theory_text>\<open>Db_Slot\<close> says when the store of the old entry to the caller's variable succeeds.
  \<^item> \<^theory_text>\<open>A64_Closure\<close>, \<^theory_text>\<open>Db_Instrument\<close> (\<^verbatim>\<open>ClosureTrampolineBridge/arm64\<close>, \<^verbatim>\<open>InstructionInstrument\<close>): the code of
    the closure trampoline and of the bridge, the handlers, \<^verbatim>\<open>DobbyInstrument\<close>. \<^theory_text>\<open>A64_Stack\<close> adds stores, pairs
    and the return to the instruction set, again as a specification; \<^theory_text>\<open>A64_Bridge\<close>, \<^theory_text>\<open>A64_Handled\<close>,
    \<^theory_text>\<open>Db_Instrumented\<close> follow the machine from the instrumented instruction to the callback and back.
    The proofs take the build without the full vector register pack, which is the default.
  \<^item> \<^theory_text>\<open>Js_Strings\<close>, \<^theory_text>\<open>Js_Parse\<close> (\<^verbatim>\<open>utils/str_helper.cpp\<close>, \<^verbatim>\<open>hook_jni/parse_java_sig.cpp\<close>): strings and the parsers.
    \<^theory_text>\<open>Js_Correct\<close>, \<^theory_text>\<open>Js_Names\<close>, \<^theory_text>\<open>Js_Decl\<close>, \<^theory_text>\<open>Js_Props\<close> compare them with the grammar of descriptors, the
    mangling of native names, escapes included, and the form of a printed declaration.
  \<^item> \<^theory_text>\<open>Fh_Memory\<close>, \<^theory_text>\<open>Fh_Hook\<close>, \<^theory_text>\<open>Fh_Init\<close> (\<^verbatim>\<open>hook_libc\<close>, \<^verbatim>\<open>xhook.c\<close>): the file in memory, the filters, the
    replacements of the file functions and their registration. \<^theory_text>\<open>Fh_Write\<close>, \<^theory_text>\<open>Fh_Files\<close>, \<^theory_text>\<open>Fh_Props\<close>
    show that the file refines a list of bytes with a position, through the contract of a filter
    as a locale, and where the replacements do something else than the functions of the library.

  \<^bold>\<open>How results are read.\<close> A C fragment that may fault ends in \<open>Ret\<close>, \<open>Segv\<close> or \<open>Undef\<close> (in Dobby \<open>Ok\<close>,
  \<open>Sigsegv\<close>, \<open>Abort\<close>, \<open>UB\<close>). A loop that may run for ever is a partial function whose value is then
  \<open>None\<close>; termination theorems say when it is not. Words have the width of the source and wrap.

  \<^bold>\<open>Bounds and assumptions.\<close> The x86 buffer has twenty bytes, of which fifteen are code, and a legacy
  prefix run of at most seven bytes is in range. Relocated code is at most \<open>2 ^ 20\<close> bytes, the range of a
  literal load. That relocated code does the same as the original is claimed for the instructions of
  \<open>relocatable\<close>; of other PC-relative ones (a branch on the condition \<^verbatim>\<open>al\<close> or \<^verbatim>\<open>nv\<close>, a load of a literal of
  32 bits or into a vector register), which the code relocates wrongly, nothing is said. The
  theorems on hooks are for the build without the near branch plugin, and for a replacement that is
  not between 4 GiB less a page and 4 GiB away. The text of \<^verbatim>\<open>/proc/self/maps\<close> is read as one snapshot taken when it is opened. Pages
  have 4096 bytes. The kernel (\<^verbatim>\<open>mmap\<close>, \<^verbatim>\<open>mprotect\<close>), regular expressions and what the heap held before a
  constructor are parameters, and so is the C library behind the replaced file functions; \<open>kernel_ok\<close> is the documented behaviour of the kernel, whose \<^verbatim>\<open>mprotect\<close> is only called with whole pages.
  The handler of \<^verbatim>\<open>libxhook\<close> stays installed when it has run: \<^verbatim>\<open>sa_flags\<close>, which the code leaves
  uninitialised, is taken to be zero. Assertions are
  on or off by the parameter \<open>ndebug\<close>; the debug assertions (\<^verbatim>\<open>DCHECK\<close>) are off.

  \<^bold>\<open>Not modelled.\<close> The other targets of Dobby (arm, x86 and x64 relocation and assemblers, Darwin and
  Windows back ends, kernel mode) and its plugins; logging and debug dumps; the vendored libraries
  (\<^verbatim>\<open>json\<close>, \<^verbatim>\<open>tinyxml2\<close>, TINYSTL); the JNI and SSL hooks of the application, which log and forward
  calls; assembly files. The tree and queue macros of \<^verbatim>\<open>libxhook\<close> are used through a locale that
  states their contract: the tree is the ordered list of its items, so nothing is said of its nodes.
\<close>

end
